(* ===== verification/Badge_Prelude.thy ===== *)
theory Badge_Prelude
  imports Main "HOL-Library.Word" "HOL-Library.Signed_Division" "HOL-Library.Monad_Syntax"
begin

unbundle bit_operations_syntax

text \<open>
  Shared material of the badge firmware development: the machine integer types of the
  Rust sources, the byte codecs every component uses (little and big endian words), the
  parts of Rust's string and integer parsing library the sources call, and the store
  the components keep their persistent keys in.

  Rust strings are modelled as HOL strings (one \<open>char\<close> per byte).  Case conversion and
  white space are those of the ASCII range.  A Rust panic is the value \<open>None\<close> of an
  option result, or an error value where the code has an error type.
\<close>

section \<open>Types\<close>

type_synonym u8 = "8 word"
type_synonym u32 = "32 word"
type_synonym u64 = "64 word"
type_synonym bytes = "8 word list"

text \<open>How a thread can stop: with a panic, or in a loop or wait that never ends.\<close>

datatype stop = Panic | Hang

named_theorems codec \<open>round trips of byte and text encodings\<close>

section \<open>Random draws\<close>

text \<open>
  A draw of the random generator is an arbitrary natural number \<open>r\<close>.  \<open>gen_u8\<close> is
  \<open>gen::<u8>()\<close>; \<open>gen_range lo hi\<close> is \<open>gen_range(lo..=hi)\<close>, which panics on an empty
  range.  Every value the library can return is reached by some draw, and no other.
\<close>

definition gen_u8 :: "nat \<Rightarrow> u8" where
  "gen_u8 r = word_of_nat r"

definition gen_range :: "nat \<Rightarrow> nat \<Rightarrow> nat \<Rightarrow> nat option" where
  "gen_range lo hi r = (if lo \<le> hi then Some (lo + r mod (hi - lo + 1)) else None)"

lemma gen_range_bounds: "gen_range lo hi r = Some x \<Longrightarrow> lo \<le> x \<and> x \<le> hi"
  by (auto simp: gen_range_def less_Suc_eq_le [symmetric] split: if_splits)
     (metis Suc_eq_plus1 add.commute less_Suc_eq_le mod_less_divisor zero_less_Suc
        ordered_cancel_comm_monoid_diff_class.le_diff_conv2)

lemma gen_range_total: "lo \<le> hi \<Longrightarrow> \<exists>x. gen_range lo hi r = Some x"
  by (simp add: gen_range_def)

lemma gen_range_onto: "lo \<le> x \<Longrightarrow> x \<le> hi \<Longrightarrow> gen_range lo hi (x - lo) = Some x"
  by (simp add: gen_range_def)

section \<open>Words and bytes\<close>

definition le_bytes32 :: "u32 \<Rightarrow> bytes" where
  "le_bytes32 w = [ucast w, ucast (drop_bit 8 w), ucast (drop_bit 16 w), ucast (drop_bit 24 w)]"

definition u32_from_le :: "u8 \<Rightarrow> u8 \<Rightarrow> u8 \<Rightarrow> u8 \<Rightarrow> u32" where
  "u32_from_le a b c d =
     ucast a OR push_bit 8 (ucast b) OR push_bit 16 (ucast c) OR push_bit 24 (ucast d)"

definition u32_from_be :: "u8 \<Rightarrow> u8 \<Rightarrow> u8 \<Rightarrow> u8 \<Rightarrow> u32" where
  "u32_from_be a b c d = u32_from_le d c b a"

lemma length_le_bytes32 [simp]: "length (le_bytes32 w) = 4"
  by (simp add: le_bytes32_def)

lemma byte_of_u32_from_le [codec]:
  "ucast (u32_from_le a b c d) = a"
  "ucast (drop_bit 8 (u32_from_le a b c d)) = b"
  "ucast (drop_bit 16 (u32_from_le a b c d)) = c"
  "ucast (drop_bit 24 (u32_from_le a b c d)) = d"
  unfolding u32_from_le_def
  by (rule bit_word_eqI; auto simp: bit_simps dest: bit_imp_le_length)+

lemma le_bytes32_from_le [codec]: "le_bytes32 (u32_from_le a b c d) = [a, b, c, d]"
  by (simp add: le_bytes32_def codec)

lemma u32_from_le_le_bytes32 [codec]:
  "u32_from_le (ucast w) (ucast (drop_bit 8 w)) (ucast (drop_bit 16 w)) (ucast (drop_bit 24 w)) = w"
proof (rule bit_word_eqI)
  fix n assume "n < LENGTH(32)"
  then consider "n < 8" | "8 \<le> n" "n < 16" | "16 \<le> n" "n < 24" | "24 \<le> n" "n < 32"
    by fastforce
  then show "bit (u32_from_le (ucast w) (ucast (drop_bit 8 w)) (ucast (drop_bit 16 w))
      (ucast (drop_bit 24 w))) n = bit w n"
    by cases (auto simp: u32_from_le_def bit_simps)
qed

section \<open>Byte stores\<close>

text \<open>
  The value of a PDDB key is a byte string that a write overlays at a position: what lies
  beyond the written bytes stays (the PDDB server writes with \<open>truncate = false\<close>).
  \<open>overlay pos data old\<close> is the contents after such a write; a gap before \<open>pos\<close> reads
  as zeros.  A key/value dictionary is a map from key names to contents.
\<close>

definition overlay :: "nat \<Rightarrow> bytes \<Rightarrow> bytes \<Rightarrow> bytes" where
  "overlay pos data old =
     take pos (old @ replicate (pos - length old) 0) @ data @ drop (pos + length data) old"

type_synonym dict = "string \<rightharpoonup> bytes"

text \<open>\<open>dict_write\<close> opens a key (creating it) and writes from its start, as \<open>pddb.get\<close> with
  both \<open>create\<close> flags followed by \<open>write\<close> does.\<close>

definition dict_write :: "string \<Rightarrow> bytes \<Rightarrow> dict \<Rightarrow> dict" where
  "dict_write k data d = d(k \<mapsto> overlay 0 data (case d k of None \<Rightarrow> [] | Some old \<Rightarrow> old))"

definition dict_delete :: "string \<Rightarrow> dict \<Rightarrow> dict" where
  "dict_delete k d = d(k := None)"

text \<open>A read into a buffer of \<open>n\<close> bytes returns at most \<open>n\<close> bytes from the start; a key that
  is missing is created empty by the callers and reads nothing.\<close>

definition dict_read :: "string \<Rightarrow> nat \<Rightarrow> dict \<Rightarrow> bytes" where
  "dict_read k n d = take n (case d k of None \<Rightarrow> [] | Some v \<Rightarrow> v)"

lemma overlay_empty [simp]: "overlay 0 data [] = data"
  by (simp add: overlay_def)

lemma overlay_covers [simp]: "length old \<le> length data \<Longrightarrow> overlay 0 data old = data"
  by (simp add: overlay_def)

lemma take_overlay_0 [simp]: "take (length data) (overlay 0 data old) = data"
  by (simp add: overlay_def)

lemma dict_write_other [simp]: "k' \<noteq> k \<Longrightarrow> dict_write k data d k' = d k'"
  by (simp add: dict_write_def)

lemma dict_read_write: "length data = n \<Longrightarrow> dict_read k n (dict_write k data d) = data"
  by (auto simp: dict_read_def dict_write_def overlay_def)

lemma dict_write_fresh: "d k = None \<Longrightarrow> dict_write k data d = d(k \<mapsto> data)"
  by (simp add: dict_write_def)

lemma dict_read_delete [simp]: "dict_read k n (dict_delete k d) = []"
  by (simp add: dict_read_def dict_delete_def)

text \<open>
  The contract the badge's components rely on when they keep a value under a key of the
  PDDB: deleting and writing anew (\<open>recreate\<close>) leaves exactly the new contents, a write
  that covers the old contents replaces them, and no operation touches another key.
\<close>

locale key_store =
  fixes put :: "string \<Rightarrow> bytes \<Rightarrow> 'd \<Rightarrow> 'd"
    and del :: "string \<Rightarrow> 'd \<Rightarrow> 'd"
    and contents :: "string \<Rightarrow> 'd \<Rightarrow> bytes option"
  assumes contents_del: "contents k (del k' d) = (if k = k' then None else contents k d)"
    and contents_put: "contents k (put k' v d) =
      (if k = k' then Some (v @ drop (length v) (case contents k d of None \<Rightarrow> [] | Some w \<Rightarrow> w))
       else contents k d)"
begin

lemma recreate: "contents k (put k v (del k d)) = Some v"
  by (simp add: contents_put contents_del)

lemma recreate_other: "k \<noteq> k' \<Longrightarrow> contents k (put k' v (del k' d)) = contents k d"
  by (simp add: contents_put contents_del)

lemma write_covers:
  "(\<And>w. contents k d = Some w \<Longrightarrow> length w \<le> length v) \<Longrightarrow> contents k (put k v d) = Some v"
  by (simp add: contents_put split: option.splits)

lemma write_prefix:
  "contents k (put k v d) = Some w \<Longrightarrow> take (length v) w = v"
  by (auto simp: contents_put)

lemma write_keeps_tail:
  "contents k d = Some w \<Longrightarrow> length v \<le> length w \<Longrightarrow>
   \<exists>w'. contents k (put k v d) = Some w' \<and> length w' = length w \<and> drop (length v) w' = drop (length v) w"
  by (simp add: contents_put)

end

interpretation pddb_keys: key_store dict_write dict_delete "\<lambda>k d. d k"
  by unfold_locales (auto simp: dict_write_def dict_delete_def overlay_def)

section \<open>Strings\<close>

text \<open>Rust's \<open>split_once(c)\<close>: the text before and after the first \<open>c\<close>.\<close>

fun split_once :: "char \<Rightarrow> string \<Rightarrow> (string \<times> string) option" where
  "split_once c [] = None"
| "split_once c (x # xs) =
     (if x = c then Some ([], xs)
      else case split_once c xs of None \<Rightarrow> None | Some (a, b) \<Rightarrow> Some (x # a, b))"

text \<open>Rust's \<open>split(c)\<close>: never the empty list; a trailing \<open>c\<close> gives a last empty piece.\<close>

fun split_on :: "char \<Rightarrow> string \<Rightarrow> string list" where
  "split_on c [] = [[]]"
| "split_on c (x # xs) =
     (if x = c then [] # split_on c xs
      else case split_on c xs of [] \<Rightarrow> [[x]] | p # ps \<Rightarrow> (x # p) # ps)"

lemma split_once_append: "c \<notin> set a \<Longrightarrow> split_once c (a @ c # b) = Some (a, b)"
  by (induction a) auto

lemma split_once_None: "split_once c s = None \<longleftrightarrow> c \<notin> set s"
  by (induction s) (auto split: option.splits)

lemma split_once_SomeD: "split_once c s = Some (a, b) \<Longrightarrow> s = a @ c # b \<and> c \<notin> set a"
  by (induction s arbitrary: a b) (auto split: if_splits option.splits)

lemma split_on_nonempty [simp]: "split_on c s \<noteq> []"
  by (induction s) (auto split: list.splits)

lemma split_on_append: "c \<notin> set a \<Longrightarrow> split_on c (a @ c # b) = a # split_on c b"
  by (induction a) (auto split: list.splits)

lemma split_on_single: "c \<notin> set a \<Longrightarrow> split_on c a = [a]"
  by (induction a) (auto split: list.splits)

text \<open>ASCII white space (\<open>char::is_whitespace\<close> below 128), \<open>trim\<close> and \<open>split_whitespace\<close>.\<close>

definition is_ws :: "char \<Rightarrow> bool" where
  "is_ws c \<longleftrightarrow> c = CHR '' '' \<or> (9 \<le> (of_char c :: nat) \<and> (of_char c :: nat) \<le> 13)"

definition trim_str :: "string \<Rightarrow> string" where
  "trim_str s = rev (dropWhile is_ws (rev (dropWhile is_ws s)))"

fun split_ws_acc :: "string \<Rightarrow> string \<Rightarrow> string list" where
  "split_ws_acc acc [] = (if acc = [] then [] else [rev acc])"
| "split_ws_acc acc (x # xs) =
     (if is_ws x then (if acc = [] then split_ws_acc [] xs else rev acc # split_ws_acc [] xs)
      else split_ws_acc (x # acc) xs)"

definition split_whitespace :: "string \<Rightarrow> string list" where
  "split_whitespace s = split_ws_acc [] s"

lemma trim_str_id: "s = [] \<or> \<not> is_ws (hd s) \<and> \<not> is_ws (last s) \<Longrightarrow> trim_str s = s"
proof -
  have drop: "dropWhile P t = t" if "t = [] \<or> \<not> P (hd t)" for P and t :: string
    using that by (cases t) auto
  assume "s = [] \<or> \<not> is_ws (hd s) \<and> \<not> is_ws (last s)"
  then show ?thesis by (auto simp: trim_str_def drop hd_rev)
qed

text \<open>ASCII case conversion.\<close>

definition lower_char :: "char \<Rightarrow> char" where
  "lower_char c = (let n = of_char c :: nat in if 65 \<le> n \<and> n \<le> 90 then char_of (n + 32) else c)"

definition upper_char :: "char \<Rightarrow> char" where
  "upper_char c = (let n = of_char c :: nat in if 97 \<le> n \<and> n \<le> 122 then char_of (n - 32) else c)"

definition to_lower :: "string \<Rightarrow> string" where "to_lower = map lower_char"
definition to_upper :: "string \<Rightarrow> string" where "to_upper = map upper_char"

section \<open>Numbers in text\<close>

text \<open>
  \<open>char::to_digit(radix)\<close>, and \<open>from_str_radix\<close> for an unsigned type whose largest value is
  \<open>m\<close>: an optional \<open>+\<close>, then at least one digit; \<open>None\<close> for an empty string, a bad digit or
  an overflow.  \<open>str::parse\<close> is the same with radix 10.
\<close>

definition to_digit :: "nat \<Rightarrow> char \<Rightarrow> nat option" where
  "to_digit radix c =
     (let n = of_char c :: nat;
          v = (if 48 \<le> n \<and> n \<le> 57 then n - 48
               else if 97 \<le> n \<and> n \<le> 122 then n - 87
               else if 65 \<le> n \<and> n \<le> 90 then n - 55 else radix)
      in if v < radix then Some v else None)"

fun radix_digits :: "nat \<Rightarrow> nat \<Rightarrow> nat \<Rightarrow> string \<Rightarrow> nat option" where
  "radix_digits radix m acc [] = Some acc"
| "radix_digits radix m acc (c # cs) =
     (case to_digit radix c of None \<Rightarrow> None
      | Some d \<Rightarrow> if acc * radix + d \<le> m then radix_digits radix m (acc * radix + d) cs else None)"

definition from_str_radix :: "nat \<Rightarrow> nat \<Rightarrow> string \<Rightarrow> nat option" where
  "from_str_radix radix m s =
     (case s of [] \<Rightarrow> None
      | c # cs \<Rightarrow> if c = CHR ''+'' then (if cs = [] then None else radix_digits radix m 0 cs)
                  else radix_digits radix m 0 (c # cs))"

abbreviation u8_max :: nat where "u8_max \<equiv> 255"
abbreviation u32_max :: nat where "u32_max \<equiv> 4294967295"
abbreviation u64_max :: nat where "u64_max \<equiv> 18446744073709551615"

text \<open>\<open>Display\<close> of an unsigned integer.\<close>

definition digit_char :: "nat \<Rightarrow> char" where
  "digit_char d = char_of (48 + d)"

fun show_nat :: "nat \<Rightarrow> string" where
  "show_nat n = (if n < 10 then [digit_char n] else show_nat (n div 10) @ [digit_char (n mod 10)])"

declare show_nat.simps [simp del]

lemma of_char_digit_char: "d < 10 \<Longrightarrow> (of_char (digit_char d) :: nat) = 48 + d"
  by (simp add: digit_char_def)

lemma to_digit_digit_char [codec]: "d < 10 \<Longrightarrow> to_digit 10 (digit_char d) = Some d"
  by (simp add: to_digit_def of_char_digit_char Let_def)

lemma show_nat_set: "c \<in> set (show_nat n) \<Longrightarrow> \<exists>d<10. c = digit_char d"
proof (induction n rule: show_nat.induct)
  case (1 n)
  show ?case
  proof (cases "n < 10")
    case True
    with "1.prems" show ?thesis by (auto simp: show_nat.simps [of n])
  next
    case False
    with "1.prems" have "c \<in> set (show_nat (n div 10)) \<or> c = digit_char (n mod 10)"
      by (auto simp: show_nat.simps [of n])
    then show ?thesis using "1.IH" [OF False] by (auto intro: exI [of _ "n mod 10"])
  qed
qed

lemma show_nat_nonempty [simp]: "show_nat n \<noteq> []"
  by (subst show_nat.simps) simp

lemma show_nat_char_bounds: "c \<in> set (show_nat n) \<Longrightarrow> 48 \<le> (of_char c :: nat) \<and> (of_char c :: nat) \<le> 57"
  by (auto dest!: show_nat_set simp: of_char_digit_char)

lemma show_nat_no_char: "(of_char c :: nat) < 48 \<or> 57 < (of_char c :: nat) \<Longrightarrow> c \<notin> set (show_nat n)"
  using show_nat_char_bounds by fastforce

lemma digit_not_ws: "c \<in> set (show_nat n) \<Longrightarrow> \<not> is_ws c"
  by (auto simp: is_ws_def dest: show_nat_char_bounds)

lemma trim_show_nat: "\<not> is_ws (hd p) \<Longrightarrow> p \<noteq> [] \<Longrightarrow> trim_str (p @ show_nat n) = p @ show_nat n"
  using digit_not_ws [of "last (show_nat n)" n] by (intro trim_str_id) (simp add: last_in_set)

lemma trim_show_nat' [simp]: "trim_str (show_nat n) = show_nat n"
  using digit_not_ws [of "last (show_nat n)" n] digit_not_ws [of "hd (show_nat n)" n]
  by (intro trim_str_id) (simp add: last_in_set hd_in_set)

lemma radix_digits_append:
  "radix_digits r m acc (xs @ ys) =
     (case radix_digits r m acc xs of None \<Rightarrow> None | Some v \<Rightarrow> radix_digits r m v ys)"
  by (induction r m acc xs rule: radix_digits.induct) (auto split: option.splits)

lemma radix_digits_show_nat: "n \<le> m \<Longrightarrow> radix_digits 10 m 0 (show_nat n) = Some n"
proof (induction n rule: show_nat.induct)
  case (1 n)
  show ?case
  proof (cases "n < 10")
    case True
    with "1.prems" show ?thesis by (simp add: show_nat.simps [of n] codec)
  next
    case False
    then have "radix_digits 10 m 0 (show_nat (n div 10)) = Some (n div 10)"
      using "1.IH" "1.prems" by (meson div_le_dividend le_trans)
    moreover have "n div 10 * 10 + n mod 10 = n" by simp
    ultimately show ?thesis using False "1.prems"
      by (simp add: show_nat.simps [of n] radix_digits_append codec)
  qed
qed

lemma from_str_radix_show_nat [codec]: "n \<le> m \<Longrightarrow> from_str_radix 10 m (show_nat n) = Some n"
proof -
  assume n: "n \<le> m"
  obtain c cs where s: "show_nat n = c # cs" by (cases "show_nat n") auto
  then have "c \<noteq> CHR ''+''" using show_nat_char_bounds [of c n] by (auto)
  with s radix_digits_show_nat [OF n] show ?thesis by (simp add: from_str_radix_def)
qed

lemma radix_digits_le: "radix_digits r m acc s = Some v \<Longrightarrow> acc \<le> m \<Longrightarrow> v \<le> m"
  by (induction r m acc s rule: radix_digits.induct) (auto split: option.splits if_splits)

lemma from_str_radix_le: "from_str_radix r m s = Some v \<Longrightarrow> v \<le> m"
  by (auto simp: from_str_radix_def simp del: radix_digits.simps dest: radix_digits_le
      split: list.splits if_splits)

end
