(* ===== verification/Light_Genes.thy ===== *)
theory Light_Genes
  imports Badge_Prelude
begin

text \<open>
  The light genes of the badge (\<open>dc34-api/src/lib.rs\<close>): badge types and their ranges,
  mutation rates, the nine-byte haploid record and its encodings, the diploid individual,
  meiosis, and mutation in Gray code.  Every call of the random generator is an explicit
  draw; a function that draws several times takes \<open>d :: nat \<Rightarrow> nat\<close>, whose value at \<open>i\<close> is
  the draw of the \<open>i\<close>-th drawing expression of the source.
\<close>

section \<open>Badge types\<close>

datatype badge_type = Uber | Other | Community | Village | CtfContest | Human | Goon | NoBadge

fun badge_code :: "badge_type \<Rightarrow> u8" where
  "badge_code Uber = 0"
| "badge_code Other = 1"
| "badge_code Community = 2"
| "badge_code Village = 3"
| "badge_code CtfContest = 4"
| "badge_code Human = 5"
| "badge_code Goon = 6"
| "badge_code NoBadge = 7"

definition badge_try_from :: "u8 \<Rightarrow> u8 + badge_type" where
  "badge_try_from v =
     (if v = 0 then Inr Uber else if v = 1 then Inr Other else if v = 2 then Inr Community
      else if v = 3 then Inr Village else if v = 4 then Inr CtfContest
      else if v = 5 then Inr Human else if v = 6 then Inr Goon else if v = 7 then Inr NoBadge
      else Inl v)"

text \<open>\<open>BadgeType::try_from(v).unwrap_or(BadgeType::None)\<close>, as every caller uses it.\<close>

definition badge_or_none :: "u8 \<Rightarrow> badge_type" where
  "badge_or_none v = (case badge_try_from v of Inl _ \<Rightarrow> NoBadge | Inr b \<Rightarrow> b)"

fun hue_range :: "badge_type \<Rightarrow> nat \<times> nat" where
  "hue_range Goon = (0, 20)"
| "hue_range Community = (32, 80)"
| "hue_range Village = (80, 128)"
| "hue_range Human = (128, 160)"
| "hue_range Other = (160, 192)"
| "hue_range CtfContest = (192, 220)"
| "hue_range Uber = (220, 255)"
| "hue_range NoBadge = (128, 160)"

fun sat_range :: "badge_type \<Rightarrow> nat \<times> nat" where
  "sat_range Goon = (160, 255)"
| "sat_range Community = (32, 160)"
| "sat_range Village = (32, 160)"
| "sat_range Human = (32, 255)"
| "sat_range Other = (16, 255)"
| "sat_range CtfContest = (16, 255)"
| "sat_range Uber = (130, 255)"
| "sat_range NoBadge = (32, 255)"

fun chaser_range :: "badge_type \<Rightarrow> nat \<times> nat" where
  "chaser_range Goon = (90, 255)"
| "chaser_range Community = (90, 255)"
| "chaser_range Village = (90, 255)"
| "chaser_range Human = (90, 255)"
| "chaser_range Other = (0, 255)"
| "chaser_range CtfContest = (90, 255)"
| "chaser_range Uber = (0, 45)"
| "chaser_range NoBadge = (90, 255)"

fun nonlin_range :: "badge_type \<Rightarrow> nat \<times> nat" where
  "nonlin_range Goon = (0, 255)"
| "nonlin_range Community = (0, 255)"
| "nonlin_range Village = (0, 255)"
| "nonlin_range Human = (0, 255)"
| "nonlin_range Other = (0, 90)"
| "nonlin_range CtfContest = (0, 90)"
| "nonlin_range Uber = (0, 44)"
| "nonlin_range NoBadge = (0, 255)"

fun cd_dir_range :: "badge_type \<Rightarrow> nat \<times> nat" where
  "cd_dir_range Goon = (0, 255)"
| "cd_dir_range Community = (0, 255)"
| "cd_dir_range Village = (0, 45)"
| "cd_dir_range Human = (0, 255)"
| "cd_dir_range Other = (0, 255)"
| "cd_dir_range CtfContest = (0, 255)"
| "cd_dir_range Uber = (0, 45)"
| "cd_dir_range NoBadge = (0, 255)"

fun cd_period_max :: "badge_type \<Rightarrow> nat" where
  "cd_period_max Goon = 4"
| "cd_period_max Community = 2"
| "cd_period_max Village = 4"
| "cd_period_max Human = 5"
| "cd_period_max Other = 6"
| "cd_period_max CtfContest = 6"
| "cd_period_max Uber = 3"
| "cd_period_max NoBadge = 4"

section \<open>Mutation rates\<close>

datatype mutation_rate = NoMutation | Baseline | Elevated | Radioactive | Apocalyptic

fun rate_code :: "mutation_rate \<Rightarrow> u8" where
  "rate_code NoMutation = 0"
| "rate_code Baseline = 64"
| "rate_code Elevated = 100"
| "rate_code Radioactive = 140"
| "rate_code Apocalyptic = 240"

text \<open>The source orders rates by their codes (\<open>impl Ord for MutationRate\<close>), so \<open>max\<close> is the
  higher rate.\<close>

lemma rate_code_inj: "rate_code a = rate_code b \<Longrightarrow> a = b"
  by (cases a; cases b) simp_all

instantiation mutation_rate :: linorder
begin

definition less_eq_mutation_rate :: "mutation_rate \<Rightarrow> mutation_rate \<Rightarrow> bool" where
  "less_eq_mutation_rate a b \<longleftrightarrow> rate_code a \<le> rate_code b"

definition less_mutation_rate :: "mutation_rate \<Rightarrow> mutation_rate \<Rightarrow> bool" where
  "less_mutation_rate a b \<longleftrightarrow> rate_code a < rate_code b"

instance
  by standard (auto simp: less_eq_mutation_rate_def less_mutation_rate_def dest: rate_code_inj)

end

fun to_bit_changes :: "mutation_rate \<Rightarrow> u8" where
  "to_bit_changes NoMutation = 0"
| "to_bit_changes Baseline = 1"
| "to_bit_changes Elevated = 3"
| "to_bit_changes Radioactive = 7"
| "to_bit_changes Apocalyptic = 0x1f"

definition roll :: "mutation_rate \<Rightarrow> nat \<Rightarrow> bool" where
  "roll rate r = (if rate = NoMutation then False else gen_u8 r < rate_code rate)"

definition rate_from_param :: "u8 \<Rightarrow> mutation_rate" where
  "rate_from_param p =
     (if p < 30 then Baseline else if p < 70 then Elevated
      else if p < 120 then Radioactive else Apocalyptic)"

section \<open>Haploid and diploid genomes\<close>

record haploid =
  cd_period :: u8
  cd_rate :: u8
  cd_dir :: u8
  sat :: u8
  hue_ratedir :: u8
  hue_base :: u8
  hue_bound :: u8
  chaser :: u8
  nonlin :: u8

datatype diploid = Diploid haploid haploid

definition haploid_size :: nat where "haploid_size = 9"

definition h_serialize :: "haploid \<Rightarrow> bytes" where
  "h_serialize h = [cd_period h, cd_rate h, cd_dir h, sat h, hue_ratedir h, hue_base h,
     hue_bound h, chaser h, nonlin h]"

text \<open>\<open>bytemuck::try_from_bytes\<close> succeeds on exactly the size of the record.\<close>

fun h_deserialize :: "bytes \<Rightarrow> haploid option" where
  "h_deserialize [a, b, c, d, e, f, g, h, i] =
     Some \<lparr>cd_period = a, cd_rate = b, cd_dir = c, sat = d, hue_ratedir = e, hue_base = f,
       hue_bound = g, chaser = h, nonlin = i\<rparr>"
| "h_deserialize _ = None"

fun words_of_le :: "bytes \<Rightarrow> u32 list" where
  "words_of_le (a # b # c # d # rest) = u32_from_le a b c d # words_of_le rest"
| "words_of_le _ = []"

definition h_serialize_u32 :: "haploid \<Rightarrow> u32 list" where
  "h_serialize_u32 h = (let bs = h_serialize h in words_of_le (bs @ replicate (16 - length bs) 0))"

definition h_deserialize_u32 :: "u32 list \<Rightarrow> haploid option" where
  "h_deserialize_u32 ws = h_deserialize (take haploid_size (concat (map le_bytes32 ws)))"

definition d_serialize :: "diploid \<Rightarrow> bytes" where
  "d_serialize g = (case g of Diploid a b \<Rightarrow> h_serialize a @ h_serialize b)"

definition d_deserialize :: "bytes \<Rightarrow> diploid option" where
  "d_deserialize bs =
     (if length bs < haploid_size * 2 then None
      else case h_deserialize (take haploid_size bs) of None \<Rightarrow> None
        | Some a \<Rightarrow> (case h_deserialize (take haploid_size (drop haploid_size bs)) of
              None \<Rightarrow> None | Some b \<Rightarrow> Some (Diploid a b)))"

text \<open>\<open>Diploid::phenotype\<close> ignores the gene in this firmware and expresses the rainbow.\<close>

definition phenotype :: "diploid \<Rightarrow> haploid" where
  "phenotype g = \<lparr>cd_period = 1, cd_rate = 64, cd_dir = 128, sat = 255, hue_ratedir = 2,
     hue_base = 0, hue_bound = 255, chaser = 255, nonlin = 128\<rparr>"

section \<open>Drawing genomes\<close>

definition h_from_rand :: "(nat \<Rightarrow> nat) \<Rightarrow> haploid option" where
  "h_from_rand d =
     (case gen_range 0 6 (d 0) of None \<Rightarrow> None
      | Some p \<Rightarrow> Some \<lparr>cd_period = of_nat p, cd_rate = gen_u8 (d 1), cd_dir = gen_u8 (d 2),
          sat = gen_u8 (d 3), hue_ratedir = gen_u8 (d 4), hue_base = gen_u8 (d 5),
          hue_bound = gen_u8 (d 6), chaser = gen_u8 (d 7), nonlin = gen_u8 (d 8)\<rparr>)"

abbreviation gen_in :: "nat \<times> nat \<Rightarrow> nat \<Rightarrow> nat option" where
  "gen_in rng r \<equiv> gen_range (fst rng) (snd rng) r"

definition h_from_type :: "badge_type \<Rightarrow> (nat \<Rightarrow> nat) \<Rightarrow> haploid option" where
  "h_from_type bt d = do {
     p \<leftarrow> gen_range 0 (cd_period_max bt) (d 0);
     dir \<leftarrow> gen_in (cd_dir_range bt) (d 2);
     s \<leftarrow> gen_in (sat_range bt) (d 3);
     base0 \<leftarrow> gen_in (hue_range bt) (d 5);
     let base = (if bt = Goon then 0 else base0);
     bound0 \<leftarrow> gen_range base (snd (hue_range bt)) (d 6);
     let bound = (if bt = Uber then 255 else bound0);
     ch \<leftarrow> gen_in (chaser_range bt) (d 7);
     nl \<leftarrow> gen_in (nonlin_range bt) (d 8);
     Some \<lparr>cd_period = of_nat p, cd_rate = gen_u8 (d 1), cd_dir = of_nat dir, sat = of_nat s,
       hue_ratedir = gen_u8 (d 4), hue_base = of_nat base, hue_bound = of_nat bound,
       chaser = of_nat ch, nonlin = of_nat nl\<rparr>
   }"

text \<open>\<open>meiosis\<close> picks a parent for each linked group of genes; \<open>d i\<close> is the \<open>i\<close>-th
  \<open>gen_range(0..2)\<close>, a choice between the two chromosomes.\<close>

definition pick_parent :: "diploid \<Rightarrow> nat \<Rightarrow> haploid" where
  "pick_parent g r = (case g of Diploid a b \<Rightarrow> if r mod 2 = 0 then a else b)"

definition meiosis :: "diploid \<Rightarrow> (nat \<Rightarrow> nat) \<Rightarrow> haploid" where
  "meiosis g d =
     (let cd = pick_parent g (d 0); s = pick_parent g (d 1); hue = pick_parent g (d 2);
          ch = pick_parent g (d 3); nl = pick_parent g (d 4)
      in \<lparr>cd_period = cd_period cd, cd_rate = cd_rate cd, cd_dir = cd_dir cd, sat = sat s,
          hue_ratedir = hue_ratedir hue, hue_base = hue_base hue, hue_bound = hue_bound hue,
          chaser = chaser ch, nonlin = nonlin nl\<rparr>)"

section \<open>Mutation in Gray code\<close>

definition gray_encode :: "u8 \<Rightarrow> u8" where
  "gray_encode n = n XOR drop_bit 1 n"

lemma drop_bit_1_less: "drop_bit 1 (n::u8) \<noteq> 0 \<Longrightarrow> unat (drop_bit 1 n) < unat n"
proof -
  assume h: "drop_bit 1 n \<noteq> 0"
  have eq: "unat (drop_bit 1 n) = unat n div 2"
    by (simp add: drop_bit_eq_div unat_div)
  have "n \<noteq> 0" using h by auto
  then have "0 < unat n" by (simp add: unat_gt_0)
  then show ?thesis using eq by simp
qed

function gray_loop :: "u8 \<Rightarrow> u8 \<Rightarrow> u8" where
  "gray_loop n p =
     (if drop_bit 1 n \<noteq> 0 then gray_loop (drop_bit 1 n) (p XOR drop_bit 1 n) else p)"
  by pat_completeness auto
termination
  by (relation "measure (\<lambda>(n, p). unat n)") (use drop_bit_1_less in auto)

declare gray_loop.simps [simp del]

definition gray_decode :: "u8 \<Rightarrow> u8" where
  "gray_decode n = gray_loop n n"

definition mutation_func :: "u8 \<Rightarrow> u8 \<Rightarrow> nat \<Rightarrow> u8" where
  "mutation_func gene bits r = gray_decode (gray_encode gene XOR push_bit (r mod 8) bits)"

text \<open>Draws \<open>2 * i\<close> and \<open>2 * i + 1\<close> are the roll of the \<open>i\<close>-th gene and its shift.\<close>

definition mutate_gene :: "mutation_rate \<Rightarrow> (nat \<Rightarrow> nat) \<Rightarrow> nat \<Rightarrow> u8 \<Rightarrow> u8" where
  "mutate_gene rate d i g =
     (if roll rate (d (2 * i)) then mutation_func g (to_bit_changes rate) (d (2 * i + 1)) else g)"

definition mutate :: "haploid \<Rightarrow> mutation_rate \<Rightarrow> (nat \<Rightarrow> nat) \<Rightarrow> haploid" where
  "mutate h rate d =
     \<lparr>cd_period = (if roll rate (d 0)
        then mutation_func (cd_period h) (to_bit_changes rate) (d 1) mod 7 else cd_period h),
      cd_rate = mutate_gene rate d 1 (cd_rate h),
      cd_dir = mutate_gene rate d 2 (cd_dir h),
      sat = mutate_gene rate d 3 (sat h),
      hue_ratedir = mutate_gene rate d 4 (hue_ratedir h),
      hue_base = mutate_gene rate d 5 (hue_base h),
      hue_bound = mutate_gene rate d 6 (hue_bound h),
      chaser = mutate_gene rate d 7 (chaser h),
      nonlin = mutate_gene rate d 8 (nonlin h)\<rparr>"

section \<open>Lemmas: encodings\<close>

lemma badge_round_trip [codec]: "badge_try_from (badge_code b) = Inr b"
  by (cases b) (simp_all add: badge_try_from_def)

lemma badge_or_none_code [codec]: "badge_or_none (badge_code b) = b"
  by (simp add: badge_or_none_def codec)

lemma length_h_serialize [simp]: "length (h_serialize h) = 9"
  by (simp add: h_serialize_def)

lemma h_round_trip [codec]: "h_deserialize (h_serialize h) = Some h"
  by (simp add: h_serialize_def)

lemma h_deserialize_Some_iff: "(\<exists>h. h_deserialize bs = Some h) \<longleftrightarrow> length bs = 9"
  by (cases bs rule: h_deserialize.cases) auto

lemma h_serialize_deserialize: "h_deserialize bs = Some h \<Longrightarrow> h_serialize h = bs"
  by (cases bs rule: h_deserialize.cases) (auto simp: h_serialize_def)

lemma concat_words_of_le: "length bs mod 4 = 0 \<Longrightarrow> concat (map le_bytes32 (words_of_le bs)) = bs"
proof (induction bs rule: words_of_le.induct)
  case (1 a b c d rest)
  then show ?case by (simp add: codec mod_Suc split: if_splits)
qed auto

lemma h_words_bytes: "concat (map le_bytes32 (h_serialize_u32 h)) = h_serialize h @ replicate 7 0"
  by (simp add: h_serialize_u32_def Let_def concat_words_of_le)

lemma length_h_serialize_u32: "length (h_serialize_u32 h) = 4"
  by (simp add: h_serialize_u32_def h_serialize_def eval_nat_numeral)

lemma h_u32_round_trip [codec]: "h_deserialize_u32 (h_serialize_u32 h) = Some h"
  by (simp add: h_deserialize_u32_def h_words_bytes haploid_size_def codec)

lemma d_round_trip [codec]: "d_deserialize (d_serialize g @ rest) = Some g"
  by (cases g) (simp add: d_deserialize_def d_serialize_def haploid_size_def codec)

lemma length_d_serialize [simp]: "length (d_serialize g) = 18"
  by (cases g) (simp add: d_serialize_def)

section \<open>Lemmas: Gray code\<close>

lemma drop_bit_u8_8: "8 \<le> k \<Longrightarrow> drop_bit k (n::u8) = 0"
  by (rule bit_word_eqI) (simp add: bit_simps)

lemma gray_loop_closed:
  "gray_loop n p = p XOR drop_bit 1 n XOR drop_bit 2 n XOR drop_bit 3 n XOR drop_bit 4 n
     XOR drop_bit 5 n XOR drop_bit 6 n XOR drop_bit 7 n"
proof (induction n p rule: gray_loop.induct)
  case (1 n p)
  show ?case
  proof (cases "drop_bit 1 n = 0")
    case True
    have "drop_bit (Suc k) n = 0" for k
      by (metis True drop_bit_drop_bit drop_bit_of_0 plus_1_eq_Suc add.commute)
    from this [of 1] this [of 2] this [of 3] this [of 4] this [of 5] this [of 6] True
    show ?thesis by (simp add: gray_loop.simps [of n] eval_nat_numeral)
  next
    case False
    then show ?thesis
      using "1.IH" by (simp add: gray_loop.simps [of n] drop_bit_u8_8 ac_simps eval_nat_numeral)
  qed
qed

lemma gray_decode_encode [codec]: "gray_decode (gray_encode n) = n"
proof (rule bit_word_eqI)
  fix k assume "k < LENGTH(8)"
  then have "k \<in> {0,1,2,3,4,5,6,7}" by auto
  then show "bit (gray_decode (gray_encode n)) k = bit n k"
    by (auto simp: gray_decode_def gray_loop_closed gray_encode_def bit_simps)
qed

lemma gray_encode_decode [codec]: "gray_encode (gray_decode n) = n"
proof -
  have "inj gray_encode" by (rule inj_on_inverseI [where g = gray_decode]) (rule gray_decode_encode)
  then have "surj gray_encode" by (rule finite_UNIV_inj_surj [OF finite_class.finite_UNIV])
  then obtain m where "n = gray_encode m" by (rule surjE)
  then show ?thesis by (simp add: codec)
qed

lemma gray_mutation_mask:
  "gray_encode (mutation_func g bits r) XOR gray_encode g = push_bit (r mod 8) bits"
proof -
  have "(a XOR b) XOR a = b" for a b :: u8
    by (rule bit_word_eqI) (auto simp: bit_simps)
  then show ?thesis by (simp add: mutation_func_def codec)
qed

lemma to_bit_changes_Baseline_bit: "k < 8 \<Longrightarrow> push_bit k (to_bit_changes Baseline) = (push_bit k 1 :: u8)"
  by simp

section \<open>Lemmas: well-formed genomes\<close>

text \<open>
  The rendering engine takes a spatial period of at most six; every operation that makes a
  genome keeps it there.  \<open>in_palette bt h\<close> says that \<open>h\<close> is a colour scheme of the
  badge type \<open>bt\<close>.
\<close>

definition viable :: "haploid \<Rightarrow> bool" where
  "viable h \<longleftrightarrow> unat (cd_period h) \<le> 6"

definition viable_d :: "diploid \<Rightarrow> bool" where
  "viable_d g = (case g of Diploid a b \<Rightarrow> viable a \<and> viable b)"

definition within :: "nat \<times> nat \<Rightarrow> u8 \<Rightarrow> bool" where
  "within rng x \<longleftrightarrow> fst rng \<le> unat x \<and> unat x \<le> snd rng"

definition in_palette :: "badge_type \<Rightarrow> haploid \<Rightarrow> bool" where
  "in_palette bt h \<longleftrightarrow> unat (cd_period h) \<le> cd_period_max bt \<and> within (cd_dir_range bt) (cd_dir h)
     \<and> within (sat_range bt) (sat h) \<and> within (hue_range bt) (hue_base h)
     \<and> within (hue_range bt) (hue_bound h) \<and> hue_base h \<le> hue_bound h
     \<and> within (chaser_range bt) (chaser h) \<and> within (nonlin_range bt) (nonlin h)"

lemma ranges_u8 [simp]:
  "snd (hue_range bt) \<le> 255" "snd (sat_range bt) \<le> 255" "snd (chaser_range bt) \<le> 255"
  "snd (nonlin_range bt) \<le> 255" "snd (cd_dir_range bt) \<le> 255" "cd_period_max bt \<le> 6"
  by (cases bt; simp)+

lemma ranges_nonempty [simp]:
  "fst (hue_range bt) \<le> snd (hue_range bt)" "fst (sat_range bt) \<le> snd (sat_range bt)"
  "fst (chaser_range bt) \<le> snd (chaser_range bt)" "fst (nonlin_range bt) \<le> snd (nonlin_range bt)"
  "fst (cd_dir_range bt) \<le> snd (cd_dir_range bt)"
  by (cases bt; simp)+

lemma unat_of_nat_u8: "n \<le> 255 \<Longrightarrow> unat (of_nat n :: u8) = n"
  by (simp add: unat_of_nat)

lemma gen_in_within:
  "gen_in rng r = Some x \<Longrightarrow> snd rng \<le> 255 \<Longrightarrow> within rng (of_nat x)"
  by (auto simp: within_def dest!: gen_range_bounds) (simp_all add: unat_of_nat_u8)

lemma gen_in_total: "fst rng \<le> snd rng \<Longrightarrow> \<exists>x. gen_in rng r = Some x"
  by (rule gen_range_total)

lemma viable_meiosis: "viable_d g \<Longrightarrow> viable (meiosis g d)"
  by (cases g) (auto simp: viable_d_def viable_def meiosis_def pick_parent_def Let_def)

lemma mod_7_le_6: "unat (x mod (7::u8)) \<le> 6"
proof -
  have "unat (x mod 7) = unat x mod 7" by (simp add: unat_mod)
  then show ?thesis using mod_less_divisor [of 7 "unat x"] by simp
qed

lemma viable_mutate: "viable h \<Longrightarrow> viable (mutate h rate d)"
  by (simp add: viable_def mutate_def mod_7_le_6)

lemma drawn_genome:
  "\<exists>h. h_from_type bt d = Some h \<and> in_palette bt h \<and> viable h
     \<and> (bt = Goon \<longrightarrow> hue_base h = 0) \<and> (bt = Uber \<longrightarrow> hue_bound h = 255)"
proof -
  obtain p where p: "gen_range 0 (cd_period_max bt) (d 0) = Some p"
    using gen_range_total by blast
  obtain dir where dir: "gen_in (cd_dir_range bt) (d 2) = Some dir" using gen_in_total ranges_nonempty by blast
  obtain s where s: "gen_in (sat_range bt) (d 3) = Some s" using gen_in_total ranges_nonempty by blast
  obtain b0 where b0: "gen_in (hue_range bt) (d 5) = Some b0" using gen_in_total ranges_nonempty by blast
  obtain ch where ch: "gen_in (chaser_range bt) (d 7) = Some ch" using gen_in_total ranges_nonempty by blast
  obtain nl where nl: "gen_in (nonlin_range bt) (d 8) = Some nl" using gen_in_total ranges_nonempty by blast
  define base where "base = (if bt = Goon then 0 else b0)"
  have base: "fst (hue_range bt) \<le> base" "base \<le> snd (hue_range bt)"
    using gen_range_bounds [OF b0] by (auto simp: base_def)
  obtain bo where bo: "gen_range base (snd (hue_range bt)) (d 6) = Some bo"
    using gen_range_total base(2) by blast
  define bound where "bound = (if bt = Uber then 255 else bo)"
  have bound: "base \<le> bound" "bound \<le> snd (hue_range bt)"
    using gen_range_bounds [OF bo] base by (auto simp: bound_def)
  have le: "base \<le> 255" "bound \<le> 255" "p \<le> 255" "p \<le> cd_period_max bt" "p \<le> 6"
    using base bound gen_range_bounds [OF p] ranges_u8 [of bt] by linarith+
  let ?h = "\<lparr>cd_period = of_nat p, cd_rate = gen_u8 (d 1), cd_dir = of_nat dir, sat = of_nat s,
       hue_ratedir = gen_u8 (d 4), hue_base = of_nat base, hue_bound = of_nat bound,
       chaser = of_nat ch, nonlin = of_nat nl\<rparr> :: haploid"
  have "h_from_type bt d = Some ?h"
    using p dir s b0 ch nl bo by (simp add: h_from_type_def base_def bound_def Let_def)
  moreover have "in_palette bt ?h"
    using gen_in_within [OF dir] gen_in_within [OF s] gen_in_within [OF ch] gen_in_within [OF nl]
      base bound le
    by (simp add: in_palette_def unat_of_nat_u8) (simp add: within_def unat_of_nat_u8 word_le_nat_alt)
  moreover have "viable ?h" using le by (simp add: viable_def unat_of_nat_u8)
  moreover have "bt = Goon \<longrightarrow> hue_base ?h = 0" "bt = Uber \<longrightarrow> hue_bound ?h = 255"
    by (auto simp: base_def bound_def)
  ultimately show ?thesis by blast
qed

lemma drawn_in_palette: "\<exists>h. h_from_type bt d = Some h \<and> in_palette bt h"
  using drawn_genome by blast

section \<open>Properties\<close>

text \<open>a mutation of a gene changes its Gray code by exactly the rate's bit mask, shifted
  by the drawn amount (bits shifted out of the byte are lost); so the Gray code of a gene
  mutated at the baseline rate differs from the original in exactly one bit position.\<close>

theorem mutation_flips_gray_bits:
  "gray_encode (mutation_func g (to_bit_changes rate) r)
     = gray_encode g XOR push_bit (r mod 8) (to_bit_changes rate)
   \<and> gray_encode (mutation_func g (to_bit_changes Baseline) r) = flip_bit (r mod 8) (gray_encode g)
   \<and> gray_decode (gray_encode g) = g"
  by (simp add: mutation_func_def codec flip_bit_eq_xor)

text \<open>C33: drawing a genome for a badge type never panics (no range drawn from is empty), and
  whatever is drawn, every gene lies in the type's range, the hue span is not reversed,
  the Goon palette starts at red and the Uber palette ends at the end of the wheel.\<close>

theorem from_type_in_palette:
  "\<exists>h. h_from_type bt d = Some h \<and> in_palette bt h \<and> viable h
     \<and> (bt = Goon \<longrightarrow> hue_base h = 0) \<and> (bt = Uber \<longrightarrow> hue_bound h = 255)"
  by (rule drawn_genome)

theorem from_type_in_palette_witness:
  "\<exists>h. h_from_type Goon (\<lambda>i. 5 * i) = Some h \<and> viable h \<and> hue_base h = 0"
  using from_type_in_palette [of Goon "\<lambda>i. 5 * i"] by auto

text \<open>breeding keeps genomes viable: the gamete of a viable individual, mutated at any rate,
  is viable; its linked hue genes come from one parent, its linked distribution genes from
  one parent, and every other gene from one of the two.\<close>

theorem gamete_viable_and_linked:
  assumes "viable_d (Diploid a b)"
  shows "viable (mutate (meiosis (Diploid a b) d) rate d')
     \<and> (let g = meiosis (Diploid a b) d in
         (\<exists>p\<in>{a, b}. (cd_period g, cd_rate g, cd_dir g) = (cd_period p, cd_rate p, cd_dir p))
       \<and> (\<exists>p\<in>{a, b}. (hue_ratedir g, hue_base g, hue_bound g) = (hue_ratedir p, hue_base p, hue_bound p))
       \<and> sat g \<in> {sat a, sat b} \<and> chaser g \<in> {chaser a, chaser b} \<and> nonlin g \<in> {nonlin a, nonlin b})"
  using viable_mutate [OF viable_meiosis [OF assms]]
  by (simp add: meiosis_def pick_parent_def Let_def)

theorem gamete_viable_and_linked_witness:
  "viable (mutate (meiosis
     (Diploid \<lparr>cd_period = 6, cd_rate = 1, cd_dir = 2, sat = 3, hue_ratedir = 4,
       hue_base = 5, hue_bound = 6, chaser = 7, nonlin = 8\<rparr> \<lparr>cd_period = 4, cd_rate = 220, cd_dir = 200, sat = 255, hue_ratedir = 10,
       hue_base = 0, hue_bound = 255, chaser = 255, nonlin = 128\<rparr>)
     (\<lambda>_. 1)) Apocalyptic (\<lambda>_. 3))"
proof -
  have "viable_d (Diploid \<lparr>cd_period = 6, cd_rate = 1, cd_dir = 2, sat = 3, hue_ratedir = 4,
       hue_base = 5, hue_bound = 6, chaser = 7, nonlin = 8\<rparr> \<lparr>cd_period = 4, cd_rate = 220, cd_dir = 200, sat = 255, hue_ratedir = 10,
       hue_base = 0, hue_bound = 255, chaser = 255, nonlin = 128\<rparr>)"
    by (simp add: viable_d_def viable_def phenotype_def)
  from gamete_viable_and_linked [OF this] show ?thesis by blast
qed

text \<open>the encodings of genomes lose nothing: haploids and diploids survive their byte form,
  haploids the four-word form Xous messages carry, and a byte string decodes as a haploid
  exactly when it has nine bytes.\<close>

theorem genome_round_trips:
  "h_deserialize (h_serialize h) = Some h \<and> h_deserialize_u32 (h_serialize_u32 h) = Some h
   \<and> d_deserialize (d_serialize g) = Some g \<and> length (h_serialize_u32 h) = 4
   \<and> ((\<exists>h'. h_deserialize bs = Some h') \<longleftrightarrow> length bs = 9)"
  using d_round_trip [of g "[]"]
  by (simp add: codec length_h_serialize_u32 h_deserialize_Some_iff)

end
