(* ===== verification/Xous_Messages.thy ===== *)
theory Xous_Messages
  imports Badge_Prelude
begin

text \<open>
  Messages between the processes of the badge, as the Xous kernel defines them
  (\<open>xous-rs/src/definitions/messages/mod.rs\<close>): scalars, blocking scalars and memory messages, and
  the accessors the servers use to take them apart.  A handler that asks for
  \<open>scalar_message_mut\<close> sees blocking scalars only.  The three kinds of memory message are one
  constructor, whose payload is what the servers deserialise from it.
\<close>

section \<open>Messages\<close>

record scalar_args =
  arg1 :: u32
  arg2 :: u32
  arg3 :: u32
  arg4 :: u32

datatype 'm message = Scalar scalar_args | BlockingScalar scalar_args | Memory 'm

fun scalar_message :: "'m message \<Rightarrow> scalar_args option" where
  "scalar_message (Scalar a) = Some a"
| "scalar_message (BlockingScalar a) = Some a"
| "scalar_message (Memory _) = None"

fun scalar_message_mut :: "'m message \<Rightarrow> scalar_args option" where
  "scalar_message_mut (BlockingScalar a) = Some a"
| "scalar_message_mut (Scalar _) = None"
| "scalar_message_mut (Memory _) = None"

fun memory_message :: "'m message \<Rightarrow> 'm option" where
  "memory_message (Memory m) = Some m"
| "memory_message _ = None"

lemma scalar_message_mut_iff: "scalar_message_mut m = Some a \<longleftrightarrow> m = BlockingScalar a"
  by (cases m) auto

end
