(* ===== verification/Led_Engine.thy ===== *)
theory Led_Engine
  imports Light_Genes Xous_Messages
begin

text \<open>
  The LED path: the renderer front end
  \<open>Lightgenes\<close> (\<open>dc34-console/src/bio/lightgenes/mod.rs\<close>) that feeds genomes to the BIO
  coprocessor through a FIFO, the coprocessor's command decoder (\<open>lightgenes/main.c\<close>), the LED
  server loop (\<open>leds.rs\<close>), the \<open>led\<close> shell command (\<open>cmds/led.rs\<close>) and the vault's
  restoration of the saved preset at boot (\<open>src/config.rs\<close>).
\<close>

section \<open>The renderer front end\<close>

text \<open>The words written to \<open>SFR_TXF1\<close>, in order.  Waiting for room in the FIFO does not change
  what is written.\<close>

definition codon :: "nat \<Rightarrow> u8 \<Rightarrow> u32" where
  "codon i mrna = push_bit 8 (of_nat i) OR ucast mrna OR 0x40000000"

definition codons :: "haploid \<Rightarrow> u32 list" where
  "codons h = map (\<lambda>(i, m). codon i m) (enumerate 0 (h_serialize h))"

definition force :: "haploid \<Rightarrow> u32 list" where
  "force h = codons h"

definition express :: "diploid option \<Rightarrow> u32 list" where
  "express g = (case g of None \<Rightarrow> [] | Some gene \<Rightarrow> 0 # codons (phenotype gene) @ [0])"

definition jack_eyes :: "bool \<Rightarrow> u32 list" where
  "jack_eyes flash = [if flash then 0x20000000 else 0x10000000, 0]"

definition lg_autogamy :: "diploid option \<Rightarrow> (nat \<Rightarrow> nat) \<Rightarrow> (nat \<Rightarrow> nat) \<Rightarrow> (nat \<Rightarrow> nat)
    \<Rightarrow> diploid option option" where
  "lg_autogamy gene ds dm dmut =
     (case h_from_rand ds of None \<Rightarrow> None
      | Some sperm \<Rightarrow> Some (case gene of None \<Rightarrow> None
          | Some g \<Rightarrow> Some (Diploid (mutate (meiosis g dm) Baseline dmut) sperm)))"

text \<open>
  \<open>pause_rendering\<close> polls the hardware at most \<open>TIMEOUT\<close> times in each of its four waits.  A
  wait is \<open>while cond && timeout < TIMEOUT { timeout += 1 }\<close>; \<open>level i\<close> says whether the \<open>i\<close>-th
  poll of that wait still finds the condition true.
\<close>

definition PAUSE_TIMEOUT :: nat where "PAUSE_TIMEOUT = 3500000"

function poll_wait :: "nat \<Rightarrow> (nat \<Rightarrow> bool) \<Rightarrow> nat \<Rightarrow> nat" where
  "poll_wait limit level t = (if level t \<and> t < limit then poll_wait limit level (Suc t) else t)"
  by pat_completeness auto
termination
  by (relation "measure (\<lambda>(limit, level, t). limit - t)") auto

declare poll_wait.simps [simp del]

definition pause_words :: "bool \<Rightarrow> u32 list" where
  "pause_words wfi = [0x80000000, 0, if wfi then 0x08000001 else 0x08000000, 0]"

definition pause_rendering :: "(nat \<Rightarrow> nat \<Rightarrow> bool) \<Rightarrow> bool \<Rightarrow> nat \<times> u32 list" where
  "pause_rendering level wfi =
     (poll_wait PAUSE_TIMEOUT (level 0) 0 + poll_wait PAUSE_TIMEOUT (level 1) 0
        + poll_wait PAUSE_TIMEOUT (level 2) 0 + poll_wait PAUSE_TIMEOUT (level 3) 0,
      pause_words wfi)"

text \<open>\<open>Lightgenes::map\<close> on \<open>i32\<close> with the division rounding towards zero (values small enough not
  to overflow).\<close>

definition lg_map :: "int \<Rightarrow> int \<Rightarrow> int \<Rightarrow> int \<Rightarrow> int \<Rightarrow> int option" where
  "lg_map x in_min in_max out_min out_max =
     (if in_max = in_min then None
      else Some (((x - in_min) * (out_max - out_min)) sdiv (in_max - in_min) + out_min))"

section \<open>The coprocessor's command decoder\<close>

record coproc =
  genome :: bytes
  init_done :: bool
  led_gate :: nat
  eyes :: bool
  wfi_mode :: u32
  acks :: nat

definition coproc_reset :: coproc where
  "coproc_reset = \<lparr>genome = replicate 9 0, init_done = False, led_gate = 0, eyes = False,
     wfi_mode = 0, acks = 0\<rparr>"

definition coproc_step :: "u32 \<Rightarrow> coproc \<Rightarrow> coproc" where
  "coproc_step w c =
     (if w AND 0x80000000 \<noteq> 0 then c\<lparr>led_gate := 3\<rparr>
      else if w AND 0x20000000 \<noteq> 0 then c\<lparr>eyes := True\<rparr>
      else if w AND 0x10000000 \<noteq> 0 then c\<lparr>eyes := False\<rparr>
      else if w AND 0xFFFFFFFE = 0x08000000 then c\<lparr>wfi_mode := w AND 1, acks := acks c + 1\<rparr>
      else if w AND 0x40000000 \<noteq> 0 then
        (let index = unat (drop_bit 8 w AND 0xff) mod 9
         in c\<lparr>genome := (genome c)[index := ucast (w AND 0xff)], init_done := True\<rparr>)
      else c)"

definition coproc_run :: "u32 list \<Rightarrow> coproc \<Rightarrow> coproc" where
  "coproc_run ws c = fold coproc_step ws c"

section \<open>The LED server\<close>

record led_state =
  gene :: "diploid option"
  rate_param :: u8

datatype led_op = OpAutogamy | OpForce | OpGeneTest | OpSetGene | OpSyngamy | OpJackEyes
  | OpInvalid | OpSetTestRate | OpPause

definition led_init :: led_state where
  "led_init = \<lparr>gene = None, rate_param = 1\<rparr>"

definition args_words :: "scalar_args \<Rightarrow> u32 list" where
  "args_words a = [arg1 a, arg2 a, arg3 a, arg4 a]"

text \<open>One turn of the server: the new state and the words pushed to the FIFO, or \<open>None\<close> for a
  panic.  \<open>d1\<close>, \<open>d2\<close>, \<open>d3\<close> are the draws of the turn.  Pausing writes its fixed words.\<close>

definition led_step :: "(nat \<Rightarrow> nat) \<Rightarrow> (nat \<Rightarrow> nat) \<Rightarrow> (nat \<Rightarrow> nat) \<Rightarrow> led_op \<Rightarrow> diploid message
    \<Rightarrow> led_state \<Rightarrow> (led_state \<times> u32 list) option" where
  "led_step d1 d2 d3 op m st =
     (case op of
        OpAutogamy \<Rightarrow>
          (case lg_autogamy (gene st) d1 d2 d3 of None \<Rightarrow> None
           | Some None \<Rightarrow> Some (st, express (gene st))
           | Some (Some g) \<Rightarrow> Some (st\<lparr>gene := Some g\<rparr>, express (Some g)))
      | OpSetTestRate \<Rightarrow>
          (case scalar_message_mut m of None \<Rightarrow> Some (st, [])
           | Some a \<Rightarrow> Some (st\<lparr>rate_param := ucast (min (arg1 a) 255)\<rparr>, []))
      | OpSyngamy \<Rightarrow>
          (case scalar_message_mut m of None \<Rightarrow> Some (st, [])
           | Some a \<Rightarrow> (case h_deserialize_u32 (args_words a) of None \<Rightarrow> Some (st, [])
               | Some sperm \<Rightarrow> (case gene st of None \<Rightarrow> None
                   | Some g \<Rightarrow>
                       let egg = mutate (meiosis g d1) (rate_from_param (rate_param st)) d2;
                           g' = Diploid egg sperm
                       in Some (st\<lparr>gene := Some g'\<rparr>, express (Some g')))))
      | OpForce \<Rightarrow>
          (case scalar_message_mut m of None \<Rightarrow> Some (st, [])
           | Some a \<Rightarrow> (case h_deserialize_u32 (args_words a) of None \<Rightarrow> Some (st, [])
               | Some p \<Rightarrow> Some (st, force p)))
      | OpGeneTest \<Rightarrow>
          (case scalar_message_mut m of None \<Rightarrow> Some (st, [])
           | Some a \<Rightarrow> let bt = badge_or_none (ucast (arg1 a)) in
               (case (h_from_type bt d1, h_from_type bt d2) of
                  (Some x, Some y) \<Rightarrow> Some (st\<lparr>gene := Some (Diploid x y)\<rparr>, express (Some (Diploid x y)))
                | _ \<Rightarrow> None))
      | OpSetGene \<Rightarrow>
          (case memory_message m of None \<Rightarrow> Some (st, [])
           | Some g \<Rightarrow> Some (st\<lparr>gene := Some g\<rparr>, express (Some g)))
      | OpJackEyes \<Rightarrow>
          (case scalar_message m of None \<Rightarrow> Some (st, [])
           | Some a \<Rightarrow> Some (st, jack_eyes (arg1 a \<noteq> 0)))
      | OpPause \<Rightarrow>
          (case scalar_message_mut m of None \<Rightarrow> Some (st, [])
           | Some a \<Rightarrow> Some (st, pause_words (arg1 a \<noteq> 0)))
      | OpInvalid \<Rightarrow> Some (st, []))"

section \<open>The led command\<close>

definition rainbow_phenotype :: haploid where
  "rainbow_phenotype = \<lparr>cd_period = 1, cd_rate = 64, cd_dir = 128, sat = 255, hue_ratedir = 2,
     hue_base = 0, hue_bound = 255, chaser = 255, nonlin = 128\<rparr>"

definition disco_phenotype :: haploid where
  "disco_phenotype = \<lparr>cd_period = 4, cd_rate = 220, cd_dir = 200, sat = 255, hue_ratedir = 10,
     hue_base = 0, hue_bound = 255, chaser = 255, nonlin = 128\<rparr>"

definition flash_phenotype :: "u8 \<Rightarrow> u8 \<Rightarrow> haploid" where
  "flash_phenotype hue s = \<lparr>cd_period = 0, cd_rate = 0, cd_dir = 128, sat = s, hue_ratedir = 0,
     hue_base = hue, hue_bound = hue, chaser = 255, nonlin = 128\<rparr>"

definition breathe_phenotype :: "u8 \<Rightarrow> u8 \<Rightarrow> haploid" where
  "breathe_phenotype hue s = \<lparr>cd_period = 1, cd_rate = 128, cd_dir = 128, sat = s,
     hue_ratedir = 0, hue_base = hue, hue_bound = hue, chaser = 255, nonlin = 128\<rparr>"

definition rotate_phenotype :: "u8 \<Rightarrow> u8 \<Rightarrow> haploid" where
  "rotate_phenotype hue s = \<lparr>cd_period = 2, cd_rate = 96, cd_dir = 200, sat = s,
     hue_ratedir = 0, hue_base = hue, hue_bound = hue, chaser = 255, nonlin = 128\<rparr>"

definition hue_range_phenotype :: "u8 \<Rightarrow> u8 \<Rightarrow> haploid" where
  "hue_range_phenotype base bound = \<lparr>cd_period = 1, cd_rate = 64, cd_dir = 128, sat = 255,
     hue_ratedir = 2, hue_base = min base bound, hue_bound = max base bound, chaser = 255,
     nonlin = 128\<rparr>"

text \<open>The conversion works on \<open>i32\<close>; \<open>sat_int\<close> and \<open>hue_int\<close> are the values before the final
  \<open>as u8\<close> casts.\<close>

definition sat_int :: "int \<Rightarrow> int \<Rightarrow> int \<Rightarrow> int" where
  "sat_int r g b =
     (let mx = max (max r g) b; mn = min (min r g) b; d = mx - mn
      in if mx = 0 then 0 else (255 * d) sdiv mx)"

definition hue_int :: "int \<Rightarrow> int \<Rightarrow> int \<Rightarrow> int" where
  "hue_int r g b =
     (let mx = max (max r g) b; mn = min (min r g) b; d = mx - mn;
          h_deg = (if mx = r then (60 * (g - b)) sdiv d
                   else if mx = g then (60 * (b - r)) sdiv d + 120
                   else (60 * (r - g)) sdiv d + 240);
          h_deg' = ((h_deg smod 360) + 360) smod 360
      in (h_deg' * 255) sdiv 360)"

definition rgb_to_hue_sat :: "u8 \<Rightarrow> u8 \<Rightarrow> u8 \<Rightarrow> u8 \<times> u8" where
  "rgb_to_hue_sat r g b =
     (let ri = uint r; gi = uint g; bi = uint b; s = of_int (sat_int ri gi bi)
      in if max (max ri gi) bi - min (min ri gi) bi = 0 then (0, s)
         else (of_int (hue_int ri gi bi), s))"

definition parse_hex_u8 :: "string \<Rightarrow> u8 option" where
  "parse_hex_u8 s = map_option of_nat (from_str_radix 16 u8_max s)"

definition parse_rrggbb :: "string \<Rightarrow> (u8 \<times> u8 \<times> u8) option" where
  "parse_rrggbb s0 =
     (let s = dropWhile (\<lambda>c. c = CHR ''#'') (trim_str s0)
      in if length s \<noteq> 6 then None
         else do {
           r \<leftarrow> parse_hex_u8 (take 2 s);
           g \<leftarrow> parse_hex_u8 (take 2 (drop 2 s));
           b \<leftarrow> parse_hex_u8 (take 2 (drop 4 s));
           Some (r, g, b)
         })"

text \<open>The world the command acts on: the badge's PDDB dictionary (and whether the PDDB can be
  opened), and the Force messages delivered to the LED server.  \<open>send\<close> is the transport:
  \<open>None\<close> when a message is delivered, \<open>Some e\<close> with the text of its error otherwise.\<close>

record led_world =
  pddb :: dict
  pddb_up :: bool
  forced :: "u32 list list"

abbreviation led_preset_key :: string where "led_preset_key \<equiv> ''led_preset''"

definition send_force :: "(u32 list \<Rightarrow> string option) \<Rightarrow> haploid \<Rightarrow> led_world \<Rightarrow> (string + unit) \<times> led_world" where
  "send_force send p w =
     (let args = h_serialize_u32 p
      in case send args of
           Some e \<Rightarrow> (Inl (''send failed: '' @ e), w)
         | None \<Rightarrow> (Inr (), w\<lparr>forced := forced w @ [args]\<rparr>))"

definition persist :: "haploid \<Rightarrow> led_world \<Rightarrow> led_world" where
  "persist p w =
     (let data = concat (map le_bytes32 (h_serialize_u32 p))
      in if pddb_up w then w\<lparr>pddb := dict_write led_preset_key data (pddb w)\<rparr> else w)"

definition delete_persist :: "led_world \<Rightarrow> led_world" where
  "delete_persist w =
     (if pddb_up w then w\<lparr>pddb := dict_delete led_preset_key (pddb w)\<rparr> else w)"

definition apply_and_persist :: "(u32 list \<Rightarrow> string option) \<Rightarrow> haploid \<Rightarrow> led_world
    \<Rightarrow> (string + unit) \<times> led_world" where
  "apply_and_persist send p w =
     (case send_force send p w of
        (Inl e, w') \<Rightarrow> (Inl e, w')
      | (Inr _, w') \<Rightarrow> (Inr (), persist p w'))"

definition parse_color_effect :: "string list \<Rightarrow> (u8 \<Rightarrow> u8 \<Rightarrow> haploid) \<Rightarrow> string + haploid" where
  "parse_color_effect parts build =
     (case parts of [] \<Rightarrow> Inl ''ERR missing <RRGGBB>''
      | hex # _ \<Rightarrow> (case parse_rrggbb hex of None \<Rightarrow> Inl ''ERR bad hex color''
          | Some (r, g, b) \<Rightarrow> (let (hue, s) = rgb_to_hue_sat r g b in Inr (build hue s))))"

text \<open>The sixteen byte pairs of \<open>led force\<close>: the bytes, or the index of the first bad one.\<close>

fun parse_force_bytes :: "nat \<Rightarrow> nat \<Rightarrow> string \<Rightarrow> nat + bytes" where
  "parse_force_bytes i 0 hex = Inr []"
| "parse_force_bytes i (Suc n) hex =
     (case parse_hex_u8 (take 2 hex) of None \<Rightarrow> Inl i
      | Some b \<Rightarrow> (case parse_force_bytes (Suc i) n (drop 2 hex) of Inl e \<Rightarrow> Inl e
          | Inr bs \<Rightarrow> Inr (b # bs)))"

definition led_usage :: string where
  "led_usage = ''ERR usage: led {rainbow|disco|hue <base> <bound>|solid <RRGGBB>|flash <RRGGBB>|breathe <RRGGBB>|rotate <RRGGBB>|force <32-hex>|revert}''"

definition led_finish :: "(string + unit) \<times> led_world \<Rightarrow> string \<times> led_world" where
  "led_finish rw = (case rw of (Inr _, w) \<Rightarrow> (''OK'', w) | (Inl e, w) \<Rightarrow> (''ERR '' @ e, w))"

definition led_colour :: "(u32 list \<Rightarrow> string option) \<Rightarrow> string list \<Rightarrow> (u8 \<Rightarrow> u8 \<Rightarrow> haploid)
    \<Rightarrow> led_world \<Rightarrow> string \<times> led_world" where
  "led_colour send parts build w =
     (case parse_color_effect parts build of Inl e \<Rightarrow> (e, w)
      | Inr p \<Rightarrow> led_finish (apply_and_persist send p w))"

definition led_hue :: "(u32 list \<Rightarrow> string option) \<Rightarrow> string list \<Rightarrow> led_world \<Rightarrow> string \<times> led_world" where
  "led_hue send parts w =
     (case parts of
        a # b # _ \<Rightarrow>
          (case (from_str_radix 10 u8_max a, from_str_radix 10 u8_max b) of
             (Some b1, Some b2) \<Rightarrow>
               led_finish (apply_and_persist send (hue_range_phenotype (of_nat b1) (of_nat b2)) w)
           | _ \<Rightarrow> (''ERR usage: led hue <base 0-255> <bound 0-255>'', w))
      | _ \<Rightarrow> (''ERR usage: led hue <base 0-255> <bound 0-255>'', w))"

definition led_force :: "(u32 list \<Rightarrow> string option) \<Rightarrow> string list \<Rightarrow> led_world \<Rightarrow> string \<times> led_world" where
  "led_force send parts w =
     (case parts of [] \<Rightarrow> (''ERR usage: led force <32-hex-chars>'', w)
      | hex # _ \<Rightarrow>
          if length hex \<noteq> 32 then (''ERR force expects exactly 32 hex chars (16 bytes)'', w)
          else (case parse_force_bytes 0 16 hex of
                  Inl i \<Rightarrow> (''ERR bad hex at byte '' @ show_nat i, w)
                | Inr bs \<Rightarrow> (case h_deserialize (take haploid_size bs) of
                      Some p \<Rightarrow> led_finish (apply_and_persist send p w)
                    | None \<Rightarrow> (''ERR could not deserialize Haploid'', w))))"

definition led_process :: "(u32 list \<Rightarrow> string option) \<Rightarrow> string \<Rightarrow> led_world \<Rightarrow> string \<times> led_world" where
  "led_process send args w =
     (case split_whitespace args of [] \<Rightarrow> (led_usage, w)
      | sub # parts \<Rightarrow>
          if sub = ''rainbow'' then led_finish (apply_and_persist send rainbow_phenotype w)
          else if sub = ''disco'' then led_finish (apply_and_persist send disco_phenotype w)
          else if sub = ''solid'' \<or> sub = ''flash'' then led_colour send parts flash_phenotype w
          else if sub = ''breathe'' then led_colour send parts breathe_phenotype w
          else if sub = ''rotate'' then led_colour send parts rotate_phenotype w
          else if sub = ''hue'' then led_hue send parts w
          else if sub = ''force'' then led_force send parts w
          else if sub = ''revert'' then led_finish (send_force send rainbow_phenotype (delete_persist w))
          else (''ERR unknown subcommand: '' @ sub, w))"

section \<open>Restoring the preset at boot\<close>

text \<open>\<open>GlobalConfig::restore_led_preset\<close>: the Force words it sends, if any.\<close>

definition restore_led_preset :: "dict \<Rightarrow> u32 list option" where
  "restore_led_preset d =
     (case d led_preset_key of None \<Rightarrow> None
      | Some v \<Rightarrow> let buf = take 16 v in
          if length buf \<noteq> 16 then None
          else (case h_deserialize_u32 (words_of_le buf) of None \<Rightarrow> None
                | Some _ \<Rightarrow> Some (words_of_le buf)))"

section \<open>Lemmas: codons and the decoder\<close>

lemma and_flag_iff:
  "(w::u32) AND 0x80000000 \<noteq> 0 \<longleftrightarrow> bit w 31" "w AND 0x40000000 \<noteq> 0 \<longleftrightarrow> bit w 30"
  "w AND 0x20000000 \<noteq> 0 \<longleftrightarrow> bit w 29" "w AND 0x10000000 \<noteq> 0 \<longleftrightarrow> bit w 28"
  using bit_iff_and_push_bit_not_eq_0 [of w 31] bit_iff_and_push_bit_not_eq_0 [of w 30]
    bit_iff_and_push_bit_not_eq_0 [of w 29] bit_iff_and_push_bit_not_eq_0 [of w 28]
  by simp_all

lemma codon_bits:
  assumes "i < 9"
  shows "\<not> bit (codon i m) 31" "bit (codon i m) 30" "\<not> bit (codon i m) 29" "\<not> bit (codon i m) 28"
proof -
  have i: "i \<in> {0, 1, 2, 3, 4, 5, 6, 7, 8}" using assms by auto
  have m: "\<not> bit (ucast m :: u32) n" if "8 \<le> n" for n
    using that bit_imp_le_length [of m n] by (auto simp: bit_simps)
  show "\<not> bit (codon i m) 31" "bit (codon i m) 30" "\<not> bit (codon i m) 29" "\<not> bit (codon i m) 28"
    using i m [of 31] m [of 30] m [of 29] m [of 28]
    by (auto simp: codon_def bit_or_iff bit_push_bit_iff)
qed

lemma codon_fields:
  assumes "i < 9"
  shows "unat (drop_bit 8 (codon i m) AND 0xff) mod 9 = i" "ucast (codon i m AND 0xff) = m"
proof -
  have i: "i \<in> {0, 1, 2, 3, 4, 5, 6, 7, 8}" using assms by auto
  have d: "drop_bit 8 (ucast m :: u32) = 0"
    by (rule bit_word_eqI) (auto simp: bit_simps dest: bit_imp_le_length)
  show "unat (drop_bit 8 (codon i m) AND 0xff) mod 9 = i"
    using i d by (auto simp: codon_def drop_bit_or bit.conj_disj_distrib2)
  have "\<not> bit (0x40000000 :: u32) n" if "n < 8" for n
    using that bit_push_bit_iff [of 30 "1 :: u32" n] by simp
  then have "ucast (codon i m AND mask 8) = m"
    using i by (intro bit_word_eqI) (auto simp: codon_def bit_simps)
  then show "ucast (codon i m AND 0xff) = m" by (simp add: mask_eq_exp_minus_1)
qed

lemma coproc_step_codon:
  assumes "i < 9"
  shows "coproc_step (codon i m) c = c\<lparr>genome := (genome c)[i := m], init_done := True\<rparr>"
proof -
  have "codon i m AND 0xFFFFFFFE \<noteq> 0x08000000"
  proof
    assume "codon i m AND 0xFFFFFFFE = 0x08000000"
    then have "bit (codon i m AND 0xFFFFFFFE) 30 = bit (0x08000000 :: u32) 30" by simp
    then show False using codon_bits(2) [OF assms] by (simp add: bit_and_iff)
  qed
  then show ?thesis
    unfolding coproc_step_def Let_def
    by (simp add: and_flag_iff [simplified] codon_bits [OF assms] codon_fields [OF assms])
qed

lemma coproc_zero [simp]: "coproc_step 0 c = c"
  by (simp add: coproc_step_def)

lemma coproc_codons:
  assumes "length (genome c) = 9"
  shows "coproc_run (codons h) c = c\<lparr>genome := h_serialize h, init_done := True\<rparr>"
proof -
  obtain x0 x1 x2 x3 x4 x5 x6 x7 x8 where g: "genome c = [x0, x1, x2, x3, x4, x5, x6, x7, x8]"
    using assms by (auto simp: eval_nat_numeral length_Suc_conv)
  show ?thesis
    by (simp add: coproc_run_def codons_def h_serialize_def coproc_step_codon g eval_nat_numeral)
qed

section \<open>Lemmas: the led command\<close>

lemma words_of_le_concat: "words_of_le (concat (map le_bytes32 ws)) = ws"
  by (induction ws) (simp_all add: le_bytes32_def codec)

lemma length_preset_bytes: "length (concat (map le_bytes32 (h_serialize_u32 p))) = 16"
  by (simp add: h_words_bytes)

lemma restore_after_persist:
  "pddb_up w \<Longrightarrow> restore_led_preset (pddb (persist p w)) = Some (h_serialize_u32 p)"
proof -
  assume up: "pddb_up w"
  let ?data = "concat (map le_bytes32 (h_serialize_u32 p))"
  have "take 16 (overlay 0 ?data old) = ?data" for old
    using take_overlay_0 [of ?data old] by (simp only: length_preset_bytes)
  then show ?thesis using up
    by (auto simp: restore_led_preset_def persist_def dict_write_def Let_def length_preset_bytes
        words_of_le_concat h_u32_round_trip split: option.splits)
qed

lemma led_finish_apply:
  "led_finish (apply_and_persist send p w) =
     (case send (h_serialize_u32 p) of
        Some e \<Rightarrow> (''ERR send failed: '' @ e, w)
      | None \<Rightarrow> (''OK'', persist p (w\<lparr>forced := forced w @ [h_serialize_u32 p]\<rparr>)))"
  by (simp add: led_finish_def apply_and_persist_def send_force_def Let_def split: option.splits)

text \<open>What a subcommand other than \<open>revert\<close> can do: refuse and change nothing, or send a
  phenotype, save it and answer OK.\<close>

definition led_outcome :: "string \<times> led_world \<Rightarrow> led_world \<Rightarrow> bool" where
  "led_outcome res w \<longleftrightarrow> (\<exists>msg. res = (''ERR'' @ msg, w)) \<or>
     (\<exists>p. res = (''OK'', persist p (w\<lparr>forced := forced w @ [h_serialize_u32 p]\<rparr>)))"

named_theorems led_outcomes

lemma led_outcome_apply [led_outcomes]: "led_outcome (led_finish (apply_and_persist send p w)) w"
  by (auto simp: led_outcome_def led_finish_apply split: option.splits)

lemma led_outcome_err [led_outcomes]: "led_outcome (CHR ''E'' # CHR ''R'' # CHR ''R'' # msg, w) w"
  by (auto simp: led_outcome_def)

lemma led_outcome_colour [led_outcomes]: "led_outcome (led_colour send parts build w) w"
  by (auto simp: led_colour_def parse_color_effect_def led_outcomes
      split: list.splits option.splits prod.splits sum.splits)

lemma led_outcome_hue [led_outcomes]: "led_outcome (led_hue send parts w) w"
  by (auto simp: led_hue_def led_outcomes split: list.splits option.splits)

lemma led_outcome_force [led_outcomes]: "led_outcome (led_force send parts w) w"
  by (auto simp: led_force_def led_outcomes split: list.splits option.splits sum.splits)

definition is_revert :: "string \<Rightarrow> bool" where
  "is_revert args \<longleftrightarrow> (\<exists>parts. split_whitespace args = ''revert'' # parts)"

lemma led_split_if: "led_outcome x w \<Longrightarrow> led_outcome y w \<Longrightarrow> led_outcome (if c then x else y) w"
  by simp

lemma led_process_outcome: "\<not> is_revert args \<Longrightarrow> led_outcome (led_process send args w) w"
proof (cases "split_whitespace args")
  case Nil
  then show ?thesis by (simp add: led_process_def led_usage_def led_outcomes)
next
  case (Cons sub parts)
  assume "\<not> is_revert args"
  with Cons have "sub \<noteq> ''revert''" by (auto simp: is_revert_def)
  with Cons show ?thesis unfolding led_process_def
    by (simp only: list.case if_False) (intro led_split_if; (rule led_outcomes | simp add: led_outcome_def))
qed

lemma led_process_revert:
  "is_revert args \<Longrightarrow> led_process send args w = led_finish (send_force send rainbow_phenotype (delete_persist w))"
  by (auto simp: led_process_def is_revert_def)

section \<open>Lemmas: colour conversion\<close>

lemma sdiv_scale_bounds: "0 \<le> (a::int) \<Longrightarrow> a \<le> b \<Longrightarrow> 0 < b \<Longrightarrow> 0 \<le> k \<Longrightarrow> (k * a) sdiv b \<in> {0..k}"
proof -
  assume h: "0 \<le> a" "a \<le> b" "0 < b" "0 \<le> k"
  then have "(k * a) sdiv b = (k * a) div b" by (simp add: signed_divide_int_def sgn_if)
  moreover have "(k * a) div b \<le> (k * b) div b" using h by (intro zdiv_mono1 mult_left_mono) auto
  ultimately show ?thesis using h by (auto simp: pos_imp_zdiv_nonneg_iff)
qed

lemma sat_int_range: "0 \<le> r \<Longrightarrow> 0 \<le> g \<Longrightarrow> 0 \<le> b \<Longrightarrow> sat_int r g b \<in> {0..255}"
  using sdiv_scale_bounds [of "max (max r g) b - min (min r g) b" "max (max r g) b" 255]
  by (auto simp: sat_int_def Let_def)

lemma hue_int_range: "hue_int r g b \<in> {0..254}"
proof -
  have wrap: "((x smod 360) + 360) smod 360 \<in> {0..359}" for x :: int
    using smod_int_range [of 360 x] smod_int_compares [of "(x smod 360) + 360" 360] by auto
  have scale: "(y * 255) sdiv 360 \<in> {0..254}" if "y \<in> {0..359}" for y :: int
  proof -
    have "(y * 255) sdiv 360 = (y * 255) div 360" using that by (simp add: signed_divide_int_def sgn_if)
    then show ?thesis using that by auto
  qed
  show ?thesis unfolding hue_int_def Let_def by (rule scale, rule wrap)
qed

lemma uint_of_int_u8: "x \<in> {0..255} \<Longrightarrow> uint (of_int x :: u8) = x"
  by (simp add: uint_word_of_int)

section \<open>Properties\<close>

text \<open>a forced phenotype reaches the renderer.  Whatever state the coprocessor is in, running
  the words \<open>force\<close> writes leaves its genome equal to the nine bytes of the phenotype and
  marks it initialised, touching nothing else; \<open>express\<close> does the same with the gene's
  phenotype.  (Without the \<open>0x40000000\<close> bit the decoder drops the words.)\<close>

theorem force_reaches_renderer:
  assumes "length (genome c) = 9"
  shows "coproc_run (force h) c = c\<lparr>genome := h_serialize h, init_done := True\<rparr>
     \<and> coproc_run (express (Some g)) c = c\<lparr>genome := h_serialize (phenotype g), init_done := True\<rparr>
     \<and> coproc_run (express None) c = c"
  using coproc_codons [OF assms]
  by (simp add: force_def express_def coproc_run_def)

theorem force_reaches_renderer_witness:
  "coproc_run (force disco_phenotype) coproc_reset
     = coproc_reset\<lparr>genome := h_serialize disco_phenotype, init_done := True\<rparr>"
proof -
  have "length (genome coproc_reset) = 9" by (simp add: coproc_reset_def)
  from force_reaches_renderer [OF this] show ?thesis by blast
qed

text \<open>the LED server expresses a Force message only when it is a blocking scalar: with the four
  words of a phenotype it pushes that phenotype's codons and keeps its gene; the same message
  sent as a non-blocking scalar, or as memory, does nothing at all.\<close>

theorem force_needs_blocking_scalar:
  assumes "args_words a = h_serialize_u32 h"
  shows "led_step d1 d2 d3 OpForce (BlockingScalar a) st = Some (st, force h)
     \<and> led_step d1 d2 d3 OpForce (Scalar a) st = Some (st, [])
     \<and> led_step d1 d2 d3 OpForce (Memory g) st = Some (st, [])"
  using assms by (simp add: led_step_def codec)

theorem force_needs_blocking_scalar_witness:
  "led_step (\<lambda>_. 0) (\<lambda>_. 0) (\<lambda>_. 0) OpForce
     (BlockingScalar \<lparr>arg1 = 0xFF804001, arg2 = 0xFFFF0002, arg3 = 0x80, arg4 = 0\<rparr>) led_init
   = Some (led_init, force rainbow_phenotype)"
proof -
  have "args_words \<lparr>arg1 = 0xFF804001, arg2 = 0xFFFF0002, arg3 = 0x80, arg4 = 0\<rparr> = h_serialize_u32 rainbow_phenotype"
    by code_simp
  from force_needs_blocking_scalar [OF this] show ?thesis by blast
qed

text \<open>a preset survives a reboot.  When the \<open>led\<close> command answers OK it has delivered
  exactly one phenotype to the LED server; if the command was not \<open>revert\<close>, the boot-time
  restore sends the very same words, and after \<open>revert\<close> the phenotype was the rainbow and
  the restore sends nothing.\<close>

theorem led_preset_survives_reboot:
  assumes "led_process send args w = (''OK'', w')" and "pddb_up w"
  shows "\<exists>p. forced w' = forced w @ [h_serialize_u32 p] \<and>
     (if is_revert args then p = rainbow_phenotype \<and> restore_led_preset (pddb w') = None
      else restore_led_preset (pddb w') = Some (h_serialize_u32 p))"
proof (cases "is_revert args")
  case True
  then have "(''OK'', w') = led_finish (send_force send rainbow_phenotype (delete_persist w))"
    using assms(1) led_process_revert by metis
  then show ?thesis using True assms(2)
    by (auto simp: led_finish_def send_force_def delete_persist_def restore_led_preset_def
        dict_delete_def Let_def split: option.splits)
next
  case False
  then obtain p where "w' = persist p (w\<lparr>forced := forced w @ [h_serialize_u32 p]\<rparr>)"
    using led_process_outcome [OF False, of send w] assms(1) by (auto simp: led_outcome_def)
  then show ?thesis using False assms(2) restore_after_persist
    by (auto simp: persist_def Let_def)
qed

theorem led_preset_survives_reboot_witness:
  "\<exists>p. forced (snd (led_process (\<lambda>_. None) ''breathe FF0080'' \<lparr>pddb = Map.empty, pddb_up = True, forced = []\<rparr>))
      = [] @ [h_serialize_u32 p]"
proof -
  let ?w = "\<lparr>pddb = Map.empty, pddb_up = True, forced = []\<rparr> :: led_world"
  let ?w' = "snd (led_process (\<lambda>_. None) ''breathe FF0080'' ?w)"
  have "fst (led_process (\<lambda>_. None) ''breathe FF0080'' ?w) = ''OK''"
    by code_simp
  then have "led_process (\<lambda>_. None) ''breathe FF0080'' ?w = (''OK'', ?w')" by (metis prod.collapse)
  from led_preset_survives_reboot [OF this] show ?thesis by auto
qed

text \<open>a \<open>led\<close> command that does not answer OK has sent nothing and, unless it is \<open>revert\<close>
  (which wipes the saved preset before it sends), has changed nothing.\<close>

theorem led_error_changes_nothing:
  assumes "led_process send args w = (reply, w')" and "reply \<noteq> ''OK''"
  shows "forced w' = forced w \<and> (is_revert args \<or> w' = w)"
proof (cases "is_revert args")
  case True
  then show ?thesis using assms led_process_revert [OF True, of send w]
    by (auto simp: led_finish_def send_force_def delete_persist_def Let_def split: option.splits if_splits)
next
  case False
  then show ?thesis using assms led_process_outcome [OF False, of send w]
    by (auto simp: led_outcome_def)
qed

theorem led_error_changes_nothing_witness:
  "snd (led_process (\<lambda>_. None) ''hue 3'' \<lparr>pddb = Map.empty, pddb_up = True, forced = []\<rparr>)
     = \<lparr>pddb = Map.empty, pddb_up = True, forced = []\<rparr>"
proof -
  let ?w = "\<lparr>pddb = Map.empty, pddb_up = True, forced = []\<rparr> :: led_world"
  let ?r = "led_process (\<lambda>_. None) ''hue 3'' ?w"
  have "fst ?r \<noteq> ''OK''" by code_simp
  moreover have "split_whitespace ''hue 3'' = [''hue'', ''3'']" by code_simp
  then have "\<not> is_revert ''hue 3''" by (simp add: is_revert_def)
  ultimately show ?thesis
    using led_error_changes_nothing [of "\<lambda>_. None" "''hue 3''" ?w "fst ?r" "snd ?r"] by simp
qed

text \<open>the colour conversion never overflows its final casts: saturation and hue computed on
  \<open>i32\<close> lie in 0..255 and 0..254, so the bytes returned are those values; greys have no
  hue, and pure red, green and blue map to 0, 85 and 170 at full saturation.\<close>

theorem rgb_to_hue_sat_exact:
  "uint (snd (rgb_to_hue_sat r g b)) = sat_int (uint r) (uint g) (uint b)
   \<and> uint (fst (rgb_to_hue_sat r g b)) =
       (if r = g \<and> g = b then 0 else hue_int (uint r) (uint g) (uint b))
   \<and> rgb_to_hue_sat 255 0 0 = (0, 255) \<and> rgb_to_hue_sat 0 255 0 = (85, 255)
   \<and> rgb_to_hue_sat 0 0 255 = (170, 255)"
proof -
  have s: "uint (of_int (sat_int (uint r) (uint g) (uint b)) :: u8) = sat_int (uint r) (uint g) (uint b)"
    using sat_int_range [of "uint r" "uint g" "uint b"] by (intro uint_of_int_u8) simp
  have h: "uint (of_int (hue_int (uint r) (uint g) (uint b)) :: u8) = hue_int (uint r) (uint g) (uint b)"
    using hue_int_range [of "uint r" "uint g" "uint b"] by (intro uint_of_int_u8) auto
  have grey: "max (max (uint r) (uint g)) (uint b) - min (min (uint r) (uint g)) (uint b) = 0
      \<longleftrightarrow> r = g \<and> g = b"
    by (auto simp: max_def min_def dest!: unsigned_word_eqI split: if_splits)
  have "rgb_to_hue_sat 255 0 0 = (0, 255)" "rgb_to_hue_sat 0 255 0 = (85, 255)"
    "rgb_to_hue_sat 0 0 255 = (170, 255)"
    by code_simp+
  moreover have "rgb_to_hue_sat r g b =
      (if r = g \<and> g = b then (0, of_int (sat_int (uint r) (uint g) (uint b)))
       else (of_int (hue_int (uint r) (uint g) (uint b)), of_int (sat_int (uint r) (uint g) (uint b))))"
    by (simp only: rgb_to_hue_sat_def Let_def grey)
  ultimately show ?thesis using s h by auto
qed

end
