(* ===== verification/Image_Upload.thy ===== *)
theory Image_Upload
  imports Badge_Prelude
begin

text \<open>
  Uploading pictures to the badge over the serial console: the \<open>image\<close> and \<open>imagedc\<close>
  commands (\<open>dc34-console/src/cmds/image.rs\<close>, \<open>imagedc.rs\<close>), which differ in the key they
  write and the opcode they notify the vault with, the \<open>fps\<close> command (\<open>cmds/fps.rs\<close>), the
  vault's loader of stored frames (\<open>load_image_frames\<close> in \<open>src/main.rs\<close>) and the choice of
  the frame to show (\<open>vault_api.rs\<close>, \<open>ux.rs\<close>).

  The base64 decoder and the CRC-32 (crates \<open>base64\<close> and \<open>crc32fast\<close>) are the parameters
  \<open>b64\<close> and \<open>crc\<close> of the definitions.
\<close>

section \<open>State and world\<close>

definition CHUNK_DATA_SIZE :: nat where "CHUNK_DATA_SIZE = 64"
definition CHUNK_INDEX_BYTES :: nat where "CHUNK_INDEX_BYTES = 2"
definition CHUNK_CRC_BYTES :: nat where "CHUNK_CRC_BYTES = 4"
definition CHUNK_WIRE_SIZE :: nat where
  "CHUNK_WIRE_SIZE = CHUNK_INDEX_BYTES + CHUNK_DATA_SIZE + CHUNK_CRC_BYTES"
definition NUM_CHUNKS :: nat where "NUM_CHUNKS = 32"
definition FRAME_BYTES :: nat where "FRAME_BYTES = 2048"
definition MAX_FRAMES :: nat where "MAX_FRAMES = 32"

lemmas image_consts = CHUNK_DATA_SIZE_def CHUNK_INDEX_BYTES_def CHUNK_CRC_BYTES_def
  CHUNK_WIRE_SIZE_def NUM_CHUNKS_def FRAME_BYTES_def MAX_FRAMES_def

record image_state =
  frames :: "bytes option list list"
  received_count :: nat
  frame_count :: nat

text \<open>The two commands are one state machine over a slot.\<close>

datatype image_slot = UserImage | DefconImage

fun slot_key :: "image_slot \<Rightarrow> string" where
  "slot_key UserImage = ''image''"
| "slot_key DefconImage = ''image_defcon''"

fun slot_opcode :: "image_slot \<Rightarrow> nat" where
  "slot_opcode UserImage = 1024"
| "slot_opcode DefconImage = 1028"

fun slot_command :: "image_slot \<Rightarrow> string" where
  "slot_command UserImage = ''image''"
| "slot_command DefconImage = ''imagedc''"

text \<open>What a command changes outside its own state: the PDDB dictionary (when it can be
  opened) and the scalars sent to the vault, as opcode and first argument.\<close>

record image_world =
  img_store :: dict
  img_store_up :: bool
  notices :: "(nat \<times> nat) list"

section \<open>Operations\<close>

definition reset_frames :: "image_state \<Rightarrow> image_state" where
  "reset_frames st = st\<lparr>frames := replicate (frame_count st) (replicate NUM_CHUNKS None),
     received_count := 0\<rparr>"

definition image_new :: image_state where
  "image_new = reset_frames \<lparr>frames = [], received_count = 0, frame_count = 1\<rparr>"

definition is_complete :: "image_state \<Rightarrow> bool" where
  "is_complete st \<longleftrightarrow> received_count st = NUM_CHUNKS * frame_count st"

text \<open>\<open>to_blob\<close> reverses every group of four bytes while copying a chunk to its place in a
  buffer of zeros.\<close>

fun swap_groups :: "bytes \<Rightarrow> bytes" where
  "swap_groups (a # b # c # d # rest) = d # c # b # a # swap_groups rest"
| "swap_groups _ = []"

definition put_at :: "nat \<Rightarrow> bytes \<Rightarrow> bytes \<Rightarrow> bytes" where
  "put_at base bs out = take base out @ bs @ drop (base + length bs) out"

fun blob_chunks :: "nat \<Rightarrow> nat \<Rightarrow> bytes option list \<Rightarrow> bytes \<Rightarrow> bytes" where
  "blob_chunks fi ci [] out = out"
| "blob_chunks fi ci (slot # rest) out =
     blob_chunks fi (Suc ci) rest
       (case slot of None \<Rightarrow> out
        | Some bs \<Rightarrow> put_at (fi * FRAME_BYTES + ci * CHUNK_DATA_SIZE) (swap_groups bs) out)"

fun blob_frames :: "nat \<Rightarrow> bytes option list list \<Rightarrow> bytes \<Rightarrow> bytes" where
  "blob_frames fi [] out = out"
| "blob_frames fi (fr # rest) out = blob_frames (Suc fi) rest (blob_chunks fi 0 fr out)"

definition to_blob :: "image_state \<Rightarrow> bytes" where
  "to_blob st = blob_frames 0 (frames st) (replicate (frame_count st * FRAME_BYTES) 0)"

definition notify :: "image_slot \<Rightarrow> nat \<Rightarrow> image_world \<Rightarrow> image_world" where
  "notify k arg w = w\<lparr>notices := notices w @ [(slot_opcode k, arg)]\<rparr>"

definition image_clear :: "image_slot \<Rightarrow> image_state \<Rightarrow> image_world \<Rightarrow> string \<times> image_state \<times> image_world" where
  "image_clear k st w =
     (''CLEAR'', reset_frames (st\<lparr>frame_count := 1\<rparr>),
      notify k 0 (if img_store_up w then w\<lparr>img_store := dict_delete (slot_key k) (img_store w)\<rparr> else w))"

definition image_frames :: "string \<Rightarrow> image_state \<Rightarrow> image_world \<Rightarrow> string \<times> image_state \<times> image_world" where
  "image_frames rest st w =
     (case from_str_radix 10 u32_max (trim_str rest) of
        Some n \<Rightarrow> if 1 \<le> n \<and> n \<le> MAX_FRAMES then (''OK'', reset_frames (st\<lparr>frame_count := n\<rparr>), w)
                  else (''ERR frames must be 1..'' @ show_nat MAX_FRAMES, st, w)
      | None \<Rightarrow> (''ERR frames must be 1..'' @ show_nat MAX_FRAMES, st, w))"

definition image_store :: "image_slot \<Rightarrow> bytes \<Rightarrow> image_world \<Rightarrow> image_world" where
  "image_store k blob w =
     (if img_store_up w
      then w\<lparr>img_store := dict_write (slot_key k) blob (dict_delete (slot_key k) (img_store w))\<rparr>
      else w)"

definition image_accept :: "image_slot \<Rightarrow> nat \<Rightarrow> nat \<Rightarrow> bytes \<Rightarrow> image_state \<Rightarrow> image_world
    \<Rightarrow> string \<times> image_state \<times> image_world" where
  "image_accept k fi ci data st w =
     (let was_empty = (frames st ! fi) ! ci = None;
          st1 = st\<lparr>frames := (frames st)[fi := (frames st ! fi)[ci := Some data]],
                   received_count := received_count st + (if was_empty then 1 else 0)\<rparr>
      in if is_complete st1
         then (''SUCCESS'', reset_frames (st1\<lparr>frame_count := 1\<rparr>), notify k 1 (image_store k (to_blob st1) w))
         else (''OK'', st1, w))"

definition image_chunk :: "(bytes \<Rightarrow> u32) \<Rightarrow> image_slot \<Rightarrow> bytes \<Rightarrow> image_state \<Rightarrow> image_world
    \<Rightarrow> string \<times> image_state \<times> image_world" where
  "image_chunk crc k decoded st w =
     (if length decoded \<noteq> CHUNK_WIRE_SIZE then (''ERR'', st, w)
      else
        let frame_idx = unat (decoded ! 0); chunk_idx = unat (decoded ! 1);
            received_crc = u32_from_be (decoded ! 66) (decoded ! 67) (decoded ! 68) (decoded ! 69)
        in if crc (take (CHUNK_INDEX_BYTES + CHUNK_DATA_SIZE) decoded) \<noteq> received_crc then (''ERR'', st, w)
           else if NUM_CHUNKS \<le> chunk_idx then (''ERR bad_chunk'', st, w)
           else if frame_count st \<le> frame_idx
           then (''ERR bad_frame (send `'' @ slot_command k @ '' frames '' @ show_nat (frame_idx + 1) @ ''` first)'', st, w)
           else image_accept k frame_idx chunk_idx
                  (take CHUNK_DATA_SIZE (drop CHUNK_INDEX_BYTES decoded)) st w)"

definition strip_prefix :: "string \<Rightarrow> string \<Rightarrow> string option" where
  "strip_prefix p s = (if take (length p) s = p then Some (drop (length p) s) else None)"

definition image_process :: "(string \<Rightarrow> bytes option) \<Rightarrow> (bytes \<Rightarrow> u32) \<Rightarrow> image_slot \<Rightarrow> string
    \<Rightarrow> image_state \<Rightarrow> image_world \<Rightarrow> string \<times> image_state \<times> image_world" where
  "image_process b64 crc k args st w =
     (let trimmed = trim_str args in
      if trimmed = ''clear'' then image_clear k st w
      else case strip_prefix ''frames '' trimmed of
        Some rest \<Rightarrow> image_frames rest st w
      | None \<Rightarrow>
          if trimmed = [] then (''ERR'', st, w)
          else (case b64 trimmed of None \<Rightarrow> (''ERR'', st, w)
                | Some decoded \<Rightarrow> image_chunk crc k decoded st w))"

definition imagedc_process :: "(string \<Rightarrow> bytes option) \<Rightarrow> (bytes \<Rightarrow> u32) \<Rightarrow> string
    \<Rightarrow> image_state \<Rightarrow> image_world \<Rightarrow> string \<times> image_state \<times> image_world" where
  "imagedc_process b64 crc = image_process b64 crc DefconImage"

section \<open>Loading and showing\<close>

text \<open>\<open>load_image_frames\<close> on the contents of the key.  \<open>take_words\<close> is the little-endian cast of
  one 2048-byte frame.\<close>

fun le_words :: "bytes \<Rightarrow> u32 list" where
  "le_words (a # b # c # d # rest) = u32_from_le a b c d # le_words rest"
| "le_words _ = []"

definition load_image_frames :: "bytes \<Rightarrow> u32 list list" where
  "load_image_frames buf =
     (let n = length buf in
      if n = 0 \<or> n mod 2048 \<noteq> 0 then []
      else map (\<lambda>i. le_words (take 2048 (drop (i * 2048) buf))) [0..<n div 2048])"

definition fps_to_frame_ms :: "u8 \<Rightarrow> nat" where
  "fps_to_frame_ms fps = (let f = min (max (unat fps) 1) 30 in (1000 + f div 2) div f)"

text \<open>\<open>None\<close> is the panic of the remainder when there are no frames; the callers test for that.\<close>

definition animated_frame :: "nat \<Rightarrow> 'a list \<Rightarrow> nat \<Rightarrow> 'a option" where
  "animated_frame anim_frame_ms fs now_ms =
     (if fs = [] then None else Some (fs ! ((now_ms div max anim_frame_ms 1) mod length fs)))"

text \<open>The \<open>fps\<close> command: its reply and the argument of the scalar it sends.  \<open>conn\<close> says
  whether the vault can be reached, \<open>send\<close> is the transport (\<open>Some e\<close> for its error text).\<close>

definition fps_process :: "bool \<Rightarrow> (nat \<Rightarrow> string option) \<Rightarrow> string \<Rightarrow> string \<times> nat option" where
  "fps_process conn send args =
     (case from_str_radix 10 u32_max (trim_str args) of
        None \<Rightarrow> (''ERR usage: fps <1..30>'', None)
      | Some n \<Rightarrow>
          if \<not> (1 \<le> n \<and> n \<le> 30) then (''ERR fps out of range (1..30)'', None)
          else if \<not> conn then (''ERR could not reach vault'', None)
          else case send n of None \<Rightarrow> (''OK'', Some n)
               | Some e \<Rightarrow> (''ERR send failed: '' @ e, None))"

section \<open>Abstract view of an upload\<close>

text \<open>An upload in progress is a partial map from positions (frame, chunk) to chunk data, over a
  declared number of frames; it is finished when every position is filled.\<close>

definition positions :: "nat \<Rightarrow> (nat \<times> nat) set" where
  "positions n = {0..<n} \<times> {0..<32}"

definition slots :: "image_state \<Rightarrow> (nat \<times> nat) \<rightharpoonup> bytes" where
  "slots st = (\<lambda>(f, c). if (f, c) \<in> positions (frame_count st) then frames st ! f ! c else None)"

definition image_inv :: "image_state \<Rightarrow> bool" where
  "image_inv st \<longleftrightarrow> 1 \<le> frame_count st \<and> frame_count st \<le> 32
     \<and> length (frames st) = frame_count st \<and> (\<forall>fr \<in> set (frames st). length fr = 32)
     \<and> (\<forall>bs \<in> ran (slots st). length bs = 64)
     \<and> received_count st = card (dom (slots st)) \<and> dom (slots st) \<noteq> positions (frame_count st)"

definition blob_of :: "nat \<Rightarrow> ((nat \<times> nat) \<rightharpoonup> bytes) \<Rightarrow> bytes" where
  "blob_of n M = concat (map (\<lambda>f. concat (map (\<lambda>c. swap_groups (the (M (f, c)))) [0..<32])) [0..<n])"

lemma finite_positions [simp]: "finite (positions n)"
  by (simp add: positions_def)

lemma card_positions [simp]: "card (positions n) = n * 32"
  by (simp add: positions_def)

lemma dom_slots: "dom (slots st) \<subseteq> positions (frame_count st)"
  by (auto simp: slots_def split: if_splits)

lemma finite_dom_slots [simp]: "finite (dom (slots st))"
  using dom_slots finite_positions finite_subset by blast

lemma slots_reset [simp]: "slots (reset_frames st) = Map.empty"
  by (rule ext) (auto simp: slots_def reset_frames_def positions_def image_consts)

lemma frame_count_reset [simp]: "frame_count (reset_frames st) = frame_count st"
  by (simp add: reset_frames_def)

lemma image_inv_reset: "1 \<le> frame_count st \<Longrightarrow> frame_count st \<le> 32 \<Longrightarrow> image_inv (reset_frames st)"
proof -
  assume h: "1 \<le> frame_count st" "frame_count st \<le> 32"
  then have "(0, 0) \<in> positions (frame_count st)" by (simp add: positions_def)
  then have "positions (frame_count st) \<noteq> {}" by blast
  with h show ?thesis
    by (auto simp: image_inv_def) (auto simp: reset_frames_def image_consts)
qed

lemma image_new_eq [simp]: "frame_count st = 1 \<Longrightarrow> reset_frames st = image_new"
  by (simp add: reset_frames_def image_new_def)

section \<open>Lemmas: packing\<close>

lemma length_swap_groups: "length bs mod 4 = 0 \<Longrightarrow> length (swap_groups bs) = length bs"
  by (induction bs rule: swap_groups.induct) (auto simp: mod_Suc split: if_splits)

lemma swap_groups_append: "length xs mod 4 = 0 \<Longrightarrow> swap_groups (xs @ ys) = swap_groups xs @ swap_groups ys"
  by (induction xs rule: swap_groups.induct) (auto simp: mod_Suc split: if_splits)

lemma put_at_adjacent:
  "b' = b + length x \<Longrightarrow> b' + length y \<le> length out \<Longrightarrow>
   put_at b' y (put_at b x out) = put_at b (x @ y) out"
  by (simp add: put_at_def ac_simps)

lemma length_put_at: "b + length x \<le> length out \<Longrightarrow> length (put_at b x out) = length out"
  by (simp add: put_at_def)

lemma put_at_nil [simp]: "put_at b [] out = out"
  by (simp add: put_at_def)

definition full_slot :: "bytes option \<Rightarrow> bool" where
  "full_slot s \<longleftrightarrow> (\<exists>bs. s = Some bs \<and> length bs = 64)"

definition packed :: "bytes option \<Rightarrow> bytes" where
  "packed s = swap_groups (the s)"

lemma packed_Some [simp]: "packed (Some bs) = swap_groups bs"
  by (simp add: packed_def)

lemma blob_chunks_eq:
  "\<lbrakk>\<forall>s \<in> set fr. full_slot s; fi * 2048 + ci * 64 + 64 * length fr \<le> length out\<rbrakk> \<Longrightarrow>
   blob_chunks fi ci fr out = put_at (fi * 2048 + ci * 64) (concat (map packed fr)) out"
proof (induction fr arbitrary: ci out)
  case Nil
  then show ?case by simp
next
  case (Cons s fr)
  then obtain bs where s: "s = Some bs" "length bs = 64" by (auto simp: full_slot_def)
  then have len: "length (swap_groups bs) = 64" by (simp add: length_swap_groups)
  let ?out = "put_at (fi * 2048 + ci * 64) (swap_groups bs) out"
  have "length ?out = length out" using Cons.prems(2) len by (intro length_put_at) simp
  then have "blob_chunks fi (Suc ci) fr ?out
      = put_at (fi * 2048 + Suc ci * 64) (concat (map packed fr)) ?out"
    using Cons.prems by (intro Cons.IH) auto
  moreover have "length (concat (map packed fr)) = 64 * length fr"
    using Cons.prems(1) by (induction fr) (auto simp: full_slot_def length_swap_groups)
  ultimately show ?case using s len Cons.prems(2)
    by (simp add: image_consts put_at_adjacent)
qed

lemma length_frame_blob:
  "\<forall>s \<in> set fr. full_slot s \<Longrightarrow> length (concat (map packed fr)) = 64 * length fr"
  by (induction fr) (auto simp: full_slot_def length_swap_groups)

lemma length_frames_blob:
  "\<forall>fr \<in> set frs. length fr = 32 \<and> (\<forall>s \<in> set fr. full_slot s) \<Longrightarrow>
   length (concat (map (\<lambda>fr. concat (map packed fr)) frs)) = 2048 * length frs"
  by (induction frs) (auto simp: length_frame_blob)

lemma blob_frames_eq:
  "\<lbrakk>\<forall>fr \<in> set frs. length fr = 32 \<and> (\<forall>s \<in> set fr. full_slot s);
    fi * 2048 + 2048 * length frs \<le> length out\<rbrakk> \<Longrightarrow>
   blob_frames fi frs out
     = put_at (fi * 2048) (concat (map (\<lambda>fr. concat (map packed fr)) frs)) out"
proof (induction frs arbitrary: fi out)
  case Nil
  then show ?case by simp
next
  case (Cons fr frs)
  let ?b = "\<lambda>fr. concat (map packed fr)"
  have len: "length (?b fr) = 2048" using Cons.prems(1) length_frame_blob [of fr] by simp
  have lens: "length (concat (map ?b frs)) = 2048 * length frs"
    using Cons.prems(1) by (intro length_frames_blob) simp
  have "blob_chunks fi 0 fr out = put_at (fi * 2048) (?b fr) out"
    using Cons.prems blob_chunks_eq [of fr fi 0 out] by simp
  moreover have "length (put_at (fi * 2048) (?b fr) out) = length out"
    using Cons.prems(2) len by (intro length_put_at) simp
  ultimately have "blob_frames fi (fr # frs) out
      = put_at (Suc fi * 2048) (concat (map ?b frs)) (put_at (fi * 2048) (?b fr) out)"
    using Cons.prems Cons.IH [of "Suc fi" "put_at (fi * 2048) (?b fr) out"] by simp
  also have "\<dots> = put_at (fi * 2048) (?b fr @ concat (map ?b frs)) out"
    using Cons.prems(2) len lens by (intro put_at_adjacent) simp_all
  finally show ?case by simp
qed

lemma full_frames_blob:
  assumes inv: "length (frames st) = frame_count st" "\<forall>fr \<in> set (frames st). length fr = 32"
    and data: "\<forall>bs \<in> ran (slots st). length bs = 64"
    and full: "dom (slots st) = positions (frame_count st)"
  shows "to_blob st = blob_of (frame_count st) (slots st)"
proof -
  let ?n = "frame_count st"
  have slot: "slots st (f, c) = frames st ! f ! c" if "f < ?n" "c < 32" for f c
    using that by (simp add: slots_def positions_def)
  have fullslot: "full_slot (frames st ! f ! c)" if "f < ?n" "c < 32" for f c
  proof -
    have "(f, c) \<in> dom (slots st)" using that full by (simp add: positions_def)
    then obtain bs where bs: "slots st (f, c) = Some bs" by auto
    then have "length bs = 64" using data by (blast intro: ranI)
    then show ?thesis using bs slot [OF that] by (simp add: full_slot_def)
  qed
  have frs: "\<forall>fr \<in> set (frames st). length fr = 32 \<and> (\<forall>s \<in> set fr. full_slot s)"
    using inv fullslot by (metis in_set_conv_nth)
  have fr: "frames st = map (\<lambda>f. map (\<lambda>c. slots st (f, c)) [0..<32]) [0..<?n]"
    using inv slot by (auto intro!: nth_equalityI)
  have len: "length (concat (map (\<lambda>fr. concat (map packed fr)) (frames st))) = ?n * 2048"
    using length_frames_blob [OF frs] inv(1) by simp
  have "to_blob st = put_at 0 (concat (map (\<lambda>fr. concat (map packed fr)) (frames st))) (replicate (?n * 2048) 0)"
    using blob_frames_eq [OF frs, of 0 "replicate (?n * 2048) 0"] inv(1)
    by (simp add: to_blob_def image_consts)
  also have "\<dots> = concat (map (\<lambda>fr. concat (map packed fr)) (frames st))"
    using len by (simp add: put_at_def)
  also have "\<dots> = blob_of ?n (slots st)"
    by (subst fr) (simp add: blob_of_def packed_def comp_def)
  finally show ?thesis .
qed

text \<open>One accepted chunk extends the map, and the upload finishes exactly when the map is full.\<close>

lemma image_accept_refines:
  assumes inv: "image_inv st" and pos: "(f, c) \<in> positions (frame_count st)" and len: "length data = 64"
  defines "M' \<equiv> (slots st)((f, c) \<mapsto> data)"
  shows "if dom M' = positions (frame_count st)
     then image_accept k f c data st w
        = (''SUCCESS'', image_new, notify k 1 (image_store k (blob_of (frame_count st) M') w))
     else \<exists>st'. image_accept k f c data st w = (''OK'', st', w) \<and> image_inv st'
        \<and> slots st' = M' \<and> frame_count st' = frame_count st"
proof -
  let ?st = "st\<lparr>frames := (frames st)[f := (frames st ! f)[c := Some data]],
     received_count := received_count st + (if (frames st ! f) ! c = None then 1 else 0)\<rparr>"
  have fc: "f < frame_count st" "c < 32" using pos by (simp_all add: positions_def)
  have lf: "length (frames st) = frame_count st" "\<forall>fr \<in> set (frames st). length fr = 32"
    using inv by (simp_all add: image_inv_def)
  then have row: "length (frames st ! f) = 32" using fc by simp
  have slots': "slots ?st = M'"
    using fc lf(1) row by (auto simp: slots_def M'_def positions_def fun_eq_iff nth_list_update)
  have cnt: "received_count ?st = card (dom M')"
  proof -
    have "(frames st ! f ! c = None) = ((f, c) \<notin> dom (slots st))"
      using pos by (simp add: slots_def domIff)
    moreover have "received_count st = card (dom (slots st))" using inv by (simp add: image_inv_def)
    ultimately show ?thesis by (simp add: M'_def card_insert_if)
  qed
  have dom': "dom M' \<subseteq> positions (frame_count st)" using dom_slots [of st] pos by (simp add: M'_def)
  have "card (dom M') = frame_count st * 32 \<longleftrightarrow> dom M' = positions (frame_count st)"
    using card_subset_eq [OF finite_positions dom'] card_positions by metis
  moreover have "is_complete ?st \<longleftrightarrow> card (dom M') = frame_count st * 32"
    unfolding is_complete_def cnt by (simp add: image_consts mult.commute)
  ultimately have complete: "is_complete ?st \<longleftrightarrow> dom M' = positions (frame_count st)" by blast
  have ran': "\<forall>bs \<in> ran (slots ?st). length bs = 64"
  proof -
    have "\<forall>bs \<in> ran (slots st). length bs = 64" using inv by (simp add: image_inv_def)
    then show ?thesis using len by (auto simp: slots' M'_def ran_def)
  qed
  have frs': "length (frames ?st) = frame_count ?st" "\<forall>fr \<in> set (frames ?st). length fr = 32"
    using lf row set_update_subset_insert [of "frames st" f] by fastforce+
  show ?thesis
  proof (cases "dom M' = positions (frame_count st)")
    case True
    have "to_blob ?st = blob_of (frame_count st) M'"
      using full_frames_blob [OF frs' ran'] True slots' by simp
    then show ?thesis using True complete by (simp add: image_accept_def Let_def)
  next
    case False
    have "image_inv ?st" using inv frs' ran' cnt slots' False by (simp add: image_inv_def)
    then show ?thesis using False complete slots' by (simp add: image_accept_def Let_def)
  qed
qed

lemma image_inv_new: "image_inv image_new"
  using image_inv_reset [of "\<lparr>frames = [], received_count = 0, frame_count = 1\<rparr>"] by simp

section \<open>Lemmas: commands\<close>

definition be_bytes32 :: "u32 \<Rightarrow> bytes" where
  "be_bytes32 w = rev (le_bytes32 w)"

text \<open>The 70 bytes of a well-formed chunk, and a console line that carries them.\<close>

definition wire :: "(bytes \<Rightarrow> u32) \<Rightarrow> nat \<Rightarrow> nat \<Rightarrow> bytes \<Rightarrow> bytes" where
  "wire crc f c data =
     (let body = of_nat f # of_nat c # data in body @ be_bytes32 (crc body))"

definition chunk_line :: "(string \<Rightarrow> bytes option) \<Rightarrow> (bytes \<Rightarrow> u32) \<Rightarrow> string \<times> nat \<times> nat \<times> bytes \<Rightarrow> bool" where
  "chunk_line b64 crc = (\<lambda>(args, f, c, data).
     trim_str args \<noteq> ''clear'' \<and> strip_prefix ''frames '' (trim_str args) = None \<and> trim_str args \<noteq> []
     \<and> b64 (trim_str args) = Some (wire crc f c data) \<and> f < 32 \<and> c < 32 \<and> length data = 64)"

lemma wire_nth:
  assumes "length data = 64"
  shows "wire crc f c data ! 0 = of_nat f" "wire crc f c data ! 1 = of_nat c"
    "take 66 (wire crc f c data) = of_nat f # of_nat c # data"
    "take 64 (drop 2 (wire crc f c data)) = data" "length (wire crc f c data) = 70"
    "drop 66 (wire crc f c data) = be_bytes32 (crc (of_nat f # of_nat c # data))"
  using assms by (simp_all add: wire_def Let_def be_bytes32_def)

lemma wire_crc:
  assumes "length data = 64"
  shows "u32_from_be (wire crc f c data ! 66) (wire crc f c data ! 67) (wire crc f c data ! 68)
     (wire crc f c data ! 69) = crc (of_nat f # of_nat c # data)"
proof -
  let ?w = "wire crc f c data"
  have "?w ! (66 + i) = drop 66 ?w ! i" for i using wire_nth(5) [OF assms] by simp
  from this [of 0] this [of 1] this [of 2] this [of 3] show ?thesis
    by (simp add: wire_nth(6) [OF assms] be_bytes32_def le_bytes32_def u32_from_be_def codec)
qed

lemma process_chunk_line:
  assumes "chunk_line b64 crc (args, f, c, data)" and "f < frame_count st"
  shows "image_process b64 crc k args st w = image_accept k f c data st w"
proof -
  have len: "length data = 64" and small: "f < 32" "c < 32" using assms(1) by (auto simp: chunk_line_def)
  have "unat (of_nat f :: u8) = f" "unat (of_nat c :: u8) = c" using small by (simp_all add: unat_of_nat)
  then have "image_chunk crc k (wire crc f c data) st w = image_accept k f c data st w"
    using assms(2) small wire_nth [OF len, of crc f c] wire_crc [OF len, of crc f c]
    by (simp add: image_chunk_def image_consts Let_def eval_nat_numeral)
  then show ?thesis using assms(1) by (simp add: chunk_line_def image_process_def Let_def)
qed

fun image_run :: "(string \<Rightarrow> bytes option) \<Rightarrow> (bytes \<Rightarrow> u32) \<Rightarrow> image_slot \<Rightarrow> string list
    \<Rightarrow> image_state \<Rightarrow> image_world \<Rightarrow> string list \<times> image_state \<times> image_world" where
  "image_run b64 crc k [] st w = ([], st, w)"
| "image_run b64 crc k (l # ls) st w =
     (case image_process b64 crc k l st w of
        (r, st', w') \<Rightarrow> (case image_run b64 crc k ls st' w' of (rs, res) \<Rightarrow> (r # rs, res)))"

text \<open>The entries a list of chunk lines leaves: a position holds the data of the last line for it.\<close>

definition entry :: "string \<times> nat \<times> nat \<times> bytes \<Rightarrow> (nat \<times> nat) \<times> bytes" where
  "entry = (\<lambda>(args, f, c, data). ((f, c), data))"

definition entries :: "(string \<times> nat \<times> nat \<times> bytes) list \<Rightarrow> (nat \<times> nat) \<rightharpoonup> bytes" where
  "entries ms = map_of (rev (map entry ms))"

lemma entries_simps [simp]:
  "entries [] = Map.empty"
  "entries (ms @ [m]) = (entries ms)(fst (entry m) \<mapsto> snd (entry m))"
  by (simp_all add: entries_def)

lemma entries_Cons: "M ++ entries (m # ms) = M(fst (entry m) \<mapsto> snd (entry m)) ++ entries ms"
  by (cases "entry m") (simp add: entries_def map_add_assoc [symmetric])

lemma dom_entries: "dom (entries ms) = fst ` entry ` set ms"
  by (simp add: entries_def dom_map_of_conv_image_fst image_image)

lemma image_run_append:
  "image_run b64 crc k (xs @ ys) st w =
     (case image_run b64 crc k xs st w of (rs, st', w') \<Rightarrow>
        (case image_run b64 crc k ys st' w' of (rs', res) \<Rightarrow> (rs @ rs', res)))"
  by (induction xs arbitrary: st w) (auto split: prod.splits)

lemma image_run_chunks:
  assumes "image_inv st" and "\<forall>m \<in> set ms. chunk_line b64 crc m \<and> fst (entry m) \<in> positions (frame_count st)"
    and "dom (slots st ++ entries ms) \<noteq> positions (frame_count st)"
  shows "\<exists>st'. image_run b64 crc k (map fst ms) st w = (replicate (length ms) ''OK'', st', w)
     \<and> image_inv st' \<and> slots st' = slots st ++ entries ms \<and> frame_count st' = frame_count st"
  using assms
proof (induction ms arbitrary: st)
  case Nil
  then show ?case by auto
next
  case (Cons m ms)
  obtain args f c data where m: "m = (args, f, c, data)" by (cases m) auto
  let ?M = "(slots st)((f, c) \<mapsto> data)"
  have line: "chunk_line b64 crc (args, f, c, data)" and pos: "(f, c) \<in> positions (frame_count st)"
    using Cons.prems(2) m by (auto simp: entry_def)
  have add: "slots st ++ entries (m # ms) = ?M ++ entries ms"
    by (simp add: entries_Cons m entry_def)
  have "dom ?M \<noteq> positions (frame_count st)"
  proof
    assume "dom ?M = positions (frame_count st)"
    moreover have "dom (entries ms) \<subseteq> positions (frame_count st)"
      using Cons.prems(2) by (auto simp: dom_entries)
    ultimately show False using Cons.prems(3) unfolding add by auto
  qed
  then obtain st1 where st1: "image_accept k f c data st w = (''OK'', st1, w)" "image_inv st1"
      "slots st1 = ?M" "frame_count st1 = frame_count st"
    using image_accept_refines [OF Cons.prems(1) pos, of data k w] line
    by (auto simp: chunk_line_def)
  have proc: "image_process b64 crc k args st w = (''OK'', st1, w)"
    using process_chunk_line [OF line] pos st1(1) by (simp add: positions_def)
  have lines: "\<forall>m \<in> set ms. chunk_line b64 crc m \<and> fst (entry m) \<in> positions (frame_count st1)"
    using Cons.prems(2) st1(4) by simp
  have missing: "dom (slots st1 ++ entries ms) \<noteq> positions (frame_count st1)"
    using Cons.prems(3) unfolding add st1(3,4) .
  obtain st' where st': "image_run b64 crc k (map fst ms) st1 w = (replicate (length ms) ''OK'', st', w)"
      "image_inv st'" "slots st' = slots st1 ++ entries ms" "frame_count st' = frame_count st1"
    using Cons.IH [OF st1(2) lines missing] by blast
  have "image_run b64 crc k (map fst (m # ms)) st w = (replicate (length (m # ms)) ''OK'', st', w)"
    by (simp add: m proc st'(1))
  then show ?case unfolding add using st'(2) st'(3,4) [unfolded st1(3,4)] by blast
qed

lemma image_process_frames:
  assumes "1 \<le> n" "n \<le> 32"
  shows "image_process b64 crc k (''frames '' @ show_nat n) st w = (''OK'', reset_frames (st\<lparr>frame_count := n\<rparr>), w)"
proof -
  have "trim_str (''frames '' @ show_nat n) = ''frames '' @ show_nat n"
    by (rule trim_show_nat) (simp_all add: is_ws_def)
  then show ?thesis using assms
    by (simp add: image_process_def strip_prefix_def image_frames_def codec image_consts)
qed

fun be_words :: "bytes \<Rightarrow> u32 list" where
  "be_words (a # b # c # d # rest) = u32_from_be a b c d # be_words rest"
| "be_words _ = []"

lemma le_words_swap: "le_words (swap_groups bs) = be_words bs"
  by (induction bs rule: swap_groups.induct) (auto simp: u32_from_be_def)

lemma le_words_append: "length xs mod 4 = 0 \<Longrightarrow> le_words (xs @ ys) = le_words xs @ le_words ys"
  by (induction xs rule: le_words.induct) (auto simp: mod_Suc split: if_splits)

lemma be_words_append: "length xs mod 4 = 0 \<Longrightarrow> be_words (xs @ ys) = be_words xs @ be_words ys"
  by (induction xs rule: be_words.induct) (auto simp: mod_Suc split: if_splits)

lemma le_words_frame:
  "\<forall>bs \<in> set ds. length bs = 64 \<Longrightarrow> le_words (concat (map swap_groups ds)) = be_words (concat ds)"
  by (induction ds) (auto simp: le_words_append be_words_append le_words_swap length_swap_groups)

lemma load_concat:
  assumes "\<forall>fr \<in> set fs. length fr = 2048" "fs \<noteq> []"
  shows "load_image_frames (concat fs) = map le_words fs"
proof -
  have len: "length (concat fs) = 2048 * length fs" using assms(1) by (induction fs) auto
  have "take 2048 (drop (i * 2048) (concat fs)) = fs ! i" if "i < length fs" for i
    using assms(1) that
  proof (induction fs arbitrary: i)
    case (Cons fr fs)
    then show ?case by (cases i) auto
  qed simp
  then show ?thesis using len assms(2)
    by (auto simp: load_image_frames_def Let_def intro!: nth_equalityI)
qed

lemma length_packed: "length bs = 64 \<Longrightarrow> length (swap_groups bs) = 64"
  by (simp add: length_swap_groups)

lemma load_blob_of:
  assumes "1 \<le> n" and "\<And>f c. (f, c) \<in> positions n \<Longrightarrow> \<exists>bs. M (f, c) = Some bs \<and> length bs = 64"
  shows "load_image_frames (blob_of n M)
     = map (\<lambda>f. be_words (concat (map (\<lambda>c. the (M (f, c))) [0..<32]))) [0..<n]"
proof -
  let ?fr = "\<lambda>f. concat (map swap_groups (map (\<lambda>c. the (M (f, c))) [0..<32]))"
  have data: "length (the (M (f, c))) = 64" if "f < n" "c < 32" for f c
    using assms(2) [of f c] that by (auto simp: positions_def)
  have sum: "length (concat (map swap_groups ds)) = 64 * length ds" if "\<forall>bs \<in> set ds. length bs = 64" for ds
    using that by (induction ds) (simp_all add: length_packed)
  have "length (?fr f) = 2048" if "f < n" for f
    using sum [of "map (\<lambda>c. the (M (f, c))) [0..<32]"] data [OF that] by simp
  then have "load_image_frames (concat (map ?fr [0..<n])) = map le_words (map ?fr [0..<n])"
    using assms(1) by (intro load_concat) auto
  also have "\<dots> = map (\<lambda>f. be_words (concat (map (\<lambda>c. the (M (f, c))) [0..<32]))) [0..<n]"
    by (simp only: map_map comp_def, intro map_cong refl, subst map_map [unfolded comp_def, symmetric])
       (intro le_words_frame, use data in auto)
  finally show ?thesis by (simp add: blob_of_def comp_def)
qed

text \<open>The outcome every line has: a well-formed state, and no change behind an error reply.\<close>

definition safe_outcome :: "image_state \<Rightarrow> image_world \<Rightarrow> string \<times> image_state \<times> image_world \<Rightarrow> bool" where
  "safe_outcome st w res = (case res of (reply, st', w') \<Rightarrow>
     image_inv st' \<and> (reply \<notin> {''OK'', ''SUCCESS'', ''CLEAR''} \<longrightarrow> st' = st \<and> w' = w))"

lemma safe_error: "image_inv st \<Longrightarrow> safe_outcome st w (r, st, w)"
  by (simp add: safe_outcome_def)

lemma safe_if: "(c \<Longrightarrow> safe_outcome st w x) \<Longrightarrow> (\<not> c \<Longrightarrow> safe_outcome st w y) \<Longrightarrow> safe_outcome st w (if c then x else y)"
  by simp

lemma safe_clear: "safe_outcome st w (image_clear k st w)"
  by (simp add: safe_outcome_def image_clear_def image_inv_new)

lemma safe_frames: "image_inv st \<Longrightarrow> safe_outcome st w (image_frames rest st w)"
  by (auto simp: safe_outcome_def image_frames_def image_consts split: option.splits
      intro!: image_inv_reset)

lemma safe_accept:
  assumes "image_inv st" "(f, c) \<in> positions (frame_count st)" "length data = 64"
  shows "safe_outcome st w (image_accept k f c data st w)"
  using image_accept_refines [OF assms, of k w]
  by (auto simp: safe_outcome_def image_inv_new split: if_splits)

lemma safe_chunk: "image_inv st \<Longrightarrow> safe_outcome st w (image_chunk crc k decoded st w)"
  unfolding image_chunk_def Let_def
  by (intro safe_if safe_error safe_accept) (auto simp: image_consts positions_def)

lemma safe_process: "image_inv st \<Longrightarrow> safe_outcome st w (image_process b64 crc k args st w)"
  unfolding image_process_def Let_def
  by (auto simp only: split: option.split if_split intro: safe_clear safe_frames safe_chunk safe_error)

section \<open>Properties\<close>

text \<open>C24: an upload completes exactly when its last position arrives.  After \<open>frames n\<close>, chunk
  lines for frames below \<open>n\<close> may come in any order and be repeated; as long as one of the
  \<open>n * 32\<close> positions is missing every reply is OK and nothing is stored, and the line that
  fills the last one is answered SUCCESS, stores the blob of the latest data of every
  position, notifies the vault once and leaves the command as it was at start.\<close>

theorem upload_completes:
  assumes "image_inv st" and "1 \<le> n" and "n \<le> 32"
    and "\<forall>l \<in> set (ms @ [m]). chunk_line b64 crc l \<and> fst (entry l) \<in> positions n"
    and "dom (entries ms) \<noteq> positions n" and "dom (entries (ms @ [m])) = positions n"
  shows "image_run b64 crc k ((''frames '' @ show_nat n) # map fst (ms @ [m])) st w
     = (''OK'' # replicate (length ms) ''OK'' @ [''SUCCESS''], image_new,
        notify k 1 (image_store k (blob_of n (entries (ms @ [m]))) w))"
proof -
  let ?st = "reset_frames (st\<lparr>frame_count := n\<rparr>)"
  have inv: "image_inv ?st" using image_inv_reset assms(2,3) by simp
  have fc: "frame_count ?st = n" by simp
  obtain st' where st': "image_run b64 crc k (map fst ms) ?st w = (replicate (length ms) ''OK'', st', w)"
      "image_inv st'" "slots st' = entries ms" "frame_count st' = n"
    using image_run_chunks [OF inv, of ms b64 crc k w] assms(4,5) fc by auto
  obtain args f c data where m: "m = (args, f, c, data)" by (cases m) auto
  have line: "chunk_line b64 crc (args, f, c, data)" and pos: "(f, c) \<in> positions (frame_count st')"
    using assms(4) m st'(4) by (auto simp: entry_def)
  have "image_process b64 crc k args st' w = image_accept k f c data st' w"
    using process_chunk_line [OF line] pos by (simp add: positions_def)
  also have "\<dots> = (''SUCCESS'', image_new, notify k 1 (image_store k (blob_of n (entries (ms @ [m]))) w))"
    using image_accept_refines [OF st'(2) pos, of data k w] line assms(6) st'(3,4)
    by (simp add: m entry_def chunk_line_def)
  finally show ?thesis using st'(1) image_process_frames [OF assms(2,3)]
    by (simp add: image_run_append m)
qed

text \<open>The witness uploads one frame backwards, with a decoder that reads the characters' codes.\<close>

theorem upload_completes_witness:
  "fst (image_run (\<lambda>s. Some (map (\<lambda>ch. of_nat (of_char ch)) s)) (\<lambda>_. 0) UserImage
      (''frames 1'' # map (\<lambda>c. map char_of ([0, c] @ replicate 64 7 @ replicate 4 0 :: nat list)) (rev [0..<32]))
      image_new \<lparr>img_store = Map.empty, img_store_up = True, notices = []\<rparr>)
   = replicate 32 ''OK'' @ [''SUCCESS'']"
proof -
  let ?b64 = "\<lambda>s :: string. Some (map (\<lambda>ch. of_nat (of_char ch)) s) :: bytes option" and ?crc = "\<lambda>_ :: bytes. 0 :: u32"
  let ?text = "\<lambda>c. map char_of ([0, c] @ replicate 64 7 @ replicate 4 0 :: nat list) :: string"
  let ?line = "\<lambda>c. (?text c, 0 :: nat, c, replicate 64 7 :: bytes)"
  let ?ms = "map ?line (rev [1..<32])" and ?m = "?line 0"
  let ?w = "\<lparr>img_store = Map.empty, img_store_up = True, notices = []\<rparr>"
  have four: "replicate 4 (0 :: u8) = [0, 0, 0, 0]" by (simp add: numeral_eq_Suc)
  have line: "chunk_line ?b64 ?crc (?line c)" if "c < 32" for c
  proof -
    have "\<not> is_ws (char_of (0::nat))" "char_of (0::nat) \<noteq> CHR ''c''" "char_of (0::nat) \<noteq> CHR ''f''"
      by code_simp+
    moreover from this have "trim_str (?text c) = ?text c" by (intro trim_str_id) simp
    ultimately show ?thesis using that
      by (simp add: chunk_line_def strip_prefix_def wire_def be_bytes32_def le_bytes32_def Let_def four)
  qed
  have lines: "\<forall>l \<in> set (?ms @ [?m]). chunk_line ?b64 ?crc l" using line by auto
  have pos: "\<forall>l \<in> set (?ms @ [?m]). fst (entry l) \<in> positions 1"
    by (auto simp: entry_def positions_def)
  have both: "\<forall>l \<in> set (?ms @ [?m]). chunk_line ?b64 ?crc l \<and> fst (entry l) \<in> positions 1"
    unfolding ball_conj_distrib by (rule conjI [OF lines pos])
  have "(0, 0) \<notin> dom (entries ?ms)" by (auto simp: dom_entries entry_def)
  moreover have "(0, 0) \<in> positions 1" by (simp add: positions_def)
  ultimately have missing: "dom (entries ?ms) \<noteq> positions 1" by blast
  have full: "dom (entries (?ms @ [?m])) = positions 1"
    by (auto simp: dom_entries entry_def positions_def image_iff)
  have one: "show_nat 1 = ''1''" by code_simp
  have eq: "''frames 1'' # map ?text (rev [0..<32]) = (''frames '' @ show_nat 1) # map fst (?ms @ [?m])"
    unfolding one by (simp add: upt_conv_Cons)
  have "image_run ?b64 ?crc UserImage ((''frames '' @ show_nat 1) # map fst (?ms @ [?m])) image_new ?w
      = (''OK'' # replicate (length ?ms) ''OK'' @ [''SUCCESS''], image_new,
         notify UserImage 1 (image_store UserImage (blob_of 1 (entries (?ms @ [?m]))) ?w))"
    by (rule upload_completes [OF image_inv_new _ _ both missing full]) simp_all
  then have "fst (image_run ?b64 ?crc UserImage (''frames 1'' # map ?text (rev [0..<32])) image_new ?w)
      = ''OK'' # replicate (length ?ms) ''OK'' @ [''SUCCESS'']"
    unfolding eq by (rule arg_cong [where f = fst, THEN trans]) (rule fst_conv)
  then show ?thesis by (simp only:) (simp add: eval_nat_numeral)
qed

text \<open>what is uploaded is what is shown.  The stored blob of a complete upload loads as
  exactly \<open>n\<close> frames, and the words the display reads (little endian) are the big-endian
  words of the chunk data the sender packed, in order.\<close>

theorem uploaded_frames_load:
  assumes "1 \<le> n" and "img_store_up w"
    and "\<forall>p \<in> positions n. \<exists>bs. M p = Some bs \<and> length bs = 64"
  shows "\<exists>v. img_store (notify k 1 (image_store k (blob_of n M) w)) (slot_key k) = Some v
     \<and> load_image_frames v = map (\<lambda>f. be_words (concat (map (\<lambda>c. the (M (f, c))) [0..<32]))) [0..<n]
     \<and> (\<forall>key. key \<noteq> slot_key k \<longrightarrow> img_store (notify k 1 (image_store k (blob_of n M) w)) key = img_store w key)"
proof -
  have "load_image_frames (blob_of n M)
      = map (\<lambda>f. be_words (concat (map (\<lambda>c. the (M (f, c))) [0..<32]))) [0..<n]"
    using assms(3) by (intro load_blob_of [OF assms(1)]) auto
  then show ?thesis using assms(2)
    by (auto simp: notify_def image_store_def pddb_keys.recreate pddb_keys.contents_del)
qed

theorem uploaded_frames_load_witness:
  "\<exists>v. img_store (notify UserImage 1 (image_store UserImage (blob_of 1 (\<lambda>_. Some (replicate 64 7)))
        \<lparr>img_store = Map.empty, img_store_up = True, notices = []\<rparr>)) ''image'' = Some v
     \<and> length (load_image_frames v) = 1"
  using uploaded_frames_load [of 1 "\<lparr>img_store = Map.empty, img_store_up = True, notices = []\<rparr>"
      "\<lambda>_. Some (replicate 64 7)" UserImage]
  by fastforce

text \<open>C21: whatever line arrives, and whatever the decoder and the CRC answer, the upload state
  stays well formed (between one and 32 frames of 32 slots, chunks of 64 bytes, the counter
  equal to the number of filled slots, never full), and a line that is refused changes
  neither the state nor the store nor notifies the vault.\<close>

theorem image_process_safe:
  assumes "image_inv st" and "image_process b64 crc k args st w = (reply, st', w')"
  shows "image_inv st' \<and> (reply \<notin> {''OK'', ''SUCCESS'', ''CLEAR''} \<longrightarrow> st' = st \<and> w' = w)"
  using safe_process [OF assms(1), of w b64 crc k args] assms(2) by (simp add: safe_outcome_def)

theorem image_process_safe_witness:
  "image_inv (fst (snd (image_process (\<lambda>_. None) (\<lambda>_. 0) UserImage ''frames 33'' image_new
     \<lparr>img_store = Map.empty, img_store_up = True, notices = []\<rparr>)))"
  using image_process_safe [OF image_inv_new, of "\<lambda>_. None" "\<lambda>_. 0" UserImage "''frames 33''"]
  by (metis prod.collapse)

lemma fps_round: "1 \<le> f \<Longrightarrow> f \<le> 30 \<Longrightarrow> \<bar>2 * int ((1000 + f div 2) div f) * int f - 2000\<bar> \<le> int f"
proof -
  assume f: "1 \<le> f" "f \<le> 30"
  let ?r = "(1000 + f div 2) mod f" and ?q = "(1000 + f div 2) div f"
  have q: "int ?q * int f = 1000 + int (f div 2) - int ?r"
  proof -
    have "int (?q * f + ?r) = int (1000 + f div 2)" by (simp only: div_mult_mod_eq)
    then show ?thesis unfolding of_nat_add of_nat_mult by linarith
  qed
  have "?r < f" using f by simp
  moreover have "2 * (f div 2) \<le> f" "f \<le> 2 * (f div 2) + 1" by auto
  ultimately show ?thesis using q by simp
qed

lemma frame_ms_range: "33 \<le> fps_to_frame_ms fps \<and> fps_to_frame_ms fps \<le> 1000"
proof -
  have "33 \<le> (1000 + f div 2) div f \<and> (1000 + f div 2) div f \<le> 1000" if f: "1 \<le> f" "f \<le> 30" for f :: nat
  proof -
    have "f * 33 \<le> 1000 + f div 2" using f by linarith
    then have "33 \<le> (1000 + f div 2) div f" using f by (simp add: less_eq_div_iff_mult_less_eq mult.commute)
    moreover have "1000 + f div 2 < f * 1001" using f by linarith
    then have "(1000 + f div 2) div f < 1001" using f by (simp add: div_less_iff_less_mult mult.commute)
    ultimately show ?thesis by simp
  qed
  from this [of "min (max (unat fps) 1) 30"] show ?thesis by (simp add: fps_to_frame_ms_def Let_def)
qed

text \<open>the animation speed is always sane: any byte of frames per second gives a frame time
  between 33 ms and one second, 1 to 30 fps give the nearest millisecond to 1000/fps; a
  non-empty animation always has a frame to show, shows each frame for one frame time and
  starts over after all of them.\<close>

theorem animation_timing:
  "33 \<le> fps_to_frame_ms fps \<and> fps_to_frame_ms fps \<le> 1000
   \<and> (1 \<le> unat fps \<and> unat fps \<le> 30 \<longrightarrow> \<bar>2 * int (fps_to_frame_ms fps) * int (unat fps) - 2000\<bar> \<le> int (unat fps))
   \<and> (fs \<noteq> [] \<and> i < length fs \<and> t < fps_to_frame_ms fps \<longrightarrow>
        animated_frame (fps_to_frame_ms fps) fs ((i + r * length fs) * fps_to_frame_ms fps + t) = Some (fs ! i))"
proof -
  let ?ms = "fps_to_frame_ms fps"
  have ms: "33 \<le> ?ms" using frame_ms_range by blast
  have "fps_to_frame_ms fps = (1000 + unat fps div 2) div unat fps" if "1 \<le> unat fps" "unat fps \<le> 30"
    using that by (simp add: fps_to_frame_ms_def Let_def)
  moreover have "((i + r * length fs) * ?ms + t) div ?ms mod length fs = i"
    if "i < length fs" "t < ?ms"
    using that ms by (simp add: div_mult_self3)
  ultimately show ?thesis using frame_ms_range fps_round [of "unat fps"] ms
    by (simp add: animated_frame_def max_absorb1)
qed

theorem animation_timing_witness:
  "animated_frame (fps_to_frame_ms 10) ''abc'' ((1 + 5 * 3) * fps_to_frame_ms 10 + 99) = Some (CHR ''b'')"
  using animation_timing [of 10 "''abc''" 1 99 5] by (simp add: fps_to_frame_ms_def)

text \<open>the \<open>fps\<close> command sends the vault only values from 1 to 30, sends at most one, and
  answers OK exactly when it has sent it.\<close>

theorem fps_process_bounds:
  "case fps_process conn send args of (reply, sent) \<Rightarrow>
     (reply = ''OK'') = (sent \<noteq> None) \<and> (\<forall>n. sent = Some n \<longrightarrow> 1 \<le> n \<and> n \<le> 30
       \<and> from_str_radix 10 u32_max (trim_str args) = Some n \<and> send n = None)"
proof (cases "from_str_radix 10 u32_max (trim_str args)")
  case (Some n)
  show ?thesis
    by (cases "1 \<le> n \<and> n \<le> 30"; cases conn; cases "send n") (simp_all only: fps_process_def Some option.case if_True if_False prod.case simp_thms list.inject list.distinct append.simps, auto)
qed (simp add: fps_process_def)

theorem fps_process_bounds_witness:
  "snd (fps_process True (\<lambda>_. None) ''12'') = Some 12 \<and> 1 \<le> (12::nat)"
proof -
  have "''12'' = show_nat 12" by code_simp
  then have "fps_process True (\<lambda>_. None) ''12'' = (''OK'', Some 12)"
    by (simp add: fps_process_def codec)
  then show ?thesis using fps_process_bounds [where conn = True and send = "\<lambda>_. None" and args = "''12''"] by simp
qed

end
