(* ===== verification/Power_Manager.thy ===== *)
theory Power_Manager
  imports Xous_Messages
begin

text \<open>
  The power manager server (\<open>dc34-console/src/power.rs\<close>): the register programs it runs on the
  accelerometer, and its message loop as a transition function that returns the new state and
  the effects of the turn in order.  What a handler reads from the hardware (time, the VBUS
  pin, the accelerometer's registers and tilt, the battery voltage) is the environment of the
  turn.  Calls to the display, keyboard, watchdog, real-time clock and suspend services are
  effects; they are assumed to be served.  \<open>None\<close> is a panic.
\<close>

section \<open>Accelerometer programs\<close>

text \<open>
  The accelerometer is a register file behind an I2C bus.  The \<open>n\<close>-th transaction fails when
  \<open>bus_fail n\<close>; a program stops at its first failure, as the \<open>?\<close> operator does.
  \<open>Save\<close> and \<open>WriteSaved\<close> are the \<open>saved_ctrl3\<close> variables of the source.
\<close>

record accel_bus =
  regs :: "u8 \<Rightarrow> u8"
  bus_time :: nat
  bus_fail :: "nat \<Rightarrow> bool"

abbreviation WHO_AM_I :: u8 where "WHO_AM_I \<equiv> 0x0F"
abbreviation CTRL_REG1 :: u8 where "CTRL_REG1 \<equiv> 0x20"
abbreviation CTRL_REG2 :: u8 where "CTRL_REG2 \<equiv> 0x21"
abbreviation CTRL_REG3 :: u8 where "CTRL_REG3 \<equiv> 0x22"
abbreviation CTRL_REG5 :: u8 where "CTRL_REG5 \<equiv> 0x24"
abbreviation CTRL_REG6 :: u8 where "CTRL_REG6 \<equiv> 0x25"
abbreviation REFERENCE :: u8 where "REFERENCE \<equiv> 0x26"
abbreviation INT1_CFG :: u8 where "INT1_CFG \<equiv> 0x30"
abbreviation INT1_SRC :: u8 where "INT1_SRC \<equiv> 0x31"
abbreviation INT1_THS :: u8 where "INT1_THS \<equiv> 0x32"
abbreviation INT1_DURATION :: u8 where "INT1_DURATION \<equiv> 0x33"
abbreviation INT2_CFG :: u8 where "INT2_CFG \<equiv> 0x34"
abbreviation INT2_SRC :: u8 where "INT2_SRC \<equiv> 0x35"
abbreviation INT2_THS :: u8 where "INT2_THS \<equiv> 0x36"
abbreviation INT2_DURATION :: u8 where "INT2_DURATION \<equiv> 0x37"

definition read_register :: "u8 \<Rightarrow> accel_bus \<Rightarrow> u8 option \<times> accel_bus" where
  "read_register r b =
     (if bus_fail b (bus_time b) then None else Some (regs b r), b\<lparr>bus_time := Suc (bus_time b)\<rparr>)"

definition write_register :: "u8 \<Rightarrow> u8 \<Rightarrow> accel_bus \<Rightarrow> unit option \<times> accel_bus" where
  "write_register r v b =
     (if bus_fail b (bus_time b) then (None, b\<lparr>bus_time := Suc (bus_time b)\<rparr>)
      else (Some (), b\<lparr>regs := (regs b)(r := v), bus_time := Suc (bus_time b)\<rparr>))"

datatype bus_op = Read u8 | Save u8 | Write u8 u8 | WriteSaved u8 "u8 \<Rightarrow> u8" | Modify u8 "u8 \<Rightarrow> u8"

fun run_bus :: "bus_op list \<Rightarrow> u8 \<Rightarrow> accel_bus \<Rightarrow> unit option \<times> accel_bus" where
  "run_bus [] saved b = (Some (), b)"
| "run_bus (Read r # ops) saved b =
     (case read_register r b of (None, b') \<Rightarrow> (None, b') | (Some _, b') \<Rightarrow> run_bus ops saved b')"
| "run_bus (Save r # ops) saved b =
     (case read_register r b of (None, b') \<Rightarrow> (None, b') | (Some v, b') \<Rightarrow> run_bus ops v b')"
| "run_bus (Write r v # ops) saved b =
     (case write_register r v b of (None, b') \<Rightarrow> (None, b') | (Some _, b') \<Rightarrow> run_bus ops saved b')"
| "run_bus (WriteSaved r f # ops) saved b =
     (case write_register r (f saved) b of (None, b') \<Rightarrow> (None, b') | (Some _, b') \<Rightarrow> run_bus ops saved b')"
| "run_bus (Modify r f # ops) saved b =
     (case read_register r b of (None, b') \<Rightarrow> (None, b')
      | (Some v, b') \<Rightarrow>
          (case write_register r (f v) b' of (None, b'') \<Rightarrow> (None, b'') | (Some _, b'') \<Rightarrow> run_bus ops saved b''))"

definition setup_accel :: "bus_op list" where
  "setup_accel =
     [Save CTRL_REG3, Write CTRL_REG5 0x08, Write INT1_CFG 0x7F, Write CTRL_REG1 0x37,
      Write INT1_THS 18, Write INT1_DURATION 3, Write INT2_CFG 0x7F, Write INT2_THS 0x30,
      Write INT2_DURATION 8, Modify CTRL_REG6 (\<lambda>v. v AND NOT 0x02), Write CTRL_REG2 1,
      Read REFERENCE, WriteSaved CTRL_REG3 (\<lambda>v. v OR 0x20), Read INT1_SRC, Read INT2_SRC]"

definition accel_enable_int :: "bool \<Rightarrow> bus_op list" where
  "accel_enable_int enable =
     [Read INT1_SRC, Read INT2_SRC, Save CTRL_REG3] @
     (if enable then [WriteSaved CTRL_REG3 (\<lambda>v. v OR 0x40 OR 0x20), Read REFERENCE]
      else [Write INT2_CFG 0x7F, WriteSaved CTRL_REG3 (\<lambda>v. v AND NOT 0x40)])"

definition accel_pause_int :: "bool \<Rightarrow> bus_op list" where
  "accel_pause_int pause =
     [Read INT1_SRC, Read INT2_SRC, Save CTRL_REG3] @
     (if pause then [WriteSaved CTRL_REG3 (\<lambda>v. v AND NOT (0x40 OR 0x20))]
      else [Write INT2_CFG 0x7F, WriteSaved CTRL_REG3 (\<lambda>v. v OR 0x20)])"

text \<open>A source register is read once more when the first read fails, and counts as active when
  both fail.\<close>

definition read_source :: "u8 \<Rightarrow> accel_bus \<Rightarrow> u8 \<times> accel_bus" where
  "read_source r b =
     (case read_register r b of (Some v, b') \<Rightarrow> (v, b')
      | (None, b') \<Rightarrow> (case read_register r b' of (Some v, b'') \<Rightarrow> (v, b'') | (None, b'') \<Rightarrow> (0x40, b'')))"

section \<open>State, environment, effects\<close>

datatype orientation = FaceUp | FaceDown | Unknown

text \<open>\<open>Lis2dh12::get_orientation\<close>, from the acceleration along X in milli-g.\<close>

definition get_orientation :: "int option \<Rightarrow> orientation option" where
  "get_orientation x = map_option
     (\<lambda>x. if x > 500 then FaceUp else if x < - 500 then FaceDown else Unknown) x"

record pwr_env =
  now_ms :: nat
  vbus_pin :: bool
  x_mg :: "int option"
  vbat_mv :: u32

record pwr_state =
  accel :: "accel_bus option"
  orient :: orientation
  vbus_high :: bool
  alarm_set :: bool
  pwr_mgr_enabled :: bool
  booted :: bool
  wfi_awaiting_keypress :: bool
  idle_sec :: nat
  force_wfi :: bool
  force_deep_sleep :: bool
  power_off :: bool
  screen_off_requested :: bool
  last_action_time_ms :: nat

datatype pwr_effect =
    ScreenPower bool | FlipScreen bool | FlipKeys bool | InjectKey u32 | JackEyes bool
  | VaultSkipKey | FeedWatchdog | DisableWatchdog | EnableWatchdog | InitiateSuspend | DeepSleep
  | SetAlarm | ClearAlarm | PluggedIn bool | VbusTrigger bool | UsbVbus bool | LedFade bool
  | Reply u32 u32 | SpawnPowerOff

datatype pwr_op = Enable | Poll | MotionIrq | VbusIrq | KeyPress | SetFadeMode | GetAccelId
  | GetVbat | GetVbus | Boot | ForceWfi | ForceDeepSleep | PowerOff | ScreenOffRequest
  | PauseAccel | FeedWdt | PwrInvalid

definition MOTION_IRQ_MARGIN_MS :: nat where "MOTION_IRQ_MARGIN_MS = 1000"
definition WFI_IDLE_SEC_INIT :: nat where "WFI_IDLE_SEC_INIT = 60"
definition WFI_MIN_SEC :: u32 where "WFI_MIN_SEC = 5"

definition ALARM_CLOCK :: u32 where "ALARM_CLOCK = 0x23F0"
definition FLIP_DOWN_KEY :: u32 where "FLIP_DOWN_KEY = 0x1F53D"
definition FLIP_UP_KEY :: u32 where "FLIP_UP_KEY = 0x1F53C"

text \<open>\<open>char::from_u32(c).unwrap_or('\<backslash>0')\<close>.\<close>

definition char_from_u32 :: "u32 \<Rightarrow> u32" where
  "char_from_u32 c = (if 0x10FFFF < c \<or> 0xD800 \<le> c \<and> c \<le> 0xDFFF then 0 else c)"

definition flip_effects :: "orientation \<Rightarrow> pwr_effect list" where
  "flip_effects o' = [FlipScreen (o' = FaceDown), FlipKeys (o' = FaceDown)]"

definition flip_key :: "orientation \<Rightarrow> pwr_effect" where
  "flip_key o' = InjectKey (if o' = FaceDown then FLIP_DOWN_KEY else FLIP_UP_KEY)"

section \<open>Handlers\<close>

definition pwr_poll :: "pwr_env \<Rightarrow> pwr_state \<Rightarrow> pwr_state \<times> pwr_effect list" where
  "pwr_poll env st =
     (let now = now_ms env;
          feed = (if booted st then [FeedWatchdog] else []);
          st1 = (if last_action_time_ms st > now then st\<lparr>last_action_time_ms := now\<rparr> else st);
          awake = (\<not> pwr_mgr_enabled st1 \<or> vbus_high st1);
          clear = (if awake \<and> alarm_set st1 then [ClearAlarm] else []);
          st2 = (if awake then st1\<lparr>last_action_time_ms := now, alarm_set := False\<rparr> else st1);
          idle = now - last_action_time_ms st2
      in if (\<not> wfi_awaiting_keypress st2 \<and> idle > idle_sec st2 * 1000)
            \<or> (wfi_awaiting_keypress st2 \<and> idle > MOTION_IRQ_MARGIN_MS)
            \<or> force_wfi st2
         then (st2\<lparr>force_wfi := False, wfi_awaiting_keypress := True, last_action_time_ms := now\<rparr>,
               feed @ clear @ [ScreenPower False, VaultSkipKey, DisableWatchdog, InitiateSuspend, EnableWatchdog])
         else (st2, feed @ clear))"

definition pwr_motion :: "pwr_env \<Rightarrow> pwr_state \<Rightarrow> (pwr_state \<times> pwr_effect list) option" where
  "pwr_motion env st =
     (case accel st of None \<Rightarrow> Some (st, [])
      | Some a \<Rightarrow>
          let (int1, a1) = read_source INT1_SRC a;
              (int2, a2) = read_source INT2_SRC a1;
              moved = (int1 AND 0x40 \<noteq> 0); tilted = (int2 AND 0x40 \<noteq> 0)
          in case (if moved then run_bus [Read REFERENCE] 0 a2 else (Some (), a2)) of
               (None, _) \<Rightarrow> None
             | (Some _, a3) \<Rightarrow>
                 let arm = (moved \<and> \<not> vbus_high st);
                     st1 = st\<lparr>accel := Some a3, alarm_set := (arm \<or> alarm_set st)\<rparr>;
                     fx1 = (if arm then [SetAlarm] else [])
                 in if \<not> tilted then Some (st1, fx1)
                    else case write_register INT2_CFG (0x40 OR (0x3F AND NOT (int2 AND 0x3F))) a3 of
                           (None, _) \<Rightarrow> None
                         | (Some _, a4) \<Rightarrow>
                             let st2 = st1\<lparr>accel := Some a4\<rparr>
                             in (case get_orientation (x_mg env) of None \<Rightarrow> Some (st2, fx1)
                                 | Some o' \<Rightarrow>
                                     if orient st2 \<noteq> o' \<and> o' \<noteq> Unknown
                                     then Some (st2\<lparr>orient := o'\<rparr>,
                                            fx1 @ flip_effects o' @ [JackEyes (o' = FaceDown), flip_key o'])
                                     else Some (st2, fx1)))"

definition pwr_vbus :: "pwr_env \<Rightarrow> pwr_state \<Rightarrow> pwr_state \<times> pwr_effect list" where
  "pwr_vbus env st =
     (st\<lparr>vbus_high := vbus_pin env\<rparr>,
      [PluggedIn (vbus_pin env), VbusTrigger (\<not> vbus_pin env), UsbVbus (vbus_pin env)]
        @ (if \<not> vbus_pin env then [SetAlarm] else []))"

text \<open>What the accelerometer is told before deep sleep.\<close>

definition sleep_accel :: "bool \<Rightarrow> accel_bus \<Rightarrow> accel_bus option" where
  "sleep_accel off a =
     (if \<not> off then Some (snd (run_bus (accel_enable_int True) 0 a))
      else let a1 = snd (read_register INT1_SRC a); a2 = snd (read_register INT2_SRC a1)
           in case read_register CTRL_REG3 a2 of
                (None, _) \<Rightarrow> None
              | (Some v, a3) \<Rightarrow> Some (snd (write_register CTRL_REG3 (v AND NOT (0x40 OR 0x20)) a3)))"

definition pwr_deep_sleep :: "pwr_state \<Rightarrow> (pwr_state \<times> pwr_effect list) option" where
  "pwr_deep_sleep st =
     (let fx = [ScreenPower False, DisableWatchdog, DeepSleep]; st1 = st\<lparr>force_deep_sleep := False\<rparr>
      in case accel st of None \<Rightarrow> Some (st1, fx)
         | Some a \<Rightarrow> (case sleep_accel (power_off st) a of None \<Rightarrow> None
             | Some a' \<Rightarrow> Some (st1\<lparr>accel := Some a'\<rparr>, fx)))"

definition pwr_wake :: "pwr_env \<Rightarrow> pwr_state \<Rightarrow> pwr_state \<times> pwr_effect list" where
  "pwr_wake env st =
     (let fx1 = (if screen_off_requested st then ScreenPower True # flip_effects (orient st) else []);
          fx2 = (if wfi_awaiting_keypress st then [ScreenPower True] else []);
          low = (\<not> vbus_pin env)
      in (st\<lparr>screen_off_requested := False, wfi_awaiting_keypress := False, vbus_high := vbus_pin env,
             alarm_set := (low \<or> alarm_set st)\<rparr>,
          fx1 @ fx2 @ (if low then [SetAlarm] else [])))"

definition pwr_keypress :: "pwr_env \<Rightarrow> unit message \<Rightarrow> pwr_state \<Rightarrow> (pwr_state \<times> pwr_effect list) option" where
  "pwr_keypress env m st =
     map_option (\<lambda>(st', fx). (st'\<lparr>last_action_time_ms := now_ms env\<rparr>, fx))
       (case scalar_message m of None \<Rightarrow> Some (st, [])
        | Some a \<Rightarrow> if char_from_u32 (arg1 a) = ALARM_CLOCK \<or> force_deep_sleep st
                    then pwr_deep_sleep st else Some (pwr_wake env st))"

definition pwr_boot :: "pwr_env \<Rightarrow> pwr_state \<Rightarrow> (pwr_state \<times> pwr_effect list) option" where
  "pwr_boot env st =
     (let st1 = st\<lparr>pwr_mgr_enabled := True, booted := True, alarm_set := True, vbus_high := vbus_pin env\<rparr>
      in case accel st of None \<Rightarrow> Some (st1, [SetAlarm])
         | Some a \<Rightarrow>
             let (st2, fx) = (case get_orientation (x_mg env) of None \<Rightarrow> (st1, [])
                              | Some o' \<Rightarrow> (st1\<lparr>orient := o'\<rparr>, flip_effects o' @ [flip_key o']))
             in (case run_bus (accel_enable_int False) 0 a of (None, _) \<Rightarrow> None
                 | (Some _, a') \<Rightarrow> Some (st2\<lparr>accel := Some a'\<rparr>, SetAlarm # fx)))"

definition pwr_pause_accel :: "bool \<Rightarrow> pwr_state \<Rightarrow> (pwr_state \<times> pwr_effect list) option" where
  "pwr_pause_accel pause st =
     (case accel st of None \<Rightarrow> Some (st, [])
      | Some a \<Rightarrow> (case run_bus (accel_pause_int pause) 0 a of
            (Some _, a') \<Rightarrow> Some (st\<lparr>accel := Some a'\<rparr>, [])
          | (None, a') \<Rightarrow> if pause then Some (st\<lparr>accel := Some a'\<rparr>, []) else None))"

definition pwr_accel_id :: "scalar_args \<Rightarrow> pwr_state \<Rightarrow> pwr_state \<times> pwr_effect list" where
  "pwr_accel_id args st =
     (case accel st of None \<Rightarrow> (st, [Reply 0 (arg2 args)])
      | Some a \<Rightarrow> (case read_register WHO_AM_I a of
            (Some v, a') \<Rightarrow> (st\<lparr>accel := Some a'\<rparr>, [Reply 1 (ucast v)])
          | (None, a') \<Rightarrow> (st\<lparr>accel := Some a'\<rparr>, [Reply 1 0])))"

definition pwr_enable :: "scalar_args \<Rightarrow> pwr_state \<Rightarrow> pwr_state" where
  "pwr_enable a st =
     st\<lparr>pwr_mgr_enabled := (arg1 a \<noteq> 0),
        idle_sec := (if WFI_MIN_SEC < arg2 a then unat (arg2 a) else idle_sec st)\<rparr>"

text \<open>A handler that acts on blocking scalars only does nothing on any other message.\<close>

definition on_mut :: "unit message \<Rightarrow> pwr_state \<Rightarrow> (scalar_args \<Rightarrow> (pwr_state \<times> pwr_effect list) option)
    \<Rightarrow> (pwr_state \<times> pwr_effect list) option" where
  "on_mut m st f = (case scalar_message_mut m of None \<Rightarrow> Some (st, []) | Some a \<Rightarrow> f a)"

fun pwr_step :: "pwr_env \<Rightarrow> pwr_op \<Rightarrow> unit message \<Rightarrow> pwr_state \<Rightarrow> (pwr_state \<times> pwr_effect list) option" where
  "pwr_step env Enable m st = on_mut m st (\<lambda>a. Some (pwr_enable a st, []))"
| "pwr_step env Poll m st = Some (pwr_poll env st)"
| "pwr_step env PauseAccel m st = on_mut m st (\<lambda>a. pwr_pause_accel (arg1 a \<noteq> 0) st)"
| "pwr_step env MotionIrq m st = pwr_motion env st"
| "pwr_step env VbusIrq m st = Some (pwr_vbus env st)"
| "pwr_step env KeyPress m st = pwr_keypress env m st"
| "pwr_step env SetFadeMode m st =
     (case scalar_message m of None \<Rightarrow> Some (st, []) | Some a \<Rightarrow> Some (st, [LedFade (arg1 a \<noteq> 0)]))"
| "pwr_step env GetAccelId m st = on_mut m st (\<lambda>a. Some (pwr_accel_id a st))"
| "pwr_step env GetVbat m st = on_mut m st (\<lambda>a. Some (st, [Reply 1 (vbat_mv env)]))"
| "pwr_step env GetVbus m st = on_mut m st (\<lambda>a. Some (st, [Reply 1 (if vbus_pin env then 1 else 0)]))"
| "pwr_step env Boot m st = on_mut m st (\<lambda>a. pwr_boot env st)"
| "pwr_step env ForceDeepSleep m st = Some (st\<lparr>force_deep_sleep := True\<rparr>, [])"
| "pwr_step env ForceWfi m st = Some (st\<lparr>force_wfi := True\<rparr>, [])"
| "pwr_step env ScreenOffRequest m st = Some (st\<lparr>screen_off_requested := True\<rparr>, [ScreenPower False])"
| "pwr_step env FeedWdt m st = Some (st, [FeedWatchdog])"
| "pwr_step env PowerOff m st = Some (st\<lparr>power_off := True\<rparr>, [SpawnPowerOff])"
| "pwr_step env PwrInvalid m st = Some (st, [])"

text \<open>Before the loop: set up the accelerometer when one answers, read the tilt and the VBUS pin.\<close>

definition pwr_init :: "pwr_env \<Rightarrow> accel_bus option \<Rightarrow> (pwr_state \<times> pwr_effect list) option" where
  "pwr_init env acc =
     (let mk = (\<lambda>a o'. (\<lparr>accel = a, orient = o', vbus_high = vbus_pin env, alarm_set = False,
                 pwr_mgr_enabled = False, booted = False, wfi_awaiting_keypress = False,
                 idle_sec = WFI_IDLE_SEC_INIT, force_wfi = False, force_deep_sleep = False,
                 power_off = False, screen_off_requested = False, last_action_time_ms = now_ms env\<rparr>,
                [PluggedIn (vbus_pin env), VbusTrigger (\<not> vbus_pin env), EnableWatchdog]))
      in case acc of None \<Rightarrow> Some (mk None FaceUp)
         | Some a \<Rightarrow> (case run_bus setup_accel 0 a of (None, _) \<Rightarrow> None
             | (Some _, a') \<Rightarrow>
                 Some (mk (Some a') (case get_orientation (x_mg env) of Some o' \<Rightarrow> o' | None \<Rightarrow> FaceUp))))"

section \<open>The hardware behind the effects\<close>

text \<open>\<open>off_threads\<close> counts the threads that power off spawned and that still sleep.\<close>

record pwr_hw =
  screen_on :: bool
  watchdog_on :: bool
  rtc_armed :: bool
  off_threads :: nat

fun hw_apply :: "pwr_effect \<Rightarrow> pwr_hw \<Rightarrow> pwr_hw" where
  "hw_apply (ScreenPower p) hw = hw\<lparr>screen_on := p\<rparr>"
| "hw_apply DisableWatchdog hw = hw\<lparr>watchdog_on := False\<rparr>"
| "hw_apply EnableWatchdog hw = hw\<lparr>watchdog_on := True\<rparr>"
| "hw_apply SetAlarm hw = hw\<lparr>rtc_armed := True\<rparr>"
| "hw_apply ClearAlarm hw = hw\<lparr>rtc_armed := False\<rparr>"
| "hw_apply SpawnPowerOff hw = hw\<lparr>off_threads := Suc (off_threads hw)\<rparr>"
| "hw_apply _ hw = hw"

definition hw_run :: "pwr_effect list \<Rightarrow> pwr_hw \<Rightarrow> pwr_hw" where
  "hw_run fx hw = fold hw_apply fx hw"

definition hw_power_up :: pwr_hw where
  "hw_power_up = \<lparr>screen_on = True, watchdog_on = True, rtc_armed = False, off_threads = 0\<rparr>"

lemma hw_run_simps [simp]:
  "hw_run [] hw = hw" "hw_run (f # fx) hw = hw_run fx (hw_apply f hw)"
  "hw_run (fx @ fx') hw = hw_run fx' (hw_run fx hw)"
  "hw_run (if c then fx else fx') hw = (if c then hw_run fx hw else hw_run fx' hw)"
  by (simp_all add: hw_run_def)

text \<open>A thread that power off spawned, after its five seconds: it clears the wake-up of the real-time clock behind the server's
  back and sends the server the alarm clock's key.\<close>

definition off_thread :: "pwr_hw \<Rightarrow> pwr_hw \<times> pwr_op \<times> unit message" where
  "off_thread hw = (hw\<lparr>off_threads := off_threads hw - 1, rtc_armed := False\<rparr>,
     KeyPress, Scalar \<lparr>arg1 = ALARM_CLOCK, arg2 = 0, arg3 = 0, arg4 = 0\<rparr>)"

text \<open>The states the server goes through while the badge is up: any message, in any environment,
  that does not panic and does not put the badge to sleep; a thread of power off wakes up at any time, its message being one of those
  that come later, or being lost; and the accelerometer changes its source registers whenever it likes.\<close>

inductive pwr_reach :: "pwr_state \<Rightarrow> pwr_hw \<Rightarrow> bool" where
  start: "pwr_init env acc = Some (st, fx) \<Longrightarrow> pwr_reach st (hw_run fx hw_power_up)"
| turn: "\<lbrakk>pwr_reach st hw; pwr_step env op m st = Some (st', fx); DeepSleep \<notin> set fx\<rbrakk>
    \<Longrightarrow> pwr_reach st' (hw_run fx hw)"
| woken: "\<lbrakk>pwr_reach st hw; 0 < off_threads hw\<rbrakk> \<Longrightarrow> pwr_reach st (fst (off_thread hw))"
| moved: "\<lbrakk>pwr_reach st hw; accel st = Some a; \<forall>r. r \<notin> {INT1_SRC, INT2_SRC} \<longrightarrow> rs r = regs a r\<rbrakk>
    \<Longrightarrow> pwr_reach (st\<lparr>accel := Some (a\<lparr>regs := rs\<rparr>)\<rparr>) hw"

inductive_cases pwr_reachE: "pwr_reach st hw"

section \<open>Lemmas: handlers\<close>

definition pwr_inv :: "pwr_state \<Rightarrow> pwr_hw \<Rightarrow> bool" where
  "pwr_inv st hw \<longleftrightarrow> (screen_on hw \<longleftrightarrow> \<not> wfi_awaiting_keypress st \<and> \<not> screen_off_requested st)
     \<and> watchdog_on hw \<and> 6 \<le> idle_sec st \<and> (alarm_set st \<and> \<not> power_off st \<longrightarrow> rtc_armed hw)
     \<and> (0 < off_threads hw \<longrightarrow> power_off st)"

named_theorems pwr_defs

lemmas [pwr_defs] = pwr_enable_def pwr_vbus_def pwr_wake_def pwr_accel_id_def on_mut_def
  pwr_pause_accel_def flip_effects_def flip_key_def

lemma inv_vbus: "pwr_inv st hw \<Longrightarrow> pwr_inv (fst (pwr_vbus env st)) (hw_run (snd (pwr_vbus env st)) hw)"
  by (cases "vbus_pin env") (simp_all add: pwr_inv_def pwr_vbus_def)

lemma idle_sec_enable: "6 \<le> idle_sec st \<Longrightarrow> 6 \<le> idle_sec (pwr_enable a st)"
  by (auto simp: pwr_enable_def WFI_MIN_SEC_def word_less_nat_alt)

lemma inv_poll: "pwr_inv st hw \<Longrightarrow> pwr_inv (fst (pwr_poll env st)) (hw_run (snd (pwr_poll env st)) hw)"
  by (auto simp: pwr_inv_def pwr_poll_def Let_def)

text \<open>What a handler that only touches the accelerometer, the orientation and the alarm may do.\<close>

definition quiet_turn :: "bool \<Rightarrow> pwr_state \<Rightarrow> pwr_state \<Rightarrow> pwr_effect list \<Rightarrow> bool" where
  "quiet_turn arm st st' fx \<longleftrightarrow>
     wfi_awaiting_keypress st' = wfi_awaiting_keypress st \<and> idle_sec st' = idle_sec st
     \<and> screen_off_requested st' = screen_off_requested st \<and> alarm_set st' = (arm \<or> alarm_set st)
     \<and> force_wfi st' = force_wfi st \<and> power_off st' = power_off st \<and> last_action_time_ms st' = last_action_time_ms st
     \<and> InitiateSuspend \<notin> set fx \<and> DeepSleep \<notin> set fx
     \<and> (\<forall>hw. hw_run fx hw = (if arm then hw\<lparr>rtc_armed := True\<rparr> else hw))"

lemma quiet_inv: "quiet_turn arm st st' fx \<Longrightarrow> pwr_inv st hw \<Longrightarrow> pwr_inv st' (hw_run fx hw)"
  by (auto simp: quiet_turn_def pwr_inv_def)

lemma motion_quiet:
  assumes "pwr_motion env st = Some (st', fx)"
  shows "\<exists>arm. quiet_turn arm st st' fx"
proof (cases "accel st")
  case None
  then have "quiet_turn False st st' fx" using assms by (simp add: pwr_motion_def quiet_turn_def)
  then show ?thesis ..
next
  case (Some a)
  obtain i1 a1 where r1: "read_source INT1_SRC a = (i1, a1)" by fastforce
  obtain i2 a2 where r2: "read_source INT2_SRC a1 = (i2, a2)" by fastforce
  define arm where "arm = (i1 AND 0x40 \<noteq> 0 \<and> \<not> vbus_high st)"
  obtain u a3 where r3: "(if i1 AND 0x40 \<noteq> 0 then run_bus [Read REFERENCE] 0 a2 else (Some (), a2)) = (u, a3)"
    by fastforce
  obtain v a4 where r4: "write_register INT2_CFG (0x40 OR (0x3F AND NOT (i2 AND 0x3F))) a3 = (v, a4)"
    by fastforce
  have *: "pwr_motion env st = (case u of None \<Rightarrow> None | Some _ \<Rightarrow>
     (let st1 = st\<lparr>accel := Some a3, alarm_set := (arm \<or> alarm_set st)\<rparr>; fx1 = (if arm then [SetAlarm] else [])
      in if \<not> (i2 AND 0x40 \<noteq> 0) then Some (st1, fx1)
         else case v of None \<Rightarrow> None | Some _ \<Rightarrow>
           (let st2 = st1\<lparr>accel := Some a4\<rparr> in case get_orientation (x_mg env) of None \<Rightarrow> Some (st2, fx1)
            | Some o' \<Rightarrow> if orient st2 \<noteq> o' \<and> o' \<noteq> Unknown
                then Some (st2\<lparr>orient := o'\<rparr>, fx1 @ flip_effects o' @ [JackEyes (o' = FaceDown), flip_key o'])
                else Some (st2, fx1))))"
    unfolding pwr_motion_def Some r1 r2 option.case prod.case Let_def r3 r4 arm_def by (cases u) simp_all
  have "quiet_turn arm st st' fx"
  proof (cases arm)
    case True
    then show ?thesis using assms unfolding *
      by (auto simp: quiet_turn_def Let_def flip_effects_def flip_key_def split: option.splits if_split_asm)
  next
    case False
    then show ?thesis using assms unfolding *
      by (auto simp: quiet_turn_def Let_def flip_effects_def flip_key_def split: option.splits if_split_asm)
  qed
  then show ?thesis ..
qed

lemma inv_motion:
  "pwr_inv st hw \<Longrightarrow> pwr_motion env st = Some (st', fx) \<Longrightarrow> pwr_inv st' (hw_run fx hw)"
  using motion_quiet quiet_inv by blast

lemma inv_wake: "pwr_inv st hw \<Longrightarrow> pwr_inv (fst (pwr_wake env st)) (hw_run (snd (pwr_wake env st)) hw)"
  by (auto simp: pwr_inv_def pwr_wake_def flip_effects_def Let_def)

lemma boot_quiet:
  assumes "pwr_boot env st = Some (st', fx)"
  shows "quiet_turn True st st' fx"
proof (cases "accel st")
  case None
  then show ?thesis using assms by (auto simp: pwr_boot_def quiet_turn_def Let_def)
next
  case (Some a)
  obtain u a' where r: "run_bus (accel_enable_int False) 0 a = (u, a')" by fastforce
  show ?thesis
    using assms Some r by (cases u; cases "get_orientation (x_mg env)")
      (auto simp: pwr_boot_def quiet_turn_def Let_def flip_effects_def flip_key_def)
qed

lemma inv_boot:
  "pwr_inv st hw \<Longrightarrow> pwr_boot env st = Some (st', fx) \<Longrightarrow> pwr_inv st' (hw_run fx hw)"
  using boot_quiet quiet_inv by blast

lemma deep_sleep_effects: "pwr_deep_sleep st = Some (st', fx) \<Longrightarrow> fx = [ScreenPower False, DisableWatchdog, DeepSleep]"
  by (auto simp: pwr_deep_sleep_def Let_def split: option.splits)

text \<open>A key press either starts deep sleep, wakes the badge up, or (not being a scalar) only counts
  as an action; in all cases it is the last action.\<close>

lemma keypress_cases:
  assumes "pwr_keypress env m st = Some (st', fx)"
  obtains (sleep) st1 a where "scalar_message m = Some a"
      "char_from_u32 (arg1 a) = ALARM_CLOCK \<or> force_deep_sleep st"
      "pwr_deep_sleep st = Some (st1, fx)" "fx = [ScreenPower False, DisableWatchdog, DeepSleep]"
    | (wake) a where "scalar_message m = Some a"
      "\<not> (char_from_u32 (arg1 a) = ALARM_CLOCK \<or> force_deep_sleep st)"
      "st' = fst (pwr_wake env st)\<lparr>last_action_time_ms := now_ms env\<rparr>" "fx = snd (pwr_wake env st)"
    | (other) "scalar_message m = None" "st' = st\<lparr>last_action_time_ms := now_ms env\<rparr>" "fx = []"
proof (cases "scalar_message m")
  case None
  then show ?thesis using assms other by (simp add: pwr_keypress_def)
next
  case (Some a)
  show ?thesis
  proof (cases "char_from_u32 (arg1 a) = ALARM_CLOCK \<or> force_deep_sleep st")
    case True
    then obtain st1 where st1: "pwr_deep_sleep st = Some (st1, fx)"
      using assms Some by (auto simp: pwr_keypress_def)
    then show ?thesis using sleep [OF Some True st1] deep_sleep_effects by blast
  next
    case False
    then have "map_option (\<lambda>(st', fx). (st'\<lparr>last_action_time_ms := now_ms env\<rparr>, fx)) (Some (pwr_wake env st)) = Some (st', fx)"
      using assms unfolding pwr_keypress_def Some option.case if_not_P [OF False] by simp
    then have "st' = fst (pwr_wake env st)\<lparr>last_action_time_ms := now_ms env\<rparr>" "fx = snd (pwr_wake env st)"
      by (simp_all add: split_beta)
    then show ?thesis using wake [OF Some False] by blast
  qed
qed

lemma pwr_inv_last_action [simp]: "pwr_inv (st\<lparr>last_action_time_ms := t\<rparr>) hw = pwr_inv st hw"
  by (simp add: pwr_inv_def)

lemma inv_keypress:
  assumes "pwr_inv st hw" "pwr_keypress env m st = Some (st', fx)" "DeepSleep \<notin> set fx"
  shows "pwr_inv st' (hw_run fx hw)"
  using assms(2)
proof (cases rule: keypress_cases)
  case sleep
  then show ?thesis using assms(3) by simp
next
  case wake
  then show ?thesis using inv_wake [OF assms(1), of env] by simp
next
  case other
  then show ?thesis using assms(1) by simp
qed

lemma inv_init: "pwr_init env acc = Some (st, fx) \<Longrightarrow> pwr_inv st (hw_run fx hw_power_up)"
  by (auto simp: pwr_init_def pwr_inv_def hw_power_up_def WFI_IDLE_SEC_INIT_def Let_def
      split: option.splits prod.splits)

lemma inv_step:
  assumes inv: "pwr_inv st hw" and step: "pwr_step env op m st = Some (st', fx)" and up: "DeepSleep \<notin> set fx"
  shows "pwr_inv st' (hw_run fx hw)"
proof (cases op)
  case Enable
  then show ?thesis using inv step idle_sec_enable [of st]
    by (auto simp: on_mut_def pwr_inv_def split: option.splits) (auto simp: pwr_enable_def)
next
  case Poll
  then show ?thesis using inv_poll [OF inv, of env] step by simp
next
  case MotionIrq
  then show ?thesis using inv_motion [OF inv] step by simp
next
  case KeyPress
  then show ?thesis using inv_keypress [OF inv _ up] step by simp
next
  case Boot
  then show ?thesis using inv inv_boot [OF inv] step by (auto simp: on_mut_def split: option.splits)
next
  case PauseAccel
  then show ?thesis using inv step
    by (auto simp: on_mut_def pwr_inv_def pwr_pause_accel_def split: option.splits prod.splits if_splits)
next
  case GetAccelId
  then show ?thesis using inv step
    by (auto simp: on_mut_def pwr_inv_def pwr_accel_id_def split: option.splits prod.splits)
next
  case VbusIrq
  then show ?thesis using inv_vbus [OF inv, of env] step by simp
qed (use inv step in \<open>auto simp: on_mut_def pwr_inv_def split: option.splits\<close>)

definition poll_due :: "pwr_env \<Rightarrow> pwr_state \<Rightarrow> bool" where
  "poll_due env st \<longleftrightarrow> force_wfi st \<or> (pwr_mgr_enabled st \<and> \<not> vbus_high st
     \<and> now_ms env - last_action_time_ms st >
         (if wfi_awaiting_keypress st then 1000 else idle_sec st * 1000))"

lemma poll_shape:
  "snd (pwr_poll env st) = (if booted st then [FeedWatchdog] else [])
     @ (if (\<not> pwr_mgr_enabled st \<or> vbus_high st) \<and> alarm_set st then [ClearAlarm] else [])
     @ (if poll_due env st then [ScreenPower False, VaultSkipKey, DisableWatchdog, InitiateSuspend, EnableWatchdog] else [])"
proof (cases "\<not> pwr_mgr_enabled st \<or> vbus_high st")
  case True
  then show ?thesis by (auto simp: pwr_poll_def poll_due_def Let_def)
next
  case False
  then show ?thesis by (auto simp: pwr_poll_def poll_due_def MOTION_IRQ_MARGIN_MS_def Let_def)
qed

lemma poll_suspends: "InitiateSuspend \<in> set (snd (pwr_poll env st)) \<longleftrightarrow> poll_due env st"
  by (simp add: poll_shape)

lemma poll_unforces: "\<not> force_wfi (fst (pwr_poll env st))"
  by (auto simp: pwr_poll_def Let_def)

lemma inv_reach: "pwr_reach st hw \<Longrightarrow> pwr_inv st hw"
proof (induction rule: pwr_reach.induct)
  case (woken st hw)
  then show ?case by (simp add: pwr_inv_def off_thread_def)
next
  case (moved st hw a rs)
  then show ?case by (simp add: pwr_inv_def)
qed (auto intro: inv_init inv_step)

section \<open>Lemmas: register programs on a working bus\<close>

definition working :: "accel_bus \<Rightarrow> bool" where
  "working b \<longleftrightarrow> (\<forall>n. \<not> bus_fail b n)"

fun bus_effect :: "bus_op list \<Rightarrow> u8 \<Rightarrow> (u8 \<Rightarrow> u8) \<Rightarrow> (u8 \<Rightarrow> u8)" where
  "bus_effect [] saved rs = rs"
| "bus_effect (Read r # ops) saved rs = bus_effect ops saved rs"
| "bus_effect (Save r # ops) saved rs = bus_effect ops (rs r) rs"
| "bus_effect (Write r v # ops) saved rs = bus_effect ops saved (rs(r := v))"
| "bus_effect (WriteSaved r f # ops) saved rs = bus_effect ops saved (rs(r := f saved))"
| "bus_effect (Modify r f # ops) saved rs = bus_effect ops saved (rs(r := f (rs r)))"

lemma run_bus_working:
  "working b \<Longrightarrow> \<exists>b'. run_bus ops saved b = (Some (), b') \<and> working b' \<and> regs b' = bus_effect ops saved (regs b)"
proof (induction ops arbitrary: saved b)
  case (Cons op ops)
  show ?case
  proof (cases op)
    case (Read r)
    then show ?thesis using Cons.IH [of "b\<lparr>bus_time := Suc (bus_time b)\<rparr>"] Cons.prems
      by (simp add: read_register_def working_def)
  next
    case (Save r)
    then show ?thesis using Cons.IH [of "b\<lparr>bus_time := Suc (bus_time b)\<rparr>" "regs b r"] Cons.prems
      by (simp add: read_register_def working_def)
  next
    case (Write r v)
    then show ?thesis
      using Cons.IH [of "b\<lparr>regs := (regs b)(r := v), bus_time := Suc (bus_time b)\<rparr>"] Cons.prems
      by (simp add: write_register_def working_def fun_upd_def)
  next
    case (WriteSaved r f)
    then show ?thesis
      using Cons.IH [of "b\<lparr>regs := (regs b)(r := f saved), bus_time := Suc (bus_time b)\<rparr>"] Cons.prems
      by (simp add: write_register_def working_def fun_upd_def)
  next
    case (Modify r f)
    then show ?thesis
      using Cons.IH [of "b\<lparr>regs := (regs b)(r := f (regs b r)), bus_time := Suc (Suc (bus_time b))\<rparr>"] Cons.prems
      by (simp add: read_register_def write_register_def working_def fun_upd_def)
  qed
qed simp

section \<open>Lemmas: runs\<close>

fun pwr_run :: "(pwr_env \<times> pwr_op \<times> unit message) list \<Rightarrow> pwr_state \<Rightarrow> (pwr_state \<times> pwr_effect list) option" where
  "pwr_run [] st = Some (st, [])"
| "pwr_run ((env, op, m) # evs) st =
     (case pwr_step env op m st of None \<Rightarrow> None
      | Some (st', fx) \<Rightarrow> (case pwr_run evs st' of None \<Rightarrow> None | Some (st'', fx') \<Rightarrow> Some (st'', fx @ fx')))"

text \<open>Between \<open>t0\<close> and \<open>t0 + idle_sec\<close> seconds, in a state whose last action is not before \<open>t0\<close>.\<close>

definition in_window :: "nat \<Rightarrow> nat \<Rightarrow> pwr_state \<Rightarrow> bool" where
  "in_window t0 limit st \<longleftrightarrow> \<not> force_wfi st \<and> \<not> wfi_awaiting_keypress st
     \<and> t0 \<le> last_action_time_ms st \<and> idle_sec st = limit"

lemma poll_in_window:
  assumes "in_window t0 limit st" "t0 \<le> now_ms env" "now_ms env \<le> t0 + limit * 1000"
  shows "in_window t0 limit (fst (pwr_poll env st)) \<and> InitiateSuspend \<notin> set (snd (pwr_poll env st))"
proof -
  have no: "InitiateSuspend \<notin> set (snd (pwr_poll env st))"
    using assms by (auto simp: poll_suspends poll_due_def in_window_def)
  then show ?thesis using assms by (auto simp: in_window_def pwr_poll_def Let_def)
qed

lemma step_in_window:
  assumes win: "in_window t0 limit st" and t: "t0 \<le> now_ms env" "now_ms env \<le> t0 + limit * 1000"
    and op: "op \<notin> {Enable, ForceWfi}" and step: "pwr_step env op m st = Some (st', fx)"
  shows "in_window t0 limit st' \<and> InitiateSuspend \<notin> set fx"
proof (cases op)
  case Poll
  then show ?thesis using poll_in_window [OF win t] step by simp
next
  case MotionIrq
  then show ?thesis using win step motion_quiet [of env st st' fx] by (auto simp: quiet_turn_def in_window_def)
next
  case Boot
  then show ?thesis using win step boot_quiet [of env st st' fx]
    by (auto simp: quiet_turn_def in_window_def on_mut_def split: option.splits)
next
  case KeyPress
  then have "pwr_keypress env m st = Some (st', fx)" using step by simp
  then show ?thesis
  proof (cases rule: keypress_cases)
    case (sleep st1 a)
    have "st' = st1\<lparr>last_action_time_ms := now_ms env\<rparr>"
      using sleep \<open>pwr_keypress env m st = Some (st', fx)\<close> by (auto simp: pwr_keypress_def)
    then show ?thesis using sleep(3,4) win t
      by (auto simp: in_window_def pwr_deep_sleep_def Let_def split: option.splits)
  next
    case (wake a)
    then show ?thesis using win t by (auto simp: in_window_def pwr_wake_def flip_effects_def Let_def)
  next
    case other
    then show ?thesis using win t by (simp add: in_window_def)
  qed
next
  case PauseAccel
  then show ?thesis using win step
    by (auto simp: on_mut_def in_window_def pwr_pause_accel_def split: option.splits prod.splits if_splits)
next
  case GetAccelId
  then show ?thesis using win step
    by (auto simp: on_mut_def in_window_def pwr_accel_id_def split: option.splits prod.splits)
qed (use op win step in \<open>auto simp: on_mut_def in_window_def pwr_vbus_def split: option.splits if_splits\<close>)

lemma run_in_window:
  "\<lbrakk>in_window t0 limit st; pwr_run evs st = Some (st', fx);
    \<forall>(env, op, m) \<in> set evs. t0 \<le> now_ms env \<and> now_ms env \<le> t0 + limit * 1000 \<and> op \<notin> {Enable, ForceWfi}\<rbrakk>
   \<Longrightarrow> in_window t0 limit st' \<and> InitiateSuspend \<notin> set fx"
proof (induction evs arbitrary: st fx)
  case (Cons ev evs)
  obtain env op m where ev: "ev = (env, op, m)" by (cases ev) auto
  obtain st1 fx1 where s1: "pwr_step env op m st = Some (st1, fx1)"
    using Cons.prems(2) ev by (auto split: option.splits)
  obtain fx2 where s2: "pwr_run evs st1 = Some (st', fx2)" "fx = fx1 @ fx2"
    using Cons.prems(2) ev s1 by (auto split: option.splits)
  have "in_window t0 limit st1 \<and> InitiateSuspend \<notin> set fx1"
    using step_in_window [OF Cons.prems(1) _ _ _ s1] Cons.prems(3) ev by auto
  then show ?case using Cons.IH [OF _ s2(1)] Cons.prems(3) s2(2) by auto
qed simp

lemma accel_enable_effect:
  "bus_effect (accel_enable_int True) saved rs = rs(CTRL_REG3 := rs CTRL_REG3 OR 0x40 OR 0x20)"
  "bus_effect (accel_enable_int False) saved rs
     = rs(INT2_CFG := 0x7F, CTRL_REG3 := rs CTRL_REG3 AND NOT 0x40)"
  by (simp_all add: accel_enable_int_def)

lemma accel_pause_effect:
  "bus_effect (accel_pause_int True) saved rs = rs(CTRL_REG3 := rs CTRL_REG3 AND NOT (0x40 OR 0x20))"
  "bus_effect (accel_pause_int False) saved rs
     = rs(INT2_CFG := 0x7F, CTRL_REG3 := rs CTRL_REG3 OR 0x20)"
  by (simp_all add: accel_pause_int_def)

lemma sleep_accel_working:
  assumes "working a"
  shows "\<exists>a'. sleep_accel off a = Some a' \<and> regs a' CTRL_REG3 =
     (if off then regs a CTRL_REG3 AND NOT (0x40 OR 0x20) else regs a CTRL_REG3 OR 0x40 OR 0x20)"
proof (cases off)
  case True
  then show ?thesis using assms
    by (simp add: sleep_accel_def read_register_def write_register_def working_def Let_def)
next
  case False
  then show ?thesis
    using run_bus_working [OF assms, of "accel_enable_int True" 0] by (auto simp: sleep_accel_def accel_enable_effect)
qed

lemma step_sleeps:
  assumes "pwr_step env op m st = Some (st', fx)"
  shows "DeepSleep \<in> set fx \<longleftrightarrow> op = KeyPress \<and> (\<exists>a. scalar_message m = Some a
        \<and> (char_from_u32 (arg1 a) = ALARM_CLOCK \<or> force_deep_sleep st))"
proof (cases op)
  case KeyPress
  then have "pwr_keypress env m st = Some (st', fx)" using assms by simp
  then show ?thesis
  proof (cases rule: keypress_cases)
    case (wake a)
    then show ?thesis using KeyPress by (auto simp: pwr_wake_def flip_effects_def Let_def)
  qed (use KeyPress in auto)
next
  case Poll
  then have "fx = snd (pwr_poll env st)" using assms by simp
  then show ?thesis using Poll by (simp add: poll_shape)
next
  case MotionIrq
  then show ?thesis using assms motion_quiet [of env st st' fx] by (auto simp: quiet_turn_def)
next
  case Boot
  then show ?thesis using assms boot_quiet [of env st st' fx]
    by (auto simp: quiet_turn_def on_mut_def split: option.splits)
next
  case PauseAccel
  then show ?thesis using assms
    by (auto simp: on_mut_def pwr_pause_accel_def split: option.splits prod.splits if_splits)
next
  case GetAccelId
  then show ?thesis using assms
    by (auto simp: on_mut_def pwr_accel_id_def split: option.splits prod.splits)
qed (use assms in \<open>auto simp: on_mut_def pwr_vbus_def split: option.splits if_splits\<close>)

lemma bits_u8:
  "bit (0x20 :: u8) 5" "\<not> bit (0x20 :: u8) 6" "bit (0x40 :: u8) 6" "\<not> bit (0x40 :: u8) 5" "bit (2 :: u8) 1"
  by code_simp+

section \<open>Properties\<close>



text \<open>C29: the badge suspends exactly when it should.  A poll suspends if and only if that was
  forced, or power management is enabled, the badge runs on battery and it has been idle for
  longer than the idle timeout (one second if it is still waiting for the key that woke it);
  and it then turns the watchdog off before and on after suspending, with the screen off.\<close>

theorem poll_suspends_exactly:
  "(InitiateSuspend \<in> set (snd (pwr_poll env st)) \<longleftrightarrow>
     force_wfi st \<or> (pwr_mgr_enabled st \<and> \<not> vbus_high st
       \<and> now_ms env - last_action_time_ms st >
           (if wfi_awaiting_keypress st then 1000 else idle_sec st * 1000)))
   \<and> (\<exists>fx. snd (pwr_poll env st) = fx @
        (if InitiateSuspend \<in> set (snd (pwr_poll env st))
         then [ScreenPower False, VaultSkipKey, DisableWatchdog, InitiateSuspend, EnableWatchdog] else [])
        \<and> set fx \<subseteq> {FeedWatchdog, ClearAlarm})
   \<and> \<not> force_wfi (fst (pwr_poll env st))"
proof -
  have "\<exists>fx. snd (pwr_poll env st) = fx @ (if poll_due env st
       then [ScreenPower False, VaultSkipKey, DisableWatchdog, InitiateSuspend, EnableWatchdog] else [])
     \<and> set fx \<subseteq> {FeedWatchdog, ClearAlarm}"
    unfolding poll_shape append_assoc [symmetric] by (intro exI conjI, rule refl) auto
  then show ?thesis unfolding poll_suspends using poll_unforces by (simp add: poll_due_def)
qed

text \<open>no surprise suspend.  From a state that is awake and unforced and whose last action is not
  before \<open>t0\<close>, whatever messages the server handles up to the idle timeout after \<open>t0\<close>, other
  than ones that force a suspend or change the timeout, it does not suspend.\<close>

theorem no_suspend_before_timeout:
  assumes "\<not> force_wfi st" and "\<not> wfi_awaiting_keypress st" and "t0 \<le> last_action_time_ms st"
    and "pwr_run evs st = Some (st', fx)"
    and "\<forall>(env, op, m) \<in> set evs.
      t0 \<le> now_ms env \<and> now_ms env \<le> t0 + idle_sec st * 1000 \<and> op \<notin> {Enable, ForceWfi}"
  shows "InitiateSuspend \<notin> set fx \<and> \<not> wfi_awaiting_keypress st'"
  using run_in_window [OF _ assms(4), of t0 "idle_sec st"] assms by (auto simp: in_window_def)

theorem no_suspend_before_timeout_witness:
  "InitiateSuspend \<notin> set (snd (the (pwr_run
     [(\<lparr>now_ms = 59000, vbus_pin = False, x_mg = None, vbat_mv = 0\<rparr>, Poll, Scalar \<lparr>arg1 = 0, arg2 = 0, arg3 = 0, arg4 = 0\<rparr>)]
     \<lparr>accel = None, orient = FaceUp, vbus_high = False, alarm_set = False, pwr_mgr_enabled = True,
       booted = True, wfi_awaiting_keypress = False, idle_sec = 60, force_wfi = False,
       force_deep_sleep = False, power_off = False, screen_off_requested = False, last_action_time_ms = 0\<rparr>)))"
proof -
  let ?st = "\<lparr>accel = None, orient = FaceUp, vbus_high = False, alarm_set = False, pwr_mgr_enabled = True,
       booted = True, wfi_awaiting_keypress = False, idle_sec = 60, force_wfi = False,
       force_deep_sleep = False, power_off = False, screen_off_requested = False, last_action_time_ms = 0\<rparr> :: pwr_state"
  let ?evs = "[(\<lparr>now_ms = 59000, vbus_pin = False, x_mg = None, vbat_mv = 0\<rparr>, Poll,
      Scalar \<lparr>arg1 = 0, arg2 = 0, arg3 = 0, arg4 = 0\<rparr>)] :: (pwr_env \<times> pwr_op \<times> unit message) list"
  obtain st' fx where r: "pwr_run ?evs ?st = Some (st', fx)"
    by (simp add: split_beta) (metis surj_pair)
  have "InitiateSuspend \<notin> set fx \<and> \<not> wfi_awaiting_keypress st'"
    by (rule no_suspend_before_timeout [OF _ _ _ r, of 0]) simp_all
  then show ?thesis unfolding r option.sel snd_conv by blast
qed

text \<open>deep sleep only happens on request: a turn puts the badge to deep sleep if and only if it
  handles a key press that is the alarm clock or comes after a request for deep sleep.  Then
  the screen and the watchdog are off, and on a working bus the accelerometer can wake the
  badge by motion or tilt, unless it is being powered off, when it can wake it by neither.\<close>

theorem deep_sleep_only_on_request:
  assumes "pwr_step env op m st = Some (st', fx)"
  shows "(DeepSleep \<in> set fx \<longleftrightarrow> op = KeyPress \<and> (\<exists>a. scalar_message m = Some a
        \<and> (char_from_u32 (arg1 a) = ALARM_CLOCK \<or> force_deep_sleep st)))
     \<and> (DeepSleep \<in> set fx \<longrightarrow> fx = [ScreenPower False, DisableWatchdog, DeepSleep] \<and> \<not> force_deep_sleep st'
        \<and> (\<forall>a. accel st = Some a \<and> working a \<longrightarrow> (\<exists>a'. accel st' = Some a' \<and> regs a' CTRL_REG3 =
             (if power_off st then regs a CTRL_REG3 AND NOT (0x40 OR 0x20) else regs a CTRL_REG3 OR 0x40 OR 0x20))))"
proof -
  have iff: "DeepSleep \<in> set fx \<longleftrightarrow> op = KeyPress \<and> (\<exists>a. scalar_message m = Some a
        \<and> (char_from_u32 (arg1 a) = ALARM_CLOCK \<or> force_deep_sleep st))"
    using step_sleeps [OF assms] .
  moreover have "fx = [ScreenPower False, DisableWatchdog, DeepSleep] \<and> \<not> force_deep_sleep st'
        \<and> (\<forall>a. accel st = Some a \<and> working a \<longrightarrow> (\<exists>a'. accel st' = Some a' \<and> regs a' CTRL_REG3 =
             (if power_off st then regs a CTRL_REG3 AND NOT (0x40 OR 0x20) else regs a CTRL_REG3 OR 0x40 OR 0x20)))"
    if sl: "DeepSleep \<in> set fx"
  proof -
    have "pwr_keypress env m st = Some (st', fx)" using iff sl assms by simp
    then obtain st1 where st1: "pwr_deep_sleep st = Some (st1, fx)" "st' = st1\<lparr>last_action_time_ms := now_ms env\<rparr>"
      using iff sl by (auto simp: pwr_keypress_def)
    have "\<exists>a'. accel st1 = Some a' \<and> regs a' CTRL_REG3 =
         (if power_off st then regs a CTRL_REG3 AND NOT (0x40 OR 0x20) else regs a CTRL_REG3 OR 0x40 OR 0x20)"
      if "accel st = Some a" "working a" for a
      using sleep_accel_working [OF that(2), of "power_off st"] st1(1) that(1)
      by (auto simp: pwr_deep_sleep_def Let_def split: option.splits)
    moreover have "\<not> force_deep_sleep st1"
      using st1(1) by (auto simp: pwr_deep_sleep_def Let_def split: option.splits)
    ultimately show ?thesis using deep_sleep_effects [OF st1(1)] st1(2) by simp
  qed
  ultimately show ?thesis by blast
qed

theorem deep_sleep_only_on_request_witness:
  "DeepSleep \<notin> set (snd (the (pwr_step \<lparr>now_ms = 5, vbus_pin = True, x_mg = None, vbat_mv = 0\<rparr> KeyPress
     (Scalar \<lparr>arg1 = 0x61, arg2 = 0, arg3 = 0, arg4 = 0\<rparr>)
     \<lparr>accel = None, orient = FaceUp, vbus_high = True, alarm_set = False, pwr_mgr_enabled = True,
       booted = True, wfi_awaiting_keypress = True, idle_sec = 60, force_wfi = False,
       force_deep_sleep = False, power_off = False, screen_off_requested = False, last_action_time_ms = 0\<rparr>)))"
proof -
  let ?env = "\<lparr>now_ms = 5, vbus_pin = True, x_mg = None, vbat_mv = 0\<rparr> :: pwr_env"
  let ?m = "Scalar \<lparr>arg1 = 0x61, arg2 = 0, arg3 = 0, arg4 = 0\<rparr> :: unit message"
  let ?st = "\<lparr>accel = None, orient = FaceUp, vbus_high = True, alarm_set = False, pwr_mgr_enabled = True,
       booted = True, wfi_awaiting_keypress = True, idle_sec = 60, force_wfi = False,
       force_deep_sleep = False, power_off = False, screen_off_requested = False, last_action_time_ms = 0\<rparr> :: pwr_state"
  have k: "char_from_u32 0x61 \<noteq> ALARM_CLOCK" by (simp add: char_from_u32_def ALARM_CLOCK_def)
  have "pwr_step ?env KeyPress ?m ?st = Some (?st\<lparr>wfi_awaiting_keypress := False, last_action_time_ms := 5\<rparr>, [ScreenPower True])"
    using k by (simp add: pwr_keypress_def pwr_wake_def)
  from deep_sleep_only_on_request [OF this] k this show ?thesis by simp
qed

text \<open>a key press that is not the alarm clock and follows no deep sleep request always leaves the
  screen on, in every reachable state, and restarts the idle clock; on battery it also pushes
  the deep sleep alarm out.\<close>

theorem key_wakes_screen:
  assumes "pwr_reach st hw" and "scalar_message m = Some a"
    and "char_from_u32 (arg1 a) \<noteq> ALARM_CLOCK" and "\<not> force_deep_sleep st"
  shows "\<exists>st' fx. pwr_step env KeyPress m st = Some (st', fx) \<and> screen_on (hw_run fx hw)
     \<and> last_action_time_ms st' = now_ms env \<and> (\<not> vbus_pin env \<longrightarrow> alarm_set st' \<and> rtc_armed (hw_run fx hw))"
proof -
  let ?w = "pwr_wake env st"
  have step: "pwr_step env KeyPress m st = Some (fst ?w\<lparr>last_action_time_ms := now_ms env\<rparr>, snd ?w)"
    using assms(2-4) by (simp add: pwr_keypress_def split_beta)
  have "pwr_inv (fst ?w) (hw_run (snd ?w) hw)" using inv_wake inv_reach [OF assms(1)] by blast
  moreover have "\<not> wfi_awaiting_keypress (fst ?w)" "\<not> screen_off_requested (fst ?w)"
    "\<not> vbus_pin env \<longrightarrow> alarm_set (fst ?w) \<and> rtc_armed (hw_run (snd ?w) hw)"
    by (auto simp: pwr_wake_def flip_effects_def Let_def)
  ultimately show ?thesis using step by (auto simp: pwr_inv_def)
qed

theorem key_wakes_screen_witness:
  "\<exists>st fx st' fx'. pwr_init \<lparr>now_ms = 0, vbus_pin = False, x_mg = None, vbat_mv = 0\<rparr> None = Some (st, fx)
     \<and> pwr_step \<lparr>now_ms = 7, vbus_pin = False, x_mg = None, vbat_mv = 0\<rparr> KeyPress
          (Scalar \<lparr>arg1 = 0x61, arg2 = 0, arg3 = 0, arg4 = 0\<rparr>) st = Some (st', fx') \<and> alarm_set st'"
proof -
  obtain st fx where i: "pwr_init \<lparr>now_ms = 0, vbus_pin = False, x_mg = None, vbat_mv = 0\<rparr> None = Some (st, fx)"
      "\<not> force_deep_sleep st"
    by (auto simp: pwr_init_def Let_def)
  have k: "char_from_u32 0x61 \<noteq> ALARM_CLOCK" by (simp add: char_from_u32_def ALARM_CLOCK_def)
  from key_wakes_screen [OF pwr_reach.start [OF i(1)], of "Scalar \<lparr>arg1 = 0x61, arg2 = 0, arg3 = 0, arg4 = 0\<rparr>"
      "\<lparr>arg1 = 0x61, arg2 = 0, arg3 = 0, arg4 = 0\<rparr>" "\<lparr>now_ms = 7, vbus_pin = False, x_mg = None, vbat_mv = 0\<rparr>"] i k
  show ?thesis by auto
qed

text \<open>the accelerometer programs do what their names say.  On a working bus the setup enables the
  tilt interrupt (and keeps the motion bit as it was), enabling adds motion, disabling removes
  only motion and re-arms all six faces, pausing removes both, and resuming restores tilt.\<close>

theorem accel_programs:
  assumes "working b"
  shows "\<exists>b1 b2 b3 b4 b5. run_bus setup_accel 0 b = (Some (), b1)
     \<and> run_bus (accel_enable_int True) 0 b = (Some (), b2) \<and> run_bus (accel_enable_int False) 0 b = (Some (), b3)
     \<and> run_bus (accel_pause_int True) 0 b = (Some (), b4) \<and> run_bus (accel_pause_int False) 0 b = (Some (), b5)
     \<and> regs b1 CTRL_REG3 = regs b CTRL_REG3 OR 0x20 \<and> regs b1 INT1_CFG = 0x7F \<and> regs b1 INT2_CFG = 0x7F
     \<and> \<not> bit (regs b1 CTRL_REG6) 1
     \<and> bit (regs b2 CTRL_REG3) 6 \<and> bit (regs b2 CTRL_REG3) 5 \<and> regs b2 INT2_CFG = regs b INT2_CFG
     \<and> \<not> bit (regs b3 CTRL_REG3) 6 \<and> bit (regs b3 CTRL_REG3) 5 = bit (regs b CTRL_REG3) 5 \<and> regs b3 INT2_CFG = 0x7F
     \<and> \<not> bit (regs b4 CTRL_REG3) 6 \<and> \<not> bit (regs b4 CTRL_REG3) 5
     \<and> bit (regs b5 CTRL_REG3) 5 \<and> regs b5 INT2_CFG = 0x7F"
proof -
  note run = run_bus_working [OF assms]
  obtain b1 where b1: "run_bus setup_accel 0 b = (Some (), b1)" "regs b1 = bus_effect setup_accel 0 (regs b)"
    using run [of setup_accel 0] by blast
  obtain b2 where b2: "run_bus (accel_enable_int True) 0 b = (Some (), b2)"
      "regs b2 = bus_effect (accel_enable_int True) 0 (regs b)" using run by blast
  obtain b3 where b3: "run_bus (accel_enable_int False) 0 b = (Some (), b3)"
      "regs b3 = bus_effect (accel_enable_int False) 0 (regs b)" using run by blast
  obtain b4 where b4: "run_bus (accel_pause_int True) 0 b = (Some (), b4)"
      "regs b4 = bus_effect (accel_pause_int True) 0 (regs b)" using run by blast
  obtain b5 where b5: "run_bus (accel_pause_int False) 0 b = (Some (), b5)"
      "regs b5 = bus_effect (accel_pause_int False) 0 (regs b)" using run by blast
  have "regs b1 CTRL_REG3 = regs b CTRL_REG3 OR 0x20" "regs b1 INT1_CFG = 0x7F" "regs b1 INT2_CFG = 0x7F"
    "\<not> bit (regs b1 CTRL_REG6) 1"
    by (simp_all add: b1(2) setup_accel_def bit_and_iff bit_not_iff bits_u8)
  then show ?thesis
    by (intro exI [of _ b1] exI [of _ b2] exI [of _ b3] exI [of _ b4] exI [of _ b5] conjI b1(1) b2(1) b3(1) b4(1) b5(1))
       (simp_all add: b2(2) b3(2) b4(2) b5(2) accel_enable_effect accel_pause_effect
          bit_and_iff bit_or_iff bit_not_iff bits_u8)
qed

theorem accel_programs_witness:
  "\<exists>b. run_bus setup_accel 0 \<lparr>regs = (\<lambda>_. 0), bus_time = 0, bus_fail = (\<lambda>_. False)\<rparr> = (Some (), b)
     \<and> regs b CTRL_REG3 = 0 OR 0x20"
proof -
  have "working \<lparr>regs = (\<lambda>_. 0), bus_time = 0, bus_fail = (\<lambda>_. False)\<rparr>" by (simp add: working_def)
  from accel_programs [OF this] show ?thesis by auto
qed

text \<open>unplugging and plugging in again leaks a deep sleep alarm.  The VBUS handler arms the alarm
  without recording it, so there is a reachable state where the badge is plugged in, the
  alarm is armed, and no later poll while it stays plugged in disarms it.\<close>

theorem replug_leaks_alarm:
  "\<exists>st hw. pwr_reach st hw \<and> vbus_high st \<and> rtc_armed hw
     \<and> (\<forall>env. ClearAlarm \<notin> set (snd (pwr_poll env st)) \<and> vbus_high (fst (pwr_poll env st)) \<and> \<not> alarm_set (fst (pwr_poll env st)))"
proof -
  define env where "env = (\<lambda>v. \<lparr>now_ms = 0, vbus_pin = v, x_mg = None, vbat_mv = 0\<rparr>)"
  define m where "m = (Scalar \<lparr>arg1 = 0, arg2 = 0, arg3 = 0, arg4 = 0\<rparr> :: unit message)"
  obtain st fx where st: "pwr_init (env True) None = Some (st, fx)" "accel st = None" "vbus_high st"
      "\<not> alarm_set st"
    by (auto simp: pwr_init_def env_def Let_def)
  let ?st1 = "fst (pwr_vbus (env False) st)" and ?fx1 = "snd (pwr_vbus (env False) st)"
  let ?st2 = "fst (pwr_vbus (env True) ?st1)" and ?fx2 = "snd (pwr_vbus (env True) ?st1)"
  have r0: "pwr_reach st (hw_run fx hw_power_up)" by (rule pwr_reach.start [OF st(1)])
  have r1: "pwr_reach ?st1 (hw_run ?fx1 (hw_run fx hw_power_up))"
    by (rule pwr_reach.turn [OF r0, of "env False" VbusIrq m]) (simp_all add: pwr_vbus_def)
  have r2: "pwr_reach ?st2 (hw_run ?fx2 (hw_run ?fx1 (hw_run fx hw_power_up)))"
    by (rule pwr_reach.turn [OF r1, of "env True" VbusIrq m]) (simp_all add: pwr_vbus_def env_def)
  have "vbus_high ?st2" "\<not> alarm_set ?st2" using st(4) by (simp_all add: pwr_vbus_def env_def)
  moreover have "rtc_armed (hw_run ?fx2 (hw_run ?fx1 (hw_run fx hw_power_up)))"
    by (simp add: pwr_vbus_def env_def)
  ultimately show ?thesis using r2
    by (intro exI [of _ ?st2] exI conjI allI; assumption?) (simp_all add: pwr_poll_def Let_def)
qed

end
