(* ===== verification/Badge_Config.thy ===== *)
theory Badge_Config
  imports Light_Genes Image_Upload Power_Manager Led_Engine
begin

text \<open>
  The badge's shared configuration (\<open>src/config.rs\<close>, \<open>GlobalConfig\<close>): how a boot classifies the
  attachment of the module to a badge and picks the first screen, the cached gene and its undo
  copy, the mutation rates, the nonce, the always-on preference and what it makes the power
  manager do, and the persistence helpers of \<open>dc34-api/src/lib.rs\<close> it uses.  The PDDB is open
  (the code's \<open>expect\<close> calls succeed); the key store's flags, the pins and the random draws are
  arguments; what is sent to the LED server and to the power manager is recorded in order.
\<close>

section \<open>Modes\<close>

datatype vault_mode = Idle | IdleDevMode | ShowKey u32 | ResponseGene u32 | ConfirmGene | GeneScan
  | FactoryTest | StandAloneTest | Tour | TokenTour | DefconHelp | About | Totp | Password | TokenHelp

fun should_animate :: "vault_mode \<Rightarrow> bool" where
  "should_animate About = True"
| "should_animate ConfirmGene = False"
| "should_animate FactoryTest = True"
| "should_animate StandAloneTest = True"
| "should_animate DefconHelp = True"
| "should_animate TokenHelp = True"
| "should_animate Idle = True"
| "should_animate IdleDevMode = True"
| "should_animate Password = False"
| "should_animate Totp = True"
| "should_animate GeneScan = True"
| "should_animate (ResponseGene _) = True"
| "should_animate (ShowKey _) = True"
| "should_animate TokenTour = False"
| "should_animate Tour = False"

datatype attach_state = FactoryNew | TestedStandAlone | FirstMate | Matched | Unattached | Mismatched

definition attached :: "attach_state \<Rightarrow> bool" where
  "attached a \<longleftrightarrow> a = FactoryNew \<or> a = Matched \<or> a = Mismatched \<or> a = FirstMate"

section \<open>Configuration and system\<close>

record config =
  is_developer :: bool
  attach_state_of :: attach_state
  was_cold_boot :: bool
  k0 :: bytes
  skip_tour :: bool
  skip_token_tour :: bool
  badge_type_of :: badge_type
  display_fade_cache :: bool
  gene_cache :: "diploid option"
  prior_gene :: "diploid option"
  mutation_rate_of :: mutation_rate
  final_rate :: mutation_rate
  nonce_mine :: "bytes option"
  previous_mode :: "vault_mode option"
  display_always_on :: bool

datatype sys_msg = SetGeneMsg diploid | ForceMsg "u32 list" | PowerMsg pwr_op "unit message"

record sys =
  dc34 :: dict
  anim_frame_ms :: nat
  sent :: "sys_msg list"

definition send_sys :: "sys_msg list \<Rightarrow> sys \<Rightarrow> sys" where
  "send_sys ms s = s\<lparr>sent := sent s @ ms\<rparr>"

definition put_key :: "string \<Rightarrow> bytes \<Rightarrow> sys \<Rightarrow> sys" where
  "put_key k v s = s\<lparr>dc34 := dict_write k v (dc34 s)\<rparr>"

text \<open>\<open>read_pddb\<close>: the buffer after the read, the number of bytes read; the key is created.\<close>

definition read_pddb :: "string \<Rightarrow> bytes \<Rightarrow> dict \<Rightarrow> bytes \<times> nat \<times> dict" where
  "read_pddb k buf d =
     (let v = dict_read k (length buf) d
      in (v @ drop (length v) buf, length v, case d k of None \<Rightarrow> d(k \<mapsto> []) | Some _ \<Rightarrow> d))"

abbreviation DC34_SECRET :: string where "DC34_SECRET \<equiv> ''k0''"
abbreviation DC34_TOUR :: string where "DC34_TOUR \<equiv> ''tour''"
abbreviation DC34_TOKEN_TOUR :: string where "DC34_TOKEN_TOUR \<equiv> ''tokentour''"
abbreviation DC34_BADGE :: string where "DC34_BADGE \<equiv> ''badge''"
abbreviation DC34_GENE :: string where "DC34_GENE \<equiv> ''gene''"
abbreviation DC34_ALWAYS_ON :: string where "DC34_ALWAYS_ON \<equiv> ''always_on''"
abbreviation DC34_ANIM_FPS :: string where "DC34_ANIM_FPS \<equiv> ''anim_fps''"

definition DC34_HEADER :: bytes where
  "DC34_HEADER = [0x49, 0xdb, 0x76, 0x71, 0xf3, 0x44, 0x35, 0xed, 0x5f, 0xdd, 0xff, 0xdf, 0xcb, 0xb7, 0x50, 0x8a]"

section \<open>Persistence of genes and keys\<close>

definition save_light_gene :: "diploid \<Rightarrow> dict \<Rightarrow> dict" where
  "save_light_gene g d = dict_write DC34_GENE (d_serialize g) d"

text \<open>\<open>read_exact\<close> fails on a key shorter than the buffer.\<close>

definition get_light_gene :: "dict \<Rightarrow> diploid option \<times> dict" where
  "get_light_gene d =
     (case read_pddb DC34_GENE (replicate (haploid_size * 2) 0) d of
        (buf, n, d') \<Rightarrow> (if n < haploid_size * 2 then None else d_deserialize buf, d'))"

definition init_light_gene :: "badge_type \<Rightarrow> (nat \<Rightarrow> nat) \<Rightarrow> (nat \<Rightarrow> nat) \<Rightarrow> dict \<Rightarrow> dict option" where
  "init_light_gene bt d1 d2 d =
     (case (h_from_type bt d1, h_from_type bt d2) of
        (Some x, Some y) \<Rightarrow> Some (save_light_gene (Diploid x y) (dict_write DC34_BADGE [badge_code bt] d))
      | _ \<Rightarrow> None)"

definition save_k0 :: "bytes \<Rightarrow> dict \<Rightarrow> dict" where
  "save_k0 key d = dict_write DC34_TOUR [0] (dict_write DC34_BADGE [badge_code NoBadge] (dict_write DC34_SECRET key d))"

definition get_k0 :: "dict \<Rightarrow> bytes option \<times> dict" where
  "get_k0 d = (case read_pddb DC34_SECRET (replicate 32 0) d of
     (buf, n, d') \<Rightarrow> (if n = 32 then Some buf else None, d'))"

section \<open>Boot\<close>

text \<open>The three badge type pins, read as a number; all eight values are badge types.\<close>

definition read_badgetype_pins :: "bool \<Rightarrow> bool \<Rightarrow> bool \<Rightarrow> badge_type" where
  "read_badgetype_pins p0 p1 p2 =
     badge_or_none ((if p0 then 1 else 0) OR (if p1 then 2 else 0) OR (if p2 then 4 else 0))"

definition classify :: "badge_type \<Rightarrow> nat \<Rightarrow> badge_type \<Rightarrow> bool \<Rightarrow> badge_type \<times> attach_state" where
  "classify stored code_len measured k0_missing =
     (let fresh = (code_len = 0 \<or> stored = NoBadge);
          bt = (if fresh then measured else stored);
          attach =
            (if fresh \<and> measured \<noteq> NoBadge then FirstMate
             else if measured = NoBadge
             then (if stored = NoBadge then (if k0_missing then FactoryNew else TestedStandAlone) else Unattached)
             else if stored = measured then Matched else Mismatched)
      in (bt, attach))"

fun initial_mode :: "attach_state \<Rightarrow> bool \<Rightarrow> bool \<Rightarrow> bool \<Rightarrow> bool \<Rightarrow> vault_mode" where
  "initial_mode FactoryNew dev cold skip skip_token = (if \<not> dev then FactoryTest else IdleDevMode)"
| "initial_mode FirstMate dev cold skip skip_token = Idle"
| "initial_mode TestedStandAlone dev cold skip skip_token = Idle"
| "initial_mode Matched dev cold skip skip_token =
     (if skip \<or> \<not> cold then (if dev then IdleDevMode else Idle) else Tour)"
| "initial_mode Mismatched dev cold skip skip_token =
     (if skip \<or> \<not> cold then (if dev then IdleDevMode else Idle) else Tour)"
| "initial_mode Unattached dev cold skip skip_token =
     (if skip_token \<or> \<not> cold then Password else TokenTour)"

definition config_init :: "bool \<Rightarrow> bool \<Rightarrow> badge_type \<Rightarrow> (nat \<Rightarrow> nat) \<Rightarrow> (nat \<Rightarrow> nat) \<Rightarrow> sys
    \<Rightarrow> (config \<times> vault_mode \<times> sys) option" where
  "config_init dev cold measured d1 d2 s =
     (let (k, k_len, d_a) = read_pddb DC34_SECRET (replicate 32 0) (dc34 s);
          (tour_buf, _, d_b) = read_pddb DC34_TOUR [0] d_a;
          (token_buf, _, d_c) = read_pddb DC34_TOKEN_TOUR [0] d_b;
          (code, code_len, d_d) = read_pddb DC34_BADGE [badge_code NoBadge] d_c;
          stored = (if code_len \<noteq> 0 then badge_or_none (code ! 0) else NoBadge);
          (bt, attach) = classify stored code_len measured (k = replicate 32 0 \<or> k_len \<noteq> 32)
      in case (if attach = FirstMate then init_light_gene measured d1 d2 d_d else Some d_d) of
           None \<Rightarrow> None
         | Some d_e \<Rightarrow>
             let (g, d_f) = get_light_gene d_e;
                 msgs = (case g of None \<Rightarrow> [] | Some x \<Rightarrow> [SetGeneMsg x]);
                 (on_buf, on_len, d_g) = read_pddb DC34_ALWAYS_ON [1] d_f;
                 always = (if on_len = 1 then on_buf ! 0 \<noteq> 0 else True);
                 (fps_buf, fps_len, d_h) = read_pddb DC34_ANIM_FPS [10] d_g;
                 fps = (if fps_len = 1 \<and> 1 \<le> fps_buf ! 0 \<and> fps_buf ! 0 \<le> 30 then fps_buf ! 0 else 10)
             in Some
                 (\<lparr>is_developer = dev, attach_state_of = attach, was_cold_boot = cold, k0 = k,
                    skip_tour = (tour_buf ! 0 \<noteq> 0), skip_token_tour = (token_buf ! 0 \<noteq> 0),
                    badge_type_of = bt, display_fade_cache = False, gene_cache = g, prior_gene = None,
                    mutation_rate_of = Baseline, final_rate = Baseline, nonce_mine = None,
                    previous_mode = None, display_always_on = always\<rparr>,
                  initial_mode attach dev cold (tour_buf ! 0 \<noteq> 0) (token_buf ! 0 \<noteq> 0),
                  send_sys msgs (s\<lparr>dc34 := d_h, anim_frame_ms := fps_to_frame_ms fps\<rparr>)))"

section \<open>Operations\<close>

definition set_anim_fps :: "u8 \<Rightarrow> sys \<Rightarrow> u8 \<times> sys" where
  "set_anim_fps fps s =
     (let clamped = min (max fps 1) 30
      in (clamped, put_key DC34_ANIM_FPS [clamped] (s\<lparr>anim_frame_ms := fps_to_frame_ms clamped\<rparr>)))"

definition toggle_always_on :: "config \<times> sys \<Rightarrow> bool \<times> config \<times> sys" where
  "toggle_always_on cs = (case cs of (c, s) \<Rightarrow>
     let on = (\<not> display_always_on c)
     in (on, c\<lparr>display_always_on := on, previous_mode := None\<rparr>,
         put_key DC34_ALWAYS_ON [if on then 1 else 0] s))"

definition power_manager_config :: "bool \<Rightarrow> u32 option \<Rightarrow> sys \<Rightarrow> sys" where
  "power_manager_config enable dur s =
     send_sys [PowerMsg Enable (BlockingScalar \<lparr>arg1 = (if enable then 1 else 0),
        arg2 = (case dur of Some d \<Rightarrow> d | None \<Rightarrow> 0), arg3 = 0, arg4 = 0\<rparr>)] s"

text \<open>The timeouts of the standard build (first) and of the \<open>uber\<close> feature.\<close>

definition SHORT_TIMEOUT :: "bool \<Rightarrow> u32" where "SHORT_TIMEOUT uber = (if uber then 4 * 60 * 60 else 36)"
definition MEDIUM_TIMEOUT :: "bool \<Rightarrow> u32" where "MEDIUM_TIMEOUT uber = (if uber then 8 * 60 * 60 else 69)"
definition LONG_TIMEOUT :: "bool \<Rightarrow> u32" where "LONG_TIMEOUT uber = (if uber then 8 * 60 * 60 else 0x69)"

fun mode_timeout :: "bool \<Rightarrow> vault_mode \<Rightarrow> bool \<times> u32" where
  "mode_timeout uber About = (True, SHORT_TIMEOUT uber)"
| "mode_timeout uber ConfirmGene = (True, MEDIUM_TIMEOUT uber)"
| "mode_timeout uber FactoryTest = (False, 0)"
| "mode_timeout uber StandAloneTest = (False, 0)"
| "mode_timeout uber DefconHelp = (True, SHORT_TIMEOUT uber)"
| "mode_timeout uber TokenHelp = (True, MEDIUM_TIMEOUT uber)"
| "mode_timeout uber Idle = (True, SHORT_TIMEOUT uber)"
| "mode_timeout uber IdleDevMode = (True, SHORT_TIMEOUT uber)"
| "mode_timeout uber Password = (True, MEDIUM_TIMEOUT uber)"
| "mode_timeout uber Totp = (True, MEDIUM_TIMEOUT uber)"
| "mode_timeout uber GeneScan = (True, LONG_TIMEOUT uber)"
| "mode_timeout uber (ResponseGene _) = (True, LONG_TIMEOUT uber)"
| "mode_timeout uber (ShowKey _) = (True, LONG_TIMEOUT uber)"
| "mode_timeout uber TokenTour = (True, MEDIUM_TIMEOUT uber)"
| "mode_timeout uber Tour = (True, MEDIUM_TIMEOUT uber)"

definition update_power_state :: "bool \<Rightarrow> vault_mode \<Rightarrow> config \<times> sys \<Rightarrow> config \<times> sys" where
  "update_power_state uber mode cs = (case cs of (c, s) \<Rightarrow>
     (c\<lparr>previous_mode := Some mode\<rparr>,
      if display_always_on c then power_manager_config False (Some 0) s
      else if previous_mode c \<noteq> Some mode
      then (case mode_timeout uber mode of (enable, dur) \<Rightarrow> power_manager_config enable (Some dur) s)
      else s))"

definition set_skip_tour :: "bool \<Rightarrow> config \<times> sys \<Rightarrow> vault_mode \<times> sys" where
  "set_skip_tour state cs = (case cs of (c, s) \<Rightarrow>
     (if attached (attach_state_of c) then (if is_developer c then IdleDevMode else Idle) else Password,
      put_key DC34_TOUR [if state then 1 else 0] s))"

definition side_effect_skip_token_tour :: "bool \<Rightarrow> sys \<Rightarrow> sys" where
  "side_effect_skip_token_tour state s = put_key DC34_TOKEN_TOUR [if state then 1 else 0] s"

definition set_mutation_rate :: "mutation_rate \<Rightarrow> config \<Rightarrow> config" where
  "set_mutation_rate r c = c\<lparr>mutation_rate_of := r\<rparr>"

definition lock_rate :: "config \<Rightarrow> config" where
  "lock_rate c = c\<lparr>final_rate := mutation_rate_of c\<rparr>"

text \<open>The nonce loop: \<open>draws i\<close> is the \<open>i\<close>-th twelve-byte draw.  The loop ends only with an
  acceptable draw, so it is a partial function.\<close>

partial_function (option) draw_nonce :: "bytes option \<Rightarrow> (nat \<Rightarrow> bytes) \<Rightarrow> nat \<Rightarrow> bytes option" where
  "draw_nonce prev draws i =
     (if draws i = take 12 DC34_HEADER then draw_nonce prev draws (Suc i)
      else case prev of
        Some p \<Rightarrow> if p \<noteq> draws i then Some (draws i) else draw_nonce prev draws (Suc i)
      | None \<Rightarrow> Some (draws i))"

definition generate_my_nonce :: "(nat \<Rightarrow> bytes) \<Rightarrow> config \<Rightarrow> config option" where
  "generate_my_nonce draws c =
     map_option (\<lambda>n. c\<lparr>nonce_mine := Some n\<rparr>) (draw_nonce (nonce_mine c) draws 0)"

definition nonce_data :: "(nat \<Rightarrow> bytes) \<Rightarrow> config \<Rightarrow> (bytes \<times> config) option" where
  "nonce_data draws c =
     map_option (\<lambda>c'. (DC34_HEADER @ the (nonce_mine c'), c')) (generate_my_nonce draws c)"

definition clear_nonces :: "config \<Rightarrow> config" where
  "clear_nonces c = c\<lparr>nonce_mine := None\<rparr>"

definition get_padded_gamete :: "(nat \<Rightarrow> nat) \<Rightarrow> (nat \<Rightarrow> nat) \<Rightarrow> config \<Rightarrow> bytes option" where
  "get_padded_gamete dm dmut c =
     (case gene_cache c of None \<Rightarrow> None
      | Some g \<Rightarrow> let ser = h_serialize (mutate (meiosis g dm) (final_rate c) dmut);
                      len = min (length ser) 15
                  in Some (take len ser @ replicate (15 - len) 0 @ [badge_code (badge_type_of c)]))"

definition get_egg :: "(nat \<Rightarrow> nat) \<Rightarrow> (nat \<Rightarrow> nat) \<Rightarrow> mutation_rate option \<Rightarrow> config \<Rightarrow> haploid option" where
  "get_egg dm dmut rate c =
     (case gene_cache c of None \<Rightarrow> None
      | Some g \<Rightarrow> Some (mutate (meiosis g dm)
          (max (case rate of Some r \<Rightarrow> r | None \<Rightarrow> final_rate c) (final_rate c)) dmut))"

definition replace_gene :: "haploid \<Rightarrow> haploid \<Rightarrow> config \<Rightarrow> config" where
  "replace_gene egg sperm c = c\<lparr>prior_gene := gene_cache c, gene_cache := Some (Diploid egg sperm)\<rparr>"

definition revert_gene :: "config \<Rightarrow> config" where
  "revert_gene c = (case prior_gene c of None \<Rightarrow> c
     | Some g \<Rightarrow> c\<lparr>prior_gene := None, gene_cache := Some g\<rparr>)"

definition render_gene :: "config \<Rightarrow> sys \<Rightarrow> sys" where
  "render_gene c s = (case gene_cache c of None \<Rightarrow> s | Some g \<Rightarrow> send_sys [SetGeneMsg g] s)"

definition config_restore_led_preset :: "sys \<Rightarrow> sys" where
  "config_restore_led_preset s =
     (case restore_led_preset (dc34 s) of None \<Rightarrow> s | Some ws \<Rightarrow> send_sys [ForceMsg ws] s)"

definition display_fading :: "bool \<Rightarrow> config \<times> sys \<Rightarrow> config \<times> sys" where
  "display_fading enable0 cs = (case cs of (c, s) \<Rightarrow>
     let enable = (if display_always_on c then False else enable0)
     in if display_fade_cache c \<noteq> enable
        then (c\<lparr>display_fade_cache := enable\<rparr>,
              send_sys [PowerMsg SetFadeMode (Scalar \<lparr>arg1 = (if enable then 1 else 0), arg2 = 0, arg3 = 0, arg4 = 0\<rparr>)] s)
        else (c, s))"

definition no_args :: scalar_args where
  "no_args = \<lparr>arg1 = 0, arg2 = 0, arg3 = 0, arg4 = 0\<rparr>"

text \<open>\<open>is_plugged_in\<close> asks the power manager; its reply is the second word.\<close>

definition is_plugged_in :: "pwr_env \<Rightarrow> pwr_state \<Rightarrow> bool option" where
  "is_plugged_in env st =
     (case pwr_step env GetVbus (BlockingScalar no_args) st of
        Some (_, [Reply _ vbus]) \<Rightarrow> Some (vbus \<noteq> 0) | _ \<Rightarrow> None)"

definition power_manager_boot_finished :: "sys \<Rightarrow> sys" where
  "power_manager_boot_finished s = send_sys [PowerMsg Boot (BlockingScalar no_args)] s"

definition power_off_request :: "sys \<Rightarrow> sys" where
  "power_off_request s = send_sys [PowerMsg PowerOff (Scalar no_args)] s"

definition screen_off_request :: "sys \<Rightarrow> sys" where
  "screen_off_request s = send_sys [PowerMsg ScreenOffRequest (Scalar no_args)] s"

definition pause_accel_request :: "bool \<Rightarrow> sys \<Rightarrow> sys" where
  "pause_accel_request pause s =
     send_sys [PowerMsg PauseAccel (BlockingScalar (no_args\<lparr>arg1 := (if pause then 1 else 0)\<rparr>))] s"

definition hex_digit :: "nat \<Rightarrow> char" where
  "hex_digit n = (if n < 10 then char_of (48 + n) else char_of (87 + n))"

definition hex_encode :: "bytes \<Rightarrow> string" where
  "hex_encode bs = concat (map (\<lambda>b. [hex_digit (unat b div 16), hex_digit (unat b mod 16)]) bs)"

text \<open>\<open>sha256\<close> is the digest of the \<open>sha2\<close> crate.\<close>

definition k0_hash :: "(bytes \<Rightarrow> bytes) \<Rightarrow> config \<Rightarrow> string" where
  "k0_hash sha256 c = take 8 (hex_encode (sha256 (k0 c)))"

section \<open>Lemmas: keys\<close>

lemma read_pddb_contents: "snd (snd (read_pddb k buf d)) k' = (if k' = k \<and> d k = None then Some [] else d k')"
  by (auto simp: read_pddb_def Let_def split: option.splits)

definition holds_prefix :: "dict \<Rightarrow> string \<Rightarrow> bytes \<Rightarrow> bool" where
  "holds_prefix d k v \<longleftrightarrow> (\<exists>w. d k = Some w \<and> take (length v) w = v)"

lemma holds_write [simp]: "holds_prefix (dict_write k v d) k v"
  by (simp add: holds_prefix_def dict_write_def)

lemma holds_write_other: "k \<noteq> k' \<Longrightarrow> holds_prefix (dict_write k' v' d) k v = holds_prefix d k v"
  by (simp add: holds_prefix_def)

lemma holds_read: "holds_prefix d k v \<Longrightarrow> holds_prefix (snd (snd (read_pddb k' buf d))) k v"
  by (auto simp: holds_prefix_def read_pddb_contents)

lemma read_holds: "holds_prefix d k v \<Longrightarrow> length v = length buf \<Longrightarrow> read_pddb k buf d = (v, length buf, d)"
  by (auto simp: holds_prefix_def read_pddb_def dict_read_def Let_def split: option.splits)

lemma holds_read_eq: "read_pddb k' buf d = (v', n, d') \<Longrightarrow> holds_prefix d k v \<Longrightarrow> holds_prefix d' k v"
  using holds_read [of d k v k' buf] by simp

lemma get_light_gene_holds:
  assumes "holds_prefix d DC34_GENE (d_serialize g)"
  shows "get_light_gene d = (Some g, d)"
  using read_holds [OF assms, of "replicate (haploid_size * 2) 0"] d_round_trip [of g "[]"]
  by (simp add: get_light_gene_def haploid_size_def)

lemma get_light_gene_dict: "holds_prefix d k v \<Longrightarrow> holds_prefix (snd (get_light_gene d)) k v"
  by (auto simp: get_light_gene_def split: prod.splits dest: holds_read_eq)

lemma init_light_gene_total:
  "\<exists>x y. h_from_type bt d1 = Some x \<and> h_from_type bt d2 = Some y \<and> in_palette bt x \<and> in_palette bt y
     \<and> init_light_gene bt d1 d2 d = Some (save_light_gene (Diploid x y) (dict_write DC34_BADGE [badge_code bt] d))"
proof -
  obtain x y where "h_from_type bt d1 = Some x" "in_palette bt x" "h_from_type bt d2 = Some y" "in_palette bt y"
    using drawn_in_palette by metis
  then show ?thesis by (simp add: init_light_gene_def)
qed

section \<open>Lemmas: boot\<close>

text \<open>A boot of a badge that already stores a type and a gene.\<close>

lemma boot_again:
  assumes badge: "holds_prefix (dc34 s) DC34_BADGE [badge_code bt]" and bt: "bt \<noteq> NoBadge"
    and gene: "holds_prefix (dc34 s) DC34_GENE (d_serialize g)"
  shows "\<exists>c mode s'. config_init dev cold measured d1 d2 s = Some (c, mode, s')
     \<and> badge_type_of c = bt \<and> gene_cache c = Some g \<and> sent s' = sent s @ [SetGeneMsg g]
     \<and> attach_state_of c = (if measured = NoBadge then Unattached else if bt = measured then Matched else Mismatched)
     \<and> holds_prefix (dc34 s') DC34_BADGE [badge_code bt] \<and> holds_prefix (dc34 s') DC34_GENE (d_serialize g)"
proof -
  obtain k kl da where a: "read_pddb DC34_SECRET (replicate 32 0) (dc34 s) = (k, kl, da)" by (metis prod_cases3)
  obtain t tl db where b: "read_pddb DC34_TOUR [0] da = (t, tl, db)" by (metis prod_cases3)
  obtain u ul dc where c: "read_pddb DC34_TOKEN_TOUR [0] db = (u, ul, dc)" by (metis prod_cases3)
  note keep = holds_read_eq [OF c] holds_read_eq [OF b] holds_read_eq [OF a]
  have hb: "holds_prefix dc DC34_BADGE [badge_code bt]" by (intro keep badge)
  have hg: "holds_prefix dc DC34_GENE (d_serialize g)" by (intro keep gene)
  have d: "read_pddb DC34_BADGE [badge_code NoBadge] dc = ([badge_code bt], 1, dc)"
    using read_holds [OF hb, of "[badge_code NoBadge]"] by simp
  obtain o1 ol dg where e: "read_pddb DC34_ALWAYS_ON [1] dc = (o1, ol, dg)" by (metis prod_cases3)
  obtain f1 fl dh where f: "read_pddb DC34_ANIM_FPS [10] dg = (f1, fl, dh)" by (metis prod_cases3)
  have hh: "holds_prefix dh DC34_BADGE [badge_code bt]" "holds_prefix dh DC34_GENE (d_serialize g)"
    using holds_read_eq [OF f holds_read_eq [OF e]] hb hg by blast+
  have cl: "classify bt 1 measured m =
      (bt, if measured = NoBadge then Unattached else if bt = measured then Matched else Mismatched)" for m
    using bt by (simp add: classify_def Let_def)
  have at: "(if measured = NoBadge then Unattached else if bt = measured then Matched else Mismatched) \<noteq> FirstMate"
    by simp
  show ?thesis
    unfolding config_init_def Let_def a b c d e f prod.case
    by (simp add: badge_or_none_code cl [simplified] at get_light_gene_holds [OF hg] e f hh send_sys_def)
qed

lemma classify_FirstMate:
  "classify stored n measured m = (bt, FirstMate) \<Longrightarrow> bt = measured \<and> measured \<noteq> NoBadge"
  by (auto simp: classify_def Let_def split: if_splits)

lemma first_mate_boot:
  assumes boot: "config_init dev cold measured d1 d2 s = Some (c, mode, s')"
    and fm: "attach_state_of c = FirstMate"
  shows "badge_type_of c = measured \<and> measured \<noteq> NoBadge \<and> (\<exists>x y. gene_cache c = Some (Diploid x y)
     \<and> in_palette measured x \<and> in_palette measured y
     \<and> holds_prefix (dc34 s') DC34_BADGE [badge_code measured]
     \<and> holds_prefix (dc34 s') DC34_GENE (d_serialize (Diploid x y)))"
proof -
  obtain k kl da where a: "read_pddb DC34_SECRET (replicate 32 0) (dc34 s) = (k, kl, da)" by (metis prod_cases3)
  obtain t tl db where b: "read_pddb DC34_TOUR [0] da = (t, tl, db)" by (metis prod_cases3)
  obtain u ul dc where c: "read_pddb DC34_TOKEN_TOUR [0] db = (u, ul, dc)" by (metis prod_cases3)
  obtain code cl dd where d: "read_pddb DC34_BADGE [badge_code NoBadge] dc = (code, cl, dd)" by (metis prod_cases3)
  let ?stored = "if cl \<noteq> 0 then badge_or_none (code ! 0) else NoBadge"
  obtain bt att where cls: "classify ?stored cl measured (k = replicate 32 0 \<or> kl \<noteq> 32) = (bt, att)" by fastforce
  obtain x y where xy: "in_palette measured x" "in_palette measured y" and ini:
      "init_light_gene measured d1 d2 dd = Some (save_light_gene (Diploid x y) (dict_write DC34_BADGE [badge_code measured] dd))"
    using init_light_gene_total by blast
  let ?de = "save_light_gene (Diploid x y) (dict_write DC34_BADGE [badge_code measured] dd)"
  have de: "holds_prefix ?de DC34_BADGE [badge_code measured]" "holds_prefix ?de DC34_GENE (d_serialize (Diploid x y))"
    by (simp_all add: save_light_gene_def holds_write_other)
  have att: "att = FirstMate"
    using boot fm unfolding config_init_def Let_def a b c d cls prod.case
    by (auto split: option.splits prod.splits)
  have "bt = measured" "measured \<noteq> NoBadge"
    using classify_FirstMate [OF cls [unfolded att]] by simp_all
  moreover obtain o1 ol dg where e: "read_pddb DC34_ALWAYS_ON [1] ?de = (o1, ol, dg)" by (metis prod_cases3)
  moreover obtain f1 fl dh where f: "read_pddb DC34_ANIM_FPS [10] dg = (f1, fl, dh)" by (metis prod_cases3)
  moreover have "holds_prefix dh DC34_BADGE [badge_code measured]"
    "holds_prefix dh DC34_GENE (d_serialize (Diploid x y))"
    using holds_read_eq [OF f holds_read_eq [OF e]] de by blast+
  ultimately show ?thesis using boot xy att
    unfolding config_init_def Let_def a b c d cls prod.case
    by (auto simp: ini get_light_gene_holds [OF de(2)] send_sys_def)
qed

section \<open>Properties\<close>

text \<open>mating a badge provisions it once and for all.  When a boot finds a badge type on the pins
  and none stored, it becomes that type with a genome of the type's palette; every later boot
  from its store, in whatever badge or none, keeps that type and that genome and sends the
  genome to the LED server, and reports the attachment by comparing pins and stored type.\<close>

theorem provisioning_is_stable:
  assumes "config_init dev cold measured d1 d2 s = Some (c, mode, s1)"
    and "attach_state_of c = FirstMate" and "dc34 s2 = dc34 s1"
  shows "\<exists>x y. in_palette measured x \<and> in_palette measured y \<and> badge_type_of c = measured
     \<and> gene_cache c = Some (Diploid x y)
     \<and> (\<exists>c2 mode2 s3. config_init dev2 cold2 measured2 e1 e2 s2 = Some (c2, mode2, s3)
          \<and> badge_type_of c2 = measured \<and> gene_cache c2 = Some (Diploid x y)
          \<and> sent s3 = sent s2 @ [SetGeneMsg (Diploid x y)]
          \<and> attach_state_of c2 = (if measured2 = NoBadge then Unattached
               else if measured = measured2 then Matched else Mismatched))"
proof -
  obtain x y where xy: "in_palette measured x" "in_palette measured y" "badge_type_of c = measured"
      "measured \<noteq> NoBadge" "gene_cache c = Some (Diploid x y)"
      "holds_prefix (dc34 s2) DC34_BADGE [badge_code measured]"
      "holds_prefix (dc34 s2) DC34_GENE (d_serialize (Diploid x y))"
    using first_mate_boot [OF assms(1,2)] assms(3) by auto
  from boot_again [OF xy(6,4,7), of dev2 cold2 measured2 e1 e2] xy show ?thesis by blast
qed

theorem provisioning_is_stable_witness:
  "\<exists>c mode s1 c2 mode2 s3. config_init False True Human (\<lambda>_. 0) (\<lambda>i. i)
       \<lparr>dc34 = Map.empty, anim_frame_ms = 0, sent = []\<rparr> = Some (c, mode, s1)
     \<and> config_init False True NoBadge (\<lambda>_. 1) (\<lambda>_. 2) s1 = Some (c2, mode2, s3)
     \<and> attach_state_of c2 = Unattached \<and> gene_cache c2 = gene_cache c"
proof -
  let ?s = "\<lparr>dc34 = Map.empty, anim_frame_ms = 0, sent = []\<rparr> :: sys"
  let ?boot = "config_init False True Human (\<lambda>_. 0) (\<lambda>i. i) ?s"
  have "map_option (\<lambda>(c, _, _). attach_state_of c) ?boot = Some FirstMate" by code_simp
  then obtain c mode s1 where b: "?boot = Some (c, mode, s1)" and fm: "attach_state_of c = FirstMate"
    by (auto simp: map_option_eq_Some)
  from provisioning_is_stable [OF b fm, of s1 False True NoBadge "\<lambda>_. 1" "\<lambda>_. 2"] b show ?thesis by auto
qed

section \<open>Lemmas: power configuration\<close>

text \<open>What the power manager makes of the messages the vault sends it, in order.\<close>

fun deliver_power :: "pwr_env \<Rightarrow> sys_msg list \<Rightarrow> pwr_state \<Rightarrow> pwr_state option" where
  "deliver_power env [] st = Some st"
| "deliver_power env (PowerMsg op m # ms) st =
     (case pwr_step env op m st of None \<Rightarrow> None | Some (st', _) \<Rightarrow> deliver_power env ms st')"
| "deliver_power env (_ # ms) st = deliver_power env ms st"

lemma timeout_range:
  "fst (mode_timeout uber m) \<Longrightarrow> 36 \<le> unat (snd (mode_timeout uber m)) \<and> unat (snd (mode_timeout uber m)) \<le> 28800"
  by (cases m; cases uber) (simp_all add: SHORT_TIMEOUT_def MEDIUM_TIMEOUT_def LONG_TIMEOUT_def)

lemma update_always_on:
  "display_always_on c \<Longrightarrow> sent (snd (update_power_state uber mode (c, s)))
     = sent s @ [PowerMsg Enable (BlockingScalar \<lparr>arg1 = 0, arg2 = 0, arg3 = 0, arg4 = 0\<rparr>)]"
  by (simp add: update_power_state_def power_manager_config_def send_sys_def)

text \<open>the always-on preference wins over everything the power manager was told.  After a redraw
  with always-on set, the message sent makes the power manager, in whatever state it was,
  ignore idling: from then on no poll suspends unless a suspend was forced, however late it
  comes, and the deep sleep alarm is cleared.\<close>

theorem always_on_keeps_awake:
  assumes "display_always_on c" and "\<not> force_wfi st"
  shows "\<exists>st'. deliver_power env (drop (length (sent s)) (sent (snd (update_power_state uber mode (c, s))))) st = Some st'
     \<and> idle_sec st' = idle_sec st
     \<and> InitiateSuspend \<notin> set (snd (pwr_poll env' st')) \<and> \<not> alarm_set (fst (pwr_poll env' st'))
     \<and> (alarm_set st \<longrightarrow> ClearAlarm \<in> set (snd (pwr_poll env' st')))"
  using assms
  by (simp add: update_always_on on_mut_def pwr_enable_def WFI_MIN_SEC_def poll_shape poll_due_def)
     (simp add: pwr_poll_def Let_def)

text \<open>timeouts reach the power manager exactly when they should.  With always-on off, a redraw
  sends the mode's timeout when the mode changed since the last redraw or the preference was
  just toggled, and sends nothing otherwise; a mode with power management gets between 36
  seconds and eight hours, the factory tests get none; and the power manager takes it over.\<close>

theorem timeout_follows_mode:
  assumes "\<not> display_always_on c"
  shows "(let (c', s') = update_power_state uber mode (c, s) in previous_mode c' = Some mode
     \<and> (if previous_mode c = Some mode then sent s' = sent s
        else \<exists>st'. deliver_power env (drop (length (sent s)) (sent s')) st = Some st'
           \<and> pwr_mgr_enabled st' = (mode \<notin> {FactoryTest, StandAloneTest})
           \<and> idle_sec st' = (if mode \<in> {FactoryTest, StandAloneTest} then idle_sec st else unat (snd (mode_timeout uber mode)))
           \<and> (if mode \<in> {FactoryTest, StandAloneTest} then snd (mode_timeout uber mode) = 0
              else 36 \<le> unat (snd (mode_timeout uber mode)) \<and> unat (snd (mode_timeout uber mode)) \<le> 28800)))
     \<and> previous_mode (fst (snd (toggle_always_on (c, s)))) = None"
  using assms timeout_range [of uber mode]
  by (cases mode; cases uber) (auto simp: update_power_state_def power_manager_config_def send_sys_def on_mut_def
      pwr_enable_def toggle_always_on_def WFI_MIN_SEC_def SHORT_TIMEOUT_def MEDIUM_TIMEOUT_def LONG_TIMEOUT_def Let_def)

theorem always_on_keeps_awake_witness:
  "\<exists>st'. deliver_power \<lparr>now_ms = 0, vbus_pin = False, x_mg = None, vbat_mv = 0\<rparr>
      [PowerMsg Enable (BlockingScalar \<lparr>arg1 = 0, arg2 = 0, arg3 = 0, arg4 = 0\<rparr>)]
      \<lparr>accel = None, orient = FaceUp, vbus_high = False, alarm_set = True, pwr_mgr_enabled = True,
       booted = True, wfi_awaiting_keypress = False, idle_sec = 36, force_wfi = False,
       force_deep_sleep = False, power_off = False, screen_off_requested = False, last_action_time_ms = 0\<rparr> = Some st'
     \<and> InitiateSuspend \<notin> set (snd (pwr_poll \<lparr>now_ms = 99999999, vbus_pin = False, x_mg = None, vbat_mv = 0\<rparr> st'))"
proof -
  let ?st = "\<lparr>accel = None, orient = FaceUp, vbus_high = False, alarm_set = True, pwr_mgr_enabled = True,
       booted = True, wfi_awaiting_keypress = False, idle_sec = 36, force_wfi = False,
       force_deep_sleep = False, power_off = False, screen_off_requested = False, last_action_time_ms = 0\<rparr> :: pwr_state"
  let ?c = "\<lparr>is_developer = False, attach_state_of = Matched, was_cold_boot = True, k0 = [], skip_tour = True,
     skip_token_tour = True, badge_type_of = Human, display_fade_cache = False, gene_cache = None, prior_gene = None,
     mutation_rate_of = Baseline, final_rate = Baseline, nonce_mine = None, previous_mode = Some Idle,
     display_always_on = True\<rparr> :: config"
  let ?s = "\<lparr>dc34 = Map.empty, anim_frame_ms = 100, sent = []\<rparr> :: sys"
  have "sent (snd (update_power_state False Idle (?c, ?s)))
      = [PowerMsg Enable (BlockingScalar \<lparr>arg1 = 0, arg2 = 0, arg3 = 0, arg4 = 0\<rparr>)]"
    by (simp add: update_always_on)
  then show ?thesis
    using always_on_keeps_awake [of ?c ?st "\<lparr>now_ms = 0, vbus_pin = False, x_mg = None, vbat_mv = 0\<rparr>" ?s False Idle
        "\<lparr>now_ms = 99999999, vbus_pin = False, x_mg = None, vbat_mv = 0\<rparr>"] by auto
qed

theorem timeout_follows_mode_witness:
  "sent (snd (update_power_state False Idle
     (\<lparr>is_developer = False, attach_state_of = Matched, was_cold_boot = True, k0 = [], skip_tour = True,
       skip_token_tour = True, badge_type_of = Human, display_fade_cache = False, gene_cache = None,
       prior_gene = None, mutation_rate_of = Baseline, final_rate = Baseline, nonce_mine = None,
       previous_mode = Some Idle, display_always_on = False\<rparr>,
      \<lparr>dc34 = Map.empty, anim_frame_ms = 100, sent = []\<rparr>))) = []"
proof -
  let ?c = "\<lparr>is_developer = False, attach_state_of = Matched, was_cold_boot = True, k0 = [], skip_tour = True,
     skip_token_tour = True, badge_type_of = Human, display_fade_cache = False, gene_cache = None, prior_gene = None,
     mutation_rate_of = Baseline, final_rate = Baseline, nonce_mine = None, previous_mode = Some Idle,
     display_always_on = False\<rparr> :: config"
  let ?s = "\<lparr>dc34 = Map.empty, anim_frame_ms = 100, sent = []\<rparr> :: sys"
  have "\<not> display_always_on ?c" by simp
  from timeout_follows_mode [OF this, of False Idle ?s] show ?thesis by (simp add: Let_def split_beta)
qed

text \<open>A boot always succeeds, and takes the always-on preference from its key.\<close>

lemma boot_always_on:
  assumes on: "holds_prefix (dc34 s) DC34_ALWAYS_ON [v]"
  shows "\<exists>c mode s'. config_init dev cold measured d1 d2 s = Some (c, mode, s') \<and> display_always_on c = (v \<noteq> 0)"
proof -
  obtain k kl da where a: "read_pddb DC34_SECRET (replicate 32 0) (dc34 s) = (k, kl, da)" by (metis prod_cases3)
  obtain t tl db where b: "read_pddb DC34_TOUR [0] da = (t, tl, db)" by (metis prod_cases3)
  obtain u ul dc where c: "read_pddb DC34_TOKEN_TOUR [0] db = (u, ul, dc)" by (metis prod_cases3)
  obtain code cl dd where d: "read_pddb DC34_BADGE [badge_code NoBadge] dc = (code, cl, dd)" by (metis prod_cases3)
  let ?stored = "if cl \<noteq> 0 then badge_or_none (code ! 0) else NoBadge"
  obtain bt att where cls: "classify ?stored cl measured (k = replicate 32 0 \<or> kl \<noteq> 32) = (bt, att)" by fastforce
  note keep = holds_read_eq [OF d] holds_read_eq [OF c] holds_read_eq [OF b] holds_read_eq [OF a]
  have od: "holds_prefix dd DC34_ALWAYS_ON [v]" by (intro keep on)
  obtain x y where ini:
      "init_light_gene measured d1 d2 dd = Some (save_light_gene (Diploid x y) (dict_write DC34_BADGE [badge_code measured] dd))"
    using init_light_gene_total by blast
  have "\<exists>de. (if att = FirstMate then init_light_gene measured d1 d2 dd else Some dd) = Some de
      \<and> holds_prefix de DC34_ALWAYS_ON [v]"
    using od by (simp add: ini save_light_gene_def holds_write_other)
  then obtain de where de: "(if att = FirstMate then init_light_gene measured d1 d2 dd else Some dd) = Some de"
      and ode: "holds_prefix de DC34_ALWAYS_ON [v]" by blast
  obtain g df where f: "get_light_gene de = (g, df)" by fastforce
  have odf: "holds_prefix df DC34_ALWAYS_ON [v]" using get_light_gene_dict [OF ode] f by simp
  have e: "read_pddb DC34_ALWAYS_ON [1] df = ([v], 1, df)" using read_holds [OF odf, of "[1]"] by simp
  obtain f1 fl dh where h: "read_pddb DC34_ANIM_FPS [10] df = (f1, fl, dh)" by (metis prod_cases3)
  show ?thesis
    unfolding config_init_def Let_def a b c d cls prod.case de option.case f e h by simp
qed

text \<open>the always-on preference persists.  Toggling it changes the value in force, toggling twice
  restores it, and every boot after a toggle starts with the toggled value.\<close>

theorem always_on_survives_reboot:
  "(let (on, c', s') = toggle_always_on (c, s) in
       on = (\<not> display_always_on c) \<and> display_always_on c' = on
     \<and> display_always_on (fst (snd (toggle_always_on (c', s')))) = display_always_on c
     \<and> (\<exists>c2 mode s2. config_init dev cold measured d1 d2 s' = Some (c2, mode, s2) \<and> display_always_on c2 = on))"
proof -
  let ?s = "snd (snd (toggle_always_on (c, s)))"
  have "holds_prefix (dc34 ?s) DC34_ALWAYS_ON [if \<not> display_always_on c then 1 else 0]"
    by (simp add: toggle_always_on_def put_key_def Let_def)
  from boot_always_on [OF this, of dev cold measured d1 d2] show ?thesis
    by (auto simp: toggle_always_on_def Let_def)
qed

section \<open>Lemmas: nonces and gametes\<close>

definition good_nonce :: "bytes option \<Rightarrow> bytes \<Rightarrow> bool" where
  "good_nonce prev n \<longleftrightarrow> n \<noteq> take 12 DC34_HEADER \<and> prev \<noteq> Some n"

lemma draw_nonce_step:
  "draw_nonce prev draws i = (if good_nonce prev (draws i) then Some (draws i) else draw_nonce prev draws (Suc i))"
  by (subst draw_nonce.simps) (auto simp: good_nonce_def split: option.splits)

lemma draw_nonce_finds:
  "good_nonce prev (draws (i + k)) \<Longrightarrow> \<forall>j<k. \<not> good_nonce prev (draws (i + j)) \<Longrightarrow>
   draw_nonce prev draws i = Some (draws (i + k))"
proof (induction k arbitrary: i)
  case 0
  then show ?case by (simp add: draw_nonce_step)
next
  case (Suc k)
  have "\<not> good_nonce prev (draws i)" using Suc.prems(2) by force
  moreover have "draw_nonce prev draws (Suc i) = Some (draws (Suc i + k))"
    using Suc.prems by (intro Suc.IH) (auto dest: spec [of _ "Suc _"])
  ultimately show ?case by (simp add: draw_nonce_step [of _ _ i])
qed

lemma draw_nonce_first:
  assumes "draw_nonce prev draws i = Some n"
  shows "\<exists>k. n = draws (i + k) \<and> good_nonce prev n \<and> (\<forall>j<k. \<not> good_nonce prev (draws (i + j)))"
proof (rule draw_nonce.raw_induct [OF _ assms])
  fix f and prev :: "bytes option" and draws :: "nat \<Rightarrow> bytes" and i n
  assume IH: "\<And>prev draws i n. f prev draws i = Some n \<Longrightarrow> \<exists>k. n = draws (i + k) \<and> good_nonce prev n
      \<and> (\<forall>j<k. \<not> good_nonce prev (draws (i + j)))"
    and body: "(if draws i = take 12 DC34_HEADER then f prev draws (Suc i)
      else case prev of Some p \<Rightarrow> if p \<noteq> draws i then Some (draws i) else f prev draws (Suc i)
           | None \<Rightarrow> Some (draws i)) = Some n"
  show "\<exists>k. n = draws (i + k) \<and> good_nonce prev n \<and> (\<forall>j<k. \<not> good_nonce prev (draws (i + j)))"
  proof (cases "good_nonce prev (draws i)")
    case True
    then have "n = draws i" using body by (auto simp: good_nonce_def split: option.splits if_splits)
    then show ?thesis using True by (intro exI [of _ 0]) simp
  next
    case False
    then have "f prev draws (Suc i) = Some n"
      using body by (auto simp: good_nonce_def split: option.splits if_splits)
    then obtain k where k: "n = draws (Suc i + k)" "good_nonce prev n" "\<forall>j<k. \<not> good_nonce prev (draws (Suc i + j))"
      using IH by blast
    have "\<not> good_nonce prev (draws (i + j))" if "j < Suc k" for j
      using that False k(3) by (cases j) auto
    then show ?thesis using k(1,2) by (intro exI [of _ "Suc k"]) auto
  qed
qed

lemma draw_nonce_returns:
  assumes "good_nonce prev (draws i)"
  shows "draw_nonce prev draws 0 \<noteq> None"
proof -
  let ?i = "LEAST i. good_nonce prev (draws i)"
  have "draw_nonce prev draws 0 = Some (draws (0 + ?i))"
    using LeastI [of "\<lambda>i. good_nonce prev (draws i)", OF assms] not_less_Least
    by (intro draw_nonce_finds) auto
  then show ?thesis by simp
qed

text \<open>C34: nonces are fresh and never look like a header.  The loop returns if and only if some draw is
  acceptable, and then the first acceptable one: it differs from the previous nonce and from
  the start of the protocol header, so a challenge's nonce is never mistaken for a header.\<close>

theorem nonce_fresh:
  "(draw_nonce prev draws 0 \<noteq> None \<longleftrightarrow> (\<exists>i. good_nonce prev (draws i)))
   \<and> (\<forall>n. draw_nonce prev draws 0 = Some n \<longrightarrow>
        n \<noteq> take 12 DC34_HEADER \<and> prev \<noteq> Some n \<and> (\<exists>i. n = draws i \<and> (\<forall>j<i. \<not> good_nonce prev (draws j))))"
proof -
  have "draw_nonce prev draws 0 \<noteq> None" if "good_nonce prev (draws i)" for i
    using that by (rule draw_nonce_returns)
  then show ?thesis using draw_nonce_first [of prev draws 0]
    by (auto simp: good_nonce_def)
qed

theorem nonce_fresh_witness:
  "\<exists>n. draw_nonce None (\<lambda>_. replicate 12 1) 0 = Some n \<and> n \<noteq> take 12 DC34_HEADER"
proof -
  have "good_nonce None (replicate 12 1)" by code_simp
  then show ?thesis using nonce_fresh [of None "\<lambda>_. replicate 12 1"] by auto
qed

text \<open>a gamete on the wire is sixteen bytes: a viable genome drawn from the badge's own gene, and
  the badge type in the last byte.\<close>

theorem padded_gamete_wire:
  assumes "gene_cache c = Some g" and "viable_d g"
  shows "\<exists>bs h. get_padded_gamete dm dmut c = Some bs \<and> length bs = 16
     \<and> h_deserialize (take 9 bs) = Some h \<and> viable h \<and> h = mutate (meiosis g dm) (final_rate c) dmut
     \<and> badge_try_from (bs ! 15) = Inr (badge_type_of c)"
proof -
  let ?h = "mutate (meiosis g dm) (final_rate c) dmut"
  have "get_padded_gamete dm dmut c = Some (h_serialize ?h @ replicate 6 0 @ [badge_code (badge_type_of c)])"
    using assms(1) by (simp add: get_padded_gamete_def Let_def)
  moreover have "viable ?h" by (rule viable_mutate [OF viable_meiosis [OF assms(2)]])
  ultimately show ?thesis by (simp add: codec nth_append)
qed

theorem padded_gamete_wire_witness:
  "\<exists>bs. get_padded_gamete (\<lambda>_. 0) (\<lambda>_. 0)
     \<lparr>is_developer = False, attach_state_of = Matched, was_cold_boot = True, k0 = [], skip_tour = True,
       skip_token_tour = True, badge_type_of = Human, display_fade_cache = False,
       gene_cache = Some (Diploid disco_phenotype rainbow_phenotype),
       prior_gene = None, mutation_rate_of = Baseline, final_rate = Baseline, nonce_mine = None,
       previous_mode = Some Idle, display_always_on = False\<rparr> = Some bs \<and> length bs = 16"
proof -
  let ?c = "\<lparr>is_developer = False, attach_state_of = Matched, was_cold_boot = True, k0 = [], skip_tour = True,
     skip_token_tour = True, badge_type_of = Human, display_fade_cache = False,
     gene_cache = Some (Diploid disco_phenotype rainbow_phenotype), prior_gene = None,
     mutation_rate_of = Baseline, final_rate = Baseline, nonce_mine = None, previous_mode = Some Idle,
     display_always_on = False\<rparr> :: config"
  have "gene_cache ?c = Some (Diploid disco_phenotype rainbow_phenotype)" by simp
  moreover have "viable_d (Diploid disco_phenotype rainbow_phenotype)"
    by (simp add: viable_d_def viable_def disco_phenotype_def rainbow_phenotype_def)
  ultimately show ?thesis using padded_gamete_wire [of ?c] by blast
qed

text \<open>a new pattern can be undone once.  Reverting after a replacement brings back the gene from
  before it, a second revert changes nothing, and a replacement when there was no gene cannot
  be undone.\<close>

theorem revert_undoes_replace:
  "gene_cache (replace_gene egg sperm c) = Some (Diploid egg sperm)
   \<and> (if gene_cache c = None then revert_gene (replace_gene egg sperm c) = replace_gene egg sperm c
      else gene_cache (revert_gene (replace_gene egg sperm c)) = gene_cache c)
   \<and> revert_gene (revert_gene (replace_gene egg sperm c)) = revert_gene (replace_gene egg sperm c)"
  by (auto simp: replace_gene_def revert_gene_def split: option.splits)

text \<open>fading follows the preference.  Whatever sequence of requests is made while always-on is
  set, no request to fade reaches the power manager; with it off, a message is sent exactly when
  the state changes, so the last message sent always tells the cached state.\<close>

theorem fading_follows_preference:
  "(let (c', s') = display_fading enable (c, s) in
     display_fade_cache c' = (enable \<and> \<not> display_always_on c)
   \<and> sent s' = sent s @ (if display_fade_cache c = display_fade_cache c' then []
        else [PowerMsg SetFadeMode (Scalar \<lparr>arg1 = (if display_fade_cache c' then 1 else 0), arg2 = 0, arg3 = 0, arg4 = 0\<rparr>)])
   \<and> snd (the (pwr_step env SetFadeMode (Scalar \<lparr>arg1 = (if display_fade_cache c' then 1 else 0), arg2 = 0, arg3 = 0, arg4 = 0\<rparr>) st))
       = [LedFade (display_fade_cache c')])"
  by (auto simp: display_fading_def send_sys_def Let_def)

end
