(* ===== verification/Item_Cache.thy ===== *)
theory Item_Cache
  imports Badge_Prelude Badge_Config "HOL-Library.List_Lexorder" "HOL-Library.Char_ord" "HOL-Library.Product_Lexorder"
begin

text \<open>
  The display lists of the vault (\<open>src/itemcache.rs\<close>): items ordered by lower-cased name and
  identifier in a vector that is sorted lazily, unique insertion, removal and lookup by binary
  search, and the prefix filter that selects a range of the vector.  The binary search of the
  standard library is written out; what the lists need of it is the contract of a locale.
\<close>

section \<open>Keys and items\<close>

datatype list_key = ListKey (key_name: string) (key_guid: string)

text \<open>Keys are compared by name, then by identifier.\<close>

definition key_parts :: "list_key \<Rightarrow> string \<times> string" where
  "key_parts k = (key_name k, key_guid k)"

instantiation list_key :: linorder
begin

definition less_eq_list_key :: "list_key \<Rightarrow> list_key \<Rightarrow> bool" where
  "less_eq_list_key a b \<longleftrightarrow> key_parts a \<le> key_parts b"

definition less_list_key :: "list_key \<Rightarrow> list_key \<Rightarrow> bool" where
  "less_list_key a b \<longleftrightarrow> key_parts a < key_parts b"

instance
  by standard (auto simp: less_eq_list_key_def less_list_key_def key_parts_def list_key.expand)

end

definition key_from_parts :: "string \<Rightarrow> string \<Rightarrow> list_key" where
  "key_from_parts name guid = ListKey (to_lower name) guid"

record list_item =
  item_name :: string
  sortable_name :: string
  item_extra :: string
  item_guid :: string
  item_atime :: u64
  item_count :: u64

definition item_key :: "list_item \<Rightarrow> list_key" where
  "item_key i = ListKey (sortable_name i) (item_guid i)"

definition item_new :: "string \<Rightarrow> string \<Rightarrow> string \<Rightarrow> u64 \<Rightarrow> u64 \<Rightarrow> list_item" where
  "item_new name extra guid atime count =
     \<lparr>item_name = name, sortable_name = to_lower name, item_extra = extra, item_guid = guid,
      item_atime = atime, item_count = count\<rparr>"

definition item_db_key :: "string \<Rightarrow> string \<Rightarrow> string" where
  "item_db_key name guid = to_lower name @ guid"

definition name_clear :: "list_item \<Rightarrow> list_item" where
  "name_clear i = i\<lparr>item_name := [], sortable_name := []\<rparr>"

definition name_push_str :: "string \<Rightarrow> list_item \<Rightarrow> list_item" where
  "name_push_str n i = i\<lparr>item_name := item_name i @ n, sortable_name := sortable_name i @ to_lower n\<rparr>"

section \<open>Binary search\<close>

datatype ordering = Less | Equal | Greater

definition cmp :: "'a::linorder \<Rightarrow> 'a \<Rightarrow> ordering" where
  "cmp a b = (if a < b then Less else if a = b then Equal else Greater)"

text \<open>\<open>slice::binary_search_by\<close>: \<open>Inl i\<close> is \<open>Ok(i)\<close>, \<open>Inr i\<close> is \<open>Err(i)\<close>.\<close>

function bs_loop :: "('a \<Rightarrow> ordering) \<Rightarrow> 'a list \<Rightarrow> nat \<Rightarrow> nat \<Rightarrow> nat" where
  "bs_loop f xs base n =
     (if n > 1
      then let half = n div 2; mid = base + half
           in bs_loop f xs (if f (xs ! mid) = Greater then base else mid) (n - half)
      else base)"
  by pat_completeness auto
termination by (relation "measure (\<lambda>(f, xs, base, n). n)") auto

declare bs_loop.simps [simp del]

definition binary_search_by :: "('a \<Rightarrow> ordering) \<Rightarrow> 'a list \<Rightarrow> nat + nat" where
  "binary_search_by f xs =
     (if xs = [] then Inr 0
      else let base = bs_loop f xs 0 (length xs)
           in case f (xs ! base) of Equal \<Rightarrow> Inl base | Less \<Rightarrow> Inr (base + 1) | Greater \<Rightarrow> Inr base)"

text \<open>What a list whose elements compare as Less, then Equal, then Greater may rely on.\<close>

definition partitioned :: "('a \<Rightarrow> ordering) \<Rightarrow> 'a list \<Rightarrow> bool" where
  "partitioned f xs \<longleftrightarrow> (\<forall>i j. i < j \<and> j < length xs \<longrightarrow>
     (f (xs ! j) = Less \<longrightarrow> f (xs ! i) = Less) \<and> (f (xs ! i) = Greater \<longrightarrow> f (xs ! j) = Greater))"

lemma partitioned_Greater:
  "partitioned f xs \<Longrightarrow> f (xs ! i) = Greater \<Longrightarrow> i \<le> j \<Longrightarrow> j < length xs \<Longrightarrow> f (xs ! j) = Greater"
  unfolding partitioned_def by (metis le_neq_implies_less)

lemma partitioned_Less:
  "partitioned f xs \<Longrightarrow> f (xs ! i) = Less \<Longrightarrow> j \<le> i \<Longrightarrow> i < length xs \<Longrightarrow> f (xs ! j) = Less"
  unfolding partitioned_def by (metis le_neq_implies_less)

locale slice_search =
  fixes search :: "('a \<Rightarrow> ordering) \<Rightarrow> 'a list \<Rightarrow> nat + nat"
  assumes found: "partitioned f xs \<Longrightarrow> search f xs = Inl i \<Longrightarrow> i < length xs \<and> f (xs ! i) = Equal"
    and not_found: "partitioned f xs \<Longrightarrow> search f xs = Inr i \<Longrightarrow> i \<le> length xs
      \<and> (\<forall>j<i. f (xs ! j) = Less) \<and> (\<forall>j. i \<le> j \<and> j < length xs \<longrightarrow> f (xs ! j) = Greater)"
begin

lemma found_iff:
  assumes "partitioned f xs"
  shows "(\<exists>i. search f xs = Inl i) \<longleftrightarrow> (\<exists>x \<in> set xs. f x = Equal)"
proof
  assume "\<exists>i. search f xs = Inl i"
  then show "\<exists>x \<in> set xs. f x = Equal" using found [OF assms] nth_mem by blast
next
  assume "\<exists>x \<in> set xs. f x = Equal"
  then obtain j where j: "j < length xs" "f (xs ! j) = Equal" by (auto simp: in_set_conv_nth)
  show "\<exists>i. search f xs = Inl i"
  proof (cases "search f xs")
    case (Inr i)
    then show ?thesis using not_found [OF assms Inr] j by (cases "j < i") auto
  qed blast
qed

text \<open>Inserting at the place reported keeps a list sorted by the key compared.\<close>

lemma sorted_insert_at:
  fixes key :: "'a \<Rightarrow> 'k::linorder"
  assumes s: "sorted (map key xs)" and part: "partitioned (\<lambda>p. cmp (key p) k) xs"
    and nf: "search (\<lambda>p. cmp (key p) k) xs = Inr i" and k: "key x = k"
  shows "sorted (map key (take i xs @ x # drop i xs)) \<and> k \<notin> key ` set xs"
proof -
  have less: "key (xs ! j) < k" if "j < i" for j
    using not_found [OF part nf] that by (auto simp: cmp_def split: if_splits)
  have greater: "k < key (xs ! j)" if "i \<le> j" "j < length xs" for j
    using not_found [OF part nf] that by (auto simp: cmp_def split: if_splits) (metis linorder_neqE ordering.distinct)
  have i: "i \<le> length xs" using not_found [OF part nf] by blast
  have lo: "\<forall>y \<in> set (take i xs). key y < k" using less i by (auto simp: in_set_conv_nth)
  have hi: "\<forall>y \<in> set (drop i xs). k < key y" using greater i by (auto simp: in_set_conv_nth)
  have "sorted (map key (take i xs))" "sorted (map key (drop i xs))"
    using s by (simp_all add: sorted_wrt_take sorted_wrt_drop flip: take_map drop_map)
  moreover have "\<forall>a \<in> key ` set (take i xs). \<forall>b \<in> key ` set (drop i xs). a \<le> b"
    using lo hi by (blast intro: less_imp_le less_trans)
  moreover have "\<forall>a \<in> key ` set (take i xs). a \<le> k" "\<forall>b \<in> key ` set (drop i xs). k \<le> b"
    using lo hi by (auto simp: less_imp_le)
  ultimately have "sorted (map key (take i xs @ x # drop i xs))"
    using k by (simp add: sorted_append)
  moreover have "k \<notin> key ` (set (take i xs) \<union> set (drop i xs))" using lo hi by fastforce
  ultimately show ?thesis by (metis append_take_drop_id set_append)
qed

end

lemma bs_loop_bounds:
  assumes part: "partitioned f xs"
  shows "\<lbrakk>1 \<le> n; base + n \<le> length xs; 0 < base \<longrightarrow> f (xs ! base) \<noteq> Greater;
    \<forall>j. base + n \<le> j \<and> j < length xs \<longrightarrow> f (xs ! j) = Greater\<rbrakk> \<Longrightarrow>
   base \<le> bs_loop f xs base n \<and> bs_loop f xs base n < base + n
     \<and> (0 < bs_loop f xs base n \<longrightarrow> f (xs ! bs_loop f xs base n) \<noteq> Greater)
     \<and> (\<forall>j. bs_loop f xs base n < j \<and> j < length xs \<longrightarrow> f (xs ! j) = Greater)"
proof (induction n arbitrary: base rule: less_induct)
  case (less n)
  show ?case
  proof (cases "n > 1")
    case False
    then show ?thesis using less.prems by (subst (1 2 3 4 5) bs_loop.simps) auto
  next
    case True
    define half mid where "half = n div 2" and "mid = base + half"
    have h: "1 \<le> half" "n - half < n" "1 \<le> n - half" "half \<le> n - half" using True by (auto simp: half_def)
    have mid: "mid < length xs" using h less.prems(2) by (simp add: mid_def)
    define base' where "base' = (if f (xs ! mid) = Greater then base else mid)"
    have unfold: "bs_loop f xs base n = bs_loop f xs base' (n - half)"
      using True by (subst bs_loop.simps) (simp add: Let_def base'_def half_def mid_def)
    have top: "base \<le> base'" "base' + (n - half) \<le> base + n"
      using h less.prems(2) by (auto simp: base'_def mid_def)
    have after: "f (xs ! j) = Greater" if "base' + (n - half) \<le> j" "j < length xs" for j
    proof (cases "f (xs ! mid) = Greater")
      case True
      then have "mid \<le> j" using that(1) h by (simp add: base'_def mid_def)
      then show ?thesis using partitioned_Greater [OF part True _ that(2)] by blast
    next
      case False
      then show ?thesis using that less.prems(2,4) h by (simp add: base'_def mid_def)
    qed
    have here: "0 < base' \<longrightarrow> f (xs ! base') \<noteq> Greater" using less.prems(3) by (simp add: base'_def)
    have "base' + (n - half) \<le> length xs" using top less.prems(2) by linarith
    from less.IH [OF h(2) h(3) this here] after top show ?thesis unfolding unfold by fastforce
  qed
qed

interpretation slices: slice_search binary_search_by
proof
  fix f :: "'a \<Rightarrow> ordering" and xs :: "'a list" and i
  assume part: "partitioned f xs"
  let ?b = "bs_loop f xs 0 (length xs)"
  have b: "?b < length xs" "0 < ?b \<longrightarrow> f (xs ! ?b) \<noteq> Greater" "\<forall>j. ?b < j \<and> j < length xs \<longrightarrow> f (xs ! j) = Greater"
    if "xs \<noteq> []"
  proof -
    have one: "1 \<le> length xs" using that by (simp add: Suc_le_eq)
    have all: "\<forall>j. 0 + length xs \<le> j \<and> j < length xs \<longrightarrow> f (xs ! j) = Greater" by auto
    have "0 + length xs \<le> length xs" "0 < (0::nat) \<longrightarrow> f (xs ! 0) \<noteq> Greater" by simp_all
    from bs_loop_bounds [OF part one this all]
    show "?b < length xs" "0 < ?b \<longrightarrow> f (xs ! ?b) \<noteq> Greater" "\<forall>j. ?b < j \<and> j < length xs \<longrightarrow> f (xs ! j) = Greater"
      unfolding add_0 by blast+
  qed
  show "i < length xs \<and> f (xs ! i) = Equal" if "binary_search_by f xs = Inl i"
    using that b by (auto simp: binary_search_by_def Let_def split: if_splits ordering.splits)
  show "i \<le> length xs \<and> (\<forall>j<i. f (xs ! j) = Less) \<and> (\<forall>j. i \<le> j \<and> j < length xs \<longrightarrow> f (xs ! j) = Greater)"
    if r: "binary_search_by f xs = Inr i"
  proof (cases "xs = []")
    case True
    then show ?thesis using r by (simp add: binary_search_by_def)
  next
    case False
    note b = b [OF False]
    have "f (xs ! ?b) = Less \<and> i = ?b + 1 \<or> f (xs ! ?b) = Greater \<and> i = 0 \<and> ?b = 0"
      using r b False by (auto simp: binary_search_by_def Let_def split: ordering.splits)
    then show ?thesis
    proof
      assume l: "f (xs ! ?b) = Less \<and> i = ?b + 1"
      then have "f (xs ! j) = Less" if "j < i" for j
        using that partitioned_Less [OF part, of ?b j] b(1) by simp
      then show ?thesis using l b by auto
    next
      assume g: "f (xs ! ?b) = Greater \<and> i = 0 \<and> ?b = 0"
      then have "f (xs ! j) = Greater" if "j < length xs" for j
        using that b(3) by (cases j) auto
      then show ?thesis using g by auto
    qed
  qed
qed

section \<open>Filtered lists\<close>

record list_view =
  items :: "list_item list"
  is_sorted :: bool
  items_per_screen :: nat
  filter_range :: "(nat \<times> nat) option"

definition view_new :: list_view where
  "view_new = \<lparr>items = [], is_sorted = False, items_per_screen = 1, filter_range = None\<rparr>"

definition find_by_name :: "string \<Rightarrow> list_view \<Rightarrow> list_item list" where
  "find_by_name n v = filter (\<lambda>i. item_name i = n) (items v)"

definition is_db_empty :: "list_view \<Rightarrow> bool" where
  "is_db_empty v \<longleftrightarrow> length (items v) = 0"

definition view_push :: "list_item \<Rightarrow> list_view \<Rightarrow> list_view" where
  "view_push i v = v\<lparr>items := items v @ [i], is_sorted := False\<rparr>"

definition view_clear :: "list_view \<Rightarrow> list_view" where
  "view_clear v = v\<lparr>items := [], is_sorted := False, filter_range := None\<rparr>"

definition set_items_per_screen :: "nat \<Rightarrow> list_view \<Rightarrow> list_view" where
  "set_items_per_screen n v = v\<lparr>items_per_screen := (if n = 0 then 1 else n)\<rparr>"

text \<open>The lazy sort: \<open>Vec::sort\<close> is stable and compares keys.\<close>

definition ensure_sorted :: "list_view \<Rightarrow> list_view" where
  "ensure_sorted v = (if is_sorted v then v else v\<lparr>items := sort_key item_key (items v), is_sorted := True\<rparr>)"

abbreviation probe_key :: "list_key \<Rightarrow> list_item \<Rightarrow> ordering" where
  "probe_key k \<equiv> \<lambda>p. cmp (item_key p) k"

definition insert_unique :: "list_item \<Rightarrow> list_view \<Rightarrow> list_item option \<times> list_view" where
  "insert_unique item v =
     (let v1 = (ensure_sorted v)\<lparr>filter_range := None\<rparr>; xs = items v1
      in case binary_search_by (probe_key (item_key item)) xs of
           Inl i \<Rightarrow> (Some (xs ! i), v1\<lparr>items := xs[i := item]\<rparr>)
         | Inr i \<Rightarrow> (None, v1\<lparr>items := take i xs @ item # drop i xs\<rparr>))"

definition view_remove :: "list_key \<Rightarrow> list_view \<Rightarrow> list_item option \<times> list_view" where
  "view_remove k v =
     (let v1 = (ensure_sorted v)\<lparr>filter_range := None\<rparr>; xs = items v1
      in case binary_search_by (probe_key k) xs of
           Inl i \<Rightarrow> (Some (xs ! i), v1\<lparr>items := take i xs @ drop (Suc i) xs\<rparr>)
         | Inr _ \<Rightarrow> (None, v1))"

definition view_get :: "list_key \<Rightarrow> list_view \<Rightarrow> list_item option \<times> list_view" where
  "view_get k v =
     (let v1 = ensure_sorted v
      in (case binary_search_by (probe_key k) (items v1) of Inl i \<Rightarrow> Some (items v1 ! i) | Inr _ \<Rightarrow> None, v1))"

definition starts_with :: "string \<Rightarrow> string \<Rightarrow> bool" where
  "starts_with p s \<longleftrightarrow> take (length p) s = p"

definition name_matches :: "string \<Rightarrow> list_item \<Rightarrow> bool" where
  "name_matches p i \<longleftrightarrow> starts_with p (to_lower (item_name i))"

definition filter_reset :: "list_view \<Rightarrow> list_view" where
  "filter_reset v = v\<lparr>filter_range := Some (0, length (items v))\<rparr>"

text \<open>The backward walk stops at index 1: \<open>index.saturating_sub(1) > 0\<close>.\<close>

fun walk_back :: "string \<Rightarrow> list_item list \<Rightarrow> nat \<Rightarrow> nat" where
  "walk_back p xs 0 = 0"
| "walk_back p xs (Suc i) = (if i > 0 \<and> name_matches p (xs ! i) then walk_back p xs i else Suc i)"

definition walk_end :: "string \<Rightarrow> list_item list \<Rightarrow> nat \<Rightarrow> nat" where
  "walk_end p xs i = i + 1 + length (takeWhile (name_matches p) (drop (i + 1) xs))"

definition view_filter :: "string \<Rightarrow> list_view \<Rightarrow> list_view" where
  "view_filter p v =
     (let v1 = ensure_sorted v; xs = items v1
      in if length p = 0 then filter_reset v1
         else if length xs = 0 then v1
         else (case binary_search_by (\<lambda>i. cmp (sortable_name i) p) xs of r \<Rightarrow>
           let index = (case r of Inl i \<Rightarrow> i | Inr i \<Rightarrow> i)
           in if \<not> name_matches p (xs ! min index (length xs - 1)) then v1\<lparr>filter_range := None\<rparr>
              else let start = walk_back p xs index
                   in v1\<lparr>filter_range := Some (start, walk_end p xs start)\<rparr>))"

definition filter_len :: "list_view \<Rightarrow> nat" where
  "filter_len v = (case filter_range v of Some (a, b) \<Rightarrow> b - a | None \<Rightarrow> 0)"

text \<open>\<open>None\<close> is the panic of slicing with a range that does not fit.\<close>

definition filtered_list :: "list_view \<Rightarrow> list_item list option" where
  "filtered_list v = (case filter_range v of None \<Rightarrow> Some (items v)
     | Some (a, b) \<Rightarrow> if a \<le> b \<and> b \<le> length (items v) then Some (take (b - a) (drop a (items v))) else None)"

section \<open>The lists of the vault\<close>

record item_lists =
  totp_list :: list_view
  pw_list :: list_view
  idle_list :: list_view

definition lists_new :: item_lists where
  "lists_new = \<lparr>totp_list = view_new, pw_list = view_new, idle_list = view_new\<rparr>"

fun li :: "vault_mode \<Rightarrow> item_lists \<Rightarrow> list_view" where
  "li Totp ls = totp_list ls"
| "li Password ls = pw_list ls"
| "li _ ls = idle_list ls"

fun li_update :: "vault_mode \<Rightarrow> (list_view \<Rightarrow> list_view) \<Rightarrow> item_lists \<Rightarrow> item_lists" where
  "li_update Totp f ls = ls\<lparr>totp_list := f (totp_list ls)\<rparr>"
| "li_update Password f ls = ls\<lparr>pw_list := f (pw_list ls)\<rparr>"
| "li_update _ f ls = ls\<lparr>idle_list := f (idle_list ls)\<rparr>"

definition lists_insert_unique :: "vault_mode \<Rightarrow> list_item \<Rightarrow> item_lists \<Rightarrow> list_item option \<times> item_lists" where
  "lists_insert_unique m i ls = (fst (insert_unique i (li m ls)), li_update m (\<lambda>v. snd (insert_unique i v)) ls)"

definition lists_remove :: "vault_mode \<Rightarrow> list_key \<Rightarrow> item_lists \<Rightarrow> list_item option \<times> item_lists" where
  "lists_remove m k ls = (fst (view_remove k (li m ls)), li_update m (\<lambda>v. snd (view_remove k v)) ls)"

definition lists_set_items_per_screen :: "nat \<Rightarrow> item_lists \<Rightarrow> item_lists" where
  "lists_set_items_per_screen n ls =
     ls\<lparr>totp_list := set_items_per_screen n (totp_list ls), pw_list := set_items_per_screen n (pw_list ls)\<rparr>"

definition lists_clear_all :: "item_lists \<Rightarrow> item_lists" where
  "lists_clear_all ls = ls\<lparr>pw_list := view_clear (pw_list ls), totp_list := view_clear (totp_list ls)\<rparr>"

section \<open>Abstract view\<close>

text \<open>A list stands for a finite map from keys to items.\<close>

definition view_map :: "list_view \<Rightarrow> list_key \<rightharpoonup> list_item" where
  "view_map v = map_of (map (\<lambda>i. (item_key i, i)) (items v))"

definition view_ok :: "list_view \<Rightarrow> bool" where
  "view_ok v \<longleftrightarrow> distinct (map item_key (items v)) \<and> (is_sorted v \<longrightarrow> sorted (map item_key (items v)))
     \<and> (\<forall>i \<in> set (items v). sortable_name i = to_lower (item_name i))"

definition range_ok :: "list_view \<Rightarrow> bool" where
  "range_ok v \<longleftrightarrow> (case filter_range v of None \<Rightarrow> True | Some (a, b) \<Rightarrow> a \<le> b \<and> b \<le> length (items v))"

section \<open>Lemmas: lists as maps\<close>

lemma cmp_simps [simp]:
  "cmp a b = Less \<longleftrightarrow> a < b" "cmp a b = Equal \<longleftrightarrow> a = b" "cmp a b = Greater \<longleftrightarrow> b < a"
  for a b :: "'a::linorder"
  by (auto simp: cmp_def)

lemma partitioned_sorted:
  fixes key :: "'a \<Rightarrow> 'k::linorder"
  assumes "sorted (map key xs)"
  shows "partitioned (\<lambda>p. cmp (key p) k) xs"
  using assms by (auto simp: partitioned_def sorted_wrt_iff_nth_less) (meson le_less_trans less_le_trans)+

lemma ensure_sorted_map [simp]: "view_ok v \<Longrightarrow> view_map (ensure_sorted v) = view_map v"
proof -
  assume ok: "view_ok v"
  have "map_of (map (\<lambda>i. (item_key i, i)) (sort_key item_key (items v))) = map_of (map (\<lambda>i. (item_key i, i)) (items v))"
    using ok by (intro map_of_inject_set [THEN iffD2])
      (auto simp: view_ok_def comp_def distinct_map)
  then show ?thesis by (simp add: view_map_def ensure_sorted_def)
qed

lemma ensure_sorted_ok:
  assumes "view_ok v"
  shows "view_ok (ensure_sorted v) \<and> is_sorted (ensure_sorted v) \<and> sorted (map item_key (items (ensure_sorted v)))
     \<and> filter_range (ensure_sorted v) = filter_range v \<and> length (items (ensure_sorted v)) = length (items v)"
  using assms by (auto simp: view_ok_def ensure_sorted_def distinct_map)

lemma view_map_eq_Some: "view_ok v \<Longrightarrow> view_map v k = Some i \<longleftrightarrow> i \<in> set (items v) \<and> item_key i = k"
  by (auto simp: view_map_def view_ok_def map_of_eq_Some_iff comp_def)

lemma view_map_None: "view_map v k = None \<longleftrightarrow> k \<notin> item_key ` set (items v)"
  by (auto simp: view_map_def map_of_eq_None_iff image_image)

text \<open>Searching a sorted list of distinct keys finds the binding of the key.\<close>

lemma search_view:
  assumes ok: "view_ok v" and s: "sorted (map item_key (items v))"
  shows "case binary_search_by (probe_key k) (items v) of
     Inl i \<Rightarrow> i < length (items v) \<and> item_key (items v ! i) = k \<and> view_map v k = Some (items v ! i)
   | Inr i \<Rightarrow> i \<le> length (items v) \<and> view_map v k = None"
proof -
  have part: "partitioned (probe_key k) (items v)" by (rule partitioned_sorted [OF s])
  show ?thesis
  proof (cases "binary_search_by (probe_key k) (items v)")
    case (Inl i)
    then show ?thesis using slices.found [OF part Inl] view_map_eq_Some [OF ok] by auto
  next
    case (Inr i)
    then have "\<not> (\<exists>x \<in> set (items v). item_key x = k)" using slices.found_iff [OF part] by auto
    then show ?thesis using Inr slices.not_found [OF part Inr] by (auto simp: view_map_None)
  qed
qed

lemma map_of_keyed_update:
  "distinct (map item_key xs) \<Longrightarrow> i < length xs \<Longrightarrow> item_key (xs ! i) = item_key x \<Longrightarrow>
   map_of (map (\<lambda>i. (item_key i, i)) (xs[i := x])) = (map_of (map (\<lambda>i. (item_key i, i)) xs))(item_key x \<mapsto> x)"
proof (induction xs arbitrary: i)
  case (Cons y ys)
  show ?case
  proof (cases i)
    case 0
    then show ?thesis using Cons.prems by (auto simp: fun_eq_iff)
  next
    case (Suc j)
    then have "item_key y \<noteq> item_key x" using Cons.prems by (metis distinct.simps(2) length_Cons
        list.simps(9) not_less_eq nth_Cons_Suc nth_map nth_mem length_map)
    then show ?thesis using Cons Suc by (auto simp: fun_eq_iff)
  qed
qed simp

lemma map_of_keyed_insert:
  "item_key x \<notin> item_key ` set xs \<Longrightarrow>
   map_of (map (\<lambda>i. (item_key i, i)) (take i xs @ x # drop i xs)) = (map_of (map (\<lambda>i. (item_key i, i)) xs))(item_key x \<mapsto> x)"
proof -
  assume n: "item_key x \<notin> item_key ` set xs"
  have "item_key x \<notin> item_key ` set (take i xs)" using n set_take_subset by fastforce
  then have t: "map_of (map (\<lambda>i. (item_key i, i)) (take i xs)) (item_key x) = None"
    by (auto simp: map_of_eq_None_iff)
  have "map_of (map (\<lambda>i. (item_key i, i)) xs)
      = map_of (map (\<lambda>i. (item_key i, i)) (drop i xs)) ++ map_of (map (\<lambda>i. (item_key i, i)) (take i xs))"
    by (metis append_take_drop_id map_append map_of_append)
  then show ?thesis using t by (auto simp: fun_eq_iff map_add_def split: option.splits)
qed

lemma map_of_keyed_delete:
  "distinct (map item_key xs) \<Longrightarrow> i < length xs \<Longrightarrow>
   map_of (map (\<lambda>i. (item_key i, i)) (take i xs @ drop (Suc i) xs))
     = (map_of (map (\<lambda>i. (item_key i, i)) xs))(item_key (xs ! i) := None)"
proof (induction xs arbitrary: i)
  case (Cons y ys)
  show ?case
  proof (cases i)
    case 0
    have "map_of (map (\<lambda>i. (item_key i, i)) ys) (item_key y) = None"
      using Cons.prems by (auto simp: map_of_eq_None_iff)
    then show ?thesis using 0 by (auto simp: fun_eq_iff)
  next
    case (Suc j)
    then have "item_key y \<noteq> item_key (ys ! j)" using Cons.prems by (metis distinct.simps(2) length_Cons
        list.simps(9) not_less_eq nth_map nth_mem length_map)
    then show ?thesis using Cons Suc by (auto simp: fun_eq_iff)
  qed
qed simp

lemma items_distinct: "view_ok v \<Longrightarrow> distinct (map item_key (items v))"
  by (simp add: view_ok_def)

lemma insert_unique_refines:
  assumes ok: "view_ok v" and n: "sortable_name x = to_lower (item_name x)"
  shows "fst (insert_unique x v) = view_map v (item_key x)
     \<and> view_map (snd (insert_unique x v)) = (view_map v)(item_key x \<mapsto> x) \<and> view_ok (snd (insert_unique x v))"
proof -
  define w where "w = ensure_sorted v"
  have w: "view_ok w" "is_sorted w" "sorted (map item_key (items w))" "view_map w = view_map v"
    using ensure_sorted_ok [OF ok] ok by (simp_all add: w_def)
  note part = partitioned_sorted [OF w(3), of "item_key x"]
  have d: "distinct (map item_key (items w))" by (rule items_distinct [OF w(1)])
  show ?thesis
  proof (cases "binary_search_by (probe_key (item_key x)) (items w)")
    case (Inl i)
    have i: "i < length (items w)" "item_key (items w ! i) = item_key x" "view_map v (item_key x) = Some (items w ! i)"
      using search_view [OF w(1,3), of "item_key x"] Inl w(4) by simp_all
    have keys: "map item_key ((items w)[i := x]) = map item_key (items w)"
      using i by (simp add: map_update list_update_id flip: i(2)) (metis list_update_id nth_map)
    have res: "insert_unique x v = (Some (items w ! i), w\<lparr>filter_range := None, items := (items w)[i := x]\<rparr>)"
      using Inl by (simp add: insert_unique_def w_def Let_def)
    have "set ((items w)[i := x]) \<subseteq> insert x (set (items w))" by (rule set_update_subset_insert)
    then show ?thesis using res i(3) w(1-4) keys n map_of_keyed_update [OF d i(1,2)]
      by (auto simp: view_ok_def view_map_def)
  next
    case (Inr i)
    have none: "view_map v (item_key x) = None"
      using search_view [OF w(1,3), of "item_key x"] Inr w(4) by simp
    have s: "sorted (map item_key (take i (items w) @ x # drop i (items w)))" "item_key x \<notin> item_key ` set (items w)"
      using slices.sorted_insert_at [OF w(3) part Inr refl] by simp_all
    have res: "insert_unique x v = (None, w\<lparr>filter_range := None, items := take i (items w) @ x # drop i (items w)\<rparr>)"
      using Inr by (simp add: insert_unique_def w_def Let_def)
    have set': "set (take i (items w) @ x # drop i (items w)) = insert x (set (items w))"
      by (metis Un_insert_right append_take_drop_id list.simps(15) set_append)
    have "distinct (map item_key (take i (items w)) @ map item_key (drop i (items w)))"
      using d by (metis append_take_drop_id map_append)
    then have "distinct (map item_key (take i (items w) @ x # drop i (items w)))"
      using s(2) set_take_subset [of i "items w"] set_drop_subset [of i "items w"] by fastforce
    then show ?thesis using res none w s(1) n set' map_of_keyed_insert [OF s(2), of i]
      by (auto simp: view_ok_def view_map_def)
  qed
qed

lemma view_remove_refines:
  assumes ok: "view_ok v"
  shows "fst (view_remove k v) = view_map v k
     \<and> view_map (snd (view_remove k v)) = (view_map v)(k := None) \<and> view_ok (snd (view_remove k v))"
proof -
  define w where "w = ensure_sorted v"
  have w: "view_ok w" "is_sorted w" "sorted (map item_key (items w))" "view_map w = view_map v"
    using ensure_sorted_ok [OF ok] ok by (simp_all add: w_def)
  have d: "distinct (map item_key (items w))" by (rule items_distinct [OF w(1)])
  show ?thesis
  proof (cases "binary_search_by (probe_key k) (items w)")
    case (Inl i)
    have i: "i < length (items w)" "item_key (items w ! i) = k" "view_map v k = Some (items w ! i)"
      using search_view [OF w(1,3), of k] Inl w(4) by simp_all
    have res: "view_remove k v = (Some (items w ! i), w\<lparr>filter_range := None, items := take i (items w) @ drop (Suc i) (items w)\<rparr>)"
      using Inl by (simp add: view_remove_def w_def Let_def)
    have split: "items w = take i (items w) @ items w ! i # drop (Suc i) (items w)"
      by (rule id_take_nth_drop [OF i(1)])
    have "distinct (map item_key (take i (items w) @ drop (Suc i) (items w)))"
      using d by (subst (asm) split) auto
    moreover have "sorted (map item_key (take i (items w) @ drop (Suc i) (items w)))"
      using w(3) by (subst (asm) split) (auto simp: sorted_append)
    moreover have "set (take i (items w) @ drop (Suc i) (items w)) \<subseteq> set (items w)"
      using set_take_subset [of i "items w"] set_drop_subset [of "Suc i" "items w"] by auto
    ultimately show ?thesis using res i w map_of_keyed_delete [OF d i(1)]
      by (auto simp: view_ok_def view_map_def)
  next
    case (Inr i)
    have none: "view_map v k = None" using search_view [OF w(1,3), of k] Inr w(4) by simp
    have "view_remove k v = (None, w\<lparr>filter_range := None\<rparr>)"
      using Inr by (simp add: view_remove_def w_def Let_def)
    moreover have "view_map (w\<lparr>filter_range := None\<rparr>) = view_map w" "view_ok (w\<lparr>filter_range := None\<rparr>) = view_ok w"
      by (simp_all add: view_map_def view_ok_def)
    ultimately show ?thesis using none w by (auto simp: fun_eq_iff)
  qed
qed

lemma view_get_refines:
  assumes ok: "view_ok v"
  shows "fst (view_get k v) = view_map v k \<and> view_map (snd (view_get k v)) = view_map v \<and> view_ok (snd (view_get k v))"
proof -
  have w: "view_ok (ensure_sorted v)" "sorted (map item_key (items (ensure_sorted v)))"
    "view_map (ensure_sorted v) = view_map v"
    using ensure_sorted_ok [OF ok] ok by simp_all
  show ?thesis using search_view [OF w(1,2), of k] w
    by (auto simp: view_get_def Let_def split: sum.splits)
qed

section \<open>Lemmas: prefixes in sorted lists\<close>

lemma starts_with_le: "starts_with p s \<Longrightarrow> p \<le> s"
proof -
  assume "starts_with p s"
  then have "s = p @ drop (length p) s" by (metis append_take_drop_id starts_with_def)
  moreover have "p \<le> p @ x" for x :: string by (induction p) auto
  ultimately show "p \<le> s" by metis
qed

lemma starts_with_between: "p \<le> s \<Longrightarrow> s \<le> t \<Longrightarrow> starts_with p t \<Longrightarrow> starts_with p s"
proof (induction p arbitrary: s t)
  case (Cons c p)
  obtain t' where t: "t = c # t'" using Cons.prems(3) by (cases t) (auto simp: starts_with_def)
  obtain d s' where s: "s = d # s'" using Cons.prems(1) by (cases s) auto
  have "d = c" using Cons.prems(1,2) s t by auto
  then have "p \<le> s'" "s' \<le> t'" "starts_with p t'" using Cons.prems s t by (auto simp: starts_with_def)
  then have "starts_with p s'" by (rule Cons.IH)
  then show ?case using s \<open>d = c\<close> by (simp add: starts_with_def)
qed (simp add: starts_with_def)

lemma filter_takeWhile_block:
  "(\<And>a b. a < b \<Longrightarrow> b < length ys \<Longrightarrow> P (ys ! b) \<Longrightarrow> P (ys ! a)) \<Longrightarrow> filter P ys = takeWhile P ys"
proof (induction ys)
  case (Cons y ys)
  have IH: "filter P ys = takeWhile P ys"
    using Cons.prems [of "Suc _" "Suc _"] by (intro Cons.IH) auto
  show ?case
  proof (cases "P y")
    case False
    have "\<not> P (ys ! b)" if "b < length ys" for b
      using Cons.prems [of 0 "Suc b"] that False by auto
    then show ?thesis using False by (auto simp: filter_empty_conv in_set_conv_nth)
  qed (use IH in simp)
qed simp

lemma sorted_names: "sorted (map item_key xs) \<Longrightarrow> sorted (map sortable_name xs)"
  by (auto simp: sorted_wrt_iff_nth_less less_eq_list_key_def key_parts_def item_key_def less_eq_prod_def
      intro: less_imp_le)

lemma walk_back_le: "walk_back p xs i \<le> i"
  by (induction i) (auto intro: le_SucI)

text \<open>Where the search lands in a sorted list.\<close>

lemma search_prefix:
  assumes s: "sorted (map sortable_name xs)" and low: "\<forall>i \<in> set xs. sortable_name i = to_lower (item_name i)"
    and r: "r = binary_search_by (\<lambda>i. cmp (sortable_name i) p) xs"
    and index: "index = (case r of Inl i \<Rightarrow> i | Inr i \<Rightarrow> i)" and ne: "xs \<noteq> []"
  shows "name_matches p (xs ! min index (length xs - 1)) \<Longrightarrow> index < length xs \<and> name_matches p (xs ! index)"
    and "\<exists>x \<in> set xs. name_matches p x \<Longrightarrow> index < length xs \<and> name_matches p (xs ! index)"
    and "j < index \<Longrightarrow> name_matches p (xs ! j) \<Longrightarrow> sortable_name (xs ! j) = p \<and> sortable_name (xs ! index) = p
          \<and> index < length xs"
proof -
  have part: "partitioned (\<lambda>i. cmp (sortable_name i) p) xs" by (rule partitioned_sorted [OF s])
  have m: "name_matches p (xs ! j) \<longleftrightarrow> starts_with p (sortable_name (xs ! j))" if "j < length xs" for j
    using low that by (simp add: name_matches_def)
  have mono: "sortable_name (xs ! a) \<le> sortable_name (xs ! b)" if "a \<le> b" "b < length xs" for a b
    using sorted_nth_mono [OF s, of a b] that by simp
  have self: "starts_with p p" by (simp add: starts_with_def)
  have land: "index < length xs \<and> sortable_name (xs ! index) = p
      \<or> index \<le> length xs \<and> (\<forall>j<index. sortable_name (xs ! j) < p)
        \<and> (\<forall>j. index \<le> j \<and> j < length xs \<longrightarrow> p < sortable_name (xs ! j))"
    using slices.found [OF part] slices.not_found [OF part] r index
    by (cases "binary_search_by (\<lambda>i. cmp (sortable_name i) p) xs") auto
  have below: "\<not> name_matches p (xs ! j)" if "sortable_name (xs ! j) < p" "j < length xs" for j
    using starts_with_le m that by (metis linorder_not_less)
  show "index < length xs \<and> name_matches p (xs ! index)" if hit: "name_matches p (xs ! min index (length xs - 1))"
  proof -
    have "min index (length xs - 1) < length xs" using ne by (cases xs) auto
    then have "\<not> sortable_name (xs ! min index (length xs - 1)) < p" using below hit by blast
    then have "index < length xs" using land ne by (cases "index < length xs") auto
    then show ?thesis using hit by (simp add: min_absorb1)
  qed
  show "index < length xs \<and> name_matches p (xs ! index)" if ex: "\<exists>x \<in> set xs. name_matches p x"
  proof -
    obtain b where b: "b < length xs" "name_matches p (xs ! b)" using ex by (auto simp: in_set_conv_nth)
    show ?thesis
    proof (cases "index < length xs \<and> sortable_name (xs ! index) = p")
      case True
      then show ?thesis using m self by simp
    next
      case False
      then have "index \<le> b" using land below b by (meson linorder_not_le)
      then have i: "index < length xs" using b(1) by simp
      then have "p \<le> sortable_name (xs ! index)" using land by auto
      then have "starts_with p (sortable_name (xs ! index))"
        using starts_with_between mono [OF \<open>index \<le> b\<close> b(1)] b(2) m [OF b(1)] by blast
      then show ?thesis using i m by simp
    qed
  qed
  show "sortable_name (xs ! j) = p \<and> sortable_name (xs ! index) = p \<and> index < length xs"
    if "j < index" "name_matches p (xs ! j)"
  proof -
    have j: "j < length xs" using that(1) land by auto
    then have "\<not> sortable_name (xs ! j) < p" using below that(2) by blast
    then have hit: "index < length xs" "sortable_name (xs ! index) = p" using land that(1) by auto
    then have "sortable_name (xs ! j) \<le> p" using mono [of j index] that(1) by simp
    then show ?thesis using hit \<open>\<not> sortable_name (xs ! j) < p\<close> by auto
  qed
qed

lemma filter_range_ok:
  assumes ok: "view_ok v" and r: "range_ok v"
  shows "range_ok (view_filter p v)"
proof -
  let ?w = "ensure_sorted v" and ?xs = "items (ensure_sorted v)"
  have w: "view_ok ?w" "sorted (map item_key ?xs)" "filter_range ?w = filter_range v" "length ?xs = length (items v)"
    using ensure_sorted_ok [OF ok] by simp_all
  have rw: "range_ok ?w" using r w(3,4) by (auto simp: range_ok_def split: option.splits prod.splits)
  define index where "index = (case binary_search_by (\<lambda>i. cmp (sortable_name i) p) ?xs of Inl i \<Rightarrow> i | Inr i \<Rightarrow> i)"
  have "walk_end p ?xs (walk_back p ?xs index) \<le> length ?xs \<and> walk_back p ?xs index \<le> walk_end p ?xs (walk_back p ?xs index)"
    if "?xs \<noteq> []" "name_matches p (?xs ! min index (length ?xs - 1))"
  proof -
    have "index < length ?xs"
      using search_prefix(1) [OF sorted_names [OF w(2)] _ refl index_def that(1) that(2)] w(1)
      by (simp add: view_ok_def)
    then have "walk_back p ?xs index < length ?xs" using walk_back_le le_less_trans by blast
    then show ?thesis
      using length_takeWhile_le [of "name_matches p" "drop (walk_back p ?xs index + 1) ?xs"]
      by (simp add: walk_end_def)
  qed
  then show ?thesis using rw
    by (auto simp: view_filter_def Let_def filter_reset_def range_ok_def index_def)
qed

lemma two_hits: "i < j \<Longrightarrow> j < length xs \<Longrightarrow> P (xs ! i) \<Longrightarrow> P (xs ! j) \<Longrightarrow> 2 \<le> length (filter P xs)"
proof -
  assume h: "i < j" "j < length xs" "P (xs ! i)" "P (xs ! j)"
  then have "card {i, j} \<le> card {k. k < length xs \<and> P (xs ! k)}" by (intro card_mono) auto
  then show ?thesis using h by (simp add: length_filter_conv_card)
qed

lemma filter_exact:
  assumes ok: "view_ok v" and p: "p \<noteq> []"
    and one: "length (filter (\<lambda>i. to_lower (item_name i) = p) (items v)) \<le> 1"
    and some: "\<exists>i \<in> set (items v). name_matches p i"
  shows "filtered_list (view_filter p v) = Some (filter (name_matches p) (sort_key item_key (items v)))"
proof -
  let ?w = "ensure_sorted v"
  define xs where "xs = items ?w"
  have w: "view_ok ?w" "sorted (map item_key xs)" using ensure_sorted_ok [OF ok] by (simp_all add: xs_def)
  have xs: "xs = sort_key item_key (items v)"
    using ok by (auto simp: xs_def ensure_sorted_def view_ok_def sorted_sort_id sort_key_id_if_sorted)
  then have set: "set xs = set (items v)" by simp
  then have ne: "xs \<noteq> []" and some': "\<exists>x \<in> set xs. name_matches p x" using some by auto
  have low: "\<forall>i \<in> set xs. sortable_name i = to_lower (item_name i)" using w(1) by (simp add: view_ok_def xs_def)
  note s = sorted_names [OF w(2)]
  define index where "index = (case binary_search_by (\<lambda>i. cmp (sortable_name i) p) xs of Inl i \<Rightarrow> i | Inr i \<Rightarrow> i)"
  note land = search_prefix [OF s low refl index_def ne]
  have hit: "index < length xs" "name_matches p (xs ! index)" using land(2) [OF some'] by simp_all
  have first: "\<not> name_matches p (xs ! j)" if j: "j < index" for j
  proof
    assume "name_matches p (xs ! j)"
    then have "sortable_name (xs ! j) = p" "sortable_name (xs ! index) = p" using land(3) [OF j] by auto
    then have names: "to_lower (item_name (xs ! j)) = p" "to_lower (item_name (xs ! index)) = p"
      using low hit(1) j by auto
    have "2 \<le> length (filter (\<lambda>i. to_lower (item_name i) = p) xs)"
      using two_hits [OF j hit(1), of "\<lambda>i. to_lower (item_name i) = p"] names by simp
    moreover have "length (filter (\<lambda>i. to_lower (item_name i) = p) xs)
        = length (filter (\<lambda>i. to_lower (item_name i) = p) (items v))"
      unfolding xs by (simp add: filter_sort)
    ultimately show False using one by simp
  qed
  have start: "walk_back p xs index = index" using first by (cases index) auto
  have block: "filter (name_matches p) (drop index xs) = takeWhile (name_matches p) (drop index xs)"
  proof (rule filter_takeWhile_block)
    fix a b assume ab: "a < b" "b < length (drop index xs)" "name_matches p (drop index xs ! b)"
    have mono: "sortable_name (xs ! i) \<le> sortable_name (xs ! j)" if "i \<le> j" "j < length xs" for i j
      using sorted_nth_mono [OF s, of i j] that by simp
    have m: "name_matches p (xs ! j) \<longleftrightarrow> starts_with p (sortable_name (xs ! j))" if "j < length xs" for j
      using low that by (simp add: name_matches_def)
    have "p \<le> sortable_name (xs ! index)" using starts_with_le m hit by blast
    then have "p \<le> sortable_name (xs ! (index + a))" using mono [of index "index + a"] ab by (simp add: order_trans)
    moreover have "sortable_name (xs ! (index + a)) \<le> sortable_name (xs ! (index + b))"
      using mono [of "index + a" "index + b"] ab by simp
    moreover have "starts_with p (sortable_name (xs ! (index + b)))" using m [of "index + b"] ab by simp
    ultimately show "name_matches p (drop index xs ! a)"
      using starts_with_between m [of "index + a"] ab by simp
  qed
  have "filter (name_matches p) (take index xs) = []"
    using first by (auto simp: filter_empty_conv in_set_conv_nth)
  then have all: "filter (name_matches p) xs = takeWhile (name_matches p) (drop index xs)"
    using block by (metis append_Nil append_take_drop_id filter_append)
  have "drop index xs = xs ! index # drop (Suc index) xs" using hit(1) by (simp add: Cons_nth_drop_Suc)
  then have len: "walk_end p xs index = index + length (takeWhile (name_matches p) (drop index xs))"
    using hit(2) by (simp add: walk_end_def)
  have view: "view_filter p v = ?w\<lparr>filter_range := Some (index, walk_end p xs index)\<rparr>"
    using p ne hit start by (simp add: view_filter_def Let_def flip: xs_def index_def)
  have "length (takeWhile (name_matches p) (drop index xs)) \<le> length xs - index"
    using length_takeWhile_le [of "name_matches p" "drop index xs"] by simp
  moreover have "take (length (takeWhile (name_matches p) (drop index xs))) (drop index xs)
      = takeWhile (name_matches p) (drop index xs)"
    by (metis takeWhile_eq_take)
  ultimately show ?thesis using hit(1) all unfolding xs [symmetric] view filtered_list_def
    by (simp add: len flip: xs_def)
qed

section \<open>Properties\<close>

text \<open>C26: The display lists are maps.  On a list whose items have distinct keys, unique insertion,
  removal and lookup do to the map it stands for what their names say, return the binding of
  the key before the operation, and keep the keys distinct and the list sorted where it claims
  to be, whichever of several equal positions the binary search reports.\<close>

theorem item_list_is_a_map:
  assumes "view_ok v" and "sortable_name x = to_lower (item_name x)"
  shows "fst (insert_unique x v) = view_map v (item_key x)
     \<and> view_map (snd (insert_unique x v)) = (view_map v)(item_key x \<mapsto> x) \<and> view_ok (snd (insert_unique x v))
     \<and> fst (view_remove k v) = view_map v k
     \<and> view_map (snd (view_remove k v)) = (view_map v)(k := None) \<and> view_ok (snd (view_remove k v))
     \<and> fst (view_get k v) = view_map v k \<and> view_map (snd (view_get k v)) = view_map v \<and> view_ok (snd (view_get k v))"
  using insert_unique_refines [OF assms] view_remove_refines [OF assms(1)] view_get_refines [OF assms(1)]
  by blast

theorem item_list_is_a_map_witness:
  "view_map (snd (insert_unique (item_new ''Bank'' '''' ''7'' 0 0) view_new)) (ListKey ''bank'' ''7'')
     = Some (item_new ''Bank'' '''' ''7'' 0 0)"
proof -
  have ok: "view_ok view_new" by (simp add: view_ok_def view_new_def)
  have n: "sortable_name (item_new ''Bank'' '''' ''7'' 0 0) = to_lower (item_name (item_new ''Bank'' '''' ''7'' 0 0))"
    by (simp add: item_new_def)
  have "item_key (item_new ''Bank'' '''' ''7'' 0 0) = ListKey ''bank'' ''7''" by code_simp
  then show ?thesis using item_list_is_a_map [OF ok n] by (simp only: fun_upd_same)
qed

text \<open>The filter shows the right items.  For a non-empty criterion that at least one item's
  lower-cased name starts with, and that at most one item's lower-cased name equals, the
  filtered list is exactly the items whose lower-cased name starts with it, in sorted order.\<close>

theorem filter_shows_matches:
  assumes "view_ok v" and "p \<noteq> []" and "\<exists>i \<in> set (items v). name_matches p i"
    and "length (filter (\<lambda>i. to_lower (item_name i) = p) (items v)) \<le> 1"
  shows "filtered_list (view_filter p v) = Some (filter (name_matches p) (sort_key item_key (items v)))"
  using filter_exact [OF assms(1,2,4,3)] .

theorem filter_shows_matches_witness:
  "filtered_list (view_filter ''b''
     \<lparr>items = [item_new ''Bob'' '''' ''1'' 0 0, item_new ''amy'' '''' ''2'' 0 0, item_new ''bEn'' '''' ''3'' 0 0],
      is_sorted = False, items_per_screen = 1, filter_range = None\<rparr>)
   = Some [item_new ''bEn'' '''' ''3'' 0 0, item_new ''Bob'' '''' ''1'' 0 0]"
proof -
  let ?v = "\<lparr>items = [item_new ''Bob'' '''' ''1'' 0 0, item_new ''amy'' '''' ''2'' 0 0, item_new ''bEn'' '''' ''3'' 0 0],
      is_sorted = False, items_per_screen = 1, filter_range = None\<rparr> :: list_view"
  have ok: "view_ok ?v" by code_simp
  have some: "\<exists>i \<in> set (items ?v). name_matches ''b'' i" by code_simp
  have one: "length (filter (\<lambda>i. to_lower (item_name i) = ''b'') (items ?v)) \<le> 1" by code_simp
  have "filter (name_matches ''b'') (sort_key item_key (items ?v))
      = [item_new ''bEn'' '''' ''3'' 0 0, item_new ''Bob'' '''' ''1'' 0 0]" by code_simp
  then show ?thesis using filter_shows_matches [OF ok _ some one] by simp
qed

text \<open>The filter never makes the list unsliceable.  The range it keeps fits the vector after
  every operation (lookups and pushes keep it, the filter sets it, insertion, removal and
  clearing drop it), so taking the filtered list never panics, and its length is the one
  reported when a filter is present.\<close>

theorem filter_range_safe:
  assumes "view_ok v" and "range_ok v"
  shows "range_ok (view_filter p v) \<and> range_ok (view_push x v) \<and> range_ok (snd (insert_unique x v))
     \<and> range_ok (snd (view_remove k v)) \<and> range_ok (snd (view_get k v)) \<and> range_ok (view_clear v)
     \<and> range_ok (filter_reset v)
     \<and> (\<exists>l. filtered_list v = Some l \<and> (filter_range v \<noteq> None \<longrightarrow> filter_len v = length l))"
proof -
  have "range_ok (ensure_sorted v)" using assms ensure_sorted_ok [OF assms(1)]
    by (auto simp: range_ok_def split: option.splits prod.splits)
  then show ?thesis using filter_range_ok [OF assms] assms(2)
    by (auto simp: range_ok_def view_push_def insert_unique_def view_remove_def view_get_def view_clear_def
        filter_reset_def filtered_list_def filter_len_def Let_def split: sum.splits option.splits)
qed

theorem filter_range_safe_witness:
  "range_ok (view_filter ''a'' view_new) \<and> filtered_list view_new = Some []"
proof -
  have "view_ok view_new" "range_ok view_new" by (simp_all add: view_ok_def range_ok_def view_new_def)
  from filter_range_safe [OF this] show ?thesis by (auto simp: view_new_def filtered_list_def)
qed

text \<open>The filter's limits.  With two items of exactly the name searched at the start of the list
  the first is not shown (the backward walk stops at index 1), and a criterion that matches
  nothing shows the whole list although the filter length reports zero.\<close>

theorem filter_limits:
  "(let v = view_filter ''a'' \<lparr>items = [item_new ''a'' ''x'' ''1'' 0 0, item_new ''a'' ''y'' ''2'' 0 0],
       is_sorted = False, items_per_screen = 1, filter_range = None\<rparr>
    in filtered_list v = Some [item_new ''a'' ''y'' ''2'' 0 0])
   \<and> (let v = view_filter ''z'' \<lparr>items = [item_new ''a'' ''x'' ''1'' 0 0],
       is_sorted = False, items_per_screen = 1, filter_range = None\<rparr>
    in filtered_list v = Some [item_new ''a'' ''x'' ''1'' 0 0] \<and> filter_len v = 0)"
  by code_simp

end
