(* ===== verification/Totp.thy ===== *)
theory Totp
  imports Xous_Messages
begin

text \<open>
  One-time passwords (\<open>src/totp.rs\<close>): the algorithm names, the codes of RFC 4226 and RFC 6238
  computed from a keyed hash, the display string of a list item that carries the parameters of
  a code, and one round of the thread that paces the animation.  The keyed hashes and the base32
  decoder belong to other crates and are the parameters \<open>hmac\<close> and \<open>base32\<close>.  The arithmetic is
  that of a release build: \<open>10_u64.pow(digits)\<close> wraps at 64 bits.
\<close>

section \<open>Algorithms and entries\<close>

datatype totp_alg = HmacSha1 | HmacSha256 | HmacSha512 | AlgNone

definition alg_try_from :: "string \<Rightarrow> totp_alg option" where
  "alg_try_from s =
     (if s = ''SHA1'' \<or> s = ''None'' then Some HmacSha1
      else if s = ''SHA256'' then Some HmacSha256
      else if s = ''SHA512'' then Some HmacSha512
      else None)"

fun alg_show :: "totp_alg \<Rightarrow> string" where
  "alg_show HmacSha1 = ''SHA1''"
| "alg_show HmacSha256 = ''SHA256''"
| "alg_show HmacSha512 = ''SHA512''"
| "alg_show AlgNone = ''None''"

record totp_entry =
  step_seconds :: u64
  shared_secret :: bytes
  digit_count :: u8
  algorithm :: totp_alg

section \<open>Codes\<close>

datatype totp_fault = InternalError | BadRecord | Panicked

definition unpack_u64 :: "u64 \<Rightarrow> bytes" where
  "unpack_u64 v =
     fold (\<lambda>i b. b[7 - i := ucast (0x00000000000000ff AND drop_bit (i * 8) v)]) [0..<8] (replicate 8 0)"

text \<open>\<open>hmac a k m\<close> is the tag of message \<open>m\<close> under key \<open>k\<close>, \<open>None\<close> when the key is refused.\<close>

definition generate_hmac_bytes ::
  "(totp_alg \<Rightarrow> bytes \<Rightarrow> bytes \<Rightarrow> bytes option) \<Rightarrow> u64 \<Rightarrow> totp_entry \<Rightarrow> totp_fault + bytes" where
  "generate_hmac_bytes hmac unix_timestamp e =
     (let checked_step = (if step_seconds e = 0 then 1 else step_seconds e)
      in case algorithm e of
           AlgNone \<Rightarrow> Inl Panicked
         | alg \<Rightarrow> (case hmac alg (shared_secret e) (unpack_u64 (unix_timestamp div checked_step)) of
                    None \<Rightarrow> Inl InternalError
                  | Some h \<Rightarrow> Inr h))"

text \<open>\<open>format!("{:01$}", n, w)\<close>.\<close>

definition zero_padded :: "nat \<Rightarrow> nat \<Rightarrow> string" where
  "zero_padded w n = (let s = show_nat n in replicate (w - length s) CHR ''0'' @ s)"

definition last_or_0 :: "bytes \<Rightarrow> u8" where
  "last_or_0 h = (if h = [] then 0 else last h)"

definition truncated :: "bytes \<Rightarrow> nat \<Rightarrow> u64" where
  "truncated h i =
     push_bit 24 (ucast (h ! i AND 0x7f)) OR push_bit 16 (ucast (h ! (i + 1)))
       OR push_bit 8 (ucast (h ! (i + 2))) OR ucast (h ! (i + 3))"

definition generate_totp_code ::
  "(totp_alg \<Rightarrow> bytes \<Rightarrow> bytes \<Rightarrow> bytes option) \<Rightarrow> u64 \<Rightarrow> totp_entry \<Rightarrow> totp_fault + string" where
  "generate_totp_code hmac unix_timestamp e =
     (case generate_hmac_bytes hmac unix_timestamp e of
        Inl x \<Rightarrow> Inl x
      | Inr h \<Rightarrow>
          let offset = unat (last_or_0 h AND 0xf)
          in if length h \<le> offset + 3 then Inl Panicked
             else let modulus = (10::u64) ^ unat (digit_count e)
                  in if modulus = 0 then Inl Panicked
                     else Inr (zero_padded (unat (digit_count e)) (unat (truncated h offset mod modulus))))"

section \<open>Codes of list items\<close>

text \<open>
  The \<open>extra\<close> text of a list item is \<open>secret:digits:step:algorithm:kind\<close> (\<open>src/actions.rs\<close>,
  \<open>make_totp_item_from_record\<close>).  \<open>now\<close> is \<open>get_current_unix_time()\<close>, \<open>None\<close> when the clock is
  before 1970; \<open>record_error\<close> is the translated message shown for an internal error.
\<close>

definition u_or :: "'a::len word \<Rightarrow> nat option \<Rightarrow> 'a word" where
  "u_or d v = (case v of None \<Rightarrow> d | Some n \<Rightarrow> word_of_nat n)"

definition entry_of_fields :: "(string \<Rightarrow> bytes option) \<Rightarrow> string \<Rightarrow> string \<Rightarrow> string \<Rightarrow> string \<Rightarrow> bool \<Rightarrow> totp_entry" where
  "entry_of_fields base32 f0 f1 f2 f3 is_hotp =
     \<lparr>step_seconds = (if \<not> is_hotp then u_or 30 (from_str_radix 10 u64_max f2) else 1),
      shared_secret = (case base32 f0 of None \<Rightarrow> [] | Some k \<Rightarrow> k),
      digit_count = u_or 6 (from_str_radix 10 u8_max f1),
      algorithm = (case alg_try_from f3 of None \<Rightarrow> HmacSha1 | Some a \<Rightarrow> a)\<rparr>"

definition shown_code :: "string \<Rightarrow> totp_fault + string \<Rightarrow> totp_fault + string" where
  "shown_code record_error r =
     (case r of Inr c \<Rightarrow> Inr c | Inl Panicked \<Rightarrow> Inl Panicked | Inl _ \<Rightarrow> Inr record_error)"

definition db_str_to_code ::
  "(totp_alg \<Rightarrow> bytes \<Rightarrow> bytes \<Rightarrow> bytes option) \<Rightarrow> (string \<Rightarrow> bytes option) \<Rightarrow> string \<Rightarrow> u64 option
     \<Rightarrow> string \<Rightarrow> totp_fault + string" where
  "db_str_to_code hmac base32 record_error now db_str =
     (case split_on CHR '':'' db_str of
        [f0, f1, f2, f3, f4] \<Rightarrow>
          let is_hotp = (to_upper f4 = ''HOTP'');
              e = entry_of_fields base32 f0 f1 f2 f3 is_hotp
          in if \<not> is_hotp
             then shown_code record_error
                    (generate_totp_code hmac (case now of None \<Rightarrow> 0 | Some t \<Rightarrow> t) e)
             else shown_code record_error
                    (generate_totp_code hmac (u_or 30 (from_str_radix 10 u64_max f2)) e)
      | _ \<Rightarrow> Inl BadRecord)"

definition totp_extra :: "string \<Rightarrow> nat \<Rightarrow> nat \<Rightarrow> totp_alg \<Rightarrow> bool \<Rightarrow> string" where
  "totp_extra secret digits timestep alg is_hotp =
     secret @ '':'' @ show_nat digits @ '':'' @ show_nat timestep @ '':'' @ alg_show alg @ '':''
       @ (if is_hotp then ''HOTP'' else ''TOTP'')"

section \<open>The animation pump\<close>

text \<open>One round of the pump: how long it sleeps, and whether it asks for a redraw before it
  sends itself the message that starts the next round.\<close>

definition pump_round :: "nat \<Rightarrow> bool \<Rightarrow> nat \<times> bool" where
  "pump_round anim_frame_ms animate = (min (max anim_frame_ms 30) 1000, animate)"

section \<open>Lemmas\<close>

lemma alg_try_from_show: "a \<noteq> AlgNone \<Longrightarrow> alg_try_from (alg_show a) = Some a"
  by (cases a) (auto simp: alg_try_from_def)

lemma alg_show_inv: "alg_try_from (alg_show a) = Some (if a = AlgNone then HmacSha1 else a)"
  by (cases a) (auto simp: alg_try_from_def)

lemma alg_show_no_sep: "CHR '':'' \<notin> set (alg_show a)" "CHR 0x0A \<notin> set (alg_show a)"
  by (cases a; simp)+

lemma unpack_u64_eq:
  "unpack_u64 v = map (\<lambda>n. ucast (drop_bit n v)) [56, 48, 40, 32, 24, 16, 8, 0]"
proof -
  have low: "ucast (0xff AND w) = (ucast w :: u8)" for w :: u64
  proof -
    have m: "(0xff :: u64) = mask 8" by (simp add: mask_eq_exp_minus_1)
    show ?thesis unfolding m by (rule bit_word_eqI) (simp add: bit_simps)
  qed
  have up: "[0..<8] = [0, 1, 2, 3, 4, 5, 6, 7::nat]" by (simp add: upt_conv_Cons)
  show ?thesis by (simp add: unpack_u64_def up low numeral_eq_Suc)
qed

lemma length_unpack_u64 [simp]: "length (unpack_u64 v) = 8"
  by (simp add: unpack_u64_eq)

lemma unpack_u64_inj: "unpack_u64 v = unpack_u64 w \<Longrightarrow> v = w"
proof (rule bit_word_eqI)
  fix n assume eq: "unpack_u64 v = unpack_u64 w" and n: "n < LENGTH(64)"
  have byte: "ucast (drop_bit k v) = (ucast (drop_bit k w) :: u8)" if "k \<in> set [56, 48, 40, 32, 24, 16, 8, 0]" for k
    using eq that by (auto simp: unpack_u64_eq)
  have "bit v (k + i) = bit w (k + i)" if "k \<in> set [56, 48, 40, 32, 24, 16, 8, 0]" "i < 8" for k i
    using arg_cong [OF byte [OF that(1)], of "\<lambda>x. bit x i"] that(2) by (auto simp: bit_simps)
  note bits = this
  have "n div 8 < 8" using n by simp
  then have "n div 8 \<in> {0, 1, 2, 3, 4, 5, 6, 7}" by auto
  then have "8 * (n div 8) \<in> set [56, 48, 40, 32, 24, 16, 8, 0]" by auto
  from bits [OF this, of "n mod 8"] show "bit v n = bit w n" by simp
qed

text \<open>The reference value of RFC 4226, section 5.3: four bytes, big endian, without the top bit.\<close>

definition be_value :: "bytes \<Rightarrow> nat" where
  "be_value bs = foldl (\<lambda>a b. a * 256 + unat b) 0 bs"

definition rfc4226_truncate :: "bytes \<Rightarrow> nat" where
  "rfc4226_truncate h = be_value (take 4 (drop (unat (last h) mod 16) h)) mod 2 ^ 31"

lemma or_is_add: "take_bit n y = y \<Longrightarrow> push_bit n x OR y = push_bit n x + (y :: u64)"
  by (rule disjunctive_add_eq_or [symmetric])
     (metis (no_types) bit_eq_iff bit_and_iff bit_push_bit_iff bit_take_bit_iff bit_0_eq bot_apply bot_bool_def leD)

lemma truncated_nat:
  "truncated h i = word_of_nat (unat (h ! i) mod 128 * 2 ^ 24 + unat (h ! (i + 1)) * 2 ^ 16
     + unat (h ! (i + 2)) * 2 ^ 8 + unat (h ! (i + 3)))" (is "_ = word_of_nat ?n")
proof -
  let ?a = "ucast (h ! i AND 0x7f) :: u64" and ?b = "ucast (h ! (i + 1)) :: u64"
  let ?c = "ucast (h ! (i + 2)) :: u64" and ?d = "ucast (h ! (i + 3)) :: u64"
  have t1: "take_bit 8 ?d = ?d"
    by (rule bit_word_eqI) (auto simp: bit_simps dest: bit_imp_le_length)
  have t2: "take_bit 16 (push_bit 8 ?c OR ?d) = push_bit 8 ?c OR ?d"
    by (rule bit_word_eqI) (auto simp: bit_simps dest: bit_imp_le_length)
  have t3: "take_bit 24 (push_bit 16 ?b OR push_bit 8 ?c OR ?d) = push_bit 16 ?b OR push_bit 8 ?c OR ?d"
    by (rule bit_word_eqI) (auto simp: bit_simps dest: bit_imp_le_length)
  have m: "(0x7f :: u8) = mask 7" by (simp add: mask_eq_exp_minus_1)
  have a: "unat (h ! i AND 0x7f) = unat (h ! i) mod 128"
    unfolding m take_bit_eq_mask [symmetric] by (simp add: take_bit_eq_mod unat_mod)
  have "truncated h i = push_bit 24 ?a + (push_bit 16 ?b + (push_bit 8 ?c + ?d))"
    using or_is_add [OF t3, of ?a] or_is_add [OF t2, of ?b] or_is_add [OF t1, of ?c]
    by (simp only: truncated_def or.assoc)
  also have "\<dots> = word_of_nat ?n"
    unfolding of_nat_add of_nat_mult a [symmetric] by (simp add: push_bit_eq_mult mult.commute)
  finally show ?thesis .
qed

lemma be_value_4: "be_value [a, b, c, d] = unat a * 2 ^ 24 + unat b * 2 ^ 16 + unat c * 2 ^ 8 + unat d"
  by (simp add: be_value_def)

lemma unat_byte: "unat (b :: u8) < 256"
  using unsigned_less [of b] by simp

lemma offset_mod: "unat (last_or_0 h AND 0xf) = (if h = [] then 0 else unat (last h) mod 16)"
proof -
  have m: "(0xf :: u8) = mask 4" by (simp add: mask_eq_exp_minus_1)
  show ?thesis
    unfolding m take_bit_eq_mask [symmetric]
    by (simp add: last_or_0_def take_bit_eq_mod unat_mod)
qed

lemma take_4_at: "i + 3 < length h \<Longrightarrow> take 4 (drop i h) = [h ! i, h ! (i + 1), h ! (i + 2), h ! (i + 3)]"
  by (rule nth_equalityI) (auto simp: less_Suc_eq numeral_eq_Suc nth_Cons split: nat.splits)

lemma unat_truncated:
  assumes "unat (last h) mod 16 + 3 < length h"
  shows "unat (truncated h (unat (last h) mod 16)) = rfc4226_truncate h"
proof -
  let ?i = "unat (last h) mod 16"
  let ?r = "unat (h ! (?i + 1)) * 2 ^ 16 + unat (h ! (?i + 2)) * 2 ^ 8 + unat (h ! (?i + 3))"
  have r: "?r < 2 ^ 24"
    using unat_byte [of "h ! (?i + 1)"] unat_byte [of "h ! (?i + 2)"] unat_byte [of "h ! (?i + 3)"] by simp
  have "(q * 2 ^ 24 + ?r) mod 2 ^ 31 = q mod 128 * 2 ^ 24 + ?r" for q :: nat
  proof -
    have "(m + k * 128) * 2 ^ 24 + r = (m * 2 ^ 24 + r) + k * 2 ^ 31" for m k r :: nat
      by (simp add: algebra_simps)
    from this [of "q mod 128" "q div 128" ?r]
    have "q * 2 ^ 24 + ?r = (q mod 128 * 2 ^ 24 + ?r) + q div 128 * 2 ^ 31"
      by (simp only: mod_div_mult_eq)
    moreover have "q mod 128 * 2 ^ 24 + ?r < 2 ^ 31"
      using r mod_less_divisor [of 128 q] by simp
    ultimately show ?thesis by (metis mod_less mod_mult_self1)
  qed
  from this [of "unat (h ! ?i)"]
  have "rfc4226_truncate h = unat (h ! ?i) mod 128 * 2 ^ 24 + ?r"
    unfolding rfc4226_truncate_def take_4_at [OF assms] be_value_4 by (simp only: add.assoc)
  then have "truncated h ?i = word_of_nat (rfc4226_truncate h)"
    unfolding truncated_nat by (simp only: add.assoc)
  moreover have "rfc4226_truncate h < 2 ^ LENGTH(64)"
    unfolding rfc4226_truncate_def by (rule order.strict_trans [OF mod_less_divisor]) simp_all
  ultimately show ?thesis by (simp only: unat_of_nat mod_less)
qed

subsection \<open>Padded decimals\<close>

lemma length_show_nat: "n < 10 ^ d \<Longrightarrow> 0 < d \<Longrightarrow> length (show_nat n) \<le> d"
proof (induction n arbitrary: d rule: show_nat.induct)
  case (1 n)
  show ?case
  proof (cases "n < 10")
    case True
    with "1.prems" show ?thesis by (simp add: show_nat.simps [of n])
  next
    case False
    obtain k where k: "d = Suc k" using "1.prems"(2) by (cases d) auto
    have "k \<noteq> 0" using False "1.prems"(1) k by (auto intro: ccontr)
    then have d: "d = Suc k" "0 < k" using k by simp_all
    then have "n div 10 < 10 ^ k" using "1.prems" by (simp add: less_mult_imp_div_less mult.commute)
    from "1.IH" [OF False this d(2)] show ?thesis using False d by (simp add: show_nat.simps [of n])
  qed
qed

lemma radix_digits_zeros: "radix_digits 10 m 0 (replicate k CHR ''0'' @ s) = radix_digits 10 m 0 s"
  by (induction k) (auto simp: to_digit_def)

lemma from_str_radix_zero_padded:
  assumes "n \<le> m" shows "from_str_radix 10 m (zero_padded w n) = Some n"
proof (cases "w - length (show_nat n)")
  case 0
  then show ?thesis using assms by (simp add: zero_padded_def Let_def codec)
next
  case (Suc k)
  then show ?thesis
    using radix_digits_zeros [of m "Suc k" "show_nat n"] radix_digits_show_nat [OF assms]
    by (simp add: zero_padded_def Let_def from_str_radix_def)
qed

lemma length_zero_padded: "n < 10 ^ w \<Longrightarrow> length (zero_padded w n) = max 1 w"
  using length_show_nat [of n w]
  by (cases w) (auto simp: zero_padded_def Let_def show_nat.simps [of 0])

subsection \<open>The modulus\<close>

lemma unat_ten_power: "d \<le> 19 \<Longrightarrow> unat ((10::u64) ^ d) = 10 ^ d"
proof -
  assume "d \<le> 19"
  then have "(10::nat) ^ d \<le> 10 ^ 19" by (intro power_increasing) auto
  then have "(10::nat) ^ d < 2 ^ LENGTH(64)" by simp
  then have "unat (word_of_nat (10 ^ d) :: u64) = 10 ^ d" by (simp only: unat_of_nat mod_less)
  then show ?thesis by simp
qed

lemma ten_power_zero_iff: "(10::u64) ^ d = 0 \<longleftrightarrow> 64 \<le> d"
proof
  show "(10::u64) ^ d = 0" if "64 \<le> d"
  proof -
    have "(10::u64) ^ d = 10 ^ 64 * 10 ^ (d - 64)" using that by (simp only: power_add [symmetric] le_add_diff_inverse)
    moreover have "(10::u64) ^ 64 = 0" by simp
    ultimately show ?thesis by (simp only: mult_zero_left)
  qed
  show "64 \<le> d" if "(10::u64) ^ d = 0"
  proof (rule ccontr)
    assume "\<not> 64 \<le> d"
    then have "63 = d + (63 - d)" by simp
    then have "(10::u64) ^ 63 = 10 ^ d * 10 ^ (63 - d)" by (metis power_add)
    with that show False by simp
  qed
qed

section \<open>Properties\<close>

definition tag_contract :: "(totp_alg \<Rightarrow> bytes \<Rightarrow> bytes \<Rightarrow> bytes option) \<Rightarrow> bool" where
  "tag_contract hmac \<longleftrightarrow> (\<forall>a k m. \<exists>h. hmac a k m = Some h \<and> 19 \<le> length h)"

lemma offset_in_range: "19 \<le> length h \<Longrightarrow> unat (last h) mod 16 + 3 < length h"
  using mod_less_divisor [of 16 "unat (last h)"] by linarith

lemma code_of_tag:
  assumes "generate_hmac_bytes hmac t e = Inr h" "19 \<le> length h"
  shows "generate_totp_code hmac t e =
    (if 64 \<le> unat (digit_count e) then Inl Panicked
     else Inr (zero_padded (unat (digit_count e))
       (rfc4226_truncate h mod unat ((10::u64) ^ unat (digit_count e)))))"
proof -
  have "h \<noteq> []" using assms(2) by auto
  then have o: "unat (last_or_0 h AND 0xf) = unat (last h) mod 16" by (simp only: offset_mod if_False)
  have r: "unat (last h) mod 16 + 3 < length h" by (rule offset_in_range [OF assms(2)])
  show ?thesis
    unfolding generate_totp_code_def assms(1) sum.case Let_def o unat_mod unat_truncated [OF r]
      ten_power_zero_iff
    using r by simp
qed

lemma hmac_bytes_eq:
  "algorithm e \<noteq> AlgNone \<Longrightarrow> generate_hmac_bytes hmac t e =
     (case hmac (algorithm e) (shared_secret e)
        (unpack_u64 (t div (if step_seconds e = 0 then 1 else step_seconds e))) of
      None \<Rightarrow> Inl InternalError | Some h \<Rightarrow> Inr h)"
  by (cases "algorithm e") (simp_all add: generate_hmac_bytes_def Let_def)

text \<open>C31: A code of at most 19 digits is the dynamic truncation of RFC 4226 of the tag over the big
  endian number of the time step, reduced to that many digits and padded with zeros to exactly
  that width.\<close>

theorem totp_code_is_rfc4226:
  assumes "algorithm e \<noteq> AlgNone" and "unat (digit_count e) \<le> 19"
    and "hmac (algorithm e) (shared_secret e)
           (unpack_u64 (t div (if step_seconds e = 0 then 1 else step_seconds e))) = Some h"
    and "19 \<le> length h"
  shows "\<exists>code. generate_totp_code hmac t e = Inr code
    \<and> length code = max 1 (unat (digit_count e))
    \<and> from_str_radix 10 u64_max code = Some (rfc4226_truncate h mod 10 ^ unat (digit_count e))"
proof -
  let ?d = "unat (digit_count e)" and ?n = "rfc4226_truncate h mod 10 ^ unat (digit_count e)"
  have g: "generate_hmac_bytes hmac t e = Inr h" using assms by (simp add: hmac_bytes_eq)
  have d: "\<not> 64 \<le> ?d" using assms(2) by simp
  have c: "generate_totp_code hmac t e = Inr (zero_padded ?d ?n)"
    unfolding code_of_tag [OF g assms(4)] unat_ten_power [OF assms(2)] using d by simp
  have "?n < 10 ^ ?d" by simp
  from length_zero_padded [OF this] have l: "length (zero_padded ?d ?n) = max 1 ?d" .
  have "?n \<le> rfc4226_truncate h" by (rule mod_less_eq_dividend)
  also have "\<dots> < 2 ^ 31" unfolding rfc4226_truncate_def by (rule mod_less_divisor) simp
  finally have "?n \<le> u64_max" by simp
  from c l from_str_radix_zero_padded [OF this] show ?thesis by blast
qed

text \<open>The example of RFC 4226, section 5.4.\<close>

definition rfc_tag :: bytes where
  "rfc_tag = [0x1f, 0x86, 0x98, 0x69, 0x0e, 0x02, 0xca, 0x16, 0x61, 0x85,
              0x50, 0xef, 0x7f, 0x19, 0xda, 0x8e, 0x94, 0x5b, 0x55, 0x5a]"

definition rfc_entry :: totp_entry where
  "rfc_entry = \<lparr>step_seconds = 30, shared_secret = [], digit_count = 6, algorithm = HmacSha1\<rparr>"

lemma rfc_tag_truncated: "rfc4226_truncate rfc_tag = 1357872921"
  by (simp add: rfc4226_truncate_def rfc_tag_def be_value_def)

lemma length_rfc_tag [simp]: "length rfc_tag = 20" by (simp add: rfc_tag_def)

theorem totp_code_is_rfc4226_witness:
  "\<exists>code. generate_totp_code (\<lambda>a k m. Some rfc_tag) 59 rfc_entry = Inr code
    \<and> length code = 6 \<and> from_str_radix 10 u64_max code = Some 872921"
  using totp_code_is_rfc4226 [of rfc_entry "\<lambda>a k m. Some rfc_tag" 59 rfc_tag]
  by (simp add: rfc_entry_def rfc_tag_truncated)

lemma fresh_step:
  "unat (t div (if s = 0 then 1 else s)) = unat t div max 1 (unat (s :: u64))"
proof (cases "s = 0")
  case False
  then have "max 1 (unat s) = unat s" by (simp add: unat_gt_0 Suc_leI)
  with False show ?thesis by (simp only: unat_div if_False)
qed simp

lemma same_step_same_tag:
  "unat t div max 1 (unat (step_seconds e)) = unat t' div max 1 (unat (step_seconds e)) \<Longrightarrow>
     generate_hmac_bytes hmac t e = generate_hmac_bytes hmac t' e"
proof -
  let ?s = "if step_seconds e = 0 then 1 else step_seconds e"
  assume "unat t div max 1 (unat (step_seconds e)) = unat t' div max 1 (unat (step_seconds e))"
  then have "t div ?s = t' div ?s" unfolding fresh_step [symmetric] by (metis unsigned_word_eqI)
  then show ?thesis unfolding generate_hmac_bytes_def Let_def by (simp only:)
qed

text \<open>The code depends on the clock through the time step only: two times give the same code
  under every keyed hash exactly when they lie in the same step.\<close>

theorem code_changes_with_step:
  "(\<forall>hmac. generate_hmac_bytes hmac t e = generate_hmac_bytes hmac t' e
      \<and> generate_totp_code hmac t e = generate_totp_code hmac t' e) \<longleftrightarrow>
     algorithm e = AlgNone \<or>
     unat t div max 1 (unat (step_seconds e)) = unat t' div max 1 (unat (step_seconds e))"
    (is "?same \<longleftrightarrow> _ \<or> ?step")
proof (cases "algorithm e = AlgNone")
  case True
  then show ?thesis by (simp add: generate_totp_code_def generate_hmac_bytes_def)
next
  case False
  let ?s = "if step_seconds e = 0 then 1 else step_seconds e"
  have "?step" if ?same
  proof -
    have "unpack_u64 (t div ?s) = unpack_u64 (t' div ?s)"
      using that [rule_format, of "\<lambda>a k m. Some m"] False by (simp add: hmac_bytes_eq)
    then have "t div ?s = t' div ?s" by (rule unpack_u64_inj)
    then show ?thesis unfolding fresh_step [symmetric] by (simp only:)
  qed
  moreover have "?same" if ?step
    unfolding generate_totp_code_def same_step_same_tag [OF that] by simp
  ultimately show ?thesis using False by blast
qed

text \<open>With keyed hashes that accept every key and give tags of at least 19 bytes, as SHA-1,
  SHA-256 and SHA-512 do, a code is computed unless the entry has no algorithm or asks for 64
  digits or more, where the wrapped modulus is zero and the division panics.\<close>

theorem code_panics_exactly:
  assumes "tag_contract hmac"
  shows "(generate_totp_code hmac t e = Inl Panicked \<longleftrightarrow>
      algorithm e = AlgNone \<or> 64 \<le> unat (digit_count e))
    \<and> generate_totp_code hmac t e \<noteq> Inl InternalError"
proof -
  have "generate_totp_code hmac t e = Inl Panicked" if "algorithm e = AlgNone"
    using that by (simp add: generate_totp_code_def generate_hmac_bytes_def)
  moreover have "generate_totp_code hmac t e \<noteq> Inl InternalError \<and>
      (generate_totp_code hmac t e = Inl Panicked \<longleftrightarrow> 64 \<le> unat (digit_count e))"
    if a: "algorithm e \<noteq> AlgNone"
  proof -
    let ?m = "unpack_u64 (t div (if step_seconds e = 0 then 1 else step_seconds e))"
    obtain h where h: "hmac (algorithm e) (shared_secret e) ?m = Some h" "19 \<le> length h"
      using assms unfolding tag_contract_def by blast
    have "generate_hmac_bytes hmac t e = Inr h"
      unfolding hmac_bytes_eq [OF a] h(1) by simp
    from code_of_tag [OF this h(2)] show ?thesis by simp
  qed
  ultimately show ?thesis by fastforce
qed

theorem code_panics_exactly_witness:
  "generate_totp_code (\<lambda>a k m. Some rfc_tag) 0 (rfc_entry\<lparr>digit_count := 64\<rparr>) = Inl Panicked
   \<and> generate_totp_code (\<lambda>a k m. Some rfc_tag) 0 rfc_entry \<noteq> Inl Panicked"
  using code_panics_exactly [of "\<lambda>a k m. Some rfc_tag"]
  by (simp add: tag_contract_def rfc_entry_def)

text \<open>The display string written for a record shows the code of that record: a time based one
  for the present step, a counter based one for the stored counter.\<close>

theorem db_str_shows_record:
  assumes "CHR '':'' \<notin> set secret" and "base32 secret = Some k"
    and "digits \<le> u8_max" and "timestep \<le> u64_max"
  shows "db_str_to_code hmac base32 err (Some now) (totp_extra secret digits timestep a hotp) =
    shown_code err (generate_totp_code hmac (if hotp then word_of_nat timestep else now)
      \<lparr>step_seconds = (if hotp then 1 else word_of_nat timestep), shared_secret = k,
       digit_count = word_of_nat digits, algorithm = (if a = AlgNone then HmacSha1 else a)\<rparr>)"
proof -
  let ?kind = "if hotp then ''HOTP'' else ''TOTP''"
  have n: "CHR '':'' \<notin> set (show_nat i)" for i by (rule show_nat_no_char) simp
  have k: "CHR '':'' \<notin> set ?kind" by simp
  have split: "split_on CHR '':'' (totp_extra secret digits timestep a hotp) =
      [secret, show_nat digits, show_nat timestep, alg_show a, ?kind]"
    unfolding totp_extra_def
    by (simp only: append_Cons append_Nil split_on_append [OF assms(1)] split_on_append [OF n]
        split_on_append [OF alg_show_no_sep(1)] split_on_single [OF k])
  have hotp: "(to_upper ?kind = ''HOTP'') = hotp"
    by (cases hotp) (simp_all add: to_upper_def upper_char_def)
  show ?thesis
    unfolding db_str_to_code_def split
    using assms by (simp add: hotp entry_of_fields_def u_or_def codec alg_show_inv)
qed

theorem db_str_shows_record_witness:
  "db_str_to_code (\<lambda>a k m. Some rfc_tag) (\<lambda>s. Some []) ''error'' (Some 59) ''AA:6:30:SHA1:TOTP'' =
   shown_code ''error'' (generate_totp_code (\<lambda>a k m. Some rfc_tag) 59 rfc_entry)"
proof -
  have "totp_extra ''AA'' 6 30 HmacSha1 False = ''AA:6:30:SHA1:TOTP''"
    by code_simp
  with db_str_shows_record [of "''AA''" "\<lambda>s. Some []" "[]" 6 30 "\<lambda>a k m. Some rfc_tag"
      "''error''" 59 HmacSha1 False]
  show ?thesis by (simp add: rfc_entry_def)
qed

end
