(* ===== verification/Records.thy ===== *)
theory Records
  imports Totp
begin

text \<open>
  The records of the vault (\<open>src/storage.rs\<close>): one-time password and password records, their
  line format (\<open>tag:data\<close>, one field a line), the parser of \<open>otpauth\<close> URIs, and the application
  records of U2F (\<open>src/vault_api.rs\<close>).  A Rust string is a list of the bytes of its UTF-8
  encoding, so \<open>String::from_utf8\<close> is the test \<open>utf8_ok\<close>; letter case is that of ASCII.
\<close>

section \<open>Text and bytes\<close>

definition text_of :: "bytes \<Rightarrow> string" where
  "text_of = map (\<lambda>b. char_of (unat b))"

definition bytes_of :: "string \<Rightarrow> bytes" where
  "bytes_of = map (\<lambda>c. word_of_nat (of_char c))"

definition cont_byte :: "nat \<Rightarrow> bool" where
  "cont_byte b \<longleftrightarrow> 0x80 \<le> b \<and> b \<le> 0xBF"

text \<open>The ranges of a two, three or four byte sequence (the standard's table of well-formed
  sequences): the number of continuation bytes, and the range of the first of them.\<close>

definition utf8_lead :: "nat \<Rightarrow> (nat \<times> nat \<times> nat) option" where
  "utf8_lead a =
     (if a < 0x80 then Some (0, 0x80, 0xBF)
      else if 0xC2 \<le> a \<and> a \<le> 0xDF then Some (1, 0x80, 0xBF)
      else if a = 0xE0 then Some (2, 0xA0, 0xBF)
      else if a = 0xED then Some (2, 0x80, 0x9F)
      else if 0xE1 \<le> a \<and> a \<le> 0xEF then Some (2, 0x80, 0xBF)
      else if a = 0xF0 then Some (3, 0x90, 0xBF)
      else if 0xF1 \<le> a \<and> a \<le> 0xF3 then Some (3, 0x80, 0xBF)
      else if a = 0xF4 then Some (3, 0x80, 0x8F)
      else None)"

text \<open>\<open>utf8_from k lo hi s\<close>: \<open>s\<close> continues a sequence that still needs \<open>k\<close> bytes, the next of them
  within \<open>lo..hi\<close>.\<close>

fun utf8_from :: "nat \<Rightarrow> nat \<Rightarrow> nat \<Rightarrow> string \<Rightarrow> bool" where
  "utf8_from k lo hi [] = (k = 0)"
| "utf8_from 0 lo hi (c # cs) =
     (case utf8_lead (of_char c) of None \<Rightarrow> False | Some (k, lo', hi') \<Rightarrow> utf8_from k lo' hi' cs)"
| "utf8_from (Suc k) lo hi (c # cs) =
     ((lo \<le> (of_char c :: nat) \<and> (of_char c :: nat) \<le> hi) \<and> utf8_from k 0x80 0xBF cs)"

definition utf8_ok :: "string \<Rightarrow> bool" where
  "utf8_ok s = utf8_from 0 0x80 0xBF s"

definition from_utf8 :: "bytes \<Rightarrow> string option" where
  "from_utf8 data = (if utf8_ok (text_of data) then Some (text_of data) else None)"

lemma text_of_bytes_of [codec]: "text_of (bytes_of s) = s"
  by (induction s) (simp_all add: text_of_def bytes_of_def unat_of_nat)

lemma bytes_of_text_of [codec]: "bytes_of (text_of b) = b"
proof (induction b)
  case (Cons a b)
  then show ?case using unat_byte [of a] by (simp add: text_of_def bytes_of_def)
qed (simp add: text_of_def bytes_of_def)

lemma length_bytes_of [simp]: "length (bytes_of s) = length s"
  by (simp add: bytes_of_def)

lemma bytes_of_append: "bytes_of (a @ b) = bytes_of a @ bytes_of b"
  by (simp add: bytes_of_def)

lemma utf8_from_0: "utf8_from 0 lo hi s = utf8_ok s"
  by (cases s) (simp_all add: utf8_ok_def)

lemma utf8_from_append: "utf8_from k lo hi xs \<Longrightarrow> utf8_from k lo hi (xs @ ys) = utf8_ok ys"
proof (induction k lo hi xs rule: utf8_from.induct)
  case (1 k lo hi)
  then show ?case by (simp add: utf8_from_0)
qed (auto split: option.splits)

lemma utf8_ok_append: "utf8_ok xs \<Longrightarrow> utf8_ok (xs @ ys) = utf8_ok ys"
  unfolding utf8_ok_def [of "xs @ ys"] utf8_ok_def [of xs] by (rule utf8_from_append)

lemma utf8_ok_Nil [simp]: "utf8_ok []"
  by (simp add: utf8_ok_def)

lemma utf8_ok_ascii: "(of_char c :: nat) < 128 \<Longrightarrow> utf8_ok (c # cs) = utf8_ok cs"
  by (simp add: utf8_ok_def utf8_lead_def)

lemma utf8_ok_all_ascii: "(\<And>c. c \<in> set s \<Longrightarrow> (of_char c :: nat) < 128) \<Longrightarrow> utf8_ok s"
  by (induction s) (simp_all add: utf8_ok_ascii)

lemma utf8_ok_show_nat: "utf8_ok (show_nat n)"
  by (rule utf8_ok_all_ascii) (use show_nat_char_bounds in fastforce)

lemma from_utf8_bytes_of: "utf8_ok s \<Longrightarrow> from_utf8 (bytes_of s) = Some s"
  by (simp add: from_utf8_def codec)

section \<open>Lines of fields\<close>

abbreviation newline :: char where "newline \<equiv> CHR 0x0A"

text \<open>\<open>format!("{}:{}\n", tag, data)\<close>, and a text of such lines.\<close>

definition field_line :: "string \<times> string \<Rightarrow> string" where
  "field_line f = fst f @ '':'' @ snd f @ [newline]"

definition field_lines :: "(string \<times> string) list \<Rightarrow> string" where
  "field_lines fs = concat (map field_line fs)"

text \<open>The loops of the parsers: the text is split at newlines, a line without a colon is skipped,
  the first failing field ends the parse.\<close>

fun parse_fields :: "(string \<Rightarrow> string \<Rightarrow> 'r \<Rightarrow> 'e + 'r) \<Rightarrow> string list \<Rightarrow> 'r \<Rightarrow> ('e \<times> 'r) + 'r" where
  "parse_fields field [] r = Inr r"
| "parse_fields field (l # ls) r =
     (case split_once CHR '':'' l of
        None \<Rightarrow> parse_fields field ls r
      | Some (tag, data) \<Rightarrow>
          (case field tag data r of Inl e \<Rightarrow> Inl (e, r) | Inr r' \<Rightarrow> parse_fields field ls r'))"

fun put_fields :: "(string \<Rightarrow> string \<Rightarrow> 'r \<Rightarrow> 'e + 'r) \<Rightarrow> (string \<times> string) list \<Rightarrow> 'r \<Rightarrow> ('e \<times> 'r) + 'r" where
  "put_fields field [] r = Inr r"
| "put_fields field (f # fs) r =
     (case field (fst f) (snd f) r of Inl e \<Rightarrow> Inl (e, r) | Inr r' \<Rightarrow> put_fields field fs r')"

definition plain_field :: "string \<times> string \<Rightarrow> bool" where
  "plain_field f \<longleftrightarrow> newline \<notin> set (fst f) \<and> CHR '':'' \<notin> set (fst f) \<and> newline \<notin> set (snd f)"

lemma split_field_lines:
  "(\<And>f. f \<in> set fs \<Longrightarrow> plain_field f) \<Longrightarrow>
   split_on newline (field_lines fs @ s) = map (\<lambda>f. fst f @ '':'' @ snd f) fs @ split_on newline s"
proof (induction fs)
  case Nil
  show ?case by (simp add: field_lines_def)
next
  case (Cons f fs)
  have "newline \<notin> set (fst f @ '':'' @ snd f)"
    using Cons.prems [of f] by (auto simp: plain_field_def)
  from split_on_append [OF this, of "field_lines fs @ s"] Cons
  show ?case by (simp add: field_lines_def field_line_def)
qed

lemma parse_fields_append:
  "parse_fields field (xs @ ys) r =
     (case parse_fields field xs r of Inl e \<Rightarrow> Inl e | Inr r' \<Rightarrow> parse_fields field ys r')"
  by (induction field xs r rule: parse_fields.induct) (auto split: option.splits sum.splits)

lemma parse_fields_of_lines:
  "(\<And>f. f \<in> set fs \<Longrightarrow> plain_field f) \<Longrightarrow>
   parse_fields field (map (\<lambda>f. fst f @ '':'' @ snd f) fs) r = put_fields field fs r"
proof (induction fs arbitrary: r)
  case (Cons f fs)
  have "split_once CHR '':'' (fst f @ '':'' @ snd f) = Some (fst f, snd f)"
    using Cons.prems [of f] split_once_append [of "CHR '':''" "fst f" "snd f"] by (simp add: plain_field_def)
  with Cons show ?case by (cases f) (simp split: sum.splits)
qed simp

text \<open>Parsing what was printed gives each field once, in order.\<close>

lemma parse_field_lines:
  "(\<And>f. f \<in> set fs \<Longrightarrow> plain_field f) \<Longrightarrow>
   parse_fields field (split_on newline (field_lines fs)) r = put_fields field fs r"
  using split_field_lines [of fs "[]"] parse_fields_of_lines [of fs field r]
  by (simp add: parse_fields_append split: sum.splits)

lemma utf8_ok_field_lines:
  "(\<And>f. f \<in> set fs \<Longrightarrow> utf8_ok (fst f) \<and> utf8_ok (snd f)) \<Longrightarrow> utf8_ok (field_lines fs)"
proof (induction fs)
  case (Cons f fs)
  then have "utf8_ok (field_lines fs)" by simp
  moreover have "utf8_ok (fst f)" "utf8_ok (snd f)" using Cons.prems [of f] by simp_all
  ultimately show ?case
    by (simp add: field_lines_def field_line_def utf8_ok_append utf8_ok_ascii)
qed (simp add: field_lines_def)

lemma set_split_on: "l \<in> set (split_on c s) \<Longrightarrow> c \<notin> set l"
  by (induction s arbitrary: l) (auto split: if_splits list.splits)

text \<open>What a field handler keeps of every record holds of the parsed record.\<close>

lemma parse_fields_invariant:
  assumes "parse_fields field (split_on newline s) r = Inr r'" and "Q r"
    and "\<And>t d r r'. newline \<notin> set d \<Longrightarrow> Q r \<Longrightarrow> field t d r = Inr r' \<Longrightarrow> Q r'"
  shows "Q r'"
proof -
  have "Q r'" if "\<forall>l \<in> set ls. newline \<notin> set l" "parse_fields field ls r = Inr r'" "Q r" for ls
    using that
  proof (induction ls arbitrary: r)
    case (Cons l ls)
    show ?case
    proof (cases "split_once CHR '':'' l")
      case None
      with Cons show ?thesis by simp
    next
      case (Some td)
      obtain t d where td: "td = (t, d)" by (cases td)
      then have "newline \<notin> set d" using Cons.prems(1) split_once_SomeD Some by fastforce
      moreover obtain r1 where "field t d r = Inr r1" using Cons.prems(2) Some td by (auto split: sum.splits)
      ultimately show ?thesis using Cons Some td assms(3) by auto
    qed
  qed simp
  with assms set_split_on show ?thesis by blast
qed

section \<open>One-time password records\<close>

definition VAULT_TOTP_REC_VERSION :: u32 where "VAULT_TOTP_REC_VERSION = 2"
definition VAULT_PASSWORD_REC_VERSION :: u32 where "VAULT_PASSWORD_REC_VERSION = 1"

record totp_record =
  t_version :: u32
  t_secret :: string
  t_name :: string
  t_algorithm :: totp_alg
  t_notes :: string
  t_digits :: u32
  t_timestep :: u64
  t_ctime :: u64
  t_is_hotp :: bool

datatype totp_ser_error = BadVersion | BadAlgorithm | BadDigitsAmount | BadCtime | BadTimestep | BadHotp
  | MalformedInput

text \<open>\<open>TotpRecord::default()\<close>.\<close>

definition totp_default :: totp_record where
  "totp_default =
     \<lparr>t_version = 0, t_secret = [], t_name = [], t_algorithm = AlgNone, t_notes = [], t_digits = 0,
      t_timestep = 0, t_ctime = 0, t_is_hotp = False\<rparr>"

text \<open>\<open>num e n f\<close>: the fields that hold a number, with the error of a bad one.\<close>

definition num_field :: "nat \<Rightarrow> 'e \<Rightarrow> string \<Rightarrow> (nat \<Rightarrow> 'r) \<Rightarrow> 'e + 'r" where
  "num_field m e data upd = (case from_str_radix 10 m data of None \<Rightarrow> Inl e | Some n \<Rightarrow> Inr (upd n))"

definition totp_field :: "string \<Rightarrow> string \<Rightarrow> totp_record \<Rightarrow> totp_ser_error + totp_record" where
  "totp_field tag data r =
     (if tag = ''version'' then num_field u32_max BadVersion data (\<lambda>n. r\<lparr>t_version := word_of_nat n\<rparr>)
      else if tag = ''secret'' then Inr (r\<lparr>t_secret := t_secret r @ data\<rparr>)
      else if tag = ''name'' then Inr (r\<lparr>t_name := t_name r @ data\<rparr>)
      else if tag = ''algorithm'' then
        (case alg_try_from data of Some a \<Rightarrow> Inr (r\<lparr>t_algorithm := a\<rparr>) | None \<Rightarrow> Inl BadAlgorithm)
      else if tag = ''notes'' then Inr (r\<lparr>t_notes := t_notes r @ data\<rparr>)
      else if tag = ''digits'' then num_field u32_max BadDigitsAmount data (\<lambda>n. r\<lparr>t_digits := word_of_nat n\<rparr>)
      else if tag = ''ctime'' then num_field u64_max BadCtime data (\<lambda>n. r\<lparr>t_ctime := word_of_nat n\<rparr>)
      else if tag = ''timestep'' then num_field u64_max BadTimestep data (\<lambda>n. r\<lparr>t_timestep := word_of_nat n\<rparr>)
      else if tag = ''hotp'' then num_field u8_max BadHotp data (\<lambda>n. r\<lparr>t_is_hotp := (n \<noteq> 0)\<rparr>)
      else Inr r)"

text \<open>\<open>StorageContent::from_vec\<close>: the record is replaced only when the whole text parses.\<close>

definition totp_from_vec :: "bytes \<Rightarrow> totp_record \<Rightarrow> totp_ser_error option \<times> totp_record" where
  "totp_from_vec data self =
     (case from_utf8 data of
        None \<Rightarrow> (Some MalformedInput, self)
      | Some desc \<Rightarrow>
          (case parse_fields totp_field (split_on newline desc) totp_default of
             Inl (e, _) \<Rightarrow> (Some e, self)
           | Inr pr \<Rightarrow> (None, pr)))"

text \<open>\<open>TryFrom<Vec<u8>>\<close>.\<close>

definition totp_try_from :: "bytes \<Rightarrow> totp_ser_error + totp_record" where
  "totp_try_from data =
     (case from_utf8 data of
        None \<Rightarrow> Inl MalformedInput
      | Some desc \<Rightarrow>
          (case parse_fields totp_field (split_on newline desc)
                  (totp_default\<lparr>t_version := VAULT_TOTP_REC_VERSION, t_algorithm := HmacSha1\<rparr>) of
             Inl (e, _) \<Rightarrow> Inl e
           | Inr pr \<Rightarrow> Inr pr))"

definition totp_fields :: "totp_record \<Rightarrow> (string \<times> string) list" where
  "totp_fields r =
     [(''version'', show_nat (unat (t_version r))),
      (''secret'', t_secret r),
      (''name'', t_name r),
      (''algorithm'', alg_show (t_algorithm r)),
      (''notes'', t_notes r),
      (''digits'', show_nat (unat (t_digits r))),
      (''timestep'', show_nat (unat (t_timestep r))),
      (''hotp'', if t_is_hotp r then ''1'' else ''0''),
      (''ctime'', show_nat (unat (t_ctime r)))]"

definition totp_to_vec :: "totp_record \<Rightarrow> bytes" where
  "totp_to_vec r = bytes_of (field_lines (totp_fields r))"

section \<open>Password records\<close>

record pw_record =
  p_version :: u32
  p_description :: string
  p_username :: string
  p_password :: string
  p_notes :: string
  p_ctime :: u64
  p_atime :: u64
  p_count :: u64

datatype pw_ser_error = PwMalformedInput | PwBadVersion | PwBadCount | PwBadCtime | PwBadAtime

definition pw_clear :: "pw_record \<Rightarrow> pw_record" where
  "pw_clear r =
     r\<lparr>p_description := [], p_username := [], p_password := [], p_notes := [], p_version := 0,
       p_ctime := 0, p_atime := 0, p_count := 0\<rparr>"

text \<open>\<open>PasswordRecord::default()\<close>, also \<open>alloc()\<close>.\<close>

definition pw_default :: pw_record where
  "pw_default =
     \<lparr>p_version = 0, p_description = [], p_username = [], p_password = [], p_notes = [],
      p_ctime = 0, p_atime = 0, p_count = 0\<rparr>"

definition pw_field :: "string \<Rightarrow> string \<Rightarrow> pw_record \<Rightarrow> pw_ser_error + pw_record" where
  "pw_field tag data r =
     (if tag = ''version'' then num_field u32_max PwBadVersion data (\<lambda>n. r\<lparr>p_version := word_of_nat n\<rparr>)
      else if tag = ''description'' then Inr (r\<lparr>p_description := p_description r @ data\<rparr>)
      else if tag = ''username'' then Inr (r\<lparr>p_username := p_username r @ data\<rparr>)
      else if tag = ''password'' then Inr (r\<lparr>p_password := p_password r @ data\<rparr>)
      else if tag = ''notes'' then Inr (r\<lparr>p_notes := p_notes r @ data\<rparr>)
      else if tag = ''ctime'' then num_field u64_max PwBadCtime data (\<lambda>n. r\<lparr>p_ctime := word_of_nat n\<rparr>)
      else if tag = ''atime'' then num_field u64_max PwBadAtime data (\<lambda>n. r\<lparr>p_atime := word_of_nat n\<rparr>)
      else if tag = ''count'' then num_field u64_max PwBadCount data (\<lambda>n. r\<lparr>p_count := word_of_nat n\<rparr>)
      else Inr r)"

text \<open>\<open>StorageContent::from_vec\<close> clears the record first and fills it in place, so a failed parse
  leaves what was read before the bad field.\<close>

definition pw_from_vec :: "bytes \<Rightarrow> pw_record \<Rightarrow> pw_ser_error option \<times> pw_record" where
  "pw_from_vec data self =
     (case from_utf8 data of
        None \<Rightarrow> (Some PwMalformedInput, pw_clear self)
      | Some desc \<Rightarrow>
          (case parse_fields pw_field (split_on newline desc) (pw_clear self) of
             Inl (e, r) \<Rightarrow> (Some e, r)
           | Inr r \<Rightarrow> (None, r)))"

definition pw_try_from :: "bytes \<Rightarrow> pw_ser_error + pw_record" where
  "pw_try_from data =
     (case from_utf8 data of
        None \<Rightarrow> Inl PwMalformedInput
      | Some desc \<Rightarrow>
          (case parse_fields pw_field (split_on newline desc)
                  (pw_default\<lparr>p_version := VAULT_PASSWORD_REC_VERSION\<rparr>) of
             Inl (e, _) \<Rightarrow> Inl e
           | Inr pr \<Rightarrow> Inr pr))"

definition pw_fields :: "pw_record \<Rightarrow> (string \<times> string) list" where
  "pw_fields r =
     [(''version'', show_nat (unat (p_version r))),
      (''description'', p_description r),
      (''username'', p_username r),
      (''password'', p_password r),
      (''notes'', p_notes r),
      (''ctime'', show_nat (unat (p_ctime r))),
      (''atime'', show_nat (unat (p_atime r))),
      (''count'', show_nat (unat (p_count r)))]"

definition pw_to_vec :: "pw_record \<Rightarrow> bytes" where
  "pw_to_vec r = bytes_of (field_lines (pw_fields r))"

section \<open>otpauth URIs\<close>

text \<open>\<open>String::push(byte as char)\<close>: a byte is a Latin-1 character, two bytes long from 128 on.\<close>

definition push_latin1 :: "nat \<Rightarrow> string" where
  "push_latin1 b = (if b < 128 then [char_of b] else [char_of (0xC0 + b div 64), char_of (0x80 + b mod 64)])"

text \<open>The messages of a failed URI parse, without the quoted input.\<close>

datatype uri_error =
    MissingSlash | UnknownOtpType | MissingQuery | InvalidPercent | InvalidPercentHex
  | MissingSecret | UnknownAlgorithm | InvalidDigits | InvalidPeriod

text \<open>The two places after the percent sign are bytes here and characters in the source: where one of them is part of a longer character,
  both fail, not always with the same message.\<close>

fun url_decode :: "string \<Rightarrow> uri_error + string" where
  "url_decode [] = Inr []"
| "url_decode (c # cs) =
     (if c = CHR ''%'' then
        (case cs of
           h1 # h2 # rest \<Rightarrow>
             (case from_str_radix 16 u8_max [h1, h2] of
                None \<Rightarrow> Inl InvalidPercentHex
              | Some b \<Rightarrow> map_sum id (\<lambda>r. push_latin1 b @ r) (url_decode rest))
         | _ \<Rightarrow> Inl InvalidPercent)
      else map_sum id (\<lambda>r. (if c = CHR ''+'' then CHR '' '' else c) # r) (url_decode cs))"

fun parse_query_pairs :: "string list \<Rightarrow> (string \<rightharpoonup> string) \<Rightarrow> uri_error + (string \<rightharpoonup> string)" where
  "parse_query_pairs [] params = Inr params"
| "parse_query_pairs (p # ps) params =
     (case split_once CHR ''='' p of
        None \<Rightarrow> parse_query_pairs ps params
      | Some (k, v) \<Rightarrow>
          (case url_decode v of
             Inl e \<Rightarrow> Inl e
           | Inr d \<Rightarrow> parse_query_pairs ps (params(k \<mapsto> d))))"

definition parse_query :: "string \<Rightarrow> uri_error + (string \<rightharpoonup> string)" where
  "parse_query q = parse_query_pairs (split_on CHR ''&'' q) Map.empty"

definition uri_algorithm :: "string option \<Rightarrow> uri_error + totp_alg" where
  "uri_algorithm p =
     (case p of
        None \<Rightarrow> Inr AlgNone
      | Some a \<Rightarrow>
          if to_upper a = ''SHA1'' then Inr HmacSha1
          else if to_upper a = ''SHA256'' then Inr HmacSha256
          else if to_upper a = ''SHA512'' then Inr HmacSha512
          else Inl UnknownAlgorithm)"

definition uri_number :: "nat \<Rightarrow> uri_error \<Rightarrow> nat \<Rightarrow> string option \<Rightarrow> uri_error + nat" where
  "uri_number m e d p =
     (case p of
        None \<Rightarrow> Inr d
      | Some s \<Rightarrow> (case from_str_radix 10 m s of None \<Rightarrow> Inl e | Some n \<Rightarrow> Inr n))"

definition record_of_params :: "bool \<Rightarrow> string \<Rightarrow> (string \<rightharpoonup> string) \<Rightarrow> uri_error + totp_record" where
  "record_of_params is_hotp label params =
     (case params ''secret'' of
        None \<Rightarrow> Inl MissingSecret
      | Some secret \<Rightarrow>
     (case uri_algorithm (params ''algorithm'') of
        Inl e \<Rightarrow> Inl e
      | Inr alg \<Rightarrow>
     (case uri_number u32_max InvalidDigits 6 (params ''digits'') of
        Inl e \<Rightarrow> Inl e
      | Inr digits \<Rightarrow>
     (case (if is_hotp then Inr 0 else uri_number u64_max InvalidPeriod 30 (params ''period'')) of
        Inl e \<Rightarrow> Inl e
      | Inr timestep \<Rightarrow>
          Inr (totp_default\<lparr>t_is_hotp := is_hotp, t_name := label, t_secret := secret, t_algorithm := alg,
                 t_digits := word_of_nat digits, t_timestep := word_of_nat timestep,
                 t_notes := (case params ''issuer'' of None \<Rightarrow> [] | Some i \<Rightarrow> i)\<rparr>)))))"

definition otp_kind :: "string \<Rightarrow> bool option" where
  "otp_kind t = (if to_lower t = ''hotp'' then Some True else if to_lower t = ''totp'' then Some False else None)"

definition from_uri :: "string \<Rightarrow> uri_error + totp_record" where
  "from_uri uri =
     (case split_once CHR ''/'' uri of
        None \<Rightarrow> Inl MissingSlash
      | Some (otp_type, rest) \<Rightarrow>
     (case otp_kind otp_type of
        None \<Rightarrow> Inl UnknownOtpType
      | Some is_hotp \<Rightarrow>
     (case split_once CHR ''?'' rest of
        None \<Rightarrow> Inl MissingQuery
      | Some (label, query) \<Rightarrow>
     (case url_decode label of
        Inl e \<Rightarrow> Inl e
      | Inr decoded_label \<Rightarrow>
     (case parse_query query of
        Inl e \<Rightarrow> Inl e
      | Inr params \<Rightarrow> record_of_params is_hotp decoded_label params)))))"


section \<open>Round trips\<close>

lemma unat_u32_le: "unat (v :: u32) \<le> u32_max"
proof -
  have "unat v < 2 ^ LENGTH(32)" by (rule unsigned_less)
  then show ?thesis by simp
qed

lemma unat_u64_le: "unat (w :: u64) \<le> u64_max"
proof -
  have "unat w < 2 ^ LENGTH(64)" by (rule unsigned_less)
  then show ?thesis by simp
qed

lemma num_field_show [simp]:
  "num_field u32_max e (show_nat (unat (v :: u32))) upd = Inr (upd (unat v))"
  "num_field u64_max e (show_nat (unat (w :: u64))) upd = Inr (upd (unat w))"
  by (simp_all only: num_field_def from_str_radix_show_nat unat_u32_le unat_u64_le option.case)

lemma num_field_bit [simp]:
  "num_field u8_max e ''1'' upd = Inr (upd 1)" "num_field u8_max e ''0'' upd = Inr (upd 0)"
  by (simp_all add: num_field_def from_str_radix_def to_digit_def)

lemma show_nat_plain [simp]: "newline \<notin> set (show_nat n)" "CHR '':'' \<notin> set (show_nat n)"
  by (rule show_nat_no_char; simp)+

definition totp_shown :: "totp_record \<Rightarrow> totp_record" where
  "totp_shown r = r\<lparr>t_algorithm := (if t_algorithm r = AlgNone then HmacSha1 else t_algorithm r)\<rparr>"

lemma put_totp_fields:
  "t_secret d = [] \<Longrightarrow> t_name d = [] \<Longrightarrow> t_notes d = [] \<Longrightarrow>
   put_fields totp_field (totp_fields r) d = Inr (totp_shown r)"
  by (simp add: totp_fields_def totp_field_def alg_show_inv totp_shown_def)

lemma put_pw_fields:
  "p_description d = [] \<Longrightarrow> p_username d = [] \<Longrightarrow> p_password d = [] \<Longrightarrow> p_notes d = [] \<Longrightarrow>
   put_fields pw_field (pw_fields r) d = Inr r"
  by (simp add: pw_fields_def pw_field_def)

text \<open>The texts of a record, and the condition under which its lines stay apart.\<close>

definition totp_texts :: "totp_record \<Rightarrow> string list" where
  "totp_texts r = [t_secret r, t_name r, t_notes r]"

definition pw_texts :: "pw_record \<Rightarrow> string list" where
  "pw_texts r = [p_description r, p_username r, p_password r, p_notes r]"

definition one_line :: "string list \<Rightarrow> bool" where
  "one_line ts \<longleftrightarrow> (\<forall>t \<in> set ts. newline \<notin> set t)"

lemma plain_totp_fields:
  "one_line (totp_texts r) \<Longrightarrow> f \<in> set (totp_fields r) \<Longrightarrow> plain_field f"
  by (auto simp: totp_fields_def totp_texts_def one_line_def plain_field_def alg_show_no_sep split: if_splits)

lemma plain_pw_fields:
  "one_line (pw_texts r) \<Longrightarrow> f \<in> set (pw_fields r) \<Longrightarrow> plain_field f"
  by (auto simp: pw_fields_def pw_texts_def one_line_def plain_field_def)

lemma utf8_literals:
  "utf8_ok ''version''" "utf8_ok ''secret''" "utf8_ok ''name''" "utf8_ok ''algorithm''" "utf8_ok ''notes''"
  "utf8_ok ''digits''" "utf8_ok ''timestep''" "utf8_ok ''hotp''" "utf8_ok ''ctime''" "utf8_ok ''1''"
  "utf8_ok ''0''" "utf8_ok (alg_show a)" "utf8_ok ''description''" "utf8_ok ''username''"
  "utf8_ok ''password''" "utf8_ok ''atime''" "utf8_ok ''count''"
  by (cases a; simp add: utf8_ok_ascii)+

lemma utf8_totp: "list_all utf8_ok (totp_texts r) \<Longrightarrow> utf8_ok (field_lines (totp_fields r))"
  by (rule utf8_ok_field_lines)
     (auto simp: totp_fields_def totp_texts_def utf8_literals utf8_ok_show_nat)

lemma utf8_pw: "list_all utf8_ok (pw_texts r) \<Longrightarrow> utf8_ok (field_lines (pw_fields r))"
  by (rule utf8_ok_field_lines)
     (auto simp: pw_fields_def pw_texts_def utf8_literals utf8_ok_show_nat)

lemma totp_field_one_line:
  "newline \<notin> set d \<Longrightarrow> one_line (totp_texts r) \<Longrightarrow> totp_field t d r = Inr r' \<Longrightarrow> one_line (totp_texts r')"
  by (auto simp: totp_field_def num_field_def one_line_def totp_texts_def split: if_splits option.splits)

lemma pw_field_one_line:
  "newline \<notin> set d \<Longrightarrow> one_line (pw_texts r) \<Longrightarrow> pw_field t d r = Inr r' \<Longrightarrow> one_line (pw_texts r')"
  by (auto simp: pw_field_def num_field_def one_line_def pw_texts_def split: if_splits option.splits)

lemma totp_from_vec_one_line:
  "totp_from_vec data self = (None, r) \<Longrightarrow> one_line (totp_texts r)"
  by (auto simp: totp_from_vec_def split: option.splits sum.splits prod.splits
      elim!: parse_fields_invariant [where Q = "\<lambda>r. one_line (totp_texts r)", OF _ _ totp_field_one_line])
     (simp_all add: totp_default_def totp_texts_def one_line_def)

lemma pw_from_vec_one_line:
  "pw_from_vec data self = (None, r) \<Longrightarrow> one_line (pw_texts r)"
  by (auto simp: pw_from_vec_def split: option.splits sum.splits prod.splits
      elim!: parse_fields_invariant [where Q = "\<lambda>r. one_line (pw_texts r)", OF _ _ pw_field_one_line])
     (simp_all add: pw_clear_def pw_texts_def one_line_def)


lemma totp_parse_print:
  assumes "list_all utf8_ok (totp_texts r)" and "one_line (totp_texts r)"
  shows "totp_from_vec (totp_to_vec r) self = (None, totp_shown r)"
    and "totp_try_from (totp_to_vec r) = Inr (totp_shown r)"
proof -
  have desc: "from_utf8 (totp_to_vec r) = Some (field_lines (totp_fields r))"
    unfolding totp_to_vec_def by (rule from_utf8_bytes_of [OF utf8_totp [OF assms(1)]])
  have parse: "parse_fields totp_field (split_on newline (field_lines (totp_fields r))) d = Inr (totp_shown r)"
    if "t_secret d = []" "t_name d = []" "t_notes d = []" for d
    using parse_field_lines [OF plain_totp_fields [OF assms(2)], of "totp_fields r" totp_field d]
      put_totp_fields [OF that] by simp
  show "totp_from_vec (totp_to_vec r) self = (None, totp_shown r)"
    unfolding totp_from_vec_def desc using parse [of totp_default] by (simp add: totp_default_def)
  show "totp_try_from (totp_to_vec r) = Inr (totp_shown r)"
    unfolding totp_try_from_def desc
    using parse [of "totp_default\<lparr>t_version := VAULT_TOTP_REC_VERSION, t_algorithm := HmacSha1\<rparr>"]
    by (simp add: totp_default_def)
qed

lemma pw_parse_print:
  assumes "list_all utf8_ok (pw_texts r)" and "one_line (pw_texts r)"
  shows "pw_from_vec (pw_to_vec r) self = (None, r)"
    and "pw_try_from (pw_to_vec r) = Inr r"
proof -
  have desc: "from_utf8 (pw_to_vec r) = Some (field_lines (pw_fields r))"
    unfolding pw_to_vec_def by (rule from_utf8_bytes_of [OF utf8_pw [OF assms(1)]])
  have parse: "parse_fields pw_field (split_on newline (field_lines (pw_fields r))) d = Inr r"
    if "p_description d = []" "p_username d = []" "p_password d = []" "p_notes d = []" for d
    using parse_field_lines [OF plain_pw_fields [OF assms(2)], of "pw_fields r" pw_field d]
      put_pw_fields [OF that] by simp
  show "pw_from_vec (pw_to_vec r) self = (None, r)"
    unfolding pw_from_vec_def desc using parse [of "pw_clear self"] by (simp add: pw_clear_def)
  show "pw_try_from (pw_to_vec r) = Inr r"
    unfolding pw_try_from_def desc
    using parse [of "pw_default\<lparr>p_version := VAULT_PASSWORD_REC_VERSION\<rparr>"]
    by (simp add: pw_default_def)
qed

section \<open>Properties\<close>

text \<open>A stored one-time password record reads back as it was, whatever the record it is read into,
  exactly when no text of it contains a newline; a missing algorithm reads back as SHA-1.\<close>

theorem totp_record_round_trip:
  assumes "list_all utf8_ok (totp_texts r)"
  shows "totp_from_vec (totp_to_vec r) self =
      (None, r\<lparr>t_algorithm := (if t_algorithm r = AlgNone then HmacSha1 else t_algorithm r)\<rparr>) \<longleftrightarrow>
    one_line (totp_texts r)"
proof
  assume "one_line (totp_texts r)"
  from totp_parse_print(1) [OF assms this] show "totp_from_vec (totp_to_vec r) self =
      (None, r\<lparr>t_algorithm := (if t_algorithm r = AlgNone then HmacSha1 else t_algorithm r)\<rparr>)"
    unfolding totp_shown_def .
next
  assume "totp_from_vec (totp_to_vec r) self =
      (None, r\<lparr>t_algorithm := (if t_algorithm r = AlgNone then HmacSha1 else t_algorithm r)\<rparr>)"
  from totp_from_vec_one_line [OF this] show "one_line (totp_texts r)" by (simp add: totp_texts_def)
qed

definition sample_totp :: totp_record where
  "sample_totp = totp_default\<lparr>t_secret := ''I65VU7K5ZQL7WB4E'', t_name := ''totp@authenticationtest.com'',
     t_digits := 6, t_timestep := 30, t_algorithm := HmacSha1\<rparr>"

theorem totp_record_round_trip_witness:
  "totp_from_vec (totp_to_vec sample_totp) totp_default = (None, sample_totp)"
  using totp_record_round_trip [of sample_totp totp_default]
  by (simp add: sample_totp_def totp_default_def totp_texts_def one_line_def utf8_ok_ascii)

text \<open>C35: The same for passwords, for both readers; the reader that reuses a record first forgets all
  of its old contents.\<close>

theorem password_record_round_trip:
  assumes "list_all utf8_ok (pw_texts r)"
  shows "(pw_from_vec (pw_to_vec r) self = (None, r) \<longleftrightarrow> one_line (pw_texts r))
    \<and> (one_line (pw_texts r) \<longrightarrow> pw_try_from (pw_to_vec r) = Inr r)"
  using pw_parse_print [OF assms] pw_from_vec_one_line by blast

definition sample_pw :: pw_record where
  "sample_pw = pw_default\<lparr>p_description := ''example.com'', p_username := ''me'', p_password := ''a:b''\<rparr>"

theorem password_record_round_trip_witness:
  "pw_from_vec (pw_to_vec sample_pw) (pw_default\<lparr>p_notes := ''old''\<rparr>) = (None, sample_pw)
   \<and> pw_try_from (pw_to_vec sample_pw) = Inr sample_pw"
  using password_record_round_trip [of sample_pw "pw_default\<lparr>p_notes := ''old''\<rparr>"]
  by (simp add: sample_pw_def pw_default_def pw_texts_def one_line_def utf8_ok_ascii)

subsection \<open>URIs\<close>

text \<open>What a conforming sender writes: every byte outside \<open>keep\<close> as a percent sign and two
  hexadecimal digits.\<close>

definition hex_char :: "nat \<Rightarrow> char" where
  "hex_char d = (if d < 10 then char_of (48 + d) else char_of (55 + d))"

fun url_encode :: "(char \<Rightarrow> bool) \<Rightarrow> string \<Rightarrow> string" where
  "url_encode keep [] = []"
| "url_encode keep (c # cs) =
     (if keep c then [c] else [CHR ''%'', hex_char (of_char c div 16), hex_char (of_char c mod 16)])
       @ url_encode keep cs"

definition unreserved :: "char \<Rightarrow> bool" where
  "unreserved c \<longleftrightarrow> c \<notin> set ''%+&=?/#''"

lemma to_digit_hex: "d < 16 \<Longrightarrow> to_digit 16 (hex_char d) = Some d"
  by (auto simp: to_digit_def hex_char_def Let_def)

lemma hex_char_not_plus: "d < 16 \<Longrightarrow> hex_char d \<noteq> CHR ''+''"
proof -
  assume "d < 16"
  then have "(of_char (hex_char d) :: nat) \<noteq> of_char CHR ''+''" by (auto simp: hex_char_def)
  then show ?thesis by metis
qed

lemma from_str_radix_hex:
  "n \<le> 255 \<Longrightarrow> from_str_radix 16 255 [hex_char (n div 16), hex_char (n mod 16)] = Some n"
proof -
  assume n: "n \<le> 255"
  then have "n div 16 < 16" "n mod 16 < 16" by simp_all
  then show ?thesis
    using n by (simp add: from_str_radix_def hex_char_not_plus to_digit_hex)
qed

lemma url_decode_encode:
  "(\<And>c. keep c \<Longrightarrow> c \<noteq> CHR ''%'' \<and> c \<noteq> CHR ''+'') \<Longrightarrow> \<forall>c \<in> set s. (of_char c :: nat) < 128 \<Longrightarrow>
   url_decode (url_encode keep s) = Inr s"
proof (induction s)
  case (Cons c s)
  then have IH: "url_decode (url_encode keep s) = Inr s" and c: "(of_char c :: nat) < 128" by simp_all
  show ?case
  proof (cases "keep c")
    case True
    then show ?thesis using Cons.prems(1) [OF True] IH by simp
  next
    case False
    have "from_str_radix 16 255 [hex_char (of_char c div 16), hex_char (of_char c mod 16)] = Some (of_char c)"
      by (rule from_str_radix_hex) (use c in simp)
    with False IH c show ?thesis by (simp add: push_latin1_def)
  qed
qed simp


lemma hex_char_alnum: "d < 16 \<Longrightarrow> hex_char d \<notin> set ''%&=?/''"
proof -
  assume d: "d < 16"
  have "hex_char d \<noteq> c" if "(of_char c :: nat) < 48 \<or> 57 < (of_char c :: nat) \<and> (of_char c :: nat) < 65" for c
  proof -
    have "(of_char (hex_char d) :: nat) \<noteq> of_char c" using d that by (auto simp: hex_char_def)
    then show ?thesis by metis
  qed
  then show ?thesis by simp
qed

lemma url_encode_safe:
  "(\<And>c. keep c \<Longrightarrow> unreserved c) \<Longrightarrow> c \<in> set (url_encode keep s) \<Longrightarrow> c \<notin> set ''&=?/''"
proof (induction s)
  case (Cons a s)
  have hex: "hex_char ((of_char a :: nat) div 16) \<notin> set ''%&=?/''" "hex_char ((of_char a :: nat) mod 16) \<notin> set ''%&=?/''"
    by (rule hex_char_alnum, simp add: less_mult_imp_div_less)+
  have "keep a \<Longrightarrow> a \<notin> set ''&=?/''" using Cons.prems(1) [of a] by (simp add: unreserved_def)
  then show ?case using Cons hex by (auto split: if_splits)
qed simp

lemma to_upper_sha [simp]:
  "to_upper ''SHA1'' = ''SHA1''" "to_upper ''SHA256'' = ''SHA256''" "to_upper ''SHA512'' = ''SHA512''"
  by code_simp+

lemma uri_algorithm_show: "a \<noteq> AlgNone \<Longrightarrow> uri_algorithm (Some (alg_show a)) = Inr a"
  by (cases a) (simp_all add: uri_algorithm_def)

text \<open>The query of a sender, and the URI after the scheme.\<close>

definition otp_query :: "(char \<Rightarrow> bool) \<Rightarrow> string \<Rightarrow> string \<Rightarrow> totp_alg \<Rightarrow> nat \<Rightarrow> nat \<Rightarrow> string" where
  "otp_query keep secret issuer a digits period =
     ''secret='' @ url_encode keep secret @ ''&'' @ ''issuer='' @ url_encode keep issuer @ ''&''
       @ ''algorithm='' @ alg_show a @ ''&'' @ ''digits='' @ show_nat digits @ ''&'' @ ''period='' @ show_nat period"

definition otp_uri :: "(char \<Rightarrow> bool) \<Rightarrow> bool \<Rightarrow> string \<Rightarrow> string \<Rightarrow> string \<Rightarrow> totp_alg \<Rightarrow> nat \<Rightarrow> nat \<Rightarrow> string" where
  "otp_uri keep hotp label secret issuer a digits period =
     (if hotp then ''hotp'' else ''totp'') @ ''/'' @ url_encode keep label @ ''?''
       @ otp_query keep secret issuer a digits period"

lemma url_decode_plain:
  "(\<And>c. c \<in> set s \<Longrightarrow> c \<noteq> CHR ''%'' \<and> c \<noteq> CHR ''+'') \<Longrightarrow> url_decode s = Inr s"
  by (induction s) simp_all

lemma url_decode_show_nat: "url_decode (show_nat n) = Inr (show_nat n)"
  by (rule url_decode_plain) (use show_nat_char_bounds [of _ n] in force)

lemma url_decode_alg: "url_decode (alg_show a) = Inr (alg_show a)"
  by (cases a) (simp_all)

lemma parse_otp_query:
  assumes keep: "\<And>c. keep c \<Longrightarrow> unreserved c"
    and ascii: "\<forall>c \<in> set secret. (of_char c :: nat) < 128" "\<forall>c \<in> set issuer. (of_char c :: nat) < 128"
  shows "parse_query (otp_query keep secret issuer a digits period) =
    Inr [''secret'' \<mapsto> secret, ''issuer'' \<mapsto> issuer, ''algorithm'' \<mapsto> alg_show a,
         ''digits'' \<mapsto> show_nat digits, ''period'' \<mapsto> show_nat period]"
proof -
  have dec: "url_decode (url_encode keep s) = Inr s" if "\<forall>c \<in> set s. (of_char c :: nat) < 128" for s
    by (rule url_decode_encode [OF _ that]) (use keep in \<open>auto simp: unreserved_def\<close>)
  have no_amp: "CHR ''&'' \<notin> set (url_encode keep s)" for s
    using url_encode_safe [of keep "CHR ''&''" s] keep by auto
  have amp: "CHR ''&'' \<notin> set (''secret='' @ url_encode keep secret)"
    "CHR ''&'' \<notin> set (''issuer='' @ url_encode keep issuer)"
    "CHR ''&'' \<notin> set (''algorithm='' @ alg_show a)"
    "CHR ''&'' \<notin> set (''digits='' @ show_nat digits)"
    "CHR ''&'' \<notin> set (''period='' @ show_nat period)"
    by (simp_all add: no_amp show_nat_no_char) (cases a; simp)
  have "split_on CHR ''&'' (otp_query keep secret issuer a digits period) =
    [''secret='' @ url_encode keep secret, ''issuer='' @ url_encode keep issuer, ''algorithm='' @ alg_show a,
     ''digits='' @ show_nat digits, ''period='' @ show_nat period]"
    unfolding otp_query_def
    using amp split_on_append [OF amp(1)] split_on_append [OF amp(2)] split_on_append [OF amp(3)]
      split_on_append [OF amp(4)] split_on_single [OF amp(5)] by simp
  then show ?thesis
    by (simp add: parse_query_def dec ascii url_decode_show_nat url_decode_alg)
qed

text \<open>A conforming URI with an ASCII label is understood: every field of the record is the one the
  sender wrote.  For a counter based password the counter starts at zero.\<close>

theorem otpauth_uri_understood:
  assumes "\<And>c. keep c \<Longrightarrow> unreserved c"
    and "\<forall>c \<in> set (label @ secret @ issuer). (of_char c :: nat) < 128"
    and "a \<noteq> AlgNone" and "digits \<le> u32_max" and "period \<le> u64_max"
  shows "from_uri (otp_uri keep hotp label secret issuer a digits period) =
    Inr \<lparr>t_version = 0, t_secret = secret, t_name = label, t_algorithm = a, t_notes = issuer,
         t_digits = word_of_nat digits, t_timestep = (if hotp then 0 else word_of_nat period),
         t_ctime = 0, t_is_hotp = hotp\<rparr>"
proof -
  let ?kind = "if hotp then ''hotp'' else ''totp''" and ?q = "otp_query keep secret issuer a digits period"
  have s1: "split_once CHR ''/'' (otp_uri keep hotp label secret issuer a digits period) =
      Some (?kind, url_encode keep label @ ''?'' @ ?q)"
    unfolding otp_uri_def using split_once_append [of "CHR ''/''" ?kind "url_encode keep label @ ''?'' @ ?q"]
    by (cases hotp) simp_all
  have kind: "otp_kind ?kind = Some hotp"
    by (cases hotp) (simp_all add: otp_kind_def to_lower_def lower_char_def)
  have "CHR ''?'' \<notin> set (url_encode keep label)"
    using url_encode_safe [of keep "CHR ''?''" label] assms(1) by auto
  from split_once_append [OF this, of ?q]
  have s2: "split_once CHR ''?'' (url_encode keep label @ ''?'' @ ?q) = Some (url_encode keep label, ?q)" by simp
  have lab: "url_decode (url_encode keep label) = Inr label"
    by (rule url_decode_encode) (use assms(1,2) in \<open>auto simp: unreserved_def\<close>)
  have q: "parse_query ?q = Inr [''secret'' \<mapsto> secret, ''issuer'' \<mapsto> issuer, ''algorithm'' \<mapsto> alg_show a,
         ''digits'' \<mapsto> show_nat digits, ''period'' \<mapsto> show_nat period]"
    by (rule parse_otp_query [OF assms(1)]) (use assms(2) in auto)
  show ?thesis
    unfolding from_uri_def s1 option.case prod.case kind s2 lab sum.case q record_of_params_def
    using assms(3-5)
    by (simp add: uri_algorithm_show uri_number_def from_str_radix_show_nat totp_default_def)
qed

theorem otpauth_uri_understood_witness:
  "from_uri ''totp/a?secret=AA&issuer=me&algorithm=SHA1&digits=6&period=30'' =
    Inr (totp_default\<lparr>t_secret := ''AA'', t_name := ''a'', t_algorithm := HmacSha1, t_notes := ''me'',
         t_digits := 6, t_timestep := 30\<rparr>)"
proof -
  have "otp_uri (\<lambda>c. c \<in> set ''AaeIm'') False ''a'' ''AA'' ''me'' HmacSha1 6 30 =
      ''totp/a?secret=AA&issuer=me&algorithm=SHA1&digits=6&period=30''"
    by code_simp
  moreover have "\<And>c. c \<in> set ''AaeIm'' \<Longrightarrow> unreserved c" by (auto simp: unreserved_def)
  ultimately show ?thesis
    using otpauth_uri_understood [of "\<lambda>c. c \<in> set ''AaeIm''" "''a''" "''AA''" "''me''" HmacSha1 6 30 False]
    by (simp add: totp_default_def)
qed


text \<open>The display string of a record (\<open>make_totp_item_from_record\<close>).\<close>

definition totp_item_extra :: "totp_record \<Rightarrow> string" where
  "totp_item_extra r =
     totp_extra (t_secret r) (unat (t_digits r)) (unat (t_timestep r)) (t_algorithm r) (t_is_hotp r)"

text \<open>A scanned URI that asks for 64 to 255 digits is accepted, and showing the code of the record
  then panics.\<close>

theorem scanned_digits_panic:
  assumes "tag_contract hmac" and "base32 secret = Some k"
    and "\<And>c. keep c \<Longrightarrow> unreserved c" and "\<forall>c \<in> set (label @ secret @ issuer). (of_char c :: nat) < 128"
    and "CHR '':'' \<notin> set secret" and "a \<noteq> AlgNone" and "64 \<le> digits" "digits \<le> 255" and "period \<le> u64_max"
  shows "\<exists>r. from_uri (otp_uri keep hotp label secret issuer a digits period) = Inr r
    \<and> db_str_to_code hmac base32 err (Some now) (totp_item_extra r) = Inl Panicked"
proof -
  let ?r = "\<lparr>t_version = 0, t_secret = secret, t_name = label, t_algorithm = a, t_notes = issuer,
         t_digits = word_of_nat digits, t_timestep = (if hotp then 0 else word_of_nat period),
         t_ctime = 0, t_is_hotp = hotp\<rparr>"
  have d: "digits \<le> u32_max" using assms(8) by simp
  have uri: "from_uri (otp_uri keep hotp label secret issuer a digits period) = Inr ?r"
    by (rule otpauth_uri_understood [OF assms(3,4,6) d assms(9)])
  have u: "unat (word_of_nat digits :: u32) = digits" "unat (word_of_nat digits :: u8) = digits"
    using assms(8) by (simp_all add: unat_of_nat)
  have p: "unat (if hotp then 0 else word_of_nat period :: u64) \<le> u64_max" by (rule unat_u64_le)
  have panic: "generate_totp_code hmac t \<lparr>step_seconds = s, shared_secret = k,
      digit_count = word_of_nat digits, algorithm = b\<rparr> = Inl Panicked" for t s b
    using code_panics_exactly [OF assms(1)] u(2) assms(7) by simp
  have "db_str_to_code hmac base32 err (Some now) (totp_item_extra ?r) = Inl Panicked"
    using db_str_shows_record [of secret base32 k digits
        "unat (if hotp then 0 else word_of_nat period :: u64)" hmac err now a hotp,
        OF assms(5) assms(2) assms(8) p]
    by (simp add: totp_item_extra_def u panic shown_code_def)
  with uri show ?thesis by blast
qed

definition injected :: totp_record where
  "injected = totp_default\<lparr>t_secret := ''A'', t_name := ''x'', t_digits := 6, t_timestep := 30,
     t_notes := newline # ''secret:B''\<rparr>"

text \<open>A percent-encoded newline in a URI ends the field it stands in, so the rest of it is read
  back as further fields of the record.\<close>

theorem uri_injects_fields:
  "from_uri ''totp/x?secret=A&issuer=%0Asecret:B'' = Inr injected
   \<and> totp_from_vec (totp_to_vec injected) self =
       (None, injected\<lparr>t_secret := ''AB'', t_notes := [], t_algorithm := HmacSha1\<rparr>)"
proof
  have nl: "char_of (10 :: nat) = newline" by code_simp
  show "from_uri ''totp/x?secret=A&issuer=%0Asecret:B'' = Inr injected"
    using nl
    by (simp add: from_uri_def otp_kind_def to_lower_def lower_char_def parse_query_def
        from_str_radix_def to_digit_def push_latin1_def record_of_params_def uri_algorithm_def
        uri_number_def injected_def totp_default_def)
  let ?fs = "[(''version'', show_nat 0), (''secret'', ''A''), (''name'', ''x''), (''algorithm'', ''None''),
    (''notes'', []), (''secret'', ''B''), (''digits'', show_nat 6), (''timestep'', show_nat 30),
    (''hotp'', ''0''), (''ctime'', show_nat 0)]"
  have lines: "field_lines (totp_fields injected) = field_lines ?fs"
    by (simp add: field_lines_def field_line_def totp_fields_def injected_def totp_default_def)
  have "\<And>f. f \<in> set ?fs \<Longrightarrow> plain_field f" by (auto simp: plain_field_def)
  from parse_field_lines [OF this, of ?fs totp_field totp_default]
  have "parse_fields totp_field (split_on newline (field_lines ?fs)) totp_default =
      Inr (injected\<lparr>t_secret := ''AB'', t_notes := [], t_algorithm := HmacSha1\<rparr>)"
    by (simp add: totp_field_def num_field_def from_str_radix_show_nat alg_try_from_def
        totp_default_def injected_def from_str_radix_def [of _ _ "''0''"] to_digit_def)
  moreover have "from_utf8 (totp_to_vec injected) = Some (field_lines ?fs)"
    unfolding totp_to_vec_def lines [symmetric]
    by (rule from_utf8_bytes_of [OF utf8_totp]) (simp add: totp_texts_def injected_def utf8_ok_ascii)
  ultimately show "totp_from_vec (totp_to_vec injected) self =
       (None, injected\<lparr>t_secret := ''AB'', t_notes := [], t_algorithm := HmacSha1\<rparr>)"
    unfolding totp_from_vec_def by simp
qed

text \<open>A percent-encoded letter outside ASCII is read as two Latin-1 letters.\<close>

theorem percent_utf8_not_decoded:
  "url_decode ''%C3%A9'' = Inr [CHR 0xC3, CHR 0x83, CHR 0xC2, CHR 0xA9]
   \<and> url_decode ''%C3%A9'' \<noteq> Inr [CHR 0xC3, CHR 0xA9]"
  by code_simp

section \<open>Application records\<close>

record app_info =
  a_name :: string
  a_id :: bytes
  a_notes :: string
  a_ctime :: u64
  a_atime :: u64
  a_count :: u64

datatype app_fault = AppRefused | AppPanicked

text \<open>\<open>hex_decode\<close> is the decoder of the hex crate.  An identifier of another length than 32 makes
  \<open>copy_from_slice\<close> panic.  A bad count is skipped, any other bad number and any unknown tag refuse
  the whole record.\<close>

definition app_field :: "(string \<Rightarrow> bytes option) \<Rightarrow> string \<Rightarrow> string \<Rightarrow> app_info \<Rightarrow> app_fault + app_info" where
  "app_field hex_decode tag data r =
     (if tag = ''name'' then Inr (r\<lparr>a_name := a_name r @ data\<rparr>)
      else if tag = ''notes'' then Inr (r\<lparr>a_notes := a_notes r @ data\<rparr>)
      else if tag = ''id'' then
        (case hex_decode data of
           None \<Rightarrow> Inl AppRefused
         | Some v \<Rightarrow> if length v = 32 then Inr (r\<lparr>a_id := v\<rparr>) else Inl AppPanicked)
      else if tag = ''ctime'' then num_field u64_max AppRefused data (\<lambda>n. r\<lparr>a_ctime := word_of_nat n\<rparr>)
      else if tag = ''atime'' then num_field u64_max AppRefused data (\<lambda>n. r\<lparr>a_atime := word_of_nat n\<rparr>)
      else if tag = ''count'' then
        (case from_str_radix 10 u64_max data of
           None \<Rightarrow> Inr r
         | Some n \<Rightarrow> Inr (r\<lparr>a_count := word_of_nat n\<rparr>))
      else Inl AppRefused)"

definition app_new :: app_info where
  "app_new = \<lparr>a_name = [], a_id = replicate 32 0, a_notes = [], a_ctime = 0, a_atime = 0, a_count = 0\<rparr>"

definition deserialize_app_info :: "(string \<Rightarrow> bytes option) \<Rightarrow> bytes \<Rightarrow> app_fault + app_info" where
  "deserialize_app_info hex_decode descriptor =
     (case from_utf8 descriptor of
        None \<Rightarrow> Inl AppRefused
      | Some desc \<Rightarrow>
          (case parse_fields (app_field hex_decode) (split_on newline desc) app_new of
             Inl (e, _) \<Rightarrow> Inl e
           | Inr a \<Rightarrow> if 0 < length (a_name a) \<and> a_id a \<noteq> replicate 32 0 then Inr a else Inl AppRefused))"

definition app_fields :: "(bytes \<Rightarrow> string) \<Rightarrow> app_info \<Rightarrow> (string \<times> string) list" where
  "app_fields hex_encode a =
     [(''name'', a_name a),
      (''id'', hex_encode (a_id a)),
      (''ctime'', show_nat (unat (a_ctime a))),
      (''atime'', show_nat (unat (a_atime a))),
      (''count'', show_nat (unat (a_count a)))]"

definition serialize_app_info :: "(bytes \<Rightarrow> string) \<Rightarrow> app_info \<Rightarrow> bytes" where
  "serialize_app_info hex_encode a = bytes_of (field_lines (app_fields hex_encode a))"

text \<open>What the hex crate documents: decoding undoes encoding, and the text
  has characters from \<open>0\<close> to \<open>f\<close> only.\<close>

definition hex_laws :: "(bytes \<Rightarrow> string) \<Rightarrow> (string \<Rightarrow> bytes option) \<Rightarrow> bool" where
  "hex_laws enc dec \<longleftrightarrow> (\<forall>b. dec (enc b) = Some b \<and> (\<forall>c \<in> set (enc b). 48 \<le> (of_char c :: nat) \<and> (of_char c :: nat) \<le> 102))"

lemma hex_laws_text: "hex_laws enc dec \<Longrightarrow> newline \<notin> set (enc b) \<and> utf8_ok (enc b)"
proof -
  assume h: "hex_laws enc dec"
  then have r: "\<forall>c \<in> set (enc b). 48 \<le> (of_char c :: nat) \<and> (of_char c :: nat) \<le> 102"
    by (simp add: hex_laws_def)
  then have "newline \<notin> set (enc b)" by fastforce
  moreover have "utf8_ok (enc b)" by (rule utf8_ok_all_ascii) (use r in fastforce)
  ultimately show ?thesis ..
qed

text \<open>An application record reads back without its notes, provided it has a name of one line and an
  identifier that is not all zeros; otherwise it is refused.\<close>

theorem app_info_round_trip:
  assumes "hex_laws enc dec" and "length (a_id a) = 32" and "utf8_ok (a_name a)" and "newline \<notin> set (a_name a)"
  shows "deserialize_app_info dec (serialize_app_info enc a) =
    (if a_name a \<noteq> [] \<and> a_id a \<noteq> replicate 32 0 then Inr (a\<lparr>a_notes := []\<rparr>) else Inl AppRefused)"
proof -
  have plain: "\<And>f. f \<in> set (app_fields enc a) \<Longrightarrow> plain_field f"
    using hex_laws_text [OF assms(1)] assms(4) by (auto simp: app_fields_def plain_field_def)
  have lit: "utf8_ok ''id''" by (simp add: utf8_ok_ascii)
  have "utf8_ok (field_lines (app_fields enc a))"
    by (rule utf8_ok_field_lines)
       (use hex_laws_text [OF assms(1)] assms(3) in \<open>auto simp: app_fields_def utf8_literals utf8_ok_show_nat lit\<close>)
  then have desc: "from_utf8 (serialize_app_info enc a) = Some (field_lines (app_fields enc a))"
    unfolding serialize_app_info_def by (rule from_utf8_bytes_of)
  have num: "from_str_radix 10 u64_max (show_nat (unat (w :: u64))) = Some (unat w)" for w
    by (rule from_str_radix_show_nat [OF unat_u64_le])
  have "put_fields (app_field dec) (app_fields enc a) app_new = Inr (a\<lparr>a_notes := []\<rparr>)"
    using assms(1,2) by (simp add: app_fields_def app_field_def app_new_def hex_laws_def num)
  then have "parse_fields (app_field dec) (split_on newline (field_lines (app_fields enc a))) app_new =
      Inr (a\<lparr>a_notes := []\<rparr>)"
    using parse_field_lines [OF plain, of "app_fields enc a" "app_field dec" app_new] by simp
  then show ?thesis unfolding deserialize_app_info_def desc option.case by simp
qed


text \<open>\<open>hex\<close> of \<open>src/storage.rs\<close> (\<open>{:02X}\<close> of each byte), which names the keys of records, and its
  inverse.\<close>

definition hex :: "bytes \<Rightarrow> string" where
  "hex data = concat (map (\<lambda>b. [hex_char (unat b div 16), hex_char (unat b mod 16)]) data)"

fun unhex :: "string \<Rightarrow> bytes option" where
  "unhex [] = Some []"
| "unhex [c] = None"
| "unhex (c # d # cs) =
     (case from_str_radix 16 255 [c, d] of
        None \<Rightarrow> None
      | Some n \<Rightarrow> map_option (\<lambda>r. word_of_nat n # r) (unhex cs))"

lemma unhex_hex [codec]: "unhex (hex b) = Some b"
proof (induction b)
  case (Cons a b)
  have "from_str_radix 16 255 [hex_char (unat a div 16), hex_char (unat a mod 16)] = Some (unat a)"
    by (rule from_str_radix_hex) (use unat_byte [of a] in simp)
  then show ?case using Cons by (simp add: hex_def)
qed (simp add: hex_def)

lemma hex_inj: "hex a = hex b \<longleftrightarrow> a = b"
  by (metis unhex_hex option.inject)

lemma hex_chars: "c \<in> set (hex b) \<Longrightarrow> 48 \<le> (of_char c :: nat) \<and> (of_char c :: nat) \<le> 102"
proof -
  have "48 \<le> (of_char (hex_char d) :: nat) \<and> (of_char (hex_char d) :: nat) \<le> 102" if "d < 16" for d
    using that by (auto simp: hex_char_def)
  moreover have "unat a div 16 < 16" for a :: u8 using unat_byte [of a] by simp
  ultimately show "c \<in> set (hex b) \<Longrightarrow> 48 \<le> (of_char c :: nat) \<and> (of_char c :: nat) \<le> 102"
    by (auto simp: hex_def)
qed

lemma hex_laws_hex: "hex_laws hex unhex"
  by (simp add: hex_laws_def codec hex_chars)

definition sample_app :: app_info where
  "sample_app = app_new\<lparr>a_name := ''example'', a_id := replicate 32 1, a_notes := ''n''\<rparr>"

theorem app_info_round_trip_witness:
  "deserialize_app_info unhex (serialize_app_info hex sample_app) = Inr (sample_app\<lparr>a_notes := []\<rparr>)"
  using app_info_round_trip [of hex unhex sample_app] hex_laws_hex
  by (simp add: sample_app_def app_new_def utf8_ok_ascii)

theorem scanned_digits_panic_witness:
  "\<exists>r. from_uri (otp_uri (\<lambda>c. False) False ''a'' ''AA'' ''me'' HmacSha1 64 30) = Inr r
    \<and> db_str_to_code (\<lambda>a k m. Some rfc_tag) (\<lambda>s. Some []) ''error'' (Some 59) (totp_item_extra r) = Inl Panicked"
  using scanned_digits_panic [of "\<lambda>a k m. Some rfc_tag" "\<lambda>s. Some []" "''AA''" "[]" "\<lambda>c. False" "''a''" "''me''"
      HmacSha1 64 30 False "''error''" 59]
  by (simp add: tag_contract_def)


end
