(* ===== verification/Vault_Store.thy ===== *)
theory Vault_Store
  imports Records
begin

text \<open>
  The record manager of the vault (\<open>src/storage.rs\<close>, \<open>Manager\<close>) on the plausibly deniable
  database.  The database is the list of its open bases in search order, the most recently
  opened first; each basis holds dictionaries of keys.  A lookup without a basis searches them in
  order, a creation without a basis goes to the first.  One call of \<open>write\<close> passes on at most
  4072 bytes and leaves what lies beyond them.  Failures of the medium are not modelled; a basis
  that is not open is an input/output error.
\<close>

section \<open>The database\<close>

type_synonym basis = "string \<Rightarrow> dict"
type_synonym pddb = "(string \<times> basis) list"

definition PDDB_BUF_DATA_LEN :: nat where "PDDB_BUF_DATA_LEN = 4072"

fun pddb_find :: "pddb \<Rightarrow> string \<Rightarrow> string \<Rightarrow> (string \<times> bytes) option" where
  "pddb_find [] dict key = None"
| "pddb_find ((b, ds) # p) dict key =
     (case ds dict key of Some v \<Rightarrow> Some (b, v) | None \<Rightarrow> pddb_find p dict key)"

text \<open>\<open>pddb.get\<close> without the creation flags: the basis found and the contents.\<close>

definition pddb_get :: "pddb \<Rightarrow> string option \<Rightarrow> string \<Rightarrow> string \<Rightarrow> (string \<times> bytes) option" where
  "pddb_get p basis dict key =
     (case basis of
        None \<Rightarrow> pddb_find p dict key
      | Some b \<Rightarrow> (case map_of p b of None \<Rightarrow> None | Some ds \<Rightarrow> map_option (Pair b) (ds dict key)))"

definition on_basis :: "string \<Rightarrow> (basis \<Rightarrow> basis) \<Rightarrow> pddb \<Rightarrow> pddb" where
  "on_basis b f p = map (\<lambda>(n, ds). (n, if n = b then f ds else ds)) p"

definition on_dict :: "string \<Rightarrow> (dict \<Rightarrow> dict) \<Rightarrow> basis \<Rightarrow> basis" where
  "on_dict dict f ds = ds(dict := f (ds dict))"

text \<open>Where \<open>pddb.get\<close> with both creation flags finds or makes the key.\<close>

definition create_basis :: "pddb \<Rightarrow> string option \<Rightarrow> string option" where
  "create_basis p basis =
     (case basis of
        None \<Rightarrow> (case p of [] \<Rightarrow> None | (b, _) # _ \<Rightarrow> Some b)
      | Some b \<Rightarrow> if b \<in> fst ` set p then Some b else None)"

definition pddb_delete_key :: "pddb \<Rightarrow> string \<Rightarrow> string \<Rightarrow> string \<Rightarrow> pddb" where
  "pddb_delete_key p dict key b = on_basis b (on_dict dict (dict_delete key)) p"

section \<open>Records as the manager sees them\<close>

text \<open>\<open>StorageContent\<close>: the operations of a record kind.  \<open>c_from_vec\<close> reads into a default
  record, \<open>c_hashed\<close> is the text whose digest names the key.\<close>

record 'r content =
  c_dict :: string
  c_set_ctime :: "u64 \<Rightarrow> 'r \<Rightarrow> 'r"
  c_from_vec :: "bytes \<Rightarrow> 'r option"
  c_to_vec :: "'r \<Rightarrow> bytes"
  c_hashed :: "'r \<Rightarrow> bytes"

definition totp_content :: "totp_record content" where
  "totp_content =
     \<lparr>c_dict = ''vault.totp'',
      c_set_ctime = (\<lambda>t r. r\<lparr>t_ctime := t\<rparr>),
      c_from_vec = (\<lambda>d. case totp_from_vec d totp_default of (None, r) \<Rightarrow> Some r | (Some _, _) \<Rightarrow> None),
      c_to_vec = totp_to_vec,
      c_hashed = (\<lambda>r. bytes_of (t_name r))\<rparr>"

definition pw_content :: "pw_record content" where
  "pw_content =
     \<lparr>c_dict = ''vault.passwords'',
      c_set_ctime = (\<lambda>t r. r\<lparr>p_ctime := t\<rparr>),
      c_from_vec = (\<lambda>d. case pw_from_vec d pw_default of (None, r) \<Rightarrow> Some r | (Some _, _) \<Rightarrow> None),
      c_to_vec = pw_to_vec,
      c_hashed = (\<lambda>r. bytes_of (p_description r) @ bytes_of (p_username r))\<rparr>"

section \<open>The manager\<close>

datatype store_error = StoreIo | StoreSer | KeyExists | DupesExist "nat list"

definition pddb_store :: "bytes \<Rightarrow> string \<Rightarrow> string \<Rightarrow> string option \<Rightarrow> bool \<Rightarrow> pddb \<Rightarrow> (store_error + unit) \<times> pddb" where
  "pddb_store payload dict key basis overwrite p =
     (if \<not> overwrite \<and> pddb_get p basis dict key \<noteq> None then (Inl KeyExists, p)
      else case create_basis p basis of
             None \<Rightarrow> (Inl StoreIo, p)
           | Some b \<Rightarrow>
               (Inr (), on_basis b (on_dict dict (dict_write key (take PDDB_BUF_DATA_LEN payload))) p))"

text \<open>\<open>sha\<close> is SHA-256; \<open>now\<close> is the clock in seconds.\<close>

definition key_of :: "(bytes \<Rightarrow> bytes) \<Rightarrow> 'r content \<Rightarrow> 'r \<Rightarrow> string" where
  "key_of sha c r = hex (sha (c_hashed c r))"

definition new_record ::
  "(bytes \<Rightarrow> bytes) \<Rightarrow> u64 \<Rightarrow> 'r content \<Rightarrow> 'r \<Rightarrow> string option \<Rightarrow> bool \<Rightarrow> pddb \<Rightarrow> (store_error + unit) \<times> pddb" where
  "new_record sha now c r basis overwrite p =
     (let r' = c_set_ctime c now r
      in pddb_store (c_to_vec c r') (c_dict c) (key_of sha c r') basis overwrite p)"

text \<open>The loop of \<open>new_records\<close>: duplicates are collected, any other error ends it.  \<open>clock i\<close> is the
  time when record \<open>i\<close> is stored.\<close>

fun store_all ::
  "(bytes \<Rightarrow> bytes) \<Rightarrow> (nat \<Rightarrow> u64) \<Rightarrow> 'r content \<Rightarrow> string option \<Rightarrow> bool \<Rightarrow> nat \<Rightarrow> nat list \<Rightarrow> 'r list \<Rightarrow> pddb
     \<Rightarrow> (store_error + nat list) \<times> pddb" where
  "store_all sha clock c basis overwrite i dupes [] p = (Inr dupes, p)"
| "store_all sha clock c basis overwrite i dupes (r # rs) p =
     (case new_record sha (clock i) c r basis overwrite p of
        (Inr _, p') \<Rightarrow> store_all sha clock c basis overwrite (Suc i) dupes rs p'
      | (Inl KeyExists, p') \<Rightarrow> store_all sha clock c basis overwrite (Suc i) (dupes @ [i]) rs p'
      | (Inl e, p') \<Rightarrow> (Inl e, p'))"

definition new_records ::
  "(bytes \<Rightarrow> bytes) \<Rightarrow> (nat \<Rightarrow> u64) \<Rightarrow> 'r content \<Rightarrow> 'r list \<Rightarrow> string option \<Rightarrow> bool \<Rightarrow> pddb
     \<Rightarrow> (store_error + unit) \<times> pddb" where
  "new_records sha clock c rs basis overwrite p =
     (case store_all sha clock c basis overwrite 0 [] rs p of
        (Inl e, p') \<Rightarrow> (Inl e, p')
      | (Inr dupes, p') \<Rightarrow> (if dupes \<noteq> [] then Inl (DupesExist dupes) else Inr (), p'))"

definition get_record :: "'r content \<Rightarrow> string \<Rightarrow> pddb \<Rightarrow> store_error + 'r" where
  "get_record c key p =
     (case pddb_get p None (c_dict c) key of
        None \<Rightarrow> Inl StoreIo
      | Some (_, v) \<Rightarrow> (case c_from_vec c v of None \<Rightarrow> Inl StoreSer | Some r \<Rightarrow> Inr r))"

text \<open>\<open>keylist\<close> is what \<open>list_keys\<close> returns; the first failure ends the reading.\<close>

fun all_records :: "'r content \<Rightarrow> string list \<Rightarrow> pddb \<Rightarrow> store_error + 'r list" where
  "all_records c [] p = Inr []"
| "all_records c (k # ks) p =
     (case get_record c k p of
        Inl e \<Rightarrow> Inl e
      | Inr r \<Rightarrow> (case all_records c ks p of Inl e \<Rightarrow> Inl e | Inr rs \<Rightarrow> Inr (r # rs)))"

definition basis_for_key :: "string \<Rightarrow> string \<Rightarrow> pddb \<Rightarrow> store_error + string" where
  "basis_for_key dict key p =
     (case pddb_get p None dict key of None \<Rightarrow> Inl StoreIo | Some (b, _) \<Rightarrow> Inr b)"

definition update_record ::
  "(bytes \<Rightarrow> bytes) \<Rightarrow> u64 \<Rightarrow> 'r content \<Rightarrow> string \<Rightarrow> 'r \<Rightarrow> pddb \<Rightarrow> (store_error + unit) \<times> pddb" where
  "update_record sha now c key r p =
     (case basis_for_key (c_dict c) key p of
        Inl e \<Rightarrow> (Inl e, p)
      | Inr b \<Rightarrow> new_record sha now c r (Some b) True (pddb_delete_key p (c_dict c) key b))"

definition delete_record :: "'r content \<Rightarrow> string \<Rightarrow> pddb \<Rightarrow> (store_error + unit) \<times> pddb" where
  "delete_record c key p =
     (case basis_for_key (c_dict c) key p of
        Inl e \<Rightarrow> (Inl e, p)
      | Inr b \<Rightarrow> (Inr (), pddb_delete_key p (c_dict c) key b))"

text \<open>\<open>handle_autotype\<close> (\<open>src/ux.rs\<close>): the text typed on the host, and the record written back with
  its use counted.  The basis to write to is taken from a \<open>get\<close> with both creation flags.\<close>

definition open_key :: "string \<Rightarrow> string \<Rightarrow> string \<Rightarrow> pddb \<Rightarrow> pddb" where
  "open_key b dict key p = on_basis b (on_dict dict (\<lambda>d. case d key of None \<Rightarrow> d(key \<mapsto> []) | Some _ \<Rightarrow> d)) p"

definition handle_autotype :: "u64 \<Rightarrow> string \<Rightarrow> bool \<Rightarrow> pddb \<Rightarrow> (store_error + string) \<times> pddb" where
  "handle_autotype atime guid type_username p =
     (let dict = c_dict pw_content
      in case pddb_get p None dict guid of
           None \<Rightarrow> (Inl StoreIo, p)
         | Some (_, v) \<Rightarrow>
             (case pw_try_from v of
                Inl _ \<Rightarrow> (Inl StoreSer, p)
              | Inr pw \<Rightarrow>
                  let typed = (if type_username then p_username pw else p_password pw);
                      pw' = pw\<lparr>p_count := p_count pw + 1, p_atime := atime\<rparr>
                  in case create_basis p None of
                       None \<Rightarrow> (Inl StoreIo, p)
                     | Some b \<Rightarrow>
                         let p1 = open_key b dict guid p;
                             p2 = pddb_delete_key p1 dict guid b;
                             p3 = on_basis b (on_dict dict (dict_write guid (take PDDB_BUF_DATA_LEN (pw_to_vec pw')))) p2
                         in (Inr typed, p3)))"

section \<open>Lemmas: the database\<close>

text \<open>The contents of a key in one open basis.\<close>

definition at :: "pddb \<Rightarrow> string \<Rightarrow> string \<Rightarrow> string \<Rightarrow> bytes option" where
  "at p b dict key = (case map_of p b of None \<Rightarrow> None | Some ds \<Rightarrow> ds dict key)"

lemma get_Some_basis: "pddb_get p (Some b) dict key = map_option (Pair b) (at p b dict key)"
  by (simp add: pddb_get_def at_def split: option.splits)

lemma map_of_on_basis:
  "map_of (on_basis b f p) b' = (if b' = b then map_option f (map_of p b') else map_of p b')"
  by (induction p) (auto simp: on_basis_def)

lemma fst_on_basis [simp]: "fst ` set (on_basis b f p) = fst ` set p"
  by (force simp: on_basis_def)

lemma at_on_dict:
  "at (on_basis b (on_dict dict f) p) b' dict' key =
     (if b' = b \<and> dict' = dict then (case map_of p b of None \<Rightarrow> None | Some ds \<Rightarrow> f (ds dict) key)
      else at p b' dict' key)"
  by (auto simp: at_def map_of_on_basis on_dict_def split: option.splits)

lemma pddb_find_at:
  "pddb_find p dict key = Some (b, v) \<Longrightarrow> distinct (map fst p) \<Longrightarrow> at p b dict key = Some v"
proof (induction p)
  case (Cons a p)
  obtain n ds where a: "a = (n, ds)" by (cases a)
  show ?case
  proof (cases "ds dict key")
    case None
    then have f: "pddb_find p dict key = Some (b, v)" using Cons.prems(1) a by simp
    then have "b \<in> fst ` set p" by (induction p) (auto split: option.splits)
    then have "b \<noteq> n" using Cons.prems(2) a by auto
    with Cons f a show ?thesis by (simp add: at_def)
  next
    case (Some w)
    with Cons.prems a show ?thesis by (simp add: at_def)
  qed
qed simp

lemma pddb_find_basis: "pddb_find p dict key = Some (b, v) \<Longrightarrow> b \<in> fst ` set p"
  by (induction p) (auto split: option.splits)

lemma pddb_find_None: "pddb_find p dict key = None \<longleftrightarrow> (\<forall>(b, ds) \<in> set p. ds dict key = None)"
  by (induction p) (auto split: option.splits)

text \<open>A change of one key is invisible at every other key.\<close>

lemma find_other_key:
  "(\<forall>m. f m key' = m key') \<or> dict' \<noteq> dict \<Longrightarrow>
   pddb_find (on_basis b (on_dict dict f) p) dict' key' = pddb_find p dict' key'"
  by (induction p) (auto simp: on_basis_def on_dict_def split: option.splits)

lemma find_head: "pddb_find ((b, ds) # p) dict key = Some (b, v) \<longleftrightarrow> ds dict key = Some v \<or>
    ds dict key = None \<and> pddb_find p dict key = Some (b, v)"
  by (auto split: option.splits)

lemma create_basis_open: "create_basis p basis = Some b \<Longrightarrow> b \<in> fst ` set p"
  by (auto simp: create_basis_def split: option.splits if_splits list.splits)

lemma open_basis: "b \<in> fst ` set p \<Longrightarrow> \<exists>ds. map_of p b = Some ds"
  using map_of_eq_None_iff [of p b] by (cases "map_of p b") auto

section \<open>Record kinds\<close>

text \<open>What the manager relies on in a record kind: records that are \<open>ok\<close> read back as \<open>norm\<close> of
  themselves, and stamping the creation time changes neither that nor the name of the key.\<close>

definition stored :: "'r content \<Rightarrow> u64 \<Rightarrow> 'r \<Rightarrow> bytes" where
  "stored c now r = c_to_vec c (c_set_ctime c now r)"

locale record_kind =
  fixes c :: "'r content"
    and ok :: "'r \<Rightarrow> bool"
    and norm :: "'r \<Rightarrow> 'r"
  assumes reads_back: "ok r \<Longrightarrow> c_from_vec c (c_to_vec c r) = Some (norm r)"
    and stamp_ok: "ok r \<Longrightarrow> ok (c_set_ctime c t r)"
    and stamp_key: "c_hashed c (c_set_ctime c t r) = c_hashed c r"
begin

lemma key_of_stamp: "key_of sha c (c_set_ctime c t r) = key_of sha c r"
  by (simp add: key_of_def stamp_key)

lemma new_record_eq:
  "new_record sha now c r basis overwrite p =
     pddb_store (stored c now r) (c_dict c) (key_of sha c r) basis overwrite p"
  by (simp add: new_record_def Let_def key_of_stamp stored_def)

text \<open>A write that fits one call and covers the old contents leaves exactly the record.\<close>

lemma store_at:
  assumes "create_basis p basis = Some b" and "overwrite \<or> pddb_get p basis (c_dict c) (key_of sha c r) = None"
    and "length (stored c now r) \<le> PDDB_BUF_DATA_LEN"
    and "\<And>v. at p b (c_dict c) (key_of sha c r) = Some v \<Longrightarrow> length v \<le> length (stored c now r)"
  shows "\<exists>p'. new_record sha now c r basis overwrite p = (Inr (), p')
    \<and> at p' b (c_dict c) (key_of sha c r) = Some (stored c now r)
    \<and> (\<forall>b' d k. (b', d, k) \<noteq> (b, c_dict c, key_of sha c r) \<longrightarrow> at p' b' d k = at p b' d k)"
proof -
  let ?k = "key_of sha c r" and ?w = "dict_write (key_of sha c r) (take PDDB_BUF_DATA_LEN (stored c now r))"
  obtain ds where ds: "map_of p b = Some ds" using open_basis [OF create_basis_open [OF assms(1)]] by blast
  have "new_record sha now c r basis overwrite p = (Inr (), on_basis b (on_dict (c_dict c) ?w) p)"
    using assms(1,2) unfolding new_record_eq pddb_store_def by auto
  moreover have t: "take PDDB_BUF_DATA_LEN (stored c now r) = stored c now r" using assms(3) by simp
  have "?w (ds (c_dict c)) ?k = Some (stored c now r)"
    unfolding t by (rule pddb_keys.write_covers) (use assms(4) ds in \<open>auto simp: at_def\<close>)
  ultimately show ?thesis using ds by (auto simp: at_on_dict) (auto simp: at_def dict_write_def split: option.splits)
qed

lemma read_stored: "ok r \<Longrightarrow> c_from_vec c (stored c now r) = Some (norm (c_set_ctime c now r))"
  by (simp add: stored_def reads_back stamp_ok)

end

definition totp_ok :: "totp_record \<Rightarrow> bool" where
  "totp_ok r \<longleftrightarrow> list_all utf8_ok (totp_texts r) \<and> one_line (totp_texts r)"

definition pw_ok :: "pw_record \<Rightarrow> bool" where
  "pw_ok r \<longleftrightarrow> list_all utf8_ok (pw_texts r) \<and> one_line (pw_texts r)"

interpretation totp_kind: record_kind totp_content totp_ok totp_shown
  by unfold_locales (simp_all add: totp_content_def totp_ok_def totp_parse_print totp_texts_def)

interpretation pw_kind: record_kind pw_content pw_ok id
  by unfold_locales (simp_all add: pw_content_def pw_ok_def pw_parse_print pw_texts_def)

section \<open>Properties\<close>

lemma get_record_head:
  "p \<noteq> [] \<Longrightarrow> at p (fst (hd p)) (c_dict c) key = Some v \<Longrightarrow>
   get_record c key p = (case c_from_vec c v of None \<Rightarrow> Inl StoreSer | Some r \<Rightarrow> Inr r)"
  by (cases p) (auto simp: get_record_def pddb_get_def at_def)

lemma create_basis_head: "p \<noteq> [] \<Longrightarrow> create_basis p None = Some (fst (hd p))"
  by (cases p) (auto simp: create_basis_def)

lemma head_on_basis [simp]: "fst (hd (on_basis b f p)) = fst (hd p)"
  by (cases p) (auto simp: on_basis_def)

lemma new_record_bases:
  "new_record sha now c r basis overwrite p = (x, p') \<Longrightarrow> map fst p' = map fst p"
  by (auto simp: new_record_def Let_def pddb_store_def on_basis_def comp_def case_prod_beta
      split: if_splits option.splits)

lemma head_of_bases: "map fst p' = map fst p \<Longrightarrow> p \<noteq> [] \<Longrightarrow> p' \<noteq> [] \<and> fst (hd p') = fst (hd p)"
  by (cases p; cases p') auto

lemma pw_stored_reads:
  assumes "p \<noteq> []" and "pw_ok r" and "length (stored pw_content now r) \<le> PDDB_BUF_DATA_LEN"
    and "\<And>v. at p (fst (hd p)) ''vault.passwords'' (key_of sha pw_content r) = Some v \<Longrightarrow>
           length v \<le> length (stored pw_content now r)"
  shows "\<exists>p'. new_record sha now pw_content r None True p = (Inr (), p')
    \<and> get_record pw_content (key_of sha pw_content r) p' = Inr (r\<lparr>p_ctime := now\<rparr>)
    \<and> (\<forall>b d k. (b, d, k) \<noteq> (fst (hd p), ''vault.passwords'', key_of sha pw_content r) \<longrightarrow> at p' b d k = at p b d k)"
proof -
  have dict: "c_dict pw_content = ''vault.passwords''" by (simp add: pw_content_def)
  obtain p' where p': "new_record sha now pw_content r None True p = (Inr (), p')"
    "at p' (fst (hd p)) (c_dict pw_content) (key_of sha pw_content r) = Some (stored pw_content now r)"
    "\<forall>b d k. (b, d, k) \<noteq> (fst (hd p), c_dict pw_content, key_of sha pw_content r) \<longrightarrow> at p' b d k = at p b d k"
    using pw_kind.store_at [OF create_basis_head [OF assms(1)] disjI1 [OF TrueI] assms(3)] assms(4)
    unfolding dict by blast
  have h: "p' \<noteq> []" "fst (hd p') = fst (hd p)"
    using head_of_bases [OF new_record_bases [OF p'(1)] assms(1)] by simp_all
  have "get_record pw_content (key_of sha pw_content r) p' = Inr (c_set_ctime pw_content now r)"
    using get_record_head [OF h(1), of pw_content "key_of sha pw_content r"] p'(2) h(2)
      pw_kind.read_stored [OF assms(2)] by simp
  then have "get_record pw_content (key_of sha pw_content r) p' = Inr (r\<lparr>p_ctime := now\<rparr>)"
    by (simp add: pw_content_def)
  with p' show ?thesis unfolding dict by blast
qed

text \<open>A new password record that fits one write and covers what was stored under its key is found
  again as it was entered, with the time of its creation; no other key of any basis changes.\<close>

theorem new_password_reads_back:
  assumes "p \<noteq> []" and "pw_ok r" and "length (stored pw_content now r) \<le> PDDB_BUF_DATA_LEN"
    and "\<And>v. at p (fst (hd p)) ''vault.passwords'' (key_of sha pw_content r) = Some v \<Longrightarrow>
           length v \<le> length (stored pw_content now r)"
  shows "\<exists>p'. new_record sha now pw_content r None True p = (Inr (), p')
    \<and> get_record pw_content (key_of sha pw_content r) p' = Inr (r\<lparr>p_ctime := now\<rparr>)
    \<and> (\<forall>b d k. (b, d, k) \<noteq> (fst (hd p), ''vault.passwords'', key_of sha pw_content r) \<longrightarrow> at p' b d k = at p b d k)"
  using pw_stored_reads [OF assms] .

text \<open>Updating a record keeps it in its basis: the record is found there under the name of its new
  contents, the old name is gone, and no other key of any basis changes.\<close>

theorem update_keeps_basis:
  assumes "distinct (map fst p)" and "pddb_get p None ''vault.totp'' key = Some (b, old)" and "totp_ok r"
    and "length (stored totp_content now r) \<le> PDDB_BUF_DATA_LEN"
    and "key_of sha totp_content r = key \<or> at p b ''vault.totp'' (key_of sha totp_content r) = None"
  shows "\<exists>p'. update_record sha now totp_content key r p = (Inr (), p')
    \<and> at p' b ''vault.totp'' (key_of sha totp_content r) = Some (stored totp_content now r)
    \<and> c_from_vec totp_content (stored totp_content now r) = Some (totp_shown (r\<lparr>t_ctime := now\<rparr>))
    \<and> (key \<noteq> key_of sha totp_content r \<longrightarrow> at p' b ''vault.totp'' key = None)
    \<and> (\<forall>b' d k. (b', d) \<noteq> (b, ''vault.totp'') \<or> k \<notin> {key, key_of sha totp_content r} \<longrightarrow>
         at p' b' d k = at p b' d k)"
proof -
  have dict: "c_dict totp_content = ''vault.totp''" by (simp add: totp_content_def)
  let ?k = "key_of sha totp_content r" and ?q = "pddb_delete_key p ''vault.totp'' key b"
  have f: "pddb_find p ''vault.totp'' key = Some (b, old)" using assms(2) by (simp add: pddb_get_def)
  have open_b: "create_basis ?q (Some b) = Some b"
    using pddb_find_basis [OF f] by (simp add: create_basis_def pddb_delete_key_def)
  have q: "at ?q b' d k = (if (b', d, k) = (b, ''vault.totp'', key) then None else at p b' d k)" for b' d k
    unfolding pddb_delete_key_def at_on_dict by (auto simp: dict_delete_def at_def split: option.splits)
  then have "at ?q b ''vault.totp'' ?k = None" using assms(5) by auto
  then have none: "length v \<le> length (stored totp_content now r)" if "at ?q b ''vault.totp'' ?k = Some v" for v
    using that by simp
  obtain p' where p': "new_record sha now totp_content r (Some b) True ?q = (Inr (), p')"
    "at p' b ''vault.totp'' ?k = Some (stored totp_content now r)"
    "\<forall>b' d k. (b', d, k) \<noteq> (b, ''vault.totp'', ?k) \<longrightarrow> at p' b' d k = at ?q b' d k"
    using totp_kind.store_at [OF open_b disjI1 [OF TrueI] assms(4), of sha, unfolded dict, OF none] by blast
  have u: "update_record sha now totp_content key r p = (Inr (), p')"
    using p'(1) assms(2) by (simp add: update_record_def basis_for_key_def dict)
  have rd: "c_from_vec totp_content (stored totp_content now r) = Some (totp_shown (r\<lparr>t_ctime := now\<rparr>))"
    using totp_kind.read_stored [OF assms(3)] by (simp add: totp_content_def)
  show ?thesis
    using u p'(2) rd p'(3) q by (intro exI [of _ p']) auto
qed

lemma new_record_finds:
  assumes "new_record sha now c r None False p = (x, p')" and "p \<noteq> []"
  shows "(x = Inr () \<or> x = Inl KeyExists) \<and> p' \<noteq> []
    \<and> pddb_find p' (c_dict c) (key_of sha c (c_set_ctime c now r)) \<noteq> None
    \<and> (\<forall>d k v. pddb_find p d k = Some v \<longrightarrow> pddb_find p' d k = Some v)"
proof -
  let ?k = "key_of sha c (c_set_ctime c now r)"
  let ?w = "take PDDB_BUF_DATA_LEN (c_to_vec c (c_set_ctime c now r))"
  show ?thesis
  proof (cases "pddb_find p (c_dict c) ?k")
    case (Some z)
    then have "x = Inl KeyExists" "p' = p"
      using assms(1) by (auto simp: new_record_def Let_def pddb_store_def pddb_get_def)
    with Some assms(2) show ?thesis by simp
  next
    case None
    obtain b ds q where p: "p = (b, ds) # q" using assms(2) by (cases p) auto
    have p': "x = Inr ()" "p' = on_basis b (on_dict (c_dict c) (dict_write ?k ?w)) p"
      using assms(1) None p
      by (auto simp: new_record_def Let_def pddb_store_def pddb_get_def create_basis_def split: option.splits)
    have "pddb_find p' (c_dict c) ?k \<noteq> None"
      unfolding p'(2) by (simp add: p on_basis_def on_dict_def dict_write_def)
    moreover have "pddb_find p' d k = Some v" if v: "pddb_find p d k = Some v" for d k v
    proof -
      have "(d, k) \<noteq> (c_dict c, ?k)" using v None by auto
      then have "pddb_find (on_basis b (on_dict (c_dict c) (dict_write ?k ?w)) p) d k = pddb_find p d k"
        by (intro find_other_key) auto
      with v p'(2) show ?thesis by simp
    qed
    ultimately show ?thesis using p' p by (simp add: on_basis_def)
  qed
qed

context record_kind
begin

lemma store_all_keeps:
  assumes "p \<noteq> []"
  shows "\<exists>dupes' p'. store_all sha clock c None False i dupes rs p = (Inr dupes', p')
    \<and> (\<forall>d k v. pddb_find p d k = Some v \<longrightarrow> pddb_find p' d k = Some v)
    \<and> (\<forall>r \<in> set rs. pddb_find p' (c_dict c) (key_of sha c r) \<noteq> None)"
  using assms
proof (induction rs arbitrary: i dupes p)
  case (Cons r rs)
  obtain x q where q: "new_record sha (clock i) c r None False p = (x, q)"
    by (cases "new_record sha (clock i) c r None False p")
  note new = new_record_finds [OF q Cons.prems, unfolded key_of_stamp]
  obtain dupes' p' where IH: "store_all sha clock c None False (Suc i)
        (if x = Inr () then dupes else dupes @ [i]) rs q = (Inr dupes', p')"
    "\<forall>d k v. pddb_find q d k = Some v \<longrightarrow> pddb_find p' d k = Some v"
    "\<forall>r \<in> set rs. pddb_find p' (c_dict c) (key_of sha c r) \<noteq> None"
    using Cons.IH [of q] new by blast
  have "store_all sha clock c None False i dupes (r # rs) p = (Inr dupes', p')"
    using q IH(1) new by auto
  moreover have "\<forall>r' \<in> set (r # rs). pddb_find p' (c_dict c) (key_of sha c r') \<noteq> None"
    using IH(2,3) new by auto
  ultimately show ?case using IH(2) new by blast
qed auto

lemma new_records_keep:
  assumes "p \<noteq> []"
  shows "\<exists>x p'. new_records sha clock c rs None False p = (x, p')
    \<and> (x = Inr () \<or> (\<exists>ds. x = Inl (DupesExist ds)))
    \<and> (\<forall>d k v. pddb_get p None d k = Some v \<longrightarrow> pddb_get p' None d k = Some v)
    \<and> (\<forall>r \<in> set rs. pddb_get p' None (c_dict c) (key_of sha c r) \<noteq> None)"
proof -
  obtain ds p' where "store_all sha clock c None False 0 [] rs p = (Inr ds, p')"
    "\<forall>d k v. pddb_find p d k = Some v \<longrightarrow> pddb_find p' d k = Some v"
    "\<forall>r \<in> set rs. pddb_find p' (c_dict c) (key_of sha c r) \<noteq> None"
    using store_all_keeps [OF assms, of sha clock 0 "[]" rs] by blast
  then show ?thesis by (simp add: new_records_def pddb_get_def)
qed

end

text \<open>Restoring passwords from a backup ends without an error other than the report of duplicates,
  never changes a key that any open basis has, and leaves a record under the key of every entry.\<close>

theorem restore_keeps_existing:
  assumes "p \<noteq> []"
  shows "\<exists>x p'. new_records sha clock pw_content rs None False p = (x, p')
    \<and> (x = Inr () \<or> (\<exists>ds. x = Inl (DupesExist ds)))
    \<and> (\<forall>d k v. pddb_get p None d k = Some v \<longrightarrow> pddb_get p' None d k = Some v)
    \<and> (\<forall>r \<in> set rs. pddb_get p' None ''vault.passwords'' (key_of sha pw_content r) \<noteq> None)"
proof -
  have dict: "c_dict pw_content = ''vault.passwords''" by (simp add: pw_content_def)
  show ?thesis using pw_kind.new_records_keep [OF assms] unfolding dict .
qed

definition empty_pddb :: pddb where
  "empty_pddb = [(''.System'', \<lambda>_. Map.empty)]"

theorem restore_keeps_existing_witness:
  "\<exists>x p'. new_records id (\<lambda>_. 0) pw_content [sample_pw, sample_pw] None False empty_pddb = (x, p')
    \<and> pddb_get p' None ''vault.passwords'' (key_of id pw_content sample_pw) \<noteq> None"
  using restore_keeps_existing [of empty_pddb id "\<lambda>_. 0" "[sample_pw, sample_pw]"]
  by (auto simp: empty_pddb_def)

lemma sample_pw_ok: "pw_ok sample_pw"
  by (simp add: pw_ok_def pw_texts_def sample_pw_def pw_default_def one_line_def utf8_ok_ascii)

lemma show_nat_0 [simp]: "show_nat 0 = ''0''"
  by code_simp

lemma sample_pw_fits: "length (stored pw_content 0 sample_pw) \<le> PDDB_BUF_DATA_LEN"
  by (simp add: stored_def pw_content_def pw_to_vec_def pw_fields_def field_lines_def field_line_def
      sample_pw_def pw_default_def PDDB_BUF_DATA_LEN_def)

theorem new_password_reads_back_witness:
  "\<exists>p'. new_record id 0 pw_content sample_pw None True empty_pddb = (Inr (), p')
    \<and> get_record pw_content (key_of id pw_content sample_pw) p' = Inr (sample_pw\<lparr>p_ctime := 0\<rparr>)"
  using new_password_reads_back [of empty_pddb sample_pw 0 id] sample_pw_ok sample_pw_fits
  by (auto simp: empty_pddb_def at_def)

theorem update_keeps_basis_witness:
  "\<exists>p'. update_record id 0 totp_content ''OLD'' sample_totp
      [(''secret'', \<lambda>_. Map.empty), (''.System'', \<lambda>_. [''OLD'' \<mapsto> [1]])] = (Inr (), p')
    \<and> at p' ''.System'' ''vault.totp'' ''OLD'' = None
    \<and> at p' ''.System'' ''vault.totp'' (key_of id totp_content sample_totp) = Some (stored totp_content 0 sample_totp)"
proof -
  have k: "hex (bytes_of ''totp@authenticationtest.com'') \<noteq> ''OLD''"
    by (simp add: hex_def bytes_of_def)
  have ok: "totp_ok sample_totp"
    by (simp add: totp_ok_def totp_texts_def sample_totp_def totp_default_def one_line_def utf8_ok_ascii)
  have fits: "length (stored totp_content 0 sample_totp) \<le> PDDB_BUF_DATA_LEN"
    by (simp add: stored_def totp_content_def totp_to_vec_def totp_fields_def field_lines_def field_line_def
        sample_totp_def totp_default_def PDDB_BUF_DATA_LEN_def show_nat.simps)
  show ?thesis
    using update_keeps_basis [of "[(''secret'', \<lambda>_. Map.empty), (''.System'', \<lambda>_. [''OLD'' \<mapsto> [1]])]" "''OLD''"
        "''.System''" "[1]" sample_totp 0 id] ok fits k
    by (auto simp: pddb_get_def key_of_def totp_content_def sample_totp_def totp_default_def at_def)
qed

text \<open>Overwriting a longer record keeps its tail: the key then holds the new record followed by the
  rest of the old one.\<close>

theorem overwrite_keeps_tail:
  assumes "p \<noteq> []" and "at p (fst (hd p)) ''vault.totp'' (key_of sha totp_content r) = Some old"
    and "length (stored totp_content now r) \<le> PDDB_BUF_DATA_LEN"
  shows "\<exists>p'. new_record sha now totp_content r None True p = (Inr (), p')
    \<and> get_record totp_content (key_of sha totp_content r) p' =
        (case totp_from_vec (stored totp_content now r @ drop (length (stored totp_content now r)) old) totp_default of
           (None, r') \<Rightarrow> Inr r' | (Some _, _) \<Rightarrow> Inl StoreSer)"
proof -
  let ?k = "key_of sha totp_content r" and ?v = "stored totp_content now r"
  obtain b ds q where p: "p = (b, ds) # q" using assms(1) by (cases p) auto
  have old: "ds ''vault.totp'' ?k = Some old" using assms(2) p by (simp add: at_def)
  have dict: "c_dict totp_content = ''vault.totp''" by (simp add: totp_content_def)
  let ?p' = "on_basis b (on_dict ''vault.totp'' (dict_write ?k ?v)) p"
  have new: "new_record sha now totp_content r None True p = (Inr (), ?p')"
    using assms(3) p unfolding totp_kind.new_record_eq by (simp add: pddb_store_def create_basis_def dict)
  have "pddb_get ?p' None ''vault.totp'' ?k = Some (b, ?v @ drop (length ?v) old)"
    using old p by (simp add: pddb_get_def on_basis_def on_dict_def dict_write_def overlay_def)
  then have "get_record totp_content ?k ?p' =
      (case c_from_vec totp_content (?v @ drop (length ?v) old) of None \<Rightarrow> Inl StoreSer | Some r' \<Rightarrow> Inr r')"
    unfolding get_record_def dict by simp
  with new show ?thesis
    by (simp add: totp_content_def split: prod.splits option.splits)
qed

text \<open>A counter based password that replaces a time based one of the same name, with a shorter
  secret, is read back as a time based one.\<close>

definition old_scan :: totp_record where
  "old_scan = totp_default\<lparr>t_secret := ''AAAAAAAAAAAAAAAAA'', t_name := ''x'', t_algorithm := HmacSha1\<rparr>"

definition new_scan :: totp_record where
  "new_scan = totp_default\<lparr>t_secret := ''BB'', t_name := ''x'', t_algorithm := HmacSha1, t_is_hotp := True\<rparr>"

theorem overwrite_keeps_tail_witness:
  "\<exists>p'. new_record id 0 totp_content new_scan None True
      [(''.System'', \<lambda>_. [key_of id totp_content new_scan \<mapsto> totp_to_vec old_scan])] = (Inr (), p')
    \<and> get_record totp_content (key_of id totp_content new_scan) p' = Inr (new_scan\<lparr>t_is_hotp := False\<rparr>)"
proof -
  let ?fs = "totp_fields new_scan @ [(''hotp'', ''0''), (''ctime'', ''0'')]"
  have v: "stored totp_content 0 new_scan = bytes_of (field_lines (totp_fields new_scan))"
    by (simp add: stored_def totp_content_def totp_to_vec_def new_scan_def totp_default_def)
  have d: "drop (length (stored totp_content 0 new_scan)) (totp_to_vec old_scan) =
      bytes_of (field_lines [(''hotp'', ''0''), (''ctime'', ''0'')])"
    unfolding v totp_to_vec_def
    by (simp add: bytes_of_def field_lines_def field_line_def totp_fields_def new_scan_def old_scan_def totp_default_def)
  have all: "stored totp_content 0 new_scan @ drop (length (stored totp_content 0 new_scan)) (totp_to_vec old_scan) =
      bytes_of (field_lines ?fs)"
    unfolding d unfolding v by (simp add: bytes_of_def field_lines_def)
  have "\<And>f. f \<in> set ?fs \<Longrightarrow> plain_field f"
    by (auto simp: plain_field_def totp_fields_def new_scan_def totp_default_def)
  from parse_field_lines [OF this, of ?fs totp_field totp_default]
  have "parse_fields totp_field (split_on newline (field_lines ?fs)) totp_default = Inr (new_scan\<lparr>t_is_hotp := False\<rparr>)"
    by (simp add: totp_fields_def totp_field_def new_scan_def totp_default_def alg_try_from_def
        num_field_def from_str_radix_def to_digit_def)
  moreover have "from_utf8 (bytes_of (field_lines ?fs)) = Some (field_lines ?fs)"
    by (rule from_utf8_bytes_of, rule utf8_ok_field_lines)
       (auto simp: totp_fields_def new_scan_def totp_default_def utf8_literals utf8_ok_ascii)
  ultimately have "totp_from_vec (bytes_of (field_lines ?fs)) totp_default = (None, new_scan\<lparr>t_is_hotp := False\<rparr>)"
    by (simp add: totp_from_vec_def)
  moreover have "length (stored totp_content 0 new_scan) \<le> PDDB_BUF_DATA_LEN"
    unfolding v by (simp add: field_lines_def field_line_def totp_fields_def new_scan_def totp_default_def
        PDDB_BUF_DATA_LEN_def)
  ultimately show ?thesis
    using overwrite_keeps_tail [of "[(''.System'', \<lambda>_. [key_of id totp_content new_scan \<mapsto> totp_to_vec old_scan])]"
        id new_scan "totp_to_vec old_scan" 0]
    unfolding all by (simp add: at_def)
qed


lemma at_set:
  "map_of p b = Some ds \<Longrightarrow> (\<And>k. k \<noteq> key \<Longrightarrow> f (ds dict) k = ds dict k) \<Longrightarrow>
   at (on_basis b (on_dict dict f) p) b' d k =
     (if (b', d, k) = (b, dict, key) then f (ds dict) key else at p b' d k)"
  unfolding at_on_dict by (auto simp: at_def)

lemma map_of_on_basis_same: "map_of p b = Some ds \<Longrightarrow> map_of (on_basis b f p) b = Some (f ds)"
  by (simp add: map_of_on_basis)

text \<open>Typing a password types the stored text and writes the record back with its use counted into
  the first open basis, whatever basis it was found in: a record of another basis stays there as it
  was and gains a copy in the first.\<close>

theorem autotype_writes_first_basis:
  assumes "p \<noteq> []" and "pddb_get p None ''vault.passwords'' guid = Some (b0, pw_to_vec pw)" and "pw_ok pw"
    and "length (pw_to_vec (pw\<lparr>p_count := p_count pw + 1, p_atime := t\<rparr>)) \<le> PDDB_BUF_DATA_LEN"
  shows "\<exists>p'. handle_autotype t guid user p = (Inr (if user then p_username pw else p_password pw), p')
    \<and> at p' (fst (hd p)) ''vault.passwords'' guid = Some (pw_to_vec (pw\<lparr>p_count := p_count pw + 1, p_atime := t\<rparr>))
    \<and> (\<forall>b d k. (b, d, k) \<noteq> (fst (hd p), ''vault.passwords'', guid) \<longrightarrow> at p' b d k = at p b d k)"
proof -
  let ?d = "''vault.passwords''" and ?b = "fst (hd p)"
  let ?v = "pw_to_vec (pw\<lparr>p_count := p_count pw + 1, p_atime := t\<rparr>)"
  have dict: "c_dict pw_content = ?d" by (simp add: pw_content_def)
  have parse: "pw_try_from (pw_to_vec pw) = Inr pw"
    using pw_parse_print(2) assms(3) by (simp add: pw_ok_def)
  let ?p1 = "open_key ?b ?d guid p"
  let ?p2 = "pddb_delete_key ?p1 ?d guid ?b"
  let ?p3 = "on_basis ?b (on_dict ?d (dict_write guid ?v)) ?p2"
  have run: "handle_autotype t guid user p = (Inr (if user then p_username pw else p_password pw), ?p3)"
    unfolding handle_autotype_def dict Let_def assms(2) option.case prod.case parse sum.case
      create_basis_head [OF assms(1)] using assms(4) by simp
  obtain ds where m: "map_of p ?b = Some ds" using assms(1) by (cases p) auto
  then obtain ds1 where m1: "map_of ?p1 ?b = Some ds1" unfolding open_key_def by (simp add: map_of_on_basis_same)
  then obtain ds2 where m2: "map_of ?p2 ?b = Some ds2" unfolding pddb_delete_key_def by (simp add: map_of_on_basis_same)
  have a1: "at ?p1 b d k = at p b d k" if "(b, d, k) \<noteq> (?b, ?d, guid)" for b d k
    unfolding open_key_def using that by (subst at_set [OF m]) (auto split: option.splits)
  have a2: "at ?p2 b d k = (if (b, d, k) = (?b, ?d, guid) then None else at ?p1 b d k)" for b d k
    unfolding pddb_delete_key_def by (subst at_set [OF m1]) (auto simp: dict_delete_def)
  have "ds2 ?d guid = None" using a2 [of ?b ?d guid] m2 by (simp add: at_def)
  then have a3: "at ?p3 b d k = (if (b, d, k) = (?b, ?d, guid) then Some ?v else at ?p2 b d k)" for b d k
    by (subst at_set [OF m2]) (auto simp: dict_write_def)
  show ?thesis using run a1 a2 a3 by (intro exI [of _ ?p3]) auto
qed

theorem autotype_writes_first_basis_witness:
  "\<exists>p'. handle_autotype 7 ''K'' False
      [(''secret'', \<lambda>_. Map.empty), (''.System'', \<lambda>_. [''K'' \<mapsto> pw_to_vec sample_pw])] = (Inr ''a:b'', p')
    \<and> at p' ''secret'' ''vault.passwords'' ''K'' = Some (pw_to_vec (sample_pw\<lparr>p_count := 1, p_atime := 7\<rparr>))
    \<and> at p' ''.System'' ''vault.passwords'' ''K'' = Some (pw_to_vec sample_pw)"
proof -
  have s: "show_nat 7 = ''7''" "show_nat (Suc 0) = ''1''" by code_simp+
  have fits: "length (pw_to_vec (sample_pw\<lparr>p_count := p_count sample_pw + 1, p_atime := 7\<rparr>)) \<le> PDDB_BUF_DATA_LEN"
    by (simp add: pw_to_vec_def pw_fields_def field_lines_def field_line_def sample_pw_def pw_default_def
        PDDB_BUF_DATA_LEN_def s)
  let ?p = "[(''secret'', \<lambda>_. Map.empty), (''.System'', \<lambda>_. [''K'' \<mapsto> pw_to_vec sample_pw])] :: pddb"
  have g: "pddb_get ?p None ''vault.passwords'' ''K'' = Some (''.System'', pw_to_vec sample_pw)"
    by (simp add: pddb_get_def)
  have c: "p_count sample_pw = 0" "p_password sample_pw = ''a:b''"
    by (simp_all add: sample_pw_def pw_default_def)
  obtain p' where p': "handle_autotype 7 ''K'' False ?p = (Inr ''a:b'', p')"
    "at p' ''secret'' ''vault.passwords'' ''K'' = Some (pw_to_vec (sample_pw\<lparr>p_count := 1, p_atime := 7\<rparr>))"
    "\<forall>b d k. (b, d, k) \<noteq> (''secret'', ''vault.passwords'', ''K'') \<longrightarrow> at p' b d k = at ?p b d k"
    using autotype_writes_first_basis [OF _ g sample_pw_ok fits, of False] by (auto simp: c)
  then have "at p' ''.System'' ''vault.passwords'' ''K'' = at ?p ''.System'' ''vault.passwords'' ''K''" by auto
  then have "at p' ''.System'' ''vault.passwords'' ''K'' = Some (pw_to_vec sample_pw)" by (simp add: at_def)
  with p' show ?thesis by blast
qed


end
