(* ===== verification/Generator.thy ===== *)
theory Generator
  imports Badge_Prelude
begin

text \<open>
  The password generator (\<open>src/generator.rs\<close>) and its configuration dialogue (\<open>src/actions.rs\<close>,
  the loop of \<open>add_password\<close>): the stored configuration and its file, the pools of characters, and the
  loop that draws passwords until every pool is hit.  The picks of the \<open>random_pick\<close> crate are the
  parameter \<open>picks\<close>: the \<open>i\<close>-th call returns \<open>picks i\<close>.  The loop need not end, so it is a partial
  function.
\<close>

section \<open>Configuration\<close>

record gen_config =
  gc_length :: nat
  gc_numbers :: bool
  gc_upper :: bool
  gc_lower :: bool
  gc_use_symbols :: bool
  gc_symbols :: "bool list"

definition DEFAULT_LENGTH :: nat where "DEFAULT_LENGTH = 18"

definition NUMBERS :: string where "NUMBERS = ''0123456789''"
definition LOWERCASE_LETTERS :: string where "LOWERCASE_LETTERS = ''abcdefghijklmnopqrstuvwxyz''"
definition UPPERCASE_LETTERS :: string where "UPPERCASE_LETTERS = ''ABCDEFGHIJKLMNOPQRSTUVWXYZ''"

definition SYMBOLS_ALL :: string where
  "SYMBOLS_ALL = ''!@#$%^&*()-_+=?,.:;[]{|}/'' @ [CHR 0x27, CHR 0x22, CHR 0x5C] @ ''<>'' @ [CHR 0x60] @ ''~''"

definition SYMBOLS_DEFAULT_ALLOW :: "bool list" where
  "SYMBOLS_DEFAULT_ALLOW = replicate 8 True @ replicate 24 False"

definition gc_default :: gen_config where
  "gc_default =
     \<lparr>gc_length = DEFAULT_LENGTH, gc_numbers = True, gc_upper = True, gc_lower = True,
      gc_use_symbols = True, gc_symbols = SYMBOLS_DEFAULT_ALLOW\<rparr>"

fun show_bool :: "bool \<Rightarrow> string" where
  "show_bool True = ''true''"
| "show_bool False = ''false''"

definition parse_bool :: "string \<Rightarrow> bool option" where
  "parse_bool s = (if s = ''true'' then Some True else if s = ''false'' then Some False else None)"

definition line_end :: string where "line_end = [CHR 0x0A]"

definition gc_serialize :: "gen_config \<Rightarrow> string" where
  "gc_serialize c =
     show_nat (gc_length c) @ line_end @ show_bool (gc_numbers c) @ line_end @ show_bool (gc_upper c) @ line_end
       @ show_bool (gc_lower c) @ line_end @ show_bool (gc_use_symbols c) @ line_end
       @ map (\<lambda>s. if s then CHR ''1'' else CHR ''0'') (gc_symbols c) @ line_end"

text \<open>\<open>BufRead::lines\<close>: no line after a last newline, and one carriage return before a newline goes.\<close>

definition chop_cr :: "string \<Rightarrow> string" where
  "chop_cr l = (if l \<noteq> [] \<and> last l = CHR 0x0D then butlast l else l)"

definition file_lines :: "string \<Rightarrow> string list" where
  "file_lines s =
     (let ps = split_on CHR 0x0A s
      in map chop_cr (butlast ps) @ (if last ps = [] then [] else [last ps]))"

text \<open>\<open>lines.next().and_then(...)\<close>: line \<open>i\<close>, if the file has it.  \<open>usize\<close> is 32 bits wide.\<close>

definition line :: "string list \<Rightarrow> nat \<Rightarrow> string option" where
  "line ls i = (if i < length ls then Some (ls ! i) else None)"

definition or_true :: "string option \<Rightarrow> bool" where
  "or_true l = (case Option.bind l parse_bool of None \<Rightarrow> True | Some b \<Rightarrow> b)"

definition symbols_of_line :: "string option \<Rightarrow> bool list" where
  "symbols_of_line l =
     (case l of None \<Rightarrow> replicate 32 False
      | Some s \<Rightarrow> map (\<lambda>c. c = CHR ''1'') (take 32 s) @ replicate (32 - length s) False)"

definition gc_deserialize :: "string \<Rightarrow> gen_config" where
  "gc_deserialize f =
     (let ls = file_lines f
      in \<lparr>gc_length = (case Option.bind (line ls 0) (from_str_radix 10 u32_max) of None \<Rightarrow> 18 | Some n \<Rightarrow> n),
          gc_numbers = or_true (line ls 1), gc_upper = or_true (line ls 2), gc_lower = or_true (line ls 3),
          gc_use_symbols = or_true (line ls 4), gc_symbols = symbols_of_line (line ls 5)\<rparr>)"

section \<open>Pools\<close>

definition specials :: "gen_config \<Rightarrow> string" where
  "specials c = map snd (filter fst (zip (gc_symbols c) SYMBOLS_ALL))"

definition to_pools :: "gen_config \<Rightarrow> string list" where
  "to_pools c =
     (if gc_lower c then [LOWERCASE_LETTERS] else []) @ (if gc_upper c then [UPPERCASE_LETTERS] else [])
       @ (if gc_numbers c then [NUMBERS] else [])
       @ (if gc_use_symbols c \<and> length (specials c) > 0 then [specials c] else [])"

section \<open>Generation\<close>

text \<open>The closure \<open>handle\<close>: it copies the picks and keeps a bit mask of the pools hit.\<close>

definition handle_char :: "string list \<Rightarrow> char \<Rightarrow> string \<times> nat \<times> bool \<Rightarrow> string \<times> nat \<times> bool" where
  "handle_char pools c = (\<lambda>(password, mk, m).
     if m then (password @ [c], mk, m)
     else let mk' = fold (\<lambda>(i, pool) x. if c \<in> set pool then x OR 2 ^ i else x) (enumerate 0 pools) mk
          in (password @ [c], mk', mk' = 2 ^ length pools - 1))"

definition handle :: "string list \<Rightarrow> string \<Rightarrow> string \<times> bool" where
  "handle pools random =
     (case fold (handle_char pools) random ([], 0, False) of (password, _, m) \<Rightarrow> (password, m))"

partial_function (option) strict_loop :: "string list \<Rightarrow> (nat \<Rightarrow> string) \<Rightarrow> nat \<Rightarrow> string option" where
  "strict_loop pools picks i =
     (case handle pools (picks i) of
        (password, m) \<Rightarrow> if m then Some password else strict_loop pools picks (Suc i))"

definition generate :: "string list \<Rightarrow> bool \<Rightarrow> (nat \<Rightarrow> string) \<Rightarrow> string option" where
  "generate pools strict picks = (if strict then strict_loop pools picks 0 else Some (picks 0))"

section \<open>Configuration dialogue\<close>

datatype gen_option = OptLower | OptUpper | OptNumbers | OptSymbols | OptCustomize

fun select_option :: "gen_option \<Rightarrow> gen_config \<times> bool \<Rightarrow> gen_config \<times> bool" where
  "select_option OptLower (c, m) = (c\<lparr>gc_lower := True\<rparr>, m)"
| "select_option OptUpper (c, m) = (c\<lparr>gc_upper := True\<rparr>, m)"
| "select_option OptNumbers (c, m) = (c\<lparr>gc_numbers := True\<rparr>, m)"
| "select_option OptSymbols (c, m) = (c\<lparr>gc_use_symbols := True\<rparr>, m)"
| "select_option OptCustomize (c, m) = (c, True)"

text \<open>\<open>length_validator\<close> lets pass what \<open>length_valid\<close> accepts.  The dialogue takes the copy that is
  edited before the new length is stored, and returns whether the configuration is to be saved.
  \<open>checked\<close> are the options left checked, \<open>chosen\<close> the symbols left checked.\<close>

definition length_valid :: "string \<Rightarrow> bool" where
  "length_valid t = (case from_str_radix 10 u32_max t of None \<Rightarrow> False | Some n \<Rightarrow> 1 \<le> n \<and> n \<le> 128)"

definition configure :: "string \<Rightarrow> gen_option list \<Rightarrow> string \<Rightarrow> gen_config \<Rightarrow> gen_config \<times> bool" where
  "configure length_text checked chosen c =
     (let modified = c;
          c1 = c\<lparr>gc_length := (case from_str_radix 10 u32_max length_text of None \<Rightarrow> DEFAULT_LENGTH | Some n \<Rightarrow> n)\<rparr>
      in case fold select_option checked (modified, False) of (m1, customize) \<Rightarrow>
           let m2 = (if customize
                     then m1\<lparr>gc_symbols := map (\<lambda>(b, s). s \<in> set chosen) (zip (gc_symbols m1) SYMBOLS_ALL)
                                             @ drop (length SYMBOLS_ALL) (gc_symbols m1)\<rparr>
                     else m1)
           in if \<not> gc_lower m2 \<and> \<not> gc_upper m2 \<and> \<not> gc_numbers m2 \<and> \<not> gc_use_symbols m2
              then (c1, False) else (m2, True))"

section \<open>Lemmas: the mask\<close>

text \<open>Bit \<open>i\<close> of the mask says that pool \<open>i\<close> was hit.\<close>

lemma bit_pool_fold:
  "bit (fold (\<lambda>(i, pool) x. if c \<in> set pool then x OR 2 ^ i else x) (enumerate k pools) mk) n =
     (bit mk n \<or> (k \<le> n \<and> n < k + length pools \<and> c \<in> set (pools ! (n - k))))" for mk :: nat
proof (induction pools arbitrary: k mk)
  case (Cons p ps)
  have b: "bit (if c \<in> set p then mk OR 2 ^ k else mk) n = (bit mk n \<or> (n = k \<and> c \<in> set p))"
    by (auto simp: bit_or_iff bit_exp_iff)
  have step: "(Suc k \<le> n \<and> n < Suc k + length ps \<and> c \<in> set (ps ! (n - Suc k)) \<or> n = k \<and> c \<in> set p) =
      (k \<le> n \<and> n < k + length (p # ps) \<and> c \<in> set ((p # ps) ! (n - k)))"
  proof (cases "n \<le> k")
    case False
    then have "n - k = Suc (n - Suc k)" by simp
    with False show ?thesis by auto
  qed auto
  show ?case using b step by (simp only: enumerate_simps fold_simps prod.case Cons.IH) blast
qed auto

text \<open>The mask equals the target exactly when every pool was hit.\<close>

lemma mask_full: "(\<And>n. bit mk n \<Longrightarrow> n < k) \<Longrightarrow> mk = 2 ^ k - 1 \<longleftrightarrow> (\<forall>n<k. bit mk n)" for mk :: nat
proof -
  assume b: "\<And>n. bit mk n \<Longrightarrow> n < k"
  have "mk = 2 ^ k - 1 \<longleftrightarrow> (\<forall>n. bit mk n = bit (mask k :: nat) n)"
    by (simp add: bit_eq_iff mask_eq_exp_minus_1)
  also have "\<dots> \<longleftrightarrow> (\<forall>n<k. bit mk n)" using b by (auto simp: bit_mask_iff)
  finally show ?thesis .
qed

definition hits :: "string list \<Rightarrow> string \<Rightarrow> bool" where
  "hits pools r \<longleftrightarrow> r \<noteq> [] \<and> (\<forall>pool \<in> set pools. set pool \<inter> set r \<noteq> {})"

lemma hits_snoc: "hits pools r \<Longrightarrow> hits pools (r @ [c])"
  by (auto simp: hits_def)

lemma handle_fold:
  "case fold (handle_char pools) r ([], 0, False) of (password, mk, m) \<Rightarrow>
     password = r \<and> (m \<longleftrightarrow> hits pools r)
     \<and> (\<not> m \<longrightarrow> (\<forall>n. bit mk n \<longleftrightarrow> n < length pools \<and> set (pools ! n) \<inter> set r \<noteq> {}))"
proof (induction r rule: rev_induct)
  case Nil
  show ?case by (simp add: hits_def)
next
  case (snoc c r)
  obtain password mk m where st: "fold (handle_char pools) r ([], 0, False) = (password, mk, m)"
    by (cases "fold (handle_char pools) r ([], 0, False)")
  have IH: "password = r" "m \<longleftrightarrow> hits pools r"
    "\<not> m \<longrightarrow> (\<forall>n. bit mk n \<longleftrightarrow> n < length pools \<and> set (pools ! n) \<inter> set r \<noteq> {})"
    using snoc.IH st by simp_all
  show ?case
  proof (cases m)
    case True
    then have "fold (handle_char pools) (r @ [c]) ([], 0, False) = (r @ [c], mk, True)"
      using st IH(1) by (simp add: handle_char_def)
    then show ?thesis using True IH(2) hits_snoc [of pools r c] by simp
  next
    case False
    define mk' where "mk' = fold (\<lambda>(i, pool) x. if c \<in> set pool then x OR 2 ^ i else x) (enumerate 0 pools) mk"
    have bits: "bit mk' n \<longleftrightarrow> n < length pools \<and> set (pools ! n) \<inter> set (r @ [c]) \<noteq> {}" for n
      unfolding mk'_def bit_pool_fold using IH(3) False by auto
    have "mk' = 2 ^ length pools - 1 \<longleftrightarrow> (\<forall>n<length pools. bit mk' n)"
      by (rule mask_full) (simp add: bits)
    also have "\<dots> \<longleftrightarrow> hits pools (r @ [c])"
      unfolding bits hits_def by (simp add: all_set_conv_all_nth)
    finally have "mk' = 2 ^ length pools - 1 \<longleftrightarrow> hits pools (r @ [c])" .
    moreover have "fold (handle_char pools) (r @ [c]) ([], 0, False) =
        (r @ [c], mk', mk' = 2 ^ length pools - 1)"
      using st IH(1) False by (simp add: handle_char_def Let_def mk'_def)
    ultimately show ?thesis using bits by simp
  qed
qed

lemma handle_eq: "handle pools r = (r, hits pools r)"
  using handle_fold [where pools = pools and r = r] by (auto simp: handle_def split: prod.splits)

section \<open>Lemmas: the loop\<close>

lemma strict_loop_step:
  "strict_loop pools picks i = (if hits pools (picks i) then Some (picks i) else strict_loop pools picks (Suc i))"
  by (subst strict_loop.simps) (simp add: handle_eq)

lemma strict_loop_finds:
  "hits pools (picks (i + k)) \<Longrightarrow> \<forall>j<k. \<not> hits pools (picks (i + j)) \<Longrightarrow>
   strict_loop pools picks i = Some (picks (i + k))"
proof (induction k arbitrary: i)
  case 0
  then show ?case by (simp add: strict_loop_step)
next
  case (Suc k)
  have "\<not> hits pools (picks i)" using Suc.prems(2) by force
  moreover have "strict_loop pools picks (Suc i) = Some (picks (Suc i + k))"
    using Suc.prems by (intro Suc.IH) (auto dest: spec [of _ "Suc _"])
  ultimately show ?case by (simp add: strict_loop_step [of _ _ i])
qed

lemma strict_loop_None: "\<forall>i. \<not> hits pools (picks i) \<Longrightarrow> strict_loop pools picks i = None"
proof (rule ccontr)
  assume none: "\<forall>i. \<not> hits pools (picks i)" and "strict_loop pools picks i \<noteq> None"
  then obtain pw where "strict_loop pools picks i = Some pw" by blast
  then have "\<not> (\<forall>i. \<not> hits pools (picks i))"
  proof (rule strict_loop.raw_induct [rotated])
    fix f :: "string list \<Rightarrow> (nat \<Rightarrow> string) \<Rightarrow> nat \<Rightarrow> string option" and pools picks i pw
    assume IH: "\<And>pools picks i pw. f pools picks i = Some pw \<Longrightarrow> \<not> (\<forall>i. \<not> hits pools (picks i))"
      and body: "(case handle pools (picks i) of
        (password, m) \<Rightarrow> if m then Some password else f pools picks (Suc i)) = Some pw"
    show "\<not> (\<forall>i. \<not> hits pools (picks i))"
      using body IH [of pools picks "Suc i" pw] by (auto simp: handle_eq split: if_splits)
  qed
  with none show False by simp
qed

lemma generate_strict:
  "generate pools True picks =
     (if \<exists>i. hits pools (picks i) then Some (picks (LEAST i. hits pools (picks i))) else None)"
proof (cases "\<exists>i. hits pools (picks i)")
  case True
  then have "strict_loop pools picks 0 = Some (picks (0 + (LEAST i. hits pools (picks i))))"
    using not_less_Least by (intro strict_loop_finds) (auto intro: LeastI)
  with True show ?thesis by (simp add: generate_def)
next
  case False
  then show ?thesis using strict_loop_None [of pools picks 0] by (simp add: generate_def)
qed

section \<open>Lemmas: pools\<close>

definition apart :: "string list \<Rightarrow> bool" where
  "apart pools \<longleftrightarrow> distinct (concat pools) \<and> [] \<notin> set pools"

lemma hits_needs_length:
  "distinct (concat pools) \<Longrightarrow> \<forall>pool \<in> set pools. set pool \<inter> R \<noteq> {} \<Longrightarrow> finite R \<Longrightarrow>
   length pools \<le> card (R \<inter> set (concat pools))"
proof (induction pools)
  case (Cons p ps)
  have "card (R \<inter> set (concat (p # ps))) = card ((R \<inter> set p) \<union> (R \<inter> set (concat ps)))"
    by (simp add: Int_Un_distrib eq_commute [of "[]"])
  also have "\<dots> = card (R \<inter> set p) + card (R \<inter> set (concat ps))"
    using Cons.prems(1,3) by (intro card_Un_disjoint) auto
  finally have sum: "card (R \<inter> set (concat (p # ps))) = card (R \<inter> set p) + card (R \<inter> set (concat ps))" .
  have "R \<inter> set p \<noteq> {}" using Cons.prems(2) by auto
  then have "0 < card (R \<inter> set p)" using Cons.prems(3) by (simp add: card_gt_0_iff)
  moreover have "length ps \<le> card (R \<inter> set (concat ps))" using Cons by simp
  ultimately show ?case using sum by simp
qed simp

lemma hits_length: "distinct (concat pools) \<Longrightarrow> hits pools r \<Longrightarrow> length pools \<le> length r"
proof -
  assume d: "distinct (concat pools)" and h: "hits pools r"
  then have "length pools \<le> card (set r \<inter> set (concat pools))"
    by (intro hits_needs_length) (auto simp: hits_def)
  also have "\<dots> \<le> card (set r)" by (rule card_mono) auto
  also have "\<dots> \<le> length r" by (rule card_length)
  finally show ?thesis .
qed

lemma distinct_specials: "distinct (specials c)"
proof -
  have "distinct SYMBOLS_ALL" by code_simp
  then have "distinct (map snd (zip (gc_symbols c) SYMBOLS_ALL))"
    by (simp add: map_snd_zip_take distinct_take)
  then show ?thesis unfolding specials_def by (rule distinct_map_filter)
qed

lemma specials_subset: "set (specials c) \<subseteq> set SYMBOLS_ALL"
  by (auto simp: specials_def dest: set_zip_rightD)

lemma classes_apart:
  "distinct LOWERCASE_LETTERS" "distinct UPPERCASE_LETTERS" "distinct NUMBERS"
  "set LOWERCASE_LETTERS \<inter> set UPPERCASE_LETTERS = {}" "set LOWERCASE_LETTERS \<inter> set NUMBERS = {}"
  "set UPPERCASE_LETTERS \<inter> set NUMBERS = {}" "set LOWERCASE_LETTERS \<inter> set SYMBOLS_ALL = {}"
  "set UPPERCASE_LETTERS \<inter> set SYMBOLS_ALL = {}" "set NUMBERS \<inter> set SYMBOLS_ALL = {}"
  "LOWERCASE_LETTERS \<noteq> []" "UPPERCASE_LETTERS \<noteq> []" "NUMBERS \<noteq> []"
  by code_simp+

lemma apart_to_pools: "apart (to_pools c)"
proof -
  have "set LOWERCASE_LETTERS \<inter> set (specials c) = {}" "set UPPERCASE_LETTERS \<inter> set (specials c) = {}"
    "set NUMBERS \<inter> set (specials c) = {}"
    using specials_subset [of c] classes_apart by blast+
  then show ?thesis
    using distinct_specials [of c] classes_apart
    by (cases "gc_lower c"; cases "gc_upper c"; cases "gc_numbers c"; cases "gc_use_symbols c \<and> length (specials c) > 0")
       (simp_all add: apart_def to_pools_def Int_Un_distrib eq_commute [of "[]"])
qed

section \<open>Properties\<close>

text \<open>The picks a conforming random source returns: as many characters as asked for, all from the
  pools (none at all when there are no pools).\<close>

definition conforms :: "string list \<Rightarrow> nat \<Rightarrow> (nat \<Rightarrow> string) \<Rightarrow> bool" where
  "conforms pools len picks \<longleftrightarrow>
     (\<forall>i. length (picks i) = (if concat pools = [] then 0 else len) \<and> set (picks i) \<subseteq> set (concat pools))"

text \<open>C36: The generator returns exactly when some draw has a character of every pool, and then returns
  the first such draw, untouched.\<close>

theorem generate_first_full_draw:
  "generate pools True picks =
     (if \<exists>i. hits pools (picks i) then Some (picks (LEAST i. hits pools (picks i))) else None)"
  by (rule generate_strict)

lemma full_draw_exists:
  "apart pools \<Longrightarrow> pools \<noteq> [] \<Longrightarrow> length pools \<le> n \<Longrightarrow>
   \<exists>r. length r = n \<and> set r \<subseteq> set (concat pools) \<and> hits pools r"
proof -
  assume a: "apart pools" "pools \<noteq> []" "length pools \<le> n"
  let ?r = "map hd pools @ replicate (n - length pools) (hd (hd pools))"
  have hd: "hd p \<in> set p" if "p \<in> set pools" for p using a(1) that by (cases p) (auto simp: apart_def)
  have "length ?r = n" using a(3) by simp
  moreover have "hd (hd pools) \<in> set (concat pools)" using hd a(2) by (auto intro: bexI [of _ "hd pools"])
  then have "set ?r \<subseteq> set (concat pools)" using hd by auto
  moreover have "hits pools ?r" using hd a(2) by (auto simp: hits_def)
  ultimately show ?thesis by blast
qed

text \<open>A password of the configured length with a character of every class exists exactly when some
  class is enabled and the length is at least the number of classes; otherwise the generator never
  returns, whatever it draws.\<close>

theorem generator_can_end:
  "(\<exists>r. length r = gc_length c \<and> set r \<subseteq> set (concat (to_pools c)) \<and> hits (to_pools c) r) \<longleftrightarrow>
     to_pools c \<noteq> [] \<and> length (to_pools c) \<le> gc_length c"
proof
  assume "\<exists>r. length r = gc_length c \<and> set r \<subseteq> set (concat (to_pools c)) \<and> hits (to_pools c) r"
  then obtain r where r: "length r = gc_length c" "set r \<subseteq> set (concat (to_pools c))" "hits (to_pools c) r" by blast
  have "to_pools c \<noteq> []" using r(2,3) by (auto simp: hits_def)
  with r hits_length [OF _ r(3)] apart_to_pools [of c]
  show "to_pools c \<noteq> [] \<and> length (to_pools c) \<le> gc_length c" by (simp add: apart_def)
next
  assume "to_pools c \<noteq> [] \<and> length (to_pools c) \<le> gc_length c"
  with full_draw_exists [OF apart_to_pools] show
    "\<exists>r. length r = gc_length c \<and> set r \<subseteq> set (concat (to_pools c)) \<and> hits (to_pools c) r" by blast
qed

text \<open>C37: With no class enabled, or fewer characters than enabled classes, strict generation never
  returns, whatever conforming draws it is given.\<close>

theorem short_passwords_never_end:
  assumes "conforms (to_pools c) (gc_length c) picks"
    and "to_pools c = [] \<or> gc_length c < length (to_pools c)"
  shows "generate (to_pools c) True picks = None"
proof -
  have "\<not> hits (to_pools c) (picks i)" for i
  proof
    assume h: "hits (to_pools c) (picks i)"
    have d: "distinct (concat (to_pools c))" using apart_to_pools [of c] by (simp add: apart_def)
    have "length (picks i) \<le> gc_length c" "set (picks i) \<subseteq> set (concat (to_pools c))"
      using assms(1) by (auto simp: conforms_def)
    with assms(2) h hits_length [OF d h] show False by (auto simp: hits_def)
  qed
  then show ?thesis by (simp add: generate_strict)
qed

theorem short_passwords_never_end_witness:
  "generate (to_pools (gc_default\<lparr>gc_length := 3\<rparr>)) True (\<lambda>_. ''aB1'') = None"
proof (rule short_passwords_never_end)
  show "conforms (to_pools (gc_default\<lparr>gc_length := 3\<rparr>)) (gc_length (gc_default\<lparr>gc_length := 3\<rparr>)) (\<lambda>_. ''aB1'')"
    by (simp add: conforms_def gc_default_def to_pools_def LOWERCASE_LETTERS_def UPPERCASE_LETTERS_def NUMBERS_def)
  show "to_pools (gc_default\<lparr>gc_length := 3\<rparr>) = [] \<or>
      gc_length (gc_default\<lparr>gc_length := 3\<rparr>) < length (to_pools (gc_default\<lparr>gc_length := 3\<rparr>))"
    by code_simp
qed

text \<open>The stored configuration reads back as it was saved.\<close>

lemma chop_cr_id: "CHR 0x0D \<notin> set l \<Longrightarrow> chop_cr l = l"
  unfolding chop_cr_def by (metis last_in_set)

theorem generator_config_round_trip:
  assumes "length (gc_symbols c) = 32" and "gc_length c \<le> u32_max"
  shows "gc_deserialize (gc_serialize c) = c"
proof -
  let ?n = "show_nat (gc_length c)" and ?s = "map (\<lambda>s. if s then CHR ''1'' else CHR ''0'') (gc_symbols c)"
  let ?ls = "[?n, show_bool (gc_numbers c), show_bool (gc_upper c), show_bool (gc_lower c),
    show_bool (gc_use_symbols c), ?s]"
  have nl: "CHR 0x0A \<notin> set ?n" "CHR 0x0D \<notin> set ?n" by (rule show_nat_no_char; simp)+
  have nl_bool: "CHR 0x0A \<notin> set (show_bool b)" "CHR 0x0D \<notin> set (show_bool b)" for b by (cases b; simp)+
  have nl_syms: "CHR 0x0A \<notin> set ?s" "CHR 0x0D \<notin> set ?s" by auto
  have "split_on CHR 0x0A (gc_serialize c) = ?ls @ [[]]"
    unfolding gc_serialize_def line_end_def
    using nl nl_bool nl_syms by (simp add: split_on_append)
  then have ls: "file_lines (gc_serialize c) = ?ls"
    using nl nl_bool nl_syms by (simp add: file_lines_def chop_cr_id)
  have b: "parse_bool (show_bool x) = Some x" for x by (cases x) (simp_all add: parse_bool_def)
  have s: "symbols_of_line (Some ?s) = gc_symbols c"
    using assms(1) by (simp add: symbols_of_line_def comp_def if_distrib [of "\<lambda>x. x = CHR ''1''"] cong: if_cong)
  show ?thesis
    unfolding gc_deserialize_def ls Let_def line_def
    using assms(2) by (simp add: or_true_def b s from_str_radix_show_nat)
qed

theorem generator_config_round_trip_witness:
  "gc_deserialize (gc_serialize gc_default) = gc_default"
  using generator_config_round_trip [of gc_default]
  by (simp add: gc_default_def SYMBOLS_DEFAULT_ALLOW_def DEFAULT_LENGTH_def)

text \<open>What the dialogue saves always has the old length and every class that was enabled before: a new
  length and an unchecked class are lost.\<close>

definition keeps :: "gen_config \<Rightarrow> gen_config \<Rightarrow> bool" where
  "keeps c c' \<longleftrightarrow> gc_length c' = gc_length c \<and> (gc_lower c \<longrightarrow> gc_lower c') \<and> (gc_upper c \<longrightarrow> gc_upper c')
     \<and> (gc_numbers c \<longrightarrow> gc_numbers c') \<and> (gc_use_symbols c \<longrightarrow> gc_use_symbols c')"

lemma select_keeps: "keeps c (fst (fold select_option os (c, m)))"
proof (induction os arbitrary: c m)
  case (Cons x os)
  obtain c1 m1 where s: "select_option x (c, m) = (c1, m1)" by (cases "select_option x (c, m)")
  then have "keeps c c1" by (cases x) (auto simp: keeps_def)
  with Cons [of c1 m1] s show ?case by (auto simp: keeps_def)
qed (simp add: keeps_def)

text \<open>What the dialogue saves always has the old length and every class that was enabled before: a new
  length and an unchecked class are lost.\<close>

theorem dialogue_keeps_length_and_classes:
  assumes "configure length_text checked chosen c = (c', True)"
  shows "gc_length c' = gc_length c \<and> (gc_lower c \<longrightarrow> gc_lower c') \<and> (gc_upper c \<longrightarrow> gc_upper c')
     \<and> (gc_numbers c \<longrightarrow> gc_numbers c') \<and> (gc_use_symbols c \<longrightarrow> gc_use_symbols c')"
proof -
  obtain m1 u where f: "fold select_option checked (c, False) = (m1, u)"
    by (cases "fold select_option checked (c, False)")
  have "keeps c m1" using select_keeps [of c checked False] f by simp
  with assms f show ?thesis
    by (auto simp: configure_def Let_def keeps_def split: if_splits)
qed

theorem dialogue_keeps_length_and_classes_witness:
  "gc_length (fst (configure ''12'' [OptUpper] [] gc_default)) = 18
   \<and> gc_lower (fst (configure ''12'' [OptUpper] [] gc_default))"
proof -
  have s: "configure ''12'' [OptUpper] [] gc_default = (gc_default, True)"
    by (simp add: configure_def gc_default_def)
  from dialogue_keeps_length_and_classes [OF s] show ?thesis
    unfolding s by (simp add: gc_default_def DEFAULT_LENGTH_def)
qed

end
