(* ===== verification/Ui_Screens.thy ===== *)
theory Ui_Screens
  imports Badge_Config
begin

text \<open>
  The screens of the vault that are state machines driven by keys (\<open>src/ux.rs\<close>): the stand-alone
  test, the factory test, and the tours, help and about screens built by the macro
  \<open>tour_advance!\<close>.  A key is named after its symbol; keys the code does not tell apart are
  \<open>KOther\<close>.
\<close>

section \<open>Keys\<close>

datatype key =
    KUp | KDown | KLeft | KRight
  | KMenu  \<comment> \<open>the jog dial pressed, U+2234\<close>
  | KFire  \<comment> \<open>the middle button\<close>
  | KFaceUp | KFaceDown  \<comment> \<open>the orientation keys sent by the power manager\<close>
  | KClock | KTilde | KOther u32

section \<open>Stand-alone test\<close>

datatype standalone_state =
    SaJogPress bool | SaUp bool | SaDown bool | SaLeft bool | SaRight bool | SaFlip bool | SaFinish bool
  | SaExit | SaError string

text \<open>The second component says that the stored tour flag is reset.\<close>

fun standalone_input :: "key option \<Rightarrow> string option \<Rightarrow> standalone_state \<Rightarrow> standalone_state \<times> bool" where
  "standalone_input k (Some e) st = (SaError e, False)"
| "standalone_input k None (SaJogPress seen) =
     (let seen = seen \<or> k = Some KMenu in (if seen then SaUp False else SaJogPress seen, False))"
| "standalone_input k None (SaUp seen) =
     (let seen = seen \<or> k = Some KUp in (if seen then SaDown False else SaUp seen, False))"
| "standalone_input k None (SaDown seen) =
     (let seen = seen \<or> k = Some KDown in (if seen then SaLeft False else SaDown seen, False))"
| "standalone_input k None (SaLeft seen) =
     (let seen = seen \<or> k = Some KLeft in (if seen then SaRight False else SaLeft seen, False))"
| "standalone_input k None (SaRight seen) =
     (let seen = seen \<or> k = Some KRight in (if seen then SaFlip False else SaRight seen, False))"
| "standalone_input k None (SaFlip changed) =
     (let changed = changed \<or> k = Some KFaceDown \<or> k = Some KFaceUp
      in (if changed then SaFinish False else SaFlip changed, changed))"
| "standalone_input k None (SaFinish seen) =
     (let seen = seen \<or> k = Some KLeft \<or> k = Some KRight \<or> k = Some KFire
      in (if seen then SaExit else SaFinish seen, False))"
| "standalone_input k None SaExit = (SaExit, False)"
| "standalone_input k None (SaError e) = (SaError e, False)"

definition standalone_terminal :: "standalone_state \<Rightarrow> bool" where
  "standalone_terminal st \<longleftrightarrow> st = SaExit"

section \<open>Factory test\<close>

definition FACTORY_QR_STRING :: string where
  "FACTORY_QR_STRING = ''test://factory-test-data-lorem-ipsum-data-data''"

definition FACTORY_STANDALONE_STRING :: string where
  "FACTORY_STANDALONE_STRING = ''factory-aae949f6969-lorem-ipsum-data''"

definition JIG_TIMEOUT :: nat where "JIG_TIMEOUT = 35"
definition FACTORY_TIMEOUT_S :: nat where "FACTORY_TIMEOUT_S = 90"

datatype factory_state =
    FtInitWait nat | FtJogPress bool | FtUp bool | FtDown bool | FtLeft bool | FtRight bool
  | FtMiddleScan bool bool | FtFinish | FtError string

text \<open>Times are in seconds; \<open>now - start\<close> is \<open>duration_since(start_time).as_secs()\<close>.\<close>

fun factory_input :: "nat \<Rightarrow> key option \<Rightarrow> string option \<Rightarrow> string option \<Rightarrow> bool \<Rightarrow> factory_state \<Rightarrow> factory_state" where
  "factory_input now k qr (Some e) jig st = FtError e"
| "factory_input now k qr None jig (FtInitWait start) =
     (if jig \<or> now - start > JIG_TIMEOUT then FtJogPress False else FtInitWait start)"
| "factory_input now k qr None jig (FtJogPress seen) =
     (let seen = seen \<or> k = Some KMenu in if seen then FtUp False else FtJogPress seen)"
| "factory_input now k qr None jig (FtUp seen) =
     (let seen = seen \<or> k = Some KUp in if seen then FtDown False else FtUp seen)"
| "factory_input now k qr None jig (FtDown seen) =
     (let seen = seen \<or> k = Some KDown in if seen then FtLeft False else FtDown seen)"
| "factory_input now k qr None jig (FtLeft seen) =
     (let seen = seen \<or> k = Some KRight in if seen then FtRight False else FtLeft seen)"
| "factory_input now k qr None jig (FtRight seen) =
     (let seen = seen \<or> k = Some KLeft in if seen then FtMiddleScan False False else FtRight seen)"
| "factory_input now k qr None jig (FtMiddleScan middle got) =
     (let middle = middle \<or> k = Some KFire; got = got \<or> qr = Some FACTORY_QR_STRING
      in if middle \<and> got then FtFinish else FtMiddleScan middle got)"
| "factory_input now k qr None jig FtFinish = FtFinish"
| "factory_input now k qr None jig (FtError e) = FtError e"

section \<open>Tours\<close>

definition is_tour_advance_key :: "key \<Rightarrow> bool" where
  "is_tour_advance_key k \<longleftrightarrow> k = KLeft \<or> k = KRight \<or> k = KFire"

text \<open>One arm of \<open>tour_advance!\<close>.\<close>

definition tour_arm :: "bool \<Rightarrow> key \<Rightarrow> (bool \<Rightarrow> 's) \<Rightarrow> (bool \<Rightarrow> 's) \<Rightarrow> 's" where
  "tour_arm seen k from to = (if seen \<or> is_tour_advance_key k then to False else from seen)"

datatype tour_state =
    TourWelcome bool | TourLightGeneExplainer1 bool | TourLightGeneExplainer2 bool
  | TourBreeding1 bool | TourBreeding2 bool | TourBreeding3 bool | TourBreeding4 bool
  | TourBadgeRecap bool | TourTokenIntro1 bool | TourTokenIntro2 bool
  | TourTokenIntro3 bool | TourInfoScreen bool | TourEnd bool | TourError string

fun tour_input :: "key \<Rightarrow> tour_state \<Rightarrow> tour_state" where
  "tour_input k (TourLightGeneExplainer1 seen) = tour_arm seen k TourLightGeneExplainer1 TourLightGeneExplainer2"
| "tour_input k (TourLightGeneExplainer2 seen) = tour_arm seen k TourLightGeneExplainer2 TourBreeding1"
| "tour_input k (TourBreeding1 seen) = tour_arm seen k TourBreeding1 TourBreeding2"
| "tour_input k (TourBreeding2 seen) = tour_arm seen k TourBreeding2 TourBreeding3"
| "tour_input k (TourBreeding3 seen) = tour_arm seen k TourBreeding3 TourBreeding4"
| "tour_input k (TourBreeding4 seen) = tour_arm seen k TourBreeding4 TourBadgeRecap"
| "tour_input k (TourBadgeRecap seen) = tour_arm seen k TourBadgeRecap TourTokenIntro1"
| "tour_input k (TourTokenIntro1 seen) = tour_arm seen k TourTokenIntro1 TourTokenIntro2"
| "tour_input k (TourTokenIntro2 seen) = tour_arm seen k TourTokenIntro2 TourTokenIntro3"
| "tour_input k (TourTokenIntro3 seen) = tour_arm seen k TourTokenIntro3 TourInfoScreen"
| "tour_input k (TourInfoScreen seen) = tour_arm seen k TourInfoScreen TourEnd"
| "tour_input k (TourEnd seen) = tour_arm seen k TourEnd TourEnd"
| "tour_input k (TourWelcome seen) =
     (let seen = seen \<or> k = KMenu in if seen then TourLightGeneExplainer1 False else TourWelcome seen)"
| "tour_input k (TourError e) = TourError e"

fun tour_terminal :: "tour_state \<Rightarrow> bool" where
  "tour_terminal (TourEnd _) = True"
| "tour_terminal (TourError _) = True"
| "tour_terminal _ = False"

datatype help_state =
    HelpBadgeRecap bool | HelpInfoScreen bool | HelpEnd bool | HelpError string

fun help_input :: "key \<Rightarrow> help_state \<Rightarrow> help_state" where
  "help_input k (HelpBadgeRecap seen) = tour_arm seen k HelpBadgeRecap HelpInfoScreen"
| "help_input k (HelpInfoScreen seen) = tour_arm seen k HelpInfoScreen HelpEnd"
| "help_input k (HelpEnd seen) = tour_arm seen k HelpEnd HelpEnd"
| "help_input k (HelpError e) = HelpError e"

fun help_terminal :: "help_state \<Rightarrow> bool" where
  "help_terminal (HelpEnd _) = True"
| "help_terminal (HelpError _) = True"
| "help_terminal _ = False"

datatype token_help_state =
    TokenHelpTokenRecap bool | TokenHelpExtension bool | TokenHelpInfoScreen bool
  | TokenHelpEnd bool | TokenHelpError string

fun token_help_input :: "key \<Rightarrow> token_help_state \<Rightarrow> token_help_state" where
  "token_help_input k (TokenHelpTokenRecap seen) = tour_arm seen k TokenHelpTokenRecap TokenHelpExtension"
| "token_help_input k (TokenHelpExtension seen) = tour_arm seen k TokenHelpExtension TokenHelpInfoScreen"
| "token_help_input k (TokenHelpInfoScreen seen) = tour_arm seen k TokenHelpInfoScreen TokenHelpEnd"
| "token_help_input k (TokenHelpEnd seen) = tour_arm seen k TokenHelpEnd TokenHelpEnd"
| "token_help_input k (TokenHelpError e) = TokenHelpError e"

fun token_help_terminal :: "token_help_state \<Rightarrow> bool" where
  "token_help_terminal (TokenHelpEnd _) = True"
| "token_help_terminal (TokenHelpError _) = True"
| "token_help_terminal _ = False"

text \<open>The second component says that \<open>side_effect_skip_token_tour(true)\<close> is called.\<close>

datatype token_tour_state =
    TokenTour1 bool | TokenTour2 bool | TokenTour3 bool | TokenTourRecap bool
  | TokenTourBrowserExtension bool | TokenTourInfoScreen bool | TokenTourEnd bool
  | TokenTourError string

fun token_tour_input :: "key \<Rightarrow> token_tour_state \<Rightarrow> token_tour_state \<times> bool" where
  "token_tour_input k (TokenTour1 seen) = (tour_arm seen k TokenTour1 TokenTour2, False)"
| "token_tour_input k (TokenTour2 seen) = (tour_arm seen k TokenTour2 TokenTour3, False)"
| "token_tour_input k (TokenTour3 seen) = (tour_arm seen k TokenTour3 TokenTourRecap, False)"
| "token_tour_input k (TokenTourRecap seen) = (tour_arm seen k TokenTourRecap TokenTourBrowserExtension, False)"
| "token_tour_input k (TokenTourBrowserExtension seen) = (tour_arm seen k TokenTourBrowserExtension TokenTourInfoScreen, False)"
| "token_tour_input k (TokenTourEnd seen) = (tour_arm seen k TokenTourEnd TokenTourEnd, False)"
| "token_tour_input k (TokenTourInfoScreen seen) =
     (if seen \<or> is_tour_advance_key k then (TokenTourEnd False, True) else (TokenTourInfoScreen seen, False))"
| "token_tour_input k (TokenTourError e) = (TokenTourError e, False)"

fun token_tour_terminal :: "token_tour_state \<Rightarrow> bool" where
  "token_tour_terminal (TokenTourEnd _) = True"
| "token_tour_terminal (TokenTourError _) = True"
| "token_tour_terminal _ = False"

datatype about_state =
    AboutBunnie bool | AboutBaochipLogo bool | AboutCheeso bool | AboutInfoScreen bool
  | AboutDiagnostics bool | AboutEnd bool | AboutError string

fun about_input :: "key \<Rightarrow> about_state \<Rightarrow> about_state" where
  "about_input k (AboutBunnie seen) = tour_arm seen k AboutBunnie AboutBaochipLogo"
| "about_input k (AboutBaochipLogo seen) = tour_arm seen k AboutBaochipLogo AboutCheeso"
| "about_input k (AboutCheeso seen) = tour_arm seen k AboutCheeso AboutInfoScreen"
| "about_input k (AboutInfoScreen seen) = tour_arm seen k AboutInfoScreen AboutDiagnostics"
| "about_input k (AboutDiagnostics seen) = tour_arm seen k AboutDiagnostics AboutEnd"
| "about_input k (AboutEnd seen) = tour_arm seen k AboutEnd AboutEnd"
| "about_input k (AboutError e) = AboutError e"

fun about_terminal :: "about_state \<Rightarrow> bool" where
  "about_terminal (AboutEnd _) = True"
| "about_terminal (AboutError _) = True"
| "about_terminal _ = False"

fun is_diagnostics :: "about_state \<Rightarrow> bool" where
  "is_diagnostics (AboutDiagnostics _) = True"
| "is_diagnostics _ = False"

section \<open>Screens as sequences of expected keys\<close>

text \<open>
  What a screen still waits for is a list of key classes; a key of the first class removes it and
  any other key is ignored.
\<close>

definition next_class :: "('k \<Rightarrow> bool) list \<Rightarrow> 'k \<Rightarrow> ('k \<Rightarrow> bool) list" where
  "next_class cs k = (case cs of [] \<Rightarrow> [] | c # cs' \<Rightarrow> if c k then cs' else cs)"

text \<open>Keys of the given classes occur one after the other, with any keys between them.\<close>

fun in_order :: "('k \<Rightarrow> bool) list \<Rightarrow> 'k list \<Rightarrow> bool" where
  "in_order [] ks = True"
| "in_order (c # cs) ks = (\<exists>a k b. ks = a @ k # b \<and> c k \<and> in_order cs b)"

declare in_order.simps(2) [simp del]

lemma in_order_Nil2 [simp]: "in_order cs [] \<longleftrightarrow> cs = []"
  by (cases cs) (auto simp: in_order.simps(2))

lemma in_order_weaken: "in_order cs ks \<Longrightarrow> in_order cs (k # ks)"
  by (cases cs) (auto simp: in_order.simps(2), metis append_Cons)

lemma in_order_skip: "in_order (c # cs) ks \<Longrightarrow> in_order cs ks"
proof -
  have "in_order cs (a @ b)" if "in_order cs b" for a b
    using that by (induction a) (auto intro: in_order_weaken)
  then show "in_order (c # cs) ks \<Longrightarrow> in_order cs ks"
    by (auto simp: in_order.simps(2)) (metis append.assoc append_Cons append_Nil)
qed

lemma in_order_Cons: "in_order cs (k # ks) \<longleftrightarrow> in_order (next_class cs k) ks"
proof (cases cs)
  case (Cons c cs')
  have "in_order cs (k # ks) \<longleftrightarrow> in_order cs ks \<or> c k \<and> in_order cs' ks"
  proof
    assume "in_order cs (k # ks)"
    then obtain a k' b where a: "k # ks = a @ k' # b" "c k'" "in_order cs' b"
      unfolding Cons in_order.simps(2) by blast
    show "in_order cs ks \<or> c k \<and> in_order cs' ks"
    proof (cases a)
      case (Cons x a')
      with a have "ks = a' @ k' # b" by simp
      with a have "in_order (c # cs') ks" 
        unfolding in_order.simps(2) by (intro exI conjI)
      then show ?thesis by (simp add: \<open>cs = c # cs'\<close>)
    qed (use a in simp)
  next
    assume "in_order cs ks \<or> c k \<and> in_order cs' ks"
    then show "in_order cs (k # ks)"
      by (metis Cons append_Nil in_order.simps(2) in_order_weaken)
  qed
  then show ?thesis
    using in_order_skip [of c cs' ks] by (auto simp: Cons next_class_def)
qed (simp add: next_class_def)

lemma in_order_replicate: "in_order (replicate n c) ks \<longleftrightarrow> n \<le> length (filter c ks)"
proof (induction ks arbitrary: n)
  case (Cons k ks)
  show ?case
  proof (cases n)
    case (Suc m)
    have "next_class (replicate (Suc m) c) k = replicate (if c k then m else Suc m) c"
      by (simp add: next_class_def)
    then show ?thesis using Cons.IH by (simp add: Suc in_order_Cons del: replicate_Suc)
  qed simp
qed auto

text \<open>The contract of a screen: its input consumes the first expected class.\<close>

locale key_screen =
  fixes input :: "key \<Rightarrow> 's \<Rightarrow> 's" and waits :: "'s \<Rightarrow> (key \<Rightarrow> bool) list"
    and ok :: "'s \<Rightarrow> bool" and finished :: "'s \<Rightarrow> bool"
  assumes waits_input: "ok s \<Longrightarrow> waits (input k s) = next_class (waits s) k"
    and ok_input: "ok s \<Longrightarrow> ok (input k s)"
    and finished_waits: "ok s \<Longrightarrow> finished s \<longleftrightarrow> waits s = []"
begin

lemma ok_run: "ok s \<Longrightarrow> ok (fold input ks s)"
  by (induction ks arbitrary: s) (simp_all add: ok_input)

lemma run_finishes: "ok s \<Longrightarrow> finished (fold input ks s) \<longleftrightarrow> in_order (waits s) ks"
  by (induction ks arbitrary: s) (simp_all add: ok_input finished_waits waits_input in_order_Cons)

lemma stays_finished: "ok s \<Longrightarrow> finished s \<Longrightarrow> finished (fold input ks s)"
  by (simp add: run_finishes finished_waits)

end

section \<open>What each screen waits for\<close>

fun tour_waits :: "tour_state \<Rightarrow> (key \<Rightarrow> bool) list" where
  "tour_waits (TourWelcome _) = (\<lambda>k. k = KMenu) # replicate 11 is_tour_advance_key"
| "tour_waits (TourLightGeneExplainer1 _) = replicate 11 is_tour_advance_key"
| "tour_waits (TourLightGeneExplainer2 _) = replicate 10 is_tour_advance_key"
| "tour_waits (TourBreeding1 _) = replicate 9 is_tour_advance_key"
| "tour_waits (TourBreeding2 _) = replicate 8 is_tour_advance_key"
| "tour_waits (TourBreeding3 _) = replicate 7 is_tour_advance_key"
| "tour_waits (TourBreeding4 _) = replicate 6 is_tour_advance_key"
| "tour_waits (TourBadgeRecap _) = replicate 5 is_tour_advance_key"
| "tour_waits (TourTokenIntro1 _) = replicate 4 is_tour_advance_key"
| "tour_waits (TourTokenIntro2 _) = replicate 3 is_tour_advance_key"
| "tour_waits (TourTokenIntro3 _) = replicate 2 is_tour_advance_key"
| "tour_waits (TourInfoScreen _) = replicate 1 is_tour_advance_key"
| "tour_waits (TourEnd _) = []"
| "tour_waits (TourError _) = []"

fun tour_ok :: "tour_state \<Rightarrow> bool" where
  "tour_ok (TourWelcome seen) \<longleftrightarrow> \<not> seen"
| "tour_ok (TourLightGeneExplainer1 seen) \<longleftrightarrow> \<not> seen"
| "tour_ok (TourLightGeneExplainer2 seen) \<longleftrightarrow> \<not> seen"
| "tour_ok (TourBreeding1 seen) \<longleftrightarrow> \<not> seen"
| "tour_ok (TourBreeding2 seen) \<longleftrightarrow> \<not> seen"
| "tour_ok (TourBreeding3 seen) \<longleftrightarrow> \<not> seen"
| "tour_ok (TourBreeding4 seen) \<longleftrightarrow> \<not> seen"
| "tour_ok (TourBadgeRecap seen) \<longleftrightarrow> \<not> seen"
| "tour_ok (TourTokenIntro1 seen) \<longleftrightarrow> \<not> seen"
| "tour_ok (TourTokenIntro2 seen) \<longleftrightarrow> \<not> seen"
| "tour_ok (TourTokenIntro3 seen) \<longleftrightarrow> \<not> seen"
| "tour_ok (TourInfoScreen seen) \<longleftrightarrow> \<not> seen"
| "tour_ok (TourEnd seen) \<longleftrightarrow> \<not> seen"
| "tour_ok (TourError _) \<longleftrightarrow> False"

fun help_waits :: "help_state \<Rightarrow> (key \<Rightarrow> bool) list" where
  "help_waits (HelpBadgeRecap _) = replicate 2 is_tour_advance_key"
| "help_waits (HelpInfoScreen _) = replicate 1 is_tour_advance_key"
| "help_waits (HelpEnd _) = []"
| "help_waits (HelpError _) = []"

fun help_ok :: "help_state \<Rightarrow> bool" where
  "help_ok (HelpBadgeRecap seen) \<longleftrightarrow> \<not> seen"
| "help_ok (HelpInfoScreen seen) \<longleftrightarrow> \<not> seen"
| "help_ok (HelpEnd seen) \<longleftrightarrow> \<not> seen"
| "help_ok (HelpError _) \<longleftrightarrow> False"

fun token_help_waits :: "token_help_state \<Rightarrow> (key \<Rightarrow> bool) list" where
  "token_help_waits (TokenHelpTokenRecap _) = replicate 3 is_tour_advance_key"
| "token_help_waits (TokenHelpExtension _) = replicate 2 is_tour_advance_key"
| "token_help_waits (TokenHelpInfoScreen _) = replicate 1 is_tour_advance_key"
| "token_help_waits (TokenHelpEnd _) = []"
| "token_help_waits (TokenHelpError _) = []"

fun token_help_ok :: "token_help_state \<Rightarrow> bool" where
  "token_help_ok (TokenHelpTokenRecap seen) \<longleftrightarrow> \<not> seen"
| "token_help_ok (TokenHelpExtension seen) \<longleftrightarrow> \<not> seen"
| "token_help_ok (TokenHelpInfoScreen seen) \<longleftrightarrow> \<not> seen"
| "token_help_ok (TokenHelpEnd seen) \<longleftrightarrow> \<not> seen"
| "token_help_ok (TokenHelpError _) \<longleftrightarrow> False"

fun token_tour_waits :: "token_tour_state \<Rightarrow> (key \<Rightarrow> bool) list" where
  "token_tour_waits (TokenTour1 _) = replicate 6 is_tour_advance_key"
| "token_tour_waits (TokenTour2 _) = replicate 5 is_tour_advance_key"
| "token_tour_waits (TokenTour3 _) = replicate 4 is_tour_advance_key"
| "token_tour_waits (TokenTourRecap _) = replicate 3 is_tour_advance_key"
| "token_tour_waits (TokenTourBrowserExtension _) = replicate 2 is_tour_advance_key"
| "token_tour_waits (TokenTourInfoScreen _) = replicate 1 is_tour_advance_key"
| "token_tour_waits (TokenTourEnd _) = []"
| "token_tour_waits (TokenTourError _) = []"

fun token_tour_ok :: "token_tour_state \<Rightarrow> bool" where
  "token_tour_ok (TokenTour1 seen) \<longleftrightarrow> \<not> seen"
| "token_tour_ok (TokenTour2 seen) \<longleftrightarrow> \<not> seen"
| "token_tour_ok (TokenTour3 seen) \<longleftrightarrow> \<not> seen"
| "token_tour_ok (TokenTourRecap seen) \<longleftrightarrow> \<not> seen"
| "token_tour_ok (TokenTourBrowserExtension seen) \<longleftrightarrow> \<not> seen"
| "token_tour_ok (TokenTourInfoScreen seen) \<longleftrightarrow> \<not> seen"
| "token_tour_ok (TokenTourEnd seen) \<longleftrightarrow> \<not> seen"
| "token_tour_ok (TokenTourError _) \<longleftrightarrow> False"

fun about_waits :: "about_state \<Rightarrow> (key \<Rightarrow> bool) list" where
  "about_waits (AboutBunnie _) = replicate 5 is_tour_advance_key"
| "about_waits (AboutBaochipLogo _) = replicate 4 is_tour_advance_key"
| "about_waits (AboutCheeso _) = replicate 3 is_tour_advance_key"
| "about_waits (AboutInfoScreen _) = replicate 2 is_tour_advance_key"
| "about_waits (AboutDiagnostics _) = replicate 1 is_tour_advance_key"
| "about_waits (AboutEnd _) = []"
| "about_waits (AboutError _) = []"

fun about_ok :: "about_state \<Rightarrow> bool" where
  "about_ok (AboutBunnie seen) \<longleftrightarrow> \<not> seen"
| "about_ok (AboutBaochipLogo seen) \<longleftrightarrow> \<not> seen"
| "about_ok (AboutCheeso seen) \<longleftrightarrow> \<not> seen"
| "about_ok (AboutInfoScreen seen) \<longleftrightarrow> \<not> seen"
| "about_ok (AboutDiagnostics seen) \<longleftrightarrow> \<not> seen"
| "about_ok (AboutEnd seen) \<longleftrightarrow> \<not> seen"
| "about_ok (AboutError _) \<longleftrightarrow> False"

definition standalone_classes :: "(key \<Rightarrow> bool) list" where
  "standalone_classes = [\<lambda>k. k = KMenu, \<lambda>k. k = KUp, \<lambda>k. k = KDown, \<lambda>k. k = KLeft, \<lambda>k. k = KRight,
     \<lambda>k. k = KFaceDown \<or> k = KFaceUp, is_tour_advance_key]"

fun standalone_waits :: "standalone_state \<Rightarrow> (key \<Rightarrow> bool) list" where
  "standalone_waits (SaJogPress _) = standalone_classes"
| "standalone_waits (SaUp _) = drop 1 standalone_classes"
| "standalone_waits (SaDown _) = drop 2 standalone_classes"
| "standalone_waits (SaLeft _) = drop 3 standalone_classes"
| "standalone_waits (SaRight _) = drop 4 standalone_classes"
| "standalone_waits (SaFlip _) = drop 5 standalone_classes"
| "standalone_waits (SaFinish _) = drop 6 standalone_classes"
| "standalone_waits SaExit = []"
| "standalone_waits (SaError _) = []"

fun standalone_ok :: "standalone_state \<Rightarrow> bool" where
  "standalone_ok (SaJogPress seen) \<longleftrightarrow> \<not> seen"
| "standalone_ok (SaUp seen) \<longleftrightarrow> \<not> seen"
| "standalone_ok (SaDown seen) \<longleftrightarrow> \<not> seen"
| "standalone_ok (SaLeft seen) \<longleftrightarrow> \<not> seen"
| "standalone_ok (SaRight seen) \<longleftrightarrow> \<not> seen"
| "standalone_ok (SaFlip seen) \<longleftrightarrow> \<not> seen"
| "standalone_ok (SaFinish seen) \<longleftrightarrow> \<not> seen"
| "standalone_ok SaExit \<longleftrightarrow> True"
| "standalone_ok (SaError _) \<longleftrightarrow> False"

interpretation tour_screen: key_screen tour_input tour_waits tour_ok tour_terminal
proof (unfold_locales, goal_cases)
  case (1 s k)
  then show ?case
    by (cases s) (simp_all add: next_class_def tour_arm_def eval_nat_numeral)
next
  case (2 s k)
  then show ?case by (cases s) (simp_all add: tour_arm_def Let_def)
next
  case (3 s)
  then show ?case by (cases s) (simp_all add: eval_nat_numeral)
qed

interpretation help_screen: key_screen help_input help_waits help_ok help_terminal
proof (unfold_locales, goal_cases)
  case (1 s k)
  then show ?case
    by (cases s) (simp_all add: next_class_def tour_arm_def eval_nat_numeral)
next
  case (2 s k)
  then show ?case by (cases s) (simp_all add: tour_arm_def Let_def)
next
  case (3 s)
  then show ?case by (cases s) (simp_all add: eval_nat_numeral)
qed

interpretation token_help_screen: key_screen token_help_input token_help_waits token_help_ok token_help_terminal
proof (unfold_locales, goal_cases)
  case (1 s k)
  then show ?case
    by (cases s) (simp_all add: next_class_def tour_arm_def eval_nat_numeral)
next
  case (2 s k)
  then show ?case by (cases s) (simp_all add: tour_arm_def Let_def)
next
  case (3 s)
  then show ?case by (cases s) (simp_all add: eval_nat_numeral)
qed

interpretation about_screen: key_screen about_input about_waits about_ok about_terminal
proof (unfold_locales, goal_cases)
  case (1 s k)
  then show ?case
    by (cases s) (simp_all add: next_class_def tour_arm_def eval_nat_numeral)
next
  case (2 s k)
  then show ?case by (cases s) (simp_all add: tour_arm_def Let_def)
next
  case (3 s)
  then show ?case by (cases s) (simp_all add: eval_nat_numeral)
qed

interpretation token_tour_screen: key_screen "\<lambda>k s. fst (token_tour_input k s)" token_tour_waits
  token_tour_ok token_tour_terminal
proof (unfold_locales, goal_cases)
  case (1 s k)
  then show ?case
    by (cases s) (simp_all add: next_class_def tour_arm_def eval_nat_numeral)
next
  case (2 s k)
  then show ?case by (cases s) (simp_all add: tour_arm_def)
next
  case (3 s)
  then show ?case by (cases s) (simp_all add: eval_nat_numeral)
qed

interpretation standalone_screen: key_screen "\<lambda>k s. fst (standalone_input (Some k) None s)" standalone_waits
  standalone_ok standalone_terminal
proof (unfold_locales, goal_cases)
  case (1 s k)
  then show ?case
    by (cases s) (simp_all add: next_class_def standalone_classes_def is_tour_advance_key_def Let_def)
next
  case (2 s k)
  then show ?case by (cases s) (simp_all add: Let_def)
next
  case (3 s)
  then show ?case by (cases s) (simp_all add: standalone_terminal_def standalone_classes_def)
qed

section \<open>What the screens ask for\<close>

text \<open>C38: 
  The tours end exactly with the keys their screens ask for: the first tour needs the jog press once
  and then eleven advance keys, the others only advance keys; every other key is ignored and none
  goes back.
\<close>
theorem tours_end:
  "(tour_terminal (fold tour_input ks (TourWelcome False)) \<longleftrightarrow>
      (\<exists>a b. ks = a @ KMenu # b \<and> 11 \<le> length (filter is_tour_advance_key b))) \<and>
   (help_terminal (fold help_input ks (HelpBadgeRecap False)) \<longleftrightarrow>
      2 \<le> length (filter is_tour_advance_key ks)) \<and>
   (token_help_terminal (fold token_help_input ks (TokenHelpTokenRecap False)) \<longleftrightarrow>
      3 \<le> length (filter is_tour_advance_key ks)) \<and>
   (about_terminal (fold about_input ks (AboutBunnie False)) \<longleftrightarrow>
      5 \<le> length (filter is_tour_advance_key ks)) \<and>
   (token_tour_terminal (fold (\<lambda>k s. fst (token_tour_input k s)) ks (TokenTour1 False)) \<longleftrightarrow>
      6 \<le> length (filter is_tour_advance_key ks))"
proof (intro conjI)
  have "tour_terminal (fold tour_input ks (TourWelcome False)) \<longleftrightarrow>
      in_order ((\<lambda>k. k = KMenu) # replicate 11 is_tour_advance_key) ks"
    by (subst tour_screen.run_finishes) simp_all
  also have "\<dots> \<longleftrightarrow> (\<exists>a k b. ks = a @ k # b \<and> k = KMenu \<and> 11 \<le> length (filter is_tour_advance_key b))"
    unfolding in_order.simps(2) in_order_replicate ..
  finally show "tour_terminal (fold tour_input ks (TourWelcome False)) \<longleftrightarrow>
      (\<exists>a b. ks = a @ KMenu # b \<and> 11 \<le> length (filter is_tour_advance_key b))" by blast
qed (subst help_screen.run_finishes token_help_screen.run_finishes about_screen.run_finishes
      token_tour_screen.run_finishes; simp add: in_order_replicate)+

text \<open>A run of the stand-alone test, counting the resets of the tour flag.\<close>

fun standalone_step :: "key \<Rightarrow> standalone_state \<times> nat \<Rightarrow> standalone_state \<times> nat" where
  "standalone_step k (s, n) =
     (let (s', reset) = standalone_input (Some k) None s in (s', if reset then n + 1 else n))"

lemma fst_standalone_run:
  "fst (fold standalone_step ks (s, n)) = fold (\<lambda>k s. fst (standalone_input (Some k) None s)) ks s"
  by (induction ks arbitrary: s n) (simp_all add: case_prod_beta)

lemma standalone_reset_iff:
  "standalone_ok s \<Longrightarrow> snd (standalone_input (Some k) None s) \<longleftrightarrow>
     (\<exists>c d. standalone_waits s = [c, d] \<and> c k)"
  by (cases s) (auto simp: standalone_classes_def Let_def)

lemma butlast_next_class: "2 \<le> length cs \<Longrightarrow> butlast (next_class cs k) = next_class (butlast cs) k"
  by (cases cs) (auto simp: next_class_def)

lemma short_next_class:
  "\<not> 2 \<le> length (next_class cs k) \<Longrightarrow> length cs < 2 \<or> (\<exists>c d. cs = [c, d] \<and> c k)"
  by (cases cs; cases "tl cs"; cases "tl (tl cs)") (auto simp: next_class_def split: if_splits)

lemma standalone_resets:
  "standalone_ok s \<Longrightarrow> snd (fold standalone_step ks (s, n)) =
     n + (if 2 \<le> length (standalone_waits s) \<and> in_order (butlast (standalone_waits s)) ks then 1 else 0)"
proof (induction ks arbitrary: s n)
  case Nil
  then show ?case by (cases "standalone_waits s") auto
next
  case (Cons k ks)
  let ?s = "fst (standalone_input (Some k) None s)" and ?w = "standalone_waits s"
  have w: "standalone_waits ?s = next_class ?w k" and ok: "standalone_ok ?s"
    using Cons.prems by (simp_all add: standalone_screen.waits_input standalone_screen.ok_input)
  have "snd (fold standalone_step (k # ks) (s, n)) =
      snd (fold standalone_step ks (?s, if \<exists>c d. ?w = [c, d] \<and> c k then n + 1 else n))"
    using Cons.prems by (simp add: case_prod_beta standalone_reset_iff)
  also have "\<dots> = (if \<exists>c d. ?w = [c, d] \<and> c k then n + 1 else n) +
      (if 2 \<le> length (next_class ?w k) \<and> in_order (butlast (next_class ?w k)) ks then 1 else 0)"
    by (simp only: Cons.IH [OF ok] w)
  also have "\<dots> = n + (if 2 \<le> length ?w \<and> in_order (butlast ?w) (k # ks) then 1 else 0)"
  proof (cases "2 \<le> length (next_class ?w k)")
    case True
    then have "2 \<le> length ?w" "\<not> (\<exists>c d. ?w = [c, d] \<and> c k)"
      by (auto simp: next_class_def split: list.splits if_splits)
    then show ?thesis using True by (simp add: in_order_Cons butlast_next_class)
  next
    case False
    then consider "length ?w < 2" | c d where "?w = [c, d]" "c k"
      using short_next_class [of ?w k] by blast
    then show ?thesis using False
      by cases (auto simp: in_order_Cons next_class_def)
  qed
  finally show ?case .
qed

text \<open>
  The stand-alone test is left exactly after its seven inputs in order, and the stored tour flag is
  reset exactly once, when the badge has been turned over, whatever other keys are pressed.
\<close>
theorem standalone_test_passes:
  "(standalone_terminal (fst (fold standalone_step ks (SaJogPress False, 0))) \<longleftrightarrow>
      in_order standalone_classes ks) \<and>
   snd (fold standalone_step ks (SaJogPress False, 0)) =
     (if in_order (take 6 standalone_classes) ks then 1 else 0)"
proof
  show "standalone_terminal (fst (fold standalone_step ks (SaJogPress False, 0))) \<longleftrightarrow>
      in_order standalone_classes ks"
    unfolding fst_standalone_run by (subst standalone_screen.run_finishes) simp_all
  have "snd (fold standalone_step ks (SaJogPress False, 0)) =
      (if 2 \<le> length standalone_classes \<and> in_order (butlast standalone_classes) ks then 1 else 0)"
    by (simp add: standalone_resets)
  then show "snd (fold standalone_step ks (SaJogPress False, 0)) =
     (if in_order (take 6 standalone_classes) ks then 1 else 0)"
    by (simp add: standalone_classes_def)
qed

end
