(* ===== verification/Vault_Ui.thy ===== *)
theory Vault_Ui
  imports Ui_Screens
begin

text \<open>
  The state of the vault's user interface and its two entry points that change it: \<open>redraw\<close> and
  \<open>handle_key\<close> of \<open>VaultUi\<close> (\<open>src/ux.rs\<close>).  The state also holds what the main loop of
  \<open>src/main.rs\<close> keeps in local variables.  What is drawn is modelled for the idle screen's picture
  only; requests to other threads, menus and dialogues are recorded in order in \<open>acts\<close>.
\<close>

section \<open>State\<close>

datatype menu = MainMenu | TourMenu | GeneMenu | IdleMenu

datatype act =
    AcquireQr | ReloadDb | RefreshList | ListKey key nat | AutotypeSelected | TypeSelectedCode
  | BootwaitOff | RaiseMenu menu | MenuKey menu key | Notify string | DelayedKey key | Camera
  | EditSelected | ChangeFont | DeleteSelected | EditUsernames | EditFilter

record vault =
  cfg :: config
  vsys :: sys
  vmode :: vault_mode
  animate :: bool
  upside_down :: bool
  factory_test :: factory_state
  standalone_test :: standalone_state
  tour_st :: tour_state
  token_tour_st :: token_tour_state
  token_help_st :: token_help_state
  help_st :: help_state
  about_st :: about_state
  qr_override :: "string option"
  start_time :: "nat option"
  user_frames :: "u32 list list"
  defcon_frames :: "u32 list list"
  phase :: bool
  edge :: bool
  last_mode :: vault_mode
  bio_loaded :: bool
  batt_polled :: bool
  low_batt_since :: "nat option"
  last_key_time :: nat
  start_hold_time :: nat
  menu_active :: bool
  boot_sent :: bool
  jig_ready_seen :: bool
  mutation_param :: u8
  k_last :: "key option"
  skip_one_key :: bool
  acts :: "act list"

text \<open>What the code reads from the hardware when it runs: the uptime in milliseconds, the clock in
  seconds, the calendar year, the answer to \<open>is_plugged_in\<close>, the battery in millivolts, the
  \<open>uber\<close> feature of the build, and whether the filter leaves no password to list.\<close>

record ui_env =
  uptime_ms :: nat
  clock_s :: nat
  clock_year :: nat
  plugged :: bool
  vbat_mv :: nat
  is_uber :: bool
  no_passwords :: bool

definition log_acts :: "act list \<Rightarrow> vault \<Rightarrow> vault" where
  "log_acts as v = v\<lparr>acts := acts v @ as\<rparr>"

definition LOWBATT_THRESH_MV :: "bool \<Rightarrow> nat" where "LOWBATT_THRESH_MV uber = (if uber then 3200 else 2380)"
definition LOWBATT_TIMEOUT_S :: "bool \<Rightarrow> nat" where "LOWBATT_TIMEOUT_S uber = (if uber then 180 else 90)"
definition FAST_SCROLL_DELAY_MS :: nat where "FAST_SCROLL_DELAY_MS = 1300"
definition KEYUP_DELAY_MS :: nat where "KEYUP_DELAY_MS = 100"
definition PAGE_INCREMENT :: nat where "PAGE_INCREMENT = 6"

section \<open>Redrawing\<close>

definition is_idle :: "vault_mode \<Rightarrow> bool" where
  "is_idle m \<longleftrightarrow> m = Idle \<or> m = IdleDevMode"

definition redraw_fade :: "vault \<Rightarrow> vault" where
  "redraw_fade v = (case display_fading (is_idle (vmode v)) (cfg v, vsys v) of (c, s) \<Rightarrow> v\<lparr>cfg := c, vsys := s\<rparr>)"

text \<open>The picture of the idle screen.  Both slots filled: they take turns at every change of the
  three-second edge, and whenever the screen is entered.\<close>

datatype drawn = Undrawn | Logo | Frame "u32 list"

definition slot_picture :: "ui_env \<Rightarrow> nat \<Rightarrow> bool \<Rightarrow> u32 list list \<Rightarrow> drawn" where
  "slot_picture env frame_ms entered slot =
     (if length slot = 1 then (if entered then Frame (slot ! 0) else Undrawn)
      else case animated_frame frame_ms slot (uptime_ms env) of None \<Rightarrow> Undrawn | Some f \<Rightarrow> Frame f)"

definition idle_picture :: "ui_env \<Rightarrow> vault_mode \<Rightarrow> vault \<Rightarrow> drawn \<times> vault" where
  "idle_picture env m0 v =
     (let entered = (m0 \<noteq> last_mode v); ms = anim_frame_ms (vsys v)
      in if user_frames v \<noteq> [] \<and> defcon_frames v \<noteq> [] then
           let e = (uptime_ms env div 3000 mod 2 = 0);
               edge_changed = (edge v \<noteq> e \<or> entered);
               v' = (if edge_changed then v\<lparr>phase := \<not> phase v, edge := e\<rparr> else v)
           in (slot_picture env ms edge_changed (if phase v' then user_frames v' else defcon_frames v'), v')
         else if user_frames v \<noteq> [] then (slot_picture env ms entered (user_frames v), v)
         else if defcon_frames v \<noteq> [] then (slot_picture env ms entered (defcon_frames v), v)
         else (if entered then Logo else Undrawn, v))"

definition poll_battery :: "ui_env \<Rightarrow> vault \<Rightarrow> vault" where
  "poll_battery env v =
     (if \<not> batt_polled v \<and> uptime_ms env div 1000 mod 4 = 0 \<and> \<not> plugged env then
        (if vbat_mv env < LOWBATT_THRESH_MV (is_uber env) then
           (case low_batt_since v of
              Some since \<Rightarrow>
                if clock_s env - since > LOWBATT_TIMEOUT_S (is_uber env)
                then v\<lparr>vsys := power_off_request (vsys v)\<rparr> else v
            | None \<Rightarrow> v\<lparr>low_batt_since := Some (clock_s env)\<rparr>)
         else v\<lparr>low_batt_since := None\<rparr>)\<lparr>batt_polled := True\<rparr>
      else v\<lparr>batt_polled := False\<rparr>)"

text \<open>The timer shown by both tests; it also ends the factory test.\<close>

definition test_timeout :: "ui_env \<Rightarrow> vault \<Rightarrow> vault" where
  "test_timeout env v =
     (if clock_s env - (case start_time v of Some t \<Rightarrow> t | None \<Rightarrow> clock_s env) > FACTORY_TIMEOUT_S
      then v\<lparr>factory_test := FtError ''Timeout!''\<rparr> else v)"

definition start_timer :: "ui_env \<Rightarrow> vault \<Rightarrow> vault" where
  "start_timer env v =
     v\<lparr>start_time := (case start_time v of None \<Rightarrow> Some (clock_s env) | t \<Rightarrow> t), animate := True\<rparr>"

definition redraw_factory :: "ui_env \<Rightarrow> vault \<Rightarrow> vault" where
  "redraw_factory env v =
     test_timeout env
       (case factory_test v of
          FtInitWait _ \<Rightarrow> v\<lparr>animate := True\<rparr>
        | FtJogPress _ \<Rightarrow> start_timer env v
        | _ \<Rightarrow> v)"

definition redraw_standalone :: "ui_env \<Rightarrow> vault \<Rightarrow> vault" where
  "redraw_standalone env v =
     test_timeout env
       (if upside_down v then v
        else case standalone_test v of SaJogPress _ \<Rightarrow> start_timer env v | _ \<Rightarrow> v)"

text \<open>The body of \<open>redraw\<close> for the mode read at its top; the flag says that it returns early.\<close>

definition redraw_mode :: "ui_env \<Rightarrow> vault_mode \<Rightarrow> vault \<Rightarrow> vault \<times> bool" where
  "redraw_mode env m0 v =
     (case m0 of
        Idle \<Rightarrow> (poll_battery env (snd (idle_picture env m0 v)), False)
      | ConfirmGene \<Rightarrow> (poll_battery env (snd (idle_picture env m0 v)), False)
      | IdleDevMode \<Rightarrow> (poll_battery env (snd (idle_picture env m0 v)), False)
      | ShowKey q \<Rightarrow> (v\<lparr>vmode := if qr_override v = None then Idle else ShowKey (q + 1)\<rparr>, False)
      | ResponseGene q \<Rightarrow> (v\<lparr>vmode := if qr_override v = None then Idle else ResponseGene (q + 1)\<rparr>, False)
      | FactoryTest \<Rightarrow> (redraw_factory env v, False)
      | StandAloneTest \<Rightarrow> (redraw_standalone env v, False)
      | Totp \<Rightarrow> (v, clock_year env < 2026)
      | Password \<Rightarrow> (v, no_passwords env)
      | _ \<Rightarrow> (v, False))"

definition redraw :: "ui_env \<Rightarrow> vault \<Rightarrow> vault" where
  "redraw env v =
     (let m0 = vmode v;
          v1 = redraw_fade v;
          v2 = (if m0 = Idle \<and> is_developer (cfg v1) then v1\<lparr>vmode := IdleDevMode\<rparr> else v1)
      in case redraw_mode env m0 v2 of (v3, early) \<Rightarrow> if early then v3 else v3\<lparr>last_mode := vmode v3\<rparr>)"

section \<open>Inputs that do not come from keys\<close>

definition test_string :: "ui_env \<Rightarrow> string \<Rightarrow> vault \<Rightarrow> vault" where
  "test_string env s v =
     redraw env (v\<lparr>factory_test := factory_input (clock_s env) None (Some s) None False (factory_test v)\<rparr>)"

definition jig_ready :: "ui_env \<Rightarrow> vault \<Rightarrow> vault" where
  "jig_ready env v =
     redraw env (v\<lparr>factory_test := factory_input (clock_s env) None None None True (factory_test v)\<rparr>)"

definition reset_help_state :: "vault \<Rightarrow> vault" where "reset_help_state v = v\<lparr>help_st := HelpBadgeRecap False\<rparr>"
definition reset_about_state :: "vault \<Rightarrow> vault" where "reset_about_state v = v\<lparr>about_st := AboutBunnie False\<rparr>"
definition reset_token_help_state :: "vault \<Rightarrow> vault" where
  "reset_token_help_state v = v\<lparr>token_help_st := TokenHelpTokenRecap False\<rparr>"
definition reset_factory_test :: "ui_env \<Rightarrow> vault \<Rightarrow> vault" where
  "reset_factory_test env v = v\<lparr>factory_test := FtInitWait (clock_s env)\<rparr>"

section \<open>Keys\<close>

text \<open>The clock never runs backwards, so the subtractions are exact.\<close>

definition manage_longpress :: "ui_env \<Rightarrow> vault \<Rightarrow> bool \<times> vault" where
  "manage_longpress env v =
     (let now = uptime_ms env;
          v1 = (if now - last_key_time v > KEYUP_DELAY_MS then v\<lparr>start_hold_time := now\<rparr> else v);
          v2 = v1\<lparr>last_key_time := now\<rparr>
      in (now - start_hold_time v2 > FAST_SCROLL_DELAY_MS, v2))"

definition unless_fire :: "key \<Rightarrow> key option" where
  "unless_fire k = (if k \<noteq> KFire then Some k else None)"

text \<open>The base45 and AEAD functions of the crates, and the draws of one call.\<close>

record crypto =
  b45enc :: "bytes \<Rightarrow> string"
  b45dec :: "string \<Rightarrow> bytes option"
  aead_enc :: "bytes \<Rightarrow> bytes \<Rightarrow> bytes \<Rightarrow> bytes"
  aead_dec :: "bytes \<Rightarrow> bytes \<Rightarrow> bytes \<Rightarrow> bytes option"

definition key_factory :: "ui_env \<Rightarrow> key \<Rightarrow> vault \<Rightarrow> key option \<times> vault" where
  "key_factory env k v =
     (if k = KFire then Some k else None,
      v\<lparr>factory_test := factory_input (clock_s env) (Some k) None None False (factory_test v)\<rparr>)"

definition key_standalone :: "key \<Rightarrow> vault \<Rightarrow> key option \<times> vault" where
  "key_standalone k v =
     (case standalone_input (Some k) None (standalone_test v) of (st, reset) \<Rightarrow>
        (None, v\<lparr>standalone_test := st,
                 vsys := if reset then put_key DC34_TOUR [0] (vsys v) else vsys v,
                 vmode := if standalone_terminal st then Idle else vmode v\<rparr>))"

definition key_tour :: "key \<Rightarrow> vault \<Rightarrow> key option \<times> vault" where
  "key_tour k v =
     (let st = tour_input k (tour_st v)
      in (unless_fire k, v\<lparr>tour_st := st, vmode := if tour_terminal st then Idle else vmode v\<rparr>))"

definition key_token_tour :: "key \<Rightarrow> vault \<Rightarrow> key option \<times> vault" where
  "key_token_tour k v =
     (case token_tour_input k (token_tour_st v) of (st, skip) \<Rightarrow>
        (unless_fire k,
         v\<lparr>token_tour_st := st,
           vsys := if skip then side_effect_skip_token_tour True (vsys v) else vsys v,
           vmode := if token_tour_terminal st then Password else vmode v\<rparr>))"

definition key_help :: "key \<Rightarrow> vault \<Rightarrow> key option \<times> vault" where
  "key_help k v =
     (let st = help_input k (help_st v)
      in (unless_fire k, v\<lparr>help_st := st, vmode := if help_terminal st then Idle else vmode v\<rparr>))"

definition key_token_help :: "key \<Rightarrow> vault \<Rightarrow> key option \<times> vault" where
  "key_token_help k v =
     (let st = token_help_input k (token_help_st v)
      in (unless_fire k,
          v\<lparr>token_help_st := st,
            vmode := if token_help_terminal st
                     then (if attach_state_of (cfg v) = Unattached then Password else Idle) else vmode v\<rparr>))"

definition key_about :: "key \<Rightarrow> vault \<Rightarrow> key option \<times> vault" where
  "key_about k v =
     (let st = about_input k (about_st v);
          v1 = v\<lparr>about_st := st, vmode := if about_terminal st then Idle else vmode v\<rparr>
      in (unless_fire k, if is_diagnostics st \<and> k = KUp then log_acts [BootwaitOff] v1 else v1))"

definition key_password :: "ui_env \<Rightarrow> key \<Rightarrow> vault \<Rightarrow> key option \<times> vault" where
  "key_password env k v =
     (case manage_longpress env v of (long, v1) \<Rightarrow>
        let increment = (if long then PAGE_INCREMENT else 1)
        in (Some k,
            if k = KUp \<or> k = KDown then log_acts [ListKey k increment] v1
            else if k = KLeft then log_acts [AutotypeSelected] v1
            else if k = KRight then log_acts [ReloadDb, RefreshList] (v1\<lparr>vmode := Totp\<rparr>)
            else v1))"

definition key_totp :: "key \<Rightarrow> vault \<Rightarrow> key option \<times> vault" where
  "key_totp k v =
     (Some k,
      if k = KUp \<or> k = KDown then log_acts [ListKey k 1] v
      else if k = KLeft then log_acts [TypeSelectedCode] v
      else if k = KRight then log_acts [ReloadDb, RefreshList] (v\<lparr>vmode := Password\<rparr>)
      else v)"

text \<open>Showing the key locks the mutation rate in and draws a fresh nonce; \<open>None\<close>: the nonce loop does
  not end.\<close>

definition key_idle :: "crypto \<Rightarrow> (nat \<Rightarrow> bytes) \<Rightarrow> key \<Rightarrow> vault \<Rightarrow> (key option \<times> vault) option" where
  "key_idle cr nonces k v =
     (if k = KLeft \<or> k = KRight then
        (case nonce_data nonces (lock_rate (cfg v)) of
           None \<Rightarrow> None
         | Some (shown, c) \<Rightarrow>
             Some (None, v\<lparr>cfg := c, qr_override := Some (b45enc cr shown), vmode := ShowKey 0\<rparr>))
      else if k = KFire then Some (Some k, v\<lparr>vmode := GeneScan\<rparr>)
      else Some (Some k, v))"

definition key_showkey :: "key \<Rightarrow> vault \<Rightarrow> key option \<times> vault" where
  "key_showkey k v = (Some k, v\<lparr>vmode := if k = KFire then GeneScan else Idle\<rparr>)"

definition key_response :: "key \<Rightarrow> vault \<Rightarrow> key option \<times> vault" where
  "key_response k v = (unless_fire k, v\<lparr>cfg := clear_nonces (cfg v), vmode := Idle\<rparr>)"

definition filter_key :: "crypto \<Rightarrow> (nat \<Rightarrow> bytes) \<Rightarrow> ui_env \<Rightarrow> vault_mode \<Rightarrow> key \<Rightarrow> vault \<Rightarrow> (key option \<times> vault) option" where
  "filter_key cr nonces env m0 k v =
     (case m0 of
        FactoryTest \<Rightarrow> Some (key_factory env k v)
      | StandAloneTest \<Rightarrow> Some (key_standalone k v)
      | Tour \<Rightarrow> Some (key_tour k v)
      | TokenTour \<Rightarrow> Some (key_token_tour k v)
      | DefconHelp \<Rightarrow> Some (key_help k v)
      | TokenHelp \<Rightarrow> Some (key_token_help k v)
      | About \<Rightarrow> Some (key_about k v)
      | Password \<Rightarrow> Some (key_password env k v)
      | Totp \<Rightarrow> Some (key_totp k v)
      | Idle \<Rightarrow> key_idle cr nonces k v
      | ShowKey _ \<Rightarrow> Some (key_showkey k v)
      | ResponseGene _ \<Rightarrow> Some (key_response k v)
      | _ \<Rightarrow> Some (Some k, v))"

text \<open>A flip key turns the picture and redraws; only the stand-alone test also takes it as input.\<close>

definition handle_key :: "crypto \<Rightarrow> (nat \<Rightarrow> bytes) \<Rightarrow> ui_env \<Rightarrow> key \<Rightarrow> vault \<Rightarrow> (key option \<times> vault) option" where
  "handle_key cr nonces env k v =
     (let m0 = vmode v;
          flip = (k = KFaceUp \<or> k = KFaceDown);
          v1 = (if flip then redraw env (v\<lparr>upside_down := (k = KFaceDown)\<rparr>) else v)
      in if flip \<and> m0 \<noteq> StandAloneTest then Some (Some k, v1)
         else case filter_key cr nonces env m0 k v1 of
                None \<Rightarrow> None
              | Some (fk, v2) \<Rightarrow>
                  let v3 = v2\<lparr>animate := should_animate (vmode v2)\<rparr>
                  in Some (fk, if k \<noteq> KMenu then redraw env v3 else v3))"

section \<open>Lemmas: what a redraw leaves alone\<close>

text \<open>A redraw touches the configuration only in the cache of the fading request, the system only by
  messages to the power manager, and never the code on show.\<close>

named_theorems redraws

definition same_config :: "config \<Rightarrow> config \<Rightarrow> bool" where
  "same_config c c' \<longleftrightarrow> (\<exists>b. c' = c\<lparr>display_fade_cache := b\<rparr>)"

lemma same_config_refl [simp]: "same_config c c"
  unfolding same_config_def by (rule exI [of _ "display_fade_cache c"]) simp

lemma same_configD:
  "same_config c c' \<Longrightarrow> gene_cache c' = gene_cache c \<and> prior_gene c' = prior_gene c \<and> nonce_mine c' = nonce_mine c
     \<and> k0 c' = k0 c \<and> badge_type_of c' = badge_type_of c \<and> final_rate c' = final_rate c
     \<and> mutation_rate_of c' = mutation_rate_of c \<and> is_developer c' = is_developer c
     \<and> attach_state_of c' = attach_state_of c \<and> display_always_on c' = display_always_on c"
  by (auto simp: same_config_def)

lemma redraw_fade_config: "same_config (cfg v) (cfg (redraw_fade v))"
proof -
  obtain c s where "display_fading (is_idle (vmode v)) (cfg v, vsys v) = (c, s)" by fastforce
  then show ?thesis
    by (auto simp: redraw_fade_def display_fading_def Let_def same_config_def split: if_splits
        intro: exI [of _ "display_fade_cache (cfg v)"])
qed

lemma redraw_fade_sys: "dc34 (vsys (redraw_fade v)) = dc34 (vsys v)"
  by (auto simp: redraw_fade_def display_fading_def Let_def send_sys_def)

lemma redraw_fade_rest [redraws]:
  "vmode (redraw_fade v) = vmode v" "qr_override (redraw_fade v) = qr_override v"
  "mutation_param (redraw_fade v) = mutation_param v" "skip_one_key (redraw_fade v) = skip_one_key v" "menu_active (redraw_fade v) = menu_active v"
  "acts (redraw_fade v) = acts v" "standalone_test (redraw_fade v) = standalone_test v"
  by (simp_all add: redraw_fade_def case_prod_beta)

lemma idle_picture_rest [redraws]:
  "cfg (snd (idle_picture env m v)) = cfg v" "vsys (snd (idle_picture env m v)) = vsys v"
  "vmode (snd (idle_picture env m v)) = vmode v" "qr_override (snd (idle_picture env m v)) = qr_override v"
  "mutation_param (snd (idle_picture env m v)) = mutation_param v" "skip_one_key (snd (idle_picture env m v)) = skip_one_key v" "menu_active (snd (idle_picture env m v)) = menu_active v"
  "acts (snd (idle_picture env m v)) = acts v" "standalone_test (snd (idle_picture env m v)) = standalone_test v"
  by (simp_all add: idle_picture_def Let_def)

lemma poll_battery_rest [redraws]:
  "cfg (poll_battery env v) = cfg v" "dc34 (vsys (poll_battery env v)) = dc34 (vsys v)"
  "vmode (poll_battery env v) = vmode v" "qr_override (poll_battery env v) = qr_override v"
  "mutation_param (poll_battery env v) = mutation_param v" "skip_one_key (poll_battery env v) = skip_one_key v" "menu_active (poll_battery env v) = menu_active v"
  "acts (poll_battery env v) = acts v" "standalone_test (poll_battery env v) = standalone_test v"
  by (simp_all add: poll_battery_def power_off_request_def send_sys_def split: option.splits)

lemma test_timeout_rest [redraws]:
  "cfg (test_timeout env v) = cfg v" "vsys (test_timeout env v) = vsys v" "vmode (test_timeout env v) = vmode v"
  "qr_override (test_timeout env v) = qr_override v" "mutation_param (test_timeout env v) = mutation_param v"
  "skip_one_key (test_timeout env v) = skip_one_key v" "menu_active (test_timeout env v) = menu_active v" "acts (test_timeout env v) = acts v"
  "standalone_test (test_timeout env v) = standalone_test v"
  by (simp_all add: test_timeout_def)

lemma test_screens_rest [redraws]:
  "cfg (redraw_factory env v) = cfg v" "vsys (redraw_factory env v) = vsys v" "vmode (redraw_factory env v) = vmode v"
  "qr_override (redraw_factory env v) = qr_override v" "mutation_param (redraw_factory env v) = mutation_param v"
  "skip_one_key (redraw_factory env v) = skip_one_key v" "menu_active (redraw_factory env v) = menu_active v" "acts (redraw_factory env v) = acts v"
  "standalone_test (redraw_factory env v) = standalone_test v"
  "cfg (redraw_standalone env v) = cfg v" "vsys (redraw_standalone env v) = vsys v" "vmode (redraw_standalone env v) = vmode v"
  "qr_override (redraw_standalone env v) = qr_override v" "mutation_param (redraw_standalone env v) = mutation_param v"
  "skip_one_key (redraw_standalone env v) = skip_one_key v" "menu_active (redraw_standalone env v) = menu_active v" "acts (redraw_standalone env v) = acts v"
  "standalone_test (redraw_standalone env v) = standalone_test v"
  by (simp_all add: redraw_factory_def redraw_standalone_def start_timer_def redraws
      split: factory_state.splits standalone_state.splits)

fun redrawn_mode :: "bool \<Rightarrow> bool \<Rightarrow> vault_mode \<Rightarrow> vault_mode" where
  "redrawn_mode dev qr Idle = (if dev then IdleDevMode else Idle)"
| "redrawn_mode dev qr (ShowKey q) = (if qr then ShowKey (q + 1) else Idle)"
| "redrawn_mode dev qr (ResponseGene q) = (if qr then ResponseGene (q + 1) else Idle)"
| "redrawn_mode dev qr m = m"

lemma redraw_mode_rest [redraws]:
  "cfg (fst (redraw_mode env m v)) = cfg v" "dc34 (vsys (fst (redraw_mode env m v))) = dc34 (vsys v)"
  "qr_override (fst (redraw_mode env m v)) = qr_override v" "mutation_param (fst (redraw_mode env m v)) = mutation_param v"
  "skip_one_key (fst (redraw_mode env m v)) = skip_one_key v" "menu_active (fst (redraw_mode env m v)) = menu_active v" "acts (fst (redraw_mode env m v)) = acts v"
  "standalone_test (fst (redraw_mode env m v)) = standalone_test v"
  by (cases m; simp add: redraw_mode_def redraws)+

lemma redraw_last:
  "redraw env v = (let v1 = redraw_fade v;
      v2 = (if vmode v = Idle \<and> is_developer (cfg v1) then v1\<lparr>vmode := IdleDevMode\<rparr> else v1);
      v3 = fst (redraw_mode env (vmode v) v2)
    in if snd (redraw_mode env (vmode v) v2) then v3 else v3\<lparr>last_mode := vmode v3\<rparr>)"
  by (simp add: redraw_def Let_def case_prod_beta)

lemma redraw_rest [redraws]:
  "qr_override (redraw env v) = qr_override v" "mutation_param (redraw env v) = mutation_param v"
  "skip_one_key (redraw env v) = skip_one_key v" "menu_active (redraw env v) = menu_active v" "acts (redraw env v) = acts v"
  "standalone_test (redraw env v) = standalone_test v" "dc34 (vsys (redraw env v)) = dc34 (vsys v)"
  by (simp_all add: redraw_last Let_def redraws redraw_fade_sys)

lemma redraw_config: "same_config (cfg v) (cfg (redraw env v))"
  using redraw_fade_config [of v] by (simp add: redraw_last Let_def redraws)

lemma redraw_config_of: "cfg v = c \<Longrightarrow> same_config c (cfg (redraw env v))"
  using redraw_config by auto

lemmas redraw_cfg [redraws] = redraw_config [THEN same_configD, THEN conjunct1]
  redraw_config [THEN same_configD, THEN conjunct2, THEN conjunct1]
  redraw_config [THEN same_configD, THEN conjunct2, THEN conjunct2, THEN conjunct1]
  redraw_config [THEN same_configD, THEN conjunct2, THEN conjunct2, THEN conjunct2, THEN conjunct1]

lemma redraw_developer [redraws]: "is_developer (cfg (redraw env v)) = is_developer (cfg v)"
  using redraw_config [THEN same_configD] by blast

lemma vmode_redraw:
  "vmode (redraw env v) = redrawn_mode (is_developer (cfg v)) (qr_override v \<noteq> None) (vmode v)"
  using redraw_fade_config [of v, THEN same_configD]
  by (cases "vmode v") (simp_all add: redraw_last Let_def redraw_mode_def redraws)

section \<open>Lemmas: keys\<close>

text \<open>A key never changes a genome, in memory or stored, nor the rate locked in by a scan.\<close>

lemma put_other_key: "k \<noteq> k' \<Longrightarrow> dc34 (put_key k v s) k' = dc34 s k'"
  by (simp add: put_key_def)

lemma manage_longpress_rest [redraws]:
  "cfg (snd (manage_longpress env v)) = cfg v" "vsys (snd (manage_longpress env v)) = vsys v"
  by (simp_all add: manage_longpress_def Let_def)

definition keeps_genome :: "vault \<Rightarrow> vault \<Rightarrow> bool" where
  "keeps_genome v v' \<longleftrightarrow> gene_cache (cfg v') = gene_cache (cfg v) \<and> prior_gene (cfg v') = prior_gene (cfg v)
     \<and> k0 (cfg v') = k0 (cfg v) \<and> dc34 (vsys v') DC34_GENE = dc34 (vsys v) DC34_GENE"

lemma keeps_genome_refl [simp]: "keeps_genome v v"
  by (simp add: keeps_genome_def)

lemma keeps_genome_trans [trans]: "keeps_genome u v \<Longrightarrow> keeps_genome v w \<Longrightarrow> keeps_genome u w"
  by (simp add: keeps_genome_def)

lemma redraw_keeps_genome: "keeps_genome v (redraw env v)"
  by (simp add: keeps_genome_def redraws)

lemma nonce_data_config: "nonce_data draws c = Some (d, c') \<Longrightarrow> \<exists>n. c' = c\<lparr>nonce_mine := Some n\<rparr> \<and> d = DC34_HEADER @ n"
  by (auto simp: nonce_data_def generate_my_nonce_def)

lemma key_idle_keeps_genome: "key_idle cr nonces k v = Some (fk, v') \<Longrightarrow> keeps_genome v v'"
  by (auto simp: key_idle_def keeps_genome_def lock_rate_def dest!: nonce_data_config
      split: option.splits prod.splits if_splits)

lemma filter_key_keeps_genome: "filter_key cr nonces env m k v = Some (fk, v') \<Longrightarrow> keeps_genome v v'"
proof (cases m)
  case Idle
  then show "filter_key cr nonces env m k v = Some (fk, v') \<Longrightarrow> keeps_genome v v'"
    using key_idle_keeps_genome by (simp add: filter_key_def)
qed (auto simp: filter_key_def keeps_genome_def key_factory_def key_standalone_def key_tour_def key_token_tour_def
    key_help_def key_token_help_def key_about_def key_password_def key_totp_def key_showkey_def key_response_def
    side_effect_skip_token_tour_def clear_nonces_def log_acts_def put_other_key Let_def case_prod_beta redraws
    split: if_splits)

lemma handle_key_keeps_genome: "handle_key cr nonces env k v = Some (fk, v') \<Longrightarrow> keeps_genome v v'"
  unfolding handle_key_def Let_def
  by (auto split: if_splits option.splits dest!: filter_key_keeps_genome
      simp: keeps_genome_def redraws)

end
