(* ===== verification/Gene_Exchange.thy ===== *)
theory Gene_Exchange
  imports Vault_Ui Records
begin

text \<open>
  What the main loop does with a scanned QR code (\<open>HandleQr\<close> in \<open>src/main.rs\<close>).  In the gene modes
  a base45 code is either the mate's key, answered with an encrypted gamete, or an encrypted gamete,
  which is decrypted under the badge's own nonce and replaces its genome.  Base45 and AES-GCM-SIV
  are the fields of \<open>crypto\<close>; a QR code is represented by its contents.
\<close>

section \<open>Scanning\<close>

text \<open>The draws of one scan: nonces, meiosis and mutation of the own gene, mutation of the incoming
  gamete.\<close>

record draws =
  nonce_draws :: "nat \<Rightarrow> bytes"
  meiosis_draws :: "nat \<Rightarrow> nat"
  mutate_draws :: "nat \<Rightarrow> nat"
  sperm_draws :: "nat \<Rightarrow> nat"

definition gene_mode :: "vault_mode \<Rightarrow> bool" where
  "gene_mode m \<longleftrightarrow> m = GeneScan \<or> (\<exists>q. m = ResponseGene q \<or> m = ShowKey q)"

lemma gene_mode_simps [simp, code]:
  "gene_mode GeneScan" "gene_mode (ResponseGene q)" "gene_mode (ShowKey q)"
  "\<not> gene_mode Idle" "\<not> gene_mode IdleDevMode" "\<not> gene_mode ConfirmGene" "\<not> gene_mode FactoryTest"
  "\<not> gene_mode StandAloneTest" "\<not> gene_mode Tour" "\<not> gene_mode TokenTour" "\<not> gene_mode DefconHelp"
  "\<not> gene_mode About" "\<not> gene_mode Totp" "\<not> gene_mode Password" "\<not> gene_mode TokenHelp"
  by (simp_all add: gene_mode_def)

text \<open>The mate's key was scanned.  The flag of a result says that the loop continues at once.\<close>

definition respond_to_key :: "crypto \<Rightarrow> draws \<Rightarrow> bytes \<Rightarrow> vault \<Rightarrow> stop + vault \<times> bool" where
  "respond_to_key cr dr data v =
     (if length data < length DC34_HEADER + 12 then Inr (v\<lparr>vmode := Idle, animate := False\<rparr>, True)
      else case generate_my_nonce (nonce_draws dr) (cfg v) of
             None \<Rightarrow> Inl Hang
           | Some c \<Rightarrow>
               (case get_padded_gamete (meiosis_draws dr) (mutate_draws dr) c of
                  None \<Rightarrow> Inl Panic
                | Some padded \<Rightarrow>
                    let their_nonce = take 12 (drop (length DC34_HEADER) data)
                    in Inr (v\<lparr>cfg := c,
                              qr_override := Some (b45enc cr (aead_enc cr (k0 c) their_nonce padded)),
                              vmode := ResponseGene 0, animate := should_animate (ResponseGene 0)\<rparr>, False)))"

text \<open>A gamete was decrypted: \<open>msg[..9]\<close> and \<open>msg[15]\<close> panic when out of range.\<close>

definition inbreeding_rate :: "badge_type \<Rightarrow> mutation_rate" where
  "inbreeding_rate bt = (if bt = Human then Elevated else Baseline)"

definition syngamy_rate :: "badge_type \<Rightarrow> config \<Rightarrow> mutation_rate option" where
  "syngamy_rate incoming c =
     (if incoming = badge_type_of c then Some (max (inbreeding_rate (badge_type_of c)) (final_rate c)) else None)"

definition accept_gamete :: "draws \<Rightarrow> bytes \<Rightarrow> vault \<Rightarrow> stop + vault" where
  "accept_gamete dr msg v =
     (if length msg < haploid_size then Inl Panic
      else case h_deserialize (take haploid_size msg) of
             None \<Rightarrow> Inr (log_acts [Notify ''Gene failed to deserialize'']
                            (v\<lparr>vmode := Idle, animate := should_animate Idle\<rparr>))
           | Some sperm0 \<Rightarrow>
               (if length msg \<le> 15 then Inl Panic
                else
                  let rate = syngamy_rate (badge_or_none (msg ! 15)) (cfg v);
                      sperm = (case rate of None \<Rightarrow> sperm0 | Some r \<Rightarrow> mutate sperm0 r (sperm_draws dr))
                  in case get_egg (meiosis_draws dr) (mutate_draws dr) rate (cfg v) of
                       None \<Rightarrow> Inl Panic
                     | Some egg \<Rightarrow>
                         let c = replace_gene egg sperm (cfg v)
                         in Inr (log_acts [DelayedKey KMenu]
                              (v\<lparr>cfg := c, vsys := render_gene c (vsys v), vmode := ConfirmGene\<rparr>))))"

definition decrypt_gene :: "crypto \<Rightarrow> draws \<Rightarrow> bytes \<Rightarrow> vault \<Rightarrow> stop + vault \<times> bool" where
  "decrypt_gene cr dr data v =
     (let idle = v\<lparr>vmode := Idle, animate := should_animate Idle\<rparr>
      in if length data < 16 + 16 then Inr (log_acts [Notify ''Gene truncated''] idle, True)
         else case nonce_mine (cfg v) of
                None \<Rightarrow> Inr (log_acts [Notify ''Mate must scan your key first!''] idle, True)
              | Some nonce1 \<Rightarrow>
                  (case aead_dec cr (k0 (cfg v)) nonce1 data of
                     None \<Rightarrow> Inr (log_acts [Notify ''Authentication error!''] idle, False)
                   | Some msg \<Rightarrow> map_sum id (\<lambda>v'. (v', False)) (accept_gamete dr msg v)))"

definition scan_gene :: "crypto \<Rightarrow> draws \<Rightarrow> bytes \<Rightarrow> vault \<Rightarrow> stop + vault \<times> bool" where
  "scan_gene cr dr data v =
     (if length data < length DC34_HEADER then Inl Panic
      else if take (length DC34_HEADER) data = DC34_HEADER then respond_to_key cr dr data v
      else decrypt_gene cr dr data v)"

section \<open>Other codes\<close>

text \<open>\<open>split_once\<close> at the string that follows a scheme.\<close>

fun split_scheme :: "string \<Rightarrow> (string \<times> string) option" where
  "split_scheme [] = None"
| "split_scheme (c # cs) =
     (if take 3 (c # cs) = ''://'' then Some ([], drop 3 (c # cs))
      else map_option (\<lambda>(a, b). (c # a, b)) (split_scheme cs))"

definition test_or_factory :: "ui_env \<Rightarrow> string \<Rightarrow> string \<Rightarrow> string \<Rightarrow> vault \<Rightarrow> vault option" where
  "test_or_factory env s request data v =
     (if request = ''test'' then Some (test_string env s v)
      else if request = ''factory''
      then Some (if data = FACTORY_STANDALONE_STRING then v\<lparr>vmode := StandAloneTest\<rparr> else v)
      else None)"

definition gene_mode_text :: "ui_env \<Rightarrow> string \<Rightarrow> vault \<Rightarrow> vault" where
  "gene_mode_text env s v =
     (case split_scheme s of
        Some (request, data) \<Rightarrow>
          (case test_or_factory env s request data v of
             Some v' \<Rightarrow> v'
           | None \<Rightarrow>
               let v1 = redraw env (log_acts [Notify (''Unhandled QR code: '' @ s)] (v\<lparr>animate := False, vmode := Idle\<rparr>))
               in v1\<lparr>animate := should_animate (vmode v1)\<rparr>)
      | None \<Rightarrow>
          log_acts [Notify ''Invalid gene code''] (v\<lparr>animate := should_animate (vmode v), vmode := Idle\<rparr>))"

text \<open>The notification shows the text \<open>vault.error.qr\<close> (here in English) twice, not the code.\<close>

definition vault_error_qr :: string where "vault_error_qr = ''Error parsing QR code''"

definition other_mode_text :: "ui_env \<Rightarrow> string \<Rightarrow> vault \<Rightarrow> vault" where
  "other_mode_text env s v =
     (case split_scheme s of
        Some (request, data) \<Rightarrow>
          (case test_or_factory env s request data v of
             Some v' \<Rightarrow> v'
           | None \<Rightarrow> log_acts [Notify (vault_error_qr @ '': '' @ vault_error_qr)] v)
      | None \<Rightarrow> v)"

definition reset_rates :: "vault \<Rightarrow> vault" where
  "reset_rates v = v\<lparr>cfg := set_mutation_rate Baseline (cfg v), mutation_param := 0\<rparr>"

definition handle_qr :: "crypto \<Rightarrow> draws \<Rightarrow> ui_env \<Rightarrow> string \<Rightarrow> vault \<Rightarrow> stop + vault" where
  "handle_qr cr dr env s v0 =
     (let v = v0\<lparr>skip_one_key := False\<rparr>
      in if gene_mode (vmode v) then
           (case b45dec cr s of
              Some data \<Rightarrow>
                (case scan_gene cr dr data v of
                   Inl e \<Rightarrow> Inl e
                 | Inr (v', continue) \<Rightarrow> Inr (if continue then v' else reset_rates v'))
            | None \<Rightarrow> Inr (reset_rates (gene_mode_text env s v)))
         else Inr (reset_rates (other_mode_text env s v)))"

definition abort_qr :: "ui_env \<Rightarrow> vault \<Rightarrow> vault" where
  "abort_qr env v =
     reset_rates
       (redraw env (if attached (attach_state_of (cfg v))
                    then v\<lparr>vmode := Idle, animate := should_animate Idle\<rparr> else v))"

section \<open>A mating round\<close>

text \<open>What the protocol relies on: base45 and the AEAD invert, and the AEAD adds a tag of sixteen
  bytes.\<close>

definition crypto_ok :: "crypto \<Rightarrow> bool" where
  "crypto_ok cr \<longleftrightarrow> (\<forall>d. b45dec cr (b45enc cr d) = Some d)
     \<and> (\<forall>k n m. aead_dec cr k n (aead_enc cr k n m) = Some m)
     \<and> (\<forall>k n m. length (aead_enc cr k n m) = length m + 16)"

lemma length_DC34_HEADER [simp]: "length DC34_HEADER = 16"
  by (simp add: DC34_HEADER_def)

text \<open>The gamete a badge answers with, and the genome that the mate makes of it.\<close>

definition gamete :: "draws \<Rightarrow> config \<Rightarrow> diploid \<Rightarrow> haploid" where
  "gamete dr c g = mutate (meiosis g (meiosis_draws dr)) (final_rate c) (mutate_draws dr)"

definition wire_gamete :: "haploid \<Rightarrow> badge_type \<Rightarrow> bytes" where
  "wire_gamete h bt = h_serialize h @ replicate 6 0 @ [badge_code bt]"

definition offspring :: "draws \<Rightarrow> haploid \<Rightarrow> badge_type \<Rightarrow> config \<Rightarrow> diploid \<Rightarrow> diploid" where
  "offspring dr h incoming c g =
     (let rate = syngamy_rate incoming c
      in Diploid
           (mutate (meiosis g (meiosis_draws dr))
              (case rate of Some r \<Rightarrow> r | None \<Rightarrow> final_rate c) (mutate_draws dr))
           (case rate of None \<Rightarrow> h | Some r \<Rightarrow> mutate h r (sperm_draws dr)))"

lemma padded_gamete:
  "gene_cache c = Some g \<Longrightarrow>
   get_padded_gamete (meiosis_draws dr) (mutate_draws dr) c = Some (wire_gamete (gamete dr c g) (badge_type_of c))"
  by (simp add: get_padded_gamete_def Let_def wire_gamete_def gamete_def)

lemma wire_gamete_parts:
  "length (wire_gamete h bt) = 16" "take haploid_size (wire_gamete h bt) = h_serialize h" "wire_gamete h bt ! 15 = badge_code bt"
  by (simp_all add: wire_gamete_def haploid_size_def nth_append)

lemma syngamy_rate_max:
  "max (case syngamy_rate bt c of Some r \<Rightarrow> r | None \<Rightarrow> final_rate c) (final_rate c) =
     (case syngamy_rate bt c of Some r \<Rightarrow> r | None \<Rightarrow> final_rate c)"
  by (auto simp: syngamy_rate_def max_def split: if_splits)

lemma accept_wire_gamete:
  assumes "gene_cache (cfg v) = Some g"
  shows "accept_gamete dr (wire_gamete h bt) v =
     (let c = (cfg v)\<lparr>prior_gene := Some g, gene_cache := Some (offspring dr h bt (cfg v) g)\<rparr>
      in Inr (log_acts [DelayedKey KMenu]
           (v\<lparr>cfg := c, vsys := send_sys [SetGeneMsg (offspring dr h bt (cfg v) g)] (vsys v), vmode := ConfirmGene\<rparr>)))"
  using assms
  by (simp add: accept_gamete_def wire_gamete_parts haploid_size_def [symmetric] codec get_egg_def offspring_def
      syngamy_rate_max replace_gene_def render_gene_def Let_def) (simp add: haploid_size_def)

text \<open>Showing the key.\<close>

lemma show_key:
  assumes "vmode a = Idle" and "draw_nonce (nonce_mine (cfg a)) nonces 0 = Some n"
  shows "\<exists>a'. handle_key cr nonces env KLeft a = Some (None, a') \<and> qr_override a' = Some (b45enc cr (DC34_HEADER @ n))
     \<and> vmode a' = ShowKey 1
     \<and> same_config ((lock_rate (cfg a))\<lparr>nonce_mine := Some n\<rparr>) (cfg a') \<and> dc34 (vsys a') = dc34 (vsys a)"
proof -
  have "nonce_data nonces (lock_rate (cfg a)) = Some (DC34_HEADER @ n, (lock_rate (cfg a))\<lparr>nonce_mine := Some n\<rparr>)"
    using assms(2) by (simp add: nonce_data_def generate_my_nonce_def lock_rate_def)
  then show ?thesis using assms(1)
    by (simp add: handle_key_def filter_key_def key_idle_def Let_def redraws vmode_redraw)
      (rule redraw_config_of, simp)
qed

text \<open>Going on to scan.\<close>

lemma scan_after_key:
  assumes "vmode a = ShowKey q"
  shows "\<exists>a'. handle_key cr nonces env KFire a = Some (Some KFire, a') \<and> vmode a' = GeneScan
     \<and> same_config (cfg a) (cfg a') \<and> dc34 (vsys a') = dc34 (vsys a)"
  using assms
  by (simp add: handle_key_def filter_key_def key_showkey_def Let_def redraws vmode_redraw)
    (rule redraw_config_of, simp)

lemma respond:
  assumes "crypto_ok cr" and "gene_mode (vmode b)" and "length n = 12"
    and "draw_nonce (nonce_mine (cfg b)) (nonce_draws dr) 0 = Some nb" and "gene_cache (cfg b) = Some g"
  shows "handle_qr cr dr env (b45enc cr (DC34_HEADER @ n)) b =
     Inr (reset_rates (b\<lparr>skip_one_key := False, cfg := (cfg b)\<lparr>nonce_mine := Some nb\<rparr>,
       qr_override := Some (b45enc cr (aead_enc cr (k0 (cfg b)) n (wire_gamete (gamete dr (cfg b) g) (badge_type_of (cfg b))))),
       vmode := ResponseGene 0, animate := True\<rparr>))"
proof -
  let ?c = "(cfg b)\<lparr>nonce_mine := Some nb\<rparr>"
  have "get_padded_gamete (meiosis_draws dr) (mutate_draws dr) ?c = Some (wire_gamete (gamete dr ?c g) (badge_type_of ?c))"
    by (rule padded_gamete) (simp add: assms(5))
  moreover have "gamete dr ?c g = gamete dr (cfg b) g" by (simp add: gamete_def)
  ultimately show ?thesis using assms
    by (simp add: handle_qr_def crypto_ok_def scan_gene_def respond_to_key_def generate_my_nonce_def Let_def)
qed

lemma accept:
  assumes "crypto_ok cr" and "gene_mode (vmode a)" and "nonce_mine (cfg a) = Some n" and "k0 (cfg a) = key"
    and "take 16 (aead_enc cr key n (wire_gamete h bt)) \<noteq> DC34_HEADER" and "gene_cache (cfg a) = Some g"
  shows "handle_qr cr dr env (b45enc cr (aead_enc cr key n (wire_gamete h bt))) a =
     Inr (reset_rates (log_acts [DelayedKey KMenu]
       (a\<lparr>skip_one_key := False,
          cfg := (cfg a)\<lparr>prior_gene := Some g, gene_cache := Some (offspring dr h bt (cfg a) g)\<rparr>,
          vsys := send_sys [SetGeneMsg (offspring dr h bt (cfg a) g)] (vsys a), vmode := ConfirmGene\<rparr>)))"
proof -
  have "length (aead_enc cr key n (wire_gamete h bt)) = 32" using assms(1) by (simp add: crypto_ok_def wire_gamete_parts)
  moreover have "accept_gamete dr (wire_gamete h bt) (a\<lparr>skip_one_key := False\<rparr>) =
      Inr (log_acts [DelayedKey KMenu] (a\<lparr>skip_one_key := False,
          cfg := (cfg a)\<lparr>prior_gene := Some g, gene_cache := Some (offspring dr h bt (cfg a) g)\<rparr>,
          vsys := send_sys [SetGeneMsg (offspring dr h bt (cfg a) g)] (vsys a), vmode := ConfirmGene\<rparr>))"
    using accept_wire_gamete [of "a\<lparr>skip_one_key := False\<rparr>" g dr h bt] assms(6) by (simp add: Let_def)
  ultimately show ?thesis using assms
    by (simp add: handle_qr_def crypto_ok_def scan_gene_def decrypt_gene_def Let_def)
qed

section \<open>Properties\<close>

text \<open>C7: A mating round of two badges with the same key.  Badge \<open>a\<close> shows its key, badge \<open>b\<close> scans it and
  answers, \<open>a\<close> goes on to scan the answer: then \<open>a\<close> holds the offspring of its own genome and of
  exactly the gamete \<open>b\<close> drew, at the mutation rate locked in when the key was shown, has sent it to
  the lights and asks for confirmation with the old genome kept for undoing, while \<open>b\<close> has kept its
  own.  Nothing is stored.\<close>

theorem mating_round:
  assumes "crypto_ok cr" and "k0 (cfg a) = k0 (cfg b)"
    and "vmode a = Idle" and "gene_mode (vmode b)"
    and "gene_cache (cfg a) = Some ga" and "gene_cache (cfg b) = Some gb"
    and "draw_nonce (nonce_mine (cfg a)) nonces 0 = Some n" and "length n = 12"
    and "draw_nonce (nonce_mine (cfg b)) (nonce_draws db) 0 \<noteq> None"
    and "take 16 (aead_enc cr (k0 (cfg b)) n (wire_gamete (gamete db (cfg b) gb) (badge_type_of (cfg b)))) \<noteq> DC34_HEADER"
  shows "\<exists>a1 b1 a2 a3 code1 code2.
      handle_key cr nonces e1 KLeft a = Some (None, a1) \<and> qr_override a1 = Some code1
    \<and> handle_qr cr db e2 code1 b = Inr b1 \<and> qr_override b1 = Some code2
    \<and> handle_key cr nonces' e3 KFire a1 = Some (Some KFire, a2)
    \<and> handle_qr cr da e4 code2 a2 = Inr a3
    \<and> vmode a3 = ConfirmGene \<and> prior_gene (cfg a3) = Some ga
    \<and> gene_cache (cfg a3) = Some (offspring da (gamete db (cfg b) gb) (badge_type_of (cfg b)) (lock_rate (cfg a)) ga)
    \<and> sent (vsys a3) = sent (vsys a2) @ [SetGeneMsg (the (gene_cache (cfg a3)))]
    \<and> dc34 (vsys a3) = dc34 (vsys a)
    \<and> vmode b1 = ResponseGene 0 \<and> gene_cache (cfg b1) = Some gb \<and> vsys b1 = vsys b"
proof -
  let ?m = "wire_gamete (gamete db (cfg b) gb) (badge_type_of (cfg b))"
  let ?h = "gamete db (cfg b) gb" and ?t = "badge_type_of (cfg b)"
  obtain nb where nb: "draw_nonce (nonce_mine (cfg b)) (nonce_draws db) 0 = Some nb" using assms(9) by auto
  obtain a1 where a1: "handle_key cr nonces e1 KLeft a = Some (None, a1)"
      "qr_override a1 = Some (b45enc cr (DC34_HEADER @ n))" "vmode a1 = ShowKey 1"
      "same_config ((lock_rate (cfg a))\<lparr>nonce_mine := Some n\<rparr>) (cfg a1)" "dc34 (vsys a1) = dc34 (vsys a)"
    using show_key [OF assms(3,7)] by blast
  obtain a2 where a2: "handle_key cr nonces' e3 KFire a1 = Some (Some KFire, a2)" "vmode a2 = GeneScan"
      "same_config (cfg a1) (cfg a2)" "dc34 (vsys a2) = dc34 (vsys a1)"
    using scan_after_key [OF a1(3)] by blast
  note c1 = same_configD [OF a1(4), unfolded lock_rate_def, simplified]
  note c2 = same_configD [OF a2(3)]
  have "offspring da ?h ?t (cfg a2) ga = offspring da ?h ?t (lock_rate (cfg a)) ga"
    using c1 c2 by (simp add: offspring_def syngamy_rate_def lock_rate_def)
  moreover have "handle_qr cr da e4 (b45enc cr (aead_enc cr (k0 (cfg b)) n ?m)) a2 =
     Inr (reset_rates (log_acts [DelayedKey KMenu]
       (a2\<lparr>skip_one_key := False,
          cfg := (cfg a2)\<lparr>prior_gene := Some ga, gene_cache := Some (offspring da ?h ?t (cfg a2) ga)\<rparr>,
          vsys := send_sys [SetGeneMsg (offspring da ?h ?t (cfg a2) ga)] (vsys a2), vmode := ConfirmGene\<rparr>)))"
    by (rule accept) (use assms a2 c1 c2 in simp_all)
  ultimately show ?thesis
    using a1 a2 respond [OF assms(1,4,8) nb assms(6)] assms(6)
    by (auto simp: reset_rates_def log_acts_def set_mutation_rate_def send_sys_def)
qed

text \<open>A sample badge, and a sample of the cryptography: base45 as the identity on bytes, the AEAD as a
  tag of zeros before the message.\<close>

definition sample_crypto :: crypto where
  "sample_crypto = \<lparr>b45enc = text_of, b45dec = (\<lambda>s. Some (bytes_of s)),
     aead_enc = (\<lambda>k n m. replicate 16 0 @ m), aead_dec = (\<lambda>k n c. Some (drop 16 c))\<rparr>"

definition sample_vault :: "vault_mode \<Rightarrow> vault" where
  "sample_vault m =
     \<lparr>cfg = \<lparr>is_developer = False, attach_state_of = Matched, was_cold_boot = True, k0 = replicate 32 7,
        skip_tour = True, skip_token_tour = True, badge_type_of = Human, display_fade_cache = False,
        gene_cache = Some (Diploid disco_phenotype rainbow_phenotype), prior_gene = None,
        mutation_rate_of = Baseline, final_rate = Baseline, nonce_mine = None, previous_mode = Some Idle,
        display_always_on = False\<rparr>,
      vsys = \<lparr>dc34 = (\<lambda>_. None), anim_frame_ms = 100, sent = []\<rparr>,
      vmode = m, animate = True, upside_down = False, factory_test = FtInitWait 0,
      standalone_test = SaJogPress False, tour_st = TourWelcome False, token_tour_st = TokenTour1 False,
      token_help_st = TokenHelpTokenRecap False, help_st = HelpBadgeRecap False, about_st = AboutBunnie False,
      qr_override = None, start_time = None, user_frames = [], defcon_frames = [], phase = False, edge = False,
      last_mode = FactoryTest, bio_loaded = False, batt_polled = False, low_batt_since = None,
      last_key_time = 0, start_hold_time = 0, menu_active = False, boot_sent = True, jig_ready_seen = False,
      mutation_param = 0, k_last = None, skip_one_key = False, acts = []\<rparr>"

definition sample_env :: ui_env where
  "sample_env = \<lparr>uptime_ms = 0, clock_s = 0, clock_year = 2026, plugged = True, vbat_mv = 3000, is_uber = False,
     no_passwords = False\<rparr>"

definition sample_draws :: draws where
  "sample_draws = \<lparr>nonce_draws = (\<lambda>_. replicate 12 2), meiosis_draws = (\<lambda>_. 0), mutate_draws = (\<lambda>_. 0),
     sperm_draws = (\<lambda>_. 0)\<rparr>"

lemma sample_crypto_ok: "crypto_ok sample_crypto"
  by (simp add: crypto_ok_def sample_crypto_def codec)

lemma sample_nonce: "length n = 12 \<Longrightarrow> n ! 0 \<noteq> 0x49 \<Longrightarrow> draw_nonce None (\<lambda>_. n) i = Some n"
  by (subst draw_nonce_step) (auto simp: good_nonce_def DC34_HEADER_def)

lemma sample_tag: "replicate 16 0 \<noteq> DC34_HEADER"
  by code_simp

theorem mating_round_witness:
  "\<exists>a1 b1 a2 a3 code1 code2.
      handle_key sample_crypto (\<lambda>_. replicate 12 1) sample_env KLeft (sample_vault Idle) = Some (None, a1)
    \<and> qr_override a1 = Some code1
    \<and> handle_qr sample_crypto sample_draws sample_env code1 (sample_vault GeneScan) = Inr b1
    \<and> qr_override b1 = Some code2
    \<and> handle_key sample_crypto (\<lambda>_. replicate 12 1) sample_env KFire a1 = Some (Some KFire, a2)
    \<and> handle_qr sample_crypto sample_draws sample_env code2 a2 = Inr a3 \<and> vmode a3 = ConfirmGene"
proof -
  let ?d = "Diploid disco_phenotype rainbow_phenotype"
  have g: "gene_cache (cfg (sample_vault m)) = Some ?d" for m by (simp add: sample_vault_def)
  have n: "draw_nonce (nonce_mine (cfg (sample_vault m))) (\<lambda>_. replicate 12 1) 0 = Some (replicate 12 1)" for m
    by (simp add: sample_vault_def sample_nonce)
  have nb: "draw_nonce (nonce_mine (cfg (sample_vault m))) (nonce_draws sample_draws) 0 \<noteq> None" for m
    by (simp add: sample_vault_def sample_draws_def sample_nonce)
  have "take 16 (aead_enc sample_crypto k m w) \<noteq> DC34_HEADER" for k m w
    using sample_tag by (simp add: sample_crypto_def)
  note tag = this
  have modes: "k0 (cfg (sample_vault Idle)) = k0 (cfg (sample_vault GeneScan))" "vmode (sample_vault Idle) = Idle"
    "gene_mode (vmode (sample_vault GeneScan))" "length (replicate 12 (1::u8)) = 12"
    by (simp_all add: sample_vault_def)
  show ?thesis
    using mating_round [OF sample_crypto_ok modes(1,2,3) g g n modes(4) nb tag, of sample_env sample_env
        "\<lambda>_. replicate 12 1" sample_env sample_draws sample_env]
    by (elim exE conjE) (intro exI conjI)
qed

section \<open>Codes that stop the vault\<close>

lemma respond_panic:
  "respond_to_key cr dr data v = Inl Panic \<longleftrightarrow>
     28 \<le> length data \<and> draw_nonce (nonce_mine (cfg v)) (nonce_draws dr) 0 \<noteq> None \<and> gene_cache (cfg v) = None"
  by (auto simp: respond_to_key_def generate_my_nonce_def get_padded_gamete_def Let_def split: option.splits)

lemma accept_panic:
  assumes "16 \<le> length msg"
  shows "accept_gamete dr msg v = Inl Panic \<longleftrightarrow> gene_cache (cfg v) = None"
proof -
  have "length (take haploid_size msg) = 9" using assms by (simp add: haploid_size_def)
  then obtain h where "h_deserialize (take haploid_size msg) = Some h" using h_deserialize_Some_iff by blast
  then show ?thesis using assms
    by (simp add: accept_gamete_def haploid_size_def get_egg_def Let_def split: option.splits)
qed

lemma decrypt_panic:
  assumes "\<And>k n c m. aead_dec cr k n c = Some m \<Longrightarrow> length c = length m + 16"
  shows "decrypt_gene cr dr data v = Inl Panic \<longleftrightarrow> 32 \<le> length data \<and> gene_cache (cfg v) = None \<and>
     (\<exists>n m. nonce_mine (cfg v) = Some n \<and> aead_dec cr (k0 (cfg v)) n data = Some m)"
proof (cases "32 \<le> length data \<and> nonce_mine (cfg v) \<noteq> None")
  case True
  then obtain n where n: "nonce_mine (cfg v) = Some n" by auto
  show ?thesis
  proof (cases "aead_dec cr (k0 (cfg v)) n data")
    case (Some m)
    then have "16 \<le> length m" using assms True by fastforce
    from accept_panic [OF this, of dr v] Some n True show ?thesis
      by (cases "accept_gamete dr m v") (simp_all add: decrypt_gene_def Let_def)
  qed (use n True in \<open>simp add: decrypt_gene_def Let_def\<close>)
qed (auto simp: decrypt_gene_def Let_def)

text \<open>A scanned code panics the vault exactly when, in a gene mode, its base45 contents are shorter than
  the protocol header, or the badge has no genome and the code is a complete key or decrypts under
  the badge's nonce.\<close>

theorem scan_panics_exactly:
  assumes "\<And>k n c m. aead_dec cr k n c = Some m \<Longrightarrow> length c = length m + 16"
  shows "handle_qr cr dr env s v = Inl Panic \<longleftrightarrow> gene_mode (vmode v) \<and>
     (\<exists>data. b45dec cr s = Some data \<and>
        (length data < 16 \<or> gene_cache (cfg v) = None \<and>
           (if take 16 data = DC34_HEADER
            then 28 \<le> length data \<and> draw_nonce (nonce_mine (cfg v)) (nonce_draws dr) 0 \<noteq> None
            else 32 \<le> length data \<and>
                 (\<exists>n m. nonce_mine (cfg v) = Some n \<and> aead_dec cr (k0 (cfg v)) n data = Some m))))"
proof -
  have scan: "scan_gene cr dr data (v\<lparr>skip_one_key := False\<rparr>) = Inl Panic \<longleftrightarrow>
        (length data < 16 \<or> gene_cache (cfg v) = None \<and>
           (if take 16 data = DC34_HEADER
            then 28 \<le> length data \<and> draw_nonce (nonce_mine (cfg v)) (nonce_draws dr) 0 \<noteq> None
            else 32 \<le> length data \<and>
                 (\<exists>n m. nonce_mine (cfg v) = Some n \<and> aead_dec cr (k0 (cfg v)) n data = Some m)))" for data
    using decrypt_panic [of cr dr data "v\<lparr>skip_one_key := False\<rparr>"] assms
    by (auto simp: scan_gene_def respond_panic)
  show ?thesis
    by (cases "b45dec cr s") (simp_all add: handle_qr_def Let_def scan [symmetric] split: sum.splits prod.splits)
qed

theorem scan_panics_exactly_witness:
  "handle_qr (sample_crypto\<lparr>aead_dec := \<lambda>k n c. if length c < 16 then None else Some (drop 16 c)\<rparr>)
     sample_draws sample_env ''0'' (sample_vault GeneScan) = Inl Panic"
proof -
  let ?cr = "sample_crypto\<lparr>aead_dec := \<lambda>k n c. if length c < 16 then None else Some (drop 16 c)\<rparr>"
  have "length c = length m + 16" if "aead_dec ?cr k n c = Some m" for k n c m
    using that by (auto split: if_splits)
  from scan_panics_exactly [of ?cr, OF this] show ?thesis
    by (simp add: sample_vault_def sample_crypto_def bytes_of_def)
qed

end
