(* ===== verification/Vault_Main.thy ===== *)
theory Vault_Main
  imports Gene_Exchange
begin

text \<open>
  The message loop of the vault (\<open>src/main.rs\<close>): one step per message, over the user interface of
  \<open>Vault_Ui\<close>, the gene exchange and the shared configuration.  Dialogues and requests to the actions
  thread are recorded in \<open>acts\<close>; while they block, no other message is handled, so an effect on
  \<open>animate\<close> that lasts only that long is not seen.  A step that panics or never returns gives a
  \<open>stop\<close>.
\<close>

section \<open>Messages\<close>

datatype vault_op =
    OpRedraw | OpReloadDbAndFullRedraw | OpMenuDone | OpSkipKey | OpKeyPress u32 | OpMenuEditStage1
  | OpMenuChangeFont | OpMenuDeleteStage1 | OpMenuUsernames | OpMenuFilter | OpBasisChange | OpAbortQr
  | OpHandleQr string | OpTourContinue | OpTourLater | OpTourNever | OpKeepGene | OpRevertGene | OpTokenMode
  | OpDefconHelp | OpMenuTokenHelp | OpBadgeMode | OpAbout | OpPowerOff | OpScreenOff | OpImageLoad u32
  | OpImageDefconLoad u32 | OpBioActive u32 | OpToggleAlwaysOn | OpSetAnimFps u32 | OpJig | OpUnknown

text \<open>\<open>char::from_u32(k1).unwrap_or\<close> and the characters the vault tells apart.\<close>

definition key_of_u32 :: "u32 \<Rightarrow> key" where
  "key_of_u32 w =
     (if w = 0x2191 then KUp else if w = 0x2193 then KDown else if w = 0x2190 then KLeft
      else if w = 0x2192 then KRight else if w = 0x2234 then KMenu else if w = 0x1F525 then KFire
      else if w = 0x1F53C then KFaceUp else if w = 0x1F53D then KFaceDown else if w = 0x23F0 then KClock
      else if w = 0x7E then KTilde
      else if w < 0xD800 \<or> 0xDFFF < w \<and> w < 0x110000 then KOther w else KOther 0)"

section \<open>Mutation parameter\<close>

definition sat_add8 :: "u8 \<Rightarrow> u8 \<Rightarrow> u8" where
  "sat_add8 a b = (if unat a + unat b > 255 then 255 else a + b)"

definition sat_sub8 :: "u8 \<Rightarrow> u8 \<Rightarrow> u8" where
  "sat_sub8 a b = (if a < b then 0 else a - b)"

definition decay :: "u8 \<Rightarrow> u8" where
  "decay p = (if p > 160 then sat_sub8 p 2 else sat_sub8 p 1)"

definition excite :: "key option \<Rightarrow> key \<Rightarrow> u8 \<Rightarrow> u8" where
  "excite prev k p =
     (let p1 = (if k = KFaceUp \<or> k = KFaceDown then sat_add8 p 8 else p)
      in if prev = Some KDown \<and> k = KUp \<or> prev = Some KUp \<and> k = KDown then sat_add8 p1 2 else p1)"

definition set_param :: "u8 \<Rightarrow> vault \<Rightarrow> vault" where
  "set_param p v = v\<lparr>mutation_param := p, cfg := set_mutation_rate (rate_from_param p) (cfg v)\<rparr>"

section \<open>Handlers\<close>

definition on_sys :: "(sys \<Rightarrow> sys) \<Rightarrow> vault \<Rightarrow> vault" where
  "on_sys f v = v\<lparr>vsys := f (vsys v)\<rparr>"

definition to_mode :: "vault_mode \<Rightarrow> vault \<Rightarrow> vault" where
  "to_mode m v = v\<lparr>vmode := m\<rparr>"

definition resume_animation :: "vault \<Rightarrow> vault" where
  "resume_animation v = v\<lparr>animate := should_animate (vmode v)\<rparr>"

definition menu_for :: "vault_mode \<Rightarrow> menu" where
  "menu_for m =
     (if m = Tour then TourMenu else if m = ConfirmGene then GeneMenu
      else if m = Idle \<or> m = IdleDevMode then IdleMenu else MainMenu)"

definition power_update :: "ui_env \<Rightarrow> vault \<Rightarrow> vault" where
  "power_update env v =
     (case update_power_state (is_uber env) (vmode v) (cfg v, vsys v) of (c, s) \<Rightarrow> v\<lparr>cfg := c, vsys := s\<rparr>)"

definition redraw_msg :: "ui_env \<Rightarrow> vault \<Rightarrow> vault" where
  "redraw_msg env v =
     (let v1 = (if boot_sent v then v else on_sys power_manager_boot_finished (v\<lparr>boot_sent := True\<rparr>));
          v2 = set_param (decay (mutation_param v1)) v1
      in if menu_active v2 then v2 else redraw env v2)"

text \<open>The fire key: the camera runs in the actions thread while this loop waits.\<close>

definition scan_request :: "ui_env \<Rightarrow> vault_mode \<Rightarrow> vault \<Rightarrow> vault" where
  "scan_request env m0 v =
     (let v1 = redraw env (log_acts [Camera] (on_sys (pause_accel_request True) v));
          v2 = on_sys (pause_accel_request False) (log_acts [AcquireQr] (v1\<lparr>skip_one_key := True\<rparr>));
          v3 = (if m0 = Totp \<or> m0 = Password then log_acts [ReloadDb, RefreshList] v2 else v2)
      in redraw env v3)"

definition after_key :: "ui_env \<Rightarrow> vault_mode \<Rightarrow> key option \<Rightarrow> vault \<Rightarrow> vault" where
  "after_key env m0 fk v =
     (if fk = Some KMenu then log_acts [RaiseMenu (menu_for m0)] (v\<lparr>animate := False, menu_active := True\<rparr>)
      else if fk = Some KFire then scan_request env m0 v
      else v)"

text \<open>What every key does before it is handed on: it excites the mutation parameter, and the first
  tilde releases the factory test.\<close>

definition track_key :: "ui_env \<Rightarrow> key \<Rightarrow> vault \<Rightarrow> vault" where
  "track_key env k v =
     (let v1 = set_param (excite (k_last v) k (mutation_param v)) v;
          v2 = (if k = KUp \<or> k = KDown then v1\<lparr>k_last := Some k\<rparr> else v1)
      in if \<not> jig_ready_seen v2 \<and> k = KTilde then (jig_ready env v2)\<lparr>jig_ready_seen := True\<rparr> else v2)"

definition key_press :: "crypto \<Rightarrow> (nat \<Rightarrow> bytes) \<Rightarrow> ui_env \<Rightarrow> key \<Rightarrow> vault \<Rightarrow> stop + vault" where
  "key_press cr nonces env k v =
     (if skip_one_key v then Inr (redraw env (v\<lparr>skip_one_key := False\<rparr>))
      else
        let m0 = vmode v; v1 = track_key env k v
        in if menu_active v1 then Inr (log_acts [MenuKey (menu_for m0) k] v1)
           else case handle_key cr nonces env k v1 of
                  None \<Rightarrow> Inl Hang
                | Some (fk, v2) \<Rightarrow> Inr (after_key env m0 fk v2))"

definition menu_done :: "ui_env \<Rightarrow> vault \<Rightarrow> vault" where
  "menu_done env v = redraw env (resume_animation (log_acts [RefreshList] (v\<lparr>menu_active := False\<rparr>)))"

definition token_mode :: "vault \<Rightarrow> vault" where
  "token_mode v = log_acts [ReloadDb, RefreshList] (to_mode Password v)"

definition tour_later :: "ui_env \<Rightarrow> vault \<Rightarrow> vault" where
  "tour_later env v = redraw env (if attached (attach_state_of (cfg v)) then to_mode Idle v else token_mode v)"

definition tour_never :: "ui_env \<Rightarrow> vault \<Rightarrow> vault" where
  "tour_never env v =
     (case set_skip_tour True (cfg v, vsys v) of (m, s) \<Rightarrow>
        let v1 = v\<lparr>vmode := m, vsys := s\<rparr>
        in redraw env (if m = Password then log_acts [ReloadDb, RefreshList] v1 else v1))"

definition keep_gene :: "vault \<Rightarrow> vault" where
  "keep_gene v =
     to_mode Idle (case gene_cache (cfg v) of None \<Rightarrow> v
                   | Some g \<Rightarrow> on_sys (\<lambda>s. s\<lparr>dc34 := save_light_gene g (dc34 s)\<rparr>) v)"

definition revert_gene_msg :: "vault \<Rightarrow> vault" where
  "revert_gene_msg v =
     (let c = revert_gene (cfg v) in v\<lparr>cfg := c, vsys := render_gene c (vsys v), vmode := Idle\<rparr>)"

definition power_off :: "ui_env \<Rightarrow> vault \<Rightarrow> vault" where
  "power_off env v = redraw env (log_acts [Notify ''Power down''] (to_mode Idle (on_sys power_off_request v)))"

text \<open>Loading a slot opens its key with both creation flags.\<close>

definition load_slot :: "image_slot \<Rightarrow> vault \<Rightarrow> u32 list list \<times> vault" where
  "load_slot slot v =
     (case dc34 (vsys v) (slot_key slot) of
        None \<Rightarrow> (load_image_frames [], on_sys (\<lambda>s. s\<lparr>dc34 := (dc34 s)(slot_key slot \<mapsto> [])\<rparr>) v)
      | Some b \<Rightarrow> (load_image_frames b, v))"

definition image_load :: "u32 \<Rightarrow> vault \<Rightarrow> vault" where
  "image_load load v =
     (if load = 0 then v\<lparr>user_frames := []\<rparr>
      else case load_slot UserImage v of (fs, v') \<Rightarrow> v'\<lparr>user_frames := fs\<rparr>)"

definition image_defcon_load :: "u32 \<Rightarrow> vault \<Rightarrow> vault" where
  "image_defcon_load load v =
     (if load = 0 then v\<lparr>defcon_frames := []\<rparr>
      else case load_slot DefconImage v of (fs, v') \<Rightarrow> v'\<lparr>defcon_frames := fs\<rparr>)"

definition bio_active :: "u32 \<Rightarrow> vault \<Rightarrow> vault" where
  "bio_active active v =
     (let v1 = v\<lparr>bio_loaded := (active \<noteq> 0)\<rparr>
      in if bio_loaded v1 then v1 else on_sys (render_gene (cfg v1)) v1)"

definition toggle_msg :: "ui_env \<Rightarrow> vault \<Rightarrow> vault" where
  "toggle_msg env v =
     (case toggle_always_on (cfg v, vsys v) of (on, c, s) \<Rightarrow>
        redraw env (log_acts [Notify (if on then ''Always-on screen: ON''
                                      else ''Always-on screen: OFF (timeout re-enabled)'')]
                      (power_update env (v\<lparr>cfg := c, vsys := s\<rparr>))))"

section \<open>The loop\<close>

definition vault_handle :: "crypto \<Rightarrow> draws \<Rightarrow> ui_env \<Rightarrow> vault_op \<Rightarrow> vault \<Rightarrow> stop + vault" where
  "vault_handle cr dr env m v =
     (case m of
        OpRedraw \<Rightarrow> Inr (redraw_msg env v)
      | OpReloadDbAndFullRedraw \<Rightarrow> Inr (redraw env (log_acts [ReloadDb, RefreshList] v))
      | OpMenuDone \<Rightarrow> Inr (menu_done env v)
      | OpSkipKey \<Rightarrow> Inr (v\<lparr>skip_one_key := True\<rparr>)
      | OpKeyPress w \<Rightarrow> key_press cr (nonce_draws dr) env (key_of_u32 w) v
      | OpMenuEditStage1 \<Rightarrow> Inr (resume_animation (log_acts [EditSelected] v))
      | OpMenuChangeFont \<Rightarrow> Inr (resume_animation (log_acts [ChangeFont] v))
      | OpMenuDeleteStage1 \<Rightarrow>
          Inr (redraw env (resume_animation (log_acts [DeleteSelected, ReloadDb, RefreshList] v)))
      | OpMenuUsernames \<Rightarrow>
          Inr (redraw env (resume_animation (log_acts [EditUsernames, ReloadDb, RefreshList] v)))
      | OpMenuFilter \<Rightarrow> Inr (redraw env (log_acts [EditFilter, RefreshList] v))
      | OpBasisChange \<Rightarrow> Inl Hang
      | OpAbortQr \<Rightarrow> Inr (abort_qr env v)
      | OpHandleQr s \<Rightarrow> handle_qr cr dr env s v
      | OpTourContinue \<Rightarrow> Inr v
      | OpTourLater \<Rightarrow> Inr (tour_later env v)
      | OpTourNever \<Rightarrow> Inr (tour_never env v)
      | OpKeepGene \<Rightarrow> Inr (keep_gene v)
      | OpRevertGene \<Rightarrow> Inr (revert_gene_msg v)
      | OpTokenMode \<Rightarrow> Inr (redraw env (token_mode v))
      | OpDefconHelp \<Rightarrow> Inr (redraw env (reset_help_state (to_mode DefconHelp v)))
      | OpMenuTokenHelp \<Rightarrow> Inr (redraw env (reset_token_help_state (to_mode TokenHelp v)))
      | OpBadgeMode \<Rightarrow> Inr (redraw env (to_mode Idle v))
      | OpAbout \<Rightarrow> Inr (redraw env (reset_about_state (to_mode About v)))
      | OpPowerOff \<Rightarrow> Inr (power_off env v)
      | OpScreenOff \<Rightarrow> Inr (on_sys screen_off_request v)
      | OpImageLoad load \<Rightarrow> Inr (image_load load v)
      | OpImageDefconLoad load \<Rightarrow> Inr (image_defcon_load load v)
      | OpBioActive active \<Rightarrow> Inr (bio_active active v)
      | OpToggleAlwaysOn \<Rightarrow> Inr (toggle_msg env v)
      | OpSetAnimFps fps \<Rightarrow> Inr (on_sys (\<lambda>s. snd (set_anim_fps (ucast fps) s)) v)
      | OpJig \<Rightarrow> Inr (redraw env (reset_factory_test env (to_mode FactoryTest v)))
      | OpUnknown \<Rightarrow> Inr v)"

text \<open>One turn of the loop: the power configuration of the current mode, then the message.\<close>

definition vault_step :: "crypto \<Rightarrow> draws \<Rightarrow> ui_env \<Rightarrow> vault_op \<Rightarrow> vault \<Rightarrow> stop + vault" where
  "vault_step cr dr env m v = vault_handle cr dr env m (power_update env v)"

text \<open>A run takes the message, the draws and the readings of every turn.\<close>

fun vault_run :: "crypto \<Rightarrow> (vault_op \<times> draws \<times> ui_env) list \<Rightarrow> vault \<Rightarrow> stop + vault" where
  "vault_run cr [] v = Inr v"
| "vault_run cr ((m, dr, env) # ms) v =
     (case vault_step cr dr env m v of Inl e \<Rightarrow> Inl e | Inr v' \<Rightarrow> vault_run cr ms v')"

section \<open>Lemmas: what each message leaves alone\<close>

lemma power_update_config:
  "\<exists>s. power_update env v = v\<lparr>cfg := (cfg v)\<lparr>previous_mode := Some (vmode v)\<rparr>, vsys := s\<rparr> \<and> dc34 s = dc34 (vsys v)"
proof -
  obtain c s where u: "update_power_state (is_uber env) (vmode v) (cfg v, vsys v) = (c, s)" by fastforce
  then have "c = (cfg v)\<lparr>previous_mode := Some (vmode v)\<rparr>" "dc34 s = dc34 (vsys v)"
    by (auto simp: update_power_state_def power_manager_config_def send_sys_def case_prod_beta split: if_splits)
  then show ?thesis using u by (auto simp: power_update_def intro!: exI [of _ s])
qed

lemma power_update_rest [redraws]:
  "vmode (power_update env v) = vmode v" "mutation_param (power_update env v) = mutation_param v"
  "menu_active (power_update env v) = menu_active v" "skip_one_key (power_update env v) = skip_one_key v"
  "k_last (power_update env v) = k_last v" "factory_test (power_update env v) = factory_test v"
  "start_time (power_update env v) = start_time v" "boot_sent (power_update env v) = boot_sent v"
  "gene_cache (cfg (power_update env v)) = gene_cache (cfg v)" "prior_gene (cfg (power_update env v)) = prior_gene (cfg v)"
  "nonce_mine (cfg (power_update env v)) = nonce_mine (cfg v)" "k0 (cfg (power_update env v)) = k0 (cfg v)"
  "final_rate (cfg (power_update env v)) = final_rate (cfg v)"
  "mutation_rate_of (cfg (power_update env v)) = mutation_rate_of (cfg v)"
  "badge_type_of (cfg (power_update env v)) = badge_type_of (cfg v)"
  "is_developer (cfg (power_update env v)) = is_developer (cfg v)"
  "dc34 (vsys (power_update env v)) = dc34 (vsys v)"
  using power_update_config [of env v] by auto

lemma plain_simps [redraws]:
  "cfg (log_acts as v) = cfg v" "vsys (log_acts as v) = vsys v" "vmode (log_acts as v) = vmode v"
  "cfg (resume_animation v) = cfg v" "vsys (resume_animation v) = vsys v" "vmode (resume_animation v) = vmode v"
  "cfg (to_mode m v) = cfg v" "vsys (to_mode m v) = vsys v" "vmode (to_mode m v) = m"
  "cfg (on_sys f v) = cfg v" "vsys (on_sys f v) = f (vsys v)" "vmode (on_sys f v) = vmode v"
  "mutation_param (log_acts as v) = mutation_param v" "mutation_param (resume_animation v) = mutation_param v"
  "mutation_param (to_mode m v) = mutation_param v" "mutation_param (on_sys f v) = mutation_param v"
  by (simp_all add: log_acts_def resume_animation_def to_mode_def on_sys_def)

lemma send_dc34 [redraws]:
  "dc34 (pause_accel_request b s) = dc34 s" "dc34 (power_manager_boot_finished s) = dc34 s"
  "dc34 (power_off_request s) = dc34 s" "dc34 (screen_off_request s) = dc34 s" "dc34 (render_gene c s) = dc34 s"
  by (simp_all add: pause_accel_request_def power_manager_boot_finished_def power_off_request_def
      screen_off_request_def render_gene_def send_sys_def split: option.splits)

lemma power_update_keeps_genome: "keeps_genome v (power_update env v)"
  by (simp add: keeps_genome_def redraws)

lemma redraw_msg_keeps_genome: "keeps_genome v (redraw_msg env v)"
  by (simp add: redraw_msg_def Let_def keeps_genome_def set_param_def set_mutation_rate_def redraws)

lemma after_key_keeps_genome: "keeps_genome v (after_key env m0 fk v)"
  by (simp add: after_key_def scan_request_def Let_def keeps_genome_def redraws)

lemma test_inputs_keep_genome:
  "keeps_genome v (jig_ready env v)" "keeps_genome v (test_string env s v)"
  by (simp_all add: jig_ready_def test_string_def keeps_genome_def redraws)

lemma track_key_keeps_genome: "keeps_genome v (track_key env k v)"
  by (simp add: track_key_def Let_def keeps_genome_def set_param_def set_mutation_rate_def jig_ready_def redraws)

lemma key_press_keeps_genome:
  assumes "key_press cr nonces env k v = Inr v'"
  shows "keeps_genome v v'"
proof (cases "skip_one_key v")
  case True
  then show ?thesis using assms by (auto simp: key_press_def keeps_genome_def redraws)
next
  case False
  then have "v' = log_acts [MenuKey (menu_for (vmode v)) k] (track_key env k v) \<or>
      (\<exists>fk v2. handle_key cr nonces env k (track_key env k v) = Some (fk, v2) \<and> v' = after_key env (vmode v) fk v2)"
    using assms by (auto simp: key_press_def Let_def split: if_splits option.splits)
  then show ?thesis
  proof
    assume "v' = log_acts [MenuKey (menu_for (vmode v)) k] (track_key env k v)"
    then show ?thesis using track_key_keeps_genome [of v env k] by (simp add: keeps_genome_def redraws)
  next
    assume "\<exists>fk v2. handle_key cr nonces env k (track_key env k v) = Some (fk, v2) \<and> v' = after_key env (vmode v) fk v2"
    with handle_key_keeps_genome after_key_keeps_genome track_key_keeps_genome show ?thesis
      by (metis keeps_genome_trans)
  qed
qed

lemma slot_key_neq [simp]: "slot_key s \<noteq> DC34_GENE"
  by (cases s) simp_all

text \<open>Only a scan, keeping and reverting touch a genome.\<close>

fun gene_op :: "vault_op \<Rightarrow> bool" where
  "gene_op (OpHandleQr _) = True"
| "gene_op OpKeepGene = True"
| "gene_op OpRevertGene = True"
| "gene_op _ = False"

lemma vault_handle_keeps_genome:
  assumes "vault_handle cr dr env m v = Inr v'" and "\<not> gene_op m"
  shows "keeps_genome v v'"
proof (cases m)
  case OpRedraw
  then show ?thesis using assms redraw_msg_keeps_genome by (auto simp: vault_handle_def)
next
  case (OpKeyPress w)
  then show ?thesis using assms key_press_keeps_genome by (auto simp: vault_handle_def)
qed (use assms in \<open>auto simp: vault_handle_def keeps_genome_def redraws menu_done_def abort_qr_def reset_rates_def
      set_mutation_rate_def tour_later_def token_mode_def tour_never_def set_skip_tour_def put_other_key
      reset_help_state_def reset_token_help_state_def reset_about_state_def reset_factory_test_def power_off_def
      image_load_def image_defcon_load_def load_slot_def bio_active_def toggle_msg_def toggle_always_on_def
      set_anim_fps_def put_key_def Let_def split: option.splits if_splits\<close>)

lemma vault_step_keeps_genome:
  "vault_step cr dr env m v = Inr v' \<Longrightarrow> \<not> gene_op m \<Longrightarrow> keeps_genome v v'"
  using vault_handle_keeps_genome [of cr dr env m "power_update env v" v'] power_update_keeps_genome [of v env]
  by (auto simp: vault_step_def intro: keeps_genome_trans)

section \<open>Lemmas: scans\<close>

lemma test_or_factory_keeps_genome: "test_or_factory env s r d v = Some v' \<Longrightarrow> keeps_genome v v'"
  using test_inputs_keep_genome(2) [of v env s]
  by (auto simp: test_or_factory_def keeps_genome_def split: if_splits)

lemma texts_keep_genome: "keeps_genome v (gene_mode_text env s v)" "keeps_genome v (other_mode_text env s v)"
  using test_or_factory_keeps_genome [of env s _ _ v]
  by (auto simp: gene_mode_text_def other_mode_text_def keeps_genome_def redraws Let_def split: option.splits)

lemma reset_rates_rest [redraws]:
  "gene_cache (cfg (reset_rates v)) = gene_cache (cfg v)" "prior_gene (cfg (reset_rates v)) = prior_gene (cfg v)"
  "nonce_mine (cfg (reset_rates v)) = nonce_mine (cfg v)" "k0 (cfg (reset_rates v)) = k0 (cfg v)"
  "vsys (reset_rates v) = vsys v" "vmode (reset_rates v) = vmode v"
  by (simp_all add: reset_rates_def set_mutation_rate_def)

text \<open>A scan that does not stop the vault either keeps all genomes, or it makes one of the decrypted
  gamete and asks for confirmation.\<close>

definition bred :: "crypto \<Rightarrow> draws \<Rightarrow> bytes \<Rightarrow> vault \<Rightarrow> vault \<Rightarrow> bool" where
  "bred cr dr data v v' \<longleftrightarrow> (\<exists>n msg sperm egg g.
     nonce_mine (cfg v) = Some n \<and> aead_dec cr (k0 (cfg v)) n data = Some msg
     \<and> h_deserialize (take haploid_size msg) = Some sperm
     \<and> gene_cache (cfg v) = Some g \<and> prior_gene (cfg v') = Some g
     \<and> get_egg (meiosis_draws dr) (mutate_draws dr) (syngamy_rate (badge_or_none (msg ! 15)) (cfg v)) (cfg v) = Some egg
     \<and> gene_cache (cfg v') = Some (Diploid egg (case syngamy_rate (badge_or_none (msg ! 15)) (cfg v) of
          None \<Rightarrow> sperm | Some r \<Rightarrow> mutate sperm r (sperm_draws dr)))
     \<and> vmode v' = ConfirmGene \<and> nonce_mine (cfg v') = nonce_mine (cfg v) \<and> k0 (cfg v') = k0 (cfg v)
     \<and> dc34 (vsys v') = dc34 (vsys v))"

lemma accept_gamete_cases:
  assumes "accept_gamete dr msg v = Inr v'" and "nonce_mine (cfg v) = Some n"
    and "aead_dec cr (k0 (cfg v)) n data = Some msg"
  shows "bred cr dr data v v' \<or> keeps_genome v v' \<and> vmode v' = Idle"
proof (cases "h_deserialize (take haploid_size msg)")
  case None
  then show ?thesis using assms(1)
    by (auto simp: accept_gamete_def keeps_genome_def redraws split: if_splits)
next
  case (Some sperm)
  with assms(1) obtain egg where
    "get_egg (meiosis_draws dr) (mutate_draws dr) (syngamy_rate (badge_or_none (msg ! 15)) (cfg v)) (cfg v) = Some egg"
    by (auto simp: accept_gamete_def Let_def split: if_splits option.splits)
  moreover from this obtain g where "gene_cache (cfg v) = Some g" by (auto simp: get_egg_def split: option.splits)
  ultimately have "bred cr dr data v v'" using assms Some
    unfolding bred_def
    by (intro exI conjI) (auto simp: accept_gamete_def Let_def replace_gene_def redraws split: if_splits)
  then show ?thesis ..
qed

lemma decrypt_gene_cases:
  assumes "decrypt_gene cr dr data v = Inr (v', b)"
  shows "bred cr dr data v v' \<or> keeps_genome v v' \<and> vmode v' = Idle"
proof (cases "32 \<le> length data \<and> nonce_mine (cfg v) \<noteq> None")
  case False
  then show ?thesis using assms by (auto simp: decrypt_gene_def Let_def keeps_genome_def redraws split: if_splits)
next
  case True
  then obtain n where n: "nonce_mine (cfg v) = Some n" by auto
  show ?thesis
  proof (cases "aead_dec cr (k0 (cfg v)) n data")
    case None
    then show ?thesis using assms n True by (auto simp: decrypt_gene_def Let_def keeps_genome_def redraws)
  next
    case (Some msg)
    then have "accept_gamete dr msg v = Inr v'" using assms n True
      by (cases "accept_gamete dr msg v") (auto simp: decrypt_gene_def Let_def)
    from accept_gamete_cases [OF this n Some] show ?thesis .
  qed
qed

lemma respond_cases:
  "respond_to_key cr dr data v = Inr (v', b) \<Longrightarrow> keeps_genome v v' \<and> vmode v' \<noteq> ConfirmGene"
  by (auto simp: respond_to_key_def keeps_genome_def generate_my_nonce_def Let_def split: option.splits if_splits)

lemma gene_mode_text_unconfirmed: "gene_mode (vmode v) \<Longrightarrow> vmode (gene_mode_text env s v) \<noteq> ConfirmGene"
  by (auto simp: gene_mode_text_def test_or_factory_def test_string_def vmode_redraw redraws gene_mode_def Let_def
      split: option.splits if_splits)

lemma bred_reset: "bred cr dr data (v\<lparr>skip_one_key := x\<rparr>) v' \<Longrightarrow> bred cr dr data v (reset_rates v')"
  by (simp add: bred_def redraws)

lemma handle_qr_cases:
  assumes "handle_qr cr dr env s v = Inr v'"
  shows "gene_mode (vmode v) \<and> (\<exists>data. b45dec cr s = Some data \<and> bred cr dr data v v') \<or> keeps_genome v v' \<and> (gene_mode (vmode v) \<longrightarrow> vmode v' \<noteq> ConfirmGene)"
proof (cases "gene_mode (vmode v)")
  case False
  then show ?thesis using assms texts_keep_genome(2) [of "v\<lparr>skip_one_key := False\<rparr>" env s]
    by (auto simp: handle_qr_def keeps_genome_def redraws)
next
  case gm: True
  let ?v = "v\<lparr>skip_one_key := False\<rparr>"
  show ?thesis
  proof (cases "b45dec cr s")
    case None
    then show ?thesis using assms gm texts_keep_genome(1) [of ?v env s] gene_mode_text_unconfirmed [of ?v env s]
      by (auto simp: handle_qr_def keeps_genome_def redraws)
  next
    case (Some data)
    then obtain v1 b where s: "scan_gene cr dr data ?v = Inr (v1, b)" and v': "v' = (if b then v1 else reset_rates v1)"
      using assms gm by (auto simp: handle_qr_def split: sum.splits)
    have flag: "b \<Longrightarrow> keeps_genome ?v v1 \<and> vmode v1 \<noteq> ConfirmGene"
    proof -
      assume b
      with s show "keeps_genome ?v v1 \<and> vmode v1 \<noteq> ConfirmGene"
        using respond_cases [of cr dr data ?v v1 b]
        by (cases "accept_gamete dr (the (aead_dec cr (k0 (cfg v)) (the (nonce_mine (cfg v))) data)) ?v")
          (auto simp: scan_gene_def decrypt_gene_def Let_def keeps_genome_def redraws split: if_splits option.splits)
    qed
    have "bred cr dr data ?v v1 \<or> keeps_genome ?v v1 \<and> vmode v1 \<noteq> ConfirmGene"
      using s respond_cases [of cr dr data ?v v1 b] decrypt_gene_cases [of cr dr data ?v v1 b]
      by (auto simp: scan_gene_def split: if_splits)
    then show ?thesis
    proof
      assume br: "bred cr dr data ?v v1"
      show ?thesis
      proof (cases b)
        case True
        with flag br show ?thesis by (simp add: bred_def)
      next
        case False
        with br v' gm Some show ?thesis by (auto simp: bred_reset)
      qed
    qed (use v' in \<open>auto simp: keeps_genome_def redraws\<close>)
  qed
qed

section \<open>Properties\<close>

definition stored_genome :: "vault \<Rightarrow> bytes option" where
  "stored_genome v = dc34 (vsys v) DC34_GENE"

lemma keeps_stored: "keeps_genome v v' \<Longrightarrow> stored_genome v' = stored_genome v"
  by (simp add: keeps_genome_def stored_genome_def)

lemma stored_power_update [simp]: "stored_genome (power_update env v) = stored_genome v"
  by (simp add: stored_genome_def redraws)

lemma step_keeps_stored:
  assumes "vault_step cr dr env m v = Inr v'" and "m \<noteq> OpKeepGene"
  shows "stored_genome v' = stored_genome v"
proof (cases "gene_op m")
  case False
  then show ?thesis using vault_step_keeps_genome [OF assms(1)] keeps_stored by blast
next
  case True
  then consider s where "m = OpHandleQr s" | "m = OpRevertGene" using assms(2) by (cases m) auto
  then show ?thesis
  proof cases
    case (1 s)
    then have "handle_qr cr dr env s (power_update env v) = Inr v'"
      using assms(1) by (simp add: vault_step_def vault_handle_def)
    from handle_qr_cases [OF this] show ?thesis
      by (auto simp: bred_def stored_genome_def keeps_genome_def redraws)
  next
    case 2
    then show ?thesis using assms(1)
      by (auto simp: vault_step_def vault_handle_def revert_gene_msg_def stored_genome_def redraws Let_def)
  qed
qed

text \<open>C8: Only the answer "keep" to the confirmation stores a genome: whatever else happens, scans of
  hostile codes included, the stored genome stays.\<close>

theorem stored_genome_changes_only_by_keep:
  assumes "vault_run cr ms v = Inr v'" and "OpKeepGene \<notin> fst ` set ms"
  shows "stored_genome v' = stored_genome v"
  using assms
proof (induction ms arbitrary: v)
  case (Cons x ms)
  obtain m dr env where x: "x = (m, dr, env)" by (cases x)
  then obtain v1 where "vault_step cr dr env m v = Inr v1" "vault_run cr ms v1 = Inr v'"
    using Cons.prems(1) by (auto split: sum.splits)
  moreover have "m \<noteq> OpKeepGene" "OpKeepGene \<notin> fst ` set ms" using Cons.prems(2) x by auto
  ultimately show ?case using Cons.IH step_keeps_stored by metis
qed simp

theorem stored_genome_changes_only_by_keep_witness:
  "\<exists>v'. vault_run sample_crypto [(OpHandleQr ''test://x'', sample_draws, sample_env), (OpRevertGene, sample_draws, sample_env)]
        (sample_vault FactoryTest) = Inr v' \<and> stored_genome v' = None"
proof -
  let ?ms = "[(OpHandleQr ''test://x'', sample_draws, sample_env), (OpRevertGene, sample_draws, sample_env)]"
  have "\<exists>v'. vault_run sample_crypto ?ms (sample_vault FactoryTest) = Inr v'"
    by (simp add: vault_step_def vault_handle_def handle_qr_def redraws Let_def) (simp add: sample_vault_def)
  then show ?thesis using stored_genome_changes_only_by_keep [of sample_crypto ?ms "sample_vault FactoryTest"]
    by (fastforce simp: stored_genome_def sample_vault_def)
qed

lemma run_keeps_genome:
  "vault_run cr ms v = Inr v' \<Longrightarrow> \<forall>m \<in> fst ` set ms. \<not> gene_op m \<Longrightarrow> keeps_genome v v'"
proof (induction ms arbitrary: v)
  case (Cons x ms)
  obtain m dr env where x: "x = (m, dr, env)" by (cases x)
  then obtain v1 where "vault_step cr dr env m v = Inr v1" "vault_run cr ms v1 = Inr v'"
    using Cons.prems(1) by (auto split: sum.splits)
  then show ?case using Cons.IH Cons.prems(2) x vault_step_keeps_genome keeps_genome_trans by fastforce
qed simp

text \<open>C19: After a successful mating the choice stays open however long the menus, keys and redraws take:
  reverting brings back the genome from before the scan, on the lights too, and leaves storage as it
  was; keeping stores exactly the offspring, as the next boot will read it.\<close>

theorem offspring_kept_or_undone:
  assumes "handle_qr cr dr env s v = Inr v1" and "gene_mode (vmode v)" and "vmode v1 = ConfirmGene"
    and "vault_run cr ms v1 = Inr v2" and "\<forall>m \<in> fst ` set ms. \<not> gene_op m"
  shows "\<exists>old child undone kept. gene_cache (cfg v) = Some old \<and> gene_cache (cfg v1) = Some child
    \<and> vault_step cr d e OpRevertGene v2 = Inr undone \<and> gene_cache (cfg undone) = Some old
    \<and> last (sent (vsys undone)) = SetGeneMsg old \<and> stored_genome undone = stored_genome v
    \<and> vault_step cr d e OpKeepGene v2 = Inr kept \<and> gene_cache (cfg kept) = Some child
    \<and> fst (get_light_gene (dc34 (vsys kept))) = Some child"
proof -
  obtain data where b: "bred cr dr data v v1" using handle_qr_cases [OF assms(1)] assms(2,3) by blast
  then obtain old child where g: "gene_cache (cfg v) = Some old" "prior_gene (cfg v1) = Some old"
      "gene_cache (cfg v1) = Some child" "dc34 (vsys v1) = dc34 (vsys v)"
    by (auto simp: bred_def)
  have k: "keeps_genome v1 v2" by (rule run_keeps_genome [OF assms(4,5)])
  have "\<exists>undone. vault_step cr d e OpRevertGene v2 = Inr undone \<and> gene_cache (cfg undone) = Some old
      \<and> last (sent (vsys undone)) = SetGeneMsg old \<and> stored_genome undone = stored_genome v"
    using k g by (simp add: vault_step_def vault_handle_def revert_gene_msg_def revert_gene_def render_gene_def
        send_sys_def keeps_genome_def stored_genome_def redraws Let_def)
  moreover have "holds_prefix (dict_write DC34_GENE (d_serialize child) (dc34 (vsys v2))) DC34_GENE (d_serialize child)"
    by simp
  then have "fst (get_light_gene (dict_write DC34_GENE (d_serialize child) (dc34 (vsys v2)))) = Some child"
    using get_light_gene_holds by fastforce
  then have "\<exists>kept. vault_step cr d e OpKeepGene v2 = Inr kept \<and> gene_cache (cfg kept) = Some child
      \<and> fst (get_light_gene (dc34 (vsys kept))) = Some child"
    using k g by (simp add: vault_step_def vault_handle_def keep_gene_def keeps_genome_def redraws save_light_gene_def)
  ultimately show ?thesis using g by blast
qed

text \<open>A sample badge about to scan, with a nonce out, and a code for it.\<close>

definition sample_scanner :: vault where
  "sample_scanner = (sample_vault GeneScan)\<lparr>cfg := (cfg (sample_vault GeneScan))\<lparr>nonce_mine := Some (replicate 12 1)\<rparr>\<rparr>"

definition sample_code :: string where
  "sample_code = b45enc sample_crypto (aead_enc sample_crypto (replicate 32 7) (replicate 12 1) (wire_gamete rainbow_phenotype Goon))"

lemma sample_scanner_fields:
  "gene_mode (vmode sample_scanner)" "nonce_mine (cfg sample_scanner) = Some (replicate 12 1)"
  "k0 (cfg sample_scanner) = replicate 32 7" "gene_cache (cfg sample_scanner) = Some (Diploid disco_phenotype rainbow_phenotype)"
  "menu_active sample_scanner = False"
  by (simp_all add: sample_scanner_def sample_vault_def)

lemma sample_code_tag:
  "take 16 (aead_enc sample_crypto (replicate 32 7) (replicate 12 1) (wire_gamete rainbow_phenotype Goon)) \<noteq> DC34_HEADER"
  using sample_tag by (simp add: sample_crypto_def)

lemma sample_scan:
  "\<exists>v1. handle_qr sample_crypto sample_draws sample_env sample_code sample_scanner = Inr v1 \<and> vmode v1 = ConfirmGene"
  unfolding sample_code_def
  using accept [OF sample_crypto_ok sample_scanner_fields(1,2,3) sample_code_tag sample_scanner_fields(4)]
  by (simp add: redraws)

theorem offspring_kept_or_undone_witness:
  "\<exists>v1 v2 undone. handle_qr sample_crypto sample_draws sample_env sample_code sample_scanner = Inr v1
    \<and> vault_run sample_crypto [(OpRedraw, sample_draws, sample_env)] v1 = Inr v2
    \<and> vault_step sample_crypto sample_draws sample_env OpRevertGene v2 = Inr undone
    \<and> gene_cache (cfg undone) = Some (Diploid disco_phenotype rainbow_phenotype)"
proof -
  obtain v1 where v1: "handle_qr sample_crypto sample_draws sample_env sample_code sample_scanner = Inr v1"
      "vmode v1 = ConfirmGene" using sample_scan by blast
  obtain v2 where v2: "vault_run sample_crypto [(OpRedraw, sample_draws, sample_env)] v1 = Inr v2"
    by (simp add: vault_step_def vault_handle_def)
  show ?thesis
    using offspring_kept_or_undone [OF v1(1) sample_scanner_fields(1) v1(2) v2] sample_scanner_fields(4) v1 v2
    by fastforce
qed

text \<open>Viability of the genomes in memory.\<close>

definition vault_viable :: "vault \<Rightarrow> bool" where
  "vault_viable v \<longleftrightarrow> pred_option viable_d (gene_cache (cfg v)) \<and> pred_option viable_d (prior_gene (cfg v))"

text \<open>AES-GCM-SIV recomputes the tag from what it decrypts, so it opens only what sealing the result gives (RFC 8452).\<close>

definition authentic :: "crypto \<Rightarrow> bool" where
  "authentic cr \<longleftrightarrow> (\<forall>k n c m. aead_dec cr k n c = Some m \<longrightarrow> c = aead_enc cr k n m)"

text \<open>Bytes that nobody sealed with the key but a badge that sends a viable gamete.\<close>

definition from_badge :: "crypto \<Rightarrow> bytes \<Rightarrow> bytes \<Rightarrow> bool" where
  "from_badge cr key data \<longleftrightarrow> (\<forall>n m. data = aead_enc cr key n m \<longrightarrow> (\<exists>h bt. m = wire_gamete h bt \<and> viable h))"

definition scans_from_badges :: "crypto \<Rightarrow> bytes \<Rightarrow> vault_op set \<Rightarrow> bool" where
  "scans_from_badges cr key ms \<longleftrightarrow> (\<forall>s data. OpHandleQr s \<in> ms \<longrightarrow> b45dec cr s = Some data \<longrightarrow> from_badge cr key data)"

lemma egg_viable:
  assumes "get_egg d m r c = Some egg" and "pred_option viable_d (gene_cache c)"
  shows "viable egg"
  using assms viable_mutate [OF viable_meiosis] by (auto simp: get_egg_def split: option.splits)

lemma bred_viable:
  assumes "bred cr dr data v v'" and "authentic cr" and "from_badge cr (k0 (cfg v)) data" and "vault_viable v"
  shows "vault_viable v'"
proof -
  obtain n msg sperm egg g where b: "aead_dec cr (k0 (cfg v)) n data = Some msg"
      "h_deserialize (take haploid_size msg) = Some sperm" "gene_cache (cfg v) = Some g" "prior_gene (cfg v') = Some g"
      "get_egg (meiosis_draws dr) (mutate_draws dr) (syngamy_rate (badge_or_none (msg ! 15)) (cfg v)) (cfg v) = Some egg"
      "gene_cache (cfg v') = Some (Diploid egg (case syngamy_rate (badge_or_none (msg ! 15)) (cfg v) of
          None \<Rightarrow> sperm | Some r \<Rightarrow> mutate sperm r (sperm_draws dr)))"
    using assms(1) unfolding bred_def by blast
  from assms(2) b(1) have "data = aead_enc cr (k0 (cfg v)) n msg" by (simp add: authentic_def)
  with assms(3) obtain h bt where "msg = wire_gamete h bt" "viable h" unfolding from_badge_def by blast
  with b(2) have "viable sperm" by (simp add: wire_gamete_parts codec)
  moreover have "viable egg" "viable_d g" using egg_viable [OF b(5)] assms(4) b(3) by (simp_all add: vault_viable_def)
  ultimately show ?thesis using b(4,6)
    by (auto simp: vault_viable_def viable_d_def viable_mutate split: option.splits)
qed

lemma keeps_viable: "keeps_genome v v' \<Longrightarrow> vault_viable v \<Longrightarrow> vault_viable v'"
  by (simp add: keeps_genome_def vault_viable_def)

lemma step_viable:
  assumes "vault_step cr dr env m v = Inr v'" and "authentic cr" and "scans_from_badges cr (k0 (cfg v)) {m}" and "vault_viable v"
  shows "vault_viable v' \<and> k0 (cfg v') = k0 (cfg v)"
proof (cases "gene_op m")
  case False
  then show ?thesis using vault_step_keeps_genome [OF assms(1)] keeps_viable assms(4) by (auto simp: keeps_genome_def)
next
  case True
  have u: "vault_viable (power_update env v)" "k0 (cfg (power_update env v)) = k0 (cfg v)"
    using keeps_viable [OF power_update_keeps_genome assms(4)] by (simp_all add: redraws)
  from True consider s where "m = OpHandleQr s" | "m = OpKeepGene" | "m = OpRevertGene" by (cases m) auto
  then show ?thesis
  proof cases
    case (1 s)
    then have "handle_qr cr dr env s (power_update env v) = Inr v'"
      using assms(1) by (simp add: vault_step_def vault_handle_def)
    from handle_qr_cases [OF this] show ?thesis
    proof
      assume "gene_mode (vmode (power_update env v)) \<and> (\<exists>data. b45dec cr s = Some data \<and> bred cr dr data (power_update env v) v')"
      then obtain data where data: "b45dec cr s = Some data" "bred cr dr data (power_update env v) v'" by blast
      then have "from_badge cr (k0 (cfg (power_update env v))) data" using assms(3) 1 u(2) by (simp add: scans_from_badges_def)
      with data(2) bred_viable [OF data(2) assms(2) _ u(1)] u(2) show ?thesis by (auto simp: bred_def)
    qed (use keeps_viable [OF _ u(1)] u(2) in \<open>auto simp: keeps_genome_def\<close>)
  next
    case 2
    then show ?thesis using assms(1) u
      by (auto simp: vault_step_def vault_handle_def keep_gene_def vault_viable_def redraws split: option.splits)
  next
    case 3
    then show ?thesis using assms(1) u
      by (auto simp: vault_step_def vault_handle_def revert_gene_msg_def revert_gene_def vault_viable_def redraws Let_def
          split: option.splits)
  qed
qed

text \<open>What a badge with viable genomes answers is again such a code.\<close>

lemma answer_viable:
  assumes "respond_to_key cr dr data v = Inr (v', False)" and "vault_viable v"
  shows "\<exists>n h bt. viable h \<and> qr_override v' = Some (b45enc cr (aead_enc cr (k0 (cfg v)) n (wire_gamete h bt)))"
proof -
  obtain c padded where c: "generate_my_nonce (nonce_draws dr) (cfg v) = Some c"
      "get_padded_gamete (meiosis_draws dr) (mutate_draws dr) c = Some padded"
      "qr_override v' = Some (b45enc cr (aead_enc cr (k0 c) (take 12 (drop 16 data)) padded))"
    using assms(1) by (auto simp: respond_to_key_def Let_def split: if_splits option.splits)
  from c(1) have k: "k0 c = k0 (cfg v)" "gene_cache c = gene_cache (cfg v)" by (auto simp: generate_my_nonce_def split: option.splits)
  from c(2) obtain g where g: "gene_cache c = Some g" by (auto simp: get_padded_gamete_def split: option.splits)
  have "viable_d g" using assms(2) g k(2) by (simp add: vault_viable_def)
  then have "viable (gamete dr c g)" by (simp add: gamete_def viable_mutate viable_meiosis)
  with c(2,3) padded_gamete [OF g] k(1) show ?thesis by auto
qed

text \<open>C30: Genomes in memory stay viable through every run of messages in which every scanned code that opens with the badge's key
  was sealed by a badge with a viable gamete in it; and the answers the badge seals itself, after any such run, are of that kind.\<close>

theorem genomes_stay_viable:
  assumes "vault_run cr ms v = Inr v'" and "authentic cr" and "scans_from_badges cr (k0 (cfg v)) (fst ` set ms)" and "vault_viable v"
  shows "vault_viable v' \<and> (\<forall>dr data v''. respond_to_key cr dr data v' = Inr (v'', False) \<longrightarrow>
    (\<exists>n h bt. viable h \<and> qr_override v'' = Some (b45enc cr (aead_enc cr (k0 (cfg v)) n (wire_gamete h bt)))))"
proof -
  have "vault_viable v' \<and> k0 (cfg v') = k0 (cfg v)" using assms(1,3,4)
  proof (induction ms arbitrary: v)
    case (Cons x ms)
    obtain m dr env where x: "x = (m, dr, env)" by (cases x)
    then obtain v1 where v1: "vault_step cr dr env m v = Inr v1" "vault_run cr ms v1 = Inr v'"
      using Cons.prems(1) by (auto split: sum.splits)
    have "scans_from_badges cr (k0 (cfg v)) {m}" "scans_from_badges cr (k0 (cfg v)) (fst ` set ms)"
      using Cons.prems(2) x by (auto simp: scans_from_badges_def)
    with step_viable [OF v1(1) assms(2)] Cons.prems(3) Cons.IH [OF v1(2)] show ?case by simp
  qed simp
  then show ?thesis using answer_viable by metis
qed

text \<open>A sample of cryptography that is authentic.\<close>

definition sealing_crypto :: crypto where
  "sealing_crypto = sample_crypto\<lparr>aead_dec := \<lambda>k n c. if take 16 c = replicate 16 0 then Some (drop 16 c) else None\<rparr>"

lemma sealing_crypto_ok: "crypto_ok sealing_crypto" "authentic sealing_crypto"
proof -
  show "crypto_ok sealing_crypto" by (simp add: crypto_ok_def sealing_crypto_def sample_crypto_def codec)
  show "authentic sealing_crypto" unfolding authentic_def sealing_crypto_def
    by (auto simp: sample_crypto_def split: if_splits) (metis append_take_drop_id)
qed

theorem genomes_stay_viable_witness:
  "\<exists>v'. vault_run sealing_crypto [(OpHandleQr sample_code, sample_draws, sample_env)] sample_scanner = Inr v' \<and> vmode v' = ConfirmGene
      \<and> vault_viable v'"
proof -
  have code: "sample_code = b45enc sealing_crypto (aead_enc sealing_crypto (replicate 32 7) (replicate 12 1) (wire_gamete rainbow_phenotype Goon))"
    by (simp add: sample_code_def sealing_crypto_def)
  have tag: "take 16 (aead_enc sealing_crypto (replicate 32 7) (replicate 12 1) (wire_gamete rainbow_phenotype Goon)) \<noteq> DC34_HEADER"
    using sample_code_tag by (simp add: sealing_crypto_def)
  let ?u = "power_update sample_env sample_scanner"
  have "\<exists>v1. handle_qr sealing_crypto sample_draws sample_env sample_code ?u = Inr v1 \<and> vmode v1 = ConfirmGene"
    unfolding code
    by (subst accept [OF sealing_crypto_ok(1) _ _ _ tag, of ?u]) (use sample_scanner_fields in \<open>simp_all add: redraws\<close>)
  then obtain v1 where v1: "vault_run sealing_crypto [(OpHandleQr sample_code, sample_draws, sample_env)] sample_scanner = Inr v1"
      "vmode v1 = ConfirmGene"
    by (auto simp: vault_step_def vault_handle_def)
  have viable: "viable rainbow_phenotype" "vault_viable sample_scanner"
    by (simp_all add: vault_viable_def sample_scanner_def sample_vault_def viable_d_def viable_def
        disco_phenotype_def rainbow_phenotype_def)
  have "scans_from_badges sealing_crypto (k0 (cfg sample_scanner)) (fst ` set [(OpHandleQr sample_code, sample_draws, sample_env)])"
    unfolding scans_from_badges_def from_badge_def code using viable(1)
    by (auto simp: sealing_crypto_def sample_crypto_def codec)
  from genomes_stay_viable [OF v1(1) sealing_crypto_ok(2) this viable(2)] v1 show ?thesis by blast
qed

section \<open>Replay\<close>

lemma key_of_u32_used [simp]: "key_of_u32 0x2234 = KMenu" "key_of_u32 0x1F525 = KFire"
  by (simp_all add: key_of_u32_def)

text \<open>What a replay needs of the badge.\<close>

definition mated :: "bytes \<Rightarrow> bytes \<Rightarrow> diploid \<Rightarrow> vault_mode \<Rightarrow> bool \<Rightarrow> vault \<Rightarrow> bool" where
  "mated key n g m menu v \<longleftrightarrow> k0 (cfg v) = key \<and> nonce_mine (cfg v) = Some n \<and> gene_cache (cfg v) = Some g \<and> vmode v = m
     \<and> menu_active v = menu \<and> (skip_one_key v \<longrightarrow> m = GeneScan) \<and> \<not> is_developer (cfg v)"

lemma mated_scan:
  assumes "crypto_ok cr" and "mated key n g m menu v" and "gene_mode m"
    and "take 16 (aead_enc cr key n (wire_gamete h bt)) \<noteq> DC34_HEADER"
  shows "\<exists>v' g'. vault_step cr dr env (OpHandleQr (b45enc cr (aead_enc cr key n (wire_gamete h bt)))) v = Inr v'
    \<and> mated key n g' ConfirmGene menu v' \<and> prior_gene (cfg v') = Some g"
proof -
  let ?u = "power_update env v"
  have u: "gene_mode (vmode ?u)" "nonce_mine (cfg ?u) = Some n" "k0 (cfg ?u) = key" "gene_cache (cfg ?u) = Some g"
    using assms(2,3) by (simp_all add: mated_def redraws)
  show ?thesis
    using accept [OF assms(1) u(1,2,3) assms(4) u(4), of dr env] assms(2)
    by (simp add: vault_step_def vault_handle_def mated_def redraws)
      (simp add: reset_rates_def log_acts_def set_mutation_rate_def redraws)
qed

lemma mated_menu:
  assumes "mated key n g ConfirmGene False v"
  shows "\<exists>v'. vault_step cr dr env (OpKeyPress 0x2234) v = Inr v' \<and> mated key n g ConfirmGene True v'"
  using assms
  by (simp add: vault_step_def vault_handle_def key_press_def track_key_def set_param_def handle_key_def filter_key_def
      after_key_def mated_def log_acts_def set_mutation_rate_def Let_def redraws)

lemma mated_keep:
  assumes "mated key n g ConfirmGene True v"
  shows "\<exists>v'. vault_step cr dr env OpKeepGene v = Inr v' \<and> mated key n g Idle True v'"
  using assms power_update_config [of env v]
  by (auto simp: vault_step_def vault_handle_def keep_gene_def mated_def to_mode_def on_sys_def redraws)

lemma mated_done:
  assumes "mated key n g Idle True v"
  shows "\<exists>v'. vault_step cr dr env OpMenuDone v = Inr v' \<and> mated key n g Idle False v'"
  using assms power_update_config [of env v]
  by (auto simp: vault_step_def vault_handle_def menu_done_def mated_def resume_animation_def log_acts_def
      vmode_redraw redraws)

lemma mated_fire:
  assumes "mated key n g Idle False v"
  shows "\<exists>v'. vault_step cr dr env (OpKeyPress 0x1F525) v = Inr v' \<and> mated key n g GeneScan False v'"
  using assms
  by (simp add: vault_step_def vault_handle_def key_press_def track_key_def set_param_def handle_key_def filter_key_def
      key_idle_def after_key_def scan_request_def mated_def log_acts_def on_sys_def set_mutation_rate_def
      vmode_redraw Let_def redraws)

text \<open>An answer can be used again: the nonce survives a successful mating, so once the offspring is kept
  and the menu closed, the same code is accepted a second time, and breeds with the offspring of the
  first.\<close>

theorem answer_accepted_again:
  assumes "crypto_ok cr" and "mated key n g m False v" and "gene_mode m"
    and "take 16 (aead_enc cr key n (wire_gamete h bt)) \<noteq> DC34_HEADER"
  shows "let code = b45enc cr (aead_enc cr key n (wire_gamete h bt)) in
    \<exists>v1 v'. vault_step cr d1 e1 (OpHandleQr code) v = Inr v1
      \<and> vault_run cr [(OpKeyPress 0x2234, d2, e2), (OpKeepGene, d3, e3), (OpMenuDone, d4, e4),
           (OpKeyPress 0x1F525, d5, e5), (OpHandleQr code, d6, e6)] v1 = Inr v'
      \<and> vmode v' = ConfirmGene \<and> prior_gene (cfg v') = gene_cache (cfg v1) \<and> prior_gene (cfg v1) = Some g"
proof -
  let ?code = "b45enc cr (aead_enc cr key n (wire_gamete h bt))"
  obtain v1 g1 where 1: "vault_step cr d1 e1 (OpHandleQr ?code) v = Inr v1" "mated key n g1 ConfirmGene False v1"
      "prior_gene (cfg v1) = Some g" using mated_scan [OF assms] by blast
  obtain v2 where 2: "vault_step cr d2 e2 (OpKeyPress 0x2234) v1 = Inr v2" "mated key n g1 ConfirmGene True v2"
    using mated_menu [OF 1(2)] by blast
  obtain v3 where 3: "vault_step cr d3 e3 OpKeepGene v2 = Inr v3" "mated key n g1 Idle True v3"
    using mated_keep [OF 2(2)] by blast
  obtain v4 where 4: "vault_step cr d4 e4 OpMenuDone v3 = Inr v4" "mated key n g1 Idle False v4"
    using mated_done [OF 3(2)] by blast
  obtain v5 where 5: "vault_step cr d5 e5 (OpKeyPress 0x1F525) v4 = Inr v5" "mated key n g1 GeneScan False v5"
    using mated_fire [OF 4(2)] by blast
  obtain v6 g6 where 6: "vault_step cr d6 e6 (OpHandleQr ?code) v5 = Inr v6" "mated key n g6 ConfirmGene False v6"
      "prior_gene (cfg v6) = Some g1" using mated_scan [OF assms(1) 5(2) gene_mode_simps(1) assms(4)] by blast
  have "gene_cache (cfg v1) = Some g1" "vmode v6 = ConfirmGene" using 1(2) 6(2) by (simp_all add: mated_def)
  with 1 2 3 4 5 6 show ?thesis by (simp add: Let_def)
qed

lemma sample_mated:
  "mated (replicate 32 7) (replicate 12 1) (Diploid disco_phenotype rainbow_phenotype) GeneScan False sample_scanner"
  by (simp add: mated_def sample_scanner_def sample_vault_def)

theorem answer_accepted_again_witness:
  "\<exists>v1 v'. vault_step sample_crypto sample_draws sample_env (OpHandleQr sample_code) sample_scanner = Inr v1
      \<and> vault_run sample_crypto [(OpKeyPress 0x2234, sample_draws, sample_env), (OpKeepGene, sample_draws, sample_env),
           (OpMenuDone, sample_draws, sample_env), (OpKeyPress 0x1F525, sample_draws, sample_env),
           (OpHandleQr sample_code, sample_draws, sample_env)] v1 = Inr v' \<and> vmode v' = ConfirmGene"
  using answer_accepted_again [OF sample_crypto_ok sample_mated gene_mode_simps(1) sample_code_tag,
      of sample_draws sample_env sample_draws sample_env sample_draws sample_env sample_draws sample_env
         sample_draws sample_env sample_draws sample_env]
  unfolding Let_def sample_code_def by blast

section \<open>The factory test\<close>

lemma redraw_waiting:
  assumes "vmode v = FactoryTest" and "factory_test v = FtInitWait t" and "start_time v = None"
  shows "vmode (redraw env v) = FactoryTest \<and> factory_test (redraw env v) = FtInitWait t \<and> start_time (redraw env v) = None"
  using assms
  by (simp add: redraw_def redraw_mode_def redraw_factory_def test_timeout_def redraw_fade_def case_prod_beta Let_def)

text \<open>A factory test that waits for the jig goes on waiting however much time passes: only an input
  lets it look at its timeout.\<close>

theorem jig_wait_needs_input:
  assumes "vmode v = FactoryTest" and "factory_test v = FtInitWait t" and "start_time v = None"
    and "\<forall>m \<in> fst ` set ms. m = OpRedraw"
  shows "\<exists>v'. vault_run cr ms v = Inr v' \<and> factory_test v' = FtInitWait t"
  using assms
proof (induction ms arbitrary: v)
  case (Cons x ms)
  obtain dr env where x: "x = (OpRedraw, dr, env)" using Cons.prems(4) by (cases x) auto
  let ?v = "redraw_msg env (power_update env v)"
  have "vmode ?v = FactoryTest \<and> factory_test ?v = FtInitWait t \<and> start_time ?v = None"
    using redraw_waiting [of "set_param (decay (mutation_param w)) w" t env for w] Cons.prems
    by (simp add: redraw_msg_def Let_def set_param_def on_sys_def redraws)
  then show ?case using Cons.IH [of ?v] Cons.prems(4) x by (simp add: vault_step_def vault_handle_def)
qed simp

theorem jig_wait_needs_input_witness:
  "\<exists>v'. vault_run sample_crypto [(OpRedraw, sample_draws, sample_env\<lparr>clock_s := 100\<rparr>)] (sample_vault FactoryTest) = Inr v'
      \<and> factory_test v' = FtInitWait 0"
  by (rule jig_wait_needs_input) (simp_all add: sample_vault_def)

end
