(* ===== verification/Vault_Actions.thy ===== *)
theory Vault_Actions
  imports Vault_Store Item_Cache Generator
begin

text \<open>
  How the actions thread makes display items of records and reloads the display lists from the
  database (\<open>make_*_item_from_record\<close> and \<open>retrieve_db\<close> in \<open>src/actions.rs\<close>), and the proof that a
  reload merges the rows read into the list.
\<close>

section \<open>Items\<close>

definition make_pw_name :: "string \<Rightarrow> string \<Rightarrow> string" where
  "make_pw_name description username = description"

definition make_totp_item :: "string \<Rightarrow> totp_record \<Rightarrow> list_item" where
  "make_totp_item guid r = item_new (t_name r) (totp_item_extra r) guid 0 0"

text \<open>\<open>human\<close> is \<open>atime_to_str\<close>, \<open>authcount\<close> the label of the counter in the current language.\<close>

definition make_pw_item :: "(u64 \<Rightarrow> string) \<Rightarrow> string \<Rightarrow> string \<Rightarrow> pw_record \<Rightarrow> list_item" where
  "make_pw_item human authcount guid r =
     item_new (make_pw_name (p_description r) (p_username r))
       (human (p_atime r) @ ''; '' @ authcount @ show_nat (unat (p_count r)))
       guid (p_atime r) (p_count r)"

section \<open>Reloading the lists\<close>

text \<open>\<open>read_dict\<close> returns every key of the dictionary with its data, unless the cache ran out of
  space for it.  The flag of a result counts the errors shown.\<close>

type_synonym rows = "(string \<times> bytes option) list"

fun load_totp :: "rows \<Rightarrow> list_view \<times> nat \<Rightarrow> list_view \<times> nat" where
  "load_totp [] (v, errs) = (v, errs)"
| "load_totp ((guid, None) # rows) (v, errs) = load_totp rows (v, errs)"
| "load_totp ((guid, Some d) # rows) (v, errs) =
     (case totp_try_from d of
        Inl _ \<Rightarrow> load_totp rows (v, Suc errs)
      | Inr r \<Rightarrow> load_totp rows (snd (insert_unique (make_totp_item guid r) v), errs))"

text \<open>The update of an entry in place, through the reference \<open>get\<close> returns.\<close>

definition refresh_item :: "string \<Rightarrow> string \<Rightarrow> pw_record \<Rightarrow> list_item \<Rightarrow> list_item" where
  "refresh_item desc guid r e =
     (let e1 = (if item_atime e \<noteq> p_atime r \<or> item_count e \<noteq> p_count r
                then e\<lparr>item_extra := p_username r\<rparr> else e);
          e2 = (if item_name e1 \<noteq> desc then name_push_str desc (name_clear e1) else e1)
      in e2\<lparr>item_guid := guid, item_atime := p_atime r, item_count := p_count r\<rparr>)"

definition view_update :: "list_key \<Rightarrow> (list_item \<Rightarrow> list_item) \<Rightarrow> list_view \<Rightarrow> list_view" where
  "view_update k f v =
     (let v1 = ensure_sorted v
      in case binary_search_by (probe_key k) (items v1) of
           Inl i \<Rightarrow> v1\<lparr>items := (items v1)[i := f (items v1 ! i)]\<rparr>
         | Inr _ \<Rightarrow> v1)"

text \<open>One readable row; \<open>buf\<close> is the record buffer reused for all of them.\<close>

definition load_pw_row :: "string \<Rightarrow> pw_record \<Rightarrow> list_view \<Rightarrow> list_view" where
  "load_pw_row guid r v =
     (let desc = make_pw_name (p_description r) (p_username r); key = key_from_parts desc guid
      in case view_get key v of
           (Some _, _) \<Rightarrow> view_update key (refresh_item desc guid r) v
         | (None, v1) \<Rightarrow> view_push (item_new desc (p_username r) guid (p_atime r) (p_count r)) v1)"

fun load_pw :: "rows \<Rightarrow> pw_record \<times> list_view \<Rightarrow> pw_record \<times> list_view" where
  "load_pw [] (buf, v) = (buf, v)"
| "load_pw ((guid, None) # rows) (buf, v) = load_pw rows (buf, v)"
| "load_pw ((guid, Some d) # rows) (buf, v) =
     (case pw_from_vec d buf of
        (Some _, r) \<Rightarrow> load_pw rows (r, v)
      | (None, r) \<Rightarrow> load_pw rows (r, load_pw_row guid r v))"

text \<open>\<open>retrieve_db\<close>: the list of one-time codes is rebuilt, a list of passwords is added to.\<close>

definition retrieve_db :: "vault_mode \<Rightarrow> rows \<Rightarrow> rows \<Rightarrow> item_lists \<Rightarrow> item_lists \<times> nat" where
  "retrieve_db m totp_rows pw_rows ls =
     (if m = Totp
      then (case load_totp totp_rows (view_clear (li m ls), 0) of
              (v, errs) \<Rightarrow> (li_update m (\<lambda>_. filter_reset v) ls,
                 errs + (if \<exists>(g, d) \<in> set totp_rows. d = None then 1 else 0)))
      else (case load_pw pw_rows (pw_default, li m ls) of
              (_, v) \<Rightarrow> (li_update m (\<lambda>_. filter_reset (filter_reset v)) ls,
                 if \<exists>(g, d) \<in> set pw_rows. d = None then 1 else 0)))"

section \<open>Lemmas: reloading\<close>

lemma pw_from_vec_buf: "pw_from_vec d buf = pw_from_vec d pw_default"
proof -
  have "pw_clear buf = pw_clear pw_default" by (simp add: pw_clear_def pw_default_def)
  then show ?thesis unfolding pw_from_vec_def by (simp only:)
qed

definition read_pw :: "bytes \<Rightarrow> pw_record option" where
  "read_pw d = (case pw_from_vec d pw_default of (None, r) \<Rightarrow> Some r | (Some _, _) \<Rightarrow> None)"

lemma refresh_key:
  assumes "item_key e = key_from_parts desc guid"
  shows "item_key (refresh_item desc guid r e) = item_key e
    \<and> (sortable_name e = to_lower (item_name e) \<longrightarrow>
       sortable_name (refresh_item desc guid r e) = to_lower (item_name (refresh_item desc guid r e)))"
  using assms
  by (auto simp: refresh_item_def item_key_def key_from_parts_def name_push_str_def name_clear_def Let_def)

lemma option_eqI: "(\<And>i. a = Some i \<longleftrightarrow> b = Some i) \<Longrightarrow> a = b"
  by (cases a) (metis not_Some_eq)+

lemma view_map_upd:
  assumes "view_ok v" and "view_ok w" and "item_key x = k"
    and "set (items w) = insert x {i \<in> set (items v). item_key i \<noteq> k}"
  shows "view_map w = (view_map v)(k \<mapsto> x)"
proof
  fix k'
  show "view_map w k' = ((view_map v)(k \<mapsto> x)) k'"
  proof (rule option_eqI)
    fix i
    show "view_map w k' = Some i \<longleftrightarrow> ((view_map v)(k \<mapsto> x)) k' = Some i"
      using assms by (auto simp: view_map_eq_Some)
  qed
qed

lemma view_push_refines:
  assumes "view_ok v" and "view_map v (item_key x) = None" and "sortable_name x = to_lower (item_name x)"
  shows "view_map (view_push x v) = (view_map v)(item_key x \<mapsto> x) \<and> view_ok (view_push x v)"
proof -
  have new: "item_key x \<notin> item_key ` set (items v)" using assms(2) by (simp add: view_map_None)
  then have ok: "view_ok (view_push x v)" using assms(1,3) by (auto simp: view_ok_def view_push_def)
  moreover have "set (items (view_push x v)) = insert x {i \<in> set (items v). item_key i \<noteq> item_key x}"
    using new by (auto simp: view_push_def image_iff)
  ultimately show ?thesis using view_map_upd [OF assms(1) ok refl] by blast
qed

lemma view_update_refines:
  assumes ok: "view_ok v" and some: "view_map v k = Some e" and key: "item_key (f e) = k"
    and name: "sortable_name (f e) = to_lower (item_name (f e))"
  shows "view_map (view_update k f v) = (view_map v)(k \<mapsto> f e) \<and> view_ok (view_update k f v)"
proof -
  define w where "w = ensure_sorted v"
  have w: "view_ok w" "is_sorted w" "sorted (map item_key (items w))" "view_map w = view_map v"
    using ensure_sorted_ok [OF ok] ok by (simp_all add: w_def)
  obtain i where i: "binary_search_by (probe_key k) (items w) = Inl i" "i < length (items w)"
      "item_key (items w ! i) = k" "items w ! i = e"
  proof (cases "binary_search_by (probe_key k) (items w)")
    case (Inl i)
    have s: "i < length (items w)" "item_key (items w ! i) = k" "view_map w k = Some (items w ! i)"
      using search_view [OF w(1,3), of k] unfolding Inl by (simp_all only: sum.case)
    moreover have "view_map w k = Some e" using some w(4) by (simp only:)
    ultimately have "items w ! i = e" by (simp only: option.inject)
    then show ?thesis by (rule that [OF Inl s(1,2)])
  next
    case (Inr i)
    then show ?thesis using search_view [OF w(1,3), of k] some w(4) by simp
  qed
  have d: "distinct (map item_key (items w))" using w(1) by (simp add: view_ok_def)
  have upd: "view_update k f v = w\<lparr>items := (items w)[i := f e]\<rparr>"
    using i by (simp add: view_update_def w_def [symmetric] Let_def)
  have keys: "map item_key ((items w)[i := f e]) = map item_key (items w)"
    using i key by (simp add: map_update list_update_same_conv)
  have set: "set ((items w)[i := f e]) = insert (f e) (set (items w) - {e})"
    using set_update_distinct [OF distinct_map [THEN iffD1, THEN conjunct1, OF d] i(2)] i(4) by simp
  have ok': "view_ok (w\<lparr>items := (items w)[i := f e]\<rparr>)"
    using w(1,2) keys name set by (auto simp: view_ok_def)
  have "{j \<in> set (items w). item_key j \<noteq> k} = set (items w) - {e}"
    using d i by (auto simp: distinct_map inj_on_def)
  then have "view_map (w\<lparr>items := (items w)[i := f e]\<rparr>) = (view_map w)(k \<mapsto> f e)"
    by (intro view_map_upd [OF w(1) ok' key]) (simp add: set)
  then show ?thesis using upd ok' w(4) by simp
qed

text \<open>What a readable row makes of the entry under its key.\<close>

definition row_key :: "string \<Rightarrow> pw_record \<Rightarrow> list_key" where
  "row_key guid r = key_from_parts (p_description r) guid"

definition merged :: "string \<Rightarrow> pw_record \<Rightarrow> list_item option \<Rightarrow> list_item" where
  "merged guid r e =
     (case e of None \<Rightarrow> item_new (p_description r) (p_username r) guid (p_atime r) (p_count r)
      | Some e \<Rightarrow> refresh_item (p_description r) guid r e)"

lemma load_pw_row_refines:
  assumes "view_ok v"
  shows "view_map (load_pw_row guid r v) = (view_map v)(row_key guid r \<mapsto> merged guid r (view_map v (row_key guid r)))
    \<and> view_ok (load_pw_row guid r v)"
proof -
  have get: "fst (view_get (row_key guid r) v) = view_map v (row_key guid r)"
      "view_map (snd (view_get (row_key guid r) v)) = view_map v" "view_ok (snd (view_get (row_key guid r) v))"
    using view_get_refines [OF assms] by blast+
  show ?thesis
  proof (cases "view_map v (row_key guid r)")
    case None
    let ?x = "item_new (p_description r) (p_username r) guid (p_atime r) (p_count r)"
    have x: "item_key ?x = row_key guid r" "sortable_name ?x = to_lower (item_name ?x)"
      by (simp_all add: item_key_def item_new_def row_key_def key_from_parts_def)
    have "load_pw_row guid r v = view_push ?x (snd (view_get (row_key guid r) v))"
      using get(1) None by (auto simp: load_pw_row_def make_pw_name_def row_key_def Let_def split: prod.splits)
    with view_push_refines [OF get(3), of ?x] get(2) None x show ?thesis by (simp add: merged_def)
  next
    case (Some e)
    have e: "item_key e = row_key guid r" "sortable_name e = to_lower (item_name e)"
      using view_map_eq_Some [OF assms] Some assms by (auto simp: view_ok_def)
    have "load_pw_row guid r v = view_update (row_key guid r) (refresh_item (p_description r) guid r) v"
      using get(1) Some by (auto simp: load_pw_row_def make_pw_name_def row_key_def Let_def split: prod.splits)
    moreover note refresh_key [of e "p_description r" guid r]
    ultimately show ?thesis
      using view_update_refines [OF assms Some, of "refresh_item (p_description r) guid r"] Some e
      by (simp add: merged_def row_key_def)
  qed
qed

definition readable :: "rows \<Rightarrow> string \<Rightarrow> pw_record \<Rightarrow> bool" where
  "readable rows guid r \<longleftrightarrow> (\<exists>d. (guid, Some d) \<in> set rows \<and> read_pw d = Some r)"

lemma row_key_guid: "row_key g r = row_key g' r' \<Longrightarrow> g = g'"
  by (simp add: row_key_def key_from_parts_def)

definition merges :: "rows \<Rightarrow> list_view \<Rightarrow> list_view \<Rightarrow> bool" where
  "merges rows v v' \<longleftrightarrow> view_ok v'
     \<and> (\<forall>guid r. readable rows guid r \<longrightarrow>
          view_map v' (row_key guid r) = Some (merged guid r (view_map v (row_key guid r))))
     \<and> (\<forall>k. (\<forall>guid r. readable rows guid r \<longrightarrow> row_key guid r \<noteq> k) \<longrightarrow> view_map v' k = view_map v k)"

lemma readable_Cons:
  "readable ((g, x) # rows) guid r \<longleftrightarrow> g = guid \<and> (\<exists>d. x = Some d \<and> read_pw d = Some r) \<or> readable rows guid r"
  by (auto simp: readable_def)

lemma load_pw_merges:
  "view_ok v \<Longrightarrow> distinct (map fst rows) \<Longrightarrow> merges rows v (snd (load_pw rows (buf, v)))"
proof (induction rows arbitrary: buf v)
  case Nil
  then show ?case by (simp add: merges_def readable_def)
next
  case (Cons row rows)
  obtain g x where row: "row = (g, x)" by (cases row)
  have d: "distinct (map fst rows)" and fresh: "\<not> readable rows g r" for r
    using Cons.prems(2) row by (force simp: readable_def)+
  have skip: "merges ((g, x) # rows) v w" if "merges rows v w" "\<not> (\<exists>d r. x = Some d \<and> read_pw d = Some r)" for w
    using that unfolding merges_def readable_Cons by blast
  show ?case
  proof (cases "\<exists>d r. x = Some d \<and> read_pw d = Some r")
    case False
    then have "\<exists>buf'. load_pw ((g, x) # rows) (buf, v) = load_pw rows (buf', v)"
      by (cases x) (auto simp: read_pw_def pw_from_vec_buf [of _ buf] split: prod.splits option.splits)
    then show ?thesis using skip False Cons.IH [OF Cons.prems(1) d] row by metis
  next
    case True
    then obtain b r where x: "x = Some b" "read_pw b = Some r" by blast
    let ?v = "load_pw_row g r v"
    have "load_pw ((g, x) # rows) (buf, v) = load_pw rows (r, ?v)"
      using x by (auto simp: read_pw_def pw_from_vec_buf [of _ buf] split: prod.splits option.splits)
    moreover have "merges rows ?v (snd (load_pw rows (r, ?v)))"
      using Cons.IH [OF _ d] load_pw_row_refines [OF Cons.prems(1)] by blast
    moreover have m: "view_map ?v = (view_map v)(row_key g r \<mapsto> merged g r (view_map v (row_key g r)))"
      using load_pw_row_refines [OF Cons.prems(1)] by blast
    have "merges ((g, x) # rows) v w" if w: "merges rows ?v w" for w
      unfolding merges_def
    proof (intro conjI allI impI)
      show "view_ok w" using w by (simp add: merges_def)
    next
      fix guid r'
      assume "readable ((g, x) # rows) guid r'"
      then consider "guid = g" "r' = r" | "readable rows guid r'" "guid \<noteq> g"
        using fresh x by (auto simp: readable_Cons)
      then show "view_map w (row_key guid r') = Some (merged guid r' (view_map v (row_key guid r')))"
      proof cases
        case 1
        have "row_key gu ra \<noteq> row_key g r" if "readable rows gu ra" for gu ra
          using that fresh row_key_guid by blast
        then have "view_map w (row_key g r) = view_map ?v (row_key g r)" using w by (simp add: merges_def)
        then show ?thesis using 1 m by simp
      next
        case 2
        then have "row_key guid r' \<noteq> row_key g r" using row_key_guid by blast
        moreover have "view_map w (row_key guid r') = Some (merged guid r' (view_map ?v (row_key guid r')))"
          using w 2(1) by (simp add: merges_def)
        ultimately show ?thesis using m by simp
      qed
    next
      fix k
      assume k: "\<forall>guid r'. readable ((g, x) # rows) guid r' \<longrightarrow> row_key guid r' \<noteq> k"
      then have "row_key g r \<noteq> k" "\<forall>guid r'. readable rows guid r' \<longrightarrow> row_key guid r' \<noteq> k"
        using x by (auto simp: readable_Cons)
      then show "view_map w k = view_map v k" using w m by (simp add: merges_def)
    qed
    ultimately show ?thesis using row by simp
  qed
qed

lemma view_map_filter_reset [simp]: "view_map (filter_reset v) = view_map v"
  by (simp add: view_map_def filter_reset_def)

lemma view_ok_filter_reset [simp]: "view_ok (filter_reset v) = view_ok v"
  by (simp add: view_ok_def filter_reset_def)

lemma li_li_update [simp]: "li m (li_update m f ls) = f (li m ls)"
  by (cases m) simp_all

section \<open>Properties\<close>

text \<open>C27: Reloading a password list merges the rows into it: every readable row is listed under its key,
  an entry that was there keeping the text beside it unless its record changed, and every other
  entry stays, also one whose record is gone.\<close>

theorem reload_merges:
  assumes "m \<noteq> Totp" and "view_ok (li m ls)" and "distinct (map fst rows)"
    and "retrieve_db m totp_rows rows ls = (ls', errs)"
  shows "view_ok (li m ls')
    \<and> (\<forall>guid r. readable rows guid r \<longrightarrow>
         view_map (li m ls') (row_key guid r) = Some (merged guid r (view_map (li m ls) (row_key guid r))))
    \<and> (\<forall>k. (\<forall>guid r. readable rows guid r \<longrightarrow> row_key guid r \<noteq> k) \<longrightarrow>
         view_map (li m ls') k = view_map (li m ls) k)"
proof -
  have "li m ls' = filter_reset (filter_reset (snd (load_pw rows (pw_default, li m ls))))"
    using assms(1,4) by (auto simp: retrieve_db_def split: prod.splits)
  then show ?thesis using load_pw_merges [OF assms(2,3), of pw_default] by (simp add: merges_def)
qed

definition gone_list :: item_lists where
  "gone_list = lists_new\<lparr>pw_list := view_push (item_new ''gone'' ''amy'' ''1'' 0 0) view_new\<rparr>"

theorem reload_merges_witness:
  "let ls = fst (retrieve_db Password [] [(''2'', Some (pw_to_vec sample_pw))] gone_list)
   in view_map (li Password ls) (ListKey ''gone'' ''1'') = Some (item_new ''gone'' ''amy'' ''1'' 0 0)
    \<and> view_map (li Password ls) (ListKey ''example.com'' ''2'') = Some (item_new ''example.com'' ''me'' ''2'' 0 0)"
proof -
  let ?rows = "[(''2'', Some (pw_to_vec sample_pw))] :: rows"
  have ok: "view_ok (li Password gone_list)" by code_simp
  have d: "distinct (map fst ?rows)" by simp
  have gone: "view_map (li Password gone_list) (ListKey ''gone'' ''1'') = Some (item_new ''gone'' ''amy'' ''1'' 0 0)"
    "view_map (li Password gone_list) (ListKey ''example.com'' ''2'') = None"
    by code_simp+
  have "pw_from_vec (pw_to_vec sample_pw) pw_default = (None, sample_pw)"
    using sample_pw_ok by (intro pw_parse_print(1)) (simp_all add: pw_ok_def)
  then have rd: "readable ?rows guid r \<longleftrightarrow> guid = ''2'' \<and> r = sample_pw" for guid r
    by (auto simp: readable_def read_pw_def)
  have key: "row_key ''2'' sample_pw = ListKey ''example.com'' ''2''" by code_simp
  have new: "merged ''2'' sample_pw None = item_new ''example.com'' ''me'' ''2'' 0 0"
    by (simp add: merged_def sample_pw_def pw_default_def)
  obtain ls' errs where r: "retrieve_db Password [] ?rows gone_list = (ls', errs)"
    by (cases "retrieve_db Password [] ?rows gone_list")
  have "view_map (li Password ls') (ListKey ''gone'' ''1'') = view_map (li Password gone_list) (ListKey ''gone'' ''1'')"
    "view_map (li Password ls') (ListKey ''example.com'' ''2'') = Some (merged ''2'' sample_pw None)"
    using reload_merges [OF _ ok d r] rd key gone(2) by auto
  then show ?thesis using r gone(1) new by (simp add: Let_def)
qed

end
