(* ===== verification/Action_Thread.thy ===== *)
theory Action_Thread
  imports Vault_Actions Vault_Store
begin

text \<open>
  The actions thread of the vault (\<open>ActionManager\<close> in \<open>src/actions.rs\<close>, \<open>action_handler\<close> in
  \<open>src/action_handler.rs\<close>): adding, editing and deleting entries through dialogues, creating a password
  for a site, what a scanned code does in the token modes, opening and closing bases, and the
  dispatch of the thread's messages.  An action passes the state of the thread on; it may panic,
  and it may never return, since the generator and some dialogues loop until they are satisfied.
  The answers to dialogues, the clock, the random passwords and the language are the environment.
\<close>

section \<open>State and environment\<close>

datatype label = LAddNew | LCancel | LEdit | LConfigure | LYes | LLowercase | LUppercase | LNumbers
  | LSymbols | LCustomize | LTotp | LNotes | LAuthcount | LNothingSelected | LCompleted | LQrError
  | LQrUnrecognized | LUnlockError | LAlreadyExists | LBip39Error

datatype act_out = Forward string | AbortScan | SetTime string | Typed string | Notice label
  | Reported store_error | BasisError | ShowWords bytes | Redraw

record act_state =
  a_db :: pddb
  a_lists :: item_lists
  a_mode_cache :: vault_mode
  a_active :: bool
  a_users :: "string option"
  a_generator :: "string option"
  a_drawn :: nat
  a_asked :: nat
  a_out :: "act_out list"

text \<open>\<open>PasswordGenerator\<close> of the \<open>passwords\<close> crate; the other settings are the same in all uses.\<close>

record pg_settings =
  pg_length :: nat
  pg_numbers :: bool
  pg_lower :: bool
  pg_upper :: bool
  pg_symbols :: bool
  pg_exclude_similar :: bool

datatype b32_alphabet = Rfc4648 bool | Crockford

datatype basis_error = PermissionDenied | AlreadyExists | OtherBasisError

text \<open>The \<open>k\<close>-th dialogue is answered by field \<open>k\<close>: \<open>None\<close> is an error of the dialogue, a form gives the
  text of each of its fields.  \<open>e_rows\<close> is what \<open>read_dict\<close> returns for a dictionary; \<open>e_unlock\<close> is the
  contents of the basis a name and the PIN key open.\<close>

record act_env =
  e_radio :: "nat \<Rightarrow> string option"
  e_checks :: "nat \<Rightarrow> string list option"
  e_form :: "nat \<Rightarrow> (nat \<Rightarrow> string) option"
  e_bip39 :: "nat \<Rightarrow> bytes option"
  e_label :: "label \<Rightarrow> string"
  e_now :: u64
  e_stored :: u64
  e_human :: "u64 \<Rightarrow> string"
  e_sha :: "bytes \<Rightarrow> bytes"
  e_picks :: "nat \<Rightarrow> string list \<Rightarrow> nat \<Rightarrow> nat \<Rightarrow> string"
  e_pg :: "nat \<Rightarrow> pg_settings \<Rightarrow> string option"
  e_b32_decode :: "b32_alphabet \<Rightarrow> string \<Rightarrow> bytes option"
  e_b32_encode :: "b32_alphabet \<Rightarrow> bytes \<Rightarrow> string"
  e_hex_encode :: "bytes \<Rightarrow> string"
  e_hex_decode :: "string \<Rightarrow> bytes option"
  e_rows :: "pddb \<Rightarrow> string \<Rightarrow> rows"
  e_pin_set :: bool
  e_unlock :: "string \<Rightarrow> basis_error + basis"
  e_create :: "string \<Rightarrow> basis_error option"
  e_lock_fails :: "string \<Rightarrow> bool"

section \<open>Actions\<close>

text \<open>\<open>None\<close> is an action that never returns.\<close>

type_synonym 'a act = "act_state \<Rightarrow> (stop + 'a \<times> act_state) option"

definition ret :: "'a \<Rightarrow> 'a act" where
  "ret x = (\<lambda>s. Some (Inr (x, s)))"

definition panic :: "'a act" where
  "panic = (\<lambda>s. Some (Inl Panic))"

definition diverge :: "'a act" where
  "diverge = (\<lambda>s. None)"

definition andthen :: "'a act \<Rightarrow> ('a \<Rightarrow> 'b act) \<Rightarrow> 'b act" where
  "andthen f g = (\<lambda>s. case f s of None \<Rightarrow> None | Some (Inl e) \<Rightarrow> Some (Inl e) | Some (Inr (x, s')) \<Rightarrow> g x s')"

definition modify :: "(act_state \<Rightarrow> act_state) \<Rightarrow> unit act" where
  "modify f = (\<lambda>s. Some (Inr ((), f s)))"

definition look :: "(act_state \<Rightarrow> 'a) \<Rightarrow> 'a act" where
  "look f = (\<lambda>s. Some (Inr (f s, s)))"

definition emit :: "act_out \<Rightarrow> unit act" where
  "emit x = modify (\<lambda>s. s\<lparr>a_out := a_out s @ [x]\<rparr>)"

definition asking :: "(nat \<Rightarrow> 'a) \<Rightarrow> 'a act" where
  "asking answers = (\<lambda>s. Some (Inr (answers (a_asked s), s\<lparr>a_asked := Suc (a_asked s)\<rparr>)))"

lemma andthen_mono [partial_function_mono]:
  "(\<And>x s. mono_option (\<lambda>f. g f x s)) \<Longrightarrow> mono_option (\<lambda>f. andthen h (g f) s)"
  unfolding andthen_def monotone_def by (auto split: option.split sum.split simp: flat_ord_def)

definition expect_some :: "'a option \<Rightarrow> 'a act" where
  "expect_some r = (case r of None \<Rightarrow> panic | Some x \<Rightarrow> ret x)"

section \<open>Database and lists\<close>

definition store_new :: "act_env \<Rightarrow> 'r content \<Rightarrow> 'r \<Rightarrow> (store_error + unit) act" where
  "store_new E c r = (\<lambda>s. case new_record (e_sha E) (e_stored E) c r None True (a_db s) of
     (x, p) \<Rightarrow> Some (Inr (x, s\<lparr>a_db := p\<rparr>)))"

definition store_update :: "act_env \<Rightarrow> 'r content \<Rightarrow> string \<Rightarrow> 'r \<Rightarrow> (store_error + unit) act" where
  "store_update E c key r = (\<lambda>s. case update_record (e_sha E) (e_stored E) c key r (a_db s) of
     (x, p) \<Rightarrow> Some (Inr (x, s\<lparr>a_db := p\<rparr>)))"

definition store_delete :: "'r content \<Rightarrow> string \<Rightarrow> (store_error + unit) act" where
  "store_delete c key = (\<lambda>s. case delete_record c key (a_db s) of (x, p) \<Rightarrow> Some (Inr (x, s\<lparr>a_db := p\<rparr>)))"

definition insert_item :: "vault_mode \<Rightarrow> list_item \<Rightarrow> list_item option act" where
  "insert_item m i = (\<lambda>s. case lists_insert_unique m i (a_lists s) of
     (old, ls) \<Rightarrow> Some (Inr (old, s\<lparr>a_lists := ls\<rparr>)))"

definition remove_item :: "vault_mode \<Rightarrow> list_key \<Rightarrow> list_item option act" where
  "remove_item m k = (\<lambda>s. case lists_remove m k (a_lists s) of
     (old, ls) \<Rightarrow> Some (Inr (old, s\<lparr>a_lists := ls\<rparr>)))"

definition pw_item :: "act_env \<Rightarrow> string \<Rightarrow> pw_record \<Rightarrow> list_item" where
  "pw_item E guid r = make_pw_item (e_human E) (e_label E LAuthcount) guid r"

definition report :: "store_error + unit \<Rightarrow> unit act" where
  "report x = (case x of Inl e \<Rightarrow> emit (Reported e) | Inr _ \<Rightarrow> ret ())"

text \<open>\<open>retrieve_db\<close>: the mode is read again, and the lists are loaded from the database.\<close>

definition reload :: "act_env \<Rightarrow> vault_mode \<Rightarrow> unit act" where
  "reload E m = modify (\<lambda>s. s\<lparr>a_mode_cache := m,
     a_lists := fst (retrieve_db m (e_rows E (a_db s) ''vault.totp'') (e_rows E (a_db s) ''vault.passwords'') (a_lists s))\<rparr>)"

definition activate :: "vault_mode \<Rightarrow> unit act" where
  "activate m = modify (\<lambda>s. s\<lparr>a_mode_cache := m, a_active := True\<rparr>)"

definition deactivate :: "unit act" where
  "deactivate = andthen (modify (\<lambda>s. s\<lparr>a_active := False\<rparr>)) (\<lambda>_. emit Redraw)"

text \<open>The early return of a dialogue that failed.\<close>

definition give_up :: "unit act" where
  "give_up = modify (\<lambda>s. s\<lparr>a_active := False\<rparr>)"

definition yes_no_approval :: "act_env \<Rightarrow> bool act" where
  "yes_no_approval E = andthen (asking (e_radio E)) (\<lambda>r. ret (r = Some (e_label E LYes)))"

section \<open>Creating a password for a site\<close>

datatype add_error = ErrUserSelect | ErrUserEntry | ErrEdit | ErrLength | ErrOptions | ErrSymbols | ErrCancelled
  | ErrApproval | ErrWrite store_error

definition read_usernames :: "string list act" where
  "read_usernames = (\<lambda>s. case a_users s of
     Some file \<Rightarrow> Some (Inr (file_lines file, s))
   | None \<Rightarrow> Some (Inr ([], s\<lparr>a_users := Some []\<rparr>)))"

definition write_usernames :: "string list \<Rightarrow> unit act" where
  "write_usernames us = modify (\<lambda>s. s\<lparr>a_users := Some (concat (map (\<lambda>u. u @ line_end) us))\<rparr>)"

definition choose_username :: "act_env \<Rightarrow> (add_error + string) act" where
  "choose_username E =
     andthen read_usernames (\<lambda>usernames.
     andthen (asking (e_radio E)) (\<lambda>r. case r of
       None \<Rightarrow> ret (Inl ErrUserSelect)
     | Some response \<Rightarrow>
         if response = e_label E LAddNew
         then andthen (asking (e_form E)) (\<lambda>f. case f of
                None \<Rightarrow> ret (Inl ErrUserEntry)
              | Some content \<Rightarrow>
                  andthen (write_usernames (usernames @ [content 0])) (\<lambda>_. ret (Inr (content 0))))
         else ret (Inr response)))"

definition draw_password :: "act_env \<Rightarrow> gen_config \<Rightarrow> string act" where
  "draw_password E c = (\<lambda>s.
     case generate (to_pools c) True (e_picks E (a_drawn s) (to_pools c) (gc_length c)) of
       None \<Rightarrow> None
     | Some p \<Rightarrow> Some (Inr (p, s\<lparr>a_drawn := Suc (a_drawn s)\<rparr>)))"

text \<open>The checked options, in the order of the comparisons.\<close>

definition option_of :: "act_env \<Rightarrow> string \<Rightarrow> gen_option option" where
  "option_of E x =
     (if x = e_label E LLowercase then Some OptLower
      else if x = e_label E LUppercase then Some OptUpper
      else if x = e_label E LNumbers then Some OptNumbers
      else if x = e_label E LSymbols then Some OptSymbols
      else if x = e_label E LCustomize then Some OptCustomize
      else None)"

definition configure_dialog :: "act_env \<Rightarrow> gen_config \<Rightarrow> (add_error + gen_config \<times> bool) act" where
  "configure_dialog E c =
     andthen (asking (e_form E)) (\<lambda>f. case f of
       None \<Rightarrow> ret (Inl ErrLength)
     | Some content \<Rightarrow>
     andthen (asking (e_checks E)) (\<lambda>o1. case o1 of
       None \<Rightarrow> ret (Inl ErrOptions)
     | Some names \<Rightarrow>
         let checked = List.map_filter (option_of E) names
         in if OptCustomize \<in> set checked
            then andthen (asking (e_checks E)) (\<lambda>o2. case o2 of
                   None \<Rightarrow> ret (Inl ErrSymbols)
                 | Some new_states \<Rightarrow>
                     ret (Inr (configure (content 0) checked (filter (\<lambda>c. [c] \<in> set new_states) SYMBOLS_ALL) c)))
            else ret (Inr (configure (content 0) checked [] c))))"

text \<open>The loop: \<open>pw\<close> is the password shown, \<open>md\<close> whether the configuration is to be saved.  It ends with
  the password, whether it is to be typed, and the configuration.\<close>

partial_function (option) password_dialog ::
  "act_env \<Rightarrow> gen_config \<Rightarrow> bool \<Rightarrow> string option \<Rightarrow> (add_error + string \<times> bool \<times> gen_config \<times> bool) act" where
  "password_dialog E c md pw s =
     andthen (case pw of None \<Rightarrow> draw_password E c | Some p \<Rightarrow> ret p) (\<lambda>p.
     andthen (asking (e_radio E)) (\<lambda>r s. case r of
       None \<Rightarrow> ret (Inl ErrApproval) s
     | Some response \<Rightarrow>
         if response = ''Save and type'' then ret (Inr (p, True, c, md)) s
         else if response = ''Save and close'' then ret (Inr (p, False, c, md)) s
         else if response = e_label E LEdit
         then andthen (asking (e_form E)) (\<lambda>f s. case f of
                None \<Rightarrow> ret (Inl ErrEdit) s
              | Some content \<Rightarrow>
                  if length (content 0) > 0 then password_dialog E c md (Some (content 0)) s
                  else andthen (draw_password E c) (\<lambda>p s. password_dialog E c md (Some p) s) s) s
         else if response = e_label E LConfigure
         then andthen (configure_dialog E c) (\<lambda>r s. case r of
                Inl e \<Rightarrow> ret (Inl e) s
              | Inr (c', md') \<Rightarrow> password_dialog E c' md' None s) s
         else ret (Inl ErrCancelled) s)) s"

definition read_generator :: "(gen_config \<times> bool) act" where
  "read_generator = look (\<lambda>s. case a_generator s of
     Some file \<Rightarrow> (gc_deserialize file, False) | None \<Rightarrow> (gc_default, True))"

definition add_save ::
  "act_env \<Rightarrow> string \<Rightarrow> string \<Rightarrow> string \<Rightarrow> bool \<Rightarrow> gen_config \<Rightarrow> bool \<Rightarrow> (add_error + string option) act" where
  "add_save E url username pw transmit c md =
     (let record = \<lparr>p_version = 1, p_description = url, p_username = username, p_password = pw,
                    p_notes = e_label E LNotes, p_ctime = e_now E, p_atime = e_now E, p_count = 1\<rparr>
      in andthen (store_new E pw_content record) (\<lambda>x. case x of
           Inl e \<Rightarrow> ret (Inl (ErrWrite e))
         | Inr _ \<Rightarrow>
         andthen (look a_mode_cache) (\<lambda>m.
         andthen (insert_item m (pw_item E (key_of (e_sha E) pw_content record) record)) (\<lambda>_.
         andthen (if md then modify (\<lambda>s. s\<lparr>a_generator := Some (gc_serialize c)\<rparr>) else ret ()) (\<lambda>_.
         ret (Inr (if transmit then Some pw else None)))))))"

definition add_password :: "act_env \<Rightarrow> string \<Rightarrow> (add_error + string option) act" where
  "add_password E url =
     andthen (choose_username E) (\<lambda>u. case u of
       Inl e \<Rightarrow> ret (Inl e)
     | Inr username \<Rightarrow>
     andthen read_generator (\<lambda>(c0, md0).
     andthen (password_dialog E c0 md0 None) (\<lambda>r. case r of
       Inl e \<Rightarrow> ret (Inl e)
     | Inr (pw, transmit, c, md) \<Rightarrow> add_save E url username pw transmit c md)))"

section \<open>The menus\<close>

text \<open>The classes checked, asked again until there is one; \<open>None\<close> is a failed dialogue.\<close>

definition classes_of :: "act_env \<Rightarrow> string list \<Rightarrow> bool \<times> bool \<times> bool \<times> bool" where
  "classes_of E names =
     (e_label E LLowercase \<in> set names, e_label E LUppercase \<in> set names,
      e_label E LNumbers \<in> set names, e_label E LSymbols \<in> set names)"

partial_function (option) choose_classes :: "act_env \<Rightarrow> (bool \<times> bool \<times> bool \<times> bool) option act" where
  "choose_classes E s =
     andthen (asking (e_checks E)) (\<lambda>o1 s. case o1 of
       None \<Rightarrow> ret None s
     | Some names \<Rightarrow>
         (if classes_of E names = (False, False, False, False)
          then andthen (emit (Notice LNothingSelected)) (\<lambda>_ s. choose_classes E s) s
          else ret (Some (classes_of E names)) s)) s"

definition default_settings :: pg_settings where
  "default_settings = \<lparr>pg_length = 20, pg_numbers = True, pg_lower = True, pg_upper = True, pg_symbols = True,
     pg_exclude_similar = True\<rparr>"

definition generate_one :: "act_env \<Rightarrow> pg_settings \<Rightarrow> string act" where
  "generate_one E g =
     andthen (look a_drawn) (\<lambda>k.
     andthen (modify (\<lambda>s. s\<lparr>a_drawn := Suc k\<rparr>)) (\<lambda>_. expect_some (e_pg E k g)))"

definition regenerate :: "act_env \<Rightarrow> string option act" where
  "regenerate E =
     andthen (asking (e_form E)) (\<lambda>f. case f of
       None \<Rightarrow> ret None
     | Some content \<Rightarrow>
     andthen (expect_some (from_str_radix 10 u32_max (content 0))) (\<lambda>len.
     andthen (choose_classes E) (\<lambda>c. case c of
       None \<Rightarrow> ret None
     | Some (lower, upper, number, symbol) \<Rightarrow>
         andthen (generate_one E \<lparr>pg_length = len, pg_numbers = number, pg_lower = lower, pg_upper = upper,
                                  pg_symbols = symbol, pg_exclude_similar = upper \<or> lower\<rparr>) (\<lambda>p. ret (Some p)))))"

text \<open>The loop that has the password approved, with \<open>words\<close> when a seed phrase may be entered; the
  flag of a result says that one was.\<close>

partial_function (option) approve_password :: "act_env \<Rightarrow> bool \<Rightarrow> string \<Rightarrow> (string \<times> bool) option act" where
  "approve_password E words p s =
     andthen (asking (e_form E)) (\<lambda>f s. case f of
       None \<Rightarrow> ret None s
     | Some content \<Rightarrow>
         (if length (content 0) = 0
          then andthen (regenerate E) (\<lambda>r s. case r of
                 None \<Rightarrow> ret None s
               | Some p' \<Rightarrow> approve_password E words p' s) s
          else if words \<and> content 0 = ''bip39''
          then andthen (asking (e_bip39 E)) (\<lambda>b.
                 ret (Some (case b of Some data \<Rightarrow> e_hex_encode E data | None \<Rightarrow> [], True))) s
          else ret (Some (content 0, False)) s)) s"

text \<open>A new entry is listed also when storing it was reported to have failed.\<close>

definition add_login :: "act_env \<Rightarrow> unit act" where
  "add_login E =
     andthen (asking (e_form E)) (\<lambda>f. case f of None \<Rightarrow> give_up | Some description \<Rightarrow>
     andthen (asking (e_form E)) (\<lambda>f. case f of None \<Rightarrow> give_up | Some username \<Rightarrow>
     andthen (generate_one E default_settings) (\<lambda>p.
     andthen (approve_password E True p) (\<lambda>r. case r of None \<Rightarrow> give_up | Some (password, bip39) \<Rightarrow>
       let record = \<lparr>p_version = 1, p_description = description 0, p_username = username 0,
                     p_password = password, p_notes = (if bip39 then ''bip39'' else e_label E LNotes),
                     p_ctime = 0, p_atime = 0, p_count = 0\<rparr>
       in andthen (store_new E pw_content record) (\<lambda>x.
          andthen (report x) (\<lambda>_.
          andthen (look a_mode_cache) (\<lambda>m.
          andthen (insert_item m (pw_item E (key_of (e_sha E) pw_content record) record)) (\<lambda>_. ret ()))))))))"

definition decode_secret :: "act_env \<Rightarrow> string \<Rightarrow> bytes" where
  "decode_secret E ss =
     (case e_b32_decode E (Rfc4648 False) ss of Some b \<Rightarrow> b | None \<Rightarrow>
     (case e_b32_decode E (Rfc4648 True) ss of Some b \<Rightarrow> b | None \<Rightarrow>
     (case e_b32_decode E Crockford ss of Some b \<Rightarrow> b | None \<Rightarrow> [])))"

definition totp_ss_valid :: "act_env \<Rightarrow> string \<Rightarrow> bool" where
  "totp_ss_valid E input =
     (let ss = to_upper input
      in case e_b32_decode E (Rfc4648 False) ss of Some b \<Rightarrow> length b > 0 | None \<Rightarrow>
        (case e_b32_decode E (Rfc4648 True) ss of Some b \<Rightarrow> length b > 0 | None \<Rightarrow>
        (case e_b32_decode E Crockford ss of Some b \<Rightarrow> length b > 0 | None \<Rightarrow> False)))"

definition add_totp :: "act_env \<Rightarrow> unit act" where
  "add_totp E =
     andthen (asking (e_form E)) (\<lambda>f. case f of None \<Rightarrow> give_up | Some description \<Rightarrow>
     andthen (asking (e_radio E)) (\<lambda>r. case r of None \<Rightarrow> give_up | Some response \<Rightarrow>
     andthen (asking (e_form E)) (\<lambda>f. case f of None \<Rightarrow> give_up | Some secret \<Rightarrow>
       let is_totp = (response = e_label E LTotp);
           validated = e_b32_encode E (Rfc4648 False) (decode_secret E (to_upper (secret 0)))
       in andthen (if is_totp then ret (Some 30)
                   else andthen (asking (e_form E)) (\<lambda>f. case f of
                          None \<Rightarrow> ret None
                        | Some content \<Rightarrow>
                            andthen (expect_some (from_str_radix 10 u64_max (content 0))) (\<lambda>n. ret (Some n))))
          (\<lambda>t. case t of None \<Rightarrow> give_up | Some timestep \<Rightarrow>
            let record = \<lparr>t_version = 1, t_secret = validated, t_name = description 0, t_algorithm = HmacSha1,
                          t_notes = e_label E LNotes, t_digits = 6, t_timestep = word_of_nat timestep,
                          t_ctime = 0, t_is_hotp = (\<not> is_totp)\<rparr>
            in andthen (store_new E totp_content record) (\<lambda>x.
               andthen (report x) (\<lambda>_.
               andthen (look a_mode_cache) (\<lambda>m.
               andthen (insert_item m (make_totp_item (key_of (e_sha E) totp_content record) record))
                 (\<lambda>_. ret ()))))))))"

definition menu_addnew :: "act_env \<Rightarrow> unit act" where
  "menu_addnew E = andthen (look a_mode_cache) (\<lambda>m.
     if m = Password then add_login E else if m = Totp then add_totp E else ret ())"

record selected_entry =
  se_guid :: string
  se_description :: string
  se_mode :: vault_mode

definition fetch_pw :: "string \<Rightarrow> (store_error + pw_record) act" where
  "fetch_pw guid = look (\<lambda>s. get_record pw_content guid (a_db s))"

definition pw_list_key :: "string \<Rightarrow> pw_record \<Rightarrow> list_key" where
  "pw_list_key guid pw = key_from_parts (make_pw_name (p_description pw) (p_username pw)) guid"

definition finish_delete :: "'r content \<Rightarrow> string \<Rightarrow> unit act" where
  "finish_delete c guid =
     andthen (store_delete c guid) (\<lambda>x. case x of Inr _ \<Rightarrow> emit (Notice LCompleted) | Inl e \<Rightarrow> emit (Reported e))"

definition menu_delete :: "act_env \<Rightarrow> selected_entry \<Rightarrow> unit act" where
  "menu_delete E sel =
     andthen (yes_no_approval E) (\<lambda>yes.
       if \<not> yes then ret ()
       else if se_mode sel = Password then
         andthen (fetch_pw (se_guid sel)) (\<lambda>r. case r of
           Inl e \<Rightarrow> emit (Reported e)
         | Inr pw \<Rightarrow>
             andthen (remove_item (se_mode sel) (pw_list_key (se_guid sel) pw)) (\<lambda>old.
               if old = None then panic else finish_delete pw_content (se_guid sel)))
       else if se_mode sel = Totp then finish_delete totp_content (se_guid sel)
       else ret ())"

definition update_db_entry :: "act_env \<Rightarrow> selected_entry \<Rightarrow> unit act" where
  "update_db_entry E sel =
     (if se_mode sel = Password
      then andthen (fetch_pw (se_guid sel)) (\<lambda>r. case r of
             Inl e \<Rightarrow> emit (Reported e)
           | Inr pw \<Rightarrow> andthen (insert_item (se_mode sel) (pw_item E (se_guid sel) pw)) (\<lambda>old.
               if old = None then panic else ret ()))
      else ret ())"

definition edited_totp :: "(nat \<Rightarrow> string) \<Rightarrow> totp_record \<Rightarrow> totp_record" where
  "edited_totp f r =
     r\<lparr>t_name := f 0, t_secret := f 1, t_notes := f 2, t_is_hotp := (to_upper (f 6) = ''HOTP''),
       t_timestep := (case from_str_radix 10 u64_max (f 3) of Some t \<Rightarrow> word_of_nat t | None \<Rightarrow> t_timestep r),
       t_algorithm := (case alg_try_from (f 4) of Some a \<Rightarrow> a | None \<Rightarrow> t_algorithm r),
       t_digits := (case from_str_radix 10 u32_max (f 5) of Some d \<Rightarrow> word_of_nat d | None \<Rightarrow> t_digits r)\<rparr>"

definition edit_totp :: "act_env \<Rightarrow> string \<Rightarrow> unit act" where
  "edit_totp E guid =
     andthen (look (\<lambda>s. get_record totp_content guid (a_db s))) (\<lambda>r. case r of
       Inl e \<Rightarrow> emit (Reported e)
     | Inr r0 \<Rightarrow>
     andthen (asking (e_form E)) (\<lambda>f.
     andthen (expect_some f) (\<lambda>content.
       let pw = edited_totp content r0
       in andthen (store_update E totp_content guid pw) (\<lambda>x. case x of
            Inl e \<Rightarrow> emit (Reported e)
          | Inr _ \<Rightarrow> andthen (look a_mode_cache) (\<lambda>m.
              andthen (insert_item m (make_totp_item guid pw)) (\<lambda>_. ret ()))))))"

definition is_bip39 :: "string \<Rightarrow> bool" where
  "is_bip39 notes \<longleftrightarrow> starts_with ''bip39'' (to_lower notes)"

text \<open>The password of an edited record: entered or shown as a seed phrase, generated when it was left
  empty, or as it was entered.  \<open>None\<close> is a failed dialogue.\<close>

definition edited_password :: "act_env \<Rightarrow> string \<Rightarrow> string \<Rightarrow> string option act" where
  "edited_password E notes password =
     (if is_bip39 notes
      then if length password = 0
           then andthen (asking (e_bip39 E)) (\<lambda>b.
                  ret (Some (case b of Some data \<Rightarrow> e_hex_encode E data | None \<Rightarrow> [])))
           else (case e_hex_decode E password of
                   Some data \<Rightarrow> andthen (emit (ShowWords data)) (\<lambda>_. ret (Some password))
                 | None \<Rightarrow> andthen (emit (Notice LBip39Error)) (\<lambda>_. ret (Some password)))
      else if length password = 0
      then andthen (generate_one E default_settings) (\<lambda>p.
           andthen (approve_password E False p) (\<lambda>r. ret (map_option fst r)))
      else ret (Some password))"

definition edit_login :: "act_env \<Rightarrow> string \<Rightarrow> unit act" where
  "edit_login E guid =
     andthen (fetch_pw guid) (\<lambda>r. case r of
       Inl e \<Rightarrow> emit (Reported e)
     | Inr r0 \<Rightarrow>
     andthen (remove_item Password (pw_list_key guid r0)) (\<lambda>old. if old = None then panic else
     andthen (asking (e_form E)) (\<lambda>f.
     andthen (expect_some f) (\<lambda>content.
     andthen (edited_password E (content 3) (content 2)) (\<lambda>p. case p of None \<Rightarrow> give_up | Some password \<Rightarrow>
       let pw = r0\<lparr>p_description := content 0, p_username := content 1, p_password := password,
                  p_notes := content 3, p_count := p_count r0 + 1, p_atime := e_now E\<rparr>
       in andthen (store_update E pw_content guid pw) (\<lambda>x. case x of
            Inl e \<Rightarrow> emit (Reported e)
          | Inr _ \<Rightarrow> andthen (look a_mode_cache) (\<lambda>m.
              andthen (insert_item m (pw_item E (key_of (e_sha E) pw_content pw) pw)) (\<lambda>_. ret ()))))))))"

definition menu_edit :: "act_env \<Rightarrow> selected_entry \<Rightarrow> unit act" where
  "menu_edit E sel =
     (if se_mode sel = Password then edit_login E (se_guid sel)
      else if se_mode sel = Totp then edit_totp E (se_guid sel)
      else ret ())"

section \<open>Bases\<close>

text \<open>The database lists its open bases; a basis opened last is searched first.\<close>

definition clear_lists :: "unit act" where
  "clear_lists = modify (\<lambda>s. s\<lparr>a_lists := lists_clear_all (a_lists s)\<rparr>)"

definition get_pin_key :: "act_env \<Rightarrow> unit act" where
  "get_pin_key E = (if e_pin_set E then ret () else panic)"

definition open_named :: "act_env \<Rightarrow> string \<Rightarrow> unit act" where
  "open_named E name =
     andthen (get_pin_key E) (\<lambda>_. case e_unlock E name of
       Inr ds \<Rightarrow> andthen (modify (\<lambda>s. s\<lparr>a_db := (name, ds) # a_db s\<rparr>)) (\<lambda>_. clear_lists)
     | Inl PermissionDenied \<Rightarrow> emit (Notice LUnlockError)
     | Inl _ \<Rightarrow> emit BasisError)"

definition unlock_basis :: "act_env \<Rightarrow> unit act" where
  "unlock_basis E = open_named E ''deniable''"

fun close_all :: "act_env \<Rightarrow> string list \<Rightarrow> unit act" where
  "close_all E [] = ret ()"
| "close_all E (b # bs) =
     andthen (if e_lock_fails E b then emit BasisError
              else andthen (modify (\<lambda>s. s\<lparr>a_db := filter (\<lambda>(n, _). n \<noteq> b) (a_db s)\<rparr>)) (\<lambda>_. clear_lists))
       (\<lambda>_. close_all E bs)"

definition manage_basis :: "act_env \<Rightarrow> unit act" where
  "manage_basis E =
     andthen (look (\<lambda>s. filter (\<lambda>n. n \<noteq> ''.System'') (map fst (a_db s)))) (\<lambda>bases.
       if length bases > 0
       then andthen (asking (e_checks E)) (\<lambda>o1. case o1 of
              None \<Rightarrow> emit BasisError
            | Some unmount \<Rightarrow> close_all E unmount)
       else andthen (yes_no_approval E) (\<lambda>yes. if \<not> yes then ret () else
            andthen (asking (e_form E)) (\<lambda>f. case f of
              None \<Rightarrow> emit BasisError
            | Some content \<Rightarrow>
            andthen (get_pin_key E) (\<lambda>_. case e_create E (content 0) of
              None \<Rightarrow> andthen (yes_no_approval E) (\<lambda>mount. if mount then open_named E (content 0) else ret ())
            | Some AlreadyExists \<Rightarrow> emit (Notice LAlreadyExists)
            | Some _ \<Rightarrow> emit BasisError))))"

section \<open>Scanned codes\<close>

text \<open>What the camera reports: a failure, nothing, or the contents of a code.\<close>

datatype scan = ScanFailed | NoCode | Code string

fun find_sub :: "string \<Rightarrow> string \<Rightarrow> nat option" where
  "find_sub p [] = (if starts_with p [] then Some 0 else None)"
| "find_sub p (c # cs) = (if starts_with p (c # cs) then Some 0 else map_option Suc (find_sub p cs))"

fun rfind_sub :: "string \<Rightarrow> string \<Rightarrow> nat option" where
  "rfind_sub p [] = (if starts_with p [] then Some 0 else None)"
| "rfind_sub p (c # cs) =
     (case rfind_sub p cs of Some i \<Rightarrow> Some (Suc i)
      | None \<Rightarrow> if starts_with p (c # cs) then Some 0 else None)"

definition split_at :: "string \<Rightarrow> string \<Rightarrow> (string \<times> string) option" where
  "split_at p s = map_option (\<lambda>i. (take i s, drop (i + length p) s)) (find_sub p s)"

definition increment_pw_usage :: "act_env \<Rightarrow> string \<Rightarrow> pw_record \<Rightarrow> unit act" where
  "increment_pw_usage E guid pw =
     andthen (store_update E pw_content guid (pw\<lparr>p_count := p_count pw + 1, p_atime := e_now E\<rparr>)) (\<lambda>x.
       case x of Inl _ \<Rightarrow> panic | Inr _ \<Rightarrow> ret ())"

definition expect_pw :: "string \<Rightarrow> pw_record act" where
  "expect_pw guid = andthen (fetch_pw guid) (\<lambda>r. case r of Inl _ \<Rightarrow> panic | Inr pw \<Rightarrow> ret pw)"

definition type_and_count :: "act_env \<Rightarrow> string \<Rightarrow> pw_record \<Rightarrow> unit act" where
  "type_and_count E guid pw = andthen (emit (Typed (p_password pw))) (\<lambda>_. increment_pw_usage E guid pw)"

definition site_matches :: "string \<Rightarrow> item_lists \<Rightarrow> list_item list" where
  "site_matches url ls =
     (let exact = find_by_name url (li Password ls)
      in if length exact = 0
         then exact @ find_by_name (if starts_with ''www.'' url then drop 4 url else url) (li Password ls)
         else exact)"

definition login_to :: "act_env \<Rightarrow> string \<Rightarrow> unit act" where
  "login_to E url =
     andthen (look (\<lambda>s. site_matches url (a_lists s))) (\<lambda>ms.
       if length ms = 0 then
         andthen (add_password E url) (\<lambda>r. case r of
           Inr (Some pw) \<Rightarrow> emit (Typed pw) | Inr None \<Rightarrow> ret () | Inl _ \<Rightarrow> ret ())
       else if length ms = 1 then
         andthen (expect_pw (item_guid (ms ! 0))) (\<lambda>pw.
         andthen (yes_no_approval E) (\<lambda>yes. if yes then type_and_count E (item_guid (ms ! 0)) pw else ret ()))
       else
         andthen (asking (e_radio E)) (\<lambda>r. case r of
           None \<Rightarrow> ret ()
         | Some response \<Rightarrow>
             if response = e_label E LCancel then ret ()
             else (case find (\<lambda>i. item_extra i = response) ms of
                     None \<Rightarrow> ret ()
                   | Some i \<Rightarrow> andthen (expect_pw (item_guid i)) (type_and_count E (item_guid i)))))"

definition forwarded :: "vault_mode \<Rightarrow> bool" where
  "forwarded m = (case m of GeneScan \<Rightarrow> True | ResponseGene _ \<Rightarrow> True | Idle \<Rightarrow> True | IdleDevMode \<Rightarrow> True
     | FactoryTest \<Rightarrow> True | StandAloneTest \<Rightarrow> True | ShowKey _ \<Rightarrow> True | _ \<Rightarrow> False)"

definition scan_otpauth :: "act_env \<Rightarrow> string \<Rightarrow> unit act" where
  "scan_otpauth E data =
     (case from_uri data of
        Inl _ \<Rightarrow> emit (Notice LQrError)
      | Inr totp \<Rightarrow>
          andthen (store_new E totp_content totp) (\<lambda>x.
          andthen (report x) (\<lambda>_.
          andthen (look a_mode_cache) (\<lambda>m.
          andthen (insert_item m (make_totp_item (key_of (e_sha E) totp_content totp) totp)) (\<lambda>_. ret ())))))"

definition scan_pwauth :: "act_env \<Rightarrow> vault_mode \<Rightarrow> string \<Rightarrow> unit act" where
  "scan_pwauth E m data =
     (case split_once CHR ''/'' data of
        None \<Rightarrow> ret ()
      | Some (op_type, rest) \<Rightarrow>
          if op_type = ''pass'' then
            (case rfind_sub ''?time='' rest of
               None \<Rightarrow> ret ()
             | Some i \<Rightarrow>
                 andthen (emit (SetTime (drop (i + 6) rest))) (\<lambda>_.
                   if m \<noteq> Password then ret () else login_to E (take i rest)))
          else ret ())"

definition acquire_qr :: "act_env \<Rightarrow> vault_mode \<Rightarrow> scan \<Rightarrow> unit act" where
  "acquire_qr E m sc =
     (case sc of
        ScanFailed \<Rightarrow> ret ()
      | NoCode \<Rightarrow> emit AbortScan
      | Code uri \<Rightarrow>
          if forwarded m then emit (Forward uri)
          else (case split_at ''://'' uri of
                  None \<Rightarrow> ret ()
                | Some (request, data) \<Rightarrow>
                    if request = ''otpauth'' then scan_otpauth E data
                    else if request = ''pwauth'' then scan_pwauth E m data
                    else if request = ''time'' then emit (SetTime data)
                    else emit (Notice LQrUnrecognized)))"

section \<open>Messages\<close>

datatype action_op = MenuAddnew | MenuEditStage2 selected_entry | MenuDeleteStage2 selected_entry
  | MenuUnlockBasis | MenuManageBasis | MenuClose | UpdateMode | UpdateOneItem selected_entry | ReloadDb
  | Quit | AcquireQr scan

text \<open>\<open>m\<close> is the mode of the vault when the message arrives.  The result says whether the loop goes on.\<close>

definition clear_passwords :: "unit act" where
  "clear_passwords = modify (\<lambda>s. s\<lparr>a_lists := li_update Password view_clear (a_lists s)\<rparr>)"

definition active :: "vault_mode \<Rightarrow> unit act \<Rightarrow> bool act" where
  "active m f = andthen (activate m) (\<lambda>_. andthen f (\<lambda>_. andthen deactivate (\<lambda>_. ret True)))"

definition check_lists :: "act_env \<Rightarrow> vault_mode \<Rightarrow> unit act" where
  "check_lists E m =
     andthen (modify (\<lambda>s. s\<lparr>a_mode_cache := m\<rparr>)) (\<lambda>_.
     andthen (look (\<lambda>s. is_db_empty (li m (a_lists s)))) (\<lambda>e. if e then reload E m else ret ()))"

fun action_step :: "act_env \<Rightarrow> vault_mode \<Rightarrow> action_op \<Rightarrow> bool act" where
  "action_step E m MenuAddnew = active m (menu_addnew E)"
| "action_step E m (MenuDeleteStage2 sel) = active m (andthen (menu_delete E sel) (\<lambda>_. reload E m))"
| "action_step E m (MenuEditStage2 sel) = active m (andthen (menu_edit E sel) (\<lambda>_. update_db_entry E sel))"
| "action_step E m MenuUnlockBasis =
     active m (andthen (unlock_basis E) (\<lambda>_. andthen clear_passwords (\<lambda>_. reload E m)))"
| "action_step E m MenuManageBasis =
     active m (andthen (manage_basis E) (\<lambda>_. andthen clear_passwords (\<lambda>_. reload E m)))"
| "action_step E m MenuClose = active m (ret ())"
| "action_step E m (UpdateOneItem sel) = active m (update_db_entry E sel)"
| "action_step E m UpdateMode = andthen (check_lists E m) (\<lambda>_. ret True)"
| "action_step E m ReloadDb = andthen (reload E m) (\<lambda>_. ret True)"
| "action_step E m (AcquireQr sc) = andthen (acquire_qr E m sc) (\<lambda>_. andthen (reload E m) (\<lambda>_. ret True))"
| "action_step E m Quit = ret False"

fun action_run :: "(act_env \<times> vault_mode \<times> action_op) list \<Rightarrow> unit act" where
  "action_run [] = ret ()"
| "action_run ((E, m, op1) # rest) = andthen (action_step E m op1) (\<lambda>go. if go then action_run rest else ret ())"

section \<open>Invariants of actions\<close>

definition preserves :: "(act_state \<Rightarrow> bool) \<Rightarrow> 'a act \<Rightarrow> bool" where
  "preserves P f \<longleftrightarrow> (\<forall>s x s'. P s \<longrightarrow> f s = Some (Inr (x, s')) \<longrightarrow> P s')"

named_theorems preserved \<open>how actions preserve a predicate on the state\<close>

lemma preserves_basic [preserved]:
  "preserves P (ret x)" "preserves P panic" "preserves P (look g)" "preserves P (expect_some r)"
  "(\<And>s. P s \<Longrightarrow> P (f s)) \<Longrightarrow> preserves P (modify f)"
  by (auto simp: preserves_def ret_def panic_def look_def modify_def expect_some_def split: option.splits)

lemma andthen_Some:
  "andthen f g s = Some (Inr (y, s')) \<longleftrightarrow> (\<exists>x s1. f s = Some (Inr (x, s1)) \<and> g x s1 = Some (Inr (y, s')))"
  by (auto simp: andthen_def split: option.split sum.split)

lemma preserves_andthen [preserved]:
  "preserves P f \<Longrightarrow> (\<And>x. preserves P (g x)) \<Longrightarrow> preserves P (andthen f g)"
  unfolding preserves_def andthen_Some by blast

lemma preserves_if [preserved]:
  "(c \<Longrightarrow> preserves P f) \<Longrightarrow> (\<not> c \<Longrightarrow> preserves P g) \<Longrightarrow> preserves P (if c then f else g)"
  "(c \<Longrightarrow> preserves P f) \<Longrightarrow> (\<not> c \<Longrightarrow> preserves P g) \<Longrightarrow> preserves P (\<lambda>s. if c then f s else g s)"
  by (cases c; simp)+

lemma preserves_option [preserved]:
  "preserves P f \<Longrightarrow> (\<And>x. preserves P (g x)) \<Longrightarrow> preserves P (case r of None \<Rightarrow> f | Some x \<Rightarrow> g x)"
  "preserves P f \<Longrightarrow> (\<And>x. preserves P (g x)) \<Longrightarrow> preserves P (\<lambda>s. case r of None \<Rightarrow> f s | Some x \<Rightarrow> g x s)"
  by (cases r; simp)+

lemma preserves_sum [preserved]:
  "(\<And>x. preserves P (f x)) \<Longrightarrow> (\<And>x. preserves P (g x)) \<Longrightarrow> preserves P (case r of Inl x \<Rightarrow> f x | Inr x \<Rightarrow> g x)"
  "(\<And>x. preserves P (f x)) \<Longrightarrow> (\<And>x. preserves P (g x)) \<Longrightarrow> preserves P (\<lambda>s. case r of Inl x \<Rightarrow> f x s | Inr x \<Rightarrow> g x s)"
  by (cases r; simp)+

lemma preserves_prod [preserved]:
  "(\<And>x y. preserves P (f x y)) \<Longrightarrow> preserves P (case r of (x, y) \<Rightarrow> f x y)"
  "(\<And>x y. preserves P (f x y)) \<Longrightarrow> preserves P (\<lambda>s. case r of (x, y) \<Rightarrow> f x y s)"
  by (cases r; simp)+

lemma preserves_basis_error [preserved]:
  "preserves P f \<Longrightarrow> preserves P g \<Longrightarrow> preserves P h \<Longrightarrow>
   preserves P (case e of PermissionDenied \<Rightarrow> f | AlreadyExists \<Rightarrow> g | OtherBasisError \<Rightarrow> h)"
  by (cases e) simp_all

lemma preserves_Let [preserved]: "preserves P (f x) \<Longrightarrow> preserves P (Let x f)"
  by simp

text \<open>The loops: every round that returns preserves what its parts preserve.\<close>

definition ok_result :: "(act_state \<Rightarrow> bool) \<Rightarrow> act_state \<Rightarrow> stop + 'a \<times> act_state \<Rightarrow> bool" where
  "ok_result P s r \<longleftrightarrow> (P s \<longrightarrow> (\<forall>x s'. r = Inr (x, s') \<longrightarrow> P s'))"

lemma preserves_ok: "preserves P f \<longleftrightarrow> (\<forall>s r. f s = Some r \<longrightarrow> ok_result P s r)"
  by (auto simp: preserves_def ok_result_def)

lemma ok_andthen: "andthen f g s = Some r \<Longrightarrow> preserves P (andthen f g) \<Longrightarrow> ok_result P s r"
  by (simp add: preserves_ok)

text \<open>What a predicate needs for the dialogues to preserve it: it does not look at what they change.\<close>

locale dialogue_invariant =
  fixes P :: "act_state \<Rightarrow> bool"
  assumes asked: "P s \<Longrightarrow> P (s\<lparr>a_asked := n\<rparr>)"
    and drawn: "P s \<Longrightarrow> P (s\<lparr>a_drawn := n\<rparr>)"
    and users: "P s \<Longrightarrow> P (s\<lparr>a_users := file\<rparr>)"
    and inactive: "P s \<Longrightarrow> P (s\<lparr>a_active := b\<rparr>)"
    and noticed: "P s \<Longrightarrow> P (s\<lparr>a_out := a_out s @ [Notice l]\<rparr>)"
    and shown: "P s \<Longrightarrow> P (s\<lparr>a_out := a_out s @ [ShowWords w]\<rparr>)"
begin

lemma preserves_asking [preserved]: "preserves P (asking a)"
  by (auto simp: preserves_def asking_def asked)

lemma preserves_draw [preserved]: "preserves P (draw_password E c)"
  by (auto simp: preserves_def draw_password_def drawn split: option.splits)

lemma preserves_modify [preserved]:
  "preserves P (emit (Notice l))" "preserves P (emit (ShowWords w))" "preserves P give_up"
  "preserves P (modify (\<lambda>s. s\<lparr>a_drawn := n\<rparr>))"
  by (auto simp: preserves_def modify_def emit_def give_up_def drawn inactive noticed shown)

lemma preserves_generate_one [preserved]: "preserves P (generate_one E g)"
  unfolding generate_one_def by (intro preserves_andthen preserves_basic(3,4) preserves_modify)

lemma preserves_usernames [preserved]: "preserves P read_usernames" "preserves P (write_usernames us)"
  by (auto simp: preserves_def read_usernames_def write_usernames_def modify_def users split: option.splits)

lemma preserves_choose_username [preserved]: "preserves P (choose_username E)"
  unfolding choose_username_def by (intro preserved)

lemma preserves_configure [preserved]: "preserves P (configure_dialog E c)"
  unfolding configure_dialog_def by (intro preserved)

lemma preserves_yes_no [preserved]: "preserves P (yes_no_approval E)"
  unfolding yes_no_approval_def by (intro preserved)

lemma preserves_password_dialog [preserved]:
  "preserves P (password_dialog E c md pw)"
  unfolding preserves_ok
proof (intro allI impI)
  fix s r
  assume "password_dialog E c md pw s = Some r"
  then show "ok_result P s r"
  proof (rule password_dialog.raw_induct [where P = "\<lambda>_ _ _ _ s r. ok_result P s r", rotated], goal_cases)
    case (1 f E c md pw s r)
    have "preserves P (f E c md pw)" for E c md pw using 1(1) by (auto simp: preserves_ok)
    then show ?case by (intro ok_andthen [OF 1(2)] preserved)
  qed
qed

lemma preserves_choose_classes [preserved]:
  "preserves P (choose_classes E)"
  unfolding preserves_ok
proof (intro allI impI)
  fix s r
  assume "choose_classes E s = Some r"
  then show "ok_result P s r"
  proof (rule choose_classes.raw_induct [where P = "\<lambda>_ s r. ok_result P s r", rotated], goal_cases)
    case (1 f E s r)
    have "preserves P (f E)" for E using 1(1) by (auto simp: preserves_ok)
    then show ?case by (intro ok_andthen [OF 1(2)] preserved)
  qed
qed

lemma preserves_regenerate [preserved]: "preserves P (regenerate E)"
  unfolding regenerate_def by (intro preserved)

lemma preserves_approve_password [preserved]:
  "preserves P (approve_password E words p)"
  unfolding preserves_ok
proof (intro allI impI)
  fix s r
  assume "approve_password E words p s = Some r"
  then show "ok_result P s r"
  proof (rule approve_password.raw_induct [where P = "\<lambda>_ _ _ s r. ok_result P s r", rotated], goal_cases)
    case (1 f E words p s r)
    have "preserves P (f E words p)" for E words p using 1(1) by (auto simp: preserves_ok)
    then show ?case by (intro ok_andthen [OF 1(2)] preserved)
  qed
qed

end

section \<open>Running actions\<close>

named_theorems runs \<open>what an action does in a given state\<close>

lemma run_basic [runs]:
  "ret x s = Some (Inr (x, s))" "panic s = Some (Inl Panic)" "look f s = Some (Inr (f s, s))"
  "modify h s = Some (Inr ((), h s))" "emit y s = Some (Inr ((), s\<lparr>a_out := a_out s @ [y]\<rparr>))"
  "asking a s = Some (Inr (a (a_asked s), s\<lparr>a_asked := Suc (a_asked s)\<rparr>))"
  "give_up s = Some (Inr ((), s\<lparr>a_active := False\<rparr>))"
  by (simp_all add: ret_def panic_def look_def modify_def emit_def asking_def give_up_def)

lemma run_andthen [runs]:
  "andthen (ret x) g = g x" "andthen panic g = panic"
  "andthen (look f) g s = g (f s) s" "andthen (asking f') g s = g (f' (a_asked s)) (s\<lparr>a_asked := Suc (a_asked s)\<rparr>)"
  "andthen (andthen f'' g2) g = andthen f'' (\<lambda>y. andthen (g2 y) g)"
  by (simp_all add: fun_eq_iff andthen_def ret_def panic_def look_def asking_def split: option.split sum.split)

lemma run_effects [runs]:
  "andthen (modify h) g s = g () (h s)"
  "andthen (emit y) g s = g () (s\<lparr>a_out := a_out s @ [y]\<rparr>)"
  "andthen give_up g s = g () (s\<lparr>a_active := False\<rparr>)"
  by (simp_all add: andthen_def modify_def emit_def give_up_def)

lemma run_parts [runs]:
  "andthen (yes_no_approval E) g s
     = g (e_radio E (a_asked s) = Some (e_label E LYes)) (s\<lparr>a_asked := Suc (a_asked s)\<rparr>)"
  "andthen (fetch_pw guid) gp s = gp (get_record pw_content guid (a_db s)) s"
  "andthen (insert_item m i) gi s = (case lists_insert_unique m i (a_lists s) of (old, ls) \<Rightarrow> gi old (s\<lparr>a_lists := ls\<rparr>))"
  "andthen (remove_item m k) gi s = (case lists_remove m k (a_lists s) of (old, ls) \<Rightarrow> gi old (s\<lparr>a_lists := ls\<rparr>))"
  "andthen (store_new E c r) gs s = (case new_record (e_sha E) (e_stored E) c r None True (a_db s) of
     (x, p) \<Rightarrow> gs x (s\<lparr>a_db := p\<rparr>))"
  "andthen (store_update E c key r) gs s = (case update_record (e_sha E) (e_stored E) c key r (a_db s) of
     (x, p) \<Rightarrow> gs x (s\<lparr>a_db := p\<rparr>))"
  "andthen (store_delete c key) gs s = (case delete_record c key (a_db s) of (x, p) \<Rightarrow> gs x (s\<lparr>a_db := p\<rparr>))"
  by (simp_all add: andthen_def yes_no_approval_def asking_def ret_def fetch_pw_def look_def insert_item_def
      remove_item_def store_new_def store_update_def store_delete_def split: prod.split)

section \<open>Lemmas: the lists stay well formed\<close>

definition list_ok :: "list_view \<Rightarrow> bool" where
  "list_ok v \<longleftrightarrow> view_ok v \<and> range_ok v"

definition lists_ok :: "item_lists \<Rightarrow> bool" where
  "lists_ok ls \<longleftrightarrow> list_ok (totp_list ls) \<and> list_ok (pw_list ls) \<and> list_ok (idle_list ls)"

lemma lists_ok_li: "lists_ok ls \<Longrightarrow> list_ok (li m ls)"
  by (cases m) (simp_all add: lists_ok_def)

lemma lists_ok_update: "lists_ok ls \<Longrightarrow> list_ok (f (li m ls)) \<Longrightarrow> lists_ok (li_update m f ls)"
  by (cases m) (simp_all add: lists_ok_def)

lemma list_ok_reset [simp]: "list_ok (filter_reset v) = view_ok v"
  by (simp add: list_ok_def range_ok_def filter_reset_def view_ok_def)

lemma list_ok_clear [simp]: "list_ok (view_clear v)"
  by (simp add: list_ok_def range_ok_def view_clear_def view_ok_def)

lemma item_new_sortable: "sortable_name (item_new n x g a c) = to_lower (item_name (item_new n x g a c))"
  by (simp add: item_new_def)

lemma list_ok_insert: "list_ok v \<Longrightarrow> list_ok (snd (insert_unique (item_new n x g a c) v))"
  using insert_unique_refines [OF _ item_new_sortable] filter_range_safe [of v] by (simp add: list_ok_def)

lemma list_ok_remove: "list_ok v \<Longrightarrow> list_ok (snd (view_remove k v))"
  using view_remove_refines [of v k] filter_range_safe [of v] by (simp add: list_ok_def)

lemma load_totp_view_ok: "view_ok v \<Longrightarrow> view_ok (fst (load_totp rows (v, errs)))"
proof (induction rows "(v, errs)" arbitrary: v errs rule: load_totp.induct)
  case (3 guid d rows v errs)
  then show ?case
    using insert_unique_refines [OF _ item_new_sortable] by (auto simp: make_totp_item_def split: sum.splits)
qed auto

lemma load_pw_view_ok: "view_ok v \<Longrightarrow> view_ok (snd (load_pw rows (buf, v)))"
proof (induction rows "(buf, v)" arbitrary: buf v rule: load_pw.induct)
  case (3 guid d rows buf v)
  then show ?case using load_pw_row_refines by (auto split: prod.splits option.splits)
qed auto

lemma retrieve_db_ok:
  assumes "lists_ok ls" shows "lists_ok (fst (retrieve_db m totp_rows pw_rows ls))"
proof (cases "m = Totp")
  case True
  have "view_ok (fst (load_totp totp_rows (view_clear (li m ls), 0)))"
    using load_totp_view_ok list_ok_clear by (simp add: list_ok_def)
  with True assms show ?thesis
    by (simp add: retrieve_db_def case_prod_beta lists_ok_def)
next
  case False
  have "view_ok (snd (load_pw pw_rows (pw_default, li m ls)))"
    using load_pw_view_ok lists_ok_li [OF assms] by (simp add: list_ok_def)
  with False show ?thesis
    by (auto simp: retrieve_db_def case_prod_beta intro!: lists_ok_update [OF assms])
qed

text \<open>The invariant of the thread's state, and that every action preserves it.\<close>

definition tidy :: "act_state \<Rightarrow> bool" where
  "tidy s \<longleftrightarrow> lists_ok (a_lists s)"

interpretation tidy: dialogue_invariant tidy
  by unfold_locales (simp_all add: tidy_def)

lemma tidy_insert [preserved]:
  "preserves tidy (insert_item m (make_totp_item g r))" "preserves tidy (insert_item m (pw_item E g pw))"
  by (auto simp: preserves_def insert_item_def tidy_def lists_insert_unique_def make_totp_item_def pw_item_def
      make_pw_item_def intro!: lists_ok_update list_ok_insert lists_ok_li)

lemma tidy_remove [preserved]: "preserves tidy (remove_item m k)"
  by (auto simp: preserves_def remove_item_def tidy_def lists_remove_def
      intro!: lists_ok_update list_ok_remove lists_ok_li)

lemma tidy_store [preserved]:
  "preserves tidy (store_new E c r)" "preserves tidy (store_update E c key r)" "preserves tidy (store_delete c key)"
  by (auto simp: preserves_def store_new_def store_update_def store_delete_def tidy_def split: prod.splits)

lemma tidy_emit [preserved]: "preserves tidy (emit x)"
  by (simp add: preserves_def emit_def modify_def tidy_def)

lemma tidy_reload [preserved]: "preserves tidy (reload E m)"
  by (auto simp: preserves_def reload_def modify_def tidy_def retrieve_db_ok)

lemma tidy_clear [preserved]: "preserves tidy clear_lists" "preserves tidy clear_passwords"
  by (auto simp: preserves_def clear_lists_def clear_passwords_def modify_def tidy_def lists_clear_all_def lists_ok_def)

lemma tidy_flags [preserved]:
  "preserves tidy (activate m)" "preserves tidy deactivate"
  "preserves tidy (modify (\<lambda>s. s\<lparr>a_mode_cache := m\<rparr>))" "preserves tidy (modify (\<lambda>s. s\<lparr>a_generator := g\<rparr>))"
  "preserves tidy (modify (\<lambda>s. s\<lparr>a_db := f s\<rparr>))"
  by (auto simp: preserves_def activate_def deactivate_def modify_def tidy_def andthen_Some emit_def)

lemma tidy_report [preserved]: "preserves tidy (report x)"
  unfolding report_def by (intro preserved)

lemma tidy_add_password [preserved]: "preserves tidy (add_password E url)"
  unfolding add_password_def add_save_def read_generator_def by (intro preserved)

lemma tidy_menus [preserved]:
  "preserves tidy (menu_addnew E)" "preserves tidy (menu_delete E sel)" "preserves tidy (menu_edit E sel)"
  "preserves tidy (update_db_entry E sel)"
  unfolding menu_addnew_def add_login_def add_totp_def menu_delete_def finish_delete_def fetch_pw_def
    menu_edit_def edit_login_def edited_password_def edit_totp_def update_db_entry_def
  by (intro preserved)+

lemma tidy_open_named [preserved]: "preserves tidy (open_named E name)"
  unfolding open_named_def get_pin_key_def by (intro preserved)

lemma tidy_close_all [preserved]: "preserves tidy (close_all E bs)"
  by (induction bs) (auto intro!: preserved)

lemma tidy_bases [preserved]: "preserves tidy (unlock_basis E)" "preserves tidy (manage_basis E)"
  unfolding unlock_basis_def manage_basis_def get_pin_key_def
  by (intro preserved)+

lemma tidy_increment [preserved]: "preserves tidy (increment_pw_usage E guid pw)"
  unfolding increment_pw_usage_def by (intro preserved)

lemma tidy_login [preserved]: "preserves tidy (login_to E url)"
  unfolding login_to_def expect_pw_def fetch_pw_def type_and_count_def by (intro preserved)

lemma tidy_acquire [preserved]: "preserves tidy (acquire_qr E m sc)"
  unfolding acquire_qr_def scan_otpauth_def scan_pwauth_def
  by (cases sc) (auto intro!: preserved)

lemma tidy_step: "preserves tidy (action_step E m op1)"
  by (cases op1) (auto simp: active_def check_lists_def intro!: preserved)

lemma tidy_run: "preserves tidy (action_run ops)"
  by (induction ops) (auto intro!: preserved tidy_step)

lemma lists_new_ok: "lists_ok lists_new"
  by (simp add: lists_ok_def list_ok_def lists_new_def view_ok_def range_ok_def view_new_def)

text \<open>C20: Whatever messages the actions thread handles, and however its dialogues are answered, the
  display lists keep distinct keys, the order they claim, lower-cased sort names and a filter range
  inside the list, so that the slice of a list that is drawn always exists.  Drawing the items of the slice can still panic, for
  codes of too many digits.\<close>

theorem lists_stay_well_formed:
  assumes "lists_ok (a_lists s)" and "action_run ops s = Some (Inr ((), s'))"
  shows "lists_ok (a_lists s') \<and> (\<forall>m. filtered_list (li m (a_lists s')) \<noteq> None)"
proof -
  have "lists_ok (a_lists s')" using tidy_run [of ops] assms by (auto simp: preserves_def tidy_def)
  then have "list_ok (li m (a_lists s'))" for m by (rule lists_ok_li)
  with \<open>lists_ok (a_lists s')\<close> show ?thesis
    by (fastforce simp: list_ok_def range_ok_def filtered_list_def split: option.splits)
qed

text \<open>A quiet environment: no dialogue is answered, the digest of a text is the text.\<close>

definition quiet_env :: act_env where
  "quiet_env = \<lparr>e_radio = (\<lambda>_. None), e_checks = (\<lambda>_. None), e_form = (\<lambda>_. None), e_bip39 = (\<lambda>_. None),
     e_label = (\<lambda>l. case l of LYes \<Rightarrow> ''Yes'' | LCancel \<Rightarrow> ''Cancel'' | LAddNew \<Rightarrow> ''Add new'' | _ \<Rightarrow> []),
     e_now = 7, e_stored = 7, e_human = (\<lambda>_. ''now''), e_sha = id, e_picks = (\<lambda>_ _ _ _. ''aB1!''),
     e_pg = (\<lambda>_ _. Some ''pw''), e_b32_decode = (\<lambda>_ _. None), e_b32_encode = (\<lambda>_ _. []), e_hex_encode = hex,
     e_hex_decode = unhex, e_rows = (\<lambda>_ _. []), e_pin_set = True, e_unlock = (\<lambda>_. Inl PermissionDenied),
     e_create = (\<lambda>_. None), e_lock_fails = (\<lambda>_. False)\<rparr>"

definition idle_thread :: act_state where
  "idle_thread = \<lparr>a_db = empty_pddb, a_lists = lists_new, a_mode_cache = Totp, a_active = False, a_users = None,
     a_generator = None, a_drawn = 0, a_asked = 0, a_out = []\<rparr>"

theorem lists_stay_well_formed_witness:
  "\<exists>s'. action_run [(quiet_env, Password, AcquireQr (Code ''pwauth://pass/a?time=t'')),
        (quiet_env, Password, MenuAddnew), (quiet_env, Password, Quit)] idle_thread = Some (Inr ((), s'))
     \<and> lists_ok (a_lists s') \<and> a_out s' = [SetTime ''t'', Redraw]"
proof -
  let ?ops = "[(quiet_env, Password, AcquireQr (Code ''pwauth://pass/a?time=t'')),
        (quiet_env, Password, MenuAddnew), (quiet_env, Password, Quit)]"
  have "split_at ''://'' ''pwauth://pass/a?time=t'' = Some (''pwauth'', ''pass/a?time=t'')"
    "rfind_sub ''?time='' ''a?time=t'' = Some 1" by code_simp+
  moreover have "site_matches ''a'' lists_new = []" by code_simp
  ultimately have "\<exists>s'. action_run ?ops idle_thread = Some (Inr ((), s')) \<and> a_out s' = [SetTime ''t'', Redraw]"
    by (simp add: runs acquire_qr_def scan_pwauth_def forwarded_def login_to_def add_password_def choose_username_def
        read_usernames_def andthen_def active_def activate_def deactivate_def menu_addnew_def add_login_def
        reload_def quiet_env_def idle_thread_def)
  then obtain s' where "action_run ?ops idle_thread = Some (Inr ((), s'))" "a_out s' = [SetTime ''t'', Redraw]"
    by blast
  moreover have "lists_ok (a_lists idle_thread)" by (simp add: idle_thread_def lists_new_ok)
  ultimately show ?thesis using lists_stay_well_formed by blast
qed

end
