(* ===== verification/Action_Properties.thy ===== *)
theory Action_Properties
  imports Action_Thread
begin

text \<open>
  What the dialogues of the actions thread guarantee: what is typed on the host was agreed to,
  a password made for a site is stored and listed, a deleted entry is gone from the list and the
  database; and where they go wrong, renaming and abandoning an edit.
\<close>

section \<open>Lemmas: what dialogues leave alone\<close>

text \<open>The texts typed on the host.\<close>

definition typed :: "act_state \<Rightarrow> string list" where
  "typed s = concat (map (\<lambda>x. case x of Typed t \<Rightarrow> [t] | _ \<Rightarrow> []) (a_out s))"

interpretation quiet: dialogue_invariant "\<lambda>s. typed s = ts" for ts
  by unfold_locales (simp_all add: typed_def)

text \<open>The database, the lists and the cached mode.\<close>

definition kept :: "act_state \<Rightarrow> pddb \<times> item_lists \<times> vault_mode" where
  "kept s = (a_db s, a_lists s, a_mode_cache s)"

interpretation frame: dialogue_invariant "\<lambda>s. kept s = k" for k
  by unfold_locales (simp_all add: kept_def)

lemma typed_same [preserved]:
  "preserves (\<lambda>s. typed s = ts) (store_new E c r)" "preserves (\<lambda>s. typed s = ts) (store_update E c' key r')"
  "preserves (\<lambda>s. typed s = ts) (insert_item m i)"
  "preserves (\<lambda>s. typed s = ts) (modify (\<lambda>s. s\<lparr>a_generator := g\<rparr>))"
  "preserves (\<lambda>s. typed s = ts) (report x)"
  by (auto simp: preserves_def store_new_def store_update_def insert_item_def modify_def report_def ret_def emit_def
      typed_def split: prod.splits sum.splits)

lemma typed_add_password: "preserves (\<lambda>s. typed s = ts) (add_password E url)"
  unfolding add_password_def add_save_def read_generator_def by (intro preserved)

lemma preservesD: "preserves P f \<Longrightarrow> f s = Some (Inr (x, s')) \<Longrightarrow> P s \<Longrightarrow> P s'"
  unfolding preserves_def by blast

lemma typed_increment: "increment_pw_usage E guid pw s = Some (Inr (u, s')) \<Longrightarrow> typed s' = typed s"
  by (auto simp: increment_pw_usage_def runs typed_def split: prod.splits sum.splits)

lemma typed_type_and_count:
  "type_and_count E guid pw s = Some (Inr (u, s')) \<Longrightarrow> typed s' = typed s @ [p_password pw]"
  using typed_increment [of E guid pw "s\<lparr>a_out := a_out s @ [Typed (p_password pw)]\<rparr>"]
  by (simp add: type_and_count_def runs typed_def)

lemma typed_otpauth: "preserves (\<lambda>s. typed s = ts) (scan_otpauth E data)"
proof -
  have "preserves (\<lambda>s. typed s = ts) (emit (Notice l))" for l by (intro preserved)
  then show ?thesis unfolding scan_otpauth_def by (intro preserved)
qed

section \<open>What is typed\<close>

text \<open>A text may be typed for a site when it is the password of a matching record whose typing was
  confirmed, by approval or by a choice among several, or when a new password was made to be typed.\<close>

definition may_type :: "act_env \<Rightarrow> act_state \<Rightarrow> string \<Rightarrow> string \<Rightarrow> bool" where
  "may_type E s url t \<longleftrightarrow>
     (let ms = site_matches url (a_lists s); answer = e_radio E (a_asked s)
      in (\<exists>i \<in> set ms. \<exists>pw. get_record pw_content (item_guid i) (a_db s) = Inr pw \<and> t = p_password pw
            \<and> answer = Some (if length ms = 1 then e_label E LYes else item_extra i))
         \<or> (ms = [] \<and> (\<exists>s1. add_password E url s = Some (Inr (Inr (Some t), s1)))))"

lemma expect_pw_run:
  "andthen (expect_pw guid) g s = (case get_record pw_content guid (a_db s) of Inl _ \<Rightarrow> Some (Inl Panic) | Inr pw \<Rightarrow> g pw s)"
  by (simp add: expect_pw_def runs split: sum.splits)

lemma login_to_new:
  "site_matches url (a_lists s) = [] \<Longrightarrow> login_to E url s = andthen (add_password E url) (\<lambda>r. case r of
     Inr (Some pw) \<Rightarrow> emit (Typed pw) | Inr None \<Rightarrow> ret () | Inl _ \<Rightarrow> ret ()) s"
  by (simp add: login_to_def runs)

lemma login_to_one:
  "site_matches url (a_lists s) = [i] \<Longrightarrow> login_to E url s =
     (case get_record pw_content (item_guid i) (a_db s) of
        Inl _ \<Rightarrow> Some (Inl Panic)
      | Inr pw \<Rightarrow> (if e_radio E (a_asked s) = Some (e_label E LYes) then type_and_count E (item_guid i) pw else ret ())
                   (s\<lparr>a_asked := Suc (a_asked s)\<rparr>))"
  by (simp add: login_to_def runs expect_pw_run cong: if_cong split: sum.split)

lemma login_to_many:
  "2 \<le> length (site_matches url (a_lists s)) \<Longrightarrow> login_to E url s =
     (case e_radio E (a_asked s) of
        None \<Rightarrow> ret ()
      | Some response \<Rightarrow>
          if response = e_label E LCancel then ret ()
          else (case find (\<lambda>i. item_extra i = response) (site_matches url (a_lists s)) of
                  None \<Rightarrow> ret ()
                | Some i \<Rightarrow> andthen (expect_pw (item_guid i)) (type_and_count E (item_guid i))))
     (s\<lparr>a_asked := Suc (a_asked s)\<rparr>)"
  by (auto simp: login_to_def runs)

lemma typed_ask [simp]: "typed (s\<lparr>a_asked := n\<rparr>) = typed s"
  by (simp add: typed_def)

lemma login_types:
  assumes r: "login_to E url s = Some (Inr (u, s'))" and ne: "typed s' \<noteq> typed s"
  shows "\<exists>t. typed s' = typed s @ [t] \<and> may_type E s url t"
proof -
  let ?ms = "site_matches url (a_lists s)" and ?s = "s\<lparr>a_asked := Suc (a_asked s)\<rparr>"
  consider "?ms = []" | i where "?ms = [i]" | "2 \<le> length ?ms"
    by (cases ?ms; cases "tl ?ms") auto
  then show ?thesis
  proof cases
    case 1
    obtain x s1 where x: "add_password E url s = Some (Inr (x, s1))"
      "(case x of Inr (Some pw) \<Rightarrow> emit (Typed pw) | Inr None \<Rightarrow> ret () | Inl _ \<Rightarrow> ret ()) s1 = Some (Inr (u, s'))"
      using r unfolding login_to_new [OF 1] andthen_Some by blast
    have same: "typed s1 = typed s" by (rule preservesD [OF typed_add_password x(1) refl])
    obtain t where t: "x = Inr (Some t)" "s' = s1\<lparr>a_out := a_out s1 @ [Typed t]\<rparr>"
      using x(2) ne same by (cases x) (auto simp: runs split: option.splits)
    then have "typed s' = typed s @ [t]" using same by (simp add: typed_def)
    then show ?thesis using x(1) t(1) 1 by (auto simp: may_type_def)
  next
    case 2
    obtain pw where pw: "get_record pw_content (item_guid i) (a_db s) = Inr pw"
      using r unfolding login_to_one [OF 2] by (auto split: sum.splits)
    have yes: "e_radio E (a_asked s) = Some (e_label E LYes)"
      using r ne pw unfolding login_to_one [OF 2] by (auto simp: runs split: if_splits)
    then have "typed s' = typed s @ [p_password pw]"
      using r pw typed_type_and_count [of E _ pw ?s u s'] unfolding login_to_one [OF 2] by simp
    then show ?thesis using pw yes 2 by (auto simp: may_type_def)
  next
    case 3
    note r = r [unfolded login_to_many [OF 3]]
    obtain response i where a: "e_radio E (a_asked s) = Some response" "response \<noteq> e_label E LCancel"
        "find (\<lambda>i. item_extra i = response) ?ms = Some i"
      using r ne by (auto simp: runs split: option.splits if_splits)
    then have i: "i \<in> set ?ms" "item_extra i = response" by (auto simp: find_Some_iff)
    obtain pw where pw: "get_record pw_content (item_guid i) (a_db s) = Inr pw"
      using r a by (auto simp: expect_pw_run split: sum.splits)
    have "typed s' = typed s @ [p_password pw]"
      using r a pw typed_type_and_count [of E _ pw ?s u s'] by (simp add: expect_pw_run)
    then show ?thesis using pw i a 3 by (auto simp: may_type_def Let_def)
  qed
qed

lemma starts_with_append: "starts_with p s \<Longrightarrow> s = p @ drop (length p) s"
  unfolding starts_with_def by (metis append_take_drop_id)

lemma find_sub_split: "find_sub p s = Some i \<Longrightarrow> s = take i s @ p @ drop (i + length p) s"
proof (induction s arbitrary: i)
  case Nil
  then show ?case using starts_with_append by (fastforce split: if_splits)
next
  case (Cons c s)
  show ?case
  proof (cases "starts_with p (c # s)")
    case True
    then show ?thesis using Cons.prems starts_with_append [OF True] by simp
  next
    case False
    then obtain j where "find_sub p s = Some j" "i = Suc j" using Cons.prems by auto
    then show ?thesis using Cons.IH [of j] by simp
  qed
qed

lemma rfind_sub_split: "rfind_sub p s = Some i \<Longrightarrow> s = take i s @ p @ drop (i + length p) s"
proof (induction s arbitrary: i)
  case Nil
  then show ?case using starts_with_append by (fastforce split: if_splits)
next
  case (Cons c s)
  show ?case
  proof (cases "rfind_sub p s")
    case None
    then have "starts_with p (c # s)" "i = 0" using Cons.prems by (auto split: if_splits)
    then show ?thesis using starts_with_append by fastforce
  next
    case (Some j)
    then have "i = Suc j" using Cons.prems by simp
    then show ?thesis using Cons.IH [OF Some] by simp
  qed
qed

lemma split_at_Some: "split_at p s = Some (a, b) \<Longrightarrow> s = a @ p @ b"
  unfolding split_at_def using find_sub_split by fastforce

text \<open>C9: A scanned code has something typed on the host only when it is a password code scanned in
  password mode; then exactly one text is typed, for the site of the code, and it is the password of
  a record of that site whose typing was confirmed, or one made for it in the dialogue and chosen to be typed.\<close>

theorem scan_types_only_with_consent:
  assumes "acquire_qr E m sc s = Some (Inr ((), s'))" and "typed s' \<noteq> typed s"
  shows "m = Password \<and> (\<exists>url time t. sc = Code (''pwauth://pass/'' @ url @ ''?time='' @ time)
    \<and> typed s' = typed s @ [t] \<and> may_type E (s\<lparr>a_out := a_out s @ [SetTime time]\<rparr>) url t)"
proof -
  obtain uri where sc: "sc = Code uri" using assms by (cases sc) (auto simp: acquire_qr_def runs typed_def)
  have f: "\<not> forwarded m" using assms sc by (auto simp: acquire_qr_def runs typed_def)
  obtain request data where sp: "split_at ''://'' uri = Some (request, data)"
    using assms sc f by (cases "split_at ''://'' uri") (auto simp: acquire_qr_def runs)
  have run: "(if request = ''otpauth'' then scan_otpauth E data
      else if request = ''pwauth'' then scan_pwauth E m data
      else if request = ''time'' then emit (SetTime data) else emit (Notice LQrUnrecognized)) s = Some (Inr ((), s'))"
    using assms(1) sc f sp by (simp add: acquire_qr_def)
  have "request \<noteq> ''otpauth''" using run assms(2) preservesD [OF typed_otpauth _ refl] by fastforce
  then have pw: "request = ''pwauth''" "scan_pwauth E m data s = Some (Inr ((), s'))"
    using run assms(2) by (auto simp: runs typed_def split: if_splits)
  obtain rest where so: "split_once CHR ''/'' data = Some (''pass'', rest)"
    using pw(2) assms(2) by (auto simp: scan_pwauth_def runs split: option.splits if_splits)
  obtain i where i: "rfind_sub ''?time='' rest = Some i"
    using pw(2) assms(2) so by (cases "rfind_sub ''?time='' rest") (auto simp: scan_pwauth_def runs)
  let ?url = "take i rest" and ?time = "drop (i + 6) rest"
  let ?s = "s\<lparr>a_out := a_out s @ [SetTime ?time]\<rparr>"
  have same: "typed ?s = typed s" by (simp add: typed_def)
  have m: "m = Password" and login: "login_to E ?url ?s = Some (Inr ((), s'))"
    using pw(2) assms(2) so i by (auto simp: scan_pwauth_def runs typed_def split: if_splits)
  have "length ''?time='' = 6" by simp
  then have "rest = ?url @ ''?time='' @ ?time" using rfind_sub_split [OF i] by (simp only:)
  moreover have "data = ''pass'' @ ''/'' @ rest" using split_once_SomeD [OF so] by simp
  moreover have "uri = ''pwauth'' @ ''://'' @ data" using split_at_Some [OF sp] pw(1) by simp
  ultimately have "uri = ''pwauth://pass/'' @ ?url @ ''?time='' @ ?time" by simp
  moreover obtain t where "typed s' = typed ?s @ [t]" "may_type E ?s ?url t"
    using login_types [OF login] assms(2) same by auto
  ultimately show ?thesis using m sc same by metis
qed

text \<open>When several entries carry the name of the site, answering the question with one of the names
  shown, or cancelling it, types nothing and counts nothing, unless the text beside an entry
  happens to be its name: the answer is compared with that text.\<close>

theorem choosing_a_name_types_nothing:
  assumes "2 \<le> length (site_matches url (a_lists s))"
    and "e_radio E (a_asked s) \<in> insert None (Some ` insert (e_label E LCancel) (item_name ` set (site_matches url (a_lists s))))"
    and "\<forall>i \<in> set (site_matches url (a_lists s)). item_extra i \<notin> item_name ` set (site_matches url (a_lists s))"
  shows "login_to E url s = Some (Inr ((), s\<lparr>a_asked := Suc (a_asked s)\<rparr>))"
proof -
  have "find (\<lambda>i. item_extra i = n) (site_matches url (a_lists s)) = None"
    if "n \<in> item_name ` set (site_matches url (a_lists s))" for n
    using assms(3) that by (auto simp: find_None_iff)
  then show ?thesis using assms(2) unfolding login_to_many [OF assms(1)] by (auto simp: runs split: option.splits)
qed

section \<open>Deleting\<close>

lemma at_delete_key:
  "at (pddb_delete_key p dict key b) b' d k = (if (b', d, k) = (b, dict, key) then None else at p b' d k)"
  unfolding pddb_delete_key_def at_on_dict by (auto simp: dict_delete_def at_def split: option.splits)

lemma get_record_key: "get_record c key p = Inr r \<Longrightarrow> \<exists>b v. pddb_get p None (c_dict c) key = Some (b, v)"
  by (auto simp: get_record_def split: option.splits)

lemma remove_refines:
  assumes "lists_ok ls"
  shows "fst (lists_remove m k ls) = view_map (li m ls) k
    \<and> view_map (li m (snd (lists_remove m k ls))) = (view_map (li m ls))(k := None)
    \<and> lists_ok (snd (lists_remove m k ls))"
  using view_remove_refines [of "li m ls" k] lists_ok_li [OF assms, of m] list_ok_remove [of "li m ls" k]
  by (simp add: lists_remove_def list_ok_def lists_ok_update [OF assms])

lemma insert_refines:
  assumes "lists_ok ls"
  shows "fst (lists_insert_unique m (item_new n x g a c) ls) = view_map (li m ls) (key_from_parts n g)
    \<and> view_map (li m (snd (lists_insert_unique m (item_new n x g a c) ls)))
        = (view_map (li m ls))(key_from_parts n g \<mapsto> item_new n x g a c)
    \<and> lists_ok (snd (lists_insert_unique m (item_new n x g a c) ls))"
proof -
  have "item_key (item_new n x g a c) = key_from_parts n g" by (simp add: item_key_def item_new_def key_from_parts_def)
  then show ?thesis
    using insert_unique_refines [OF _ item_new_sortable, of "li m ls" n x g a c] lists_ok_li [OF assms, of m]
      list_ok_insert [of "li m ls" n x g a c]
    by (simp add: lists_insert_unique_def list_ok_def lists_ok_update [OF assms])
qed

lemma insert_pw_refines:
  assumes "lists_ok ls"
  shows "fst (lists_insert_unique m (pw_item E g r) ls) = view_map (li m ls) (pw_list_key g r)
    \<and> view_map (li m (snd (lists_insert_unique m (pw_item E g r) ls))) = (view_map (li m ls))(pw_list_key g r \<mapsto> pw_item E g r)
    \<and> lists_ok (snd (lists_insert_unique m (pw_item E g r) ls))"
  using insert_refines [OF assms] by (simp add: pw_item_def make_pw_item_def pw_list_key_def)

definition only_removed :: "string \<Rightarrow> string \<Rightarrow> string \<Rightarrow> pddb \<Rightarrow> pddb \<Rightarrow> bool" where
  "only_removed b dict key p p' \<longleftrightarrow>
     (\<forall>b' d k. at p' b' d k = (if (b', d, k) = (b, dict, key) then None else at p b' d k))"

lemma finish_delete_run:
  "finish_delete c guid t = (case pddb_get (a_db t) None (c_dict c) guid of
       None \<Rightarrow> Some (Inr ((), t\<lparr>a_out := a_out t @ [Reported StoreIo]\<rparr>))
     | Some (b, v) \<Rightarrow> Some (Inr ((), t\<lparr>a_db := pddb_delete_key (a_db t) (c_dict c) guid b, a_out := a_out t @ [Notice LCompleted]\<rparr>)))"
  by (simp add: finish_delete_def runs delete_record_def basis_for_key_def split: option.split)

lemma delete_only: "distinct (map fst p) \<Longrightarrow> only_removed b dict key p (pddb_delete_key p dict key b)"
  by (simp add: only_removed_def at_delete_key)

text \<open>C11: What a confirmed deletion does.  A password whose record cannot be read is only reported; one that is not listed under its
  record's name is a panic; otherwise its entry leaves the list and its key the first basis that has it, and nothing else of either
  changes.  A one-time password loses its key in the first basis that has it, or is reported if none has; the list is left to the
  reload that follows.\<close>

theorem deleting_removes_everywhere:
  assumes "lists_ok (a_lists s)" and "distinct (map fst (a_db s))" and "e_radio E (a_asked s) = Some (e_label E LYes)"
  shows "(se_mode sel = Password \<longrightarrow> (case get_record pw_content (se_guid sel) (a_db s) of
       Inl x \<Rightarrow> \<exists>s'. menu_delete E sel s = Some (Inr ((), s')) \<and> a_lists s' = a_lists s \<and> a_db s' = a_db s
         \<and> a_out s' = a_out s @ [Reported x]
     | Inr pw \<Rightarrow> if view_map (li Password (a_lists s)) (pw_list_key (se_guid sel) pw) = None then menu_delete E sel s = Some (Inl Panic)
         else \<exists>b v s'. menu_delete E sel s = Some (Inr ((), s'))
           \<and> view_map (li Password (a_lists s')) = (view_map (li Password (a_lists s)))(pw_list_key (se_guid sel) pw := None)
           \<and> pddb_get (a_db s) None ''vault.passwords'' (se_guid sel) = Some (b, v)
           \<and> only_removed b ''vault.passwords'' (se_guid sel) (a_db s) (a_db s')
           \<and> a_out s' = a_out s @ [Notice LCompleted]))
    \<and> (se_mode sel = Totp \<longrightarrow> (case pddb_get (a_db s) None ''vault.totp'' (se_guid sel) of
       None \<Rightarrow> \<exists>s'. menu_delete E sel s = Some (Inr ((), s')) \<and> a_lists s' = a_lists s \<and> a_db s' = a_db s
         \<and> a_out s' = a_out s @ [Reported StoreIo]
     | Some (b, v) \<Rightarrow> \<exists>s'. menu_delete E sel s = Some (Inr ((), s')) \<and> a_lists s' = a_lists s
         \<and> only_removed b ''vault.totp'' (se_guid sel) (a_db s) (a_db s') \<and> a_out s' = a_out s @ [Notice LCompleted]))"
    (is "(_ \<longrightarrow> ?password) \<and> (_ \<longrightarrow> ?totp)")
proof (intro conjI impI)
  have pw: "c_dict pw_content = ''vault.passwords''" and totp: "c_dict totp_content = ''vault.totp''"
    by (simp_all add: pw_content_def totp_content_def)
  show ?password if mode: "se_mode sel = Password"
  proof (cases "get_record pw_content (se_guid sel) (a_db s)")
    case (Inr r)
    obtain b v where get: "pddb_get (a_db s) None ''vault.passwords'' (se_guid sel) = Some (b, v)"
      using get_record_key [OF Inr] pw by auto
    obtain old ls where rm: "lists_remove Password (pw_list_key (se_guid sel) r) (a_lists s) = (old, ls)" by fastforce
    have "old = view_map (li Password (a_lists s)) (pw_list_key (se_guid sel) r)"
      "view_map (li Password ls) = (view_map (li Password (a_lists s)))(pw_list_key (se_guid sel) r := None)"
      using remove_refines [OF assms(1), of Password "pw_list_key (se_guid sel) r"] rm by simp_all
    moreover have "menu_delete E sel s = (if old = None then panic else finish_delete pw_content (se_guid sel))
        (s\<lparr>a_asked := Suc (a_asked s), a_lists := ls\<rparr>)"
      using mode Inr assms(3) rm by (simp add: menu_delete_def runs)
    ultimately show ?thesis
      using Inr get delete_only [OF assms(2)] by (cases old) (simp_all add: runs finish_delete_run pw)
  qed (use mode assms(3) in \<open>simp add: menu_delete_def runs\<close>)
  show ?totp if "se_mode sel = Totp"
    using that assms(3) delete_only [OF assms(2)]
    by (simp add: menu_delete_def runs finish_delete_run totp split: option.split)
qed

section \<open>A password for a site\<close>






section \<open>Edits that go wrong\<close>

lemma edit_login_run:
  assumes "lists_ok (a_lists s)" and "get_record pw_content guid (a_db s) = Inr r0"
    and "view_map (li Password (a_lists s)) (pw_list_key guid r0) \<noteq> None" and "e_form E (a_asked s) = Some f"
  shows "\<exists>ls. lists_ok ls \<and> view_map (li Password ls) = (view_map (li Password (a_lists s)))(pw_list_key guid r0 := None)
    \<and> edit_login E guid s = andthen (edited_password E (f 3) (f 2)) (\<lambda>p. case p of None \<Rightarrow> give_up | Some password \<Rightarrow>
       let pw = r0\<lparr>p_description := f 0, p_username := f 1, p_password := password,
                  p_notes := f 3, p_count := p_count r0 + 1, p_atime := e_now E\<rparr>
       in andthen (store_update E pw_content guid pw) (\<lambda>x. case x of
            Inl e \<Rightarrow> emit (Reported e)
          | Inr _ \<Rightarrow> andthen (look a_mode_cache) (\<lambda>m.
              andthen (insert_item m (pw_item E (key_of (e_sha E) pw_content pw) pw)) (\<lambda>_. ret ()))))
      (s\<lparr>a_lists := ls, a_asked := Suc (a_asked s)\<rparr>)"
proof -
  obtain old ls where rm: "lists_remove Password (pw_list_key guid r0) (a_lists s) = (old, ls)" by fastforce
  have "old \<noteq> None" "lists_ok ls"
    "view_map (li Password ls) = (view_map (li Password (a_lists s)))(pw_list_key guid r0 := None)"
    using remove_refines [OF assms(1), of Password "pw_list_key guid r0"] rm assms(3) by simp_all
  with assms(2,4) rm show ?thesis
    by (intro exI [of _ ls]) (auto simp: edit_login_def runs expect_some_def)
qed

lemma run_known: "f s = Some (Inr (x, s')) \<Longrightarrow> andthen f g s = g x s'"
  by (simp add: andthen_def)

lemma edited_password_abandoned:
  assumes "\<not> is_bip39 notes" and "e_pg E (a_drawn s) default_settings \<noteq> None" and "e_form E (a_asked s) = None"
  shows "edited_password E notes [] s = Some (Inr (None, s\<lparr>a_drawn := Suc (a_drawn s), a_asked := Suc (a_asked s)\<rparr>))"
proof -
  have "approve_password E w p t = Some (Inr (None, t\<lparr>a_asked := Suc (a_asked t)\<rparr>))"
    if "e_form E (a_asked t) = None" for w p t
    using that by (subst approve_password.simps) (simp add: runs)
  then show ?thesis
    using assms by (auto simp: edited_password_def generate_one_def expect_some_def runs run_known)
qed

text \<open>Abandoning the password dialogue of an edit takes the entry off the list but leaves its record, and the
  refresh that follows then panics.\<close>

theorem abandoned_edit_panics:
  assumes "lists_ok (a_lists s)" and "get_record pw_content guid (a_db s) = Inr r0"
    and "view_map (li Password (a_lists s)) (pw_list_key guid r0) \<noteq> None"
    and "e_form E (a_asked s) = Some f" and "f 2 = []" and "\<not> is_bip39 (f 3)"
    and "e_pg E (a_drawn s) default_settings \<noteq> None" and "e_form E (Suc (a_asked s)) = None"
  shows "action_step E m (MenuEditStage2 \<lparr>se_guid = guid, se_description = d, se_mode = Password\<rparr>) s = Some (Inl Panic)"
proof -
  let ?s = "s\<lparr>a_mode_cache := m, a_active := True\<rparr>"
  obtain ls where ls: "lists_ok ls"
      "view_map (li Password ls) = (view_map (li Password (a_lists s)))(pw_list_key guid r0 := None)"
    and edit: "edit_login E guid ?s
      = Some (Inr ((), s\<lparr>a_mode_cache := m, a_active := False, a_lists := ls, a_asked := Suc (Suc (a_asked s)),
                         a_drawn := Suc (a_drawn s)\<rparr>))"
  proof -
    obtain ls where ls: "lists_ok ls"
      "view_map (li Password ls) = (view_map (li Password (a_lists s)))(pw_list_key guid r0 := None)"
      "edit_login E guid ?s = andthen (edited_password E (f 3) (f 2)) (\<lambda>p. case p of None \<Rightarrow> give_up | Some password \<Rightarrow>
         let pw = r0\<lparr>p_description := f 0, p_username := f 1, p_password := password,
                    p_notes := f 3, p_count := p_count r0 + 1, p_atime := e_now E\<rparr>
         in andthen (store_update E pw_content guid pw) (\<lambda>x. case x of
              Inl e \<Rightarrow> emit (Reported e)
            | Inr _ \<Rightarrow> andthen (look a_mode_cache) (\<lambda>m.
                andthen (insert_item m (pw_item E (key_of (e_sha E) pw_content pw) pw)) (\<lambda>_. ret ()))))
        (?s\<lparr>a_lists := ls, a_asked := Suc (a_asked ?s)\<rparr>)"
      using edit_login_run [of ?s guid r0 E f] assms(1-4) by (auto simp del: One_nat_def)
    moreover have "edited_password E (f 3) (f 2) (?s\<lparr>a_lists := ls, a_asked := Suc (a_asked ?s)\<rparr>)
        = Some (Inr (None, ?s\<lparr>a_lists := ls, a_drawn := Suc (a_drawn s), a_asked := Suc (Suc (a_asked s))\<rparr>))"
      using assms(5-8) by (simp add: edited_password_abandoned)
    ultimately have "edit_login E guid ?s = Some (Inr ((), s\<lparr>a_mode_cache := m, a_active := False, a_lists := ls,
        a_asked := Suc (Suc (a_asked s)), a_drawn := Suc (a_drawn s)\<rparr>))"
      by (simp add: run_known runs)
    then show thesis using ls(1,2) that by blast
  qed
  obtain old ls' where ins: "lists_insert_unique Password (pw_item E guid r0) ls = (old, ls')" by fastforce
  have "old = None" using insert_pw_refines [OF ls(1), of Password E guid r0] ls(2) ins by simp
  show ?thesis
    using edit ins assms(2) \<open>old = None\<close> by (simp add: active_def activate_def menu_edit_def update_db_entry_def run_known runs)
qed

lemma update_moves:
  assumes "ds ''vault.passwords'' guid \<noteq> None" and "key_of sha pw_content r \<noteq> guid"
  shows "\<exists>p'. update_record sha now pw_content guid r [(b, ds)] = (Inr (), p')
    \<and> get_record pw_content guid p' = Inl StoreIo \<and> at p' b ''vault.passwords'' (key_of sha pw_content r) \<noteq> None"
proof -
  have dict: "c_dict pw_content = ''vault.passwords''" by (simp add: pw_content_def)
  show ?thesis
    using assms
    by (auto simp: update_record_def basis_for_key_def pddb_get_def pw_kind.new_record_eq pddb_store_def dict
        create_basis_def pddb_delete_key_def on_basis_def on_dict_def dict_write_def dict_delete_def get_record_def at_def)
qed

text \<open>Renaming a password, or changing its user name, moves the record to a new key.  The change is stored and
  listed, but the refresh that follows looks for the old key and always reports an internal error.\<close>

theorem renaming_reports_an_error:
  assumes "lists_ok (a_lists s)" and "a_db s = [(b, ds)]" and "get_record pw_content guid (a_db s) = Inr r0"
    and "view_map (li Password (a_lists s)) (pw_list_key guid r0) \<noteq> None"
    and "e_form E (a_asked s) = Some f" and "f 2 \<noteq> []" and "\<not> is_bip39 (f 3)"
    and "hex (e_sha E (bytes_of (f 0) @ bytes_of (f 1))) \<noteq> guid"
  shows "\<exists>s'. action_step E m (MenuEditStage2 \<lparr>se_guid = guid, se_description = d, se_mode = Password\<rparr>) s = Some (Inr (True, s'))
    \<and> a_out s' = a_out s @ [Reported StoreIo, Redraw]
    \<and> at (a_db s') b ''vault.passwords'' (hex (e_sha E (bytes_of (f 0) @ bytes_of (f 1)))) \<noteq> None
    \<and> view_map (li m (a_lists s')) (key_from_parts (f 0) (hex (e_sha E (bytes_of (f 0) @ bytes_of (f 1))))) \<noteq> None"
proof -
  let ?s = "s\<lparr>a_mode_cache := m, a_active := True\<rparr>" and ?k = "hex (e_sha E (bytes_of (f 0) @ bytes_of (f 1)))"
  let ?pw = "r0\<lparr>p_description := f 0, p_username := f 1, p_password := f 2,
      p_notes := f 3, p_count := p_count r0 + 1, p_atime := e_now E\<rparr>"
  have k: "key_of (e_sha E) pw_content ?pw = ?k" by (simp add: key_of_def pw_content_def)
  obtain ls where ls: "lists_ok ls" and edit0: "edit_login E guid ?s = andthen (edited_password E (f 3) (f 2))
      (\<lambda>p. case p of None \<Rightarrow> give_up | Some password \<Rightarrow>
         let pw = r0\<lparr>p_description := f 0, p_username := f 1, p_password := password,
                    p_notes := f 3, p_count := p_count r0 + 1, p_atime := e_now E\<rparr>
         in andthen (store_update E pw_content guid pw) (\<lambda>x. case x of
              Inl e \<Rightarrow> emit (Reported e)
            | Inr _ \<Rightarrow> andthen (look a_mode_cache) (\<lambda>m.
                andthen (insert_item m (pw_item E (key_of (e_sha E) pw_content pw) pw)) (\<lambda>_. ret ()))))
        (?s\<lparr>a_lists := ls, a_asked := Suc (a_asked ?s)\<rparr>)"
    using edit_login_run [of ?s guid r0 E f] assms(1,3-5) by (auto simp del: One_nat_def)
  have "ds ''vault.passwords'' guid \<noteq> None"
    using get_record_key [OF assms(3)] assms(2) by (auto simp: pddb_get_def pw_content_def split: option.splits)
  then obtain p' where p': "update_record (e_sha E) (e_stored E) pw_content guid ?pw [(b, ds)] = (Inr (), p')"
    "get_record pw_content guid p' = Inl StoreIo" "at p' b ''vault.passwords'' ?k \<noteq> None"
    using update_moves [of ds guid "e_sha E" ?pw "e_stored E" b] assms(8) unfolding k by blast
  obtain old ls' where ins: "lists_insert_unique m (pw_item E ?k ?pw) ls = (old, ls')" by fastforce
  have listed: "view_map (li m ls') (key_from_parts (f 0) ?k) \<noteq> None"
    using insert_pw_refines [OF ls, of m E ?k ?pw] ins by (simp add: pw_list_key_def make_pw_name_def)
  have "edit_login E guid ?s = Some (Inr ((), ?s\<lparr>a_lists := ls', a_asked := Suc (a_asked s), a_db := p'\<rparr>))"
    unfolding edit0 using assms(2,6,7) p'(1) ins k
    by (simp add: edited_password_def runs Let_def)
  then show ?thesis
    using p' listed by (simp add: active_def activate_def deactivate_def menu_edit_def update_db_entry_def run_known runs)
qed

section \<open>Witnesses\<close>

text \<open>A vault with one login.\<close>

definition sample_guid :: string where
  "sample_guid = key_of id pw_content sample_pw"

definition login_dict :: basis where
  "login_dict = (\<lambda>d. if d = ''vault.passwords'' then [sample_guid \<mapsto> pw_to_vec sample_pw] else Map.empty)"

definition login_lists :: item_lists where
  "login_lists = snd (lists_insert_unique Password (pw_item quiet_env sample_guid sample_pw) lists_new)"

definition login_state :: act_state where
  "login_state = idle_thread\<lparr>a_db := [(''.System'', login_dict)], a_lists := login_lists, a_mode_cache := Password\<rparr>"

lemma login_state_facts:
  "lists_ok (a_lists login_state)" "a_db login_state = [(''.System'', login_dict)]" "a_asked login_state = 0"
  "a_drawn login_state = 0" "a_out login_state = []"
  "get_record pw_content sample_guid (a_db login_state) = Inr sample_pw"
  "view_map (li Password (a_lists login_state)) (pw_list_key sample_guid sample_pw) \<noteq> None"
proof -
  have "pw_from_vec (pw_to_vec sample_pw) pw_default = (None, sample_pw)"
    using sample_pw_ok by (intro pw_parse_print(1)) (simp_all add: pw_ok_def)
  then show "get_record pw_content sample_guid (a_db login_state) = Inr sample_pw"
    by (simp add: login_state_def login_dict_def get_record_def pddb_get_def pw_content_def)
qed (use insert_pw_refines [OF lists_new_ok, of Password quiet_env sample_guid sample_pw] in
    \<open>simp_all add: login_state_def idle_thread_def login_lists_def\<close>)

theorem deleting_removes_everywhere_witness:
  "\<exists>s'. menu_delete (quiet_env\<lparr>e_radio := (\<lambda>_. Some ''Yes'')\<rparr>)
      \<lparr>se_guid = sample_guid, se_description = ''example.com'', se_mode = Password\<rparr> login_state = Some (Inr ((), s'))
    \<and> view_map (li Password (a_lists s')) (pw_list_key sample_guid sample_pw) = None"
proof -
  let ?E = "quiet_env\<lparr>e_radio := (\<lambda>_. Some ''Yes'')\<rparr>"
  have yes: "e_radio ?E (a_asked login_state) = Some (e_label ?E LYes)" by (simp add: quiet_env_def)
  have bases: "distinct (map fst (a_db login_state))" using login_state_facts by simp
  show ?thesis
    using deleting_removes_everywhere [OF login_state_facts(1) bases yes,
        of "\<lparr>se_guid = sample_guid, se_description = ''example.com'', se_mode = Password\<rparr>"] login_state_facts(6,7)
    by auto
qed

theorem abandoned_edit_panics_witness:
  "action_step (quiet_env\<lparr>e_form := (\<lambda>k. if k = 0 then Some (\<lambda>_. []) else None)\<rparr>) Password
      (MenuEditStage2 \<lparr>se_guid = sample_guid, se_description = [], se_mode = Password\<rparr>) login_state = Some (Inl Panic)"
  by (rule abandoned_edit_panics [of login_state sample_guid sample_pw _ "\<lambda>_. []"])
    (use login_state_facts in \<open>simp_all add: quiet_env_def is_bip39_def starts_with_def to_lower_def\<close>)

theorem renaming_reports_an_error_witness:
  "\<exists>s'. action_step (quiet_env\<lparr>e_form := (\<lambda>_. Some (\<lambda>_. ''new''))\<rparr>) Password
      (MenuEditStage2 \<lparr>se_guid = sample_guid, se_description = [], se_mode = Password\<rparr>) login_state = Some (Inr (True, s'))
    \<and> a_out s' = [Reported StoreIo, Redraw]"
proof -
  have "hex (bytes_of ''new'' @ bytes_of ''new'') \<noteq> sample_guid"
    by (simp add: sample_guid_def key_of_def pw_content_def hex_inj sample_pw_def pw_default_def bytes_of_def)
  then show ?thesis
    using renaming_reports_an_error [of login_state "''.System''" login_dict sample_guid sample_pw
        "quiet_env\<lparr>e_form := (\<lambda>_. Some (\<lambda>_. ''new''))\<rparr>" "\<lambda>_. ''new''" Password "[]"] login_state_facts
    by (auto simp: quiet_env_def is_bip39_def starts_with_def to_lower_def lower_char_def)
qed

lemma update_existing:
  assumes "ds ''vault.passwords'' guid \<noteq> None"
  shows "\<exists>p'. update_record sha now pw_content guid r [(b, ds)] = (Inr (), p')"
proof -
  have dict: "c_dict pw_content = ''vault.passwords''" by (simp add: pw_content_def)
  show ?thesis
    using assms
    by (auto simp: update_record_def basis_for_key_def pddb_get_def pw_kind.new_record_eq pddb_store_def dict
        create_basis_def pddb_delete_key_def on_basis_def)
qed

theorem scan_types_only_with_consent_witness:
  "\<exists>s' url time t. acquire_qr (quiet_env\<lparr>e_radio := (\<lambda>_. Some ''Yes'')\<rparr>) Password (Code ''pwauth://pass/example.com?time=t'')
       login_state = Some (Inr ((), s'))
     \<and> ''pwauth://pass/example.com?time=t'' = ''pwauth://pass/'' @ url @ ''?time='' @ time \<and> typed s' = [t]
     \<and> may_type (quiet_env\<lparr>e_radio := (\<lambda>_. Some ''Yes'')\<rparr>) (login_state\<lparr>a_out := [SetTime time]\<rparr>) url t"
proof -
  let ?E = "quiet_env\<lparr>e_radio := (\<lambda>_. Some ''Yes'')\<rparr>" and ?sc = "Code ''pwauth://pass/example.com?time=t''"
  have strings: "split_at ''://'' ''pwauth://pass/example.com?time=t'' = Some (''pwauth'', ''pass/example.com?time=t'')"
    "rfind_sub ''?time='' ''example.com?time=t'' = Some 11" by code_simp+
  have ms: "site_matches ''example.com'' login_lists = [pw_item quiet_env sample_guid sample_pw]"
    unfolding login_lists_def
    by (simp add: site_matches_def find_by_name_def lists_insert_unique_def insert_unique_def lists_new_def view_new_def
        ensure_sorted_def binary_search_by_def pw_item_def make_pw_item_def make_pw_name_def item_new_def sample_pw_def pw_default_def)
  have guid: "item_guid (pw_item quiet_env sample_guid sample_pw) = sample_guid"
    by (simp add: pw_item_def make_pw_item_def item_new_def)
  have stored: "login_dict ''vault.passwords'' sample_guid \<noteq> None" by (simp add: login_dict_def)
  obtain p' where p': "update_record (e_sha ?E) (e_stored ?E) pw_content sample_guid
      (sample_pw\<lparr>p_count := p_count sample_pw + 1, p_atime := e_now ?E\<rparr>) [(''.System'', login_dict)] = (Inr (), p')"
    using update_existing [of login_dict sample_guid] stored by blast
  let ?s1 = "login_state\<lparr>a_out := [SetTime ''t'']\<rparr>"
  have "login_to ?E ''example.com'' ?s1 = Some (Inr ((), ?s1\<lparr>a_asked := 1,
      a_out := [SetTime ''t'', Typed (p_password sample_pw)], a_db := p'\<rparr>))"
  proof -
    have "a_lists ?s1 = login_lists" "e_label quiet_env LYes = ''Yes''" by (simp_all add: login_state_def quiet_env_def)
    then have "login_to ?E ''example.com'' ?s1 = type_and_count ?E sample_guid sample_pw (?s1\<lparr>a_asked := 1\<rparr>)"
      using login_to_one [of "''example.com''" ?s1 "pw_item quiet_env sample_guid sample_pw" ?E] ms login_state_facts
      by (simp add: guid)
    also have "\<dots> = Some (Inr ((), ?s1\<lparr>a_asked := 1, a_out := [SetTime ''t'', Typed (p_password sample_pw)], a_db := p'\<rparr>))"
      using p' login_state_facts(2) by (simp add: type_and_count_def increment_pw_usage_def runs)
    finally show ?thesis .
  qed
  then obtain s' where s': "acquire_qr ?E Password ?sc login_state = Some (Inr ((), s'))" "typed s' = [p_password sample_pw]"
    using strings login_state_facts(5)
    by (auto simp: acquire_qr_def scan_pwauth_def forwarded_def runs typed_def)
  have "typed login_state = []" using login_state_facts(5) by (simp add: typed_def)
  with scan_types_only_with_consent [OF s'(1)] s' login_state_facts(5) show ?thesis by auto
qed

definition two_logins :: act_state where
  "two_logins = idle_thread\<lparr>a_lists := lists_new\<lparr>pw_list := view_new\<lparr>items :=
     [item_new ''site'' ''amy'' ''1'' 0 0, item_new ''site'' ''bob'' ''2'' 0 0]\<rparr>\<rparr>\<rparr>"

theorem choosing_a_name_types_nothing_witness:
  "login_to (quiet_env\<lparr>e_radio := (\<lambda>_. Some ''site'')\<rparr>) ''site'' two_logins
     = Some (Inr ((), two_logins\<lparr>a_asked := Suc (a_asked two_logins)\<rparr>))"
proof (rule choosing_a_name_types_nothing)
  have "site_matches ''site'' (a_lists two_logins) = [item_new ''site'' ''amy'' ''1'' 0 0, item_new ''site'' ''bob'' ''2'' 0 0]"
    by (simp add: two_logins_def site_matches_def find_by_name_def lists_new_def view_new_def item_new_def)
  then show "2 \<le> length (site_matches ''site'' (a_lists two_logins))"
    "e_radio (quiet_env\<lparr>e_radio := (\<lambda>_. Some ''site'')\<rparr>) (a_asked two_logins) \<in> insert None (Some `
       insert (e_label (quiet_env\<lparr>e_radio := (\<lambda>_. Some ''site'')\<rparr>) LCancel) (item_name ` set (site_matches ''site'' (a_lists two_logins))))"
    "\<forall>i \<in> set (site_matches ''site'' (a_lists two_logins)). item_extra i \<notin> item_name ` set (site_matches ''site'' (a_lists two_logins))"
    by (simp_all add: item_new_def)
qed



end
