(* ===== verification/Ctap_Store.thy ===== *)
theory Ctap_Store
  imports Badge_Prelude "HOL-Library.AList"
begin

text \<open>
  The key/value store of the security key application (\<open>libraries/persistent_store\<close>) and what its
  clients in \<open>src/ctap\<close> share: status codes, the build's customization, the operations that may fail.
  The store keeps its entries in the PDDB dictionary \<open>opensk\<close>, one key per number; every request to
  the PDDB may fail, and the fault list of the environment says which ones do.  A request that fails has had no effect: a write of
  several pages that fails midway, having written some of them, is not modelled.
\<close>

section \<open>Status codes\<close>

datatype ctap_status = CTAP2_OK | CTAP1_ERR_INVALID_COMMAND | CTAP1_ERR_INVALID_PARAMETER
  | CTAP1_ERR_INVALID_LENGTH | CTAP1_ERR_INVALID_SEQ | CTAP1_ERR_TIMEOUT | CTAP1_ERR_CHANNEL_BUSY
  | CTAP1_ERR_LOCK_REQUIRED | CTAP1_ERR_INVALID_CHANNEL | CTAP2_ERR_CBOR_UNEXPECTED_TYPE
  | CTAP2_ERR_INVALID_CBOR | CTAP2_ERR_MISSING_PARAMETER | CTAP2_ERR_LIMIT_EXCEEDED
  | CTAP2_ERR_FP_DATABASE_FULL | CTAP2_ERR_LARGE_BLOB_STORAGE_FULL | CTAP2_ERR_CREDENTIAL_EXCLUDED
  | CTAP2_ERR_PROCESSING | CTAP2_ERR_INVALID_CREDENTIAL | CTAP2_ERR_USER_ACTION_PENDING
  | CTAP2_ERR_OPERATION_PENDING | CTAP2_ERR_NO_OPERATIONS | CTAP2_ERR_UNSUPPORTED_ALGORITHM
  | CTAP2_ERR_OPERATION_DENIED | CTAP2_ERR_KEY_STORE_FULL | CTAP2_ERR_NO_OPERATION_PENDING
  | CTAP2_ERR_UNSUPPORTED_OPTION | CTAP2_ERR_INVALID_OPTION | CTAP2_ERR_KEEPALIVE_CANCEL
  | CTAP2_ERR_NO_CREDENTIALS | CTAP2_ERR_USER_ACTION_TIMEOUT | CTAP2_ERR_NOT_ALLOWED
  | CTAP2_ERR_PIN_INVALID | CTAP2_ERR_PIN_BLOCKED | CTAP2_ERR_PIN_AUTH_INVALID
  | CTAP2_ERR_PIN_AUTH_BLOCKED | CTAP2_ERR_PIN_NOT_SET | CTAP2_ERR_PUAT_REQUIRED
  | CTAP2_ERR_PIN_POLICY_VIOLATION | CTAP2_ERR_PIN_TOKEN_EXPIRED | CTAP2_ERR_REQUEST_TOO_LARGE
  | CTAP2_ERR_ACTION_TIMEOUT | CTAP2_ERR_UP_REQUIRED | CTAP2_ERR_UV_BLOCKED
  | CTAP2_ERR_INTEGRITY_FAILURE | CTAP2_ERR_INVALID_SUBCOMMAND | CTAP2_ERR_UV_INVALID
  | CTAP2_ERR_UNAUTHORIZED_PERMISSION | CTAP1_ERR_OTHER | CTAP2_ERR_SPEC_LAST
  | CTAP2_ERR_EXTENSION_FIRST | CTAP2_ERR_EXTENSION_LAST | CTAP2_ERR_VENDOR_FIRST
  | CTAP2_ERR_VENDOR_INTERNAL_ERROR | CTAP2_ERR_VENDOR_HARDWARE_FAILURE | CTAP2_ERR_VENDOR_LAST

section \<open>Operations that may fail\<close>

text \<open>The result of an operation is a value, a status code, or a panic; the state is passed on.\<close>

datatype 'a outcome = Good 'a | Bad ctap_status | Crash

type_synonym ('s, 'a) op = "'s \<Rightarrow> 'a outcome \<times> 's"

definition give :: "'a \<Rightarrow> ('s, 'a) op" where
  "give x = (\<lambda>s. (Good x, s))"

definition refuse :: "ctap_status \<Rightarrow> ('s, 'a) op" where
  "refuse c = (\<lambda>s. (Bad c, s))"

definition crash :: "('s, 'a) op" where
  "crash = (\<lambda>s. (Crash, s))"

text \<open>\<open>attempt f g\<close> is \<open>g(f?)\<close>.\<close>

definition attempt :: "('s, 'a) op \<Rightarrow> ('a \<Rightarrow> ('s, 'b) op) \<Rightarrow> ('s, 'b) op" where
  "attempt f g = (\<lambda>s. case f s of (Good x, s') \<Rightarrow> g x s' | (Bad c, s') \<Rightarrow> (Bad c, s') | (Crash, s') \<Rightarrow> (Crash, s'))"

definition inspect :: "('s \<Rightarrow> 'a) \<Rightarrow> ('s, 'a) op" where
  "inspect f = (\<lambda>s. (Good (f s), s))"

definition change :: "('s \<Rightarrow> 's) \<Rightarrow> ('s, unit) op" where
  "change f = (\<lambda>s. (Good (), f s))"

text \<open>\<open>ok_or\<close>, and \<open>?\<close> on a plain result.\<close>

definition ok_or :: "ctap_status \<Rightarrow> 'a option \<Rightarrow> ('s, 'a) op" where
  "ok_or c x = (case x of None \<Rightarrow> refuse c | Some y \<Rightarrow> give y)"

definition ok_or_missing :: "'a option \<Rightarrow> ('s, 'a) op" where
  "ok_or_missing = ok_or CTAP2_ERR_MISSING_PARAMETER"

definition checked :: "ctap_status + 'a \<Rightarrow> ('s, 'a) op" where
  "checked x = (case x of Inl c \<Rightarrow> refuse c | Inr y \<Rightarrow> give y)"

section \<open>Customization\<close>

datatype cred_protect = UserVerificationOptional | UserVerificationOptionalWithCredentialIdList
  | UserVerificationRequired

datatype enterprise_mode = VendorFacilitated | PlatformManaged

record customization =
  allows_pin_protocol_v1 :: bool
  default_cred_protect :: "cred_protect option"
  default_min_pin_length :: u8
  default_min_pin_length_rp_ids :: "string list"
  enforce_always_uv :: bool
  enterprise_attestation_mode :: "enterprise_mode option"
  enterprise_rp_id_list :: "string list"
  max_msg_size :: nat
  max_pin_retries :: u8
  use_batch_attestation :: bool
  use_signature_counter :: bool
  max_cred_blob_length :: nat
  max_credential_count_in_list :: "nat option"
  max_large_blob_array_size :: nat
  max_rp_ids_length :: nat
  max_supported_resident_keys :: nat

definition DEFAULT_CUSTOMIZATION :: customization where
  "DEFAULT_CUSTOMIZATION = \<lparr>allows_pin_protocol_v1 = True, default_cred_protect = None,
     default_min_pin_length = 4, default_min_pin_length_rp_ids = [], enforce_always_uv = False,
     enterprise_attestation_mode = None, enterprise_rp_id_list = [], max_msg_size = 7609,
     max_pin_retries = 8, use_batch_attestation = False, use_signature_counter = True,
     max_cred_blob_length = 32, max_credential_count_in_list = None, max_large_blob_array_size = 2048,
     max_rp_ids_length = 8, max_supported_resident_keys = 150\<rparr>"

definition is_enterprise_rp_id :: "customization \<Rightarrow> string \<Rightarrow> bool" where
  "is_enterprise_rp_id c rp_id \<longleftrightarrow> rp_id \<in> set (enterprise_rp_id_list c)"

definition is_valid :: "customization \<Rightarrow> bool" where
  "is_valid c \<longleftrightarrow>
     \<not> (max_msg_size c < 1024 \<or> max_msg_size c > 7609)
   \<and> \<not> (default_min_pin_length c < 4 \<or> default_min_pin_length c > 63)
   \<and> \<not> (use_batch_attestation c \<and> enterprise_attestation_mode c \<noteq> None)
   \<and> \<not> (enterprise_attestation_mode c = Some VendorFacilitated \<and> enterprise_rp_id_list c = [])
   \<and> \<not> (enterprise_attestation_mode c = None \<and> enterprise_rp_id_list c \<noteq> [])
   \<and> \<not> max_pin_retries c > 8
   \<and> \<not> (max_cred_blob_length c < 32 \<or> max_cred_blob_length c > 64)
   \<and> (case max_credential_count_in_list c of None \<Rightarrow> True | Some n \<Rightarrow> \<not> n < 1)
   \<and> \<not> max_large_blob_array_size c < 1024
   \<and> \<not> (max_rp_ids_length c = 0 \<and> default_min_pin_length_rp_ids c = [])"

section \<open>The dictionary\<close>

text \<open>
  \<open>opensk\<close> is the dictionary in the order the PDDB lists it, \<open>None\<close> before its creation.  Its keys are
  the decimal names of numbers, since only the store writes it.  \<open>listed\<close> is the list of keys the store
  remembers (\<open>entries\<close>).  The head of \<open>failing\<close> says whether the next request fails; no faults are left
  when it is empty.  \<open>entropy n\<close> is the \<open>n\<close>-th draw of \<open>gen_uniform_u8x32\<close>.
\<close>

record ctap_env =
  opensk :: "(nat \<times> bytes) list option"
  listed :: "nat list option"
  failing :: "bool list"
  custom :: customization
  entropy :: "nat \<Rightarrow> bytes"
  drawn :: nat

datatype pddb_error = NotFound | OtherKind

datatype persist_error = InvalidArgument | NoCapacity | NoLifetime | StorageError | InvalidStorage

type_synonym 'a pddb_request = "ctap_env \<Rightarrow> (pddb_error + 'a) \<times> ctap_env"
type_synonym 'a store_op = "ctap_env \<Rightarrow> (persist_error + 'a) \<times> ctap_env"

definition requesting :: "(ctap_env \<Rightarrow> (pddb_error + 'a) \<times> ctap_env) \<Rightarrow> 'a pddb_request" where
  "requesting f e = (case failing e of [] \<Rightarrow> f e
     | bad # rest \<Rightarrow> (let e' = e\<lparr>failing := rest\<rparr> in if bad then (Inl OtherKind, e') else f e'))"

definition opensk_list_keys :: "nat list pddb_request" where
  "opensk_list_keys = requesting (\<lambda>e. (case opensk e of None \<Rightarrow> Inl NotFound | Some d \<Rightarrow> Inr (map fst d), e))"

definition opensk_delete_key :: "nat \<Rightarrow> unit pddb_request" where
  "opensk_delete_key k = requesting (\<lambda>e. case opensk e of None \<Rightarrow> (Inl NotFound, e)
     | Some d \<Rightarrow> if map_of d k = None then (Inl NotFound, e) else (Inr (), e\<lparr>opensk := Some (AList.delete k d)\<rparr>))"

definition opensk_delete_key_list :: "nat list \<Rightarrow> unit pddb_request" where
  "opensk_delete_key_list ks e = (if ks = [] then (Inr (), e) else requesting
     (\<lambda>e. case opensk e of None \<Rightarrow> (Inl NotFound, e)
        | Some d \<Rightarrow> (Inr (), e\<lparr>opensk := Some (filter (\<lambda>(k, _). k \<notin> set ks) d)\<rparr>)) e)"

text \<open>\<open>get\<close> with both \<open>create\<close> flags: a missing dictionary or key is created, the key empty.\<close>

definition opensk_create :: "nat \<Rightarrow> unit pddb_request" where
  "opensk_create k = requesting (\<lambda>e. let d = (case opensk e of None \<Rightarrow> [] | Some d \<Rightarrow> d) in
     (Inr (), e\<lparr>opensk := Some (case map_of d k of None \<Rightarrow> AList.update k [] d | Some _ \<Rightarrow> d)\<rparr>))"

text \<open>\<open>write_all\<close> at the start of an open key; writing nothing makes no request.\<close>

definition opensk_write :: "nat \<Rightarrow> bytes \<Rightarrow> unit pddb_request" where
  "opensk_write k v e = (if v = [] then (Inr (), e) else requesting
     (\<lambda>e. case opensk e of None \<Rightarrow> (Inl NotFound, e)
        | Some d \<Rightarrow> (case map_of d k of None \<Rightarrow> (Inl NotFound, e)
            | Some old \<Rightarrow> (Inr (), e\<lparr>opensk := Some (AList.update k (overlay 0 v old) d)\<rparr>))) e)"

text \<open>\<open>get\<close> without creating, and \<open>read_to_end\<close>.\<close>

definition opensk_get :: "nat \<Rightarrow> bytes pddb_request" where
  "opensk_get k = requesting (\<lambda>e. (case opensk e of None \<Rightarrow> Inl NotFound
     | Some d \<Rightarrow> (case map_of d k of None \<Rightarrow> Inl NotFound | Some v \<Rightarrow> Inr v), e))"

definition opensk_read :: "bytes \<Rightarrow> bytes pddb_request" where
  "opensk_read v = requesting (\<lambda>e. (Inr v, e))"

section \<open>The store\<close>

datatype update = Insert nat bytes | Remove nat

text \<open>\<open>self.entries = self.pddb.list_keys(..).ok()\<close>\<close>

definition relist :: "ctap_env \<Rightarrow> ctap_env" where
  "relist e = (case opensk_list_keys e of (Inl _, e') \<Rightarrow> e'\<lparr>listed := None\<rparr>
     | (Inr ks, e') \<Rightarrow> e'\<lparr>listed := Some ks\<rparr>)"

definition store_open :: "ctap_env \<Rightarrow> ctap_env" where
  "store_open = relist"

definition store_iter :: "nat list store_op" where
  "store_iter e = (case listed e of None \<Rightarrow> Inl InvalidStorage | Some ks \<Rightarrow> Inr ks, e)"

definition apply_update :: "update \<Rightarrow> unit store_op" where
  "apply_update u e = (case u of
     Insert k v \<Rightarrow>
       (case opensk_create k (snd (opensk_delete_key k e)) of
          (Inl _, e') \<Rightarrow> (Inl StorageError, e')
        | (Inr _, e') \<Rightarrow>
            (case opensk_write k v e' of
               (Inl _, e'') \<Rightarrow> (Inl StorageError, e'')
             | (Inr _, e'') \<Rightarrow> (Inr (), e'')))
   | Remove k \<Rightarrow>
       (case opensk_delete_key k e of
          (Inl OtherKind, e') \<Rightarrow> (Inl StorageError, e')
        | (_, e') \<Rightarrow> (Inr (), e')))"

fun apply_updates :: "update list \<Rightarrow> unit store_op" where
  "apply_updates [] e = (Inr (), e)"
| "apply_updates (u # us) e =
     (case apply_update u e of (Inl x, e') \<Rightarrow> (Inl x, e') | (Inr _, e') \<Rightarrow> apply_updates us e')"

definition transaction :: "update list \<Rightarrow> unit store_op" where
  "transaction us e = (if us = [] then (Inr (), e)
     else case apply_updates us e of (Inl x, e') \<Rightarrow> (Inl x, e') | (Inr _, e') \<Rightarrow> (Inr (), relist e'))"

definition store_clear :: "nat \<Rightarrow> unit store_op" where
  "store_clear min_key e =
     (case opensk_list_keys e of
        (Inl _, e') \<Rightarrow> (Inl StorageError, e')
      | (Inr ks, e') \<Rightarrow>
          (case opensk_delete_key_list (filter (\<lambda>k. k \<ge> min_key) ks) e' of
             (Inl OtherKind, e'') \<Rightarrow> (Inl StorageError, e'')
           | (_, e'') \<Rightarrow> (Inr (), relist e'')))"

definition store_find :: "nat \<Rightarrow> bytes option store_op" where
  "store_find k e =
     (case opensk_get k e of
        (Inl NotFound, e') \<Rightarrow> (Inr None, e')
      | (Inl OtherKind, e') \<Rightarrow> (Inl StorageError, e')
      | (Inr v, e') \<Rightarrow> (case opensk_read v e' of
            (Inl _, e'') \<Rightarrow> (Inl StorageError, e'') | (Inr data, e'') \<Rightarrow> (Inr (Some data), e'')))"

definition store_find_handle :: "nat \<Rightarrow> nat option store_op" where
  "store_find_handle k e =
     (case opensk_list_keys e of
        (Inl OtherKind, e') \<Rightarrow> (Inl StorageError, e')
      | (Inl NotFound, e') \<Rightarrow> (Inr None, e')
      | (Inr ks, e') \<Rightarrow> (Inr (if k \<in> set ks then Some k else None), e'))"

definition store_insert :: "nat \<Rightarrow> bytes \<Rightarrow> unit store_op" where
  "store_insert k v = transaction [Insert k v]"

definition store_remove :: "nat \<Rightarrow> unit store_op" where
  "store_remove k = transaction [Remove k]"

text \<open>\<open>attributes\<close> of the record is one more request.\<close>

definition store_get_length :: "nat \<Rightarrow> nat store_op" where
  "store_get_length k e =
     (case opensk_get k e of
        (Inl _, e') \<Rightarrow> (Inl InvalidArgument, e')
      | (Inr v, e') \<Rightarrow> (case opensk_read v e' of
            (Inl _, e'') \<Rightarrow> (Inl StorageError, e'') | (Inr data, e'') \<Rightarrow> (Inr (length data), e'')))"

definition store_get_value :: "nat \<Rightarrow> bytes store_op" where
  "store_get_value k e = (case store_find k e of
     (Inl x, e') \<Rightarrow> (Inl x, e') | (Inr None, e') \<Rightarrow> (Inl InvalidArgument, e') | (Inr (Some v), e') \<Rightarrow> (Inr v, e'))"

definition max_value_length :: nat where
  "max_value_length = 10 * 1024 * 1024"

section \<open>Store errors as status codes\<close>

definition status_of_store :: "persist_error \<Rightarrow> ctap_status" where
  "status_of_store x = (case x of
     NoCapacity \<Rightarrow> CTAP2_ERR_KEY_STORE_FULL
   | NoLifetime \<Rightarrow> CTAP2_ERR_KEY_STORE_FULL
   | InvalidArgument \<Rightarrow> CTAP2_ERR_VENDOR_INTERNAL_ERROR
   | InvalidStorage \<Rightarrow> CTAP2_ERR_VENDOR_HARDWARE_FAILURE
   | StorageError \<Rightarrow> CTAP1_ERR_OTHER)"

definition stored :: "'a store_op \<Rightarrow> (ctap_env, 'a) op" where
  "stored f = (\<lambda>e. case f e of (Inl x, e') \<Rightarrow> (Bad (status_of_store x), e') | (Inr y, e') \<Rightarrow> (Good y, e'))"

section \<open>A sequence of keys as one value\<close>

text \<open>\<open>fragment.rs\<close>, for a range of keys.  \<open>get_handles\<close> places every listed key of the range at its
  position, and the keys present must be the first ones.\<close>

definition range_pos :: "nat \<times> nat \<Rightarrow> nat \<Rightarrow> nat option" where
  "range_pos r k = (if fst r \<le> k \<and> k < snd r then Some (k - fst r) else None)"

fun place_handles :: "nat \<times> nat \<Rightarrow> nat list \<Rightarrow> nat option list \<Rightarrow> persist_error + nat option list" where
  "place_handles r [] hs = Inr hs"
| "place_handles r (k # ks) hs = (case range_pos r k of
     None \<Rightarrow> place_handles r ks hs
   | Some pos \<Rightarrow>
       if pos \<ge> snd r - fst r then Inl InvalidArgument
       else case hs ! pos of
           Some old \<Rightarrow> Inl (if old \<noteq> k then InvalidArgument else InvalidStorage)
         | None \<Rightarrow> place_handles r ks (hs[pos := Some k]))"

fun first_handles :: "nat \<Rightarrow> nat option list \<Rightarrow> persist_error + nat list" where
  "first_handles n [] = Inr []"
| "first_handles n (h # hs) = (case (0 < n, h) of
     (True, Some k) \<Rightarrow> (case first_handles (n - 1) hs of Inl x \<Rightarrow> Inl x | Inr ks \<Rightarrow> Inr (k # ks))
   | (False, None) \<Rightarrow> first_handles (n - 1) hs
   | _ \<Rightarrow> Inl InvalidStorage)"

definition get_handles :: "nat \<times> nat \<Rightarrow> nat list store_op" where
  "get_handles r e = (case store_iter e of
     (Inl x, e') \<Rightarrow> (Inl x, e')
   | (Inr ks, e') \<Rightarrow> (case place_handles r ks (replicate (snd r - fst r) None) of
         Inl x \<Rightarrow> (Inl x, e')
       | Inr hs \<Rightarrow> (first_handles (length (filter (\<lambda>h. h \<noteq> None) hs)) hs, e')))"

fun read_chunks :: "nat \<Rightarrow> nat \<Rightarrow> nat \<Rightarrow> nat list \<Rightarrow> bytes store_op" where
  "read_chunks lo hi offset [] e = (Inr [], e)"
| "read_chunks lo hi offset (h # hs) e =
     (case store_get_length h e of
        (Inl x, e') \<Rightarrow> (Inl x, e')
      | (Inr len, e') \<Rightarrow>
          (let start = lo - offset; stop = min (hi - offset) len in
           if start < stop then
             (case store_get_value h e' of
                (Inl x, e'') \<Rightarrow> (Inl x, e'')
              | (Inr v, e'') \<Rightarrow>
                  (case read_chunks lo hi (offset + len) hs e'' of
                     (Inl x, f) \<Rightarrow> (Inl x, f)
                   | (Inr rest, f) \<Rightarrow> (Inr (drop start (take stop v) @ rest), f)))
           else read_chunks lo hi (offset + len) hs e'))"

definition fragment_read_range :: "nat \<times> nat \<Rightarrow> nat \<Rightarrow> nat \<Rightarrow> bytes option store_op" where
  "fragment_read_range r lo hi e =
     (if hi < lo then (Inl InvalidArgument, e)
      else case get_handles r e of
          (Inl x, e') \<Rightarrow> (Inl x, e')
        | (Inr hs, e') \<Rightarrow>
            if hs = [] then (Inr None, e')
            else case read_chunks lo hi 0 hs e' of
                (Inl x, e'') \<Rightarrow> (Inl x, e'') | (Inr v, e'') \<Rightarrow> (Inr (Some v), e''))"

fun read_all :: "nat list \<Rightarrow> bytes store_op" where
  "read_all [] e = (Inr [], e)"
| "read_all (h # hs) e = (case store_get_value h e of
     (Inl x, e') \<Rightarrow> (Inl x, e')
   | (Inr v, e') \<Rightarrow> (case read_all hs e' of (Inl x, f) \<Rightarrow> (Inl x, f) | (Inr rest, f) \<Rightarrow> (Inr (v @ rest), f)))"

definition fragment_read :: "nat \<times> nat \<Rightarrow> bytes option store_op" where
  "fragment_read r e = (case get_handles r e of
     (Inl x, e') \<Rightarrow> (Inl x, e')
   | (Inr hs, e') \<Rightarrow> if hs = [] then (Inr None, e')
       else case read_all hs e' of (Inl x, e'') \<Rightarrow> (Inl x, e'') | (Inr v, e'') \<Rightarrow> (Inr (Some v), e''))"

text \<open>The updates of the keys from position \<open>pos\<close> on, with the handles and chunks that are left.\<close>

fun fragment_updates :: "nat list \<Rightarrow> nat list \<Rightarrow> bytes list \<Rightarrow> (update list \<times> bytes list) store_op" where
  "fragment_updates [] hs cs e = (Inr ([], cs), e)"
| "fragment_updates (k # ks) hs cs e =
     (case (hs, cs) of
        ([], []) \<Rightarrow> fragment_updates ks [] [] e
      | (h # hs', []) \<Rightarrow>
          (case fragment_updates ks hs' [] e of
             (Inl x, f) \<Rightarrow> (Inl x, f) | (Inr (us, r), f) \<Rightarrow> (Inr (Remove k # us, r), f))
      | ([], c # cs') \<Rightarrow>
          (case fragment_updates ks [] cs' e of
             (Inl x, f) \<Rightarrow> (Inl x, f) | (Inr (us, r), f) \<Rightarrow> (Inr (Insert k c # us, r), f))
      | (h # hs', c # cs') \<Rightarrow>
          (case store_get_value h e of
             (Inl x, e') \<Rightarrow> (Inl x, e')
           | (Inr v, e') \<Rightarrow>
               (case fragment_updates ks hs' cs' e' of
                  (Inl x, f) \<Rightarrow> (Inl x, f)
                | (Inr (us, r), f) \<Rightarrow> (Inr ((if v = c then us else Insert k c # us), r), f))))"

fun chunks :: "nat \<Rightarrow> 'a list \<Rightarrow> 'a list list" where
  "chunks n [] = []"
| "chunks n (x # xs) = take (Suc (n - 1)) (x # xs) # chunks n (drop (n - 1) xs)"

definition fragment_write :: "nat \<times> nat \<Rightarrow> bytes \<Rightarrow> unit store_op" where
  "fragment_write r v e = (case get_handles r e of
     (Inl x, e') \<Rightarrow> (Inl x, e')
   | (Inr hs, e') \<Rightarrow> (case fragment_updates [fst r ..< snd r] hs (chunks max_value_length v) e' of
         (Inl x, e'') \<Rightarrow> (Inl x, e'')
       | (Inr (us, rest), e'') \<Rightarrow> if rest \<noteq> [] then (Inl InvalidArgument, e'') else transaction us e''))"

definition fragment_delete :: "nat \<times> nat \<Rightarrow> unit store_op" where
  "fragment_delete r e = (case get_handles r e of
     (Inl x, e') \<Rightarrow> (Inl x, e') | (Inr hs, e') \<Rightarrow> transaction (map Remove hs) e')"

section \<open>The store without faults\<close>

text \<open>
  \<open>held e\<close> is what the store holds: a map from keys to values.  \<open>put\<close> and \<open>without\<close> are the states an
  insertion and a removal leave when no request fails.
\<close>

named_theorems faultless \<open>store operations when no request fails\<close>

definition dict_of :: "ctap_env \<Rightarrow> (nat \<times> bytes) list" where
  "dict_of e = (case opensk e of None \<Rightarrow> [] | Some d \<Rightarrow> d)"

definition held :: "ctap_env \<Rightarrow> nat \<rightharpoonup> bytes" where
  "held e = map_of (dict_of e)"

definition put :: "nat \<Rightarrow> bytes \<Rightarrow> ctap_env \<Rightarrow> ctap_env" where
  "put k v e = (let d = AList.delete k (dict_of e) @ [(k, v)] in e\<lparr>opensk := Some d, listed := Some (map fst d)\<rparr>)"

definition without :: "nat \<Rightarrow> ctap_env \<Rightarrow> ctap_env" where
  "without k e = e\<lparr>opensk := map_option (AList.delete k) (opensk e),
     listed := map_option (\<lambda>d. map fst (AList.delete k d)) (opensk e)\<rparr>"

lemma put_fields [simp]:
  "failing (put k v e) = failing e" "custom (put k v e) = custom e" "entropy (put k v e) = entropy e"
  "drawn (put k v e) = drawn e"
  by (simp_all add: put_def Let_def)

lemma without_fields [simp]:
  "failing (without k e) = failing e" "custom (without k e) = custom e" "entropy (without k e) = entropy e"
  "drawn (without k e) = drawn e"
  by (simp_all add: without_def)

lemma held_put [simp]: "held (put k v e) = (held e)(k \<mapsto> v)"
  by (auto simp: held_def put_def dict_of_def Let_def map_add_def delete_conv' fun_eq_iff split: option.splits)

lemma held_without [simp]: "held (without k e) = (held e)(k := None)"
  by (auto simp: held_def without_def dict_of_def delete_conv' fun_eq_iff split: option.splits)

lemma held_update [simp]:
  "held (e\<lparr>failing := f\<rparr>) = held e" "held (e\<lparr>drawn := n\<rparr>) = held e" "held (e\<lparr>custom := c\<rparr>) = held e"
  by (simp_all add: held_def dict_of_def)

lemma update_fresh: "map_of d k = None \<Longrightarrow> AList.update k v d = d @ [(k, v)]"
  by (induction d) auto

lemma update_last: "map_of d k = None \<Longrightarrow> AList.update k v (d @ [(k, w)]) = d @ [(k, v)]"
  by (induction d) auto

lemma delete_absent: "map_of d k = None \<Longrightarrow> AList.delete k d = d"
  by (induction d) (auto split: if_splits)

lemma requesting_faultless: "failing e = [] \<Longrightarrow> requesting f e = f e"
  by (simp add: requesting_def)

lemma find_faultless [faultless]: "failing e = [] \<Longrightarrow> store_find k e = (Inr (held e k), e)"
  by (simp add: store_find_def opensk_get_def opensk_read_def requesting_faultless held_def dict_of_def
      split: option.split)

lemma iter_faultless: "store_iter e = (case listed e of None \<Rightarrow> Inl InvalidStorage | Some ks \<Rightarrow> Inr ks, e)"
  by (simp add: store_iter_def)

lemma find_handle_faultless [faultless]:
  "failing e = [] \<Longrightarrow> store_find_handle k e = (Inr (if k \<in> dom (held e) then Some k else None), e)"
  by (auto simp: store_find_handle_def opensk_list_keys_def requesting_faultless held_def dict_of_def dom_map_of_conv_image_fst
      split: option.split)

lemma get_value_faultless [faultless]:
  "failing e = [] \<Longrightarrow> held e k = Some v \<Longrightarrow> store_get_value k e = (Inr v, e)"
  by (simp add: store_get_value_def faultless)

lemma get_length_faultless [faultless]:
  "failing e = [] \<Longrightarrow> held e k = Some v \<Longrightarrow> store_get_length k e = (Inr (length v), e)"
  by (auto simp: store_get_length_def opensk_get_def opensk_read_def requesting_faultless held_def dict_of_def
      split: option.splits)

lemma stored_faultless [faultless]:
  "f e = (Inr y, e') \<Longrightarrow> stored f e = (Good y, e')"
  "f e = (Inl x, e') \<Longrightarrow> stored f e = (Bad (status_of_store x), e')"
  by (simp_all add: stored_def)

section \<open>The store as a map\<close>

text \<open>A well-formed store remembers the keys of its dictionary, each once.\<close>

definition well_listed :: "ctap_env \<Rightarrow> bool" where
  "well_listed e \<longleftrightarrow> listed e = map_option (map fst) (opensk e) \<and> distinct (map fst (dict_of e))"

definition clear_from :: "nat \<Rightarrow> ctap_env \<Rightarrow> ctap_env" where
  "clear_from m e = e\<lparr>opensk := map_option (filter (\<lambda>(k, _). k < m)) (opensk e),
     listed := map_option (\<lambda>d. map fst (filter (\<lambda>(k, _). k < m) d)) (opensk e)\<rparr>"

lemma clear_from_fields [simp]:
  "failing (clear_from m e) = failing e" "custom (clear_from m e) = custom e" "entropy (clear_from m e) = entropy e"
  "drawn (clear_from m e) = drawn e"
  by (simp_all add: clear_from_def)

lemma map_of_filter_key: "map_of (filter (\<lambda>(k, _). Q k) d) k = (if Q k then map_of d k else None)"
  by (induction d) auto

lemma held_clear_from [simp]: "held (clear_from m e) k = (if k < m then held e k else None)"
  by (auto simp: held_def clear_from_def dict_of_def map_of_filter_key split: option.splits)

lemma clear_faultless [faultless]:
  assumes "failing e = []"
  shows "store_clear m e = (if opensk e = None then (Inl StorageError, e) else (Inr (), clear_from m e))"
proof (cases "opensk e")
  case None
  then show ?thesis using assms by (simp add: store_clear_def opensk_list_keys_def requesting_faultless)
next
  case (Some d)
  have keep: "filter (\<lambda>(k, _). k \<notin> set (filter (\<lambda>k. m \<le> k) (map fst d))) d = filter (\<lambda>(k, _). k < m) d"
    by (rule filter_cong) (auto simp: image_iff not_le)
  have all: "filter (\<lambda>k. m \<le> k) (map fst d) = [] \<Longrightarrow> filter (\<lambda>(k, _). k < m) d = d"
    by (induction d) (auto simp: not_le split: if_splits)
  show ?thesis
    using assms Some all keep
    by (auto simp: store_clear_def opensk_list_keys_def requesting_faultless opensk_delete_key_list_def relist_def
        clear_from_def)
qed

lemma opensk_put [simp]: "opensk (put k v e) \<noteq> None"
  by (simp add: put_def Let_def)

fun update_state :: "update \<Rightarrow> ctap_env \<Rightarrow> ctap_env" where
  "update_state (Insert k v) e = put k v e"
| "update_state (Remove k) e = without k e"

lemma update_state_fields [simp]:
  "failing (update_state u e) = failing e" "custom (update_state u e) = custom e" "entropy (update_state u e) = entropy e"
  "drawn (update_state u e) = drawn e"
  by (cases u; simp)+

lemma relist_faultless: "failing e = [] \<Longrightarrow> relist e = e\<lparr>listed := map_option (map fst) (opensk e)\<rparr>"
  by (simp add: relist_def opensk_list_keys_def requesting_faultless split: option.split)

lemma put_unlisted: "put k v (e\<lparr>listed := l\<rparr>) = put k v e"
  by (simp add: put_def dict_of_def)

lemma without_unlisted: "without k (e\<lparr>listed := l\<rparr>) = without k e"
  by (simp add: without_def)

lemma apply_update_faultless:
  "failing e = [] \<Longrightarrow> \<exists>l. apply_update u e = (Inr (), (update_state u e)\<lparr>listed := l\<rparr>)"
proof (cases u)
  case (Insert k v)
  have fresh: "map_of (AList.delete k d) k = None" for d :: "(nat \<times> bytes) list"
    by (simp add: delete_conv')
  assume f: "failing e = []"
  have del: "snd (opensk_delete_key k e) = e\<lparr>opensk := map_option (AList.delete k) (opensk e)\<rparr>"
    by (auto simp: opensk_delete_key_def requesting_faultless [OF f] delete_absent split: option.splits)
  show ?thesis
    using f Insert by (auto simp: apply_update_def del put_def Let_def dict_of_def fresh
        opensk_create_def opensk_write_def requesting_faultless update_fresh update_last overlay_def
        split: option.splits intro!: exI [of _ "listed e"])
next
  case (Remove k)
  assume "failing e = []"
  then show ?thesis
    using Remove by (auto simp: apply_update_def without_def opensk_delete_key_def requesting_faultless delete_absent
        split: option.splits intro!: exI [of _ "listed e"])
qed

lemma update_state_unlisted: "update_state u (e\<lparr>listed := l\<rparr>) = update_state u e"
  by (cases u) (simp_all add: put_unlisted without_unlisted)

lemma apply_updates_faultless:
  "failing e = [] \<Longrightarrow> \<exists>l. apply_updates us e = (Inr (), (fold update_state us e)\<lparr>listed := l\<rparr>)"
proof (induction us arbitrary: e)
  case Nil
  show ?case by (auto intro!: exI [of _ "listed e"])
next
  case (Cons u us)
  obtain l where u: "apply_update u e = (Inr (), (update_state u e)\<lparr>listed := l\<rparr>)"
    using apply_update_faultless [OF Cons.prems] by blast
  obtain l' where "apply_updates us ((update_state u e)\<lparr>listed := l\<rparr>) =
      (Inr (), (fold update_state us ((update_state u e)\<lparr>listed := l\<rparr>))\<lparr>listed := l'\<rparr>)"
    using Cons.IH [of "(update_state u e)\<lparr>listed := l\<rparr>"] Cons.prems by auto
  moreover have "fold update_state us (e'\<lparr>listed := l\<rparr>) = (if us = [] then e'\<lparr>listed := l\<rparr> else fold update_state us e')" for e'
    by (cases us) (simp_all add: update_state_unlisted)
  ultimately show ?case using u by (auto split: if_splits)
qed

lemma update_state_listed: "listed (update_state u e) = map_option (map fst) (opensk (update_state u e))"
  by (cases u) (auto simp: put_def without_def Let_def option.map_comp comp_def)

lemma fold_listed: "us \<noteq> [] \<Longrightarrow> listed (fold update_state us e) = map_option (map fst) (opensk (fold update_state us e))"
  by (induction us arbitrary: e rule: rev_induct) (auto simp: update_state_listed)

lemma fold_failing [simp]: "failing (fold update_state us e) = failing e"
  by (induction us arbitrary: e) auto

lemma transaction_faultless [faultless]:
  assumes "failing e = []"
  shows "transaction us e = (Inr (), fold update_state us e)"
proof (cases "us = []")
  case False
  obtain l where "apply_updates us e = (Inr (), (fold update_state us e)\<lparr>listed := l\<rparr>)"
    using apply_updates_faultless [OF assms] by blast
  with False fold_listed [OF False, of e] assms show ?thesis
    by (simp add: transaction_def relist_faultless)
qed (simp add: transaction_def)

lemma insert_faultless [faultless]: "failing e = [] \<Longrightarrow> store_insert k v e = (Inr (), put k v e)"
  by (simp add: store_insert_def faultless)

lemma remove_faultless [faultless]: "failing e = [] \<Longrightarrow> store_remove k e = (Inr (), without k e)"
  by (simp add: store_remove_def faultless)

lemma distinct_update_state: "distinct (map fst (dict_of e)) \<Longrightarrow> distinct (map fst (dict_of (update_state u e)))"
  by (cases u) (auto simp: put_def without_def dict_of_def Let_def delete_keys distinct_removeAll split: option.splits)

lemma well_listed_update: "well_listed e \<Longrightarrow> well_listed (update_state u e)"
  by (simp add: well_listed_def update_state_listed distinct_update_state)

lemma well_listed_clear: "well_listed e \<Longrightarrow> well_listed (clear_from m e)"
  by (auto simp: well_listed_def clear_from_def dict_of_def option.map_comp comp_def distinct_map_filter split: option.splits)

section \<open>Refinement\<close>

text \<open>What a store promises: calls on an optional map, which is \<open>None\<close> before the first insertion.\<close>

datatype store_call = Find nat | FindHandle nat | Transact "update list" | Clear nat | ListKeys

datatype store_reply = Found "bytes option" | Present bool | Done | KeySet "nat set" | Failed persist_error

fun spec_update :: "update \<Rightarrow> (nat \<rightharpoonup> bytes) option \<Rightarrow> (nat \<rightharpoonup> bytes) option" where
  "spec_update (Insert k v) m = Some ((case m of None \<Rightarrow> Map.empty | Some f \<Rightarrow> f)(k \<mapsto> v))"
| "spec_update (Remove k) m = map_option (\<lambda>f. f(k := None)) m"

fun spec_serve :: "store_call \<Rightarrow> (nat \<rightharpoonup> bytes) option \<Rightarrow> store_reply \<times> (nat \<rightharpoonup> bytes) option" where
  "spec_serve (Find k) m = (Found (Option.bind m (\<lambda>f. f k)), m)"
| "spec_serve (FindHandle k) m = (Present (Option.bind m (\<lambda>f. f k) \<noteq> None), m)"
| "spec_serve (Transact us) m = (Done, fold spec_update us m)"
| "spec_serve (Clear n) m = (case m of None \<Rightarrow> (Failed StorageError, m) | Some f \<Rightarrow> (Done, Some (f |` {..<n})))"
| "spec_serve ListKeys m = (case m of None \<Rightarrow> Failed InvalidStorage | Some f \<Rightarrow> KeySet (dom f), m)"

definition reply_with :: "('a \<Rightarrow> store_reply) \<Rightarrow> 'a store_op \<Rightarrow> ctap_env \<Rightarrow> store_reply \<times> ctap_env" where
  "reply_with g f e = (case f e of (Inl x, e') \<Rightarrow> (Failed x, e') | (Inr y, e') \<Rightarrow> (g y, e'))"

fun serve :: "store_call \<Rightarrow> ctap_env \<Rightarrow> store_reply \<times> ctap_env" where
  "serve (Find k) = reply_with Found (store_find k)"
| "serve (FindHandle k) = reply_with (\<lambda>h. Present (h \<noteq> None)) (store_find_handle k)"
| "serve (Transact us) = reply_with (\<lambda>_. Done) (transaction us)"
| "serve (Clear n) = reply_with (\<lambda>_. Done) (store_clear n)"
| "serve ListKeys = reply_with (\<lambda>ks. KeySet (set ks)) store_iter"

fun serve_all :: "('c \<Rightarrow> 's \<Rightarrow> 'r \<times> 's) \<Rightarrow> 'c list \<Rightarrow> 's \<Rightarrow> 'r list \<times> 's" where
  "serve_all step [] s = ([], s)"
| "serve_all step (c # cs) s = (case step c s of (r, s') \<Rightarrow> case serve_all step cs s' of (rs, s'') \<Rightarrow> (r # rs, s''))"

definition store_abs :: "ctap_env \<Rightarrow> (nat \<rightharpoonup> bytes) option" where
  "store_abs e = map_option map_of (opensk e)"

lemma abs_update_state: "store_abs (update_state u e) = spec_update u (store_abs e)"
  by (cases u)
    (auto simp: store_abs_def put_def without_def dict_of_def Let_def delete_conv' fun_eq_iff map_add_def
      option.map_comp comp_def split: option.splits)

lemma abs_fold: "store_abs (fold update_state us e) = fold spec_update us (store_abs e)"
  by (induction us arbitrary: e) (simp_all add: abs_update_state)

lemma well_listed_fold: "well_listed e \<Longrightarrow> well_listed (fold update_state us e)"
  by (induction us arbitrary: e) (simp_all add: well_listed_update)

lemma abs_clear: "store_abs (clear_from n e) = map_option (\<lambda>f. f |` {..<n}) (store_abs e)"
  by (cases "opensk e") (auto simp: store_abs_def clear_from_def fun_eq_iff map_of_filter_key restrict_map_def)

lemma abs_None: "opensk e = None \<longleftrightarrow> store_abs e = None"
  by (simp add: store_abs_def)

lemma held_abs: "held e k = Option.bind (store_abs e) (\<lambda>f. f k)"
  by (simp add: held_def dict_of_def store_abs_def split: option.split)

lemma serve_refines:
  assumes "failing e = []" and "well_listed e" and "serve c e = (r, e')"
  shows "spec_serve c (store_abs e) = (r, store_abs e') \<and> failing e' = [] \<and> well_listed e'"
proof (cases c)
  case (Find k)
  then show ?thesis using assms by (auto simp: reply_with_def faultless held_abs)
next
  case (FindHandle k)
  then show ?thesis using assms by (auto simp: reply_with_def faultless held_abs dom_def split: if_splits)
next
  case (Transact us)
  then show ?thesis using assms by (auto simp: reply_with_def faultless abs_fold well_listed_fold)
next
  case (Clear n)
  then show ?thesis using assms
    by (auto simp: reply_with_def faultless abs_clear abs_None well_listed_clear split: if_splits option.split)
next
  case ListKeys
  then show ?thesis using assms
    by (auto simp: reply_with_def iter_faultless store_abs_def well_listed_def dict_of_def dom_map_of_conv_image_fst split: option.splits)
qed

text \<open>C12: A store over the PDDB is a map.  While no request to the PDDB fails, any sequence of calls has the same
  replies as on a map: what was inserted last is found, a removed key is not, a transaction applies its updates in
  order (also when they name a key twice, which the comment on it says is refused), clearing keeps exactly the keys below the bound, and the remembered key list is the map's domain.\<close>

theorem store_refines_map:
  assumes "failing e = []" and "well_listed e" and "serve_all serve calls e = (replies, e')"
  shows "serve_all spec_serve calls (store_abs e) = (replies, store_abs e') \<and> well_listed e'"
  using assms
proof (induction calls arbitrary: e replies)
  case (Cons c cs)
  obtain r e1 where c: "serve c e = (r, e1)" by (cases "serve c e")
  obtain rs e2 where cs: "serve_all serve cs e1 = (rs, e2)" by (cases "serve_all serve cs e1")
  from serve_refines [OF Cons.prems(1,2) c] Cons.IH [of e1 rs] Cons.prems(3) show ?case
    by (simp add: c cs)
qed simp

definition empty_env :: ctap_env where
  "empty_env = \<lparr>opensk = None, listed = None, failing = [], custom = DEFAULT_CUSTOMIZATION,
     entropy = (\<lambda>n. replicate 32 (word_of_nat n)), drawn = 0\<rparr>"

theorem store_refines_map_witness:
  "serve_all spec_serve [ListKeys, Transact [Insert 5 [1], Insert 30 [2]], Clear 20, Find 5, Find 30] None
     = ([Failed InvalidStorage, Done, Done, Found (Some [1]), Found None], store_abs (clear_from 20 (put 30 [2] (put 5 [1] empty_env))))"
proof -
  have f: "failing empty_env = []" and w: "well_listed empty_env" and a: "store_abs empty_env = None"
    by (simp_all add: empty_env_def well_listed_def dict_of_def store_abs_def)
  have "serve_all serve [ListKeys, Transact [Insert 5 [1], Insert 30 [2]], Clear 20, Find 5, Find 30] empty_env =
    ([Failed InvalidStorage, Done, Done, Found (Some [1]), Found None], clear_from 20 (put 30 [2] (put 5 [1] empty_env)))"
    using f by (simp add: reply_with_def faultless iter_faultless a empty_env_def [THEN arg_cong [of _ _ listed]]
        empty_env_def [THEN arg_cong [of _ _ held]])
  from store_refines_map [OF f w this] show ?thesis by (simp add: a)
qed

section \<open>Stores as an interface\<close>

text \<open>What clients rely on, whatever keeps the entries: \<open>ready\<close> says that the next request does not fail.\<close>

locale number_store =
  fixes find_value :: "nat \<Rightarrow> 'e \<Rightarrow> ('x + bytes option) \<times> 'e"
    and insert_value :: "nat \<Rightarrow> bytes \<Rightarrow> 'e \<Rightarrow> ('x + unit) \<times> 'e"
    and remove_value :: "nat \<Rightarrow> 'e \<Rightarrow> ('x + unit) \<times> 'e"
    and ready :: "'e \<Rightarrow> bool"
    and look_up :: "'e \<Rightarrow> nat \<rightharpoonup> bytes"
  assumes find_ready: "ready e \<Longrightarrow> find_value k e = (Inr (look_up e k), e)"
    and insert_ready: "ready e \<Longrightarrow> \<exists>e'. insert_value k v e = (Inr (), e') \<and> ready e' \<and> look_up e' = (look_up e)(k \<mapsto> v)"
    and remove_ready: "ready e \<Longrightarrow> \<exists>e'. remove_value k e = (Inr (), e') \<and> ready e' \<and> look_up e' = (look_up e)(k := None)"
begin

lemma found_after_insert: "ready e \<Longrightarrow> fst (find_value k' (snd (insert_value k v e))) = Inr (if k' = k then Some v else look_up e k')"
  using insert_ready [of e k v] by (auto simp: find_ready)

lemma found_after_remove: "ready e \<Longrightarrow> fst (find_value k' (snd (remove_value k e))) = Inr (if k' = k then None else look_up e k')"
  using remove_ready [of e k] by (auto simp: find_ready)

lemma insert_then_remove:
  "ready e \<Longrightarrow> look_up e k = None \<Longrightarrow> look_up (snd (remove_value k (snd (insert_value k v e)))) = look_up e"
  using insert_ready [of e k v] remove_ready [of "snd (insert_value k v e)" k] by (fastforce simp: fun_eq_iff)

lemma remove_then_insert:
  "ready e \<Longrightarrow> look_up e k = Some v \<Longrightarrow> look_up (snd (insert_value k v (snd (remove_value k e)))) = look_up e"
  using remove_ready [of e k] insert_ready [of "snd (remove_value k e)" k v] by (fastforce simp: fun_eq_iff)

end

interpretation opensk_store: number_store store_find store_insert store_remove "\<lambda>e. failing e = []" held
  by unfold_locales (auto simp: faultless)

end
