(* ===== verification/Ctap_Cbor.thy ===== *)
theory Ctap_Cbor
  imports Records Ctap_Store "HOL-Library.List_Lexorder" "HOL-Library.Multiset"
begin

text \<open>
  CBOR (\<open>libraries/cbor\<close>): the values, their order, the writer, the reader, and the macro that takes
  the fields of a map apart.  \<open>i64\<close> is a 64-bit word read as signed.  The target has a 32-bit \<open>usize\<close>:
  lengths of strings are cut to 32 bits where the code casts them.
\<close>

section \<open>Values\<close>

datatype simple_value = FalseValue | TrueValue | NullValue | Undefined

datatype cbor = Unsigned u64 | Negative u64 | ByteString bytes | TextString string | Array "cbor list"
  | Map "(cbor \<times> cbor) list" | Tag u64 cbor | Simple simple_value

fun simple_code :: "simple_value \<Rightarrow> u64" where
  "simple_code FalseValue = 20"
| "simple_code TrueValue = 21"
| "simple_code NullValue = 22"
| "simple_code Undefined = 23"

definition from_integer :: "u64 \<Rightarrow> simple_value option" where
  "from_integer n = (if n = 20 then Some FalseValue else if n = 21 then Some TrueValue
     else if n = 22 then Some NullValue else if n = 23 then Some Undefined else None)"

text \<open>\<open>Value::integer\<close>, for an \<open>i64\<close>.\<close>

definition cbor_integer :: "u64 \<Rightarrow> cbor" where
  "cbor_integer i = (if 0 \<le> sint i then Unsigned i else Negative i)"

definition bool_value :: "bool \<Rightarrow> cbor" where
  "bool_value b = Simple (if b then TrueValue else FalseValue)"

fun type_label :: "cbor \<Rightarrow> u8" where
  "type_label (Unsigned _) = 0"
| "type_label (Negative _) = 1"
| "type_label (ByteString _) = 2"
| "type_label (TextString _) = 3"
| "type_label (Array _) = 4"
| "type_label (Map _) = 5"
| "type_label (Tag _ _) = 6"
| "type_label (Simple _) = 7"

section \<open>The order of values\<close>

datatype ordering = Less | Equal | Greater

definition cmp_of :: "'a::linorder \<Rightarrow> 'a \<Rightarrow> ordering" where
  "cmp_of x y = (if x < y then Less else if x = y then Equal else Greater)"

fun and_then :: "ordering \<Rightarrow> ordering \<Rightarrow> ordering" where
  "and_then Equal o2 = o2"
| "and_then o1 _ = o1"

fun reverse_order :: "ordering \<Rightarrow> ordering" where
  "reverse_order Less = Greater"
| "reverse_order Equal = Equal"
| "reverse_order Greater = Less"

text \<open>Byte slices and texts of equal length are compared byte by byte.\<close>

fun cmp_bytes :: "nat list \<Rightarrow> nat list \<Rightarrow> ordering" where
  "cmp_bytes (x # xs) (y # ys) = and_then (cmp_of x y) (cmp_bytes xs ys)"
| "cmp_bytes [] [] = Equal"
| "cmp_bytes [] _ = Less"
| "cmp_bytes _ [] = Greater"

abbreviation pair_size :: "cbor \<times> cbor \<Rightarrow> nat" where
  "pair_size \<equiv> \<lambda>p. Suc (size (fst p) + size (snd p))"

function cmp :: "cbor \<Rightarrow> cbor \<Rightarrow> ordering"
  and cmp_items :: "cbor list \<Rightarrow> cbor list \<Rightarrow> ordering"
  and cmp_pairs :: "(cbor \<times> cbor) list \<Rightarrow> (cbor \<times> cbor) list \<Rightarrow> ordering" where
  "cmp x y =
     (if type_label x \<noteq> type_label y then cmp_of (type_label x) (type_label y)
      else case (x, y) of
          (Unsigned u1, Unsigned u2) \<Rightarrow> cmp_of u1 u2
        | (Negative n1, Negative n2) \<Rightarrow> reverse_order (cmp_of (sint n1) (sint n2))
        | (ByteString b1, ByteString b2) \<Rightarrow>
            and_then (cmp_of (length b1) (length b2)) (cmp_bytes (map unat b1) (map unat b2))
        | (TextString t1, TextString t2) \<Rightarrow>
            and_then (cmp_of (length t1) (length t2)) (cmp_bytes (map of_char t1) (map of_char t2))
        | (Array a1, Array a2) \<Rightarrow>
            (if length a1 \<noteq> length a2 then cmp_of (length a1) (length a2) else cmp_items a1 a2)
        | (Map m1, Map m2) \<Rightarrow>
            (if length m1 \<noteq> length m2 then cmp_of (length m1) (length m2) else cmp_pairs m1 m2)
        | (Tag t1 v1, Tag t2 v2) \<Rightarrow> and_then (cmp_of t1 t2) (cmp v1 v2)
        | (Simple s1, Simple s2) \<Rightarrow> cmp_of (simple_code s1) (simple_code s2))"
| "cmp_items (e1 # a1) (e2 # a2) = (case cmp e1 e2 of Equal \<Rightarrow> cmp_items a1 a2 | r \<Rightarrow> r)"
| "cmp_items [] _ = Equal"
| "cmp_items (e1 # a1) [] = Equal"
| "cmp_pairs (p1 # m1) (p2 # m2) =
     (case and_then (cmp (fst p1) (fst p2)) (cmp (snd p1) (snd p2)) of Equal \<Rightarrow> cmp_pairs m1 m2 | r \<Rightarrow> r)"
| "cmp_pairs [] _ = Equal"
| "cmp_pairs (p1 # m1) [] = Equal"
  by pat_completeness auto

termination
  by (relation "measure (case_sum (\<lambda>(x, _). size x)
       (case_sum (\<lambda>(a, _). size_list size a) (\<lambda>(m, _). size_list pair_size m)))")
     (auto simp: size_prod_simp)

declare cmp.simps [simp del]

text \<open>
  The order is that of codes: a value as the list of the numbers its comparison reads, in order.  No code
  continues another, so the order of codes is linear, and equal codes are equal values.
\<close>

fun code :: "cbor \<Rightarrow> nat list" where
  "code (Unsigned u) = [0, unat u]"
| "code (Negative n) = [1, nat (2 ^ 63 - sint n)]"
| "code (ByteString b) = 2 # length b # map unat b"
| "code (TextString t) = 3 # length t # map of_char t"
| "code (Array a) = 4 # length a # concat (map code a)"
| "code (Map m) = 5 # length m # concat (map (\<lambda>(k, v). code k @ code v) m)"
| "code (Tag t v) = 6 # unat t # code v"
| "code (Simple s) = [7, unat (simple_code s)]"

lemma and_then_assoc [simp]: "and_then (and_then a b) c = and_then a (and_then b c)"
  by (cases a) auto

lemma and_then_Equal [simp]: "and_then a Equal = a"
  by (cases a) auto

lemma cmp_of_simps [simp]: "cmp_of x x = Equal" "cmp_of (x # xs) (y # ys) = and_then (cmp_of x y) (cmp_of xs ys)"
  by (auto simp: cmp_of_def)

lemma cmp_of_Equal [simp]: "cmp_of x y = Equal \<longleftrightarrow> x = y"
  by (auto simp: cmp_of_def)

lemma and_then_stop [simp]: "x \<noteq> y \<Longrightarrow> and_then (cmp_of x y) z = cmp_of x y"
  by (auto simp: cmp_of_def)

lemma cmp_of_unat: "cmp_of (unat x) (unat y) = cmp_of x y"
  by (simp add: cmp_of_def word_less_nat_alt word_unat_eq_iff)

lemma cmp_of_negative:
  fixes m n :: u64
  shows "cmp_of (nat (9223372036854775808 - sint m)) (nat (9223372036854775808 - sint n)) = reverse_order (cmp_of (sint m) (sint n))"
proof -
  have "- (2 ^ 63) \<le> sint m \<and> sint m < 2 ^ 63" "- (2 ^ 63) \<le> sint n \<and> sint n < 2 ^ 63"
    using sint_range_size [of m] sint_range_size [of n] by (simp_all add: word_size)
  then show ?thesis by (auto simp: cmp_of_def)
qed

lemma cmp_bytes_append: "length xs = length ys \<Longrightarrow> cmp_of (xs @ x) (ys @ y) = and_then (cmp_bytes xs ys) (cmp_of x y)"
  by (induction xs ys rule: list_induct2) auto

lemma code_label: "\<exists>r. code v = unat (type_label v) # r"
  by (cases v) auto

lemma cmp_strings:
  "and_then (cmp_of (length b) (length c)) (cmp_of (map f b @ x) (map g c @ y)) =
     and_then (cmp_of (length b) (length c)) (and_then (cmp_bytes (map f b) (map g c)) (cmp_of x y))"
  by (cases "length b = length c") (simp_all add: cmp_bytes_append)

lemma cmp_same:
  "cmp (Unsigned u1) (Unsigned u2) = cmp_of u1 u2"
  "cmp (Negative n1) (Negative n2) = reverse_order (cmp_of (sint n1) (sint n2))"
  "cmp (ByteString b1) (ByteString b2) =
     and_then (cmp_of (length b1) (length b2)) (cmp_bytes (map unat b1) (map unat b2))"
  "cmp (TextString t1) (TextString t2) =
     and_then (cmp_of (length t1) (length t2)) (cmp_bytes (map of_char t1) (map of_char t2))"
  "cmp (Array a1) (Array a2) =
     (if length a1 \<noteq> length a2 then cmp_of (length a1) (length a2) else cmp_items a1 a2)"
  "cmp (Map m1) (Map m2) = (if length m1 \<noteq> length m2 then cmp_of (length m1) (length m2) else cmp_pairs m1 m2)"
  "cmp (Tag g1 v1) (Tag g2 v2) = and_then (cmp_of g1 g2) (cmp v1 v2)"
  "cmp (Simple s1) (Simple s2) = cmp_of (simple_code s1) (simple_code s2)"
  by (subst cmp.simps; simp)+

lemma cmp_other: "type_label a \<noteq> type_label b \<Longrightarrow> cmp a b = cmp_of (type_label a) (type_label b)"
  by (simp add: cmp.simps [of a b])

lemma cmp_code:
  "cmp_of (code a @ x) (code b @ y) = and_then (cmp a b) (cmp_of x y)"
  "length as = length bs \<Longrightarrow>
     cmp_of (concat (map code as) @ x) (concat (map code bs) @ y) = and_then (cmp_items as bs) (cmp_of x y)"
  "length ms = length ns \<Longrightarrow>
     cmp_of (concat (map (\<lambda>(k, v). code k @ code v) ms) @ x) (concat (map (\<lambda>(k, v). code k @ code v) ns) @ y)
       = and_then (cmp_pairs ms ns) (cmp_of x y)"
proof (induction a b and as bs and ms ns arbitrary: x y and x y and x y rule: cmp_cmp_items_cmp_pairs.induct)
  case (1 a b)
  show ?case
  proof (cases "type_label a = type_label b")
    case False
    then show ?thesis
      using code_label [of a] code_label [of b] by (auto simp: cmp.simps [of a b] cmp_of_unat)
  next
    case True
    with 1 show ?thesis
      by (cases a; cases b)
        (auto simp: cmp_same cmp_of_unat cmp_of_negative cmp_strings)
  qed
next
  case (2 e1 a1 e2 a2)
  then show ?case by (simp split: ordering.split)
next
  case (5 p1 m1 p2 m2)
  then show ?case
    by (cases p1; cases p2; cases "cmp (fst p1) (fst p2)"; cases "cmp (snd p1) (snd p2)") simp_all
qed auto

lemma cmp_is_code: "cmp a b = cmp_of (code a) (code b)"
  using cmp_code(1) [of a "[]" b "[]"] by simp

lemma map_unat_eq: "map unat xs = map unat ys \<longleftrightarrow> xs = (ys :: u8 list)"
  by (rule inj_map_eq_map) (simp add: inj_on_def word_unat_eq_iff)

lemma map_char_eq: "map (of_char :: char \<Rightarrow> nat) s = map of_char t \<longleftrightarrow> s = t"
  by (rule inj_map_eq_map) (simp add: inj_on_def)

lemma same_length_prefix: "map f xs @ x = map f ys @ y \<Longrightarrow> length xs = length ys \<Longrightarrow> map f xs = map f ys \<and> x = y"
  by (simp add: append_eq_append_conv)

lemma code_prefix_free: "code a @ x = code b @ y \<Longrightarrow> a = b \<and> x = y"
proof (induction a arbitrary: b x y)
  case (Array as)
  then obtain bs where b: "b = Array bs" "length as = length bs"
    and eq: "concat (map code as) @ x = concat (map code bs) @ y" by (cases b) auto
  have "as = bs \<and> x = y"
    using b(2) eq Array.IH
  proof (induction as bs arbitrary: x y rule: list_induct2)
    case (Cons a as b bs)
    have "a = b \<and> concat (map code as) @ x = concat (map code bs) @ y"
      using Cons.prems(2) [of a] Cons.prems(1) by simp
    moreover from this have "as = bs \<and> x = y" by (intro Cons.IH Cons.prems(2)) auto
    ultimately show ?case by simp
  qed simp
  with b show ?case by simp
next
  case (Map ms)
  let ?f = "\<lambda>(k, v). code k @ code v"
  obtain ns where b: "b = Map ns" "length ms = length ns"
    and eq: "concat (map ?f ms) @ x = concat (map ?f ns) @ y" using Map.prems by (cases b) auto
  have ih: "\<And>k v c x y. (k, v) \<in> set ms \<Longrightarrow> code k @ x = code c @ y \<Longrightarrow> k = c \<and> x = y"
    "\<And>k v c x y. (k, v) \<in> set ms \<Longrightarrow> code v @ x = code c @ y \<Longrightarrow> v = c \<and> x = y"
    subgoal for k v c x y by (rule Map.IH(1) [of "(k, v)"]) auto
    subgoal for k v c x y by (rule Map.IH(2) [of "(k, v)"]) auto
    done
  have "ms = ns \<and> x = y"
    using b(2) eq ih
  proof (induction ms ns arbitrary: x y rule: list_induct2)
    case (Cons m ms n ns)
    obtain k v k' v' where p: "m = (k, v)" "n = (k', v')" by (cases m; cases n)
    have "k = k' \<and> code v @ concat (map ?f ms) @ x = code v' @ concat (map ?f ns) @ y"
      using Cons.prems(2) [of k v] Cons.prems(1) by (simp add: p)
    moreover from this have "v = v' \<and> concat (map ?f ms) @ x = concat (map ?f ns) @ y"
      using Cons.prems(3) [of k v] by (auto simp: p)
    moreover from this have "ms = ns \<and> x = y"
      apply (intro Cons.IH)
      subgoal by simp
      subgoal for k v by (rule Cons.prems(2) [of k v]) simp_all
      subgoal for k v by (rule Cons.prems(3) [of k v]) simp_all
      done
    ultimately show ?case by (simp add: p)
  qed simp
  with b show ?case by simp
next
  case (ByteString bs)
  then show ?case by (cases b) (auto dest!: same_length_prefix simp: map_unat_eq)
next
  case (TextString t)
  then show ?case by (cases b) (auto dest!: same_length_prefix simp: map_char_eq)
next
  case (Negative n)
  have range: "sint m < 9223372036854775808" for m :: u64
    using sint_range_size [of m] by (simp add: word_size)
  have "m = n" if eq: "nat (9223372036854775808 - sint m) = nat (9223372036854775808 - sint n)" for m n :: u64
  proof -
    have "sint m = sint n" using eq range [of m] range [of n] by linarith
    then show ?thesis by (rule signed_word_eqI)
  qed
  with Negative show ?case by (cases b) auto
next
  case (Simple s)
  then show ?case by (cases b; cases s; cases "case b of Simple r \<Rightarrow> r | _ \<Rightarrow> s") auto
next
  case (Tag t v)
  then show ?case by (cases b) (auto simp: word_unat_eq_iff)
next
  case (Unsigned u)
  then show ?case by (cases b) (auto simp: word_unat_eq_iff)
qed

lemma code_inj: "code a = code b \<longleftrightarrow> a = b"
  using code_prefix_free [of a "[]" b "[]"] by auto

lemma cmp_Equal [simp]: "cmp a b = Equal \<longleftrightarrow> a = b"
  by (simp add: cmp_is_code code_inj)

lemma cmp_refl [simp]: "cmp a a = Equal"
  by (simp only: cmp_Equal)

instantiation cbor :: linorder
begin

definition less_eq_cbor :: "cbor \<Rightarrow> cbor \<Rightarrow> bool" where
  "less_eq_cbor a b \<longleftrightarrow> cmp a b \<noteq> Greater"

definition less_cbor :: "cbor \<Rightarrow> cbor \<Rightarrow> bool" where
  "less_cbor a b \<longleftrightarrow> cmp a b = Less"

instance
  by standard (auto simp: less_eq_cbor_def less_cbor_def cmp_is_code cmp_of_def code_inj split: if_splits)

end

section \<open>Writer\<close>

datatype encoder_error = EncTooMuchNesting | DuplicateMapKey

text \<open>The bytes of a size that follow the head, most significant first.\<close>

definition be_bytes :: "nat \<Rightarrow> u64 \<Rightarrow> bytes" where
  "be_bytes n sz = map (\<lambda>i. ucast (drop_bit (i * 8) sz)) (rev [0..<n])"

definition start_item :: "u8 \<Rightarrow> u64 \<Rightarrow> bytes" where
  "start_item label sz =
     (let (first, shift) =
        (if sz \<le> 23 then (ucast sz, 0) else if sz \<le> 0xFF then (24, 1)
         else if sz \<le> 0xFFFF then (25, 2) else if sz \<le> 0xFFFFFFFF then (26, 4) else (27, 8))
      in (first OR push_bit 5 label) # be_bytes shift sz)"

lemma size_list_sort: "size_list f (sort_key g xs) = size_list f xs"
proof -
  have "size_list f ys = sum_mset (image_mset f (mset ys)) + length ys" for ys
    by (induction ys) auto
  then show ?thesis by simp
qed

text \<open>\<open>sort_by\<close> is stable; \<open>dedup_by\<close> drops a pair whose key equals the one before.\<close>

function encode :: "int \<Rightarrow> cbor \<Rightarrow> encoder_error + bytes"
  and encode_items :: "int \<Rightarrow> cbor list \<Rightarrow> encoder_error + bytes"
  and encode_pairs :: "int \<Rightarrow> (cbor \<times> cbor) list \<Rightarrow> encoder_error + bytes" where
  "encode d v =
     (if d < 0 then Inl EncTooMuchNesting
      else case v of
          Unsigned u \<Rightarrow> Inr (start_item 0 u)
        | Negative n \<Rightarrow> Inr (start_item 1 (- (n + 1)))
        | ByteString b \<Rightarrow> Inr (start_item 2 (word_of_nat (length b)) @ b)
        | TextString t \<Rightarrow> Inr (start_item 3 (word_of_nat (length t)) @ bytes_of t)
        | Array a \<Rightarrow>
            (case encode_items (d - 1) a of Inl x \<Rightarrow> Inl x
             | Inr bs \<Rightarrow> Inr (start_item 4 (word_of_nat (length a)) @ bs))
        | Map m \<Rightarrow>
            (let ms = sort_key fst m in
             if length (remdups_adj (map fst ms)) \<noteq> length ms then Inl DuplicateMapKey
             else case encode_pairs (d - 1) ms of Inl x \<Rightarrow> Inl x
               | Inr bs \<Rightarrow> Inr (start_item 5 (word_of_nat (length ms)) @ bs))
        | Tag t w \<Rightarrow> (case encode (d - 1) w of Inl x \<Rightarrow> Inl x | Inr bs \<Rightarrow> Inr (start_item 6 t @ bs))
        | Simple s \<Rightarrow> Inr (start_item 7 (simple_code s)))"
| "encode_items d [] = Inr []"
| "encode_items d (v # vs) =
     (case encode d v of Inl x \<Rightarrow> Inl x
      | Inr bs \<Rightarrow> (case encode_items d vs of Inl x \<Rightarrow> Inl x | Inr cs \<Rightarrow> Inr (bs @ cs)))"
| "encode_pairs d [] = Inr []"
| "encode_pairs d (p # ps) =
     (case encode d (fst p) of Inl x \<Rightarrow> Inl x
      | Inr bs \<Rightarrow> (case encode d (snd p) of Inl x \<Rightarrow> Inl x
          | Inr cs \<Rightarrow> (case encode_pairs d ps of Inl x \<Rightarrow> Inl x | Inr ds \<Rightarrow> Inr (bs @ cs @ ds))))"
  by pat_completeness auto

termination
  by (relation "measure (case_sum (\<lambda>(_, x). size x)
       (case_sum (\<lambda>(_, a). size_list size a) (\<lambda>(_, m). size_list pair_size m)))")
     (auto simp: size_prod_simp size_list_sort)

declare encode.simps [simp del]

definition write_nested :: "int \<Rightarrow> cbor \<Rightarrow> encoder_error + bytes" where
  "write_nested = encode"

section \<open>Reader\<close>

datatype decoder_error = UnsupportedMajorType | UnknownAdditionalInfo | IncompleteCborData | TooMuchNesting
  | InvalidUtf8 | ExtraneousData | OutOfOrderKey | NonMinimalCborEncoding | UnsupportedSimpleValue
  | UnsupportedFloatingPointValue | OutOfRangeIntegerValue

definition read_bytes :: "nat \<Rightarrow> bytes \<Rightarrow> (bytes \<times> bytes) option" where
  "read_bytes n bs = (if n > length bs then None else Some (take n bs, drop n bs))"

definition as_usize :: "u64 \<Rightarrow> nat" where
  "as_usize n = unat (ucast n :: u32)"

definition read_variadic_length_integer :: "u8 \<Rightarrow> bytes \<Rightarrow> decoder_error + u64 \<times> bytes" where
  "read_variadic_length_integer info bs =
     (if info \<le> 23 then Inr (ucast info, bs)
      else if info > 27 then Inl UnknownAdditionalInfo
      else let n = (if info = 24 then 1 else if info = 25 then 2 else if info = 26 then 4 else 8 :: nat) in
        (case read_bytes n bs of None \<Rightarrow> Inl IncompleteCborData
         | Some (data, rest) \<Rightarrow>
             (let sz = foldl (\<lambda>s b. push_bit 8 s + ucast b) (0 :: u64) data in
              if (n = 1 \<and> sz < 24) \<or> sz < push_bit (8 * (n div 2)) 1 then Inl NonMinimalCborEncoding
              else Inr (sz, rest))))"

definition decode_to_simple_value :: "u64 \<Rightarrow> u8 \<Rightarrow> decoder_error + cbor" where
  "decode_to_simple_value sz info =
     (if info > 23 \<and> info \<noteq> 24 then Inl UnsupportedFloatingPointValue
      else case from_integer sz of Some s \<Rightarrow> Inr (Simple s) | None \<Rightarrow> Inl UnsupportedSimpleValue)"

definition decode_value_to_negative :: "u64 \<Rightarrow> decoder_error + cbor" where
  "decode_value_to_negative sz = (if sint sz < 0 then Inl OutOfRangeIntegerValue else Inr (Negative (- sz - 1)))"

definition read_text_string_content :: "u64 \<Rightarrow> bytes \<Rightarrow> decoder_error + cbor \<times> bytes" where
  "read_text_string_content sz bs = (case read_bytes (as_usize sz) bs of None \<Rightarrow> Inl IncompleteCborData
     | Some (data, rest) \<Rightarrow> (case from_utf8 data of Some s \<Rightarrow> Inr (TextString s, rest) | None \<Rightarrow> Inl InvalidUtf8))"

definition read_byte_string_content :: "u64 \<Rightarrow> bytes \<Rightarrow> decoder_error + cbor \<times> bytes" where
  "read_byte_string_content sz bs = (case read_bytes (as_usize sz) bs of None \<Rightarrow> Inl IncompleteCborData
     | Some (data, rest) \<Rightarrow> Inr (ByteString data, rest))"

text \<open>\<open>read_items n d\<close> and \<open>read_pairs n d last\<close> are the loops of \<open>read_array_content\<close> and
  \<open>read_map_content\<close>, with \<open>n\<close> rounds left.\<close>

function decode :: "int \<Rightarrow> bytes \<Rightarrow> decoder_error + cbor \<times> bytes"
  and read_items :: "nat \<Rightarrow> int \<Rightarrow> bytes \<Rightarrow> decoder_error + cbor list \<times> bytes"
  and read_pairs :: "nat \<Rightarrow> int \<Rightarrow> cbor option \<Rightarrow> bytes \<Rightarrow> decoder_error + (cbor \<times> cbor) list \<times> bytes" where
  "decode d bs =
     (if d < 0 then Inl TooMuchNesting
      else case read_bytes 1 bs of
          Some ([head], rest) \<Rightarrow>
            (let major = drop_bit 5 head; info = head AND 0x1F in
             case read_variadic_length_integer info rest of
               Inl x \<Rightarrow> Inl x
             | Inr (sz, rest) \<Rightarrow>
                 (if major = 0 then Inr (Unsigned sz, rest)
                  else if major = 1 then
                    (case decode_value_to_negative sz of Inl x \<Rightarrow> Inl x | Inr v \<Rightarrow> Inr (v, rest))
                  else if major = 2 then read_byte_string_content sz rest
                  else if major = 3 then read_text_string_content sz rest
                  else if major = 4 then
                    (case read_items (unat sz) (d - 1) rest of Inl x \<Rightarrow> Inl x | Inr (vs, r) \<Rightarrow> Inr (Array vs, r))
                  else if major = 5 then
                    (case read_pairs (unat sz) (d - 1) None rest of Inl x \<Rightarrow> Inl x | Inr (m, r) \<Rightarrow> Inr (Map m, r))
                  else if major = 6 then
                    (case decode (d - 1) rest of Inl x \<Rightarrow> Inl x | Inr (v, r) \<Rightarrow> Inr (Tag sz v, r))
                  else if major = 7 then
                    (case decode_to_simple_value sz info of Inl x \<Rightarrow> Inl x | Inr v \<Rightarrow> Inr (v, rest))
                  else Inl UnsupportedMajorType))
        | _ \<Rightarrow> Inl IncompleteCborData)"
| "read_items n d bs =
     (if n = 0 then Inr ([], bs)
      else case decode d bs of Inl x \<Rightarrow> Inl x
        | Inr (v, r) \<Rightarrow> (case read_items (n - 1) d r of Inl x \<Rightarrow> Inl x | Inr (vs, r') \<Rightarrow> Inr (v # vs, r')))"
| "read_pairs n d prev bs =
     (if n = 0 then Inr ([], bs)
      else case decode d bs of Inl x \<Rightarrow> Inl x
        | Inr (k, r) \<Rightarrow>
            (if (case prev of Some k' \<Rightarrow> k' \<ge> k | None \<Rightarrow> False) then Inl OutOfOrderKey
             else case decode d r of Inl x \<Rightarrow> Inl x
               | Inr (v, r') \<Rightarrow> (case read_pairs (n - 1) d (Some k) r' of Inl x \<Rightarrow> Inl x
                   | Inr (m, r'') \<Rightarrow> Inr ((k, v) # m, r''))))"
  by pat_completeness auto

termination
  by (relation "measures [case_sum (\<lambda>(d, _). nat (d + 1)) (case_sum (\<lambda>(_, d, _). nat (d + 1)) (\<lambda>(_, d, _). nat (d + 1))),
       case_sum (\<lambda>_. 0) (case_sum (\<lambda>(n, _). n + 1) (\<lambda>(n, _). n + 1))]") auto

declare decode.simps [simp del] read_items.simps [simp del] read_pairs.simps [simp del]

definition read_nested :: "int \<Rightarrow> bytes \<Rightarrow> decoder_error + cbor" where
  "read_nested d bs = (case decode d bs of Inl x \<Rightarrow> Inl x
     | Inr (v, rest) \<Rightarrow> if rest \<noteq> [] then Inl ExtraneousData else Inr v)"

section \<open>Reading back what was written\<close>

lemma head_parts:
  fixes i l :: u8
  assumes "i < 32" "l < 8"
  shows "drop_bit 5 (i OR push_bit 5 l) = l" "(i OR push_bit 5 l) AND 0x1F = i"
proof -
  have "take_bit 5 i = i" using assms(1) by (simp add: word_unat_eq_iff unsigned_take_bit_eq take_bit_nat_eq_self word_less_nat_alt)
  then have i: "bit i n \<Longrightarrow> n < 5" for n by (metis bit_take_bit_iff)
  have "take_bit 3 l = l" using assms(2) by (simp add: word_unat_eq_iff unsigned_take_bit_eq take_bit_nat_eq_self word_less_nat_alt)
  then have l: "bit l n \<Longrightarrow> n < 3" for n by (metis bit_take_bit_iff)
  have m: "(0x1F :: u8) = mask 5" by (simp add: mask_eq_exp_minus_1)
  show "drop_bit 5 (i OR push_bit 5 l) = l"
    by (rule bit_word_eqI) (auto simp: bit_simps dest: i l)
  show "(i OR push_bit 5 l) AND 0x1F = i"
    unfolding m by (rule bit_word_eqI) (auto simp: bit_simps dest: i l)
qed

lemma ucast_byte: "ucast (ucast (w :: u64) :: u8) = take_bit 8 w"
  by (rule bit_word_eqI) (auto simp: bit_simps)

lemma be_bytes_Suc: "be_bytes (Suc n) w = ucast (drop_bit (n * 8) w) # be_bytes n w"
  by (simp add: be_bytes_def)

lemma length_be_bytes [simp]: "length (be_bytes n w) = n"
  by (simp add: be_bytes_def)

lemma from_be_bytes:
  "foldl (\<lambda>s b. push_bit 8 s + ucast b) a (be_bytes n w) = push_bit (8 * n) a + take_bit (8 * n) (w :: u64)"
proof (induction n arbitrary: a)
  case 0
  show ?case by (simp add: be_bytes_def)
next
  case (Suc n)
  have "push_bit (8 * n) (ucast (ucast (drop_bit (n * 8) w) :: u8)) + take_bit (8 * n) w = take_bit (8 * n + 8) w"
    using bits_ident [of "8 * n" "take_bit (8 * n + 8) w"]
    by (simp add: ucast_byte drop_bit_take_bit take_bit_take_bit mult.commute)
  then show ?case
    by (simp only: be_bytes_Suc foldl_Cons Suc push_bit_add push_bit_push_bit mult_Suc_right add.assoc add.commute [of 8])
qed

lemma take_bit_fits: "unat w < 2 ^ n \<Longrightarrow> take_bit n (w :: 'a::len word) = w"
  by (simp add: word_unat_eq_iff unsigned_take_bit_eq take_bit_nat_eq_self)

lemma read_start_item:
  assumes "l < (8 :: u8)"
  obtains h t where "start_item l n = h # t" "drop_bit 5 h = l"
    "\<And>rest. read_variadic_length_integer (h AND 0x1F) (t @ rest) = Inr (n, rest)"
    "n \<le> 23 \<Longrightarrow> h AND 0x1F \<le> 23"
proof -
  consider "n \<le> 23" | "23 < n" "n \<le> 0xFF" | "0xFF < n" "n \<le> 0xFFFF" | "0xFFFF < n" "n \<le> 0xFFFFFFFF"
    | "0xFFFFFFFF < n" by fastforce
  then show ?thesis
  proof cases
    case 1
    then have "unat n \<le> 23" by (simp add: word_le_nat_alt)
    then have u: "ucast n \<le> (23 :: u8)" "ucast (ucast n :: u8) = n"
      by (simp_all add: ucast_byte take_bit_fits word_le_nat_alt unsigned_ucast_eq take_bit_nat_eq_self)
    then have "ucast n < (32 :: u8)" by (simp add: word_le_nat_alt word_less_nat_alt)
    with 1 u assms head_parts [of "ucast n" l] show ?thesis
      by (intro that [of "ucast n OR push_bit 5 l" "[]"])
         (simp_all add: start_item_def be_bytes_def read_variadic_length_integer_def)
  next
    case 2
    then have "take_bit 8 n = n" "\<not> n < 24" "\<not> n < 1"
      by (auto intro!: take_bit_fits simp: push_bit_eq_mult word_less_nat_alt word_le_nat_alt)
    with 2 assms head_parts [of 24 l] show ?thesis
      by (intro that [of "24 OR push_bit 5 l" "be_bytes 1 n"])
         (simp_all add: start_item_def read_variadic_length_integer_def read_bytes_def from_be_bytes
           word_le_nat_alt word_less_nat_alt)
  next
    case 3
    then have "take_bit 16 n = n" "\<not> n < 256"
      by (auto intro!: take_bit_fits simp: push_bit_eq_mult word_less_nat_alt word_le_nat_alt)
    with 3 assms head_parts [of 25 l] show ?thesis
      by (intro that [of "25 OR push_bit 5 l" "be_bytes 2 n"])
         (simp_all add: start_item_def read_variadic_length_integer_def read_bytes_def from_be_bytes
           word_le_nat_alt word_less_nat_alt push_bit_of_1)
  next
    case 4
    then have "take_bit 32 n = n" "\<not> n < 65536"
      by (auto intro!: take_bit_fits simp: push_bit_eq_mult word_less_nat_alt word_le_nat_alt)
    with 4 assms head_parts [of 26 l] show ?thesis
      by (intro that [of "26 OR push_bit 5 l" "be_bytes 4 n"])
         (simp_all add: start_item_def read_variadic_length_integer_def read_bytes_def from_be_bytes
           word_le_nat_alt word_less_nat_alt push_bit_of_1)
  next
    case 5
    then have "\<not> n < 4294967296" "take_bit 64 n = n"
      by (auto simp: word_less_nat_alt word_le_nat_alt take_bit_word_eq_self)
    with 5 assms head_parts [of 27 l] show ?thesis
      by (intro that [of "27 OR push_bit 5 l" "be_bytes 8 n"])
         (simp_all add: start_item_def read_variadic_length_integer_def read_bytes_def from_be_bytes
           word_le_nat_alt word_less_nat_alt push_bit_of_1)
  qed
qed

text \<open>
  What the writer can put down and the reader takes back: texts are UTF-8, strings are shorter than
  \<open>2^32\<close> bytes, negative numbers are negative, and the keys of maps are numbers or strings.
\<close>

fun atomic :: "cbor \<Rightarrow> bool" where
  "atomic (Array _) = False"
| "atomic (Map _) = False"
| "atomic (Tag _ _) = False"
| "atomic _ = True"

fun writable :: "cbor \<Rightarrow> bool" where
  "writable (Unsigned u) = True"
| "writable (Negative n) = (sint n < 0)"
| "writable (ByteString b) = (length b < 2 ^ 32)"
| "writable (TextString t) = (length t < 2 ^ 32 \<and> utf8_ok t)"
| "writable (Array a) = (length a < 2 ^ 64 \<and> (\<forall>v \<in> set a. writable v))"
| "writable (Map m) = (length m < 2 ^ 64 \<and> (\<forall>(k, v) \<in> set m. atomic k \<and> writable k \<and> writable v))"
| "writable (Tag t v) = writable v"
| "writable (Simple s) = True"

text \<open>The value that is read back: its maps in the order of their keys.\<close>

fun canonical :: "cbor \<Rightarrow> cbor" where
  "canonical (Array a) = Array (map canonical a)"
| "canonical (Map m) = Map (map (\<lambda>(k, v). (k, canonical v)) (sort_key fst m))"
| "canonical (Tag t v) = Tag t (canonical v)"
| "canonical v = v"

lemma canonical_atomic: "atomic k \<Longrightarrow> canonical k = k"
  by (cases k) auto

lemma remdups_adj_strict:
  "sorted xs \<Longrightarrow> length (remdups_adj xs) = length xs \<Longrightarrow> sorted_wrt (<) xs"
proof (induction xs rule: remdups_adj.induct)
  case (3 x y xs)
  then show ?case using remdups_adj_length [of "y # xs"] by (auto split: if_splits simp: less_le_trans)
qed auto

definition keys_after :: "cbor option \<Rightarrow> (cbor \<times> cbor) list \<Rightarrow> bool" where
  "keys_after prev m \<longleftrightarrow> sorted_wrt (<) (map fst m) \<and> (\<forall>k' k. prev = Some k' \<longrightarrow> k \<in> fst ` set m \<longrightarrow> k' < k)"

lemma keys_after_Cons: "keys_after prev ((k, v) # m) \<Longrightarrow>
    \<not> (case prev of Some k' \<Rightarrow> k' \<ge> k | None \<Rightarrow> False) \<and> keys_after (Some k) m"
  by (auto simp: keys_after_def not_le split: option.splits)

lemma word_of_length: "n < 18446744073709551616 \<Longrightarrow> unat (word_of_nat n :: u64) = n"
  by (simp add: unsigned_of_nat take_bit_nat_eq_self)

lemma usize_of_length: "n < 4294967296 \<Longrightarrow> as_usize (word_of_nat n) = n"
  by (simp add: as_usize_def unsigned_ucast_eq unsigned_of_nat take_bit_nat_eq_self)

lemma simple_of_code: "from_integer (simple_code s) = Some s"
  by (cases s) (simp_all add: from_integer_def)

lemma decode_head:
  "0 \<le> d \<Longrightarrow> read_variadic_length_integer (h AND 0x1F) t = Inr (n, rest) \<Longrightarrow>
   decode d (h # t) =
     (if drop_bit 5 h = 0 then Inr (Unsigned n, rest)
      else if drop_bit 5 h = 1 then (case decode_value_to_negative n of Inl x \<Rightarrow> Inl x | Inr v \<Rightarrow> Inr (v, rest))
      else if drop_bit 5 h = 2 then read_byte_string_content n rest
      else if drop_bit 5 h = 3 then read_text_string_content n rest
      else if drop_bit 5 h = 4 then
        (case read_items (unat n) (d - 1) rest of Inl x \<Rightarrow> Inl x | Inr (vs, r) \<Rightarrow> Inr (Array vs, r))
      else if drop_bit 5 h = 5 then
        (case read_pairs (unat n) (d - 1) None rest of Inl x \<Rightarrow> Inl x | Inr (m, r) \<Rightarrow> Inr (Map m, r))
      else if drop_bit 5 h = 6 then
        (case decode (d - 1) rest of Inl x \<Rightarrow> Inl x | Inr (v, r) \<Rightarrow> Inr (Tag n v, r))
      else if drop_bit 5 h = 7 then
        (case decode_to_simple_value n (h AND 0x1F) of Inl x \<Rightarrow> Inl x | Inr v \<Rightarrow> Inr (v, rest))
      else Inl UnsupportedMajorType)"
  by (simp add: decode.simps [of d "h # t"] read_bytes_def Let_def)

lemma decode_start:
  assumes "0 \<le> d"
  shows "decode d (start_item 0 n @ rest) = Inr (Unsigned n, rest)"
    "decode d (start_item 1 n @ rest) = (case decode_value_to_negative n of Inl x \<Rightarrow> Inl x | Inr v \<Rightarrow> Inr (v, rest))"
    "decode d (start_item 2 n @ rest) = read_byte_string_content n rest"
    "decode d (start_item 3 n @ rest) = read_text_string_content n rest"
    "decode d (start_item 4 n @ rest) =
       (case read_items (unat n) (d - 1) rest of Inl x \<Rightarrow> Inl x | Inr (vs, r) \<Rightarrow> Inr (Array vs, r))"
    "decode d (start_item 5 n @ rest) =
       (case read_pairs (unat n) (d - 1) None rest of Inl x \<Rightarrow> Inl x | Inr (m, r) \<Rightarrow> Inr (Map m, r))"
    "decode d (start_item 6 n @ rest) =
       (case decode (d - 1) rest of Inl x \<Rightarrow> Inl x | Inr (v, r) \<Rightarrow> Inr (Tag n v, r))"
    "n \<le> 23 \<Longrightarrow> decode d (start_item 7 n @ rest) =
       (case from_integer n of Some v \<Rightarrow> Inr (Simple v, rest) | None \<Rightarrow> Inl UnsupportedSimpleValue)"
  subgoal by (rule read_start_item [of 0 n]) (simp_all add: decode_head [OF assms])
  subgoal by (rule read_start_item [of 1 n]) (simp_all add: decode_head [OF assms])
  subgoal by (rule read_start_item [of 2 n]) (simp_all add: decode_head [OF assms])
  subgoal by (rule read_start_item [of 3 n]) (simp_all add: decode_head [OF assms])
  subgoal by (rule read_start_item [of 4 n]) (simp_all add: decode_head [OF assms])
  subgoal by (rule read_start_item [of 5 n]) (simp_all add: decode_head [OF assms])
  subgoal by (rule read_start_item [of 6 n]) (simp_all add: decode_head [OF assms])
  subgoal by (rule read_start_item [of 7 n])
    (simp_all add: decode_head [OF assms] decode_to_simple_value_def not_less split: option.split)
  done

lemma simple_code_small: "simple_code s \<le> 23"
  by (cases s) simp_all

lemma decode_simple: "0 \<le> d \<Longrightarrow> decode d (start_item 7 (simple_code s) @ rest) = Inr (Simple s, rest)"
  by (simp add: decode_start(8) simple_code_small simple_of_code)

lemma decode_negative:
  assumes "sint n < 0"
  shows "decode_value_to_negative (- n - 1) = Inr (Negative n)"
proof -
  have "- n - 1 = NOT n" by (simp add: not_eq_complement)
  then have "\<not> sint (- n - 1) < 0"
    using assms bit_last_iff [of n] bit_last_iff [of "NOT n"] by (simp add: bit_not_iff)
  then show ?thesis by (simp add: decode_value_to_negative_def)
qed

lemma encode_simps:
  "0 \<le> d \<Longrightarrow> encode d (Unsigned u) = Inr (start_item 0 u)"
  "0 \<le> d \<Longrightarrow> encode d (Negative n) = Inr (start_item 1 (- (n + 1)))"
  "0 \<le> d \<Longrightarrow> encode d (ByteString b) = Inr (start_item 2 (word_of_nat (length b)) @ b)"
  "0 \<le> d \<Longrightarrow> encode d (TextString t) = Inr (start_item 3 (word_of_nat (length t)) @ bytes_of t)"
  "0 \<le> d \<Longrightarrow> encode d (Array a) = (case encode_items (d - 1) a of Inl x \<Rightarrow> Inl x
     | Inr bs \<Rightarrow> Inr (start_item 4 (word_of_nat (length a)) @ bs))"
  "0 \<le> d \<Longrightarrow> encode d (Map m) =
     (if length (remdups_adj (map fst (sort_key fst m))) \<noteq> length m then Inl DuplicateMapKey
      else case encode_pairs (d - 1) (sort_key fst m) of Inl x \<Rightarrow> Inl x
        | Inr bs \<Rightarrow> Inr (start_item 5 (word_of_nat (length m)) @ bs))"
  "0 \<le> d \<Longrightarrow> encode d (Tag g w) = (case encode (d - 1) w of Inl x \<Rightarrow> Inl x | Inr bs \<Rightarrow> Inr (start_item 6 g @ bs))"
  "0 \<le> d \<Longrightarrow> encode d (Simple s) = Inr (start_item 7 (simple_code s))"
  "d < 0 \<Longrightarrow> encode d v = Inl EncTooMuchNesting"
  by (subst encode.simps; simp add: Let_def length_sort split: sum.split)+

lemma decode_strings:
  "length b < 4294967296 \<Longrightarrow> read_byte_string_content (word_of_nat (length b)) (b @ rest) = Inr (ByteString b, rest)"
  "length t < 4294967296 \<Longrightarrow> utf8_ok t \<Longrightarrow>
     read_text_string_content (word_of_nat (length t)) (bytes_of t @ rest) = Inr (TextString t, rest)"
  by (simp_all add: read_byte_string_content_def read_text_string_content_def usize_of_length
      read_bytes_def from_utf8_def codec)

lemma decode_encode:
  "encode d v = Inr bs \<Longrightarrow> writable v \<Longrightarrow> decode d (bs @ rest) = Inr (canonical v, rest)"
  "encode_items d vs = Inr bs \<Longrightarrow> \<forall>v \<in> set vs. writable v \<Longrightarrow>
     read_items (length vs) d (bs @ rest) = Inr (map canonical vs, rest)"
  "encode_pairs d m = Inr bs \<Longrightarrow> \<forall>(k, v) \<in> set m. atomic k \<and> writable k \<and> writable v \<Longrightarrow> keys_after prev m \<Longrightarrow>
     read_pairs (length m) d prev (bs @ rest) = Inr (map (\<lambda>(k, v). (k, canonical v)) m, rest)"
proof (induction d v and d vs and d m arbitrary: bs rest and bs rest and bs rest prev
    rule: encode_encode_items_encode_pairs.induct)
  case (1 d v)
  have d: "0 \<le> d" using 1(4) by (cases "d < 0") (auto simp: encode_simps)
  show ?case
  proof (cases v)
    case (Array a)
    with 1 d show ?thesis by (auto simp: encode_simps decode_start word_of_length split: sum.splits)
  next
    case (Map m)
    let ?ms = "sort_key fst m"
    have dup: "length (remdups_adj (map fst ?ms)) = length m"
      using 1(4) d Map by (auto simp: encode_simps split: if_splits)
    obtain cs where cs: "encode_pairs (d - 1) ?ms = Inr cs" "bs = start_item 5 (word_of_nat (length m)) @ cs"
      using 1(4) d Map by (auto simp: encode_simps dup split: sum.splits)
    have "keys_after None ?ms" using remdups_adj_strict [of "map fst ?ms"] dup by (simp add: keys_after_def)
    moreover have "\<forall>(k, v) \<in> set ?ms. atomic k \<and> writable k \<and> writable v" using 1(5) Map by simp
    ultimately have "read_pairs (length ?ms) (d - 1) None (cs @ rest) = Inr (map (\<lambda>(k, v). (k, canonical v)) ?ms, rest)"
      using 1(2) [of m ?ms cs None rest] d dup cs(1) Map by simp
    then show ?thesis using 1(5) d Map by (simp add: cs(2) decode_start word_of_length)
  next
    case (Tag t w)
    with 1 d show ?thesis by (auto simp: encode_simps decode_start split: sum.splits)
  qed (use 1(4,5) d in \<open>auto simp: encode_simps decode_start decode_simple decode_negative decode_strings\<close>)
next
  case (3 d v vs)
  then show ?case
    by (auto simp: read_items.simps [of "Suc _"] split: sum.splits)
next
  case (5 d p ps)
  obtain k v where p: "p = (k, v)" by (cases p)
  from 5 show ?case
    by (auto simp: p read_pairs.simps [of "Suc _"] canonical_atomic split: sum.splits dest!: keys_after_Cons)
qed (simp_all add: read_items.simps read_pairs.simps)

section \<open>Taking values apart\<close>

text \<open>\<open>destructure_cbor_map!\<close>: one pass over the pairs, the fields in the order of their keys.\<close>

fun peek_value :: "(cbor \<times> cbor) list \<Rightarrow> cbor \<Rightarrow> cbor option \<times> (cbor \<times> cbor) list" where
  "peek_value [] needle = (None, [])"
| "peek_value ((k, v) # it) needle = (case cmp k needle of
     Less \<Rightarrow> peek_value it needle
   | Equal \<Rightarrow> (Some v, it)
   | Greater \<Rightarrow> (None, (k, v) # it))"

fun destructure :: "cbor list \<Rightarrow> (cbor \<times> cbor) list \<Rightarrow> cbor option list" where
  "destructure [] it = []"
| "destructure (k # ks) it = (case peek_value it k of (x, it') \<Rightarrow> x # destructure ks it')"

type_synonym 'a parsed = "ctap_status + 'a"

definition extract_unsigned :: "cbor \<Rightarrow> u64 parsed" where
  "extract_unsigned v = (case v of Unsigned u \<Rightarrow> Inr u | _ \<Rightarrow> Inl CTAP2_ERR_CBOR_UNEXPECTED_TYPE)"

definition extract_integer :: "cbor \<Rightarrow> u64 parsed" where
  "extract_integer v = (case v of
     Unsigned u \<Rightarrow> if u \<le> 0x7FFFFFFFFFFFFFFF then Inr u else Inl CTAP2_ERR_CBOR_UNEXPECTED_TYPE
   | Negative i \<Rightarrow> Inr i | _ \<Rightarrow> Inl CTAP2_ERR_CBOR_UNEXPECTED_TYPE)"

definition extract_byte_string :: "cbor \<Rightarrow> bytes parsed" where
  "extract_byte_string v = (case v of ByteString b \<Rightarrow> Inr b | _ \<Rightarrow> Inl CTAP2_ERR_CBOR_UNEXPECTED_TYPE)"

definition extract_text_string :: "cbor \<Rightarrow> string parsed" where
  "extract_text_string v = (case v of TextString t \<Rightarrow> Inr t | _ \<Rightarrow> Inl CTAP2_ERR_CBOR_UNEXPECTED_TYPE)"

definition extract_array :: "cbor \<Rightarrow> cbor list parsed" where
  "extract_array v = (case v of Array a \<Rightarrow> Inr a | _ \<Rightarrow> Inl CTAP2_ERR_CBOR_UNEXPECTED_TYPE)"

definition extract_map :: "cbor \<Rightarrow> (cbor \<times> cbor) list parsed" where
  "extract_map v = (case v of Map m \<Rightarrow> Inr m | _ \<Rightarrow> Inl CTAP2_ERR_CBOR_UNEXPECTED_TYPE)"

definition extract_bool :: "cbor \<Rightarrow> bool parsed" where
  "extract_bool v = (case v of Simple FalseValue \<Rightarrow> Inr False | Simple TrueValue \<Rightarrow> Inr True
     | _ \<Rightarrow> Inl CTAP2_ERR_CBOR_UNEXPECTED_TYPE)"

definition required :: "'a option \<Rightarrow> 'a parsed" where
  "required x = (case x of None \<Rightarrow> Inl CTAP2_ERR_MISSING_PARAMETER | Some y \<Rightarrow> Inr y)"

text \<open>\<open>map(f).transpose()?\<close> on an optional field; \<open>bind_parsed\<close> is \<open>?\<close>.\<close>

definition optional :: "('a \<Rightarrow> 'b parsed) \<Rightarrow> 'a option \<Rightarrow> 'b option parsed" where
  "optional f x = (case x of None \<Rightarrow> Inr None | Some y \<Rightarrow> (case f y of Inl c \<Rightarrow> Inl c | Inr z \<Rightarrow> Inr (Some z)))"

definition bind_parsed :: "'a parsed \<Rightarrow> ('a \<Rightarrow> 'b parsed) \<Rightarrow> 'b parsed" where
  "bind_parsed x f = (case x of Inl c \<Rightarrow> Inl c | Inr y \<Rightarrow> f y)"

fun each_parsed :: "('a \<Rightarrow> 'b parsed) \<Rightarrow> 'a list \<Rightarrow> 'b list parsed" where
  "each_parsed f [] = Inr []"
| "each_parsed f (x # xs) = bind_parsed (f x) (\<lambda>y. bind_parsed (each_parsed f xs) (\<lambda>ys. Inr (y # ys)))"

text \<open>\<open>cbor_read\<close> and \<open>cbor_write\<close> of \<open>src/ctap/mod.rs\<close>.\<close>

definition MAX_CBOR_NESTING_DEPTH :: int where
  "MAX_CBOR_NESTING_DEPTH = 4"

definition cbor_read :: "bytes \<Rightarrow> cbor parsed" where
  "cbor_read bs = (case read_nested MAX_CBOR_NESTING_DEPTH bs of Inl _ \<Rightarrow> Inl CTAP2_ERR_INVALID_CBOR | Inr v \<Rightarrow> Inr v)"

definition cbor_write :: "cbor \<Rightarrow> bytes parsed" where
  "cbor_write v = (case write_nested MAX_CBOR_NESTING_DEPTH v of
     Inl _ \<Rightarrow> Inl CTAP2_ERR_VENDOR_INTERNAL_ERROR | Inr bs \<Rightarrow> Inr bs)"

lemma cmp_less: "cmp a b = Less \<longleftrightarrow> a < b" "cmp a b = Greater \<longleftrightarrow> b < a"
  by (auto simp: less_cbor_def cmp_is_code cmp_of_def code_inj split: if_splits)

lemma peek_lookup:
  "sorted_wrt (<) (map fst m) \<Longrightarrow> fst (peek_value m k) = map_of m k
     \<and> sorted_wrt (<) (map fst (snd (peek_value m k)))
     \<and> (\<forall>k' > k. map_of (snd (peek_value m k)) k' = map_of m k')"
proof (induction m k rule: peek_value.induct)
  case (2 k v it needle)
  have late: "map_of it k' = None" if "k' \<le> k" for k'
    using 2(2) that by (metis list.simps(9) fst_conv leD map_of_eq_None_iff sorted_wrt.simps(2) set_map image_iff)
  show ?case
  proof (cases "cmp k needle")
    case Less
    then have "k < needle" by (simp add: cmp_less)
    then show ?thesis using 2 by (auto simp: Less)
  next
    case Equal
    then have "k = needle" by simp
    then show ?thesis using 2(2) by auto
  next
    case Greater
    then have "needle < k" by (simp add: cmp_less)
    then show ?thesis using 2(2) late by (auto simp: Greater)
  qed
qed simp

text \<open>Taking a map apart field by field, in one pass over its pairs, gives for every field what a lookup of its
  key gives: the pass loses no field, when the pairs and the fields are in ascending order of their keys.\<close>

theorem destructuring_is_lookup:
  "sorted_wrt (<) (map fst m) \<Longrightarrow> sorted_wrt (<) ks \<Longrightarrow> destructure ks m = map (map_of m) ks"
proof (induction ks arbitrary: m)
  case (Cons k ks)
  obtain x m' where p: "peek_value m k = (x, m')" by (cases "peek_value m k")
  have l: "x = map_of m k" "sorted_wrt (<) (map fst m')" "\<forall>k' > k. map_of m' k' = map_of m k'"
    using peek_lookup [OF Cons.prems(1), of k] by (simp_all add: p)
  have "destructure ks m' = map (map_of m') ks" by (rule Cons.IH) (use l Cons.prems in auto)
  also have "\<dots> = map (map_of m) ks" using l(3) Cons.prems(2) by auto
  finally show ?case by (simp add: p l)
qed simp

theorem destructuring_is_lookup_witness:
  "destructure [Unsigned 1, Unsigned 3] [(Unsigned 1, Simple TrueValue), (Unsigned 2, ByteString [7])]
     = [Some (Simple TrueValue), None]"
  by (subst destructuring_is_lookup) (simp_all add: less_cbor_def cmp_same cmp_of_def)

text \<open>What the writer takes: values nested no deeper than the limit, whose maps have no key twice.\<close>

fun acceptable :: "int \<Rightarrow> cbor \<Rightarrow> bool" where
  "acceptable d (Array a) \<longleftrightarrow> 0 \<le> d \<and> (\<forall>v \<in> set a. acceptable (d - 1) v)"
| "acceptable d (Map m) \<longleftrightarrow> 0 \<le> d \<and> distinct (map fst m) \<and> (\<forall>(k, v) \<in> set m. acceptable (d - 1) k \<and> acceptable (d - 1) v)"
| "acceptable d (Tag t v) \<longleftrightarrow> 0 \<le> d \<and> acceptable (d - 1) v"
| "acceptable d v \<longleftrightarrow> 0 \<le> d"

lemma sorted_remdups_adj: "sorted xs \<Longrightarrow> length (remdups_adj xs) = length xs \<longleftrightarrow> distinct xs" for xs :: "cbor list"
  using remdups_adj_strict [of xs] by (auto simp: strict_sorted_iff remdups_adj_distinct)

lemma encode_accepts:
  "(\<exists>bs. encode d v = Inr bs) \<longleftrightarrow> acceptable d v"
  "(\<exists>bs. encode_items d vs = Inr bs) \<longleftrightarrow> (\<forall>v \<in> set vs. acceptable d v)"
  "(\<exists>bs. encode_pairs d m = Inr bs) \<longleftrightarrow> (\<forall>(k, v) \<in> set m. acceptable d k \<and> acceptable d v)"
proof (induction d v and d vs and d m rule: encode_encode_items_encode_pairs.induct)
  case (1 d v)
  show ?case
  proof (cases "0 \<le> d")
    case d: True
    show ?thesis
    proof (cases v)
      case (Array a)
      with 1 d show ?thesis by (auto simp: encode_simps split: sum.splits)
    next
      case (Map m)
      have "length (remdups_adj (map fst (sort_key fst m))) = length m \<longleftrightarrow> distinct (map fst m)"
        using sorted_remdups_adj [of "map fst (sort_key fst m)"]
        by (simp add: distinct_map distinct_sort inj_on_def)
      with 1(2) [of m "sort_key fst m"] d Map show ?thesis by (auto simp: encode_simps split: sum.splits)
    next
      case (Tag t w)
      with 1 d show ?thesis by (auto simp: encode_simps split: sum.splits)
    qed (use d in \<open>auto simp: encode_simps\<close>)
  qed (cases v; simp add: encode_simps)
next
  case (3 d v vs)
  then show ?case by (auto split: sum.splits)
next
  case (5 d p ps)
  then show ?case by (cases "encode d (fst p)"; cases "encode d (snd p)") (fastforce split: sum.splits)+
qed simp_all

text \<open>C22: The writer accepts exactly the values within the nesting limit whose maps have no key twice.  What it writes is read back, when the
  value keeps within the limits of the reader: the reader returns the same value, with the pairs of its maps in ascending order of
  their keys, and no byte is left over.\<close>

theorem cbor_round_trip:
  "if acceptable MAX_CBOR_NESTING_DEPTH v then \<exists>bs. cbor_write v = Inr bs \<and> (writable v \<longrightarrow> cbor_read bs = Inr (canonical v))
   else cbor_write v = Inl CTAP2_ERR_VENDOR_INTERNAL_ERROR"
proof (cases "encode MAX_CBOR_NESTING_DEPTH v")
  case (Inl x)
  with encode_accepts(1) [of MAX_CBOR_NESTING_DEPTH v] show ?thesis by (simp add: cbor_write_def write_nested_def)
next
  case (Inr bs)
  with encode_accepts(1) [of MAX_CBOR_NESTING_DEPTH v] decode_encode(1) [OF Inr, of "[]"] show ?thesis
    by (auto simp: cbor_write_def write_nested_def cbor_read_def read_nested_def)
qed

definition sample_cbor :: cbor where
  "sample_cbor = Map [(TextString ''id'', ByteString [1, 2]), (Unsigned 3, Array [Negative (- 7), Simple TrueValue])]"

theorem cbor_round_trip_witness:
  "cbor_read [0xA2, 0x03, 0x82, 0x26, 0xF5, 0x62, 0x69, 0x64, 0x42, 1, 2] =
     Inr (Map [(Unsigned 3, Array [Negative (- 7), Simple TrueValue]), (TextString ''id'', ByteString [1, 2])])"
proof -
  have c: "canonical sample_cbor =
    Map [(Unsigned 3, Array [Negative (- 7), Simple TrueValue]), (TextString ''id'', ByteString [1, 2])]"
    by code_simp
  have "cbor_write sample_cbor = Inr [0xA2, 0x03, 0x82, 0x26, 0xF5, 0x62, 0x69, 0x64, 0x42, 1, 2]"
    by (simp add: cbor_write_def write_nested_def MAX_CBOR_NESTING_DEPTH_def sample_cbor_def encode_simps
        less_eq_cbor_def cmp_other cmp_of_def start_item_def be_bytes_def bytes_of_def)
  moreover have "writable sample_cbor"
    by (simp add: sample_cbor_def utf8_ok_def utf8_lead_def)
  ultimately show ?thesis using cbor_round_trip [of sample_cbor] by (simp add: c split: if_splits)
qed

text \<open>On the target, whose \<open>usize\<close> has 32 bits, the reader cuts the length of a byte string to its low 32 bits: an
  encoding that announces \<open>2^32 + 1\<close> bytes is read as one byte, though it is not the encoding of that value.\<close>

theorem long_length_is_cut:
  "cbor_read [0x5B, 0, 0, 0, 1, 0, 0, 0, 1, 0x2A] = Inr (ByteString [0x2A])
   \<and> cbor_write (ByteString [0x2A]) = Inr [0x41, 0x2A]"
proof
  show "cbor_read [0x5B, 0, 0, 0, 1, 0, 0, 0, 1, 0x2A] = Inr (ByteString [0x2A])" by code_simp
  show "cbor_write (ByteString [0x2A]) = Inr [0x41, 0x2A]" by code_simp
qed

end
