(* ===== verification/Ctap_Storage.thy ===== *)
theory Ctap_Storage
  imports Ctap_Cbor
begin

text \<open>
  What the security key keeps over a power cycle (\<open>src/ctap/storage.rs\<close>, \<open>storage/key.rs\<close>, and the key
  store of \<open>src/api/key_store.rs\<close>): the PIN and its retries, its policy, the signature counter, the
  secrets, the flags, the large blobs.  Credentials are in \<open>Ctap_Credentials\<close>.
\<close>

section \<open>Keys\<close>

definition NUM_PERSISTENT_KEYS :: nat where "NUM_PERSISTENT_KEYS = 20"
definition AAGUID :: nat where "AAGUID = 3"
definition CREDENTIALS :: "nat \<times> nat" where "CREDENTIALS = (1700, 2000)"
definition LARGE_BLOB_SHARDS :: "nat \<times> nat" where "LARGE_BLOB_SHARDS = (2000, 2004)"
definition ALWAYS_UV :: nat where "ALWAYS_UV = 2038"
definition ENTERPRISE_ATTESTATION :: nat where "ENTERPRISE_ATTESTATION = 2039"
definition FORCE_PIN_CHANGE :: nat where "FORCE_PIN_CHANGE = 2040"
definition CRED_RANDOM_SECRET :: nat where "CRED_RANDOM_SECRET = 2041"
definition MIN_PIN_LENGTH_RP_IDS :: nat where "MIN_PIN_LENGTH_RP_IDS = 2042"
definition MIN_PIN_LENGTH :: nat where "MIN_PIN_LENGTH = 2043"
definition PIN_RETRIES :: nat where "PIN_RETRIES = 2044"
definition PIN_PROPERTIES :: nat where "PIN_PROPERTIES = 2045"
definition STORAGE_KEY :: nat where "STORAGE_KEY = 2046"
definition GLOBAL_SIGNATURE_COUNTER :: nat where "GLOBAL_SIGNATURE_COUNTER = 2047"

lemmas key_numbers = NUM_PERSISTENT_KEYS_def AAGUID_def CREDENTIALS_def LARGE_BLOB_SHARDS_def ALWAYS_UV_def
  ENTERPRISE_ATTESTATION_def FORCE_PIN_CHANGE_def CRED_RANDOM_SECRET_def MIN_PIN_LENGTH_RP_IDS_def MIN_PIN_LENGTH_def
  PIN_RETRIES_def PIN_PROPERTIES_def STORAGE_KEY_def GLOBAL_SIGNATURE_COUNTER_def

type_synonym 'a env_op = "(ctap_env, 'a) op"

definition find :: "nat \<Rightarrow> bytes option env_op" where
  "find k = stored (store_find k)"

definition insert_at :: "nat \<Rightarrow> bytes \<Rightarrow> unit env_op" where
  "insert_at k v = stored (store_insert k v)"

definition remove_at :: "nat \<Rightarrow> unit env_op" where
  "remove_at k = stored (store_remove k)"

definition gen_uniform_u8x32 :: "bytes env_op" where
  "gen_uniform_u8x32 = (\<lambda>e. (Good (entropy e (drawn e)), e\<lparr>drawn := Suc (drawn e)\<rparr>))"

section \<open>Flags and single values\<close>

text \<open>An entry that is set when it exists and is empty.\<close>

definition flag :: "nat \<Rightarrow> bool env_op" where
  "flag k = attempt (find k) (\<lambda>v. case v of
     None \<Rightarrow> give False
   | Some value \<Rightarrow> if value = [] then give True else refuse CTAP2_ERR_VENDOR_INTERNAL_ERROR)"

definition has_force_pin_change :: "bool env_op" where
  "has_force_pin_change = flag FORCE_PIN_CHANGE"

definition force_pin_change :: "unit env_op" where
  "force_pin_change = insert_at FORCE_PIN_CHANGE []"

definition enterprise_attestation :: "bool env_op" where
  "enterprise_attestation = flag ENTERPRISE_ATTESTATION"

definition has_always_uv :: "bool env_op" where
  "has_always_uv = attempt (inspect (\<lambda>e. enforce_always_uv (custom e))) (\<lambda>enforced.
     if enforced then give True else flag ALWAYS_UV)"

definition toggle_always_uv :: "unit env_op" where
  "toggle_always_uv = attempt (inspect (\<lambda>e. enforce_always_uv (custom e))) (\<lambda>enforced.
     if enforced then refuse CTAP2_ERR_OPERATION_DENIED
     else attempt has_always_uv (\<lambda>on. if on then remove_at ALWAYS_UV else insert_at ALWAYS_UV []))"

definition INITIAL_SIGNATURE_COUNTER :: u32 where
  "INITIAL_SIGNATURE_COUNTER = 1"

text \<open>The target is little endian: \<open>to_ne_bytes\<close> and \<open>from_ne_bytes\<close>.\<close>

definition global_signature_counter :: "u32 env_op" where
  "global_signature_counter = attempt (find GLOBAL_SIGNATURE_COUNTER) (\<lambda>v. case v of
     None \<Rightarrow> give INITIAL_SIGNATURE_COUNTER
   | Some value \<Rightarrow>
       if length value = 4 then give (u32_from_le (value ! 0) (value ! 1) (value ! 2) (value ! 3))
       else refuse CTAP2_ERR_VENDOR_INTERNAL_ERROR)"

definition incr_global_signature_counter :: "u32 \<Rightarrow> unit env_op" where
  "incr_global_signature_counter increment = attempt global_signature_counter (\<lambda>old_value.
     insert_at GLOBAL_SIGNATURE_COUNTER (le_bytes32 (old_value + increment)))"

definition cred_random_secret :: "bool \<Rightarrow> bytes env_op" where
  "cred_random_secret has_uv = attempt (find CRED_RANDOM_SECRET) (\<lambda>v.
     attempt (ok_or CTAP2_ERR_VENDOR_INTERNAL_ERROR v) (\<lambda>secret.
     if length secret \<noteq> 64 then refuse CTAP2_ERR_VENDOR_INTERNAL_ERROR
     else give (take 32 (drop (if has_uv then 32 else 0) secret))))"

section \<open>The PIN\<close>

definition PIN_AUTH_LENGTH :: nat where
  "PIN_AUTH_LENGTH = 16"

record pin_record =
  pp_hash :: bytes
  pp_code_point_length :: u8

definition pin_properties :: "pin_record option env_op" where
  "pin_properties = attempt (find PIN_PROPERTIES) (\<lambda>v. case v of
     None \<Rightarrow> give None
   | Some data \<Rightarrow>
       if length data = PIN_AUTH_LENGTH + 1
       then give (Some \<lparr>pp_hash = take PIN_AUTH_LENGTH (drop 1 data), pp_code_point_length = data ! 0\<rparr>)
       else refuse CTAP2_ERR_VENDOR_INTERNAL_ERROR)"

definition pin_hash :: "bytes option env_op" where
  "pin_hash = attempt pin_properties (\<lambda>p. give (map_option pp_hash p))"

definition pin_code_point_length :: "u8 option env_op" where
  "pin_code_point_length = attempt pin_properties (\<lambda>p. give (map_option pp_code_point_length p))"

definition set_pin :: "bytes \<Rightarrow> u8 \<Rightarrow> unit env_op" where
  "set_pin hash len = stored (transaction [Insert PIN_PROPERTIES (len # hash), Remove FORCE_PIN_CHANGE])"

text \<open>A value of one byte, with the default of the build.\<close>

definition byte_value :: "nat \<Rightarrow> (customization \<Rightarrow> u8) \<Rightarrow> u8 env_op" where
  "byte_value k dflt = attempt (find k) (\<lambda>v. case v of
     None \<Rightarrow> inspect (\<lambda>e. dflt (custom e))
   | Some value \<Rightarrow> if length value = 1 then give (value ! 0) else refuse CTAP2_ERR_VENDOR_INTERNAL_ERROR)"

definition pin_retries :: "u8 env_op" where
  "pin_retries = byte_value PIN_RETRIES max_pin_retries"

definition saturating_pred :: "u8 \<Rightarrow> u8" where
  "saturating_pred x = (if x = 0 then 0 else x - 1)"

definition decr_pin_retries :: "unit env_op" where
  "decr_pin_retries = attempt pin_retries (\<lambda>old_value.
     if saturating_pred old_value \<noteq> old_value then insert_at PIN_RETRIES [saturating_pred old_value] else give ())"

definition reset_pin_retries :: "unit env_op" where
  "reset_pin_retries = remove_at PIN_RETRIES"

definition min_pin_length :: "u8 env_op" where
  "min_pin_length = byte_value MIN_PIN_LENGTH default_min_pin_length"

definition set_min_pin_length :: "u8 \<Rightarrow> unit env_op" where
  "set_min_pin_length n = insert_at MIN_PIN_LENGTH [n]"

definition deserialize_min_pin_length_rp_ids :: "bytes \<Rightarrow> string list option" where
  "deserialize_min_pin_length_rp_ids data =
     (case bind_parsed (cbor_read data) (\<lambda>v. bind_parsed (extract_array v) (each_parsed extract_text_string)) of
        Inl _ \<Rightarrow> None | Inr ids \<Rightarrow> Some ids)"

definition serialize_min_pin_length_rp_ids :: "string list \<Rightarrow> bytes parsed" where
  "serialize_min_pin_length_rp_ids ids = cbor_write (Array (map TextString ids))"

text \<open>The assertion on the stored list is in debug builds only.\<close>

definition min_pin_length_rp_ids :: "string list env_op" where
  "min_pin_length_rp_ids = attempt (find MIN_PIN_LENGTH_RP_IDS) (\<lambda>v. case v of
     None \<Rightarrow> inspect (\<lambda>e. default_min_pin_length_rp_ids (custom e))
   | Some value \<Rightarrow> give (case deserialize_min_pin_length_rp_ids value of None \<Rightarrow> [] | Some ids \<Rightarrow> ids))"

definition with_defaults :: "string list \<Rightarrow> string list \<Rightarrow> string list" where
  "with_defaults defaults ids = foldl (\<lambda>ids rp_id. if rp_id \<notin> set ids then ids @ [rp_id] else ids) ids defaults"

definition set_min_pin_length_rp_ids :: "string list \<Rightarrow> unit env_op" where
  "set_min_pin_length_rp_ids ids = attempt (inspect custom) (\<lambda>c.
     let ids = with_defaults (default_min_pin_length_rp_ids c) ids in
     if length ids > max_rp_ids_length c then refuse CTAP2_ERR_KEY_STORE_FULL
     else attempt (checked (serialize_min_pin_length_rp_ids ids)) (\<lambda>value. insert_at MIN_PIN_LENGTH_RP_IDS value))"

section \<open>Large blobs\<close>

definition EMPTY_LARGE_BLOB :: bytes where
  "EMPTY_LARGE_BLOB = [0x80, 0x76, 0xBE, 0x8B, 0x52, 0x8D, 0x00, 0x75, 0xF7, 0xAA, 0xE9, 0x8D, 0x6F, 0xA5,
     0x7A, 0x6D, 0x3C]"

text \<open>Positions are 32 bits wide; a slice whose start is behind its end, or that goes past the array, is \<open>None\<close>.\<close>

definition get_large_blob_array :: "nat \<Rightarrow> nat \<Rightarrow> bytes env_op" where
  "get_large_blob_array offset byte_count =
     (let end = (offset + byte_count) mod 2 ^ 32 in
      attempt (stored (fragment_read_range LARGE_BLOB_SHARDS offset end)) (\<lambda>output. give (case output of
        Some v \<Rightarrow> v
      | None \<Rightarrow> (let last_index = min (length EMPTY_LARGE_BLOB) end in
          if offset \<le> last_index then drop offset (take last_index EMPTY_LARGE_BLOB) else []))))"

definition commit_large_blob_array :: "bytes \<Rightarrow> unit env_op" where
  "commit_large_blob_array v = attempt (inspect (\<lambda>e. max_large_blob_array_size (custom e))) (\<lambda>limit.
     if length v > limit then refuse CTAP2_ERR_VENDOR_INTERNAL_ERROR
     else stored (fragment_write LARGE_BLOB_SHARDS v))"

section \<open>Identity, master keys, start and reset\<close>

definition AAGUID_LENGTH :: nat where
  "AAGUID_LENGTH = 16"

definition BUILT_AAGUID :: bytes where
  "BUILT_AAGUID = [0x48, 0xe0, 0x37, 0x1c, 0x32, 0x52, 0x57, 0xf7, 0xd2, 0xf0, 0x00, 0x0f, 0xbd, 0x7a, 0x89, 0x19]"

definition aaguid :: "bytes env_op" where
  "aaguid = attempt (find AAGUID) (\<lambda>v. attempt (ok_or CTAP2_ERR_VENDOR_INTERNAL_ERROR v) (\<lambda>a.
     if length a \<noteq> AAGUID_LENGTH then refuse CTAP2_ERR_VENDOR_INTERNAL_ERROR else give (take AAGUID_LENGTH a)))"

definition set_aaguid :: "bytes \<Rightarrow> unit env_op" where
  "set_aaguid v = insert_at AAGUID v"

definition storage_init :: "unit env_op" where
  "storage_init =
     attempt (stored (store_find_handle CRED_RANDOM_SECRET)) (\<lambda>h.
     attempt (if h \<noteq> None then give () else
       attempt gen_uniform_u8x32 (\<lambda>with_uv. attempt gen_uniform_u8x32 (\<lambda>without_uv.
         insert_at CRED_RANDOM_SECRET (without_uv @ with_uv)))) (\<lambda>_.
     attempt (stored (store_find_handle AAGUID)) (\<lambda>h. if h \<noteq> None then give () else set_aaguid BUILT_AAGUID)))"

text \<open>Every error of the key store is an internal error.\<close>

definition internal :: "'a env_op \<Rightarrow> 'a env_op" where
  "internal f = (\<lambda>e. case f e of (Bad _, e') \<Rightarrow> (Bad CTAP2_ERR_VENDOR_INTERNAL_ERROR, e') | r \<Rightarrow> r)"

definition key_store_reset :: "unit env_op" where
  "key_store_reset = internal (remove_at STORAGE_KEY)"

definition get_master_keys :: "(bytes \<times> bytes) env_op" where
  "get_master_keys = internal (attempt (find STORAGE_KEY) (\<lambda>v.
     attempt (case v of Some x \<Rightarrow> give x
       | None \<Rightarrow> attempt gen_uniform_u8x32 (\<lambda>encryption. attempt gen_uniform_u8x32 (\<lambda>authentication.
           attempt (insert_at STORAGE_KEY (encryption @ authentication)) (\<lambda>_. give (encryption @ authentication)))))
     (\<lambda>keys. if length keys \<noteq> 64 then refuse CTAP2_ERR_VENDOR_INTERNAL_ERROR
        else give (take 32 keys, take 32 (drop 32 keys)))))"

definition key_handle_encryption :: "bytes env_op" where
  "key_handle_encryption = attempt get_master_keys (\<lambda>ks. give (fst ks))"

definition key_handle_authentication :: "bytes env_op" where
  "key_handle_authentication = attempt get_master_keys (\<lambda>ks. give (snd ks))"

definition storage_reset :: "unit env_op" where
  "storage_reset =
     attempt (stored (store_clear NUM_PERSISTENT_KEYS)) (\<lambda>_. attempt key_store_reset (\<lambda>_. storage_init))"

section \<open>Running operations\<close>

named_theorems steps \<open>one step of an operation\<close>

lemma op_simps [steps]:
  "give x s = (Good x, s)" "refuse c s = (Bad c, s)" "crash s = (Crash, s)"
  "inspect f s = (Good (f s), s)" "change h s = (Good (), h s)"
  "attempt (give x) g = g x" "attempt (refuse c) g = refuse c" "attempt crash g = crash"
  "checked (Inl c) = refuse c" "checked (Inr x) = give x"
  "ok_or c None = refuse c" "ok_or c (Some x) = give x"
  "ok_or_missing None = refuse CTAP2_ERR_MISSING_PARAMETER" "ok_or_missing (Some x) = give x"
  by (simp_all add: give_def refuse_def crash_def inspect_def change_def attempt_def checked_def ok_or_def ok_or_missing_def fun_eq_iff)

lemma attempt_Good [steps]: "f s = (Good x, s') \<Longrightarrow> attempt f g s = g x s'"
  and attempt_Bad [steps]: "f s = (Bad c, s') \<Longrightarrow> attempt f g s = (Bad c, s')"
  and attempt_Crash [steps]: "f s = (Crash, s') \<Longrightarrow> attempt f g s = (Crash, s')"
  by (simp_all add: attempt_def)

lemma find_run [steps]: "failing e = [] \<Longrightarrow> find k e = (Good (held e k), e)"
  by (simp add: find_def faultless)

lemma insert_run [steps]: "failing e = [] \<Longrightarrow> insert_at k v e = (Good (), put k v e)"
  by (simp add: insert_at_def faultless)

lemma remove_run [steps]: "failing e = [] \<Longrightarrow> remove_at k e = (Good (), without k e)"
  by (simp add: remove_at_def faultless)

section \<open>Reading\<close>

text \<open>An operation that reads changes nothing but the list of faults to come, whatever fails.\<close>

definition reads :: "'a env_op \<Rightarrow> bool" where
  "reads f \<longleftrightarrow> (\<forall>e. \<exists>fs. snd (f e) = e\<lparr>failing := fs\<rparr>)"

named_theorems reading \<open>operations that only read\<close>

lemma reads_give [reading]: "reads (give x)"
  and reads_refuse [reading]: "reads (refuse c)"
  and reads_crash [reading]: "reads crash"
  and reads_inspect [reading]: "reads (inspect g)"
proof -
  have "\<exists>fs. e = e\<lparr>failing := fs\<rparr>" for e :: ctap_env by (rule exI [of _ "failing e"]) simp
  then show "reads (give x)" "reads (refuse c)" "reads crash" "reads (inspect g)"
    by (simp_all add: reads_def steps)
qed

lemma reads_attempt [reading]:
  assumes "reads f" and "\<And>x. reads (g x)"
  shows "reads (attempt f g)"
  unfolding reads_def
proof
  fix e
  obtain fs where fs: "snd (f e) = e\<lparr>failing := fs\<rparr>" using assms(1) unfolding reads_def by blast
  show "\<exists>fs. snd (attempt f g e) = e\<lparr>failing := fs\<rparr>"
  proof (cases "fst (f e)")
    case (Good x)
    obtain fs' where "snd (g x (e\<lparr>failing := fs\<rparr>)) = e\<lparr>failing := fs'\<rparr>"
      using assms(2) [of x] unfolding reads_def by (metis ctap_env.update_convs(3) ctap_env.surjective)
    with Good fs show ?thesis by (auto simp: attempt_def split: prod.split)
  qed (use fs in \<open>auto simp: attempt_def split: prod.split\<close>)
qed

lemma requesting_reads:
  "(\<And>e. snd (f e) = e) \<Longrightarrow> \<exists>fs. snd (requesting f e) = e\<lparr>failing := fs\<rparr>"
  by (auto simp: requesting_def Let_def split: list.split intro: exI [of _ "failing e"])

lemma find_reads [reading]: "reads (find k)"
  unfolding reads_def
proof
  fix e
  obtain fs where g: "snd (opensk_get k e) = e\<lparr>failing := fs\<rparr>"
    using requesting_reads [of "\<lambda>e. (case opensk e of None \<Rightarrow> Inl NotFound
      | Some d \<Rightarrow> (case map_of d k of None \<Rightarrow> Inl NotFound | Some v \<Rightarrow> Inr v), e)" e]
    by (auto simp: opensk_get_def)
  show "\<exists>fs. snd (find k e) = e\<lparr>failing := fs\<rparr>"
  proof (cases "fst (opensk_get k e)")
    case (Inr v)
    obtain fs' where "snd (opensk_read v (e\<lparr>failing := fs\<rparr>)) = e\<lparr>failing := fs'\<rparr>"
      using requesting_reads [of "\<lambda>e. (Inr v, e)" "e\<lparr>failing := fs\<rparr>"] by (auto simp: opensk_read_def)
    with Inr g show ?thesis by (auto simp: find_def stored_def store_find_def split: prod.split sum.split)
  qed (use g in \<open>auto simp: find_def stored_def store_find_def split: prod.split sum.split pddb_error.split\<close>)
qed

lemma find_value: "find k e = (Good v, e') \<Longrightarrow> v = held e k"
  by (auto simp: find_def stored_def store_find_def opensk_get_def opensk_read_def requesting_def held_def dict_of_def Let_def
      split: list.splits if_splits option.splits prod.splits sum.splits pddb_error.splits)

lemma held_faults [simp]: "held (e\<lparr>failing := fs\<rparr>) = held e"
  by simp

text \<open>The value an operation that reads gives when it gives one.\<close>

definition gives :: "'a env_op \<Rightarrow> (ctap_env \<Rightarrow> 'a) \<Rightarrow> bool" where
  "gives f h \<longleftrightarrow> (\<forall>e x e'. f e = (Good x, e') \<longrightarrow> x = h e)"

definition byte_at :: "nat \<Rightarrow> (customization \<Rightarrow> u8) \<Rightarrow> ctap_env \<Rightarrow> u8" where
  "byte_at k dflt e = (case held e k of None \<Rightarrow> dflt (custom e) | Some v \<Rightarrow> v ! 0)"

definition retries_left :: "ctap_env \<Rightarrow> u8" where
  "retries_left = byte_at PIN_RETRIES max_pin_retries"

definition hash_of_pin :: "ctap_env \<Rightarrow> bytes option" where
  "hash_of_pin e = map_option (\<lambda>d. take 16 (drop 1 d)) (held e PIN_PROPERTIES)"

lemma byte_value_reads [reading]: "reads (byte_value k d)"
  unfolding byte_value_def by (intro reading) (auto intro!: reading split: option.split)

lemma pin_properties_reads [reading]: "reads pin_properties"
  unfolding pin_properties_def by (intro reading) (auto intro!: reading split: option.split)

lemma pin_hash_reads [reading]: "reads pin_hash"
  unfolding pin_hash_def by (intro reading)

lemma flag_reads [reading]: "reads (flag k)"
  unfolding flag_def by (intro reading) (auto intro!: reading split: option.split)

lemma attempt_result:
  assumes "attempt f g s = (Good y, s')"
  obtains x s1 where "f s = (Good x, s1)" "g x s1 = (Good y, s')"
  using assms by (auto simp: attempt_def split: prod.splits outcome.splits)

lemma read_state: "reads f \<Longrightarrow> f e = (x, e') \<Longrightarrow> \<exists>fs. e' = e\<lparr>failing := fs\<rparr>"
  unfolding reads_def by (metis snd_conv)

lemma find_result: "find k e = (Good v, e') \<Longrightarrow> held e k = v \<and> (\<exists>fs. e' = e\<lparr>failing := fs\<rparr>)"
  using find_value [of k e v e'] read_state [OF find_reads, of k e "Good v" e'] by auto

lemma byte_value_gives: "byte_value k d e = (Good x, e') \<Longrightarrow> x = byte_at k d e"
  unfolding byte_value_def
  by (elim attempt_result) (auto simp: byte_at_def steps dest!: find_result split: option.splits if_splits)

lemma pin_retries_gives: "pin_retries e = (Good x, e') \<Longrightarrow> x = retries_left e"
  by (simp add: pin_retries_def retries_left_def byte_value_gives)

lemma pin_hash_gives: "pin_hash e = (Good x, e') \<Longrightarrow> x = hash_of_pin e"
  unfolding pin_hash_def pin_properties_def
  by (elim attempt_result) (auto simp: hash_of_pin_def PIN_AUTH_LENGTH_def steps dest!: find_result split: option.splits if_splits)

lemma pin_retries_reads [reading]: "reads pin_retries"
  by (simp add: pin_retries_def reading)

lemma has_force_reads [reading]: "reads has_force_pin_change"
  by (simp add: has_force_pin_change_def reading)

section \<open>Keys that an operation leaves alone\<close>

definition spares :: "nat \<Rightarrow> 'a env_op \<Rightarrow> bool" where
  "spares j f \<longleftrightarrow> (\<forall>e. held (snd (f e)) j = held e j \<and> custom (snd (f e)) = custom e)"

named_theorems sparing \<open>operations that leave a key alone\<close>

lemma spares_reads: "reads f \<Longrightarrow> spares j f"
  unfolding reads_def spares_def by (metis ctap_env.select_convs(4) ctap_env.surjective ctap_env.update_convs(3) held_update(1))

lemma spares_give [sparing]: "spares j (give x)"
  by (simp add: spares_reads reading)

lemma spares_attempt [sparing]: "spares j f \<Longrightarrow> (\<And>x. spares j (g x)) \<Longrightarrow> spares j (attempt f g)"
  unfolding spares_def attempt_def by (clarsimp split: prod.split outcome.split) (metis snd_conv)

lemma requesting_spares:
  assumes "\<And>e. held (snd (f e)) j = held e j \<and> custom (snd (f e)) = custom e"
  shows "held (snd (requesting f e)) j = held e j \<and> custom (snd (requesting f e)) = custom e"
  using assms [of e] assms [of "e\<lparr>failing := tl (failing e)\<rparr>"]
  by (auto simp: requesting_def Let_def split: list.splits)

lemma delete_spares: "k \<noteq> j \<Longrightarrow> held (snd (opensk_delete_key k e)) j = held e j \<and> custom (snd (opensk_delete_key k e)) = custom e"
  unfolding opensk_delete_key_def
  by (rule requesting_spares) (auto simp: held_def dict_of_def delete_conv' split: option.splits)

lemma create_spares: "k \<noteq> j \<Longrightarrow> held (snd (opensk_create k e)) j = held e j \<and> custom (snd (opensk_create k e)) = custom e"
  unfolding opensk_create_def
  by (rule requesting_spares) (auto simp: held_def dict_of_def update_conv' Let_def split: option.splits)

lemma write_spares: "k \<noteq> j \<Longrightarrow> held (snd (opensk_write k v e)) j = held e j \<and> custom (snd (opensk_write k v e)) = custom e"
proof (cases "v = []")
  case False
  assume "k \<noteq> j"
  show ?thesis
    unfolding opensk_write_def if_not_P [OF False]
    by (rule requesting_spares) (use \<open>k \<noteq> j\<close> in \<open>auto simp: held_def dict_of_def update_conv' split: option.splits\<close>)
qed (simp add: opensk_write_def)

lemma relist_spares: "held (relist e) j = held e j \<and> custom (relist e) = custom e"
  by (auto simp: relist_def opensk_list_keys_def requesting_def Let_def held_def dict_of_def split: list.splits option.splits if_splits)

lemma insert_spares [sparing]:
  assumes "k \<noteq> j"
  shows "spares j (insert_at k v)"
proof -
  have c: "opensk_create k e = (x, e') \<Longrightarrow> held e' j = held e j \<and> custom e' = custom e" for e x e'
    using create_spares [OF assms, of e] by simp
  have w: "opensk_write k v e = (x, e') \<Longrightarrow> held e' j = held e j \<and> custom e' = custom e" for e x e'
    using write_spares [OF assms, of v e] by simp
  have d: "held (snd (opensk_delete_key k e)) j = held e j" "custom (snd (opensk_delete_key k e)) = custom e" for e
    using delete_spares [OF assms, of e] by simp_all
  show ?thesis
    by (auto simp: spares_def insert_at_def stored_def store_insert_def transaction_def apply_update_def d relist_spares
        split: prod.splits sum.splits dest!: c w)
qed

lemma gen_spares [sparing]: "spares j gen_uniform_u8x32"
  by (simp add: spares_def gen_uniform_u8x32_def)

lemma find_handle_spares [sparing]: "spares j (stored (store_find_handle k))"
  unfolding spares_def stored_def store_find_handle_def opensk_list_keys_def
  by (auto simp: requesting_def Let_def split: prod.splits sum.splits list.splits option.splits pddb_error.splits)

lemma init_spares: "j \<noteq> CRED_RANDOM_SECRET \<Longrightarrow> j \<noteq> AAGUID \<Longrightarrow> spares j storage_init"
  unfolding storage_init_def set_aaguid_def
  by (auto intro!: sparing)


end
