(* ===== verification/Ctap_Crypto.thy ===== *)
theory Ctap_Crypto
  imports Ctap_Storage
begin

text \<open>
  The cryptography the PIN protocols are built from (\<open>libraries/crypto\<close>, \<open>crypto_wrapper.rs\<close>): HMAC and HKDF
  over a hash, CBC over a block cipher, and the COSE keys of \<open>data_formats.rs\<close>.  SHA-256, AES and the
  elliptic curve are third-party crates: they are the fields of \<open>primitives\<close>.
\<close>

section \<open>Primitives\<close>

text \<open>\<open>gensk n\<close> is the \<open>n\<close>-th secret key the system's generator makes; \<open>genpk\<close> gives the coordinates of its
  public key, \<open>from_coordinates\<close> the point of two coordinates, if there is one.\<close>

record primitives =
  sha256 :: "bytes \<Rightarrow> bytes"
  encrypt_block :: "bytes \<Rightarrow> bytes \<Rightarrow> bytes"
  decrypt_block :: "bytes \<Rightarrow> bytes \<Rightarrow> bytes"
  gensk :: "nat \<Rightarrow> bytes"
  genpk :: "bytes \<Rightarrow> bytes \<times> bytes"
  from_coordinates :: "bytes \<Rightarrow> bytes \<Rightarrow> bytes option"
  exchange_x :: "bytes \<Rightarrow> bytes \<Rightarrow> bytes"

text \<open>What the code relies on: decryption undoes encryption on blocks, and blocks stay blocks.\<close>

definition block_cipher :: "primitives \<Rightarrow> bool" where
  "block_cipher P \<longleftrightarrow> (\<forall>k b. length b = 16 \<longrightarrow> length (encrypt_block P k b) = 16
     \<and> decrypt_block P k (encrypt_block P k b) = b)"

section \<open>HMAC and HKDF\<close>

definition BLOCK_SIZE :: nat where
  "BLOCK_SIZE = 64"

text \<open>\<open>xor_pads\<close> xors the key into the front of a pad.\<close>

fun xor_pad :: "bytes \<Rightarrow> bytes \<Rightarrow> bytes" where
  "xor_pad (p # ps) (k # ks) = (p XOR k) # xor_pad ps ks"
| "xor_pad ps _ = ps"

definition hmac_256 :: "primitives \<Rightarrow> bytes \<Rightarrow> bytes \<Rightarrow> bytes" where
  "hmac_256 P key contents =
     (let key' = (if length key \<le> BLOCK_SIZE then key else sha256 P key);
          ipad = xor_pad (replicate BLOCK_SIZE 0x36) key';
          opad = xor_pad (replicate BLOCK_SIZE 0x5c) key'
      in sha256 P (opad @ sha256 P (ipad @ contents)))"

definition verify_hmac_256 :: "primitives \<Rightarrow> bytes \<Rightarrow> bytes \<Rightarrow> bytes \<Rightarrow> bool" where
  "verify_hmac_256 P key contents mac \<longleftrightarrow> hmac_256 P key contents = mac"

definition verify_hmac_256_first_128bits :: "primitives \<Rightarrow> bytes \<Rightarrow> bytes \<Rightarrow> bytes \<Rightarrow> bool" where
  "verify_hmac_256_first_128bits P key contents pin \<longleftrightarrow> take 16 (hmac_256 P key contents) = pin"

definition hkdf_empty_salt_256 :: "primitives \<Rightarrow> bytes \<Rightarrow> bytes \<Rightarrow> bytes" where
  "hkdf_empty_salt_256 P ikm info = hmac_256 P (hmac_256 P (replicate 32 0) ikm) (info @ [1])"

section \<open>CBC\<close>

definition xor_block_16 :: "bytes \<Rightarrow> bytes \<Rightarrow> bytes" where
  "xor_block_16 block m = map2 (XOR) block m"

text \<open>A chunk that is not a block is a panic.\<close>

fun cbc_encrypt_blocks :: "(bytes \<Rightarrow> bytes) \<Rightarrow> bytes \<Rightarrow> bytes list \<Rightarrow> bytes option" where
  "cbc_encrypt_blocks enc iv [] = Some []"
| "cbc_encrypt_blocks enc iv (b # bs) =
     (if length b \<noteq> 16 then None
      else let c = enc (xor_block_16 b iv) in map_option (\<lambda>rest. c @ rest) (cbc_encrypt_blocks enc c bs))"

fun cbc_decrypt_blocks :: "(bytes \<Rightarrow> bytes) \<Rightarrow> bytes \<Rightarrow> bytes list \<Rightarrow> bytes option" where
  "cbc_decrypt_blocks dec iv [] = Some []"
| "cbc_decrypt_blocks dec iv (b # bs) =
     (if length b \<noteq> 16 then None
      else map_option (\<lambda>rest. xor_block_16 (dec b) iv @ rest) (cbc_decrypt_blocks dec b bs))"

definition cbc_encrypt :: "primitives \<Rightarrow> bytes \<Rightarrow> bytes \<Rightarrow> bytes \<Rightarrow> bytes option" where
  "cbc_encrypt P key iv data = cbc_encrypt_blocks (encrypt_block P key) iv (chunks 16 data)"

definition cbc_decrypt :: "primitives \<Rightarrow> bytes \<Rightarrow> bytes \<Rightarrow> bytes \<Rightarrow> bytes option" where
  "cbc_decrypt P key iv data = cbc_decrypt_blocks (decrypt_block P key) iv (chunks 16 data)"

definition or_crash :: "'a option \<Rightarrow> ('s, 'a) op" where
  "or_crash x = (case x of None \<Rightarrow> crash | Some y \<Rightarrow> give y)"

definition aes256_cbc_encrypt :: "primitives \<Rightarrow> bytes \<Rightarrow> bytes \<Rightarrow> bool \<Rightarrow> bytes env_op" where
  "aes256_cbc_encrypt P key plaintext embeds_iv =
     (if length plaintext mod 16 \<noteq> 0 then refuse CTAP1_ERR_INVALID_PARAMETER
      else if embeds_iv then
        attempt gen_uniform_u8x32 (\<lambda>random_bytes. let iv = take 16 random_bytes in
          attempt (or_crash (cbc_encrypt P key iv plaintext)) (\<lambda>c. give (iv @ c)))
      else or_crash (cbc_encrypt P key (replicate 16 0) plaintext))"

definition aes256_cbc_decrypt :: "primitives \<Rightarrow> bytes \<Rightarrow> bytes \<Rightarrow> bool \<Rightarrow> ('s, bytes) op" where
  "aes256_cbc_decrypt P key ciphertext embeds_iv =
     (if length ciphertext mod 16 \<noteq> 0 \<or> embeds_iv \<and> ciphertext = [] then refuse CTAP1_ERR_INVALID_PARAMETER
      else if embeds_iv then or_crash (cbc_decrypt P key (take 16 ciphertext) (drop 16 ciphertext))
      else or_crash (cbc_decrypt P key (replicate 16 0) ciphertext))"

section \<open>COSE keys\<close>

record cose_key =
  x_bytes :: bytes
  y_bytes :: bytes
  algorithm :: int
  key_type :: int
  curve :: int

definition ECDH_ALGORITHM :: int where "ECDH_ALGORITHM = - 25"
definition ES256_ALGORITHM :: int where "ES256_ALGORITHM = - 7"
definition EC2_KEY_TYPE :: int where "EC2_KEY_TYPE = 2"
definition P_256_CURVE :: int where "P_256_CURVE = 1"

text \<open>\<open>CoseKey::try_from\<close> a CBOR value, and back.\<close>

definition cose_int :: "int \<Rightarrow> cbor" where
  "cose_int i = cbor_integer (word_of_int i)"

definition cose_key_of_cbor :: "cbor \<Rightarrow> cose_key parsed" where
  "cose_key_of_cbor v = bind_parsed (extract_map v) (\<lambda>m.
     case destructure (map cose_int [1, 3, -1, -2, -3]) m of
       [f_type, f_algorithm, f_curve, f_x, f_y] \<Rightarrow>
         bind_parsed (bind_parsed (required f_algorithm) extract_integer) (\<lambda>alg.
         if sint alg \<noteq> ECDH_ALGORITHM \<and> sint alg \<noteq> ES256_ALGORITHM then Inl CTAP2_ERR_UNSUPPORTED_ALGORITHM else
         bind_parsed (bind_parsed (required f_x) extract_byte_string) (\<lambda>x.
         if length x \<noteq> 32 then Inl CTAP1_ERR_INVALID_PARAMETER else
         bind_parsed (bind_parsed (required f_y) extract_byte_string) (\<lambda>y.
         if length y \<noteq> 32 then Inl CTAP1_ERR_INVALID_PARAMETER else
         bind_parsed (bind_parsed (required f_curve) extract_integer) (\<lambda>c.
         if sint c \<noteq> P_256_CURVE then Inl CTAP2_ERR_UNSUPPORTED_ALGORITHM else
         bind_parsed (bind_parsed (required f_type) extract_integer) (\<lambda>t.
         if sint t \<noteq> EC2_KEY_TYPE then Inl CTAP2_ERR_UNSUPPORTED_ALGORITHM else
         Inr \<lparr>x_bytes = x, y_bytes = y, algorithm = sint alg, key_type = sint t, curve = sint c\<rparr>)))))
     | _ \<Rightarrow> Inl CTAP2_ERR_VENDOR_INTERNAL_ERROR)"

definition cbor_of_cose_key :: "cose_key \<Rightarrow> cbor" where
  "cbor_of_cose_key k = Map [(cose_int 1, cose_int (key_type k)), (cose_int 3, cose_int (algorithm k)),
     (cose_int (-1), cose_int (curve k)), (cose_int (-2), ByteString (x_bytes k)), (cose_int (-3), ByteString (y_bytes k))]"

definition cose_of_pubkey :: "bytes \<times> bytes \<Rightarrow> cose_key" where
  "cose_of_pubkey pk = \<lparr>x_bytes = fst pk, y_bytes = snd pk, algorithm = ECDH_ALGORITHM, key_type = EC2_KEY_TYPE,
     curve = P_256_CURVE\<rparr>"

definition ecdh_of_cose :: "primitives \<Rightarrow> cose_key \<Rightarrow> bytes parsed" where
  "ecdh_of_cose P k =
     (if algorithm k \<noteq> ECDH_ALGORITHM \<and> algorithm k \<noteq> ES256_ALGORITHM then Inl CTAP2_ERR_UNSUPPORTED_ALGORITHM
      else if key_type k \<noteq> EC2_KEY_TYPE \<or> curve k \<noteq> P_256_CURVE then Inl CTAP2_ERR_UNSUPPORTED_ALGORITHM
      else case from_coordinates P (x_bytes k) (y_bytes k) of None \<Rightarrow> Inl CTAP1_ERR_INVALID_PARAMETER | Some p \<Rightarrow> Inr p)"

section \<open>PIN protocols\<close>

datatype pin_uv_auth_protocol = V1 | V2

record pin_protocol =
  key_agreement_key :: bytes
  pin_uv_auth_token :: bytes

datatype shared_secret =
    SharedSecretV1 (common_secret: bytes)
  | SharedSecretV2 (aes_enc_key: bytes) (hmac_key: bytes)

definition fresh_key :: "primitives \<Rightarrow> bytes env_op" where
  "fresh_key P = (\<lambda>e. (Good (gensk P (drawn e)), e\<lparr>drawn := Suc (drawn e)\<rparr>))"

definition pin_protocol_new :: "primitives \<Rightarrow> pin_protocol env_op" where
  "pin_protocol_new P = attempt (fresh_key P) (\<lambda>k. attempt gen_uniform_u8x32 (\<lambda>t.
     give \<lparr>key_agreement_key = k, pin_uv_auth_token = t\<rparr>))"

definition regenerate :: "primitives \<Rightarrow> pin_protocol \<Rightarrow> pin_protocol env_op" where
  "regenerate P p = attempt (fresh_key P) (\<lambda>k. give (p\<lparr>key_agreement_key := k\<rparr>))"

definition reset_pin_uv_auth_token :: "pin_protocol \<Rightarrow> pin_protocol env_op" where
  "reset_pin_uv_auth_token p = attempt gen_uniform_u8x32 (\<lambda>t. give (p\<lparr>pin_uv_auth_token := t\<rparr>))"

definition get_public_key :: "primitives \<Rightarrow> pin_protocol \<Rightarrow> cose_key" where
  "get_public_key P p = cose_of_pubkey (genpk P (key_agreement_key p))"

definition shared_secret_new :: "primitives \<Rightarrow> pin_uv_auth_protocol \<Rightarrow> bytes \<Rightarrow> shared_secret" where
  "shared_secret_new P v handshake = (case v of
     V1 \<Rightarrow> SharedSecretV1 (sha256 P handshake)
   | V2 \<Rightarrow> SharedSecretV2 (hkdf_empty_salt_256 P handshake (bytes_of ''CTAP2 AES key''))
       (hkdf_empty_salt_256 P handshake (bytes_of ''CTAP2 HMAC key'')))"

definition decapsulate :: "primitives \<Rightarrow> pin_protocol \<Rightarrow> cose_key \<Rightarrow> pin_uv_auth_protocol \<Rightarrow> shared_secret parsed" where
  "decapsulate P p peer v = bind_parsed (ecdh_of_cose P peer) (\<lambda>pk.
     Inr (shared_secret_new P v (exchange_x P (key_agreement_key p) pk)))"

definition verify_v1 :: "primitives \<Rightarrow> bytes \<Rightarrow> bytes \<Rightarrow> bytes \<Rightarrow> unit parsed" where
  "verify_v1 P key message signature =
     (if length signature \<noteq> 16 then Inl CTAP1_ERR_INVALID_PARAMETER
      else if verify_hmac_256_first_128bits P key message signature then Inr () else Inl CTAP2_ERR_PIN_AUTH_INVALID)"

definition verify_v2 :: "primitives \<Rightarrow> bytes \<Rightarrow> bytes \<Rightarrow> bytes \<Rightarrow> unit parsed" where
  "verify_v2 P key message signature =
     (if length signature \<noteq> 32 then Inl CTAP1_ERR_INVALID_PARAMETER
      else if verify_hmac_256 P key message signature then Inr () else Inl CTAP2_ERR_PIN_AUTH_INVALID)"

definition verify_token_signature :: "primitives \<Rightarrow> bytes \<Rightarrow> bytes \<Rightarrow> bytes \<Rightarrow> pin_uv_auth_protocol \<Rightarrow> unit parsed" where
  "verify_token_signature P token message signature v =
     (case v of V1 \<Rightarrow> verify_v1 P token message signature | V2 \<Rightarrow> verify_v2 P token message signature)"

fun secret_encrypt :: "primitives \<Rightarrow> shared_secret \<Rightarrow> bytes \<Rightarrow> bytes env_op" where
  "secret_encrypt P (SharedSecretV1 k) plaintext = aes256_cbc_encrypt P k plaintext False"
| "secret_encrypt P (SharedSecretV2 k h) plaintext = aes256_cbc_encrypt P k plaintext True"

fun secret_decrypt :: "primitives \<Rightarrow> shared_secret \<Rightarrow> bytes \<Rightarrow> ('s, bytes) op" where
  "secret_decrypt P (SharedSecretV1 k) ciphertext = aes256_cbc_decrypt P k ciphertext False"
| "secret_decrypt P (SharedSecretV2 k h) ciphertext = aes256_cbc_decrypt P k ciphertext True"

fun secret_verify :: "primitives \<Rightarrow> shared_secret \<Rightarrow> bytes \<Rightarrow> bytes \<Rightarrow> unit parsed" where
  "secret_verify P (SharedSecretV1 k) message signature = verify_v1 P k message signature"
| "secret_verify P (SharedSecretV2 k h) message signature = verify_v2 P h message signature"

end
