(* ===== verification/Ctap_Pin.thy ===== *)
theory Ctap_Pin
  imports Ctap_Crypto
begin

text \<open>
  The PIN of the security key (\<open>client_pin.rs\<close>) and the token it gives out (\<open>token_state.rs\<close>,
  \<open>timed_permission.rs\<close>).  A command works on the state that lasts until the next power cycle and on
  the environment, which keeps the store.  Instants are in nanoseconds since the start.
\<close>

section \<open>Timed permission\<close>

datatype timed_permission = Waiting | Granted nat

text \<open>The largest instant: \<open>u64\<close> seconds and 999999999 nanoseconds.  \<open>None\<close> is the panic of \<open>unwrap\<close>.\<close>

definition instant_max :: nat where
  "instant_max = 2 ^ 64 * 10 ^ 9 - 1"

definition granted :: "nat \<Rightarrow> nat \<Rightarrow> timed_permission option" where
  "granted now d = (if now + d \<le> instant_max then Some (Granted (now + d)) else None)"

fun is_granted :: "timed_permission \<Rightarrow> nat \<Rightarrow> bool" where
  "is_granted Waiting now = False"
| "is_granted (Granted timeout) now = (timeout \<ge> now)"

fun check_expiration :: "timed_permission \<Rightarrow> nat \<Rightarrow> timed_permission" where
  "check_expiration Waiting now = Waiting"
| "check_expiration (Granted timeout) now = (if timeout \<ge> now then Granted timeout else Waiting)"

section \<open>Token state\<close>

datatype pin_permission = MakeCredential | GetAssertion | CredentialManagement | BioEnrollment
  | LargeBlobWrite | AuthenticatorConfiguration

fun permission_bit :: "pin_permission \<Rightarrow> u8" where
  "permission_bit MakeCredential = 0x01"
| "permission_bit GetAssertion = 0x02"
| "permission_bit CredentialManagement = 0x04"
| "permission_bit BioEnrollment = 0x08"
| "permission_bit LargeBlobWrite = 0x10"
| "permission_bit AuthenticatorConfiguration = 0x20"

record token_state =
  permissions_set :: u8
  permissions_rp_id :: "string option"
  usage_timer :: timed_permission
  user_verified :: bool
  in_use :: bool

definition token_new :: token_state where
  "token_new = \<lparr>permissions_set = 0, permissions_rp_id = None, usage_timer = Waiting, user_verified = False, in_use = False\<rparr>"

definition INITIAL_USAGE_TIME_LIMIT :: nat where
  "INITIAL_USAGE_TIME_LIMIT = 30000 * 10 ^ 6"

definition token_has_permission :: "pin_permission \<Rightarrow> token_state \<Rightarrow> unit parsed" where
  "token_has_permission p t =
     (if permission_bit p AND permissions_set t \<noteq> 0 then Inr () else Inl CTAP2_ERR_PIN_AUTH_INVALID)"

definition has_no_permissions_rp_id :: "token_state \<Rightarrow> unit parsed" where
  "has_no_permissions_rp_id t = (if permissions_rp_id t \<noteq> None then Inl CTAP2_ERR_PIN_AUTH_INVALID else Inr ())"

definition has_permissions_rp_id :: "string \<Rightarrow> token_state \<Rightarrow> unit parsed" where
  "has_permissions_rp_id rp_id t = (case permissions_rp_id t of
     Some p \<Rightarrow> if rp_id = p then Inr () else Inl CTAP2_ERR_PIN_AUTH_INVALID
   | None \<Rightarrow> Inl CTAP2_ERR_PIN_AUTH_INVALID)"

definition has_permissions_rp_id_hash :: "primitives \<Rightarrow> bytes \<Rightarrow> token_state \<Rightarrow> unit parsed" where
  "has_permissions_rp_id_hash P hash t = (case permissions_rp_id t of
     Some p \<Rightarrow> if hash = sha256 P (bytes_of p) then Inr () else Inl CTAP2_ERR_PIN_AUTH_INVALID
   | None \<Rightarrow> Inl CTAP2_ERR_PIN_AUTH_INVALID)"

definition set_default_permissions :: "token_state \<Rightarrow> token_state" where
  "set_default_permissions t = t\<lparr>permissions_set := 0x03, permissions_rp_id := None\<rparr>"

definition begin_using :: "nat \<Rightarrow> token_state \<Rightarrow> token_state option" where
  "begin_using now t = (case granted now INITIAL_USAGE_TIME_LIMIT of None \<Rightarrow> None
     | Some g \<Rightarrow> Some (t\<lparr>user_verified := True, usage_timer := g, in_use := True\<rparr>))"

definition stop_using :: "token_state \<Rightarrow> token_state" where
  "stop_using t = t\<lparr>permissions_rp_id := None, permissions_set := 0, usage_timer := Waiting, user_verified := False,
     in_use := False\<rparr>"

definition usage_timer_observer :: "nat \<Rightarrow> token_state \<Rightarrow> token_state" where
  "usage_timer_observer now t =
     (if \<not> in_use t then t
      else let t' = t\<lparr>usage_timer := check_expiration (usage_timer t) now\<rparr> in
        if \<not> is_granted (usage_timer t') now then stop_using t' else t')"

definition get_user_verified_flag_value :: "token_state \<Rightarrow> bool" where
  "get_user_verified_flag_value t \<longleftrightarrow> in_use t \<and> user_verified t"

definition clear_permissions_except_lbw :: "token_state \<Rightarrow> token_state" where
  "clear_permissions_except_lbw t = t\<lparr>permissions_set := permissions_set t AND permission_bit LargeBlobWrite\<rparr>"

section \<open>State\<close>

record client_pin =
  pin_protocol_v1 :: pin_protocol
  pin_protocol_v2 :: pin_protocol
  consecutive_pin_mismatches :: u8
  token_state :: token_state

type_synonym 'a pin_op = "(client_pin \<times> ctap_env, 'a) op"

definition on_env :: "'a env_op \<Rightarrow> 'a pin_op" where
  "on_env f = (\<lambda>(c, e). case f e of (x, e') \<Rightarrow> (x, (c, e')))"

definition get_pin :: "(client_pin \<Rightarrow> 'a) \<Rightarrow> 'a pin_op" where
  "get_pin f = (\<lambda>(c, e). (Good (f c), (c, e)))"

definition update_pin :: "(client_pin \<Rightarrow> client_pin) \<Rightarrow> unit pin_op" where
  "update_pin f = (\<lambda>(c, e). (Good (), (f c, e)))"

definition client_pin_new :: "primitives \<Rightarrow> client_pin env_op" where
  "client_pin_new P = attempt (pin_protocol_new P) (\<lambda>p1. attempt (pin_protocol_new P) (\<lambda>p2.
     give \<lparr>pin_protocol_v1 = p1, pin_protocol_v2 = p2, consecutive_pin_mismatches = 0, token_state = token_new\<rparr>))"

definition get_pin_protocol :: "pin_uv_auth_protocol \<Rightarrow> client_pin \<Rightarrow> pin_protocol" where
  "get_pin_protocol v c = (case v of V1 \<Rightarrow> pin_protocol_v1 c | V2 \<Rightarrow> pin_protocol_v2 c)"

definition set_pin_protocol :: "pin_uv_auth_protocol \<Rightarrow> pin_protocol \<Rightarrow> client_pin \<Rightarrow> client_pin" where
  "set_pin_protocol v p c = (case v of V1 \<Rightarrow> c\<lparr>pin_protocol_v1 := p\<rparr> | V2 \<Rightarrow> c\<lparr>pin_protocol_v2 := p\<rparr>)"

definition get_shared_secret :: "primitives \<Rightarrow> pin_uv_auth_protocol \<Rightarrow> cose_key \<Rightarrow> shared_secret pin_op" where
  "get_shared_secret P v key_agreement = attempt (get_pin (get_pin_protocol v)) (\<lambda>p.
     checked (decapsulate P p key_agreement v))"

definition regenerate_protocol :: "primitives \<Rightarrow> pin_uv_auth_protocol \<Rightarrow> unit pin_op" where
  "regenerate_protocol P v = attempt (get_pin (get_pin_protocol v)) (\<lambda>p.
     attempt (on_env (regenerate P p)) (\<lambda>p'. update_pin (set_pin_protocol v p')))"

definition reset_token :: "pin_uv_auth_protocol \<Rightarrow> unit pin_op" where
  "reset_token v = attempt (get_pin (get_pin_protocol v)) (\<lambda>p.
     attempt (on_env (reset_pin_uv_auth_token p)) (\<lambda>p'. update_pin (set_pin_protocol v p')))"

section \<open>Setting the PIN\<close>

definition PIN_PADDED_LENGTH :: nat where
  "PIN_PADDED_LENGTH = 64"

definition decrypt_pin :: "primitives \<Rightarrow> shared_secret \<Rightarrow> bytes \<Rightarrow> ('s, bytes) op" where
  "decrypt_pin P secret new_pin_enc = attempt (secret_decrypt P secret new_pin_enc) (\<lambda>pin.
     if length pin \<noteq> PIN_PADDED_LENGTH then refuse CTAP1_ERR_INVALID_PARAMETER
     else give (takeWhile (\<lambda>c. c \<noteq> 0) pin))"

text \<open>\<open>chars().count()\<close> of a UTF-8 text: the bytes that do not continue a sequence.\<close>

definition char_count :: "string \<Rightarrow> nat" where
  "char_count s = length (filter (\<lambda>c. \<not> cont_byte (of_char c)) s)"

definition pin_code_points :: "bytes \<Rightarrow> nat" where
  "pin_code_points pin = char_count (case from_utf8 pin of None \<Rightarrow> [] | Some s \<Rightarrow> s)"

definition check_and_store_new_pin :: "primitives \<Rightarrow> shared_secret \<Rightarrow> bytes \<Rightarrow> unit env_op" where
  "check_and_store_new_pin P secret new_pin_enc =
     attempt (decrypt_pin P secret new_pin_enc) (\<lambda>pin.
     attempt min_pin_length (\<lambda>min_len.
       let pin_length = pin_code_points pin in
       if pin_length < unat min_len \<or> length pin = PIN_PADDED_LENGTH then refuse CTAP2_ERR_PIN_POLICY_VIOLATION
       else set_pin (take PIN_AUTH_LENGTH (sha256 P pin)) (word_of_nat pin_length)))"

section \<open>Checking the PIN\<close>

definition map_err :: "ctap_status \<Rightarrow> ('s, 'a) op \<Rightarrow> ('s, 'a) op" where
  "map_err c f = (\<lambda>s. case f s of (Bad _, s') \<Rightarrow> (Bad c, s') | r \<Rightarrow> r)"

text \<open>What follows the decryption: the stored hash against the one the client sent.\<close>

definition compare_hashes :: "primitives \<Rightarrow> pin_uv_auth_protocol \<Rightarrow> bytes \<Rightarrow> bytes \<Rightarrow> unit pin_op" where
  "compare_hashes P v hash pin_hash_dec =
     (if hash \<noteq> pin_hash_dec then
        attempt (regenerate_protocol P v) (\<lambda>_.
        attempt (on_env pin_retries) (\<lambda>retries.
        if retries = 0 then refuse CTAP2_ERR_PIN_BLOCKED else
        attempt (update_pin (\<lambda>c. c\<lparr>consecutive_pin_mismatches := consecutive_pin_mismatches c + 1\<rparr>)) (\<lambda>_.
        attempt (get_pin consecutive_pin_mismatches) (\<lambda>mismatches.
        if mismatches \<ge> 3 then refuse CTAP2_ERR_PIN_AUTH_BLOCKED else refuse CTAP2_ERR_PIN_INVALID))))
      else
        attempt (on_env reset_pin_retries) (\<lambda>_. update_pin (\<lambda>c. c\<lparr>consecutive_pin_mismatches := 0\<rparr>)))"

definition verify_pin_hash_enc :: "primitives \<Rightarrow> pin_uv_auth_protocol \<Rightarrow> shared_secret \<Rightarrow> bytes \<Rightarrow> unit pin_op" where
  "verify_pin_hash_enc P v secret pin_hash_enc =
     attempt (on_env pin_hash) (\<lambda>stored_hash. case stored_hash of
       None \<Rightarrow> refuse CTAP2_ERR_PUAT_REQUIRED
     | Some hash \<Rightarrow>
         attempt (get_pin consecutive_pin_mismatches) (\<lambda>mismatches.
         if mismatches \<ge> 3 then refuse CTAP2_ERR_PIN_AUTH_BLOCKED else
         attempt (on_env decr_pin_retries) (\<lambda>_.
         attempt (map_err CTAP2_ERR_PIN_INVALID (secret_decrypt P secret pin_hash_enc)) (\<lambda>pin_hash_dec.
         compare_hashes P v hash pin_hash_dec))))"

section \<open>Commands\<close>

datatype client_pin_sub_command = GetPinRetries | GetKeyAgreement | SetPin | ChangePin | GetPinToken
  | GetPinUvAuthTokenUsingUvWithPermissions | GetUvRetries | GetPinUvAuthTokenUsingPinWithPermissions

record client_pin_params =
  cp_protocol :: pin_uv_auth_protocol
  cp_sub_command :: client_pin_sub_command
  cp_key_agreement :: "cose_key option"
  cp_pin_uv_auth_param :: "bytes option"
  cp_new_pin_enc :: "bytes option"
  cp_pin_hash_enc :: "bytes option"
  cp_permissions :: "u8 option"
  cp_permissions_rp_id :: "string option"

record client_pin_response =
  r_key_agreement :: "cose_key option"
  r_pin_uv_auth_token :: "bytes option"
  r_retries :: "u64 option"
  r_power_cycle_state :: "bool option"

definition process_get_pin_retries :: "client_pin_response pin_op" where
  "process_get_pin_retries = attempt (on_env pin_retries) (\<lambda>retries.
     attempt (get_pin consecutive_pin_mismatches) (\<lambda>mismatches.
     give \<lparr>r_key_agreement = None, r_pin_uv_auth_token = None, r_retries = Some (ucast retries),
       r_power_cycle_state = Some (mismatches \<ge> 3)\<rparr>))"

definition process_get_key_agreement :: "primitives \<Rightarrow> client_pin_params \<Rightarrow> client_pin_response pin_op" where
  "process_get_key_agreement P params = attempt (get_pin (get_pin_protocol (cp_protocol params))) (\<lambda>p.
     give \<lparr>r_key_agreement = Some (get_public_key P p), r_pin_uv_auth_token = None, r_retries = None,
       r_power_cycle_state = None\<rparr>)"

definition process_set_pin :: "primitives \<Rightarrow> client_pin_params \<Rightarrow> unit pin_op" where
  "process_set_pin P params =
     attempt (ok_or_missing (cp_key_agreement params)) (\<lambda>key_agreement.
     attempt (ok_or_missing (cp_pin_uv_auth_param params)) (\<lambda>auth_param.
     attempt (ok_or_missing (cp_new_pin_enc params)) (\<lambda>new_pin_enc.
     attempt (on_env pin_hash) (\<lambda>hash.
     if hash \<noteq> None then refuse CTAP2_ERR_PIN_AUTH_INVALID else
     attempt (get_shared_secret P (cp_protocol params) key_agreement) (\<lambda>secret.
     attempt (checked (secret_verify P secret new_pin_enc auth_param)) (\<lambda>_.
     attempt (on_env (check_and_store_new_pin P secret new_pin_enc)) (\<lambda>_.
     on_env reset_pin_retries)))))))"

definition process_change_pin :: "primitives \<Rightarrow> client_pin_params \<Rightarrow> unit pin_op" where
  "process_change_pin P params =
     attempt (ok_or_missing (cp_key_agreement params)) (\<lambda>key_agreement.
     attempt (ok_or_missing (cp_pin_uv_auth_param params)) (\<lambda>auth_param.
     attempt (ok_or_missing (cp_new_pin_enc params)) (\<lambda>new_pin_enc.
     attempt (ok_or_missing (cp_pin_hash_enc params)) (\<lambda>pin_hash_enc.
     attempt (on_env pin_retries) (\<lambda>retries.
     if retries = 0 then refuse CTAP2_ERR_PIN_BLOCKED else
     attempt (get_shared_secret P (cp_protocol params) key_agreement) (\<lambda>secret.
     attempt (checked (secret_verify P secret (new_pin_enc @ pin_hash_enc) auth_param)) (\<lambda>_.
     attempt (verify_pin_hash_enc P (cp_protocol params) secret pin_hash_enc) (\<lambda>_.
     attempt (on_env (check_and_store_new_pin P secret new_pin_enc)) (\<lambda>_.
     attempt (reset_token V1) (\<lambda>_. reset_token V2))))))))))"

definition process_get_pin_token :: "primitives \<Rightarrow> client_pin_params \<Rightarrow> nat \<Rightarrow> client_pin_response pin_op" where
  "process_get_pin_token P params now =
     attempt (ok_or_missing (cp_key_agreement params)) (\<lambda>key_agreement.
     attempt (ok_or_missing (cp_pin_hash_enc params)) (\<lambda>pin_hash_enc.
     if cp_permissions params \<noteq> None \<or> cp_permissions_rp_id params \<noteq> None then refuse CTAP1_ERR_INVALID_PARAMETER else
     attempt (on_env pin_retries) (\<lambda>retries.
     if retries = 0 then refuse CTAP2_ERR_PIN_BLOCKED else
     attempt (get_shared_secret P (cp_protocol params) key_agreement) (\<lambda>secret.
     attempt (verify_pin_hash_enc P (cp_protocol params) secret pin_hash_enc) (\<lambda>_.
     attempt (on_env has_force_pin_change) (\<lambda>force.
     if force then refuse CTAP2_ERR_PIN_INVALID else
     attempt (reset_token V1) (\<lambda>_.
     attempt (reset_token V2) (\<lambda>_.
     attempt (get_pin token_state) (\<lambda>t.
     attempt (or_crash (begin_using now t)) (\<lambda>t'.
     attempt (update_pin (\<lambda>c. c\<lparr>token_state := set_default_permissions t'\<rparr>)) (\<lambda>_.
     attempt (get_pin (get_pin_protocol (cp_protocol params))) (\<lambda>p.
     attempt (on_env (secret_encrypt P secret (pin_uv_auth_token p))) (\<lambda>token.
     give \<lparr>r_key_agreement = None, r_pin_uv_auth_token = Some token, r_retries = None, r_power_cycle_state = None\<rparr>)))))))))))))"

definition process_token_with_permissions :: "primitives \<Rightarrow> client_pin_params \<Rightarrow> nat \<Rightarrow> client_pin_response pin_op" where
  "process_token_with_permissions P params now =
     attempt (ok_or_missing (cp_permissions params)) (\<lambda>permissions.
     let rp_id = cp_permissions_rp_id params in
     if permissions = 0 then refuse CTAP1_ERR_INVALID_PARAMETER
     else if permissions AND 0x03 \<noteq> 0 \<and> rp_id = None then refuse CTAP1_ERR_INVALID_PARAMETER
     else
       attempt (process_get_pin_token P (params\<lparr>cp_permissions := None, cp_permissions_rp_id := None\<rparr>) now) (\<lambda>response.
       attempt (update_pin (\<lambda>c. c\<lparr>token_state := (token_state c)\<lparr>permissions_set := permissions, permissions_rp_id := rp_id\<rparr>\<rparr>)) (\<lambda>_.
       give response)))"

definition process_command :: "primitives \<Rightarrow> client_pin_params \<Rightarrow> nat \<Rightarrow> client_pin_response option pin_op" where
  "process_command P params now =
     attempt (on_env (inspect custom)) (\<lambda>c.
     if \<not> allows_pin_protocol_v1 c \<and> cp_protocol params = V1 then refuse CTAP1_ERR_INVALID_PARAMETER
     else case cp_sub_command params of
       GetPinRetries \<Rightarrow> attempt process_get_pin_retries (\<lambda>r. give (Some r))
     | GetKeyAgreement \<Rightarrow> attempt (process_get_key_agreement P params) (\<lambda>r. give (Some r))
     | SetPin \<Rightarrow> attempt (process_set_pin P params) (\<lambda>_. give None)
     | ChangePin \<Rightarrow> attempt (process_change_pin P params) (\<lambda>_. give None)
     | GetPinToken \<Rightarrow> attempt (process_get_pin_token P params now) (\<lambda>r. give (Some r))
     | GetPinUvAuthTokenUsingUvWithPermissions \<Rightarrow> refuse CTAP2_ERR_INVALID_SUBCOMMAND
     | GetUvRetries \<Rightarrow> refuse CTAP2_ERR_INVALID_SUBCOMMAND
     | GetPinUvAuthTokenUsingPinWithPermissions \<Rightarrow>
         attempt (process_token_with_permissions P params now) (\<lambda>r. give (Some r)))"

section \<open>Using the token\<close>

definition verify_pin_uv_auth_token :: "primitives \<Rightarrow> bytes \<Rightarrow> bytes \<Rightarrow> pin_uv_auth_protocol \<Rightarrow> client_pin \<Rightarrow> unit parsed" where
  "verify_pin_uv_auth_token P hmac_contents auth_param v c =
     (if \<not> in_use (token_state c) then Inl CTAP2_ERR_PIN_AUTH_INVALID
      else verify_token_signature P (pin_uv_auth_token (get_pin_protocol v c)) hmac_contents auth_param v)"

definition client_pin_reset :: "primitives \<Rightarrow> unit pin_op" where
  "client_pin_reset P =
     attempt (regenerate_protocol P V1) (\<lambda>_. attempt (reset_token V1) (\<lambda>_.
     attempt (regenerate_protocol P V2) (\<lambda>_. attempt (reset_token V2) (\<lambda>_.
     update_pin (\<lambda>c. c\<lparr>consecutive_pin_mismatches := 0, token_state := stop_using (token_state c)\<rparr>)))))"

record hmac_secret_input =
  hs_key_agreement :: cose_key
  hs_salt_enc :: bytes
  hs_salt_auth :: bytes
  hs_protocol :: pin_uv_auth_protocol

definition process_hmac_secret :: "primitives \<Rightarrow> hmac_secret_input \<Rightarrow> bytes \<Rightarrow> bytes pin_op" where
  "process_hmac_secret P input cred_random =
     attempt (get_shared_secret P (hs_protocol input) (hs_key_agreement input)) (\<lambda>secret.
     attempt (checked (secret_verify P secret (hs_salt_enc input) (hs_salt_auth input))) (\<lambda>_.
     attempt (secret_decrypt P secret (hs_salt_enc input)) (\<lambda>salts.
     if length salts \<noteq> 32 \<and> length salts \<noteq> 64 then refuse CTAP1_ERR_INVALID_PARAMETER
     else on_env (secret_encrypt P secret (hmac_256 P cred_random (take 32 salts) @
        (if length salts = 64 then hmac_256 P cred_random (drop 32 salts) else []))))))"

definition clear_token_flags :: "client_pin \<Rightarrow> client_pin" where
  "clear_token_flags c = c\<lparr>token_state := clear_permissions_except_lbw ((token_state c)\<lparr>user_verified := False\<rparr>)\<rparr>"

definition update_timeouts :: "nat \<Rightarrow> client_pin \<Rightarrow> client_pin" where
  "update_timeouts now c = c\<lparr>token_state := usage_timer_observer now (token_state c)\<rparr>"

definition check_user_verified_flag :: "client_pin \<Rightarrow> unit parsed" where
  "check_user_verified_flag c =
     (if get_user_verified_flag_value (token_state c) then Inr () else Inl CTAP2_ERR_PIN_AUTH_INVALID)"

definition has_permission :: "pin_permission \<Rightarrow> client_pin \<Rightarrow> unit parsed" where
  "has_permission p c = token_has_permission p (token_state c)"

definition has_no_rp_id_permission :: "client_pin \<Rightarrow> unit parsed" where
  "has_no_rp_id_permission c = has_no_permissions_rp_id (token_state c)"

definition or_else :: "'a parsed \<Rightarrow> 'a parsed \<Rightarrow> 'a parsed" where
  "or_else x y = (case x of Inl _ \<Rightarrow> y | Inr _ \<Rightarrow> x)"

definition has_no_or_rp_id_permission :: "string \<Rightarrow> client_pin \<Rightarrow> unit parsed" where
  "has_no_or_rp_id_permission rp_id c =
     or_else (has_no_permissions_rp_id (token_state c)) (has_permissions_rp_id rp_id (token_state c))"

definition has_no_or_rp_id_hash_permission :: "primitives \<Rightarrow> bytes \<Rightarrow> client_pin \<Rightarrow> unit parsed" where
  "has_no_or_rp_id_hash_permission P hash c =
     or_else (has_no_permissions_rp_id (token_state c)) (has_permissions_rp_id_hash P hash (token_state c))"

definition ensure_rp_id_permission :: "string \<Rightarrow> client_pin \<Rightarrow> unit parsed \<times> client_pin" where
  "ensure_rp_id_permission rp_id c =
     (case has_no_permissions_rp_id (token_state c) of
        Inr _ \<Rightarrow> (Inr (), c\<lparr>token_state := (token_state c)\<lparr>permissions_rp_id := Some rp_id\<rparr>\<rparr>)
      | Inl _ \<Rightarrow> (has_permissions_rp_id rp_id (token_state c), c))"

end
