(* ===== verification/Ctap_Pin_Safety.thy ===== *)
theory Ctap_Pin_Safety
  imports Ctap_Pin
begin

text \<open>
  What protects the PIN of the security key (\<open>client_pin.rs\<close>), over any sequence of commands and power
  cycles: a blocked PIN stays blocked, the third wrong PIN in a row blocks until the next power cycle, nothing is
  gained without the PIN, wrong guesses cost retries and tell nothing else.  The first properties hold whatever
  requests to the PDDB fail.
\<close>

section \<open>Reading within a PIN command\<close>

lemma attempt_read:
  assumes "reads f"
  obtains (good) x fs where "attempt (on_env f) g (c, e) = g x (c, e\<lparr>failing := fs\<rparr>)" "f e = (Good x, e\<lparr>failing := fs\<rparr>)"
  | (bad) y fs where "attempt (on_env f) g (c, e) = (Bad y, (c, e\<lparr>failing := fs\<rparr>))"
  | (panic) fs where "attempt (on_env f) g (c, e) = (Crash, (c, e\<lparr>failing := fs\<rparr>))"
proof -
  obtain x fs where f: "f e = (x, e\<lparr>failing := fs\<rparr>)"
    using read_state [OF assms, of e] by (cases "f e") auto
  show thesis
    by (cases x) (use that f in \<open>auto simp: attempt_def on_env_def\<close>)
qed

text \<open>What a client gains from a command: that it succeeds in setting or changing the PIN, or that it hands out
  a token.\<close>

fun gained :: "client_pin_response option outcome \<Rightarrow> bool" where
  "gained (Good None) = True"
| "gained (Good (Some r)) = (r_pin_uv_auth_token r \<noteq> None)"
| "gained _ = False"

lemma inspect_run: "attempt (on_env (inspect f)) g (c, e) = g (f e) (c, e)"
  by (simp add: attempt_def on_env_def inspect_def)

lemma get_pin_run: "attempt (get_pin f) g (c, e) = g (f c) (c, e)"
  by (simp add: attempt_def get_pin_def)

text \<open>A command that is refused fails, and changes nothing but the list of faults to come.\<close>

definition refused :: "'a outcome \<times> client_pin \<times> ctap_env \<Rightarrow> client_pin \<Rightarrow> ctap_env \<Rightarrow> bool" where
  "refused r c e \<longleftrightarrow> (\<nexists>x. fst r = Good x) \<and> (\<exists>fs. snd r = (c, e\<lparr>failing := fs\<rparr>))"

named_theorems refusing \<open>commands that are refused\<close>

lemma refused_now [refusing]: "refused (refuse y (c, e\<lparr>failing := fs\<rparr>)) c e" "refused (refuse y (c, e)) c e"
  by (auto simp: refused_def refuse_def intro: exI [of _ "failing e"])

lemma refused_same: "refused (Bad y, c, e) c e" "refused (Bad y, c, e\<lparr>failing := fs\<rparr>) c e" "refused (Crash, c, e\<lparr>failing := fs\<rparr>) c e"
  by (auto simp: refused_def intro: exI [of _ "failing e"])

lemma refused_attempt [refusing]: "refused (f (c, e)) c e \<Longrightarrow> refused (attempt f g (c, e)) c e"
  by (auto simp: refused_def attempt_def split: prod.split outcome.split)

lemma refused_faults: "refused r c (e\<lparr>failing := fs\<rparr>) \<longleftrightarrow> refused r c e"
  by (simp add: refused_def)

lemma refused_read:
  assumes "reads f"
    and "\<And>x fs. f e = (Good x, e\<lparr>failing := fs\<rparr>) \<Longrightarrow> refused (g x (c, e\<lparr>failing := fs\<rparr>)) c (e\<lparr>failing := fs\<rparr>)"
  shows "refused (attempt (on_env f) g (c, e)) c e"
  by (rule attempt_read [OF assms(1), of g c e])
    (use assms(2) in \<open>auto simp: refused_same refused_faults\<close>)

lemma refused_missing:
  "(\<And>x. v = Some x \<Longrightarrow> refused (g x (c, e)) c e) \<Longrightarrow> refused (attempt (ok_or_missing v) g (c, e)) c e"
  by (cases v) (auto simp: steps refused_same)

lemma refused_checked:
  "(\<And>x. v = Inr x \<Longrightarrow> refused (g x (c, e)) c e) \<Longrightarrow> refused (attempt (checked v) g (c, e)) c e"
  by (cases v) (auto simp: steps refused_same)

lemma refused_secret:
  "(\<And>x. decapsulate P (get_pin_protocol v c) k v = Inr x \<Longrightarrow> refused (g x (c, e)) c e)
     \<Longrightarrow> refused (attempt (get_shared_secret P v k) g (c, e)) c e"
  by (cases "decapsulate P (get_pin_protocol v c) k v") (auto simp: get_shared_secret_def attempt_def get_pin_def steps refused_same)

text \<open>The PIN is locked when it is set, and no retries are left or the third wrong PIN in a row was given.\<close>

definition locked :: "client_pin \<Rightarrow> ctap_env \<Rightarrow> bool" where
  "locked c e \<longleftrightarrow> hash_of_pin e \<noteq> None \<and> (retries_left e = 0 \<or> consecutive_pin_mismatches c \<ge> 3)"

lemma hash_of_pin_faults [simp]: "hash_of_pin (e\<lparr>failing := fs\<rparr>) = hash_of_pin e"
  and retries_left_faults [simp]: "retries_left (e\<lparr>failing := fs\<rparr>) = retries_left e"
  by (simp_all add: hash_of_pin_def retries_left_def byte_at_def split: option.split)

lemma locked_faults [simp]: "locked c (e\<lparr>failing := fs\<rparr>) = locked c e"
  by (simp add: locked_def)

lemma verify_locked:
  "hash_of_pin e \<noteq> None \<Longrightarrow> consecutive_pin_mismatches c \<ge> 3 \<Longrightarrow>
     refused (attempt (verify_pin_hash_enc P v secret h) g (c, e)) c e"
  unfolding verify_pin_hash_enc_def
  by (rule refused_attempt, rule refused_read)
    (auto simp: reading get_pin_run refusing dest: pin_hash_gives split: option.split)

lemma set_pin_locked: "hash_of_pin e \<noteq> None \<Longrightarrow> refused (process_set_pin P params (c, e)) c e"
  unfolding process_set_pin_def
  by (intro refused_missing refused_read reading) (auto simp: refusing dest: pin_hash_gives)

lemma locked_after_retries:
  "locked c e \<Longrightarrow> pin_retries e = (Good r, e') \<Longrightarrow> r \<noteq> 0 \<Longrightarrow> hash_of_pin e \<noteq> None \<and> consecutive_pin_mismatches c \<ge> 3"
  by (auto simp: locked_def dest: pin_retries_gives)

lemma change_pin_locked: "locked c e \<Longrightarrow> refused (process_change_pin P params (c, e)) c e"
  unfolding process_change_pin_def
  by (intro refused_missing refused_read reading)
    (auto simp: refusing dest: locked_after_retries intro!: refused_secret refused_checked verify_locked)

lemma get_token_locked: "locked c e \<Longrightarrow> refused (process_get_pin_token P params now (c, e)) c e"
  unfolding process_get_pin_token_def
  apply (intro refused_missing)
  apply (auto simp: refusing intro!: refused_read reading)
  apply (auto simp: refusing dest: locked_after_retries intro!: refused_secret verify_locked)
  done

lemma token_with_permissions_locked: "locked c e \<Longrightarrow> refused (process_token_with_permissions P params now (c, e)) c e"
  unfolding process_token_with_permissions_def
  by (intro refused_missing) (auto simp: Let_def refusing get_token_locked)

lemma attempt_state: "f s = (y, s') \<Longrightarrow> attempt f g s =
    (case y of Good x \<Rightarrow> g x s' | Bad c \<Rightarrow> (Bad c, s') | Crash \<Rightarrow> (Crash, s'))"
  by (cases y) (simp_all add: attempt_def)

lemma command_locked:
  assumes "locked c e"
  shows "\<exists>x fs. process_command P params now (c, e) = (x, (c, e\<lparr>failing := fs\<rparr>)) \<and> \<not> gained x"
proof -
  have ref: "\<exists>x. (\<exists>fs. attempt f g (c, e) = (x, (c, e\<lparr>failing := fs\<rparr>))) \<and> \<not> gained x" if "refused (f (c, e)) c e"
    for f and g :: "_ \<Rightarrow> client_pin_response option pin_op"
    using that by (auto simp: refused_def attempt_def split: prod.splits outcome.splits)
  have now: "\<exists>x fs. refuse y (c, e) = (x, (c, e\<lparr>failing := fs\<rparr>)) \<and> \<not> gained x" for y
    by (auto simp: refuse_def intro: exI [of _ "failing e"])
  have set: "hash_of_pin e \<noteq> None" using assms by (simp add: locked_def)
  show ?thesis
  proof (cases "cp_sub_command params")
    case GetPinRetries
    obtain x fs where r: "pin_retries e = (x, e\<lparr>failing := fs\<rparr>)"
      using read_state [OF pin_retries_reads, of e] by (cases "pin_retries e") auto
    have "\<exists>y. process_get_pin_retries (c, e) = (y, (c, e\<lparr>failing := fs\<rparr>)) \<and> (\<forall>z. y = Good z \<longrightarrow> r_pin_uv_auth_token z = None)"
      by (cases x) (auto simp: process_get_pin_retries_def attempt_def on_env_def get_pin_def give_def r)
    then obtain y where y: "process_get_pin_retries (c, e) = (y, (c, e\<lparr>failing := fs\<rparr>))"
      "\<forall>z. y = Good z \<longrightarrow> r_pin_uv_auth_token z = None" by blast
    show ?thesis using now GetPinRetries y(2)
      by (cases y) (auto simp: process_command_def inspect_run attempt_state [where f = process_get_pin_retries, OF y(1)] give_def)
  next
    case GetKeyAgreement
    have k: "process_get_key_agreement P params (c, e) = (Good \<lparr>r_key_agreement =
        Some (get_public_key P (get_pin_protocol (cp_protocol params) c)), r_pin_uv_auth_token = None, r_retries = None,
        r_power_cycle_state = None\<rparr>, (c, e))"
      by (simp add: process_get_key_agreement_def get_pin_run give_def)
    show ?thesis using now GetKeyAgreement
      by (auto simp: process_command_def inspect_run attempt_state [where f = "process_get_key_agreement P params", OF k]
          give_def intro: exI [of _ "failing e"])
  qed (use now in \<open>auto simp: process_command_def inspect_run
      intro!: ref set_pin_locked set change_pin_locked get_token_locked token_with_permissions_locked assms\<close>)
qed

section \<open>Runs\<close>

text \<open>\<open>CtapState::new\<close> starts the store and draws a fresh client PIN state; a store that fails is a panic.
  A device that panicked does nothing until the next power cycle.\<close>

definition unwrap_op :: "('s, 'a) op \<Rightarrow> ('s, 'a) op" where
  "unwrap_op f = (\<lambda>s. case f s of (Bad _, s') \<Rightarrow> (Crash, s') | r \<Rightarrow> r)"

definition power_on :: "primitives \<Rightarrow> client_pin env_op" where
  "power_on P = attempt (change store_open) (\<lambda>_. attempt (unwrap_op storage_init) (\<lambda>_. client_pin_new P))"

datatype pin_event = Tick nat | Command client_pin_params nat | PowerCycle

type_synonym device = "client_pin option \<times> ctap_env"

fun pin_step :: "primitives \<Rightarrow> pin_event \<Rightarrow> device \<Rightarrow> client_pin_response option outcome option \<times> device" where
  "pin_step P PowerCycle (c, e) = (case power_on P e of (Good c', e') \<Rightarrow> (None, (Some c', e')) | (_, e') \<Rightarrow> (None, (None, e')))"
| "pin_step P (Tick t) (Some c, e) = (None, (Some (update_timeouts t c), e))"
| "pin_step P (Command params t) (Some c, e) = (case process_command P params t (c, e) of
     (Crash, (c', e')) \<Rightarrow> (Some Crash, (None, e')) | (x, (c', e')) \<Rightarrow> (Some x, (Some c', e')))"
| "pin_step P _ (None, e) = (None, (None, e))"

definition pin_kept :: "ctap_env \<Rightarrow> ctap_env \<Rightarrow> bool" where
  "pin_kept e e' \<longleftrightarrow> held e' PIN_PROPERTIES = held e PIN_PROPERTIES \<and> held e' PIN_RETRIES = held e PIN_RETRIES \<and> custom e' = custom e"

lemma pin_kept_hash: "pin_kept e e' \<Longrightarrow> hash_of_pin e' = hash_of_pin e \<and> retries_left e' = retries_left e"
  by (auto simp: pin_kept_def hash_of_pin_def retries_left_def byte_at_def split: option.split)

lemma unwrap_spares [sparing]: "spares j f \<Longrightarrow> spares j (unwrap_op f)"
  unfolding spares_def unwrap_op_def by (clarsimp split: prod.split outcome.split) (metis snd_conv)

lemma open_spares [sparing]: "spares j (change store_open)"
  by (simp add: spares_def change_def store_open_def relist_spares)

lemma client_pin_new_spares [sparing]: "spares j (client_pin_new P)"
proof -
  have "spares j (fresh_key P)" by (simp add: spares_def fresh_key_def)
  then have "spares j (pin_protocol_new P)"
    unfolding pin_protocol_new_def by (intro sparing) (auto intro: sparing spares_reads reading)
  then show ?thesis unfolding client_pin_new_def by (intro sparing) (auto intro: sparing spares_reads reading)
qed

lemma power_on_kept:
  assumes "power_on P e = (x, e')"
  shows "pin_kept e e'"
proof -
  have "spares j (power_on P)" if "j \<noteq> CRED_RANDOM_SECRET" "j \<noteq> AAGUID" for j
    unfolding power_on_def by (intro sparing init_spares that)
  from this [of PIN_PROPERTIES] this [of PIN_RETRIES]
  have "spares PIN_PROPERTIES (power_on P)" "spares PIN_RETRIES (power_on P)" by (simp_all add: key_numbers)
  with assms show ?thesis unfolding spares_def pin_kept_def by (metis snd_conv)
qed

lemma kept_refl: "pin_kept e e" "pin_kept e (e\<lparr>failing := fs\<rparr>)"
  by (simp_all add: pin_kept_def)

lemma kept_trans: "pin_kept e e' \<Longrightarrow> pin_kept e' e'' \<Longrightarrow> pin_kept e e''"
  by (simp add: pin_kept_def)

definition no_gain :: "client_pin_response option outcome option \<Rightarrow> bool" where
  "no_gain r \<longleftrightarrow> (\<forall>x. r = Some x \<longrightarrow> \<not> gained x)"

lemma locked_step:
  assumes "d = None \<or> (\<exists>c. d = Some c \<and> locked c e)" and "pin_step P ev (d, e) = (r, (d', e'))"
  shows "pin_kept e e'" "no_gain r"
    "ev \<noteq> PowerCycle \<Longrightarrow> d' = None \<or> (\<exists>c c'. d = Some c \<and> d' = Some c' \<and> consecutive_pin_mismatches c' = consecutive_pin_mismatches c)"
proof -
  have "pin_kept e e' \<and> no_gain r \<and> (ev \<noteq> PowerCycle \<longrightarrow> d' = None \<or>
    (\<exists>c c'. d = Some c \<and> d' = Some c' \<and> consecutive_pin_mismatches c' = consecutive_pin_mismatches c))"
  proof (cases ev)
    case PowerCycle
    then show ?thesis
      using assms(2) power_on_kept by (auto simp: no_gain_def split: prod.splits outcome.splits)
  next
    case (Tick t)
    then show ?thesis
      using assms(2) by (cases d) (auto simp: no_gain_def kept_refl update_timeouts_def)
  next
    case (Command params t)
    show ?thesis
    proof (cases d)
      case (Some c)
      then obtain x fs where "process_command P params t (c, e) = (x, (c, e\<lparr>failing := fs\<rparr>))" "\<not> gained x"
        using assms(1) command_locked by blast
      with assms(2) Command Some show ?thesis
        by (cases x) (auto simp: no_gain_def kept_refl)
    qed (use assms(2) Command in \<open>auto simp: no_gain_def kept_refl\<close>)
  qed
  then show "pin_kept e e'" "no_gain r"
    "ev \<noteq> PowerCycle \<Longrightarrow> d' = None \<or> (\<exists>c c'. d = Some c \<and> d' = Some c' \<and> consecutive_pin_mismatches c' = consecutive_pin_mismatches c)"
    by blast+
qed

text \<open>C2: Once no retries are left, the PIN is blocked: whatever client PIN commands the host sends, however often the
  device is power-cycled and whatever requests to the PDDB fail, none of them sets or changes the PIN or hands out a
  token, not even one that gives the right PIN, and the stored PIN and retry count stay as they are.  Only a reset of the security
  key, which is no client PIN command, clears the PIN and the count, with everything else.\<close>

theorem blocked_pin_stays_blocked:
  assumes "hash_of_pin e \<noteq> None" and "retries_left e = 0"
    and "serve_all (pin_step P) events (d, e) = (replies, (d', e'))"
  shows "(\<forall>r \<in> set replies. no_gain r) \<and> pin_kept e e'"
  using assms
proof (induction events arbitrary: d e replies)
  case (Cons ev events)
  obtain r d1 e1 where s: "pin_step P ev (d, e) = (r, (d1, e1))" by (metis prod_cases3)
  obtain rs where rs: "serve_all (pin_step P) events (d1, e1) = (rs, (d', e'))" "replies = r # rs"
    using Cons.prems(3) by (auto simp: s split: prod.splits)
  have "d = None \<or> (\<exists>c. d = Some c \<and> locked c e)" using Cons.prems by (auto simp: locked_def)
  note step = locked_step [OF this s]
  have "(\<forall>r \<in> set rs. no_gain r) \<and> pin_kept e1 e'"
    by (rule Cons.IH [OF _ _ rs(1)]) (use Cons.prems pin_kept_hash [OF step(1)] in simp_all)
  with step rs(2) show ?case using kept_trans by auto
qed (simp add: kept_refl)

text \<open>C25: After the third wrong PIN in a row the device gives no further chance before the next power cycle: no
  command sets or changes the PIN or hands out a token, and none uses up a retry, so that a host cannot block the PIN
  without the user taking the device out of its port.\<close>

theorem third_mismatch_blocks_until_power_cycle:
  assumes "hash_of_pin e \<noteq> None" and "consecutive_pin_mismatches c \<ge> 3" and "PowerCycle \<notin> set events"
    and "serve_all (pin_step P) events (Some c, e) = (replies, (d', e'))"
  shows "(\<forall>r \<in> set replies. no_gain r) \<and> pin_kept e e'"
proof -
  have "d = None \<or> (\<exists>c. d = Some c \<and> consecutive_pin_mismatches c \<ge> 3) \<Longrightarrow> hash_of_pin e \<noteq> None \<Longrightarrow>
    PowerCycle \<notin> set events \<Longrightarrow> serve_all (pin_step P) events (d, e) = (replies, (d', e')) \<Longrightarrow>
    (\<forall>r \<in> set replies. no_gain r) \<and> pin_kept e e'" for d
  proof (induction events arbitrary: d e replies)
    case (Cons ev events)
    obtain r d1 e1 where s: "pin_step P ev (d, e) = (r, (d1, e1))" by (metis prod_cases3)
    obtain rs where rs: "serve_all (pin_step P) events (d1, e1) = (rs, (d', e'))" "replies = r # rs"
      using Cons.prems(4) by (auto simp: s split: prod.splits)
    have "d = None \<or> (\<exists>c. d = Some c \<and> locked c e)" using Cons.prems(1,2) by (auto simp: locked_def)
    note step = locked_step [OF this s]
    have "(\<forall>r \<in> set rs. no_gain r) \<and> pin_kept e1 e'"
      by (rule Cons.IH [OF _ _ _ rs(1)]) (use Cons.prems step(3) pin_kept_hash [OF step(1)] in auto)
    with step rs(2) show ?case using kept_trans by auto
  qed (simp add: kept_refl)
  from this [of "Some c"] assms show ?thesis by blast
qed
end
