(* ===== verification/Ctap_Pin_Guesses.thy ===== *)
theory Ctap_Pin_Guesses
  imports Ctap_Pin_Safety
begin

text \<open>
  What a host gets out of the PIN commands of \<open>client_pin.rs\<close>: nothing without the PIN, no knowledge of it from wrong
  guesses, and no more guesses than there are retries.
\<close>

section \<open>Decryption\<close>

lemma chunks_length: "0 < n \<Longrightarrow> length xs mod n = 0 \<Longrightarrow> b \<in> set (chunks n xs) \<Longrightarrow> length b = n"
proof (induction n xs rule: chunks.induct)
  case (2 n x xs)
  have "n \<le> length (x # xs)" using 2(2,3) by (metis dvd_imp_le length_0_conv list.distinct(1) mod_0_imp_dvd not_gr_zero)
  moreover have "length (drop (n - 1) xs) mod n = 0"
    using 2(2,3) calculation by (simp add: le_mod_geq)
  ultimately show ?case using 2 by auto
qed simp

lemma cbc_decrypt_total: "\<forall>b \<in> set bs. length b = 16 \<Longrightarrow> \<exists>r. cbc_decrypt_blocks dec iv bs = Some r"
  by (induction bs arbitrary: iv) auto

lemma aes_decrypt_no_panic: "aes256_cbc_decrypt P key ct iv s \<noteq> (Crash, s')"
proof -
  have c: "cbc_decrypt P key i data \<noteq> None" if "16 dvd length data" for i data
  proof -
    have "\<forall>b \<in> set (chunks 16 data). length b = 16"
      using chunks_length [of 16 data] that by simp
    then show ?thesis unfolding cbc_decrypt_def using cbc_decrypt_total by fastforce
  qed
  have d: "16 dvd length (drop 16 ct)" if "16 dvd length ct"
    using that by (cases "16 \<le> length ct") (simp_all add: dvd_diff_nat)
  show ?thesis
    using c [of ct "replicate 16 0"] c [OF d, of "take 16 ct"]
    by (auto simp: aes256_cbc_decrypt_def refuse_def give_def crash_def or_crash_def split: option.splits)
qed

definition decrypted :: "primitives \<Rightarrow> shared_secret \<Rightarrow> bytes \<Rightarrow> bytes option" where
  "decrypted P secret ct = (case fst (secret_decrypt P secret ct ()) of Good d \<Rightarrow> Some d | _ \<Rightarrow> None)"

lemma aes_decrypt_pure: "aes256_cbc_decrypt P key ct iv s = (fst (aes256_cbc_decrypt P key ct iv ()), s)"
  by (simp add: aes256_cbc_decrypt_def or_crash_def refuse_def give_def crash_def split: option.split)

lemma secret_decrypt_run:
  obtains (good) d where "secret_decrypt P secret ct s = (Good d, s)" "decrypted P secret ct = Some d"
  | (bad) y where "secret_decrypt P secret ct s = (Bad y, s)" "decrypted P secret ct = None"
proof -
  have "secret_decrypt P secret ct s = (fst (secret_decrypt P secret ct ()), s)"
    by (cases secret) (simp_all add: aes_decrypt_pure [of P _ ct _ s])
  moreover have "fst (secret_decrypt P secret ct ()) \<noteq> Crash"
    by (cases secret) (simp_all add: aes_decrypt_no_panic prod_eq_iff, (metis aes_decrypt_no_panic prod.collapse)+)
  ultimately show thesis using that by (cases "fst (secret_decrypt P secret ct ())") (auto simp: decrypted_def)
qed

text \<open>A command proves the PIN when the PIN hash it carries decrypts to the stored one.\<close>

definition proves_pin :: "primitives \<Rightarrow> client_pin_params \<Rightarrow> client_pin \<Rightarrow> ctap_env \<Rightarrow> bool" where
  "proves_pin P params c e = (case (cp_key_agreement params, cp_pin_hash_enc params) of
     (Some k, Some enc) \<Rightarrow> (case decapsulate P (get_pin_protocol (cp_protocol params) c) k (cp_protocol params) of
        Inr secret \<Rightarrow> (case decrypted P secret enc of Some h \<Rightarrow> hash_of_pin e = Some h | None \<Rightarrow> False)
      | Inl _ \<Rightarrow> False)
   | _ \<Rightarrow> False)"

lemma proves_pin_permissions [simp]: "proves_pin P (params\<lparr>cp_permissions := x, cp_permissions_rp_id := y\<rparr>) c e = proves_pin P params c e"
  unfolding proves_pin_def by (cases "cp_key_agreement params"; cases "cp_pin_hash_enc params") simp_all

section \<open>The check, whatever fails\<close>

lemma on_env_result: "on_env f (c, e) = (Good x, s') \<Longrightarrow> \<exists>e'. f e = (Good x, e') \<and> s' = (c, e')"
  by (auto simp: on_env_def split: prod.splits)

lemma spares_result: "spares j f \<Longrightarrow> f e = (x, e') \<Longrightarrow> held e' j = held e j"
  unfolding spares_def by (metis snd_conv)

lemma remove_spares [sparing]:
  assumes "k \<noteq> j"
  shows "spares j (remove_at k)"
proof -
  have d: "opensk_delete_key k e = (x, e') \<Longrightarrow> held e' j = held e j \<and> custom e' = custom e" for e x e'
    using delete_spares [OF assms, of e] by simp
  show ?thesis
    by (auto simp: spares_def remove_at_def stored_def store_remove_def transaction_def apply_update_def relist_spares
        split: prod.splits sum.splits pddb_error.splits dest!: d)
qed

lemma decr_spares [sparing]: "PIN_RETRIES \<noteq> j \<Longrightarrow> spares j decr_pin_retries"
  unfolding decr_pin_retries_def by (rule spares_attempt) (auto intro: spares_reads reading insert_spares spares_give)

lemma reset_retries_spares [sparing]: "PIN_RETRIES \<noteq> j \<Longrightarrow> spares j reset_pin_retries"
  unfolding reset_pin_retries_def by (rule sparing)

lemma compare_accepts:
  assumes "compare_hashes P v h d (c, e) = (Good u, s')"
  obtains e' where "h = d" "reset_pin_retries e = (Good (), e')" "s' = (c\<lparr>consecutive_pin_mismatches := 0\<rparr>, e')"
  using assms unfolding compare_hashes_def
  by (auto simp: update_pin_def refuse_def elim!: attempt_result dest!: on_env_result split: if_splits)

lemma decrypts_to:
  assumes "map_err y (secret_decrypt P secret enc) s = (Good d, s')"
  shows "decrypted P secret enc = Some d \<and> s' = s"
  using assms by (cases rule: secret_decrypt_run [of P secret enc s]) (auto simp: map_err_def)

lemma attempt_read_result:
  assumes "reads f" and "attempt (on_env f) g (c, e) = (Good y, s')"
  shows "\<exists>x fs. f e = (Good x, e\<lparr>failing := fs\<rparr>) \<and> g x (c, e\<lparr>failing := fs\<rparr>) = (Good y, s')"
  using assms(2)
proof (rule attempt_result)
  fix x s1 assume s1: "on_env f (c, e) = (Good x, s1)" "g x s1 = (Good y, s')"
  then obtain e' where "f e = (Good x, e')" "s1 = (c, e')" by (auto dest: on_env_result)
  with s1 read_state [OF assms(1)] show ?thesis by blast
qed

lemma verify_accepts:
  assumes "verify_pin_hash_enc P v secret enc (c, e) = (Good u, s')"
  obtains h e' where "hash_of_pin e = Some h" "decrypted P secret enc = Some h" "consecutive_pin_mismatches c < 3"
    "s' = (c\<lparr>consecutive_pin_mismatches := 0\<rparr>, e')" "held e' FORCE_PIN_CHANGE = held e FORCE_PIN_CHANGE"
proof -
  obtain x fs where x: "pin_hash e = (Good x, e\<lparr>failing := fs\<rparr>)"
    and rx: "(case x of
       None \<Rightarrow> refuse CTAP2_ERR_PUAT_REQUIRED
     | Some hash \<Rightarrow>
         attempt (get_pin consecutive_pin_mismatches) (\<lambda>mismatches.
         if mismatches \<ge> 3 then refuse CTAP2_ERR_PIN_AUTH_BLOCKED else
         attempt (on_env decr_pin_retries) (\<lambda>_.
         attempt (map_err CTAP2_ERR_PIN_INVALID (secret_decrypt P secret enc)) (compare_hashes P v hash)))) (c, e\<lparr>failing := fs\<rparr>) = (Good u, s')"
    using attempt_read_result [OF pin_hash_reads assms [unfolded verify_pin_hash_enc_def]] by blast
  then obtain h where h: "hash_of_pin e = Some h" "\<not> consecutive_pin_mismatches c \<ge> 3"
    and r: "attempt (on_env decr_pin_retries) (\<lambda>_.
         attempt (map_err CTAP2_ERR_PIN_INVALID (secret_decrypt P secret enc)) (compare_hashes P v h))
       (c, e\<lparr>failing := fs\<rparr>) = (Good u, s')"
    using pin_hash_gives [OF x] by (auto simp: get_pin_run steps split: option.splits if_splits)
  from r obtain e1 where e1: "decr_pin_retries (e\<lparr>failing := fs\<rparr>) = (Good (), e1)"
    and r1: "attempt (map_err CTAP2_ERR_PIN_INVALID (secret_decrypt P secret enc)) (compare_hashes P v h) (c, e1) = (Good u, s')"
    by (rule attempt_result) (auto dest!: on_env_result)
  from r1 obtain d' where d': "decrypted P secret enc = Some d'" "compare_hashes P v h d' (c, e1) = (Good u, s')"
    by (auto elim!: attempt_result dest!: decrypts_to)
  from d'(2) have "d' = h" by (rule compare_accepts) simp
  with d' have d: "decrypted P secret enc = Some h" by simp
  from d'(2) obtain e' where e': "reset_pin_retries e1 = (Good (), e')" "s' = (c\<lparr>consecutive_pin_mismatches := 0\<rparr>, e')"
    by (rule compare_accepts)
  have "PIN_RETRIES \<noteq> FORCE_PIN_CHANGE" by (simp add: key_numbers)
  then have "held e' FORCE_PIN_CHANGE = held e FORCE_PIN_CHANGE"
    using spares_result [OF decr_spares e1] spares_result [OF reset_retries_spares e'(1)] by simp
  with that h d e' show thesis by (simp add: not_le)
qed

lemma secret_accepts: "get_shared_secret P v k (c, e) = (Good x, s') \<Longrightarrow> decapsulate P (get_pin_protocol v c) k v = Inr x \<and> s' = (c, e)"
  by (cases "decapsulate P (get_pin_protocol v c) k v") (auto simp: get_shared_secret_def get_pin_run steps)

lemma on_env_read: "reads f \<Longrightarrow> on_env f (c, e) = (Good x, s') \<Longrightarrow> \<exists>fs. s' = (c, e\<lparr>failing := fs\<rparr>)"
  by (auto dest!: on_env_result read_state)

lemma flag_gives: "flag k e = (Good x, e') \<Longrightarrow> x = (held e k \<noteq> None)"
  unfolding flag_def by (elim attempt_result) (auto simp: steps dest!: find_result split: option.splits if_splits)

lemma given_param: "ok_or_missing v s = (Good x, s') \<Longrightarrow> v = Some x \<and> s' = s"
  by (cases v) (auto simp: steps)

lemma checked_param: "checked v s = (Good x, s') \<Longrightarrow> v = Inr x \<and> s' = s"
  by (cases v) (auto simp: steps)

lemma retries_param: "on_env pin_retries (c, e) = (Good r, s') \<Longrightarrow> r = retries_left e \<and> (\<exists>fs. s' = (c, e\<lparr>failing := fs\<rparr>))"
  using read_state [OF pin_retries_reads, of e "Good r"] by (auto dest!: on_env_result dest: pin_retries_gives)

lemmas accepted = given_param checked_param retries_param secret_accepts

lemma change_pin_accepts:
  assumes "process_change_pin P params (c, e) = (Good u, s')"
  shows "proves_pin P params c e \<and> retries_left e \<noteq> 0 \<and> consecutive_pin_mismatches c < 3"
  using assms unfolding process_change_pin_def
  by (elim attempt_result)
    (auto simp: steps proves_pin_def dest!: accepted elim!: attempt_result verify_accepts split: if_splits)

lemma get_token_accepts:
  assumes "process_get_pin_token P params now (c, e) = (Good u, s')"
  shows "proves_pin P params c e \<and> retries_left e \<noteq> 0 \<and> consecutive_pin_mismatches c < 3 \<and> held e FORCE_PIN_CHANGE = None"
  using assms unfolding process_get_pin_token_def
  apply (elim attempt_result)
  apply (drule given_param)+
  apply (simp split: if_splits add: steps)
  apply (elim attempt_result)
  apply (drule accepted, clarsimp split: if_splits simp: steps)
  apply (auto simp: steps proves_pin_def has_force_pin_change_def
    dest!: secret_accepts on_env_result flag_gives elim!: attempt_result verify_accepts split: if_splits)
  done
section \<open>Gains\<close>

text \<open>C3: When a PIN is set, a command that sets or changes it or hands out a token carried the hash of the stored PIN,
  encrypted under the secret the device and the host share, with retries left and fewer than three wrong PINs in a
  row; and no token is handed out while the PIN has to be changed first.  This holds whatever requests to the PDDB fail.\<close>

theorem gain_needs_pin:
  assumes "hash_of_pin e \<noteq> None" and "process_command P params now (c, e) = (x, s')" and "gained x"
  shows "proves_pin P params c e \<and> retries_left e \<noteq> 0 \<and> consecutive_pin_mismatches c < 3
    \<and> (x \<noteq> Good None \<longrightarrow> held e FORCE_PIN_CHANGE = None)"
proof -
  have set: "process_set_pin P params (c, e) \<noteq> (Good u, s1)" for u s1
    using set_pin_locked [OF assms(1), of P params c] by (auto simp: refused_def)
  obtain y where y: "x = Good y" using assms(3) by (cases x) auto
  show ?thesis
  proof (cases "cp_sub_command params")
    case ChangePin
    with assms(2,3) y show ?thesis
      by (auto simp: process_command_def inspect_run steps split: if_splits elim!: attempt_result dest!: change_pin_accepts)
  next
    case GetPinToken
    with assms(2,3) y show ?thesis
      by (auto simp: process_command_def inspect_run steps split: if_splits elim!: attempt_result dest!: get_token_accepts)
  next
    case GetPinUvAuthTokenUsingPinWithPermissions
    with assms(2,3) y show ?thesis
      by (auto simp: process_command_def inspect_run steps process_token_with_permissions_def Let_def
          split: if_splits elim!: attempt_result dest!: given_param get_token_accepts)
  qed (use assms(2,3) y set in \<open>auto simp: process_command_def inspect_run steps process_get_pin_retries_def
      process_get_key_agreement_def get_pin_run split: if_splits elim!: attempt_result\<close>)
qed

section \<open>Looking away from the PIN\<close>

text \<open>Two fault-free devices that have a PIN and differ in nothing else.\<close>

definition pin_is_set :: "ctap_env \<Rightarrow> bool" where
  "pin_is_set e \<longleftrightarrow> (\<exists>d. held e PIN_PROPERTIES = Some d \<and> length d = 17)"

definition alike :: "ctap_env \<Rightarrow> ctap_env \<Rightarrow> bool" where
  "alike e1 e2 \<longleftrightarrow> failing e1 = [] \<and> failing e2 = [] \<and> custom e1 = custom e2 \<and> entropy e1 = entropy e2 \<and> drawn e1 = drawn e2
     \<and> (\<forall>k. k \<noteq> PIN_PROPERTIES \<longrightarrow> held e1 k = held e2 k) \<and> pin_is_set e1 \<and> pin_is_set e2"

definition agree :: "'a outcome \<times> client_pin \<times> ctap_env \<Rightarrow> 'a outcome \<times> client_pin \<times> ctap_env \<Rightarrow> bool" where
  "agree r1 r2 \<longleftrightarrow> fst r1 = fst r2 \<and> fst (snd r1) = fst (snd r2) \<and> alike (snd (snd r1)) (snd (snd r2))"

definition blind :: "'a pin_op \<Rightarrow> bool" where
  "blind f \<longleftrightarrow> (\<forall>c e1 e2. alike e1 e2 \<longrightarrow> agree (f (c, e1)) (f (c, e2)))"

definition blind_env :: "'a env_op \<Rightarrow> bool" where
  "blind_env f \<longleftrightarrow> (\<forall>e1 e2. alike e1 e2 \<longrightarrow> fst (f e1) = fst (f e2) \<and> alike (snd (f e1)) (snd (f e2)))"

named_theorems blinding \<open>operations that do not look at the PIN\<close>

lemma agree_attempt:
  assumes "agree (f s1) (f s2)"
    and "\<And>x c e1 e2. f s1 = (Good x, (c, e1)) \<Longrightarrow> f s2 = (Good x, (c, e2)) \<Longrightarrow> alike e1 e2 \<Longrightarrow> agree (g x (c, e1)) (g x (c, e2))"
  shows "agree (attempt f g s1) (attempt f g s2)"
  using assms by (cases "f s1"; cases "f s2"; cases "fst (f s1)") (auto simp: agree_def attempt_def)

lemma blind_pure [blinding]: "blind (give x)" "blind (refuse y)" "blind crash" "blind (get_pin h)" "blind (update_pin k)"
    "blind (ok_or_missing v)" "blind (checked w)"
  by (auto simp: blind_def agree_def steps get_pin_def update_pin_def ok_or_missing_def ok_or_def checked_def split: option.split sum.split)

lemma blind_attempt [blinding]: "blind f \<Longrightarrow> (\<And>x. blind (g x)) \<Longrightarrow> blind (attempt f g)"
  unfolding blind_def by (blast intro: agree_attempt)

lemma blind_on_env [blinding]: "blind_env f \<Longrightarrow> blind (on_env f)"
  by (auto simp: blind_def blind_env_def on_env_def agree_def split: prod.split) (metis fst_conv snd_conv)+

lemma blind_env_pure [blinding]: "blind_env (give x)" "blind_env (refuse y)" "blind_env (inspect (\<lambda>e. h (custom e)))"
    "blind_env gen_uniform_u8x32" "blind_env (fresh_key P)"
  by (auto simp: blind_env_def steps gen_uniform_u8x32_def fresh_key_def alike_def pin_is_set_def)

lemma blind_env_attempt [blinding]:
  assumes "blind_env f" and "\<And>x. blind_env (g x)"
  shows "blind_env (attempt f g)"
  unfolding blind_env_def
proof (intro allI impI)
  fix e1 e2 assume "alike e1 e2"
  then have "fst (f e1) = fst (f e2)" "alike (snd (f e1)) (snd (f e2))" using assms(1) by (auto simp: blind_env_def)
  with assms(2) show "fst (attempt f g e1) = fst (attempt f g e2) \<and> alike (snd (attempt f g e1)) (snd (attempt f g e2))"
    by (cases "f e1"; cases "f e2"; cases "fst (f e1)") (auto simp: attempt_def blind_env_def)
qed

lemma blind_store [blinding]:
  assumes "k \<noteq> PIN_PROPERTIES"
  shows "blind_env (find k)" "blind_env (insert_at k v)" "blind_env (remove_at k)" "blind_env (stored (store_find_handle k))"
proof -
  have "alike e1 e2 \<Longrightarrow> held e1 k = held e2 k \<and> failing e1 = [] \<and> failing e2 = []" for e1 e2 using assms by (simp add: alike_def)
  then show "blind_env (find k)" "blind_env (insert_at k v)" "blind_env (remove_at k)" "blind_env (stored (store_find_handle k))"
    using assms by (auto simp: blind_env_def steps faultless alike_def pin_is_set_def dom_def)
qed

lemma other_keys: "PIN_RETRIES \<noteq> PIN_PROPERTIES" "FORCE_PIN_CHANGE \<noteq> PIN_PROPERTIES" "CRED_RANDOM_SECRET \<noteq> PIN_PROPERTIES"
    "AAGUID \<noteq> PIN_PROPERTIES"
  by (simp_all add: key_numbers)

lemma blind_byte [blinding]: "k \<noteq> PIN_PROPERTIES \<Longrightarrow> blind_env (byte_value k d)"
  unfolding byte_value_def by (intro blinding) (auto intro: blinding split: option.split)

lemma blind_retries [blinding]: "blind_env pin_retries" "blind_env decr_pin_retries" "blind_env reset_pin_retries"
proof -
  show r: "blind_env pin_retries" by (simp add: pin_retries_def blinding other_keys)
  show "blind_env decr_pin_retries" unfolding decr_pin_retries_def
    by (rule blinding, rule r) (simp add: blinding other_keys)
  show "blind_env reset_pin_retries" by (simp add: reset_pin_retries_def blinding other_keys)
qed

lemma blind_regenerate [blinding]: "blind (regenerate_protocol P v)"
  unfolding regenerate_protocol_def regenerate_def by (intro blinding)

lemma blind_map_err [blinding]: "blind f \<Longrightarrow> blind (map_err y f)"
  unfolding blind_def agree_def map_err_def
  by (auto split: prod.split outcome.split) (metis fst_conv snd_conv outcome.distinct outcome.inject)+

lemma secret_decrypt_pure: "secret_decrypt P secret ct s = (fst (secret_decrypt P secret ct ()), s)"
  by (cases secret) (simp_all add: aes_decrypt_pure [of P _ ct _ s])

lemma blind_decrypt [blinding]: "blind (secret_decrypt P secret ct)"
  unfolding blind_def agree_def by (subst (1 2 3 4 5 6) secret_decrypt_pure) simp

section \<open>Wrong guesses\<close>

lemma set_pin_run: "failing e = [] \<Longrightarrow> pin_is_set e \<Longrightarrow> \<exists>h. hash_of_pin e = Some h \<and> pin_hash e = (Good (Some h), e)"
  by (auto simp: pin_is_set_def hash_of_pin_def pin_hash_def pin_properties_def PIN_AUTH_LENGTH_def steps)

text \<open>The check of a PIN that is wrong, which does not need the right one.\<close>

definition mismatch :: "primitives \<Rightarrow> pin_uv_auth_protocol \<Rightarrow> unit pin_op" where
  "mismatch P v = attempt (regenerate_protocol P v) (\<lambda>_.
     attempt (on_env pin_retries) (\<lambda>retries.
     if retries = 0 then refuse CTAP2_ERR_PIN_BLOCKED else
     attempt (update_pin (\<lambda>c. c\<lparr>consecutive_pin_mismatches := consecutive_pin_mismatches c + 1\<rparr>)) (\<lambda>_.
     attempt (get_pin consecutive_pin_mismatches) (\<lambda>mismatches.
     if mismatches \<ge> 3 then refuse CTAP2_ERR_PIN_AUTH_BLOCKED else refuse CTAP2_ERR_PIN_INVALID))))"

definition wrong_guess :: "primitives \<Rightarrow> pin_uv_auth_protocol \<Rightarrow> shared_secret \<Rightarrow> bytes \<Rightarrow> unit pin_op" where
  "wrong_guess P v secret enc =
     attempt (get_pin consecutive_pin_mismatches) (\<lambda>mismatches.
     if mismatches \<ge> 3 then refuse CTAP2_ERR_PIN_AUTH_BLOCKED else
     attempt (on_env decr_pin_retries) (\<lambda>_.
     attempt (map_err CTAP2_ERR_PIN_INVALID (secret_decrypt P secret enc)) (\<lambda>_. mismatch P v)))"

lemma verify_wrong:
  assumes "failing e = []" and "pin_is_set e" and "decrypted P secret enc \<noteq> hash_of_pin e"
  shows "verify_pin_hash_enc P v secret enc (c, e) = wrong_guess P v secret enc (c, e)"
proof -
  obtain h where h: "hash_of_pin e = Some h" "pin_hash e = (Good (Some h), e)" using set_pin_run assms(1,2) by blast
  have "attempt (map_err CTAP2_ERR_PIN_INVALID (secret_decrypt P secret enc)) (\<lambda>d. compare_hashes P v h d) s
    = attempt (map_err CTAP2_ERR_PIN_INVALID (secret_decrypt P secret enc)) (\<lambda>_. mismatch P v) s" for s :: "client_pin \<times> ctap_env"
    by (rule secret_decrypt_run [of P secret enc s])
      (use assms(3) h in \<open>auto simp: attempt_def map_err_def compare_hashes_def mismatch_def\<close>)
  then have "attempt (map_err CTAP2_ERR_PIN_INVALID (secret_decrypt P secret enc)) (compare_hashes P v h)
    = (attempt (map_err CTAP2_ERR_PIN_INVALID (secret_decrypt P secret enc)) (\<lambda>_. mismatch P v) :: unit pin_op)" by (intro ext) simp
  moreover have "on_env pin_hash (c, e) = (Good (Some h), (c, e))" using h by (simp add: on_env_def)
  note run = attempt_Good [where f = "on_env pin_hash", OF this]
  ultimately show ?thesis by (simp add: verify_pin_hash_enc_def wrong_guess_def run cong: if_cong)
qed

lemma blind_wrong [blinding]: "blind (wrong_guess P v secret enc)"
proof -
  have "blind (mismatch P v)" unfolding mismatch_def by (intro blinding) (auto intro!: blinding)
  then show ?thesis unfolding wrong_guess_def by (intro blinding) (auto intro!: blinding)
qed

lemma wrong_fails: "wrong_guess P v secret enc s \<noteq> (Good x, s')"
  by (auto simp: wrong_guess_def mismatch_def refuse_def elim!: attempt_result split: if_splits)

lemma proves_pin_faults [simp]: "proves_pin P params c (e\<lparr>failing := fs\<rparr>) = proves_pin P params c e"
  by (simp add: proves_pin_def split: option.split sum.split)

lemma verify_blind:
  assumes "alike e1 e2" and "decrypted P secret enc \<noteq> hash_of_pin e1" and "decrypted P secret enc \<noteq> hash_of_pin e2"
  shows "agree (attempt (verify_pin_hash_enc P v secret enc) g (c, e1)) (attempt (verify_pin_hash_enc P v secret enc) g (c, e2))"
proof (rule agree_attempt)
  have "verify_pin_hash_enc P v secret enc (c, e1) = wrong_guess P v secret enc (c, e1)"
    "verify_pin_hash_enc P v secret enc (c, e2) = wrong_guess P v secret enc (c, e2)"
    using assms by (auto intro!: verify_wrong simp: alike_def)
  then show "agree (verify_pin_hash_enc P v secret enc (c, e1)) (verify_pin_hash_enc P v secret enc (c, e2))"
    "\<And>x c' e1' e2'. verify_pin_hash_enc P v secret enc (c, e1) = (Good x, c', e1') \<Longrightarrow> agree (g x (c', e1')) (g x (c', e2'))"
    using blind_wrong [of P v secret enc] assms(1) wrong_fails by (auto simp: blind_def)
qed

text \<open>Steps that may come before the check.\<close>

lemma agree_step:
  assumes "blind f" and "alike e1 e2" and "\<And>c e x s'. f (c, e) = (Good x, s') \<Longrightarrow> (\<exists>fs. s' = (c, e\<lparr>failing := fs\<rparr>)) \<and> Q c x"
    and "\<And>x fs1 fs2. Q c x \<Longrightarrow> alike (e1\<lparr>failing := fs1\<rparr>) (e2\<lparr>failing := fs2\<rparr>)
      \<Longrightarrow> agree (g x (c, e1\<lparr>failing := fs1\<rparr>)) (g x (c, e2\<lparr>failing := fs2\<rparr>))"
  shows "agree (attempt f g (c, e1)) (attempt f g (c, e2))"
proof (rule agree_attempt)
  show "agree (f (c, e1)) (f (c, e2))" using assms(1,2) by (simp add: blind_def)
  fix x c' e1' e2' assume "f (c, e1) = (Good x, c', e1')" "f (c, e2) = (Good x, c', e2')" "alike e1' e2'"
  with assms(3) [of c e1 x] assms(3) [of c e2 x] assms(4) show "agree (g x (c', e1')) (g x (c', e2'))" by auto
qed

lemma agree_now [intro!]: "alike e1 e2 \<Longrightarrow> agree (refuse y (c, e1)) (refuse y (c, e2))"
  by (simp add: agree_def refuse_def)

lemma faults_now: "\<exists>fs. (c, e) = (c, e\<lparr>failing := fs\<rparr>)" for e :: ctap_env
  by (rule exI [of _ "failing e"]) simp

lemma agree_missing:
  assumes "alike e1 e2"
    and "\<And>x fs1 fs2. v = Some x \<Longrightarrow> alike (e1\<lparr>failing := fs1\<rparr>) (e2\<lparr>failing := fs2\<rparr>)
      \<Longrightarrow> agree (g x (c, e1\<lparr>failing := fs1\<rparr>)) (g x (c, e2\<lparr>failing := fs2\<rparr>))"
  shows "agree (attempt (ok_or_missing v) g (c, e1)) (attempt (ok_or_missing v) g (c, e2))"
  by (rule agree_step [where Q = "\<lambda>_ x. v = Some x"]) (use assms faults_now in \<open>auto simp: blinding dest!: given_param\<close>)

lemma agree_checked:
  assumes "alike e1 e2"
    and "\<And>x fs1 fs2. v = Inr x \<Longrightarrow> alike (e1\<lparr>failing := fs1\<rparr>) (e2\<lparr>failing := fs2\<rparr>)
      \<Longrightarrow> agree (g x (c, e1\<lparr>failing := fs1\<rparr>)) (g x (c, e2\<lparr>failing := fs2\<rparr>))"
  shows "agree (attempt (checked v) g (c, e1)) (attempt (checked v) g (c, e2))"
  by (rule agree_step [where Q = "\<lambda>_ x. v = Inr x"]) (use assms faults_now in \<open>auto simp: blinding dest!: checked_param\<close>)

lemma agree_retries:
  assumes "alike e1 e2"
    and "\<And>x fs1 fs2. alike (e1\<lparr>failing := fs1\<rparr>) (e2\<lparr>failing := fs2\<rparr>)
      \<Longrightarrow> agree (g x (c, e1\<lparr>failing := fs1\<rparr>)) (g x (c, e2\<lparr>failing := fs2\<rparr>))"
  shows "agree (attempt (on_env pin_retries) g (c, e1)) (attempt (on_env pin_retries) g (c, e2))"
  by (rule agree_step [where Q = "\<lambda>_ x. True"]) (use assms in \<open>auto simp: blinding dest!: retries_param\<close>)

lemma agree_secret:
  assumes "alike e1 e2"
    and "\<And>x fs1 fs2. decapsulate P (get_pin_protocol v c) k v = Inr x \<Longrightarrow> alike (e1\<lparr>failing := fs1\<rparr>) (e2\<lparr>failing := fs2\<rparr>)
      \<Longrightarrow> agree (g x (c, e1\<lparr>failing := fs1\<rparr>)) (g x (c, e2\<lparr>failing := fs2\<rparr>))"
  shows "agree (attempt (get_shared_secret P v k) g (c, e1)) (attempt (get_shared_secret P v k) g (c, e2))"
proof (rule agree_step [where Q = "\<lambda>c x. decapsulate P (get_pin_protocol v c) k v = Inr x"])
  show "blind (get_shared_secret P v k)" unfolding get_shared_secret_def by (intro blinding)
qed (use assms faults_now in \<open>auto dest!: secret_accepts\<close>)

lemma unproven_guess:
  "\<not> proves_pin P params c e \<Longrightarrow> cp_key_agreement params = Some k \<Longrightarrow> cp_pin_hash_enc params = Some enc \<Longrightarrow>
    pin_is_set e \<Longrightarrow> decapsulate P (get_pin_protocol (cp_protocol params) c) k (cp_protocol params) = Inr secret \<Longrightarrow>
    decrypted P secret enc \<noteq> hash_of_pin e"
  by (auto simp: proves_pin_def pin_is_set_def hash_of_pin_def)

lemma alike_set: "alike e1 e2 \<Longrightarrow> pin_is_set e1 \<and> pin_is_set e2 \<and> failing e1 = [] \<and> failing e2 = []"
  by (simp add: alike_def)

lemma change_pin_blind:
  assumes "alike e1 e2" "\<not> proves_pin P params c e1" "\<not> proves_pin P params c e2"
  shows "agree (process_change_pin P params (c, e1)) (process_change_pin P params (c, e2))"
proof -
  have "agree (attempt (verify_pin_hash_enc P (cp_protocol params) secret enc) g (c, e1\<lparr>failing := fs1\<rparr>))
      (attempt (verify_pin_hash_enc P (cp_protocol params) secret enc) g (c, e2\<lparr>failing := fs2\<rparr>))"
    if "alike (e1\<lparr>failing := fs1\<rparr>) (e2\<lparr>failing := fs2\<rparr>)" "cp_key_agreement params = Some k" "cp_pin_hash_enc params = Some enc"
      "decapsulate P (get_pin_protocol (cp_protocol params) c) k (cp_protocol params) = Inr secret"
    for fs1 fs2 k enc secret and g :: "unit \<Rightarrow> unit pin_op"
    by (rule verify_blind [OF that(1)]) (use assms that alike_set [OF assms(1)] unproven_guess in simp_all)
  then show ?thesis
    unfolding process_change_pin_def using assms(1)
    by (auto intro!: agree_missing agree_retries agree_secret agree_checked)
qed

lemma get_token_blind:
  assumes "alike e1 e2" "\<not> proves_pin P params c e1" "\<not> proves_pin P params c e2"
  shows "agree (process_get_pin_token P params now (c, e1)) (process_get_pin_token P params now (c, e2))"
proof -
  have "agree (attempt (verify_pin_hash_enc P (cp_protocol params) secret enc) g (c, e1\<lparr>failing := fs1\<rparr>))
      (attempt (verify_pin_hash_enc P (cp_protocol params) secret enc) g (c, e2\<lparr>failing := fs2\<rparr>))"
    if "alike (e1\<lparr>failing := fs1\<rparr>) (e2\<lparr>failing := fs2\<rparr>)" "cp_key_agreement params = Some k" "cp_pin_hash_enc params = Some enc"
      "decapsulate P (get_pin_protocol (cp_protocol params) c) k (cp_protocol params) = Inr secret"
    for fs1 fs2 k enc secret and g :: "unit \<Rightarrow> client_pin_response pin_op"
    by (rule verify_blind [OF that(1)]) (use assms that alike_set [OF assms(1)] unproven_guess in simp_all)
  then show ?thesis
    unfolding process_get_pin_token_def using assms(1)
    by (auto intro!: agree_missing agree_retries agree_secret)
qed

lemma command_blind:
  assumes "alike e1 e2" "\<not> proves_pin P params c e1" "\<not> proves_pin P params c e2"
  shows "agree (process_command P params now (c, e1)) (process_command P params now (c, e2))"
proof -
  have "\<exists>h1 h2. pin_hash e1 = (Good (Some h1), e1) \<and> pin_hash e2 = (Good (Some h2), e2)"
    using alike_set [OF assms(1)] set_pin_run by blast
  then have set: "agree (process_set_pin P params (c, e1)) (process_set_pin P params (c, e2))"
    using assms(1) unfolding process_set_pin_def
    by (auto simp: ok_or_missing_def ok_or_def steps attempt_def on_env_def refuse_def agree_def split: option.split)
  have cust: "custom e1 = custom e2" using assms(1) by (simp add: alike_def)
  have run: "agree (attempt f (\<lambda>x. give (h x)) (c, e1)) (attempt f (\<lambda>x. give (h x)) (c, e2))"
    if "agree (f (c, e1)) (f (c, e2))" for f :: "'b pin_op" and h :: "'b \<Rightarrow> client_pin_response option"
    using that by (rule agree_attempt) (simp add: agree_def give_def)
  have perms: "agree (process_token_with_permissions P params now (c, e1)) (process_token_with_permissions P params now (c, e2))"
  proof -
    have "agree (attempt (process_get_pin_token P (params\<lparr>cp_permissions := None, cp_permissions_rp_id := None\<rparr>) now) h (c, e1\<lparr>failing := fs1\<rparr>))
      (attempt (process_get_pin_token P (params\<lparr>cp_permissions := None, cp_permissions_rp_id := None\<rparr>) now) h (c, e2\<lparr>failing := fs2\<rparr>))"
      if "alike (e1\<lparr>failing := fs1\<rparr>) (e2\<lparr>failing := fs2\<rparr>)" and "\<And>x. blind (h x)" for fs1 fs2 and h :: "client_pin_response \<Rightarrow> client_pin_response pin_op"
      by (rule agree_attempt, rule get_token_blind) (use that assms in \<open>auto simp: blind_def\<close>)
    then show ?thesis unfolding process_token_with_permissions_def
      by (intro agree_missing) (use assms in \<open>auto simp: Let_def blinding\<close>)
  qed
  have "blind process_get_pin_retries" "blind (process_get_key_agreement P params)"
    unfolding process_get_pin_retries_def process_get_key_agreement_def by (intro blinding)+
  then have "agree (process_get_pin_retries (c, e1)) (process_get_pin_retries (c, e2))"
    "agree (process_get_key_agreement P params (c, e1)) (process_get_key_agreement P params (c, e2))"
    using assms(1) by (auto simp: blind_def)
  with set perms change_pin_blind [OF assms] get_token_blind [OF assms] assms(1) show ?thesis
    by (auto simp: process_command_def inspect_run cust intro!: run split: client_pin_sub_command.split)
qed

lemma held_listed [simp]: "held (e\<lparr>listed := l\<rparr>) = held e"
  by (simp add: held_def dict_of_def)

lemma power_on_blind: "blind_env (power_on P)"
proof -
  have open_blind: "blind_env (change store_open)"
    by (auto simp: blind_env_def change_def store_open_def relist_faultless alike_def pin_is_set_def)
  have unwrap: "blind_env f \<Longrightarrow> blind_env (unwrap_op f)" for f :: "unit env_op"
    by (auto simp: blind_env_def unwrap_op_def split: prod.split outcome.split) (metis fst_conv snd_conv outcome.distinct outcome.inject)+
  have "blind_env storage_init"
    unfolding storage_init_def set_aaguid_def by (intro blinding other_keys) (auto intro!: blinding simp: other_keys)
  moreover have "blind_env (client_pin_new P)"
    unfolding client_pin_new_def pin_protocol_new_def by (intro blinding)
  ultimately show ?thesis unfolding power_on_def by (intro blinding open_blind unwrap)
qed

text \<open>A run in which no command proves the PIN.\<close>

definition guesses_wrong :: "primitives \<Rightarrow> pin_event \<Rightarrow> device \<Rightarrow> bool" where
  "guesses_wrong P ev d \<longleftrightarrow> (case (ev, fst d) of (Command params t, Some c) \<Rightarrow> \<not> proves_pin P params c (snd d) | _ \<Rightarrow> True)"

fun unproven :: "primitives \<Rightarrow> pin_event list \<Rightarrow> device \<Rightarrow> bool" where
  "unproven P [] d = True"
| "unproven P (ev # evs) d \<longleftrightarrow> guesses_wrong P ev d \<and> unproven P evs (snd (pin_step P ev d))"

lemma step_blind:
  assumes "alike e1 e2" "guesses_wrong P ev (d, e1)" "guesses_wrong P ev (d, e2)"
  shows "\<exists>r d' e1' e2'. pin_step P ev (d, e1) = (r, (d', e1')) \<and> pin_step P ev (d, e2) = (r, (d', e2')) \<and> alike e1' e2'"
proof (cases ev)
  case PowerCycle
  with power_on_blind [of P, unfolded blind_env_def, rule_format, OF assms(1)] show ?thesis
    by (cases "power_on P e1"; cases "power_on P e2"; cases "fst (power_on P e1)") auto
next
  case (Tick t)
  with assms(1) show ?thesis by (cases d) auto
next
  case (Command params t)
  show ?thesis
  proof (cases d)
    case (Some c)
    have "agree (process_command P params t (c, e1)) (process_command P params t (c, e2))"
      by (rule command_blind) (use assms Command Some in \<open>auto simp: guesses_wrong_def\<close>)
    with Command Some show ?thesis
      by (cases "process_command P params t (c, e1)"; cases "process_command P params t (c, e2)";
          cases "fst (process_command P params t (c, e1))") (auto simp: agree_def)
  qed (use assms Command in simp)
qed

text \<open>C10: A host that never gives the right PIN learns nothing about it but that its guesses are wrong: two devices
  that differ only in the stored PIN, both with another one than those it tries, answer every sequence of commands,
  ticks and power cycles alike.\<close>

theorem wrong_guesses_look_alike:
  assumes "alike e1 e2" and "unproven P events (d, e1)" and "unproven P events (d, e2)"
  shows "fst (serve_all (pin_step P) events (d, e1)) = fst (serve_all (pin_step P) events (d, e2))"
  using assms
proof (induction events arbitrary: d e1 e2)
  case (Cons ev events)
  obtain r d' e1' e2' where s: "pin_step P ev (d, e1) = (r, (d', e1'))" "pin_step P ev (d, e2) = (r, (d', e2'))" "alike e1' e2'"
    using step_blind [of e1 e2 P ev d] Cons.prems by auto
  with Cons.IH [OF s(3), of d'] Cons.prems show ?case by (simp split: prod.split) (metis fst_conv)
qed simp

section \<open>What a guess costs\<close>

text \<open>A fault-free step of a device with a PIN leaves the PIN alone, gives no retries back, and takes one away when it
  says that the PIN was invalid.\<close>

definition costs :: "ctap_env \<Rightarrow> 'a outcome \<times> client_pin \<times> ctap_env \<Rightarrow> bool" where
  "costs e r \<longleftrightarrow> (let e' = snd (snd r) in failing e' = [] \<and> held e' PIN_PROPERTIES = held e PIN_PROPERTIES \<and>
     retries_left e' \<le> retries_left e \<and> (fst r = Bad CTAP2_ERR_PIN_INVALID \<longrightarrow> retries_left e' < retries_left e))"

lemma byte_value_run: "failing e = [] \<Longrightarrow> byte_value k d e =
    ((case held e k of None \<Rightarrow> Good (d (custom e)) | Some v \<Rightarrow> if length v = 1 then Good (v ! 0) else Bad CTAP2_ERR_VENDOR_INTERNAL_ERROR), e)"
  by (auto simp: byte_value_def steps split: option.split)

lemma pin_retries_run: "failing e = [] \<Longrightarrow> pin_retries e = (Good (retries_left e), e) \<or> pin_retries e = (Bad CTAP2_ERR_VENDOR_INTERNAL_ERROR, e)"
  by (auto simp: pin_retries_def byte_value_run retries_left_def byte_at_def split: option.split)

lemma retries_put [simp]: "retries_left (put PIN_RETRIES [x] e) = x"
  and retries_drawn [simp]: "retries_left (e\<lparr>drawn := n\<rparr>) = retries_left e"
  by (simp_all add: retries_left_def byte_at_def split: option.split)

lemma costs_now: "failing e = [] \<Longrightarrow> y \<noteq> CTAP2_ERR_PIN_INVALID \<Longrightarrow> costs e (refuse y (c, e))"
  by (simp add: costs_def refuse_def)

lemma costs_same: "failing e = [] \<Longrightarrow> x \<noteq> Bad CTAP2_ERR_PIN_INVALID \<Longrightarrow> costs e (x, c, e)"
  by (simp add: costs_def)

lemma mismatch_costs:
  assumes "failing e' = []" "held e' PIN_PROPERTIES = held e PIN_PROPERTIES" "retries_left e' < retries_left e"
  shows "costs e (mismatch P v (c, e'))"
proof -
  define c' where "c' = set_pin_protocol v (get_pin_protocol v c\<lparr>key_agreement_key := gensk P (drawn e')\<rparr>) c"
  have r: "regenerate_protocol P v (c, e') = (Good (), c', e'\<lparr>drawn := Suc (drawn e')\<rparr>)"
    by (simp add: regenerate_protocol_def get_pin_run regenerate_def on_env_def fresh_key_def attempt_def give_def update_pin_def get_pin_def c'_def)
  from pin_retries_run [of "e'\<lparr>drawn := Suc (drawn e')\<rparr>"] assms show ?thesis
    by (auto simp: mismatch_def r costs_def attempt_def on_env_def refuse_def update_pin_def get_pin_def)
qed

lemma wrong_costs:
  assumes "failing e = []" and "retries_left e \<noteq> 0"
  shows "costs e (wrong_guess P v secret enc (c, e))"
proof (cases "consecutive_pin_mismatches c \<ge> 3")
  case False
  have less: "saturating_pred (retries_left e) < retries_left e"
    using assms(2) by (simp add: saturating_pred_def word_less_nat_alt unat_minus_one) (simp add: unat_gt_0)
  show ?thesis
    using pin_retries_run [OF assms(1)]
  proof
    assume r: "pin_retries e = (Good (retries_left e), e)"
    define e' where "e' = put PIN_RETRIES [saturating_pred (retries_left e)] e"
    have d: "on_env decr_pin_retries (c, e) = (Good (), c, e')"
      using less assms(1) by (auto simp: on_env_def decr_pin_retries_def steps r e'_def)
    have e': "failing e' = []" "held e' PIN_PROPERTIES = held e PIN_PROPERTIES" "retries_left e' < retries_left e"
      using assms(1) less other_keys by (simp_all add: e'_def)
    show ?thesis
    proof (rule secret_decrypt_run [of P secret enc "(c, e')"])
      fix x assume "secret_decrypt P secret enc (c, e') = (Good x, c, e')"
      then have m: "map_err CTAP2_ERR_PIN_INVALID (secret_decrypt P secret enc) (c, e') = (Good x, c, e')" by (simp add: map_err_def)
      show ?thesis using False mismatch_costs [OF e'] by (simp add: wrong_guess_def get_pin_def attempt_def d m)
    next
      fix y assume "secret_decrypt P secret enc (c, e') = (Bad y, c, e')"
      then have m: "map_err CTAP2_ERR_PIN_INVALID (secret_decrypt P secret enc) (c, e') = (Bad CTAP2_ERR_PIN_INVALID, c, e')" by (simp add: map_err_def)
      show ?thesis using False e' by (simp add: wrong_guess_def get_pin_def attempt_def d m costs_def)
    qed
  next
    assume r: "pin_retries e = (Bad CTAP2_ERR_VENDOR_INTERNAL_ERROR, e)"
    then have d: "on_env decr_pin_retries (c, e) = (Bad CTAP2_ERR_VENDOR_INTERNAL_ERROR, c, e)"
      by (simp add: on_env_def decr_pin_retries_def steps)
    show ?thesis using False assms(1) by (simp add: wrong_guess_def get_pin_def attempt_def d costs_def)
  qed
qed (use assms in \<open>simp add: wrong_guess_def get_pin_run costs_now\<close>)

lemma costs_attempt: "costs e (f s) \<Longrightarrow> (\<And>x s'. f s \<noteq> (Good x, s')) \<Longrightarrow> costs e (attempt f g s)"
  by (cases "f s"; cases "fst (f s)") (auto simp: attempt_def costs_def)

lemma costs_missing: "failing e = [] \<Longrightarrow> (\<And>x. v = Some x \<Longrightarrow> costs e (g x (c, e))) \<Longrightarrow> costs e (attempt (ok_or_missing v) g (c, e))"
  by (cases v) (auto simp: steps costs_same)

lemma costs_retries: "failing e = [] \<Longrightarrow> costs e (g (retries_left e) (c, e)) \<Longrightarrow> costs e (attempt (on_env pin_retries) g (c, e))"
  using pin_retries_run [of e] by (auto simp: attempt_def on_env_def costs_same)

lemma costs_pin_hash: "pin_hash e = (Good h, e) \<Longrightarrow> costs e (g h (c, e)) \<Longrightarrow> costs e (attempt (on_env pin_hash) g (c, e))"
  by (simp add: attempt_def on_env_def)

lemma costs_checked: "failing e = [] \<Longrightarrow> v \<noteq> Inl CTAP2_ERR_PIN_INVALID \<Longrightarrow> (\<And>x. v = Inr x \<Longrightarrow> costs e (g x (c, e))) \<Longrightarrow> costs e (attempt (checked v) g (c, e))"
  by (cases v) (auto simp: steps costs_same)

lemma secret_errors: "decapsulate P p k v \<noteq> Inl CTAP2_ERR_PIN_INVALID" "secret_verify P s m t \<noteq> Inl CTAP2_ERR_PIN_INVALID"
  by (auto simp: decapsulate_def ecdh_of_cose_def bind_parsed_def split: option.splits)
    (cases s; simp add: verify_v1_def verify_v2_def split: if_splits)

lemma costs_secret: "failing e = [] \<Longrightarrow> (\<And>x. decapsulate P (get_pin_protocol v c) k v = Inr x \<Longrightarrow> costs e (g x (c, e)))
    \<Longrightarrow> costs e (attempt (get_shared_secret P v k) g (c, e))"
  using secret_errors(1) [of P "get_pin_protocol v c" k v]
  by (cases "decapsulate P (get_pin_protocol v c) k v") (auto simp: get_shared_secret_def attempt_def get_pin_def steps costs_same)

lemma unproven_costs:
  assumes "failing e = []" "pin_is_set e" "\<not> proves_pin P params c e" "retries_left e \<noteq> 0"
    "cp_key_agreement params = Some k" "cp_pin_hash_enc params = Some enc"
    "decapsulate P (get_pin_protocol (cp_protocol params) c) k (cp_protocol params) = Inr secret"
  shows "costs e (attempt (verify_pin_hash_enc P (cp_protocol params) secret enc) g (c, e))"
proof (rule costs_attempt)
  have "verify_pin_hash_enc P (cp_protocol params) secret enc (c, e) = wrong_guess P (cp_protocol params) secret enc (c, e)"
    by (rule verify_wrong) (use assms unproven_guess in simp_all)
  then show "costs e (verify_pin_hash_enc P (cp_protocol params) secret enc (c, e))"
    "\<And>x s'. verify_pin_hash_enc P (cp_protocol params) secret enc (c, e) \<noteq> (Good x, s')"
    using assms wrong_costs wrong_fails by simp_all
qed

lemma change_pin_costs:
  "failing e = [] \<Longrightarrow> pin_is_set e \<Longrightarrow> \<not> proves_pin P params c e \<Longrightarrow> costs e (process_change_pin P params (c, e))"
  unfolding process_change_pin_def
  by (auto intro!: costs_missing costs_retries costs_secret costs_checked costs_now unproven_costs simp: secret_errors)

lemma get_token_costs:
  "failing e = [] \<Longrightarrow> pin_is_set e \<Longrightarrow> \<not> proves_pin P params c e \<Longrightarrow> costs e (process_get_pin_token P params now (c, e))"
  unfolding process_get_pin_token_def
  by (auto intro!: costs_missing costs_retries costs_secret costs_now unproven_costs)

lemma get_token_refused:
  "\<not> proves_pin P params c e \<Longrightarrow> process_get_pin_token P params now (c, e) \<noteq> (Good x, s')"
  by (auto dest: get_token_accepts)

lemma command_costs:
  assumes "failing e = []" "pin_is_set e" "\<not> proves_pin P params c e"
  shows "costs e (process_command P params now (c, e))"
proof -
  have p: "\<not> proves_pin P (params\<lparr>cp_permissions := None, cp_permissions_rp_id := None\<rparr>) c e"
    using assms(3) by simp
  obtain h where "pin_hash e = (Good (Some h), e)" using set_pin_run [OF assms(1,2)] by auto
  then have set: "costs e (process_set_pin P params (c, e))"
    unfolding process_set_pin_def using assms(1)
    by (auto intro!: costs_missing costs_pin_hash costs_now)
  have set_fails: "process_set_pin P params (c, e) \<noteq> (Good x, s')" for x s'
    using set_pin_locked [of e P params c] set_pin_run [OF assms(1,2)] by (auto simp: refused_def)
  have change_fails: "process_change_pin P params (c, e) \<noteq> (Good x, s')" for x s'
    using assms(3) by (auto dest: change_pin_accepts)
  have perms: "costs e (process_token_with_permissions P params now (c, e))"
    unfolding process_token_with_permissions_def
    by (rule costs_missing) (use assms p get_token_costs get_token_refused in \<open>auto simp: Let_def intro!: costs_now costs_attempt\<close>)
  have perms_fail: "process_token_with_permissions P params now (c, e) \<noteq> (Good x, s')" for x s'
    using get_token_refused [OF p] by (auto simp: process_token_with_permissions_def Let_def refuse_def elim!: attempt_result dest!: given_param split: if_splits)
  have show_retries: "costs e (attempt process_get_pin_retries (\<lambda>r. give (Some r)) (c, e))"
    using pin_retries_run [OF assms(1)] assms(1)
    by (auto simp: process_get_pin_retries_def attempt_def on_env_def get_pin_def give_def costs_def)
  show ?thesis
    using assms(1) show_retries
      costs_attempt [where f = "process_set_pin P params", OF set set_fails]
      costs_attempt [where f = "process_token_with_permissions P params now", OF perms perms_fail]
      costs_attempt [where f = "process_change_pin P params", OF change_pin_costs [OF assms] change_fails]
      costs_attempt [where f = "process_get_pin_token P params now", OF get_token_costs [OF assms] get_token_refused [OF assms(3)]]
    by (auto simp: process_command_def inspect_run process_get_key_agreement_def get_pin_run steps
        intro!: costs_now costs_same split: client_pin_sub_command.split)
qed

text \<open>The replies that say that the PIN was invalid.\<close>

definition invalid_replies :: "client_pin_response option outcome option list \<Rightarrow> nat" where
  "invalid_replies rs = count_list rs (Some (Bad CTAP2_ERR_PIN_INVALID))"

lemma step_costs:
  assumes "failing e = []" "pin_is_set e" "guesses_wrong P ev (d, e)" "pin_step P ev (d, e) = (r, (d', e'))"
  shows "failing e' = [] \<and> held e' PIN_PROPERTIES = held e PIN_PROPERTIES \<and>
    invalid_replies [r] + unat (retries_left e') \<le> unat (retries_left e)"
proof (cases ev)
  case PowerCycle
  have "alike e e" using assms(1,2) by (simp add: alike_def)
  with power_on_blind [of P] have "failing (snd (power_on P e)) = []" by (auto simp: blind_env_def alike_def)
  moreover have "pin_kept e (snd (power_on P e))" by (rule power_on_kept) (rule prod.collapse [symmetric])
  ultimately show ?thesis using assms(4) PowerCycle
    by (auto simp: pin_kept_def invalid_replies_def retries_left_def byte_at_def split: prod.splits outcome.splits option.split)
next
  case (Tick t)
  with assms show ?thesis by (cases d) (auto simp: invalid_replies_def)
next
  case (Command params t)
  show ?thesis
  proof (cases d)
    case (Some c)
    have "costs e (process_command P params t (c, e))"
      by (rule command_costs) (use assms Command Some in \<open>auto simp: guesses_wrong_def\<close>)
    with Command Some assms(4) show ?thesis
      by (auto simp: costs_def invalid_replies_def word_less_nat_alt word_le_nat_alt split: prod.splits outcome.splits)
  qed (use assms Command in \<open>auto simp: invalid_replies_def\<close>)
qed

text \<open>C4: The number of times a device says that a PIN was invalid, while the right one is not given, is at most the
  number of retries it loses: however the guesses are spread over sub-commands, PIN protocols and power cycles, a
  fault-free device judges no more of them than it has retries left.\<close>

theorem guesses_are_bounded:
  assumes "failing e = []" and "pin_is_set e" and "unproven P events (d, e)"
    and "serve_all (pin_step P) events (d, e) = (replies, (d', e'))"
  shows "invalid_replies replies + unat (retries_left e') \<le> unat (retries_left e) \<and> hash_of_pin e' = hash_of_pin e"
  using assms
proof (induction events arbitrary: d e replies)
  case Nil
  then show ?case by (simp add: invalid_replies_def)
next
  case (Cons ev events)
  obtain r d1 e1 where s: "pin_step P ev (d, e) = (r, (d1, e1))" by (metis prod_cases3)
  obtain rs where rs: "serve_all (pin_step P) events (d1, e1) = (rs, (d', e'))" "replies = r # rs"
    using Cons.prems(4) by (auto simp: s split: prod.splits)
  have step: "failing e1 = []" "held e1 PIN_PROPERTIES = held e PIN_PROPERTIES"
    "invalid_replies [r] + unat (retries_left e1) \<le> unat (retries_left e)"
    using step_costs [OF Cons.prems(1,2) _ s] Cons.prems(3) by auto
  have "invalid_replies rs + unat (retries_left e') \<le> unat (retries_left e1) \<and> hash_of_pin e' = hash_of_pin e1"
    by (rule Cons.IH [OF step(1) _ _ rs(1)]) (use Cons.prems(2,3) step(2) s in \<open>simp_all add: pin_is_set_def\<close>)
  with step rs(2) show ?case by (simp add: invalid_replies_def hash_of_pin_def split: if_splits)
qed

end
