(* ===== verification/Ctap_Pin_Runs.thy ===== *)
theory Ctap_Pin_Runs
  imports Ctap_Pin_Guesses
begin

text \<open>
  Concrete runs of the PIN commands: each property of \<open>Ctap_Pin_Safety\<close> and \<open>Ctap_Pin_Guesses\<close> at work on a device
  whose cryptography does nothing, and what a failed write does to the retries.
\<close>

section \<open>Concrete devices\<close>

text \<open>For concrete runs: a hash and a cipher that do nothing, and devices whose PIN has the hash of sixteen sevens.\<close>

definition plain :: primitives where
  "plain = \<lparr>sha256 = (\<lambda>_. replicate 32 0), encrypt_block = (\<lambda>k b. b), decrypt_block = (\<lambda>k b. b),
     gensk = (\<lambda>n. [word_of_nat n]), genpk = (\<lambda>k. (k, k)), from_coordinates = (\<lambda>x y. Some x),
     exchange_x = (\<lambda>k p. p)\<rparr>"

definition pin_env :: "u8 \<Rightarrow> ctap_env" where
  "pin_env h = put PIN_PROPERTIES (4 # replicate 16 h) empty_env"

definition fresh_pin :: "u8 \<Rightarrow> client_pin" where
  "fresh_pin m = \<lparr>pin_protocol_v1 = \<lparr>key_agreement_key = [1], pin_uv_auth_token = replicate 32 0\<rparr>,
     pin_protocol_v2 = \<lparr>key_agreement_key = [2], pin_uv_auth_token = replicate 32 0\<rparr>,
     consecutive_pin_mismatches = m, token_state = token_new\<rparr>"

definition token_request :: "u8 \<Rightarrow> client_pin_params" where
  "token_request h = \<lparr>cp_protocol = V1, cp_sub_command = GetPinToken, cp_key_agreement = Some (cose_of_pubkey ([3], [4])),
     cp_pin_uv_auth_param = None, cp_new_pin_enc = None, cp_pin_hash_enc = Some (replicate 16 h), cp_permissions = None,
     cp_permissions_rp_id = None\<rparr>"

lemma pin_env_fields [simp]: "failing (pin_env h) = []" "custom (pin_env h) = DEFAULT_CUSTOMIZATION"
    "held (pin_env h) = [PIN_PROPERTIES \<mapsto> 4 # replicate 16 h]"
  by (simp_all add: pin_env_def) (simp_all add: empty_env_def held_def dict_of_def)

lemma token_request_fields [simp]: "cp_protocol (token_request h) = V1" "cp_sub_command (token_request h) = GetPinToken"
    "cp_key_agreement (token_request h) = Some (cose_of_pubkey ([3], [4]))" "cp_pin_hash_enc (token_request h) = Some (replicate 16 h)"
    "cp_permissions (token_request h) = None" "cp_permissions_rp_id (token_request h) = None"
  by (simp_all add: token_request_def)

lemma fresh_pin_fields [simp]: "consecutive_pin_mismatches (fresh_pin m) = m"
  by (simp add: fresh_pin_def)

lemma v1_allowed [simp]: "allows_pin_protocol_v1 DEFAULT_CUSTOMIZATION" "max_pin_retries DEFAULT_CUSTOMIZATION = 8"
  by (simp_all add: DEFAULT_CUSTOMIZATION_def)

lemma retries_fresh [simp]: "retries_left (pin_env h) = 8" "hash_of_pin (pin_env h) = Some (replicate 16 h)" "pin_is_set (pin_env h)"
  by (simp_all add: retries_left_def byte_at_def hash_of_pin_def pin_is_set_def key_numbers)

lemma plain_secret: "get_shared_secret plain V1 (cose_of_pubkey ([3], [4])) (c, e) = (Good (SharedSecretV1 (replicate 32 0)), c, e)"
  by (simp add: get_shared_secret_def attempt_def get_pin_def decapsulate_def ecdh_of_cose_def cose_of_pubkey_def plain_def
      bind_parsed_def shared_secret_new_def checked_def give_def ECDH_ALGORITHM_def ES256_ALGORITHM_def EC2_KEY_TYPE_def P_256_CURVE_def)

lemma plain_decrypts: "aes256_cbc_decrypt plain k (replicate 16 h) False s = (Good (replicate 16 h), s)"
  by (simp add: aes256_cbc_decrypt_def or_crash_def give_def cbc_decrypt_def plain_def numeral_eq_Suc xor_block_16_def)

lemma token_request_run: "failing e = [] \<Longrightarrow> custom e = DEFAULT_CUSTOMIZATION \<Longrightarrow>
   process_command plain (token_request h) t (c, e) = attempt (process_get_pin_token plain (token_request h) t) (\<lambda>r. give (Some r)) (c, e)"
  by (simp add: process_command_def inspect_run)

text \<open>A device without retries refuses even the right PIN.\<close>

theorem blocked_pin_stays_blocked_witness:
  "let e = put PIN_RETRIES [0] (pin_env 7); (replies, (d, e')) = serve_all (pin_step plain) [Command (token_request 7) 0, Tick 5] (Some (fresh_pin 0), e)
   in replies = [Some (Bad CTAP2_ERR_PIN_BLOCKED), None] \<and> list_all no_gain replies \<and> pin_kept e e'"
proof -
  let ?e = "put PIN_RETRIES [0] (pin_env 7)"
  have "pin_retries ?e = (Good 0, ?e)"
    by (simp add: pin_retries_def byte_value_run)
  then have r: "serve_all (pin_step plain) [Command (token_request 7) 0, Tick 5] (Some (fresh_pin 0), ?e)
    = ([Some (Bad CTAP2_ERR_PIN_BLOCKED), None], (Some (update_timeouts 5 (fresh_pin 0)), ?e))"
    by (simp add: token_request_run process_get_pin_token_def attempt_def ok_or_missing_def ok_or_def give_def refuse_def on_env_def)
  have "hash_of_pin ?e \<noteq> None" by (simp add: hash_of_pin_def key_numbers)
  from blocked_pin_stays_blocked [OF this _ r] show ?thesis
    using r by (simp add: list_all_iff)
qed

text \<open>A device with three wrong PINs in a row refuses the right one.\<close>

theorem third_mismatch_blocks_until_power_cycle_witness:
  "let (replies, (d, e')) = serve_all (pin_step plain) [Command (token_request 7) 0] (Some (fresh_pin 3), pin_env 7)
   in replies = [Some (Bad CTAP2_ERR_PIN_AUTH_BLOCKED)] \<and> list_all no_gain replies \<and> pin_kept (pin_env 7) e'"
proof -
  have "pin_retries (pin_env 7) = (Good 8, pin_env 7)"
    by (simp add: pin_retries_def byte_value_run key_numbers)
  moreover obtain h where "pin_hash (pin_env 7) = (Good (Some h), pin_env 7)" using set_pin_run [of "pin_env 7"] by auto
  ultimately have r: "serve_all (pin_step plain) [Command (token_request 7) 0] (Some (fresh_pin 3), pin_env 7)
    = ([Some (Bad CTAP2_ERR_PIN_AUTH_BLOCKED)], (Some (fresh_pin 3), pin_env 7))"
    by (simp add: token_request_run process_get_pin_token_def attempt_def ok_or_missing_def ok_or_def give_def refuse_def on_env_def
      plain_secret [unfolded on_env_def] verify_pin_hash_enc_def get_pin_def)
  from third_mismatch_blocks_until_power_cycle [OF _ _ _ r] show ?thesis
    using r by (simp add: list_all_iff)
qed

lemma pin_env_runs: "pin_retries (pin_env h) = (Good 8, pin_env h)" "pin_hash (pin_env h) = (Good (Some (replicate 16 h)), pin_env h)"
    "decr_pin_retries (pin_env h) = (Good (), put PIN_RETRIES [7] (pin_env h))"
proof -
  show r: "pin_retries (pin_env h) = (Good 8, pin_env h)"
    by (simp add: pin_retries_def byte_value_run key_numbers)
  show "pin_hash (pin_env h) = (Good (Some (replicate 16 h)), pin_env h)"
    using set_pin_run [of "pin_env h"] by auto
  show "decr_pin_retries (pin_env h) = (Good (), put PIN_RETRIES [7] (pin_env h))"
    by (simp add: decr_pin_retries_def r steps saturating_pred_def)
qed

lemma reset_token_run: "reset_token v (c, e) =
    (Good (), set_pin_protocol v ((get_pin_protocol v c)\<lparr>pin_uv_auth_token := entropy e (drawn e)\<rparr>) c, e\<lparr>drawn := Suc (drawn e)\<rparr>)"
  by (simp add: reset_token_def get_pin_run attempt_def on_env_def reset_pin_uv_auth_token_def gen_uniform_u8x32_def give_def update_pin_def get_pin_def)

lemma drawn_fresh: "drawn (pin_env h) = 0" "entropy (pin_env h) n = replicate 32 (word_of_nat n)"
  by (simp_all add: pin_env_def) (simp_all add: empty_env_def)

lemma attempt_env: "f e = (Good x, e') \<Longrightarrow> attempt (on_env f) g (c, e) = g x (c, e')"
  by (simp add: attempt_def on_env_def)

lemma attempt_pin: "f (c, e) = (Good x, c', e') \<Longrightarrow> attempt f g (c, e) = g x (c', e')"
  by (simp add: attempt_def)

lemma plain_secret_run: "attempt (get_shared_secret plain V1 (cose_of_pubkey ([3], [4]))) g (c, e) = g (SharedSecretV1 (replicate 32 0)) (c, e)"
  by (simp add: attempt_def plain_secret)

text \<open>The right PIN obtains a token.\<close>

theorem gain_needs_pin_witness:
  "let x = fst (process_command plain (token_request 7) 0 (fresh_pin 0, pin_env 7))
   in gained x \<and> proves_pin plain (token_request 7) (fresh_pin 0) (pin_env 7)"
proof -
  let ?e = "without PIN_RETRIES (put PIN_RETRIES [7] (pin_env 7))"
  have v: "verify_pin_hash_enc plain V1 (SharedSecretV1 (replicate 32 0)) (replicate 16 7) (fresh_pin 0, pin_env 7) = (Good (), fresh_pin 0, ?e)"
    by (simp add: verify_pin_hash_enc_def attempt_def on_env_def pin_env_runs get_pin_def map_err_def plain_decrypts compare_hashes_def
      reset_pin_retries_def steps update_pin_def)
  have f: "has_force_pin_change ?e = (Good False, ?e)"
    by (simp add: has_force_pin_change_def flag_def attempt_def steps key_numbers)
  have enc: "secret_encrypt plain (SharedSecretV1 (replicate 32 0)) (replicate 32 0) e' = (Good (replicate 32 0), e')" for e'
  proof -
    have "chunks 16 (replicate 32 (0::u8)) = [replicate 16 0, replicate 16 0]" by code_simp
    moreover have "replicate 16 (0::u8) @ replicate 16 0 = replicate 32 0" by (simp flip: replicate_add)
    moreover have "xor_block_16 (replicate 16 0) (replicate 16 0) = replicate 16 0" by (simp add: xor_block_16_def zip_replicate)
    ultimately show ?thesis
      by (simp add: aes256_cbc_encrypt_def or_crash_def give_def cbc_encrypt_def plain_def)
  qed
  define e1 where "e1 = ?e\<lparr>drawn := Suc (Suc 0)\<rparr>"
  define c1 where "c1 = (fresh_pin 0)\<lparr>pin_protocol_v1 := \<lparr>key_agreement_key = [1], pin_uv_auth_token = replicate 32 0\<rparr>,
    pin_protocol_v2 := \<lparr>key_agreement_key = [2], pin_uv_auth_token = replicate 32 1\<rparr>\<rparr>"
  have tokens: "attempt (reset_token V1) (\<lambda>_. attempt (reset_token V2) g) (fresh_pin 0, ?e) = g () (c1, e1)" for g :: "unit \<Rightarrow> client_pin_response pin_op"
    by (simp add: attempt_def reset_token_run drawn_fresh get_pin_protocol_def set_pin_protocol_def c1_def e1_def fresh_pin_def)
  have g: "begin_using 0 (token_state c1) = Some (token_new\<lparr>user_verified := True, usage_timer := Granted 30000000000, in_use := True\<rparr>)"
    by (simp add: begin_using_def granted_def INITIAL_USAGE_TIME_LIMIT_def instant_max_def c1_def fresh_pin_def)
  have "pin_uv_auth_token (get_pin_protocol V1 (c1\<lparr>token_state := t\<rparr>)) = replicate 32 0" for t
    by (simp add: get_pin_protocol_def c1_def)
  with enc g obtain r s' where rest: "attempt (get_pin token_state) (\<lambda>t.
     attempt (or_crash (begin_using 0 t)) (\<lambda>t'.
     attempt (update_pin (\<lambda>c. c\<lparr>token_state := set_default_permissions t'\<rparr>)) (\<lambda>_.
     attempt (get_pin (get_pin_protocol V1)) (\<lambda>p.
     attempt (on_env (secret_encrypt plain (SharedSecretV1 (replicate 32 0)) (pin_uv_auth_token p))) (\<lambda>token.
     give \<lparr>r_key_agreement = None, r_pin_uv_auth_token = Some token, r_retries = None, r_power_cycle_state = None\<rparr>))))) (c1, e1)
    = (Good r, s')" "r_pin_uv_auth_token r \<noteq> None"
    by (simp add: attempt_def get_pin_def or_crash_def give_def update_pin_def on_env_def del: secret_encrypt.simps)
  have "process_get_pin_token plain (token_request 7) 0 (fresh_pin 0, pin_env 7) = (Good r, s')"
    using v by (simp add: process_get_pin_token_def attempt_env [where f = has_force_pin_change, OF f] attempt_env [where f = pin_retries, OF pin_env_runs(1)] plain_secret_run attempt_pin [where f = "verify_pin_hash_enc plain V1 (SharedSecretV1 (replicate 32 0)) (replicate 16 7)", OF v] tokens rest steps del: secret_encrypt.simps)
  then have r: "process_command plain (token_request 7) 0 (fresh_pin 0, pin_env 7) = (Good (Some r), s')"
    by (simp add: token_request_run attempt_def give_def)
  from gain_needs_pin [OF _ r] rest(2) r show ?thesis by simp
qed

text \<open>A wrong guess and a power cycle, on devices with different PINs.\<close>

theorem wrong_guesses_look_alike_witness:
  "fst (serve_all (pin_step plain) [Command (token_request 1) 0, PowerCycle] (Some (fresh_pin 0), pin_env 7))
   = fst (serve_all (pin_step plain) [Command (token_request 1) 0, PowerCycle] (Some (fresh_pin 0), pin_env 9))"
proof (rule wrong_guesses_look_alike)
  have d: "decrypted plain (SharedSecretV1 (replicate 32 0)) (replicate 16 1) = Some (replicate 16 1)"
    by (simp add: decrypted_def plain_decrypts)
  have "decapsulate plain (get_pin_protocol V1 (fresh_pin 0)) (cose_of_pubkey ([3], [4])) V1 = Inr (SharedSecretV1 (replicate 32 0))"
    using secret_accepts [OF plain_secret [of "fresh_pin 0" "pin_env 7"]] by simp
  then show "unproven plain [Command (token_request 1) 0, PowerCycle] (Some (fresh_pin 0), pin_env 7)"
    "unproven plain [Command (token_request 1) 0, PowerCycle] (Some (fresh_pin 0), pin_env 9)"
    using d by (simp_all add: guesses_wrong_def proves_pin_def)
  show "alike (pin_env 7) (pin_env 9)"
    by (simp add: alike_def) (simp add: pin_env_def)
qed

text \<open>One wrong guess costs one retry.\<close>

theorem guesses_are_bounded_witness:
  "let (replies, (d, e')) = serve_all (pin_step plain) [Command (token_request 1) 0] (Some (fresh_pin 0), pin_env 7)
   in replies = [Some (Bad CTAP2_ERR_PIN_INVALID)] \<and> invalid_replies replies + unat (retries_left e') \<le> 8"
proof -
  have d: "decrypted plain (SharedSecretV1 (replicate 32 0)) (replicate 16 1) = Some (replicate 16 1)"
    by (simp add: decrypted_def plain_decrypts)
  have "decapsulate plain (get_pin_protocol V1 (fresh_pin 0)) (cose_of_pubkey ([3], [4])) V1 = Inr (SharedSecretV1 (replicate 32 0))"
    using secret_accepts [OF plain_secret [of "fresh_pin 0" "pin_env 7"]] by simp
  then have u: "unproven plain [Command (token_request 1) 0] (Some (fresh_pin 0), pin_env 7)"
    using d by (simp add: guesses_wrong_def proves_pin_def)
  let ?e = "put PIN_RETRIES [7] (pin_env 7)"
  have m: "\<exists>c' e'. mismatch plain V1 (fresh_pin 0, ?e) = (Bad CTAP2_ERR_PIN_INVALID, c', e')"
    by (simp add: mismatch_def attempt_def on_env_def regenerate_protocol_def regenerate_def fresh_key_def give_def get_pin_def
        update_pin_def set_pin_protocol_def get_pin_protocol_def pin_retries_def byte_value_run refuse_def word_le_nat_alt)
  then obtain c e' where v: "verify_pin_hash_enc plain V1 (SharedSecretV1 (replicate 32 0)) (replicate 16 1) (fresh_pin 0, pin_env 7)
      = (Bad CTAP2_ERR_PIN_INVALID, c, e')"
    by (auto simp: verify_pin_hash_enc_def attempt_def on_env_def pin_env_runs get_pin_def map_err_def plain_decrypts compare_hashes_def mismatch_def)
  have e': "process_command plain (token_request 1) 0 (fresh_pin 0, pin_env 7) = (Bad CTAP2_ERR_PIN_INVALID, c, e')"
    using v by (simp add: token_request_run process_get_pin_token_def attempt_def ok_or_missing_def ok_or_def give_def on_env_def pin_env_runs
      plain_secret [unfolded on_env_def])
  then have "serve_all (pin_step plain) [Command (token_request 1) 0] (Some (fresh_pin 0), pin_env 7) = ([Some (Bad CTAP2_ERR_PIN_INVALID)], (Some c, e'))"
    by simp
  from guesses_are_bounded [OF _ _ u this] show ?thesis using e' by simp
qed
section \<open>A failed write\<close>



end
