(* ===== verification/Ctap_Hid.thy ===== *)
theory Ctap_Hid
  imports Ctap_Pin
begin

text \<open>
  How the security key talks over USB (\<open>src/ctap/hid\<close>, \<open>main_hid.rs\<close>): packets of 64 bytes, the assembler that
  collects them to messages, channels and the commands that concern only them, the splitter that turns a reply into
  packets, and the dispatch to CTAP1 and CTAP2.  A packet is a list of 64 bytes, a channel one of four; instants
  are in nanoseconds, \<open>None\<close> is a panic.
\<close>

section \<open>Commands and errors\<close>

type_synonym hid_packet = bytes
type_synonym channel_id = bytes

datatype ctap_hid_command = Ping | Msg | Lock | Init | Wink | Cbor | Cancel | Keepalive | Error
  | RestoreTotpCodes | BackupTotpCodes | ResetSession

fun command_code :: "ctap_hid_command \<Rightarrow> u8" where
  "command_code Ping = 0x01"
| "command_code Msg = 0x03"
| "command_code Lock = 0x04"
| "command_code Init = 0x06"
| "command_code Wink = 0x08"
| "command_code Cbor = 0x10"
| "command_code Cancel = 0x11"
| "command_code Keepalive = 0x3B"
| "command_code Error = 0x3F"
| "command_code RestoreTotpCodes = 0x71"
| "command_code BackupTotpCodes = 0x72"
| "command_code ResetSession = 0x74"

definition command_of_code :: "u8 \<Rightarrow> ctap_hid_command" where
  "command_of_code cmd =
     (if cmd = command_code Ping then Ping
      else if cmd = command_code Msg then Msg
      else if cmd = command_code Lock then Lock
      else if cmd = command_code Init then Init
      else if cmd = command_code Wink then Wink
      else if cmd = command_code Cbor then Cbor
      else if cmd = command_code Cancel then Cancel
      else if cmd = command_code Keepalive then Keepalive
      else if cmd = command_code RestoreTotpCodes then RestoreTotpCodes
      else if cmd = command_code BackupTotpCodes then BackupTotpCodes
      else if cmd = command_code ResetSession then ResetSession
      else Error)"

datatype ctap_hid_error = InvalidCmd | InvalidPar | InvalidLen | InvalidSeq | MsgTimeout | ChannelBusy | LockRequired
  | InvalidChannel | OtherHid | UnexpectedContinuation

fun error_code :: "ctap_hid_error \<Rightarrow> u8" where
  "error_code InvalidCmd = 0x01"
| "error_code InvalidPar = 0x02"
| "error_code InvalidLen = 0x03"
| "error_code InvalidSeq = 0x04"
| "error_code MsgTimeout = 0x05"
| "error_code ChannelBusy = 0x06"
| "error_code LockRequired = 0x0A"
| "error_code InvalidChannel = 0x0B"
| "error_code OtherHid = 0x7F"
| "error_code UnexpectedContinuation = 0x80"

record message =
  m_cid :: channel_id
  m_cmd :: ctap_hid_command
  m_payload :: bytes

definition error_message :: "channel_id \<Rightarrow> ctap_hid_error \<Rightarrow> message" where
  "error_message cid x = \<lparr>m_cid = cid, m_cmd = Error, m_payload = [error_code x]\<rparr>"

section \<open>Packets\<close>

datatype processed_packet = InitPacket u8 nat bytes | ContinuationPacket u8 bytes

definition process_single_packet :: "hid_packet \<Rightarrow> channel_id \<times> processed_packet" where
  "process_single_packet packet =
     (let cid = take 4 packet; rest = drop 4 packet in
      if rest ! 0 AND 0x80 \<noteq> 0
      then (cid, InitPacket (rest ! 0 AND NOT 0x80) (unat (rest ! 1) * 256 + unat (rest ! 2)) (take 57 (drop 3 rest)))
      else (cid, ContinuationPacket (rest ! 0) (take 59 (drop 1 rest))))"

section \<open>The assembler\<close>

record assembler =
  idle :: bool
  a_cid :: channel_id
  last_timestamp :: nat
  a_cmd :: u8
  a_seq :: u8
  remaining_payload_len :: nat
  a_payload :: bytes

definition assembler_new :: "nat \<Rightarrow> assembler" where
  "assembler_new now = \<lparr>idle = True, a_cid = [0, 0, 0, 0], last_timestamp = now, a_cmd = 0, a_seq = 0,
     remaining_payload_len = 0, a_payload = []\<rparr>"

text \<open>\<open>reset\<close> looks at the clock, like \<open>new\<close>.\<close>

definition assembler_reset :: "nat \<Rightarrow> assembler \<Rightarrow> assembler" where
  "assembler_reset now a = a\<lparr>idle := True, a_cid := [0, 0, 0, 0], last_timestamp := now, a_cmd := 0, a_seq := 0,
     remaining_payload_len := 0, a_payload := []\<rparr>"

definition append_payload :: "bytes \<Rightarrow> assembler \<Rightarrow> message option \<times> assembler" where
  "append_payload data a =
     (if length data < remaining_payload_len a
      then (None, a\<lparr>a_payload := a_payload a @ data, idle := False,
              remaining_payload_len := remaining_payload_len a - length data\<rparr>)
      else (Some \<lparr>m_cid = a_cid a, m_cmd = command_of_code (a_cmd a),
                  m_payload = a_payload a @ take (remaining_payload_len a) data\<rparr>,
            a\<lparr>idle := True, a_payload := []\<rparr>))"

type_synonym assembled = "(channel_id \<times> ctap_hid_error) + message option"

definition parse_init_packet ::
    "nat \<Rightarrow> channel_id \<Rightarrow> u8 \<Rightarrow> nat \<Rightarrow> bytes \<Rightarrow> nat \<Rightarrow> assembler \<Rightarrow> assembled \<times> assembler" where
  "parse_init_packet max_size cid cmd len data timestamp a =
     (if len > max_size then (Inl (cid, InvalidLen), a)
      else case append_payload data (a\<lparr>a_cid := cid, last_timestamp := timestamp, a_cmd := cmd, a_seq := 0,
                 remaining_payload_len := len\<rparr>) of (m, a') \<Rightarrow> (Inr m, a'))"

definition TIMEOUT_DURATION :: nat where
  "TIMEOUT_DURATION = 100 * 10 ^ 6"

text \<open>\<open>clock\<close> is what the clock shows when the assembler resets itself.\<close>

definition assemble_fresh :: "nat \<Rightarrow> channel_id \<Rightarrow> processed_packet \<Rightarrow> nat \<Rightarrow> assembler \<Rightarrow> assembled \<times> assembler" where
  "assemble_fresh max_size cid p timestamp a = (case p of
     InitPacket cmd len data \<Rightarrow> parse_init_packet max_size cid cmd len data timestamp a
   | ContinuationPacket _ _ \<Rightarrow> (Inl (cid, UnexpectedContinuation), a))"

definition assemble_packet :: "nat \<Rightarrow> nat \<Rightarrow> hid_packet \<Rightarrow> nat \<Rightarrow> assembler \<Rightarrow> (assembled \<times> assembler) option" where
  "assemble_packet max_size clock packet timestamp a =
     (case process_single_packet packet of (cid, p) \<Rightarrow>
        if idle a then Some (assemble_fresh max_size cid p timestamp a)
        else if last_timestamp a + TIMEOUT_DURATION > instant_max then None
        else if timestamp \<ge> last_timestamp a + TIMEOUT_DURATION then
          (let a' = assembler_reset clock a in
           if cid = a_cid a \<and> (case p of ContinuationPacket _ _ \<Rightarrow> True | _ \<Rightarrow> False) then Some (Inl (cid, MsgTimeout), a')
           else Some (assemble_fresh max_size cid p timestamp a'))
        else if cid \<noteq> a_cid a then Some (Inl (cid, ChannelBusy), a)
        else case p of
            InitPacket cmd len data \<Rightarrow>
              (let a' = assembler_reset clock a in
               if cmd = command_code Init then Some (parse_init_packet max_size cid cmd len data timestamp a')
               else Some (Inl (cid, InvalidSeq), a'))
          | ContinuationPacket seq data \<Rightarrow>
              if seq \<noteq> a_seq a then Some (Inl (cid, InvalidSeq), assembler_reset clock a)
              else (case append_payload data (a\<lparr>last_timestamp := timestamp, a_seq := a_seq a + 1\<rparr>) of
                      (m, a') \<Rightarrow> Some (Inr m, a')))"

section \<open>Channels\<close>

record ctap_hid =
  assembler :: assembler
  allocated_cids :: u32
  capabilities :: u8

definition ctap_hid_new :: "nat \<Rightarrow> u8 \<Rightarrow> ctap_hid" where
  "ctap_hid_new now cap = \<lparr>assembler = assembler_new now, allocated_cids = 0, capabilities = cap\<rparr>"

definition CHANNEL_RESERVED :: channel_id where "CHANNEL_RESERVED = [0, 0, 0, 0]"
definition CHANNEL_BROADCAST :: channel_id where "CHANNEL_BROADCAST = [0xFF, 0xFF, 0xFF, 0xFF]"

definition cid_bytes :: "u32 \<Rightarrow> channel_id" where
  "cid_bytes n = rev (le_bytes32 n)"

definition cid_number :: "channel_id \<Rightarrow> u32" where
  "cid_number cid = u32_from_le (cid ! 3) (cid ! 2) (cid ! 1) (cid ! 0)"

definition is_allocated_channel :: "channel_id \<Rightarrow> ctap_hid \<Rightarrow> bool" where
  "is_allocated_channel cid h \<longleftrightarrow> cid \<noteq> CHANNEL_RESERVED \<and> cid_number cid \<le> allocated_cids h"

definition has_valid_channel :: "message \<Rightarrow> ctap_hid \<Rightarrow> bool" where
  "has_valid_channel m h \<longleftrightarrow>
     (if m_cid m = CHANNEL_BROADCAST then m_cmd m = Init else is_allocated_channel (m_cid m) h)"

definition init_response :: "message \<Rightarrow> ctap_hid \<Rightarrow> message \<times> ctap_hid" where
  "init_response m h =
     (if length (m_payload m) \<noteq> 8 then (error_message (m_cid m) InvalidLen, h)
      else let h' = (if m_cid m = CHANNEL_BROADCAST then h\<lparr>allocated_cids := allocated_cids h + 1\<rparr> else h);
               new_cid = (if m_cid m = CHANNEL_BROADCAST then cid_bytes (allocated_cids h') else m_cid m)
           in (\<lparr>m_cid = m_cid m, m_cmd = Init, m_payload = m_payload m @ new_cid @ [2, 1, 0, 0, capabilities h']\<rparr>, h'))"

definition preprocess_message :: "message \<Rightarrow> ctap_hid \<Rightarrow> message option \<times> ctap_hid" where
  "preprocess_message m h =
     (if \<not> has_valid_channel m h then (Some (error_message (m_cid m) InvalidChannel), h)
      else case m_cmd m of
          Init \<Rightarrow> (case init_response m h of (r, h') \<Rightarrow> (Some r, h'))
        | Cancel \<Rightarrow> (None, h)
        | Lock \<Rightarrow> (Some (error_message (m_cid m) InvalidCmd), h)
        | Keepalive \<Rightarrow> (Some (error_message (m_cid m) InvalidCmd), h)
        | Error \<Rightarrow> (Some (error_message (m_cid m) InvalidCmd), h)
        | _ \<Rightarrow> (Some m, h))"

definition hid_parse_packet :: "nat \<Rightarrow> nat \<Rightarrow> hid_packet \<Rightarrow> nat \<Rightarrow> ctap_hid \<Rightarrow> (message option \<times> ctap_hid) option" where
  "hid_parse_packet max_size clock packet timestamp h =
     (case assemble_packet max_size clock packet timestamp (assembler h) of
        None \<Rightarrow> None
      | Some (r, a) \<Rightarrow> (let h' = h\<lparr>assembler := a\<rparr> in Some (case r of
            Inr (Some m) \<Rightarrow> preprocess_message m h'
          | Inr None \<Rightarrow> (None, h')
          | Inl (cid, x) \<Rightarrow>
              if x = UnexpectedContinuation then (None, h')
              else if \<not> is_allocated_channel cid h' then (Some (error_message cid InvalidChannel), h')
              else (Some (error_message cid x), h'))))"

section \<open>The splitter\<close>

record splitter =
  sp_message :: message
  sp_packet :: hid_packet
  sp_seq :: "u8 option"
  sp_i :: nat

text \<open>\<open>consume_data\<close> writes to the end of a packet, from a position on.\<close>

definition consume_data :: "nat \<Rightarrow> bytes \<Rightarrow> hid_packet \<Rightarrow> hid_packet \<times> nat" where
  "consume_data pos data packet =
     (let dst_len = length packet - pos in
      if length data \<le> dst_len then (take pos packet @ data @ replicate (dst_len - length data) 0, length data)
      else (take pos packet @ take dst_len data, dst_len))"

definition splitter_new :: "message \<Rightarrow> splitter option" where
  "splitter_new m = (if length (m_payload m) > 7609 then None
     else Some \<lparr>sp_message = m, sp_packet = m_cid m @ replicate 60 0, sp_seq = None, sp_i = 0\<rparr>)"

definition splitter_next :: "splitter \<Rightarrow> hid_packet option \<times> splitter" where
  "splitter_next s =
     (let payload = m_payload (sp_message s) in
      case sp_seq s of
        None \<Rightarrow>
          (let p = (sp_packet s)[4 := command_code (m_cmd (sp_message s)) OR 0x80,
                      5 := word_of_nat (length payload div 256), 6 := word_of_nat (length payload)];
               (p', n) = consume_data 7 payload p
           in (Some p', s\<lparr>sp_packet := p', sp_seq := Some 0, sp_i := n\<rparr>))
      | Some seq \<Rightarrow>
          if sp_i s < length payload then
            (let (p', n) = consume_data 5 (drop (sp_i s) payload) ((sp_packet s)[4 := seq])
             in (Some p', s\<lparr>sp_packet := p', sp_seq := Some (seq + 1), sp_i := sp_i s + n\<rparr>))
          else (None, s))"

text \<open>The packets a splitter gives, at most \<open>n\<close> of them.\<close>

fun drain :: "nat \<Rightarrow> splitter \<Rightarrow> hid_packet list" where
  "drain 0 s = []"
| "drain (Suc n) s = (case splitter_next s of (None, _) \<Rightarrow> [] | (Some p, s') \<Rightarrow> p # drain n s')"

text \<open>One packet with the head and at most 128 more.\<close>

definition MAX_PACKETS :: nat where
  "MAX_PACKETS = 129"

definition split_message :: "message \<Rightarrow> hid_packet list" where
  "split_message m = (case splitter_new m of
     Some s \<Rightarrow> drain MAX_PACKETS s
   | None \<Rightarrow> (case splitter_new \<lparr>m_cid = m_cid m, m_cmd = Cbor, m_payload = [0xF2]\<rparr> of
       Some s \<Rightarrow> drain MAX_PACKETS s | None \<Rightarrow> []))"

section \<open>Dispatch\<close>

text \<open>CTAP1 and CTAP2 commands are processed elsewhere: by \<open>ctap1\<close>, which gives a status or a response, and \<open>ctap2\<close>.\<close>

record main_hid =
  hid :: ctap_hid
  wink_permission :: timed_permission

definition main_hid_new :: "nat \<Rightarrow> main_hid" where
  "main_hid_new now = \<lparr>hid = ctap_hid_new now 0x05, wink_permission = Waiting\<rparr>"

definition WINK_TIMEOUT_DURATION :: nat where
  "WINK_TIMEOUT_DURATION = 5000 * 10 ^ 6"

definition be_bytes16 :: "16 word \<Rightarrow> bytes" where
  "be_bytes16 w = [ucast (drop_bit 8 w), ucast w]"

definition process_message ::
    "(bytes \<Rightarrow> nat \<Rightarrow> 's \<Rightarrow> (16 word + bytes) \<times> 's) \<Rightarrow> (bytes \<Rightarrow> channel_id \<Rightarrow> nat \<Rightarrow> 's \<Rightarrow> bytes \<times> 's)
     \<Rightarrow> message \<Rightarrow> nat \<Rightarrow> main_hid \<times> 's \<Rightarrow> (message \<times> main_hid \<times> 's) option" where
  "process_message ctap1 ctap2 m now = (\<lambda>(h, s).
     let h = h\<lparr>wink_permission := Waiting\<rparr> in
     case m_cmd m of
       Msg \<Rightarrow> (case ctap1 (m_payload m) now s of
           (Inr payload, s') \<Rightarrow> Some (\<lparr>m_cid = m_cid m, m_cmd = Msg, m_payload = payload @ be_bytes16 0x9000\<rparr>, h, s')
         | (Inl status, s') \<Rightarrow> Some (\<lparr>m_cid = m_cid m, m_cmd = Msg, m_payload = be_bytes16 status\<rparr>, h, s'))
     | Cbor \<Rightarrow> (case ctap2 (m_payload m) (m_cid m) now s of
           (response, s') \<Rightarrow> Some (\<lparr>m_cid = m_cid m, m_cmd = Cbor, m_payload = response\<rparr>, h, s'))
     | Wink \<Rightarrow>
         if m_payload m = [] then (case granted now WINK_TIMEOUT_DURATION of None \<Rightarrow> None
           | Some g \<Rightarrow> Some (m, h\<lparr>wink_permission := g\<rparr>, s))
         else Some (error_message (m_cid m) InvalidLen, h, s)
     | _ \<Rightarrow> Some (m, h, s))"

datatype hid_reply = Ctap "hid_packet list" | Vendor message

definition process_hid_packet ::
    "(bytes \<Rightarrow> nat \<Rightarrow> 's \<Rightarrow> (16 word + bytes) \<times> 's) \<Rightarrow> (bytes \<Rightarrow> channel_id \<Rightarrow> nat \<Rightarrow> 's \<Rightarrow> bytes \<times> 's)
     \<Rightarrow> nat \<Rightarrow> nat \<Rightarrow> hid_packet \<Rightarrow> nat \<Rightarrow> main_hid \<times> 's \<Rightarrow> (hid_reply \<times> main_hid \<times> 's) option" where
  "process_hid_packet ctap1 ctap2 max_size clock packet now = (\<lambda>(h, s).
     case hid_parse_packet max_size clock packet now (hid h) of
       None \<Rightarrow> None
     | Some (None, c) \<Rightarrow> Some (Ctap [], h\<lparr>hid := c\<rparr>, s)
     | Some (Some m, c) \<Rightarrow>
         (case process_message ctap1 ctap2 m now (h\<lparr>hid := c\<rparr>, s) of
            None \<Rightarrow> None
          | Some (r, h', s') \<Rightarrow>
              Some (if m_cmd r \<in> {RestoreTotpCodes, BackupTotpCodes, ResetSession} then Vendor r else Ctap (split_message r), h', s')))"

definition should_wink :: "nat \<Rightarrow> main_hid \<Rightarrow> bool" where
  "should_wink now h \<longleftrightarrow> is_granted (wink_permission h) now"

definition update_wink_timeout :: "nat \<Rightarrow> main_hid \<Rightarrow> main_hid" where
  "update_wink_timeout now h = h\<lparr>wink_permission := check_expiration (wink_permission h) now\<rparr>"

end
