(* ===== verification/Ctap_Hid_Properties.thy ===== *)
theory Ctap_Hid_Properties
  imports Ctap_Hid
begin

text \<open>
  What the USB side of the security key (\<open>src/ctap/hid\<close>) guarantees: a message that is split into packets is put
  together again, whatever other channels send meanwhile; memory is bounded; channels keep their clients apart.
\<close>

section \<open>What the splitter sends\<close>

lemma command_of_command_code [simp]: "command_of_code (command_code c) = c"
  by (cases c) (simp_all add: command_of_code_def)

lemma command_code_small: "(command_code c OR 0x80) AND 0x80 \<noteq> 0" "(command_code c OR 0x80) AND NOT 0x80 = command_code c"
  by (cases c; simp)+

definition padded :: "nat \<Rightarrow> bytes \<Rightarrow> bytes" where
  "padded n data = take n data @ replicate (n - length data) 0"

lemma length_padded [simp]: "length (padded n data) = n"
  by (simp add: padded_def)

lemma take_padded: "length data \<le> n \<Longrightarrow> take (length data) (padded n data) = data"
  by (simp add: padded_def)

lemma padded_full: "n \<le> length data \<Longrightarrow> padded n data = take n data"
  by (simp add: padded_def)

definition first_packet :: "message \<Rightarrow> hid_packet" where
  "first_packet m = m_cid m @ [command_code (m_cmd m) OR 0x80, word_of_nat (length (m_payload m) div 256),
     word_of_nat (length (m_payload m))] @ padded 57 (m_payload m)"

function more_packets :: "channel_id \<Rightarrow> nat \<Rightarrow> bytes \<Rightarrow> hid_packet list" where
  "more_packets cid k data =
     (if data = [] then [] else (cid @ [word_of_nat k] @ padded 59 data) # more_packets cid (Suc k) (drop 59 data))"
  by pat_completeness auto

termination
  by (relation "measure (\<lambda>(cid, k, data). length data)") auto

declare more_packets.simps [simp del]

lemma more_packets_simps [simp]:
  "more_packets cid k [] = []"
  "data \<noteq> [] \<Longrightarrow> more_packets cid k data = (cid @ [word_of_nat k] @ padded 59 data) # more_packets cid (Suc k) (drop 59 data)"
  by (simp_all add: more_packets.simps)

lemma consume_padded: "length packet = 64 \<Longrightarrow> pos \<le> 64 \<Longrightarrow>
    consume_data pos data packet = (take pos packet @ padded (64 - pos) data, min (64 - pos) (length data))"
  by (auto simp: consume_data_def padded_def Let_def)

lemma splitter_continues:
  assumes "length (m_cid m) = 4" and "length (m_payload m) - i \<le> 59 * n" and "i \<le> length (m_payload m)"
    and "length p = 64" and "take 4 p = m_cid m"
  shows "drain n \<lparr>sp_message = m, sp_packet = p, sp_seq = Some (word_of_nat k), sp_i = i\<rparr>
    = more_packets (m_cid m) k (drop i (m_payload m))"
  using assms
proof (induction n arbitrary: k i p)
  case 0
  then show ?case by (simp add: splitter_next_def)
next
  case (Suc n)
  show ?case
  proof (cases "i < length (m_payload m)")
    case True
    define p' where "p' = take 5 (p[4 := word_of_nat k]) @ padded 59 (drop i (m_payload m))"
    have p': "p' = m_cid m @ [word_of_nat k] @ padded 59 (drop i (m_payload m))"
      using Suc.prems by (simp add: p'_def take_Suc_conv_app_nth numeral_eq_Suc)
    have next_run: "splitter_next \<lparr>sp_message = m, sp_packet = p, sp_seq = Some (word_of_nat k), sp_i = i\<rparr> =
        (Some p', \<lparr>sp_message = m, sp_packet = p', sp_seq = Some (word_of_nat (Suc k)), sp_i = i + min 59 (length (m_payload m) - i)\<rparr>)"
      using True Suc.prems(4) by (simp add: splitter_next_def consume_padded p'_def Let_def)
    have rest: "drop (i + min 59 (length (m_payload m) - i)) (m_payload m) = drop 59 (drop i (m_payload m))"
      by (simp add: min_def add.commute)
    have "drain n \<lparr>sp_message = m, sp_packet = p', sp_seq = Some (word_of_nat (Suc k)), sp_i = i + min 59 (length (m_payload m) - i)\<rparr>
      = more_packets (m_cid m) (Suc k) (drop (i + min 59 (length (m_payload m) - i)) (m_payload m))"
      by (rule Suc.IH) (use Suc.prems True in \<open>auto simp: p' min_def\<close>)
    with True rest p' show ?thesis by (simp add: next_run del: drain.simps) (simp add: next_run)
  qed (use Suc.prems in \<open>simp add: splitter_next_def\<close>)
qed

lemma split_message_packets:
  assumes "length (m_cid m) = 4" and "length (m_payload m) \<le> 7609"
  shows "split_message m = first_packet m # more_packets (m_cid m) 0 (drop 57 (m_payload m))"
proof -
  let ?q = "(m_cid m @ replicate 60 0)[4 := command_code (m_cmd m) OR 0x80, 5 := word_of_nat (length (m_payload m) div 256),
    6 := word_of_nat (length (m_payload m))]"
  have q: "take 7 ?q = m_cid m @ [command_code (m_cmd m) OR 0x80, word_of_nat (length (m_payload m) div 256), word_of_nat (length (m_payload m))]"
  proof -
    obtain a b c d where "m_cid m = [a, b, c, d]"
      using assms(1) by (auto simp: length_Suc_conv numeral_eq_Suc)
    moreover have "replicate 60 (0::u8) = [0, 0, 0] @ replicate 57 0"
      using replicate_add [of 3 57 "0::u8"] by (simp add: numeral_3_eq_3)
    ultimately show ?thesis by (simp add: nth_Cons' take_Cons' list_update_append)
  qed
  let ?s = "\<lparr>sp_message = m, sp_packet = m_cid m @ replicate 60 0, sp_seq = None, sp_i = 0\<rparr>"
  have n: "splitter_next ?s = (Some (first_packet m), \<lparr>sp_message = m, sp_packet = first_packet m, sp_seq = Some (word_of_nat 0),
      sp_i = min 57 (length (m_payload m))\<rparr>)"
    using q assms(1) by (simp add: splitter_next_def consume_padded first_packet_def Let_def)
  have f: "length (first_packet m) = 64" "take 4 (first_packet m) = m_cid m"
    using assms(1) by (simp_all add: first_packet_def)
  have "drain 128 \<lparr>sp_message = m, sp_packet = first_packet m, sp_seq = Some (word_of_nat 0), sp_i = min 57 (length (m_payload m))\<rparr>
    = more_packets (m_cid m) 0 (drop (min 57 (length (m_payload m))) (m_payload m))"
    by (rule splitter_continues) (use assms f in auto)
  moreover have "drop (min 57 (length (m_payload m))) (m_payload m) = drop 57 (m_payload m)" by (simp add: min_def)
  ultimately have "drain (Suc 128) ?s = first_packet m # more_packets (m_cid m) 0 (drop 57 (m_payload m))"
    by (simp only: drain.simps n prod.case option.case)
  moreover have "MAX_PACKETS = Suc 128" by (simp add: MAX_PACKETS_def)
  ultimately show ?thesis using assms(2) by (simp add: split_message_def splitter_new_def del: drain.simps)
qed

section \<open>What the assembler makes of it\<close>

lemma parse_first:
  assumes "length (m_cid m) = 4" and "length (m_payload m) \<le> 7609"
  shows "process_single_packet (first_packet m)
    = (m_cid m, InitPacket (command_code (m_cmd m)) (length (m_payload m)) (padded 57 (m_payload m)))"
proof -
  have "length (m_payload m) div 256 < 256" using assms(2) by simp
  then have "unat (word_of_nat (length (m_payload m) div 256) :: u8) * 256 + unat (word_of_nat (length (m_payload m)) :: u8)
      = length (m_payload m)"
    by (simp add: unat_of_nat)
  then show ?thesis
    using assms(1) command_code_small [of "m_cmd m"]
    by (simp add: process_single_packet_def first_packet_def Let_def nth_append numeral_3_eq_3 numeral_2_eq_2)
qed

lemma seq_small: "k < 128 \<Longrightarrow> (word_of_nat k :: u8) AND 0x80 = 0"
  using and_exp_eq_0_iff_not_bit [of "word_of_nat k :: u8" 7]
  by (simp add: bit_of_nat_iff) (simp add: bit_iff_odd)

lemma parse_more:
  "length cid = 4 \<Longrightarrow> k < 128 \<Longrightarrow> process_single_packet (cid @ word_of_nat k # padded 59 data) = (cid, ContinuationPacket (word_of_nat k) (padded 59 data))"
  using seq_small [of k] by (simp add: process_single_packet_def Let_def nth_append)


text \<open>A packet with the clock at its processing and its time of arrival.\<close>

type_synonym arrival = "nat \<times> hid_packet \<times> nat"

fun feed :: "nat \<Rightarrow> arrival list \<Rightarrow> assembler \<Rightarrow> (assembled list \<times> assembler) option" where
  "feed max_size [] a = Some ([], a)"
| "feed max_size ((clock, packet, t) # es) a = (case assemble_packet max_size clock packet t a of
     None \<Rightarrow> None
   | Some (r, a') \<Rightarrow> map_option (\<lambda>(rs, a''). (r # rs, a'')) (feed max_size es a'))"

definition packet_of :: "arrival \<Rightarrow> hid_packet" where
  "packet_of = (\<lambda>(clock, packet, t). packet)"

definition from_channel :: "channel_id \<Rightarrow> arrival \<Rightarrow> bool" where
  "from_channel cid = (\<lambda>(clock, packet, t). take 4 packet = cid)"

text \<open>Every packet, also of another channel, comes before the timeout that the last one of this channel started.\<close>

fun timely :: "channel_id \<Rightarrow> nat \<Rightarrow> arrival list \<Rightarrow> bool" where
  "timely cid start [] = True"
| "timely cid start ((clock, packet, t) # es) \<longleftrightarrow> t < start + TIMEOUT_DURATION \<and> start + TIMEOUT_DURATION \<le> instant_max
     \<and> timely cid (if take 4 packet = cid then t else start) es"

text \<open>What the assembler says to a packet in the middle of a message.\<close>

definition waiting :: "channel_id \<Rightarrow> arrival \<Rightarrow> assembled" where
  "waiting cid = (\<lambda>(clock, packet, t). if take 4 packet = cid then Inr None else Inl (take 4 packet, ChannelBusy))"

lemma fst_process: "fst (process_single_packet p) = take 4 p"
  by (simp add: process_single_packet_def Let_def)

lemma collecting:
  assumes "length (m_cid m) = 4" and "map packet_of (filter (from_channel (m_cid m)) es) = more_packets (m_cid m) k data"
    and "data \<noteq> []" and "length data \<le> 59 * (128 - k)" and "from_channel (m_cid m) (last es)" and "timely (m_cid m) start es"
    and "a = \<lparr>idle = False, a_cid = m_cid m, last_timestamp = start, a_cmd = command_code (m_cmd m), a_seq = word_of_nat k,
      remaining_payload_len = length data, a_payload = before\<rparr>" and "m_payload m = before @ data"
  shows "\<exists>a'. idle a' \<and> a_payload a' = [] \<and> feed max_size es a = Some (map (waiting (m_cid m)) (butlast es) @ [Inr (Some m)], a')"
  using assms
proof (induction es arbitrary: k data start a before)
  case Nil
  then show ?case by simp
next
  case (Cons e es)
  obtain clock p t where e: "e = (clock, p, t)" by (cases e)
  have time: "t < start + TIMEOUT_DURATION" "start + TIMEOUT_DURATION \<le> instant_max" using Cons.prems(6) by (simp_all add: e)
  show ?case
  proof (cases "take 4 p = m_cid m")
    case True
    have k: "k < 128" using Cons.prems(3,4) by (cases "128 - k") auto
    have p: "p = m_cid m @ word_of_nat k # padded 59 data"
      and rest: "map packet_of (filter (from_channel (m_cid m)) es) = more_packets (m_cid m) (Suc k) (drop 59 data)"
      using Cons.prems(2,3) True by (simp_all add: e from_channel_def packet_of_def)
    have parsed: "process_single_packet p = (m_cid m, ContinuationPacket (word_of_nat k) (padded 59 data))"
      using parse_more Cons.prems(1) k p by simp
    show ?thesis
    proof (cases "length data \<le> 59")
      case True
      then have "filter (from_channel (m_cid m)) es = []" using rest by simp
      then have "es = []" using Cons.prems(5) by (metis filter_empty_conv last_ConsR last_in_set)
      moreover have "assemble_packet max_size clock p t a = Some (Inr (Some m), a\<lparr>last_timestamp := t, a_seq := word_of_nat k + 1,
          idle := True, a_payload := []\<rparr>)"
        using time True take_padded [OF True] Cons.prems(7,8)
        by (simp add: assemble_packet_def parsed append_payload_def not_le)
      ultimately show ?thesis by (simp add: e)
    next
      case False
      define a1 where "a1 = \<lparr>idle = False, a_cid = m_cid m, last_timestamp = t, a_cmd = command_code (m_cmd m),
        a_seq = word_of_nat (Suc k), remaining_payload_len = length (drop 59 data), a_payload = before @ take 59 data\<rparr>"
      have step: "assemble_packet max_size clock p t a = Some (Inr None, a1)"
        using time False Cons.prems(7) padded_full [of 59 data]
        by (simp add: assemble_packet_def parsed append_payload_def not_le a1_def add.commute)
      have ne: "es \<noteq> []" using rest False by auto
      have "\<exists>a'. idle a' \<and> a_payload a' = [] \<and> feed max_size es a1 = Some (map (waiting (m_cid m)) (butlast es) @ [Inr (Some m)], a')"
        by (rule Cons.IH [OF Cons.prems(1) rest _ _ _ _ a1_def])
          (use Cons.prems False ne True in \<open>auto simp: e\<close>)
      with step ne True show ?thesis by (auto simp: e waiting_def)
    qed
  next
    case False
    obtain q where q: "process_single_packet p = (take 4 p, q)" using fst_process [of p] by (metis prod.collapse)
    have step: "assemble_packet max_size clock p t a = Some (Inl (take 4 p, ChannelBusy), a)"
      using time False Cons.prems(7) by (simp add: assemble_packet_def q not_le)
    have ne: "es \<noteq> []" using Cons.prems(5) False by (auto simp: e from_channel_def)
    have "\<exists>a'. idle a' \<and> a_payload a' = [] \<and> feed max_size es a = Some (map (waiting (m_cid m)) (butlast es) @ [Inr (Some m)], a')"
      by (rule Cons.IH [OF Cons.prems(1) _ Cons.prems(3,4) _ _ Cons.prems(7,8)])
        (use Cons.prems False ne in \<open>auto simp: e from_channel_def\<close>)
    with step ne False show ?thesis by (auto simp: e waiting_def)
  qed
qed

text \<open>C18: A message that is split into packets arrives: whatever packets of other channels come in between, the assembler
  answers them that the channel is busy, waits, and gives back the message with the last packet, as long as the packets
  are timely and the message is no longer than the limit.\<close>

theorem split_message_reassembles:
  assumes "length (m_cid m) = 4" and "length (m_payload m) \<le> 7609" and "length (m_payload m) \<le> max_size"
    and "idle a" and "a_payload a = []"
    and "split_message m = first # rest" and "map packet_of (filter (from_channel (m_cid m)) es) = rest"
    and "es = [] \<or> from_channel (m_cid m) (last es)" and "timely (m_cid m) t es"
  shows "\<exists>a'. idle a' \<and> a_payload a' = [] \<and> feed max_size ((clock, first, t) # es) a
    = Some (map (waiting (m_cid m)) (butlast ((clock, first, t) # es)) @ [Inr (Some m)], a')"
proof -
  have sp: "first = first_packet m" "rest = more_packets (m_cid m) 0 (drop 57 (m_payload m))"
    using assms(6) by (simp_all add: split_message_packets [OF assms(1,2)])
  have parsed: "process_single_packet first = (m_cid m, InitPacket (command_code (m_cmd m)) (length (m_payload m)) (padded 57 (m_payload m)))"
    using parse_first [OF assms(1,2)] sp by simp
  have own: "take 4 first = m_cid m" using assms(1) sp by (simp add: first_packet_def)
  show ?thesis
  proof (cases "length (m_payload m) \<le> 57")
    case True
    then have "filter (from_channel (m_cid m)) es = []" using assms(7) sp by simp
    then have "es = []" using assms(8) by (metis filter_empty_conv last_in_set)
    then show ?thesis
      using True take_padded [OF True] assms(3,4,5)
      by (simp add: assemble_packet_def parsed assemble_fresh_def parse_init_packet_def append_payload_def)
  next
    case False
    define a1 where "a1 = \<lparr>idle = False, a_cid = m_cid m, last_timestamp = t, a_cmd = command_code (m_cmd m),
      a_seq = word_of_nat 0, remaining_payload_len = length (drop 57 (m_payload m)), a_payload = take 57 (m_payload m)\<rparr>"
    have step: "assemble_packet max_size clock first t a = Some (Inr None, a1)"
      using False padded_full [of 57 "m_payload m"] assms(3,4,5)
      by (simp add: assemble_packet_def parsed assemble_fresh_def parse_init_packet_def append_payload_def a1_def)
    have ne: "es \<noteq> []" using assms(7) sp False by auto
    have "\<exists>a'. idle a' \<and> a_payload a' = [] \<and> feed max_size es a1 = Some (map (waiting (m_cid m)) (butlast es) @ [Inr (Some m)], a')"
      by (rule collecting [OF assms(1) _ _ _ _ _ a1_def]) (use assms sp False ne in auto)
    with step ne own show ?thesis by (auto simp: waiting_def)
  qed
qed


text \<open>Sixty bytes in two packets, and a packet of another channel between them.\<close>

theorem split_message_reassembles_witness:
  "let m = \<lparr>m_cid = [0, 0, 0, 1], m_cmd = Ping, m_payload = replicate 60 7\<rparr>; other = 0 # 0 # 0 # 2 # replicate 60 0
   in \<exists>first second a'. split_message m = [first, second] \<and> feed 7609 [(0, first, 0), (0, other, 5), (0, second, 6)] (assembler_new 0)
     = Some ([Inr None, Inl ([0, 0, 0, 2], ChannelBusy), Inr (Some m)], a')"
proof -
  define m where "m = \<lparr>m_cid = [0, 0, 0, 1], m_cmd = Ping, m_payload = replicate 60 7\<rparr>"
  define other where "other = 0 # 0 # 0 # 2 # replicate 60 (0::u8)"
  have l: "length (m_cid m) = 4" "length (m_payload m) = 60" by (simp_all add: m_def)
  define second where "second = m_cid m @ [0] @ padded 59 (drop 57 (m_payload m))"
  have sp: "split_message m = [first_packet m, second]"
    using l by (simp add: split_message_packets second_def)
  have own: "take 4 (first_packet m) = m_cid m" "take 4 second = m_cid m" "take 4 other = [0, 0, 0, 2]"
    using l by (simp_all add: first_packet_def second_def other_def)
  have "m_cid m \<noteq> [0, 0, 0, 2]" by (simp add: m_def)
  then have "\<exists>a'. idle a' \<and> a_payload a' = [] \<and> feed 7609 ((0, first_packet m, 0) # [(0, other, 5), (0, second, 6)]) (assembler_new 0)
    = Some (map (waiting (m_cid m)) (butlast ((0, first_packet m, 0) # [(0, other, 5), (0, second, 6)])) @ [Inr (Some m)], a')"
    using own by (intro split_message_reassembles [OF l(1) _ _ _ _ sp])
      (auto simp: l assembler_new_def from_channel_def packet_of_def TIMEOUT_DURATION_def instant_max_def)
  then show ?thesis using sp own \<open>m_cid m \<noteq> [0, 0, 0, 2]\<close>
    by (auto simp: waiting_def m_def [symmetric] other_def [symmetric] Let_def simp del: feed.simps)
qed

section \<open>Bounds\<close>

text \<open>What is collected and what is still to come is no more than the limit.\<close>

definition assembler_ok :: "nat \<Rightarrow> assembler \<Rightarrow> bool" where
  "assembler_ok max_size a \<longleftrightarrow> (if idle a then a_payload a = []
     else 0 < remaining_payload_len a \<and> length (a_payload a) + remaining_payload_len a \<le> max_size)"

definition assembled_ok :: "nat \<Rightarrow> channel_id \<Rightarrow> assembled \<Rightarrow> bool" where
  "assembled_ok max_size cid r \<longleftrightarrow> (case r of
     Inl (c, _) \<Rightarrow> c = cid | Inr None \<Rightarrow> True | Inr (Some m) \<Rightarrow> m_cid m = cid \<and> length (m_payload m) \<le> max_size)"

lemma assembled_ok_simps [simp]:
  "assembled_ok max_size cid (Inl (c, x)) \<longleftrightarrow> c = cid" "assembled_ok max_size cid (Inr None)"
  "assembled_ok max_size cid (Inr (Some m)) \<longleftrightarrow> m_cid m = cid \<and> length (m_payload m) \<le> max_size"
  by (simp_all add: assembled_ok_def)

lemma append_ok:
  "remaining_payload_len a + length (a_payload a) \<le> max_size \<Longrightarrow> append_payload data a = (m, a') \<Longrightarrow>
    assembler_ok max_size a' \<and> assembled_ok max_size (a_cid a) (Inr m)"
  by (auto simp: append_payload_def assembler_ok_def split: if_splits)

lemma init_ok:
  "assembler_ok max_size a \<Longrightarrow> idle a \<Longrightarrow> parse_init_packet max_size cid cmd len data t a = (r, a') \<Longrightarrow>
    assembler_ok max_size a' \<and> assembled_ok max_size cid r"
  using append_ok [of "a\<lparr>a_cid := cid, last_timestamp := t, a_cmd := cmd, a_seq := 0, remaining_payload_len := len\<rparr>" max_size data]
  by (auto simp: parse_init_packet_def assembler_ok_def split: if_splits prod.splits)

lemma fresh_ok:
  "assembler_ok max_size a \<Longrightarrow> idle a \<Longrightarrow> assemble_fresh max_size cid p t a = (r, a') \<Longrightarrow>
    assembler_ok max_size a' \<and> assembled_ok max_size cid r"
  by (cases p) (auto simp: assemble_fresh_def init_ok)

lemma reset_ok: "assembler_ok max_size (assembler_reset clock a)" "idle (assembler_reset clock a)"
  by (simp_all add: assembler_ok_def assembler_reset_def)

lemma assemble_ok:
  assumes "assembler_ok max_size a" and "assemble_packet max_size clock packet t a = Some (r, a')"
  shows "assembler_ok max_size a' \<and> assembled_ok max_size (take 4 packet) r"
proof -
  obtain p where p: "process_single_packet packet = (take 4 packet, p)" using fst_process [of packet] by (metis prod.collapse)
  have appended: "assembler_ok max_size a' \<and> assembled_ok max_size (a_cid a) (Inr m)"
    if "append_payload data (a\<lparr>last_timestamp := t, a_seq := s\<rparr>) = (m, a')" "\<not> idle a" for data s m a'
    using append_ok [OF _ that(1), where max_size = max_size] assms(1) that(2) by (auto simp: assembler_ok_def)
  show ?thesis
    using assms p reset_ok(1) [of max_size clock a] reset_ok(2) [of clock a]
    by (cases p)
      (auto simp: assemble_packet_def Let_def split: if_splits prod.splits
        dest!: appended dest: fresh_ok init_ok)
qed

text \<open>C40: However a host, or several, mix packets of all kinds, the assembler never holds more than the largest message
  the build allows, and neither does a message it gives out; each answer is for the channel whose packet it answers.\<close>

theorem assembler_is_bounded:
  assumes "feed max_size arrivals (assembler_new now) = Some (replies, a)"
  shows "assembler_ok max_size a \<and> length (a_payload a) \<le> max_size \<and>
    list_all2 (\<lambda>e r. assembled_ok max_size (take 4 (packet_of e)) r) arrivals replies"
proof -
  have "assembler_ok max_size b \<Longrightarrow> feed max_size es b = Some (rs, a) \<Longrightarrow>
    assembler_ok max_size a \<and> list_all2 (\<lambda>e r. assembled_ok max_size (take 4 (packet_of e)) r) es rs" for b es rs
  proof (induction es arbitrary: b rs)
    case (Cons e es)
    obtain clock p t where e: "e = (clock, p, t)" by (cases e)
    obtain r b' rs' where s: "assemble_packet max_size clock p t b = Some (r, b')" "feed max_size es b' = Some (rs', a)" "rs = r # rs'"
      using Cons.prems(2) by (auto simp: e split: option.splits)
    from assemble_ok [OF Cons.prems(1) s(1)] Cons.IH [OF _ s(2)] s(3) show ?case by (auto simp: e packet_of_def)
  qed auto
  from this [OF _ assms] have "assembler_ok max_size a \<and> list_all2 (\<lambda>e r. assembled_ok max_size (take 4 (packet_of e)) r) arrivals replies"
    by (simp add: assembler_ok_def assembler_new_def)
  then show ?thesis by (auto simp: assembler_ok_def split: if_splits)
qed


text \<open>A packet that announces more than the limit is refused.\<close>

theorem assembler_is_bounded_witness:
  "\<exists>a. feed 7609 [(0, [0, 0, 0, 1, 0x90, 0xFF, 0xFF] @ replicate 57 0, 0)] (assembler_new 0) = Some ([Inl ([0, 0, 0, 1], InvalidLen)], a)
     \<and> length (a_payload a) \<le> 7609"
proof -
  let ?p = "[0, 0, 0, 1, 0x90, 0xFF, 0xFF] @ replicate 57 (0::u8)"
  have "feed 7609 [(0, ?p, 0)] (assembler_new 0) = Some ([Inl ([0, 0, 0, 1], InvalidLen)], assembler_new 0)"
    by (simp add: assemble_packet_def process_single_packet_def assembler_new_def assemble_fresh_def parse_init_packet_def)
  from this assembler_is_bounded [OF this] show ?thesis by blast
qed

section \<open>Channels\<close>

fun hid_run :: "nat \<Rightarrow> arrival list \<Rightarrow> ctap_hid \<Rightarrow> (message option list \<times> ctap_hid) option" where
  "hid_run max_size [] h = Some ([], h)"
| "hid_run max_size ((clock, packet, t) # es) h = (case hid_parse_packet max_size clock packet t h of
     None \<Rightarrow> None
   | Some (r, h') \<Rightarrow> map_option (\<lambda>(rs, h''). (r # rs, h'')) (hid_run max_size es h'))"

text \<open>The channel a reply gives out, if it answers an \<open>INIT\<close> on the broadcast channel.\<close>

definition given_channel :: "message option \<Rightarrow> channel_id list" where
  "given_channel r = (case r of None \<Rightarrow> []
     | Some m \<Rightarrow> if m_cmd m = Init \<and> m_cid m = CHANNEL_BROADCAST then [take 4 (drop 8 (m_payload m))] else [])"

definition given_channels :: "message option list \<Rightarrow> channel_id list" where
  "given_channels rs = concat (map given_channel rs)"

text \<open>What a reply other than an error is for.\<close>

definition entitled :: "u32 \<Rightarrow> message option \<Rightarrow> bool" where
  "entitled n r \<longleftrightarrow> (case r of None \<Rightarrow> True | Some m \<Rightarrow> m_cmd m = Error \<or> m_cid m = CHANNEL_BROADCAST \<and> m_cmd m = Init
     \<or> m_cid m \<noteq> CHANNEL_RESERVED \<and> cid_number (m_cid m) \<le> n \<and> length (m_cid m) = 4)"

lemma cid_number_bytes [simp]: "cid_number (cid_bytes n) = n"
  by (simp add: cid_number_def cid_bytes_def le_bytes32_def) (simp add: le_bytes32_def [symmetric] u32_from_le_le_bytes32 [unfolded le_bytes32_def, simplified])

lemma preprocess_channels:
  assumes "preprocess_message m h = (r, h')" and "length (m_cid m) = 4"
  shows "allocated_cids h' = allocated_cids h + of_nat (length (given_channel r)) \<and>
    given_channel r = (if given_channel r = [] then [] else [cid_bytes (allocated_cids h')]) \<and> entitled (allocated_cids h) r"
  using assms
  by (auto simp: preprocess_message_def init_response_def error_message_def given_channel_def entitled_def has_valid_channel_def
      is_allocated_channel_def Let_def cid_bytes_def split: if_splits ctap_hid_command.splits)

lemma assembled_cid:
  assumes "assemble_packet max_size clock packet t a = Some (Inr (Some m), a')"
  shows "m_cid m = take 4 packet"
proof -
  obtain p where p: "process_single_packet packet = (take 4 packet, p)" using fst_process [of packet] by (metis prod.collapse)
  show ?thesis
    using assms p by (cases p) (auto simp: assemble_packet_def Let_def assemble_fresh_def parse_init_packet_def append_payload_def
        split: if_splits prod.splits)
qed

lemma hid_parse_channels:
  assumes "hid_parse_packet max_size clock p t h = Some (r, h')" and "length p = 64"
  shows "allocated_cids h' = allocated_cids h + of_nat (length (given_channel r)) \<and>
    given_channel r = (if given_channel r = [] then [] else [cid_bytes (allocated_cids h')]) \<and> entitled (allocated_cids h) r"
  using assms assembled_cid [of max_size clock p t "assembler h"]
  by (auto simp: hid_parse_packet_def Let_def error_message_def given_channel_def entitled_def
      split: option.splits sum.splits if_splits dest!: preprocess_channels)

definition full_size :: "arrival \<Rightarrow> bool" where
  "full_size e \<longleftrightarrow> length (packet_of e) = 64"

lemma entitled_later: "entitled m r \<Longrightarrow> m \<le> n \<Longrightarrow> entitled n r"
  by (auto simp: entitled_def split: option.splits)

lemma hid_run_channels:
  assumes "hid_run max_size es h = Some (rs, h')" and "allocated_cids h = of_nat j" and "j + length (given_channels rs) < 2 ^ 32"
    and "\<forall>e \<in> set es. full_size e"
  shows "given_channels rs = map (\<lambda>k. cid_bytes (of_nat k)) [Suc j ..< Suc (j + length (given_channels rs))] \<and>
    allocated_cids h' = of_nat (j + length (given_channels rs)) \<and> (\<forall>r \<in> set rs. entitled (allocated_cids h') r)"
  using assms
proof (induction es arbitrary: h rs j)
  case (Cons e es)
  obtain clock p t where e: "e = (clock, p, t)" by (cases e)
  obtain r h1 rs' where s: "hid_parse_packet max_size clock p t h = Some (r, h1)" "hid_run max_size es h1 = Some (rs', h')" "rs = r # rs'"
    using Cons.prems(1) by (auto simp: e split: option.splits)
  define n where "n = length (given_channel r)"
  have len: "length (given_channels rs) = n + length (given_channels rs')" by (simp add: s(3) given_channels_def n_def)
  have "length p = 64" using Cons.prems(4) by (simp add: e full_size_def packet_of_def)
  from hid_parse_channels [OF s(1) this] have r: "allocated_cids h1 = of_nat (j + n)"
    "given_channel r = (if given_channel r = [] then [] else [cid_bytes (allocated_cids h1)])" "entitled (allocated_cids h) r"
    by (simp_all add: Cons.prems(2) n_def)
  have n1: "n \<le> 1" using r(2) by (simp add: n_def split: if_splits)
  have "given_channels rs' = map (\<lambda>k. cid_bytes (of_nat k)) [Suc (j + n) ..< Suc (j + n + length (given_channels rs'))] \<and>
    allocated_cids h' = of_nat (j + n + length (given_channels rs')) \<and> (\<forall>r \<in> set rs'. entitled (allocated_cids h') r)"
    by (rule Cons.IH [OF s(2) r(1)]) (use Cons.prems(3,4) len in auto)
  then have ih: "given_channels rs' = map (\<lambda>k. cid_bytes (of_nat k)) [Suc (j + n) ..< Suc (j + n + length (given_channels rs'))]"
    "allocated_cids h' = of_nat (j + n + length (given_channels rs'))" "\<forall>r \<in> set rs'. entitled (allocated_cids h') r"
    by blast+
  let ?f = "\<lambda>k. cid_bytes (of_nat k)"
  have both: "[Suc j ..< Suc (j + n)] @ [Suc (j + n) ..< Suc (j + n + length (given_channels rs'))]
    = [Suc j ..< Suc (j + n + length (given_channels rs'))]"
    using upt_add_eq_append [of "Suc j" "Suc (j + n)" "length (given_channels rs')"] by (simp del: upt_Suc)
  have "given_channel r = map ?f [Suc j ..< Suc (j + n)]"
    using r(1,2) n1 by (cases "given_channel r") (auto simp: n_def)
  then have "given_channels rs = map ?f [Suc j ..< Suc (j + n)] @ map ?f [Suc (j + n) ..< Suc (j + n + length (given_channels rs'))]"
    using ih(1) by (simp add: s(3) given_channels_def del: upt_Suc)
  then have "given_channels rs = map ?f [Suc j ..< Suc (j + (n + length (given_channels rs')))]"
    using both by (simp only: map_append [symmetric] add.assoc)
  then have "given_channels rs = map ?f [Suc j ..< Suc (j + length (given_channels rs))]"
    by (subst len)
  moreover have "allocated_cids h \<le> allocated_cids h'"
    unfolding ih(2) Cons.prems(2) using Cons.prems(3) len by (simp add: word_le_nat_alt unat_of_nat del: of_nat_add)
  ultimately show ?case
    using ih(2,3) r(3) len by (simp add: s(3) add.assoc del: upt_Suc) (metis entitled_later)
qed (simp add: given_channels_def)

text \<open>C23: Channels keep their clients apart: as long as fewer than 2^32 - 1 channels were asked for, each \<open>INIT\<close> on the
  broadcast channel gets a channel of its own, which is neither reserved nor the broadcast channel, and every reply that
  is not an error answers such an \<open>INIT\<close> or goes to a channel that was given out.\<close>

theorem channels_are_apart:
  assumes "hid_run max_size arrivals (ctap_hid_new now cap) = Some (replies, h)"
    and "length (given_channels replies) < 2 ^ 32 - 1" and "\<forall>e \<in> set arrivals. length (packet_of e) = 64"
  shows "distinct (given_channels replies) \<and> CHANNEL_RESERVED \<notin> set (given_channels replies)
    \<and> CHANNEL_BROADCAST \<notin> set (given_channels replies)
    \<and> (\<forall>m. Some m \<in> set replies \<longrightarrow> m_cmd m = Error \<or> m_cid m = CHANNEL_BROADCAST \<and> m_cmd m = Init
         \<or> m_cid m \<in> set (given_channels replies))"
proof -
  let ?n = "length (given_channels replies)"
  have run: "given_channels replies = map (\<lambda>k. cid_bytes (of_nat k)) [1 ..< Suc ?n]" "allocated_cids h = of_nat ?n"
    "\<forall>r \<in> set replies. entitled (allocated_cids h) r"
    using hid_run_channels [OF assms(1), of 0] assms(2,3) by (auto simp: ctap_hid_new_def full_size_def simp del: upt_Suc)
  have num: "unat (of_nat k :: u32) = k" if "k < Suc ?n" for k
    using that assms(2) by (simp add: unat_of_nat)
  have absent: "c \<notin> set (given_channels replies)" if "\<And>k. k \<in> {1 ..< Suc ?n} \<Longrightarrow> cid_number c \<noteq> of_nat k" for c
  proof
    assume "c \<in> set (given_channels replies)"
    then obtain k where "k \<in> {1 ..< Suc ?n}" "c = cid_bytes (of_nat k)"
      by (subst (asm) run(1)) (auto simp del: upt_Suc)
    with that [of k] show False by simp
  qed
  have "inj_on (\<lambda>k. cid_bytes (of_nat k)) {1 ..< Suc ?n}"
    by (rule inj_onI) (metis atLeastLessThan_iff cid_number_bytes num)
  then have d: "distinct (given_channels replies)"
    by (subst run(1)) (simp add: distinct_map del: upt_Suc)
  have reserved: "cid_number CHANNEL_RESERVED = 0" "cid_number CHANNEL_BROADCAST = - 1"
    by (simp_all add: cid_number_def CHANNEL_RESERVED_def CHANNEL_BROADCAST_def u32_from_le_def)
  have bounds: "of_nat k \<noteq> (0 :: u32)" "of_nat k \<noteq> (- 1 :: u32)" if "k \<in> {1 ..< Suc ?n}" for k
    using num [of k] that assms(2) by (auto simp: word_unat_eq_iff unsigned_minus_1_eq_mask mask_eq_exp_minus_1)
  have "CHANNEL_RESERVED \<notin> set (given_channels replies)" "CHANNEL_BROADCAST \<notin> set (given_channels replies)"
    using bounds by (intro absent; simp only: reserved; metis)+
  moreover have "c \<in> set (given_channels replies)" if "c \<noteq> CHANNEL_RESERVED" "cid_number c \<le> of_nat ?n" "length c = 4" for c
  proof -
    have c: "cid_bytes (cid_number c) = c"
      using that(3) by (auto simp: cid_bytes_def cid_number_def le_bytes32_from_le length_Suc_conv numeral_eq_Suc)
    moreover have "cid_bytes 0 = CHANNEL_RESERVED" by (simp add: cid_bytes_def le_bytes32_def CHANNEL_RESERVED_def)
    ultimately have "cid_number c \<noteq> 0" using that(1) by metis
    then have "unat (cid_number c) \<in> {1 ..< Suc ?n}" using that(2) num [of ?n] by (simp add: word_le_nat_alt unat_gt_0 Suc_le_eq)
    then show ?thesis by (subst run(1)) (use c in \<open>auto intro!: image_eqI [of _ _ "unat (cid_number c)"] simp del: upt_Suc\<close>)
  qed
  ultimately show ?thesis using d run(3) by (fastforce simp: entitled_def run(2))
qed


text \<open>An \<open>INIT\<close> on the broadcast channel gets channel 1.\<close>

theorem channels_are_apart_witness:
  "\<exists>r h. hid_run 7609 [(0, CHANNEL_BROADCAST @ [0x86, 0, 8] @ replicate 57 9, 0)] (ctap_hid_new 0 5) = Some ([Some r], h)
     \<and> m_cmd r = Init \<and> given_channels [Some r] = [[0, 0, 0, 1]] \<and> distinct (given_channels [Some r])"
proof -
  let ?p = "CHANNEL_BROADCAST @ [0x86, 0, 8] @ replicate 57 (9::u8)"
  let ?r = "\<lparr>m_cid = CHANNEL_BROADCAST, m_cmd = Init, m_payload = replicate 8 9 @ [0, 0, 0, 1] @ [2, 1, 0, 0, 5]\<rparr>"
  obtain h where h: "hid_run 7609 [(0, ?p, 0)] (ctap_hid_new 0 5) = Some ([Some ?r], h)"
    by (simp add: hid_parse_packet_def assemble_packet_def process_single_packet_def ctap_hid_new_def assembler_new_def assemble_fresh_def
        parse_init_packet_def append_payload_def CHANNEL_BROADCAST_def command_of_code_def preprocess_message_def has_valid_channel_def
        init_response_def cid_bytes_def le_bytes32_def Let_def min_def)
  have g: "given_channels [Some ?r] = [[0, 0, 0, 1]]"
    by (simp add: given_channels_def given_channel_def)
  from channels_are_apart [OF h] h g show ?thesis by (auto simp: packet_of_def CHANNEL_BROADCAST_def)
qed

end
