(* ===== verification/Ctap_Maps.thy ===== *)
theory Ctap_Maps
  imports Ctap_Cbor
begin

text \<open>
  CBOR maps whose entries may be absent, as \<open>cbor_map_options!\<close> of \<open>libraries/cbor/src/macros.rs\<close> makes them, and
  what the messages and records built from them rely on: a value within the nesting limit whose maps are sorted is written,
  read back as it is, and taken apart into the entries it was made of.
\<close>

section \<open>Maps with optional entries\<close>

definition cbor_map_options :: "(cbor \<times> cbor option) list \<Rightarrow> cbor" where
  "cbor_map_options fs = Map (concat (map (\<lambda>(k, v). case v of None \<Rightarrow> [] | Some x \<Rightarrow> [(k, x)]) fs))"

section \<open>Maps that are written and read\<close>

lemma read_written:
  assumes "cbor_write v = Inr bs" and "writable v"
  shows "cbor_read bs = Inr (canonical v)"
  using assms decode_encode(1) [of MAX_CBOR_NESTING_DEPTH v bs "[]"]
  by (auto simp: cbor_write_def cbor_read_def write_nested_def read_nested_def split: sum.splits)

fun leaf :: "cbor \<Rightarrow> bool" where
  "leaf (Array _) = False"
| "leaf (Map _) = False"
| "leaf (Tag _ _) = False"
| "leaf _ = True"

text \<open>Nesting within \<open>n\<close> levels, maps strictly ascending by their keys.\<close>

fun fits :: "nat \<Rightarrow> cbor \<Rightarrow> bool" where
  "fits n (Array a) = (case n of 0 \<Rightarrow> False | Suc m \<Rightarrow> (\<forall>v \<in> set a. fits m v))"
| "fits n (Map ps) = (case n of 0 \<Rightarrow> False | Suc m \<Rightarrow>
     sorted_wrt (<) (map fst ps) \<and> (\<forall>p \<in> set ps. leaf (fst p) \<and> fits m (snd p)))"
| "fits n (Tag _ _) = False"
| "fits n _ = True"

lemma fits_leaf: "leaf v \<Longrightarrow> fits n v"
  by (cases v) auto

lemma sort_strict: "sorted_wrt (<) (map f ps) \<Longrightarrow> sort_key f ps = (ps :: 'a list)" for f :: "'a \<Rightarrow> 'b::linorder"
  by (rule sort_key_id_if_sorted) (auto intro: strict_sorted_imp_sorted)

lemma remdups_adj_strict_id: "sorted_wrt (<) (xs :: 'a::linorder list) \<Longrightarrow> remdups_adj xs = xs"
  by (rule remdups_adj_distinct) (simp add: strict_sorted_iff)

lemma items_encoded: "\<forall>v \<in> set a. \<exists>bs. encode d v = Inr bs \<Longrightarrow> \<exists>bs. encode_items d a = Inr bs"
  by (induction a) auto

lemma pairs_encoded:
  "\<forall>p \<in> set ps. (\<exists>bs. encode d (fst p) = Inr bs) \<and> (\<exists>bs. encode d (snd p) = Inr bs) \<Longrightarrow> \<exists>bs. encode_pairs d ps = Inr bs"
  by (induction ps) auto

lemma leaf_encoded: "leaf v \<Longrightarrow> 0 \<le> d \<Longrightarrow> \<exists>bs. encode d v = Inr bs"
  by (cases v) (auto simp: encode_simps)

lemma fits_encoded: "fits n v \<Longrightarrow> int n \<le> d \<Longrightarrow> \<exists>bs. encode d v = Inr bs"
proof (induction n v arbitrary: d rule: fits.induct)
  case (1 n a)
  then obtain m where m: "n = Suc m" "\<forall>v \<in> set a. fits m v" by (auto split: nat.splits)
  then have "\<exists>bs. encode_items (d - 1) a = Inr bs" using 1 by (intro items_encoded) auto
  then show ?case using 1(3) by (auto simp: encode_simps)
next
  case (2 n ps)
  then obtain m where m: "n = Suc m" "sorted_wrt (<) (map fst ps)" "\<forall>p \<in> set ps. leaf (fst p) \<and> fits m (snd p)"
    by (auto split: nat.splits)
  have "\<exists>bs. encode_pairs (d - 1) ps = Inr bs" using 2 m by (intro pairs_encoded) (auto intro: leaf_encoded)
  then show ?case using 2(3) m(2) by (auto simp: encode_simps sort_strict remdups_adj_strict_id)
qed (auto simp: encode_simps)

lemma fits_canonical: "fits n v \<Longrightarrow> canonical v = v"
proof (induction n v rule: fits.induct)
  case (1 n a)
  then show ?case by (auto split: nat.splits intro: map_idI)
next
  case (2 n ps)
  then obtain m where m: "n = Suc m" "sorted_wrt (<) (map fst ps)" "\<forall>p \<in> set ps. fits m (snd p)"
    by (auto split: nat.splits)
  have "map (\<lambda>(k, v). (k, canonical v)) ps = ps" using 2 m by (intro map_idI) auto
  then show ?case using m(2) by (simp add: sort_strict)
qed auto

lemma fits_written: "fits 4 v \<Longrightarrow> \<exists>bs. cbor_write v = Inr bs"
  using fits_encoded [of 4 v MAX_CBOR_NESTING_DEPTH]
  by (auto simp: cbor_write_def write_nested_def MAX_CBOR_NESTING_DEPTH_def)

lemma written_and_read: "fits 4 v \<Longrightarrow> writable v \<Longrightarrow> \<exists>bs. cbor_write v = Inr bs \<and> cbor_read bs = Inr v"
  using fits_written read_written fits_canonical by metis

text \<open>Fields that may be absent.\<close>

definition present :: "(cbor \<times> cbor option) list \<Rightarrow> (cbor \<times> cbor) list" where
  "present fs = concat (map (\<lambda>(k, v). case v of None \<Rightarrow> [] | Some x \<Rightarrow> [(k, x)]) fs)"

lemma options_present: "cbor_map_options fs = Map (present fs)"
  by (simp add: cbor_map_options_def present_def)

lemma set_present: "set (present fs) = {(k, x). (k, Some x) \<in> set fs}"
  by (auto simp: present_def split: option.splits)

lemma length_present: "length (present fs) \<le> length fs"
  by (induction fs) (auto simp: present_def split: option.split)

lemma sorted_present: "sorted_wrt (<) (map fst fs) \<Longrightarrow> sorted_wrt (<) (map fst (present fs))"
proof (induction fs)
  case (Cons f fs)
  have "k \<in> fst ` set (present fs) \<Longrightarrow> k \<in> fst ` set fs" for k by (force simp: set_present)
  with Cons show ?case by (cases f) (auto simp: present_def split: option.splits)
qed (simp add: present_def)

lemma lookup_present: "sorted_wrt (<) (map fst fs) \<Longrightarrow> map_of (present fs) k = Option.bind (map_of fs k) (\<lambda>v. v)"
proof (induction fs)
  case (Cons f fs)
  obtain k' v where f: "f = (k', v)" by (cases f)
  have "k' \<notin> fst ` set fs" using Cons.prems f by auto
  then have "map_of fs k' = None" by (simp add: map_of_eq_None_iff)
  with Cons show ?case by (cases v) (auto simp: f present_def)
qed (simp add: present_def)

lemma destructure_present:
  assumes "sorted_wrt (<) (map fst fs)" and "sorted_wrt (<) ks"
  shows "destructure ks (present fs) = map (\<lambda>k. Option.bind (map_of fs k) (\<lambda>v. v)) ks"
  by (simp add: destructuring_is_lookup sorted_present assms lookup_present)

lemma options_fit:
  assumes "sorted_wrt (<) (map fst fs)" and "\<forall>f \<in> set fs. leaf (fst f) \<and> pred_option (fits n) (snd f)"
  shows "fits (Suc n) (cbor_map_options fs)"
  using assms by (force simp: options_present sorted_present set_present)

lemma options_writable:
  assumes "length fs < 2 ^ 64" and "\<forall>f \<in> set fs. atomic (fst f) \<and> writable (fst f) \<and> pred_option writable (snd f)"
  shows "writable (cbor_map_options fs)"
  using assms le_less_trans [OF length_present] by (force simp: options_present set_present)

lemma less_unsigned [simp]: "Unsigned a < Unsigned b \<longleftrightarrow> a < b"
  by (auto simp: less_cbor_def cmp_same cmp_of_def)

end
