(* ===== verification/Ctap_Credentials.thy ===== *)
theory Ctap_Credentials
  imports Ctap_Pin Ctap_Maps
begin

text \<open>
  Credentials of the security key: private keys (\<open>src/ctap/crypto_wrapper.rs\<close>), the record kept for a discoverable
  credential with its CBOR form (\<open>data_formats.rs\<close>), the operations on stored credentials and on the attestation
  (\<open>storage.rs\<close>, \<open>api/attestation_store.rs\<close>).  An Ed25519 secret key is represented by the seed it is made from.
\<close>

section \<open>Algorithms and private keys\<close>

datatype signature_algorithm = Es256 | Eddsa | UnknownAlgorithm

definition EDDSA_ALGORITHM :: int where "EDDSA_ALGORITHM = - 8"

fun algorithm_code :: "signature_algorithm \<Rightarrow> int" where
  "algorithm_code Es256 = ES256_ALGORITHM"
| "algorithm_code Eddsa = EDDSA_ALGORITHM"
| "algorithm_code UnknownAlgorithm = 0"

definition algorithm_of_code :: "u64 \<Rightarrow> signature_algorithm" where
  "algorithm_of_code i = (if sint i = ES256_ALGORITHM then Es256 else if sint i = EDDSA_ALGORITHM then Eddsa
     else UnknownAlgorithm)"

definition algorithm_of_cbor :: "cbor \<Rightarrow> signature_algorithm parsed" where
  "algorithm_of_cbor v = bind_parsed (extract_integer v) (\<lambda>i. Inr (algorithm_of_code i))"

datatype private_key = Ecdsa bytes | Ed25519 bytes

fun algorithm_of_key :: "private_key \<Rightarrow> signature_algorithm" where
  "algorithm_of_key (Ecdsa _) = Es256"
| "algorithm_of_key (Ed25519 _) = Eddsa"

fun key_bytes :: "private_key \<Rightarrow> bytes" where
  "key_bytes (Ecdsa seed) = seed"
| "key_bytes (Ed25519 seed) = seed"

definition new_ecdsa_from_bytes :: "bytes \<Rightarrow> private_key option" where
  "new_ecdsa_from_bytes b = (if length b \<noteq> 32 then None else Some (Ecdsa b))"

definition new_ed25519_from_bytes :: "bytes \<Rightarrow> private_key option" where
  "new_ed25519_from_bytes b = (if length b \<noteq> 32 then None else Some (Ed25519 b))"

definition cbor_of_private_key :: "private_key \<Rightarrow> cbor" where
  "cbor_of_private_key k = Array [cose_int (algorithm_code (algorithm_of_key k)), ByteString (key_bytes k)]"

definition ok_or_else :: "ctap_status \<Rightarrow> 'a option \<Rightarrow> 'a parsed" where
  "ok_or_else c x = (case x of None \<Rightarrow> Inl c | Some y \<Rightarrow> Inr y)"

definition private_key_of_cbor :: "cbor \<Rightarrow> private_key parsed" where
  "private_key_of_cbor v = bind_parsed (extract_array v) (\<lambda>a.
     case a of [alg, b] \<Rightarrow>
         bind_parsed (extract_byte_string b) (\<lambda>bs. bind_parsed (algorithm_of_cbor alg) (\<lambda>x. case x of
             Es256 \<Rightarrow> ok_or_else CTAP2_ERR_INVALID_CBOR (new_ecdsa_from_bytes bs)
           | Eddsa \<Rightarrow> ok_or_else CTAP2_ERR_INVALID_CBOR (new_ed25519_from_bytes bs)
           | UnknownAlgorithm \<Rightarrow> Inl CTAP2_ERR_INVALID_CBOR))
     | _ \<Rightarrow> Inl CTAP2_ERR_INVALID_CBOR)"

text \<open>What the libraries compute: whether 32 bytes are a scalar of P-256, public keys and signatures, and the
  scalar that the \<open>n\<close>-th call of the system's generator makes.\<close>

record signers =
  scalar_ok :: "bytes \<Rightarrow> bool"
  new_scalar :: "nat \<Rightarrow> bytes"
  ecdsa_pub :: "bytes \<Rightarrow> bytes \<times> bytes"
  ecdsa_sign :: "bytes \<Rightarrow> bytes \<Rightarrow> bytes"
  ed25519_pub :: "bytes \<Rightarrow> bytes"
  ed25519_sign :: "bytes \<Rightarrow> bytes \<Rightarrow> bytes"

definition OKP_KEY_TYPE :: int where "OKP_KEY_TYPE = 1"
definition ED25519_CURVE :: int where "ED25519_CURVE = 6"

definition private_key_new :: "signers \<Rightarrow> signature_algorithm \<Rightarrow> private_key env_op" where
  "private_key_new S alg = (case alg of
     Es256 \<Rightarrow> (\<lambda>e. (Good (Ecdsa (new_scalar S (drawn e))), e\<lparr>drawn := Suc (drawn e)\<rparr>))
   | Eddsa \<Rightarrow> attempt gen_uniform_u8x32 (\<lambda>b. or_crash (new_ed25519_from_bytes b))
   | UnknownAlgorithm \<Rightarrow> crash)"

definition ecdsa_key_from_seed :: "signers \<Rightarrow> bytes \<Rightarrow> ('s, bytes) op" where
  "ecdsa_key_from_seed S seed = (if scalar_ok S seed then give seed else refuse CTAP2_ERR_VENDOR_INTERNAL_ERROR)"

definition ecdsa_key :: "signers \<Rightarrow> private_key \<Rightarrow> ('s, bytes) op" where
  "ecdsa_key S k = (case k of Ecdsa seed \<Rightarrow> ecdsa_key_from_seed S seed
     | Ed25519 _ \<Rightarrow> refuse CTAP2_ERR_VENDOR_INTERNAL_ERROR)"

definition cose_of_ecdsa :: "bytes \<times> bytes \<Rightarrow> cose_key" where
  "cose_of_ecdsa pk = \<lparr>x_bytes = fst pk, y_bytes = snd pk, algorithm = ES256_ALGORITHM, key_type = EC2_KEY_TYPE,
     curve = P_256_CURVE\<rparr>"

definition cose_of_ed25519 :: "bytes \<Rightarrow> cose_key" where
  "cose_of_ed25519 pk = \<lparr>x_bytes = pk, y_bytes = replicate 32 0, algorithm = EDDSA_ALGORITHM, key_type = OKP_KEY_TYPE,
     curve = ED25519_CURVE\<rparr>"

definition get_pub_key :: "signers \<Rightarrow> private_key \<Rightarrow> ('s, cose_key) op" where
  "get_pub_key S k = (case k of
     Ecdsa seed \<Rightarrow> attempt (ecdsa_key_from_seed S seed) (\<lambda>sk. give (cose_of_ecdsa (ecdsa_pub S sk)))
   | Ed25519 seed \<Rightarrow> give (cose_of_ed25519 (ed25519_pub S seed)))"

definition sign_and_encode :: "signers \<Rightarrow> private_key \<Rightarrow> bytes \<Rightarrow> ('s, bytes) op" where
  "sign_and_encode S k m = (case k of
     Ecdsa seed \<Rightarrow> attempt (ecdsa_key_from_seed S seed) (\<lambda>sk. give (ecdsa_sign S sk m))
   | Ed25519 seed \<Rightarrow> give (ed25519_sign S seed m))"

section \<open>The record of a credential\<close>

definition policy_code :: "cred_protect \<Rightarrow> nat" where
  "policy_code p = (case p of UserVerificationOptional \<Rightarrow> 1 | UserVerificationOptionalWithCredentialIdList \<Rightarrow> 2
     | UserVerificationRequired \<Rightarrow> 3)"

definition cbor_of_policy :: "cred_protect \<Rightarrow> cbor" where
  "cbor_of_policy p = cose_int (int (policy_code p))"

definition policy_of_cbor :: "cbor \<Rightarrow> cred_protect parsed" where
  "policy_of_cbor v = bind_parsed (extract_integer v) (\<lambda>i.
     if i = 1 then Inr UserVerificationOptional
     else if i = 2 then Inr UserVerificationOptionalWithCredentialIdList
     else if i = 3 then Inr UserVerificationRequired
     else Inl CTAP2_ERR_CBOR_UNEXPECTED_TYPE)"

datatype credential_type = PublicKey | UnknownType

record credential =
  cr_type :: credential_type
  cr_id :: bytes
  cr_key :: private_key
  cr_rp_id :: string
  cr_user_handle :: bytes
  cr_user_display_name :: "string option"
  cr_policy :: "cred_protect option"
  cr_order :: u64
  cr_user_name :: "string option"
  cr_user_icon :: "string option"
  cr_blob :: "bytes option"
  cr_large_blob_key :: "bytes option"

definition cbor_of_credential :: "credential \<Rightarrow> cbor" where
  "cbor_of_credential c = cbor_map_options
     [(Unsigned 0, Some (ByteString (cr_id c))),
      (Unsigned 2, Some (TextString (cr_rp_id c))),
      (Unsigned 3, Some (ByteString (cr_user_handle c))),
      (Unsigned 4, map_option TextString (cr_user_display_name c)),
      (Unsigned 6, map_option cbor_of_policy (cr_policy c)),
      (Unsigned 7, Some (Unsigned (cr_order c))),
      (Unsigned 8, map_option TextString (cr_user_name c)),
      (Unsigned 9, map_option TextString (cr_user_icon c)),
      (Unsigned 10, map_option ByteString (cr_blob c)),
      (Unsigned 11, map_option ByteString (cr_large_blob_key c)),
      (Unsigned 12, Some (cbor_of_private_key (cr_key c)))]"

text \<open>The private key comes from its own field or from the deprecated one, never from both.\<close>

definition stored_private_key :: "bytes option \<Rightarrow> private_key option \<Rightarrow> private_key parsed" where
  "stored_private_key old new = (case (old, new) of
     (None, None) \<Rightarrow> Inl CTAP2_ERR_MISSING_PARAMETER
   | (Some _, Some _) \<Rightarrow> Inl CTAP2_ERR_VENDOR_INTERNAL_ERROR
   | (Some k, None) \<Rightarrow> ok_or_else CTAP2_ERR_VENDOR_INTERNAL_ERROR (new_ecdsa_from_bytes k)
   | (None, Some k) \<Rightarrow> Inr k)"

definition credential_of_cbor :: "cbor \<Rightarrow> credential parsed" where
  "credential_of_cbor v = bind_parsed (extract_map v) (\<lambda>m.
     case destructure (map Unsigned [0, 1, 2, 3, 4, 6, 7, 8, 9, 10, 11, 12]) m of
       [f_id, f_ecdsa, f_rp, f_handle, f_display, f_policy, f_order, f_name, f_icon, f_blob, f_large, f_key] \<Rightarrow>
         bind_parsed (bind_parsed (required f_id) extract_byte_string) (\<lambda>id.
         bind_parsed (bind_parsed (required f_rp) extract_text_string) (\<lambda>rp.
         bind_parsed (bind_parsed (required f_handle) extract_byte_string) (\<lambda>handle.
         bind_parsed (optional extract_text_string f_display) (\<lambda>display.
         bind_parsed (optional policy_of_cbor f_policy) (\<lambda>policy.
         bind_parsed (case f_order of None \<Rightarrow> Inr 0 | Some x \<Rightarrow> extract_unsigned x) (\<lambda>order.
         bind_parsed (optional extract_text_string f_name) (\<lambda>name.
         bind_parsed (optional extract_text_string f_icon) (\<lambda>icon.
         bind_parsed (optional extract_byte_string f_blob) (\<lambda>blob.
         bind_parsed (optional extract_byte_string f_large) (\<lambda>large.
         bind_parsed (optional extract_byte_string f_ecdsa) (\<lambda>old.
         bind_parsed (optional private_key_of_cbor f_key) (\<lambda>new.
         bind_parsed (stored_private_key old new) (\<lambda>key.
         Inr \<lparr>cr_type = PublicKey, cr_id = id, cr_key = key, cr_rp_id = rp, cr_user_handle = handle,
           cr_user_display_name = display, cr_policy = policy, cr_order = order, cr_user_name = name,
           cr_user_icon = icon, cr_blob = blob, cr_large_blob_key = large\<rparr>)))))))))))))
     | _ \<Rightarrow> Inl CTAP2_ERR_VENDOR_INTERNAL_ERROR)"

definition is_discoverable :: "credential \<Rightarrow> bool" where
  "is_discoverable c \<longleftrightarrow> cr_policy c = None \<or> cr_policy c = Some UserVerificationOptional"

definition deserialize_credential :: "bytes \<Rightarrow> credential option" where
  "deserialize_credential data = (case bind_parsed (cbor_read data) credential_of_cbor of Inl _ \<Rightarrow> None | Inr c \<Rightarrow> Some c)"

definition serialize_credential :: "credential \<Rightarrow> bytes parsed" where
  "serialize_credential c = cbor_write (cbor_of_credential c)"

section \<open>Stored credentials\<close>

definition is_credential_key :: "nat \<Rightarrow> bool" where
  "is_credential_key k \<longleftrightarrow> fst CREDENTIALS \<le> k \<and> k < snd CREDENTIALS"

text \<open>\<open>IterCredentials::next\<close> at a key of the range, and a loop over all credentials whose body may return early.
  The caller looks at the iterator's result right after the loop, so a failed iteration is an early return too.\<close>

definition read_credential :: "nat \<Rightarrow> credential env_op" where
  "read_credential k = attempt (internal (stored (store_get_value k))) (\<lambda>v.
     ok_or CTAP2_ERR_VENDOR_INTERNAL_ERROR (deserialize_credential v))"

fun fold_credentials :: "(nat \<Rightarrow> credential \<Rightarrow> 'a \<Rightarrow> 'a parsed) \<Rightarrow> nat list \<Rightarrow> 'a \<Rightarrow> 'a env_op" where
  "fold_credentials f [] acc = give acc"
| "fold_credentials f (k # ks) acc =
     (if is_credential_key k
      then attempt (read_credential k) (\<lambda>c. attempt (checked (f k c acc)) (fold_credentials f ks))
      else fold_credentials f ks acc)"

definition iter_credentials :: "(nat \<Rightarrow> credential \<Rightarrow> 'a \<Rightarrow> 'a parsed) \<Rightarrow> 'a \<Rightarrow> 'a env_op" where
  "iter_credentials f acc = attempt (stored store_iter) (\<lambda>ks. fold_credentials f ks acc)"

definition get_credential :: "nat \<Rightarrow> credential env_op" where
  "get_credential k = attempt (inspect custom) (\<lambda>c.
     if k < fst CREDENTIALS \<or> k \<ge> fst CREDENTIALS + max_supported_resident_keys c
     then refuse CTAP2_ERR_VENDOR_INTERNAL_ERROR
     else attempt (find k) (\<lambda>v. attempt (ok_or CTAP2_ERR_VENDOR_INTERNAL_ERROR v) (\<lambda>data.
       ok_or CTAP2_ERR_VENDOR_INTERNAL_ERROR (deserialize_credential data))))"

definition find_credential_item :: "bytes \<Rightarrow> (nat \<times> credential) env_op" where
  "find_credential_item cred_id =
     attempt (iter_credentials (\<lambda>k c found. Inr (if cr_id c = cred_id then found @ [(k, c)] else found)) []) (\<lambda>found.
     if length found > 1 then refuse CTAP2_ERR_VENDOR_INTERNAL_ERROR
     else case found of [] \<Rightarrow> refuse CTAP2_ERR_NO_CREDENTIALS | x # _ \<Rightarrow> give x)"

definition find_credential :: "string \<Rightarrow> bytes \<Rightarrow> credential option env_op" where
  "find_credential rp_id cred_id = (\<lambda>e. case find_credential_item cred_id e of
     (Good (_, c), e') \<Rightarrow> (Good (if cr_rp_id c \<noteq> rp_id then None else Some c), e')
   | (Bad x, e') \<Rightarrow> (if x = CTAP2_ERR_NO_CREDENTIALS then Good None else Bad x, e')
   | (Crash, e') \<Rightarrow> (Crash, e'))"

text \<open>The loop of \<open>store_credential\<close>: which keys are in use, and the key of the credential to replace.\<close>

definition note_credential :: "nat \<Rightarrow> credential \<Rightarrow> nat \<Rightarrow> credential \<Rightarrow> bool list \<times> nat option \<Rightarrow> (bool list \<times> nat option) parsed" where
  "note_credential max_keys new_credential k c = (\<lambda>(keys, old_key).
     if k < fst CREDENTIALS \<or> k - fst CREDENTIALS \<ge> max_keys \<or> keys ! (k - fst CREDENTIALS)
     then Inl CTAP2_ERR_VENDOR_INTERNAL_ERROR
     else let keys = keys[k - fst CREDENTIALS := True] in
       if cr_rp_id c = cr_rp_id new_credential \<and> cr_user_handle c = cr_user_handle new_credential
       then if old_key \<noteq> None then Inl CTAP2_ERR_VENDOR_INTERNAL_ERROR else Inr (keys, Some k)
       else Inr (keys, old_key))"

definition first_free_key :: "nat \<Rightarrow> bool list \<Rightarrow> nat option" where
  "first_free_key max_keys keys = List.find (\<lambda>k. \<not> keys ! (k - fst CREDENTIALS))
     (take max_keys [fst CREDENTIALS ..< snd CREDENTIALS])"

definition store_credential :: "credential \<Rightarrow> unit env_op" where
  "store_credential new_credential = attempt (inspect (\<lambda>e. max_supported_resident_keys (custom e))) (\<lambda>max_keys.
     attempt (iter_credentials (note_credential max_keys new_credential) (replicate max_keys False, None)) (\<lambda>(keys, old_key).
     if old_key = None \<and> length (filter id keys) \<ge> max_keys then refuse CTAP2_ERR_KEY_STORE_FULL
     else attempt (case old_key of
         None \<Rightarrow> ok_or CTAP2_ERR_VENDOR_INTERNAL_ERROR (first_free_key max_keys keys)
       | Some k \<Rightarrow> give k) (\<lambda>k.
     attempt (checked (serialize_credential new_credential)) (\<lambda>value. insert_at k value))))"

definition delete_credential :: "bytes \<Rightarrow> unit env_op" where
  "delete_credential cred_id = attempt (find_credential_item cred_id) (\<lambda>(k, _). remove_at k)"

record user_entity =
  user_id :: bytes
  user_name :: "string option"
  user_display_name :: "string option"
  user_icon :: "string option"

definition update_credential :: "bytes \<Rightarrow> user_entity \<Rightarrow> unit env_op" where
  "update_credential cred_id user = attempt (find_credential_item cred_id) (\<lambda>(k, c).
     attempt (checked (serialize_credential (c\<lparr>cr_user_name := user_name user,
       cr_user_display_name := user_display_name user, cr_user_icon := user_icon user\<rparr>))) (\<lambda>value. insert_at k value))"

definition count_credentials :: "nat env_op" where
  "count_credentials = attempt (stored store_iter) (\<lambda>ks. give (length (filter is_credential_key ks)))"

definition remaining_credentials :: "nat env_op" where
  "remaining_credentials = attempt (inspect (\<lambda>e. max_supported_resident_keys (custom e))) (\<lambda>max_keys.
     attempt count_credentials (\<lambda>n. if n > max_keys then refuse CTAP2_ERR_VENDOR_INTERNAL_ERROR else give (max_keys - n)))"

definition new_creation_order :: "u64 env_op" where
  "new_creation_order = attempt (iter_credentials (\<lambda>k c m. Inr (max m (cr_order c))) 0) (\<lambda>m. give (m + 1))"

section \<open>Attestation\<close>

datatype attestation_id = Batch | Enterprise

record attestation =
  att_private_key :: bytes
  att_certificate :: bytes

definition PRIVATE_KEY_STORAGE_KEY :: nat where "PRIVATE_KEY_STORAGE_KEY = 1"
definition CERTIFICATE_STORAGE_KEY :: nat where "CERTIFICATE_STORAGE_KEY = 2"

text \<open>Store errors become errors of the attestation store, and those become status codes.\<close>

definition attested :: "'a store_op \<Rightarrow> 'a env_op" where
  "attested f = (\<lambda>e. case f e of
     (Inl StorageError, e') \<Rightarrow> (Bad CTAP2_ERR_VENDOR_HARDWARE_FAILURE, e')
   | (Inl _, e') \<Rightarrow> (Bad CTAP2_ERR_VENDOR_INTERNAL_ERROR, e')
   | (Inr y, e') \<Rightarrow> (Good y, e'))"

definition attestation_helper_get :: "attestation option env_op" where
  "attestation_helper_get = attempt (attested (store_find PRIVATE_KEY_STORAGE_KEY)) (\<lambda>private_key.
     attempt (attested (store_find CERTIFICATE_STORAGE_KEY)) (\<lambda>certificate.
     case (private_key, certificate) of
       (Some x, Some y) \<Rightarrow> if length x \<noteq> 32 then refuse CTAP2_ERR_VENDOR_INTERNAL_ERROR
         else give (Some \<lparr>att_private_key = x, att_certificate = y\<rparr>)
     | (None, None) \<Rightarrow> give None
     | _ \<Rightarrow> refuse CTAP2_ERR_VENDOR_INTERNAL_ERROR))"

definition attestation_helper_set :: "attestation option \<Rightarrow> unit env_op" where
  "attestation_helper_set a = attested (transaction (case a of
     None \<Rightarrow> [Remove PRIVATE_KEY_STORAGE_KEY, Remove CERTIFICATE_STORAGE_KEY]
   | Some x \<Rightarrow> [Insert PRIVATE_KEY_STORAGE_KEY (att_private_key x), Insert CERTIFICATE_STORAGE_KEY (att_certificate x)]))"

definition attestation_get :: "attestation_id \<Rightarrow> attestation option env_op" where
  "attestation_get i = (if i \<noteq> Batch then refuse CTAP2_ERR_VENDOR_INTERNAL_ERROR else attestation_helper_get)"

definition attestation_set :: "attestation_id \<Rightarrow> attestation option \<Rightarrow> unit env_op" where
  "attestation_set i a = (if i \<noteq> Batch then refuse CTAP2_ERR_VENDOR_INTERNAL_ERROR else attestation_helper_set a)"

definition enable_enterprise_attestation :: "unit env_op" where
  "enable_enterprise_attestation = attempt (attestation_get Enterprise) (\<lambda>a.
     if a = None then refuse CTAP2_ERR_VENDOR_INTERNAL_ERROR
     else attempt enterprise_attestation (\<lambda>on. if on then give () else insert_at ENTERPRISE_ATTESTATION []))"

section \<open>Fields that are read back\<close>

lemma cose_int_simps [simp]: "cose_int (- 7) = Negative (- 7)" "cose_int (- 8) = Negative (- 8)"
  "cose_int 1 = Unsigned 1" "cose_int 2 = Unsigned 2" "cose_int 3 = Unsigned 3"
  by (simp_all add: cose_int_def cbor_integer_def)

lemma policy_read [simp]: "policy_of_cbor (cbor_of_policy p) = Inr p"
  by (cases p) (simp_all add: policy_of_cbor_def cbor_of_policy_def policy_code_def extract_integer_def bind_parsed_def)

lemma policy_leaf [simp]: "leaf (cbor_of_policy p)" "writable (cbor_of_policy p)"
  by (cases p; simp add: cbor_of_policy_def policy_code_def)+

lemma private_key_read: "length (key_bytes k) = 32 \<Longrightarrow> private_key_of_cbor (cbor_of_private_key k) = Inr k"
  by (cases k) (simp_all add: private_key_of_cbor_def cbor_of_private_key_def extract_array_def extract_byte_string_def
      algorithm_of_cbor_def algorithm_of_code_def extract_integer_def bind_parsed_def ES256_ALGORITHM_def EDDSA_ALGORITHM_def
      new_ecdsa_from_bytes_def new_ed25519_from_bytes_def ok_or_else_def)

lemma private_key_fits: "0 < n \<Longrightarrow> fits n (cbor_of_private_key k)"
  by (cases n; cases k) (simp_all add: cbor_of_private_key_def ES256_ALGORITHM_def EDDSA_ALGORITHM_def)

lemma private_key_writable: "length (key_bytes k) = 32 \<Longrightarrow> writable (cbor_of_private_key k)"
  by (cases k) (simp_all add: cbor_of_private_key_def ES256_ALGORITHM_def EDDSA_ALGORITHM_def)

lemma optional_simps [simp]:
  "optional f None = Inr None" "optional f (Some x) = (case f x of Inl c \<Rightarrow> Inl c | Inr y \<Rightarrow> Inr (Some y))"
  by (simp_all add: optional_def)

lemma optional_field [simp]:
  "optional extract_text_string (map_option TextString x) = Inr x"
  "optional extract_byte_string (map_option ByteString y) = Inr y"
  "optional policy_of_cbor (map_option cbor_of_policy z) = Inr z"
  by (cases x; cases y; cases z; simp add: optional_def extract_text_string_def extract_byte_string_def)+

end
