(* ===== verification/Ctap_Accounts.thy ===== *)
theory Ctap_Accounts
  imports Ctap_Credentials
begin

text \<open>
  What the stored credentials of the security key promise: the record of a credential survives its CBOR form, and the
  operations of \<open>src/ctap/storage.rs\<close> keep a map from accounts (relying party and user handle) to credentials.
\<close>

section \<open>The record of a credential\<close>

text \<open>Strings and byte strings are those that fit the memory of the device.\<close>

definition storable :: "credential \<Rightarrow> bool" where
  "storable c \<longleftrightarrow> cr_type c = PublicKey \<and> length (key_bytes (cr_key c)) = 32
     \<and> (let short = (\<lambda>b :: bytes. length b < 2 ^ 32); fine = (\<lambda>t :: string. length t < 2 ^ 32 \<and> utf8_ok t) in
       short (cr_id c) \<and> short (cr_user_handle c) \<and> pred_option short (cr_blob c) \<and> pred_option short (cr_large_blob_key c)
       \<and> fine (cr_rp_id c) \<and> pred_option fine (cr_user_display_name c) \<and> pred_option fine (cr_user_name c)
       \<and> pred_option fine (cr_user_icon c))"

lemma credential_fits: "fits 4 (cbor_of_credential c)"
  unfolding cbor_of_credential_def numeral_eq_Suc
  by (rule options_fit) (simp_all add: option.pred_map comp_def private_key_fits fits_leaf option.pred_True)

lemma credential_writable: "storable c \<Longrightarrow> writable (cbor_of_credential c)"
  unfolding cbor_of_credential_def
  by (rule options_writable)
    (simp_all add: storable_def Let_def option.pred_map comp_def private_key_writable option.pred_True)

lemma credential_read: "storable c \<Longrightarrow> credential_of_cbor (cbor_of_credential c) = Inr c"
  unfolding credential_of_cbor_def cbor_of_credential_def options_present extract_map_def
  by (cases c) (simp add: destructure_present bind_parsed_def required_def extract_byte_string_def extract_text_string_def
      extract_unsigned_def stored_private_key_def private_key_read storable_def Let_def
      del: destructure.simps)

lemma credential_record_round_trip:
  assumes "storable c"
  obtains bs where "serialize_credential c = Inr bs" and "deserialize_credential bs = Some c"
  using written_and_read [OF credential_fits credential_writable [OF assms]] credential_read [OF assms]
  by (auto simp: serialize_credential_def deserialize_credential_def bind_parsed_def)

section \<open>The credentials of a store\<close>

definition credentials_of :: "ctap_env \<Rightarrow> (nat \<times> credential) list" where
  "credentials_of e = map (\<lambda>(k, v). (k, the (deserialize_credential v))) (filter (is_credential_key \<circ> fst) (dict_of e))"

type_synonym account = "string \<times> bytes"

definition account_of :: "credential \<Rightarrow> account" where
  "account_of c = (cr_rp_id c, cr_user_handle c)"

definition accounts :: "ctap_env \<Rightarrow> account \<rightharpoonup> credential" where
  "accounts e = map_of (map (\<lambda>(k, c). (account_of c, c)) (credentials_of e))"

text \<open>A sound store, when no request fails: it is listed, the keys of its credentials are those the limit allows, every
  record can be read, and there is one for an account.\<close>

definition credentials_ok :: "ctap_env \<Rightarrow> bool" where
  "credentials_ok e \<longleftrightarrow> failing e = [] \<and> well_listed e \<and> listed e \<noteq> None \<and> max_supported_resident_keys (custom e) \<le> 300
     \<and> (\<forall>(k, v) \<in> set (dict_of e). is_credential_key k \<longrightarrow> deserialize_credential v \<noteq> None
          \<and> k < 1700 + max_supported_resident_keys (custom e))
     \<and> distinct (map (account_of \<circ> snd) (credentials_of e))"

fun fold_parsed :: "(nat \<Rightarrow> credential \<Rightarrow> 'a \<Rightarrow> 'a parsed) \<Rightarrow> (nat \<times> credential) list \<Rightarrow> 'a \<Rightarrow> 'a parsed" where
  "fold_parsed f [] acc = Inr acc"
| "fold_parsed f ((k, c) # cs) acc = bind_parsed (f k c acc) (fold_parsed f cs)"

definition result_of :: "'a parsed \<Rightarrow> 'a outcome" where
  "result_of x = (case x of Inl c \<Rightarrow> Bad c | Inr y \<Rightarrow> Good y)"

lemma result_of_simps [simp]: "result_of (Inl c) = Bad c" "result_of (Inr y) = Good y"
  by (simp_all add: result_of_def)

lemma fold_run:
  assumes "failing e = []" and "distinct (map fst d)" and "\<forall>(k, v) \<in> set d. held e k = Some v"
    and "\<forall>(k, v) \<in> set d. is_credential_key k \<longrightarrow> deserialize_credential v \<noteq> None"
  shows "fold_credentials f (map fst d) acc e = (result_of (fold_parsed f
    (map (\<lambda>(k, v). (k, the (deserialize_credential v))) (filter (is_credential_key \<circ> fst) d)) acc), e)"
  using assms(2-)
proof (induction d arbitrary: acc)
  case (Cons p d)
  obtain k v where p: "p = (k, v)" by (cases p)
  have "read_credential k e = (Good (the (deserialize_credential v)), e)" if "is_credential_key k"
    using Cons.prems that assms(1) by (auto simp: p read_credential_def internal_def attempt_def stored_def faultless steps)
  then show ?case
    using Cons by (auto simp: p attempt_def checked_def steps bind_parsed_def split: sum.split)
qed (simp add: steps)

lemma iter_run:
  assumes "credentials_ok e"
  shows "iter_credentials f acc e = (result_of (fold_parsed f (credentials_of e) acc), e)"
proof -
  obtain d where d: "opensk e = Some d" "listed e = Some (map fst d)" "distinct (map fst d)" "dict_of e = d"
    using assms by (auto simp: credentials_ok_def well_listed_def dict_of_def split: option.splits)
  have "\<forall>(k, v) \<in> set d. held e k = Some v" using d by (auto simp: held_def)
  moreover have "\<forall>(k, v) \<in> set d. is_credential_key k \<longrightarrow> deserialize_credential v \<noteq> None"
    using assms d(4) by (auto simp: credentials_ok_def)
  moreover have "failing e = []" using assms by (simp add: credentials_ok_def)
  ultimately have "fold_credentials f (map fst d) acc e = (result_of (fold_parsed f (credentials_of e) acc), e)"
    using fold_run [of e d f acc] d by (simp add: credentials_of_def)
  then show ?thesis using d by (simp add: iter_credentials_def attempt_def stored_def store_iter_def)
qed

lemma credential_keys: "map fst (credentials_of e) = filter is_credential_key (map fst (dict_of e))"
  by (simp add: credentials_of_def filter_map comp_def case_prod_beta)

lemma credentials_of_put:
  assumes "is_credential_key k" and "deserialize_credential v = Some c"
  shows "credentials_of (put k v e) = filter (\<lambda>(j, _). j \<noteq> k) (credentials_of e) @ [(k, c)]"
proof -
  have "dict_of (put k v e) = AList.delete k (dict_of e) @ [(k, v)]" by (simp add: put_def dict_of_def Let_def)
  moreover have "filter P (AList.delete k d) = filter (\<lambda>p. fst p \<noteq> k) (filter P d)" for P and d :: "(nat \<times> bytes) list"
    by (auto simp: AList.delete_eq case_prod_beta intro: filter_cong)
  ultimately show ?thesis
    using assms by (simp add: credentials_of_def filter_map comp_def case_prod_beta)
qed

lemma key_numbers_small: "is_credential_key k \<longleftrightarrow> 1700 \<le> k \<and> k < 2000"
  by (simp add: is_credential_key_def CREDENTIALS_def)

lemma credentials_ok_facts:
  assumes "credentials_ok e"
  shows "failing e = []" "well_listed e" "distinct (map fst (credentials_of e))" "distinct (map (account_of \<circ> snd) (credentials_of e))"
    and "\<forall>(k, c) \<in> set (credentials_of e). 1700 \<le> k \<and> k < 1700 + max_supported_resident_keys (custom e) \<and> is_credential_key k"
proof -
  have w: "distinct (map fst (dict_of e))" using assms by (simp add: credentials_ok_def well_listed_def)
  then show "distinct (map fst (credentials_of e))" unfolding credential_keys by (rule distinct_filter)
  show "failing e = []" "well_listed e" "distinct (map (account_of \<circ> snd) (credentials_of e))"
    using assms by (simp_all add: credentials_ok_def)
  show "\<forall>(k, c) \<in> set (credentials_of e). 1700 \<le> k \<and> k < 1700 + max_supported_resident_keys (custom e) \<and> is_credential_key k"
    using assms by (auto simp: credentials_ok_def credentials_of_def key_numbers_small)
qed

definition by_account :: "(nat \<times> credential) list \<Rightarrow> account \<rightharpoonup> credential" where
  "by_account cs = map_of (map (\<lambda>(k, c). (account_of c, c)) cs)"

lemma accounts_eq: "accounts e = by_account (credentials_of e)"
  by (simp add: accounts_def by_account_def)

lemma by_account_Cons [simp]: "by_account ((k, c) # cs) = (by_account cs)(account_of c \<mapsto> c)"
  by (simp add: by_account_def)

lemma by_account_absent: "by_account cs a = None \<longleftrightarrow> a \<notin> set (map (account_of \<circ> snd) cs)"
  by (force simp: by_account_def map_of_eq_None_iff image_iff)

lemma dom_by_account: "dom (by_account cs) = set (map (account_of \<circ> snd) cs)"
  by (simp add: dom_def by_account_absent del: not_None_eq)

lemma by_account_without:
  assumes "distinct (map fst cs)" and "distinct (map (account_of \<circ> snd) cs)" and "(k, c) \<in> set cs"
  shows "by_account (filter (\<lambda>(j, _). j \<noteq> k) cs) = (by_account cs)(account_of c := None)"
  using assms
proof (induction cs)
  case (Cons p cs)
  obtain k' c' where p: "p = (k', c')" by (cases p)
  show ?case
  proof (cases "k' = k")
    case True
    have "filter (\<lambda>(j, _). j \<noteq> k) cs = cs" using Cons.prems(1) True by (intro filter_True) (auto simp: p image_iff)
    moreover have "c = c'" using Cons.prems True by (force simp: p image_iff)
    moreover have "by_account cs (account_of c') = None" using Cons.prems(2) by (auto simp: p by_account_absent)
    ultimately show ?thesis using True by (simp add: p fun_eq_iff)
  next
    case False
    then have "(k, c) \<in> set cs" using Cons.prems(3) by (auto simp: p)
    moreover from this have "account_of c \<noteq> account_of c'" using Cons.prems(2) by (force simp: p)
    moreover have "by_account (filter (\<lambda>(j, _). j \<noteq> k) cs) = (by_account cs)(account_of c := None)"
      using Cons calculation by (simp add: p fun_upd_def)
    ultimately show ?thesis using False by (intro ext) (simp add: p)
  qed
qed simp

lemma by_account_snoc:
  "account_of c \<notin> set (map (account_of \<circ> snd) cs) \<Longrightarrow> by_account (cs @ [(k, c)]) = (by_account cs)(account_of c \<mapsto> c)"
  using by_account_absent [of cs "account_of c"] by (auto simp: by_account_def map_add_def fun_eq_iff split: option.splits)

lemma only_owner:
  "distinct (map (account_of \<circ> snd) cs) \<Longrightarrow> (k, c) \<in> set cs \<Longrightarrow> account_of c \<notin> account_of ` snd ` {q \<in> set cs. fst q \<noteq> k}"
  by (force simp: distinct_map inj_on_def)

section \<open>Storing a credential\<close>

definition marks :: "(nat \<times> credential) list \<Rightarrow> bool list \<Rightarrow> bool list" where
  "marks cs keys = foldl (\<lambda>keys (k, _). keys[k - 1700 := True]) keys cs"

lemma marks_Nil [simp]: "marks [] keys = keys"
  by (simp add: marks_def)

lemma marks_Cons [simp]: "marks ((k, c) # cs) keys = marks cs (keys[k - 1700 := True])"
  by (simp add: marks_def)

lemma length_marks [simp]: "length (marks cs keys) = length keys"
  by (induction cs arbitrary: keys) (auto simp: split_paired_all)

lemma nth_marks:
  "i < length keys \<Longrightarrow> \<forall>(k, c) \<in> set cs. 1700 \<le> k \<Longrightarrow> marks cs keys ! i \<longleftrightarrow> keys ! i \<or> i + 1700 \<in> fst ` set cs"
proof (induction cs arbitrary: keys)
  case (Cons p cs)
  obtain k c where p: "p = (k, c)" by (cases p)
  have "keys[k - 1700 := True] ! i \<longleftrightarrow> keys ! i \<or> i + 1700 = k"
    using Cons.prems by (cases "i = k - 1700") (auto simp: p)
  then show ?case using Cons by (auto simp: p)
qed simp

lemma note_fold:
  assumes "distinct (map fst cs)" and "distinct (map (account_of \<circ> snd) cs)" and "length keys = n"
    and "\<forall>(k, c) \<in> set cs. 1700 \<le> k \<and> k < 1700 + n \<and> \<not> keys ! (k - 1700)"
    and "old_key \<noteq> None \<longrightarrow> account_of new \<notin> set (map (account_of \<circ> snd) cs)"
  shows "fold_parsed (note_credential n new) cs (keys, old_key) =
    Inr (marks cs keys, case List.find (\<lambda>(_, c). account_of c = account_of new) cs of None \<Rightarrow> old_key | Some (k, _) \<Rightarrow> Some k)"
  using assms
proof (induction cs arbitrary: keys old_key)
  case (Cons p cs)
  obtain k c where p: "p = (k, c)" by (cases p)
  let ?keys = "keys[k - 1700 := True]"
  let ?old = "if account_of c = account_of new then Some k else old_key"
  have b: "1700 \<le> k" "k < 1700 + n" "\<not> keys ! (k - 1700)" using Cons.prems(4) by (auto simp: p)
  have step: "note_credential n new k c (keys, old_key) = Inr (?keys, ?old)"
    using b Cons.prems(5) by (auto simp: p note_credential_def CREDENTIALS_def account_of_def Let_def)
  have "k' \<noteq> k" if "(k', c') \<in> set cs" for k' c' using Cons.prems(1) that by (force simp: p)
  then have free: "\<forall>(k', c') \<in> set cs. 1700 \<le> k' \<and> k' < 1700 + n \<and> \<not> ?keys ! (k' - 1700)"
    using Cons.prems(3,4) b by (fastforce simp: p nth_list_update split: if_splits)
  have one: "?old \<noteq> None \<longrightarrow> account_of new \<notin> set (map (account_of \<circ> snd) cs)"
    using Cons.prems(2,5) by (force simp: p image_iff)
  have "List.find (\<lambda>(_, c). account_of c = account_of new) cs = None" if "account_of c = account_of new"
    using one that by (force simp: find_None_iff)
  then show ?case
    using Cons.IH [of ?keys ?old] Cons.prems free one step by (auto simp: p bind_parsed_def)
qed simp

lemma marks_count:
  assumes "distinct (map fst cs)" and "\<forall>(k, c) \<in> set cs. 1700 \<le> k \<and> k < 1700 + n"
  shows "length (filter id (marks cs (replicate n False))) = length cs"
proof -
  have "{i. i < n \<and> marks cs (replicate n False) ! i} = (\<lambda>k. k - 1700) ` fst ` set cs"
  proof (rule set_eqI)
    fix i
    have "\<forall>(k, c) \<in> set cs. 1700 \<le> k" using assms(2) by auto
    then have "i \<in> {i. i < n \<and> marks cs (replicate n False) ! i} \<longleftrightarrow> i < n \<and> i + 1700 \<in> fst ` set cs"
      using nth_marks [of i "replicate n False" cs] by auto
    also have "\<dots> \<longleftrightarrow> (\<exists>k \<in> fst ` set cs. i = k - 1700)"
    proof
      assume "i < n \<and> i + 1700 \<in> fst ` set cs"
      then show "\<exists>k \<in> fst ` set cs. i = k - 1700" by (intro bexI [of _ "i + 1700"]) auto
    next
      assume "\<exists>k \<in> fst ` set cs. i = k - 1700"
      then obtain k c where "(k, c) \<in> set cs" "i = k - 1700" by auto
      moreover from this have "1700 \<le> k \<and> k < 1700 + n" using assms(2) by auto
      ultimately show "i < n \<and> i + 1700 \<in> fst ` set cs" by (force simp: image_iff)
    qed
    finally show "i \<in> {i. i < n \<and> marks cs (replicate n False) ! i} \<longleftrightarrow> i \<in> (\<lambda>k. k - 1700) ` fst ` set cs"
      by (auto simp: image_iff)
  qed
  moreover have "inj_on (\<lambda>k. k - 1700) (fst ` set cs)"
    by (rule inj_on_diff_nat) (use assms(2) in auto)
  ultimately have "card {i. i < n \<and> marks cs (replicate n False) ! i} = card (fst ` set cs)" by (simp add: card_image)
  also have "\<dots> = length cs" using distinct_card [OF assms(1)] by simp
  finally show ?thesis by (simp add: length_filter_conv_card)
qed

lemma free_key:
  assumes "distinct (map fst cs)" and "\<forall>(k, c) \<in> set cs. 1700 \<le> k \<and> k < 1700 + n" and "length cs < n" and "n \<le> 300"
  obtains k where "first_free_key n (marks cs (replicate n False)) = Some k" "1700 \<le> k" "k < 1700 + n" "k \<notin> fst ` set cs"
proof -
  have range: "take n [1700 ..< 2000] = [1700 ..< 1700 + n]" using assms(4) by (simp add: take_upt del: upt_rec_numeral)
  have used: "marks cs (replicate n False) ! (k - 1700) \<longleftrightarrow> k \<in> fst ` set cs" if "1700 \<le> k" "k < 1700 + n" for k
  proof -
    have "\<forall>(k, c) \<in> set cs. 1700 \<le> k" using assms(2) by auto
    then show ?thesis using nth_marks [of "k - 1700" "replicate n False" cs] that by auto
  qed
  have "\<not> {1700 ..< 1700 + n} \<subseteq> fst ` set cs"
  proof
    assume "{1700 ..< 1700 + n} \<subseteq> fst ` set cs"
    then have "n \<le> card (fst ` set cs)" using card_mono [of "fst ` set cs" "{1700 ..< 1700 + n}"] by simp
    also have "\<dots> \<le> length cs" using card_length [of "map fst cs"] by simp
    finally show False using assms(3) by simp
  qed
  then have "first_free_key n (marks cs (replicate n False)) \<noteq> None"
    by (auto simp: first_free_key_def CREDENTIALS_def range find_None_iff used simp del: upt_rec_numeral)
  then obtain k where k: "first_free_key n (marks cs (replicate n False)) = Some k" by blast
  then have "1700 \<le> k \<and> k < 1700 + n \<and> \<not> marks cs (replicate n False) ! (k - 1700)"
    by (auto simp: first_free_key_def CREDENTIALS_def range find_Some_iff simp del: upt_rec_numeral)
  with used [of k] k that show ?thesis by blast
qed

lemma put_ok:
  assumes ok: "credentials_ok e" and c: "deserialize_credential v = Some c"
    and k: "1700 \<le> k" "k < 1700 + max_supported_resident_keys (custom e)"
    and fresh: "account_of c \<notin> account_of ` snd ` {p \<in> set (credentials_of e). fst p \<noteq> k}"
  shows "credentials_ok (put k v e)" "accounts (put k v e) = (by_account (filter (\<lambda>(j, _). j \<noteq> k) (credentials_of e)))(account_of c \<mapsto> c)"
proof -
  have key: "is_credential_key k" using ok k by (simp add: key_numbers_small credentials_ok_def)
  have list: "credentials_of (put k v e) = filter (\<lambda>(j, _). j \<noteq> k) (credentials_of e) @ [(k, c)]"
    by (rule credentials_of_put [OF key c])
  have fresh': "account_of c \<notin> set (map (account_of \<circ> snd) (filter (\<lambda>(j, _). j \<noteq> k) (credentials_of e)))"
    using fresh by force
  show "accounts (put k v e) = (by_account (filter (\<lambda>(j, _). j \<noteq> k) (credentials_of e)))(account_of c \<mapsto> c)"
    unfolding accounts_eq list by (rule by_account_snoc [OF fresh'])
  have "dict_of (put k v e) = AList.delete k (dict_of e) @ [(k, v)]" by (simp add: put_def dict_of_def Let_def)
  then have "\<forall>(j, w) \<in> set (dict_of (put k v e)). is_credential_key j \<longrightarrow> deserialize_credential w \<noteq> None
      \<and> j < 1700 + max_supported_resident_keys (custom e)"
    using ok c k by (auto simp: credentials_ok_def AList.delete_eq)
  moreover have "distinct (map (account_of \<circ> snd) (credentials_of (put k v e)))"
    unfolding list using credentials_ok_facts(4) [OF ok] fresh' by (simp add: distinct_map_filter)
  moreover have "well_listed (put k v e)" using well_listed_update [of e "Insert k v"] credentials_ok_facts(2) [OF ok] by simp
  moreover have "listed (put k v e) \<noteq> None" by (simp add: put_def Let_def)
  ultimately show "credentials_ok (put k v e)" using ok by (simp add: credentials_ok_def)
qed

lemma find_account:
  "List.find (\<lambda>(_, c). account_of c = a) cs = None \<longleftrightarrow> by_account cs a = None"
  "List.find (\<lambda>(_, c). account_of c = a) cs = Some (k, c) \<Longrightarrow> (k, c) \<in> set cs \<and> account_of c = a"
  by (auto simp: find_None_iff by_account_absent image_iff) (auto simp: find_Some_iff intro: nth_mem dest: sym)

lemma card_accounts: "credentials_ok e \<Longrightarrow> card (dom (accounts e)) = length (credentials_of e)"
  using distinct_card [OF credentials_ok_facts(4), of e] by (simp add: accounts_eq dom_by_account)

lemma store_credential_updates:
  assumes ok: "credentials_ok e" and c: "storable c"
  shows "if account_of c \<in> dom (accounts e) \<or> card (dom (accounts e)) < max_supported_resident_keys (custom e)
    then \<exists>e'. store_credential c e = (Good (), e') \<and> credentials_ok e' \<and> custom e' = custom e
      \<and> accounts e' = (accounts e)(account_of c \<mapsto> c) \<and> (\<forall>k. \<not> is_credential_key k \<longrightarrow> held e' k = held e k)
    else store_credential c e = (Bad CTAP2_ERR_KEY_STORE_FULL, e)"
proof -
  let ?n = "max_supported_resident_keys (custom e)"
  let ?cs = "credentials_of e"
  let ?match = "List.find (\<lambda>(_, d). account_of d = account_of c) ?cs"
  obtain bs where bs: "serialize_credential c = Inr bs" "deserialize_credential bs = Some c"
    using credential_record_round_trip [OF c] .
  note facts = credentials_ok_facts [OF ok]
  have n: "?n \<le> 300" using ok by (simp add: credentials_ok_def)
  have range: "\<forall>(k, d) \<in> set ?cs. 1700 \<le> k \<and> k < 1700 + ?n" using facts(5) by auto
  have blank: "\<forall>(k, d) \<in> set ?cs. 1700 \<le> k \<and> k < 1700 + ?n \<and> \<not> replicate ?n False ! (k - 1700)"
    using range by fastforce
  have noted: "iter_credentials (note_credential ?n c) (replicate ?n False, None) e =
      (Good (marks ?cs (replicate ?n False), map_option fst ?match), e)"
    using note_fold [OF facts(3,4) _ blank, of None c] by (auto simp: iter_run [OF ok] split: option.split)
  have count: "length (filter id (marks ?cs (replicate ?n False))) = card (dom (accounts e))"
    using marks_count [OF facts(3) range] card_accounts [OF ok] by simp
  have run: "store_credential c e = (if ?match = None \<and> card (dom (accounts e)) \<ge> ?n then (Bad CTAP2_ERR_KEY_STORE_FULL, e)
    else attempt (case map_option fst ?match of None \<Rightarrow> ok_or CTAP2_ERR_VENDOR_INTERNAL_ERROR
        (first_free_key ?n (marks ?cs (replicate ?n False))) | Some k \<Rightarrow> give k) (\<lambda>k. insert_at k bs) e)"
    using count by (simp add: store_credential_def steps attempt_Good [where f = "iter_credentials (note_credential ?n c) (replicate ?n False, None)", OF noted] bs)
  have put: "insert_at k bs e = (Good (), put k bs e)" for k using facts(1) by (rule insert_run)
  have other: "is_credential_key k \<Longrightarrow> \<forall>j. \<not> is_credential_key j \<longrightarrow> held (put k bs e) j = held e j" for k
    by auto
  show ?thesis
  proof (cases ?match)
    case (Some p)
    obtain k d where p: "p = (k, d)" by (cases p)
    have m: "(k, d) \<in> set ?cs" "account_of d = account_of c" using find_account(2) [of "account_of c" ?cs k d] Some p by auto
    have key: "1700 \<le> k" "k < 1700 + ?n" "is_credential_key k" using facts(5) m(1) by auto
    have old: "by_account (filter (\<lambda>(j, _). j \<noteq> k) ?cs) = (by_account ?cs)(account_of c := None)"
      using by_account_without [OF facts(3,4) m(1)] m(2) by simp
    have "account_of c \<notin> account_of ` snd ` {q \<in> set ?cs. fst q \<noteq> k}"
      using only_owner [OF facts(4) m(1)] m(2) by simp
    from put_ok [OF ok bs(2) key(1,2) this] have "credentials_ok (put k bs e)" "accounts (put k bs e) = (accounts e)(account_of c \<mapsto> c)"
      by (simp_all add: accounts_eq old)
    moreover have "account_of c \<in> dom (accounts e)" using find_account(1) [of "account_of c" ?cs] Some by (auto simp: accounts_eq)
    ultimately show ?thesis using other [OF key(3)] by (simp add: run Some p put steps)
  next
    case None
    then have new: "account_of c \<notin> dom (accounts e)" using find_account(1) [of "account_of c" ?cs] by (auto simp: accounts_eq)
    show ?thesis
    proof (cases "card (dom (accounts e)) < ?n")
      case True
      then have "length ?cs < ?n" using card_accounts [OF ok] by simp
      then obtain k where k: "first_free_key ?n (marks ?cs (replicate ?n False)) = Some k" "1700 \<le> k" "k < 1700 + ?n" "k \<notin> fst ` set ?cs"
        using free_key [OF facts(3) range _ n] by blast
      have all: "filter (\<lambda>(j, _). j \<noteq> k) ?cs = ?cs" using k(4) by (intro filter_True) force
      have "account_of c \<notin> account_of ` snd ` {q \<in> set ?cs. fst q \<noteq> k}"
        using new by (auto simp: accounts_eq dom_by_account)
      from put_ok [OF ok bs(2) k(2,3) this] have "credentials_ok (put k bs e)" "accounts (put k bs e) = (accounts e)(account_of c \<mapsto> c)"
        by (simp_all add: accounts_eq all)
      moreover have "is_credential_key k" using k(2,3) n by (simp add: key_numbers_small)
      ultimately show ?thesis using True new other by (simp add: run None k(1) put steps)
    qed (use new None run in simp)
  qed
qed

section \<open>Finding, deleting and renaming\<close>

text \<open>The accounts whose credential has an identifier; the code makes sure that it acts on one only.\<close>

definition owners :: "(account \<rightharpoonup> credential) \<Rightarrow> bytes \<Rightarrow> account set" where
  "owners m i = {a. \<exists>c. m a = Some c \<and> cr_id c = i}"

definition with_id :: "bytes \<Rightarrow> (nat \<times> credential) list \<Rightarrow> (nat \<times> credential) list" where
  "with_id i cs = filter (\<lambda>(_, c). cr_id c = i) cs"

lemma collect_run:
  "fold_parsed (\<lambda>k c found. Inr (if cr_id c = i then found @ [(k, c)] else found)) cs found = Inr (found @ with_id i cs)"
  by (induction cs arbitrary: found) (auto simp: bind_parsed_def with_id_def)

lemma find_item_run:
  assumes "credentials_ok e"
  shows "find_credential_item i e = (case with_id i (credentials_of e) of
     [] \<Rightarrow> Bad CTAP2_ERR_NO_CREDENTIALS | [x] \<Rightarrow> Good x | _ \<Rightarrow> Bad CTAP2_ERR_VENDOR_INTERNAL_ERROR, e)"
  using collect_run [of i "credentials_of e" "[]"]
  by (auto simp: find_credential_item_def attempt_def iter_run [OF assms] steps split: list.split)

lemma by_account_Some:
  "distinct (map (account_of \<circ> snd) cs) \<Longrightarrow> by_account cs a = Some c \<longleftrightarrow> (\<exists>k. (k, c) \<in> set cs \<and> account_of c = a)"
proof (induction cs)
  case (Cons p cs)
  then show ?case by (cases p) (force simp: by_account_absent)
qed (simp add: by_account_def)

lemma owners_by_id:
  assumes "distinct (map (account_of \<circ> snd) cs)"
  shows "owners (by_account cs) i = set (map (account_of \<circ> snd) (with_id i cs))"
  unfolding owners_def by_account_Some [OF assms] with_id_def by (auto simp: image_iff Bex_def) metis

lemma card_owners:
  assumes "distinct (map (account_of \<circ> snd) cs)"
  shows "card (owners (by_account cs) i) = length (with_id i cs)"
proof -
  have "distinct (map (account_of \<circ> snd) (with_id i cs))" using assms by (simp add: with_id_def distinct_map_filter)
  from distinct_card [OF this] show ?thesis by (simp add: owners_by_id [OF assms])
qed

text \<open>What an operation on an identifier does when there is no owner, one, or several.\<close>

definition for_owner :: "(account \<rightharpoonup> credential) \<Rightarrow> bytes \<Rightarrow> bool \<Rightarrow> bool \<Rightarrow> (account \<Rightarrow> credential \<Rightarrow> bool) \<Rightarrow> bool" where
  "for_owner m i none several one \<longleftrightarrow> (if owners m i = {} then none else if card (owners m i) \<noteq> 1 then several
     else \<exists>a c. owners m i = {a} \<and> m a = Some c \<and> one a c)"

lemma for_ownerI:
  assumes ok: "credentials_ok e"
    and "with_id i (credentials_of e) = [] \<Longrightarrow> none"
    and "\<And>x y zs. with_id i (credentials_of e) = x # y # zs \<Longrightarrow> several"
    and "\<And>k c. with_id i (credentials_of e) = [(k, c)] \<Longrightarrow> (k, c) \<in> set (credentials_of e) \<Longrightarrow> one (account_of c) c"
  shows "for_owner (accounts e) i none several one"
proof -
  let ?cs = "credentials_of e"
  note d = credentials_ok_facts(4) [OF ok]
  have o: "owners (accounts e) i = set (map (account_of \<circ> snd) (with_id i ?cs))" "card (owners (accounts e) i) = length (with_id i ?cs)"
    using owners_by_id [OF d] card_owners [OF d] by (simp_all add: accounts_eq)
  consider "with_id i ?cs = []" | k c where "with_id i ?cs = [(k, c)]" | x y zs where "with_id i ?cs = x # y # zs"
    by (metis list.exhaust surj_pair)
  then show ?thesis
  proof cases
    case (2 k c)
    then have m: "(k, c) \<in> set ?cs" "cr_id c = i" by (auto simp: with_id_def filter_eq_Cons_iff)
    then have "accounts e (account_of c) = Some c" using by_account_Some [OF d] by (auto simp: accounts_eq)
    with 2 m(1) assms(4) o show ?thesis by (auto simp: for_owner_def)
  qed (use assms o in \<open>auto simp: for_owner_def\<close>)
qed

lemma without_ok:
  assumes ok: "credentials_ok e" and m: "(k, c) \<in> set (credentials_of e)"
  shows "credentials_ok (without k e)" "accounts (without k e) = (accounts e)(account_of c := None)"
proof -
  obtain d where d: "opensk e = Some d" using ok by (cases "opensk e") (auto simp: credentials_ok_def well_listed_def)
  have dict: "dict_of (without k e) = AList.delete k (dict_of e)" by (simp add: without_def dict_of_def d)
  have list: "credentials_of (without k e) = filter (\<lambda>(j, _). j \<noteq> k) (credentials_of e)"
    by (auto simp: credentials_of_def dict AList.delete_eq filter_map comp_def case_prod_beta intro: arg_cong [of _ _ "map _"] filter_cong)
  note facts = credentials_ok_facts [OF ok]
  show "accounts (without k e) = (accounts e)(account_of c := None)"
    unfolding accounts_eq list by (rule by_account_without [OF facts(3,4) m])
  have "well_listed (without k e)" using well_listed_update [of e "Remove k"] facts(2) by simp
  moreover have "listed (without k e) \<noteq> None" by (simp add: without_def d)
  moreover have "distinct (map (account_of \<circ> snd) (credentials_of (without k e)))"
    unfolding list using facts(4) by (simp add: distinct_map_filter)
  ultimately show "credentials_ok (without k e)" using ok by (auto simp: credentials_ok_def dict AList.delete_eq)
qed

lemma delete_credential_updates:
  assumes ok: "credentials_ok e"
  shows "for_owner (accounts e) i (delete_credential i e = (Bad CTAP2_ERR_NO_CREDENTIALS, e))
    (delete_credential i e = (Bad CTAP2_ERR_VENDOR_INTERNAL_ERROR, e))
    (\<lambda>a c. \<exists>e'. delete_credential i e = (Good (), e') \<and> credentials_ok e' \<and> custom e' = custom e
      \<and> accounts e' = (accounts e)(a := None) \<and> (\<forall>k. \<not> is_credential_key k \<longrightarrow> held e' k = held e k))"
proof (rule for_ownerI [OF ok])
  fix k c
  assume one: "with_id i (credentials_of e) = [(k, c)]" and m: "(k, c) \<in> set (credentials_of e)"
  have "delete_credential i e = (Good (), without k e)"
    using ok by (simp add: delete_credential_def attempt_def find_item_run [OF ok] one steps credentials_ok_def)
  moreover have "is_credential_key k" using credentials_ok_facts(5) [OF ok] m by auto
  ultimately show "\<exists>e'. delete_credential i e = (Good (), e') \<and> credentials_ok e' \<and> custom e' = custom e
      \<and> accounts e' = (accounts e)(account_of c := None) \<and> (\<forall>k. \<not> is_credential_key k \<longrightarrow> held e' k = held e k)"
    using without_ok [OF ok m] by auto
qed (simp_all add: delete_credential_def attempt_def find_item_run [OF ok])

definition renamed :: "user_entity \<Rightarrow> credential \<Rightarrow> credential" where
  "renamed u c = c\<lparr>cr_user_name := user_name u, cr_user_display_name := user_display_name u, cr_user_icon := user_icon u\<rparr>"

lemma account_renamed [simp]: "account_of (renamed u c) = account_of c"
  by (simp add: renamed_def account_of_def)

lemma update_credential_updates:
  assumes ok: "credentials_ok e" and fine: "\<And>a c. accounts e a = Some c \<Longrightarrow> cr_id c = i \<Longrightarrow> storable (renamed u c)"
  shows "for_owner (accounts e) i (update_credential i u e = (Bad CTAP2_ERR_NO_CREDENTIALS, e))
    (update_credential i u e = (Bad CTAP2_ERR_VENDOR_INTERNAL_ERROR, e))
    (\<lambda>a c. \<exists>e'. update_credential i u e = (Good (), e') \<and> credentials_ok e' \<and> custom e' = custom e
      \<and> accounts e' = (accounts e)(a \<mapsto> renamed u c) \<and> (\<forall>k. \<not> is_credential_key k \<longrightarrow> held e' k = held e k))"
proof (rule for_ownerI [OF ok])
  fix k c
  let ?cs = "credentials_of e"
  assume one: "with_id i ?cs = [(k, c)]" and m: "(k, c) \<in> set ?cs"
  note facts = credentials_ok_facts [OF ok]
  have "cr_id c = i" using one by (auto simp: with_id_def filter_eq_Cons_iff)
  moreover have "accounts e (account_of c) = Some c" using by_account_Some [OF facts(4)] m by (auto simp: accounts_eq)
  ultimately obtain bs where bs: "serialize_credential (renamed u c) = Inr bs" "deserialize_credential bs = Some (renamed u c)"
    using credential_record_round_trip [OF fine] by blast
  have run: "update_credential i u e = (Good (), put k bs e)"
    using facts(1) bs(1) by (simp add: update_credential_def attempt_def find_item_run [OF ok] one steps renamed_def)
  have key: "1700 \<le> k" "k < 1700 + max_supported_resident_keys (custom e)" "is_credential_key k" using facts(5) m by auto
  have old: "by_account (filter (\<lambda>(j, _). j \<noteq> k) ?cs) = (by_account ?cs)(account_of c := None)"
    by (rule by_account_without [OF facts(3,4) m])
  have "account_of (renamed u c) \<notin> account_of ` snd ` {q \<in> set ?cs. fst q \<noteq> k}"
    using only_owner [OF facts(4) m] by simp
  from put_ok [OF ok bs(2) key(1,2) this] have "credentials_ok (put k bs e)"
      "accounts (put k bs e) = (accounts e)(account_of c \<mapsto> renamed u c)"
    by (simp_all add: accounts_eq old)
  then show "\<exists>e'. update_credential i u e = (Good (), e') \<and> credentials_ok e' \<and> custom e' = custom e
      \<and> accounts e' = (accounts e)(account_of c \<mapsto> renamed u c) \<and> (\<forall>k. \<not> is_credential_key k \<longrightarrow> held e' k = held e k)"
    using key(3) by (auto simp: run)
qed (simp_all add: update_credential_def attempt_def find_item_run [OF ok])

lemma find_credential_run:
  assumes ok: "credentials_ok e"
  shows "for_owner (accounts e) i (find_credential rp i e = (Good None, e))
    (find_credential rp i e = (Bad CTAP2_ERR_VENDOR_INTERNAL_ERROR, e))
    (\<lambda>a c. find_credential rp i e = (Good (if fst a = rp then Some c else None), e))"
  by (rule for_ownerI [OF ok]) (auto simp: find_credential_def find_item_run [OF ok] account_of_def)

section \<open>The operations as steps of a map\<close>

datatype account_call = Register credential | Unregister bytes | Rename bytes user_entity | Look string bytes

datatype account_reply = Settled | Shown "credential option" | Refused ctap_status

text \<open>What they promise, for at most \<open>n\<close> accounts.\<close>

definition account_step ::
    "nat \<Rightarrow> (account \<rightharpoonup> credential) \<Rightarrow> account_call \<Rightarrow> account_reply \<Rightarrow> (account \<rightharpoonup> credential) \<Rightarrow> bool" where
  "account_step n m call r m' = (case call of
     Register c \<Rightarrow> if account_of c \<in> dom m \<or> card (dom m) < n then r = Settled \<and> m' = m(account_of c \<mapsto> c)
       else r = Refused CTAP2_ERR_KEY_STORE_FULL \<and> m' = m
   | Unregister i \<Rightarrow> for_owner m i (r = Refused CTAP2_ERR_NO_CREDENTIALS \<and> m' = m)
       (r = Refused CTAP2_ERR_VENDOR_INTERNAL_ERROR \<and> m' = m) (\<lambda>a c. r = Settled \<and> m' = m(a := None))
   | Rename i u \<Rightarrow> for_owner m i (r = Refused CTAP2_ERR_NO_CREDENTIALS \<and> m' = m)
       (r = Refused CTAP2_ERR_VENDOR_INTERNAL_ERROR \<and> m' = m) (\<lambda>a c. r = Settled \<and> m' = m(a \<mapsto> renamed u c))
   | Look rp i \<Rightarrow> m' = m \<and> for_owner m i (r = Shown None)
       (r = Refused CTAP2_ERR_VENDOR_INTERNAL_ERROR) (\<lambda>a c. r = Shown (if fst a = rp then Some c else None)))"

fun account_reply_of :: "('a \<Rightarrow> account_reply) \<Rightarrow> 'a outcome \<times> ctap_env \<Rightarrow> account_reply \<times> ctap_env" where
  "account_reply_of f (Good x, e) = (f x, e)"
| "account_reply_of f (Bad c, e) = (Refused c, e)"
| "account_reply_of f (Crash, e) = (Refused CTAP1_ERR_OTHER, e)"

fun serve_account :: "account_call \<Rightarrow> ctap_env \<Rightarrow> account_reply \<times> ctap_env" where
  "serve_account (Register c) e = account_reply_of (\<lambda>_. Settled) (store_credential c e)"
| "serve_account (Unregister i) e = account_reply_of (\<lambda>_. Settled) (delete_credential i e)"
| "serve_account (Rename i u) e = account_reply_of (\<lambda>_. Settled) (update_credential i u e)"
| "serve_account (Look rp i) e = account_reply_of Shown (find_credential rp i e)"

fun call_ok :: "account_call \<Rightarrow> bool" where
  "call_ok (Register c) = storable c"
| "call_ok (Rename i u) = (\<forall>t \<in> set_option (user_name u) \<union> set_option (user_display_name u) \<union> set_option (user_icon u).
     length t < 2 ^ 32 \<and> utf8_ok t)"
| "call_ok _ = True"

fun account_run :: "nat \<Rightarrow> (account \<rightharpoonup> credential) \<Rightarrow> account_call list \<Rightarrow> account_reply list \<Rightarrow> (account \<rightharpoonup> credential) \<Rightarrow> bool" where
  "account_run n m [] rs m' \<longleftrightarrow> rs = [] \<and> m' = m"
| "account_run n m (c # cs) rs m' \<longleftrightarrow> (\<exists>r rs' m1. rs = r # rs' \<and> account_step n m c r m1 \<and> account_run n m1 cs rs' m')"

definition accounts_ok :: "ctap_env \<Rightarrow> bool" where
  "accounts_ok e \<longleftrightarrow> credentials_ok e \<and> (\<forall>c \<in> ran (accounts e). storable c)"

lemma for_owner_mono:
  assumes "for_owner m i none several one" "none \<Longrightarrow> none'" "several \<Longrightarrow> several'"
    "\<And>a c. m a = Some c \<Longrightarrow> cr_id c = i \<Longrightarrow> one a c \<Longrightarrow> one' a c"
  shows "for_owner m i none' several' one'"
proof -
  have "cr_id c = i" if "owners m i = {a}" "m a = Some c" for a c
  proof -
    have "a \<in> owners m i" unfolding that(1) by simp
    with that(2) show ?thesis by (simp add: owners_def)
  qed
  with assms show ?thesis unfolding for_owner_def by (auto split: if_splits)
qed

lemma storable_renamed: "storable c \<Longrightarrow> call_ok (Rename i u) \<Longrightarrow> storable (renamed u c)"
  by (auto simp: storable_def renamed_def Let_def pred_option_def)

lemma ran_update_storable:
  "\<forall>c \<in> ran m. storable c \<Longrightarrow> storable d \<Longrightarrow> \<forall>c \<in> ran (m(a \<mapsto> d)). storable c"
  "\<forall>c \<in> ran m. storable c \<Longrightarrow> \<forall>c \<in> ran (m(a := None)). storable c"
  by (auto simp: ran_def split: if_splits)

lemma account_call_refines:
  assumes ok: "accounts_ok e" and "call_ok call" and "serve_account call e = (r, e')"
  shows "account_step (max_supported_resident_keys (custom e)) (accounts e) call r (accounts e')
    \<and> accounts_ok e' \<and> custom e' = custom e"
proof -
  have c: "credentials_ok e" and st: "\<forall>c \<in> ran (accounts e). storable c" using ok by (simp_all add: accounts_ok_def)
  have upd: "\<And>d a. storable d \<Longrightarrow> \<forall>c \<in> ran ((accounts e)(account_of a \<mapsto> d)). storable c"
      "\<And>d a. storable d \<Longrightarrow> \<forall>c \<in> ran ((accounts e)(a \<mapsto> d)). storable c"
      "\<And>a. \<forall>c \<in> ran ((accounts e)(a := None)). storable c"
    using ran_update_storable [OF st] by blast+
  show ?thesis
  proof (cases call)
    case (Register d)
    then have "storable d" using assms(2) by simp
    from store_credential_updates [OF c this] upd(1) [OF this] ok assms(3) Register show ?thesis
      by (auto simp: account_step_def accounts_ok_def split: if_splits)
  next
    case (Unregister i)
    have "for_owner (accounts e) i (r = Refused CTAP2_ERR_NO_CREDENTIALS \<and> accounts e' = accounts e \<and> accounts_ok e' \<and> custom e' = custom e)
        (r = Refused CTAP2_ERR_VENDOR_INTERNAL_ERROR \<and> accounts e' = accounts e \<and> accounts_ok e' \<and> custom e' = custom e)
        (\<lambda>a c. r = Settled \<and> accounts e' = (accounts e)(a := None) \<and> accounts_ok e' \<and> custom e' = custom e)"
      by (rule for_owner_mono [OF delete_credential_updates [OF c, of i]]) (use assms(3) Unregister ok upd(3) in \<open>auto simp: accounts_ok_def\<close>)
    with Unregister show ?thesis by (auto simp: account_step_def for_owner_def split: if_splits)
  next
    case (Rename i u)
    have ren: "storable (renamed u d)" if "accounts e a = Some d" for a d
      using bspec [OF st ranI [where m = "accounts e" and a = a and b = d, OF that]] assms(2) Rename by (intro storable_renamed) simp_all
    have "for_owner (accounts e) i (r = Refused CTAP2_ERR_NO_CREDENTIALS \<and> accounts e' = accounts e \<and> accounts_ok e' \<and> custom e' = custom e)
        (r = Refused CTAP2_ERR_VENDOR_INTERNAL_ERROR \<and> accounts e' = accounts e \<and> accounts_ok e' \<and> custom e' = custom e)
        (\<lambda>a c. r = Settled \<and> accounts e' = (accounts e)(a \<mapsto> renamed u c) \<and> accounts_ok e' \<and> custom e' = custom e)"
      by (rule for_owner_mono [OF update_credential_updates [OF c ren, of i]])
        (use assms(3) Rename ok upd(2) [OF ren] in \<open>auto simp: accounts_ok_def\<close>)
    with Rename show ?thesis by (auto simp: account_step_def for_owner_def split: if_splits)
  next
    case (Look rp i)
    have "for_owner (accounts e) i (r = Shown None \<and> e' = e) (r = Refused CTAP2_ERR_VENDOR_INTERNAL_ERROR \<and> e' = e)
        (\<lambda>a c. r = Shown (if fst a = rp then Some c else None) \<and> e' = e)"
      by (rule for_owner_mono [OF find_credential_run [OF c, of i rp]]) (use assms(3) Look in auto)
    with Look ok show ?thesis by (auto simp: account_step_def for_owner_def split: if_splits)
  qed
qed

text \<open>C13: On a device without faults, any sequence of storing, deleting, renaming and looking up credentials answers and
  changes the stored credentials the way a map from accounts (relying party and user handle) to credentials does: a
  credential replaces the one of the same account, there are never more than the limit, and an identifier that is not known, or
  not unique, or belongs to another relying party gives nothing.\<close>

theorem accounts_refine_map:
  assumes "accounts_ok e" and "\<forall>c \<in> set calls. call_ok c" and "serve_all serve_account calls e = (rs, e')"
  shows "account_run (max_supported_resident_keys (custom e)) (accounts e) calls rs (accounts e') \<and> accounts_ok e'"
  using assms
proof (induction calls arbitrary: e rs)
  case (Cons c cs)
  obtain r e1 where s: "serve_account c e = (r, e1)" by (cases "serve_account c e")
  obtain rs' where t: "serve_all serve_account cs e1 = (rs', e')" "rs = r # rs'"
    using Cons.prems(3) by (auto simp: s split: prod.splits)
  have "call_ok c" using Cons.prems(2) by simp
  from account_call_refines [OF Cons.prems(1) this s] Cons.IH [of e1 rs'] Cons.prems(2) t show ?case by auto
qed simp

definition sample_credential :: credential where
  "sample_credential = \<lparr>cr_type = PublicKey, cr_id = [1], cr_key = Ecdsa (replicate 32 7), cr_rp_id = ''a.b'', cr_user_handle = [9],
     cr_user_display_name = Some ''Ann'', cr_policy = Some UserVerificationRequired, cr_order = 1, cr_user_name = None,
     cr_user_icon = None, cr_blob = None, cr_large_blob_key = None\<rparr>"

definition listed_env :: ctap_env where
  "listed_env = put AAGUID (replicate 16 0) empty_env"

theorem accounts_refine_map_witness:
  "\<exists>e'. serve_all serve_account [Register sample_credential, Look ''a.b'' [1], Look ''x'' [1], Unregister [2], Unregister [1]] listed_env
     = ([Settled, Shown (Some sample_credential), Shown None, Refused CTAP2_ERR_NO_CREDENTIALS, Settled], e')
     \<and> accounts e' = Map.empty"
proof -
  let ?calls = "[Register sample_credential, Look ''a.b'' [1], Look ''x'' [1], Unregister [2], Unregister [1]]"
  obtain rs e' where run: "serve_all serve_account ?calls listed_env = (rs, e')" by (cases "serve_all serve_account ?calls listed_env")
  have none: "credentials_of listed_env = []"
    by (simp add: credentials_of_def listed_env_def put_def dict_of_def empty_env_def Let_def key_numbers_small AAGUID_def)
  have "accounts_ok listed_env"
    using none by (simp add: accounts_ok_def credentials_ok_def accounts_eq by_account_def)
      (simp add: listed_env_def well_listed_def put_def dict_of_def empty_env_def Let_def key_numbers_small AAGUID_def
        DEFAULT_CUSTOMIZATION_def)
  moreover have "\<forall>c \<in> set ?calls. call_ok c"
    by (simp add: sample_credential_def storable_def Let_def utf8_ok_def utf8_lead_def)
  ultimately have "account_run 150 Map.empty ?calls rs (accounts e')"
    using accounts_refine_map [OF _ _ run] none
    by (simp add: accounts_eq by_account_def listed_env_def empty_env_def DEFAULT_CUSTOMIZATION_def)
  moreover have "owners [a \<mapsto> c] i = (if cr_id c = i then {a} else {})" for a c i
    by (auto simp: owners_def)
  ultimately show ?thesis
    using run by (auto simp: account_step_def for_owner_def account_of_def sample_credential_def)
qed

end
