(* ===== verification/Ctap_Credential_Id.thy ===== *)
theory Ctap_Credential_Id
  imports Ctap_Credentials
begin

text \<open>
  Credential identifiers (\<open>src/ctap/credential_id.rs\<close>): a credential that is not stored on the device travels with the
  relying party, encrypted and authenticated under the master keys.
\<close>

section \<open>Formats\<close>

definition LEGACY_CREDENTIAL_ID_SIZE :: nat where "LEGACY_CREDENTIAL_ID_SIZE = 112"
definition CBOR_CREDENTIAL_ID_SIZE :: nat where "CBOR_CREDENTIAL_ID_SIZE = 241"
definition MIN_CREDENTIAL_ID_SIZE :: nat where "MIN_CREDENTIAL_ID_SIZE = LEGACY_CREDENTIAL_ID_SIZE"
definition MAX_CREDENTIAL_ID_SIZE :: nat where "MAX_CREDENTIAL_ID_SIZE = CBOR_CREDENTIAL_ID_SIZE"
definition CBOR_CREDENTIAL_ID_VERSION :: u8 where "CBOR_CREDENTIAL_ID_VERSION = 0x01"
definition MAX_PADDING_LENGTH :: u8 where "MAX_PADDING_LENGTH = 0xBF"

record credential_source =
  cs_private_key :: private_key
  cs_rp_id_hash :: bytes
  cs_policy :: "cred_protect option"
  cs_blob :: "bytes option"

section \<open>Padding\<close>

text \<open>The length is at most 191 here, so that it fits a byte.\<close>

definition add_padding :: "bytes \<Rightarrow> bytes parsed" where
  "add_padding data =
     (if data = [] \<or> length data > unat MAX_PADDING_LENGTH then Inl CTAP2_ERR_VENDOR_INTERNAL_ERROR
      else let pad_length = MAX_PADDING_LENGTH - (word_of_nat (length data) - 1)
        in Inr (data @ replicate (unat pad_length) pad_length))"

definition remove_padding :: "bytes \<Rightarrow> bytes parsed" where
  "remove_padding data =
     (if length data \<noteq> unat MAX_PADDING_LENGTH + 1 then Inl CTAP2_ERR_VENDOR_INTERNAL_ERROR
      else let pad_length = last data in
        if pad_length = 0 \<or> pad_length > MAX_PADDING_LENGTH then Inl CTAP2_ERR_VENDOR_INTERNAL_ERROR
        else let cut = length data - unat pad_length in
          if \<not> list_all (\<lambda>x. x = pad_length) (drop cut data) then Inl CTAP2_ERR_VENDOR_INTERNAL_ERROR
          else Inr (take cut data))"

section \<open>Decryption\<close>

definition decrypt_legacy_credential_id :: "primitives \<Rightarrow> bytes \<Rightarrow> credential_source option env_op" where
  "decrypt_legacy_credential_id P bs =
     attempt key_handle_encryption (\<lambda>key.
     attempt (aes256_cbc_decrypt P key bs True) (\<lambda>plaintext.
     if length plaintext \<noteq> 64 then give None
     else case new_ecdsa_from_bytes (take 32 plaintext) of
       None \<Rightarrow> give None
     | Some k \<Rightarrow> give (Some \<lparr>cs_private_key = k, cs_rp_id_hash = take 32 (drop 32 plaintext), cs_policy = None, cs_blob = None\<rparr>)))"

definition source_of_cbor :: "cbor \<Rightarrow> credential_source option parsed" where
  "source_of_cbor v = bind_parsed (extract_map v) (\<lambda>m.
     case destructure (map Unsigned [0, 1, 2, 3]) m of
       [Some f_key, Some f_hash, f_policy, f_blob] \<Rightarrow>
         bind_parsed (private_key_of_cbor f_key) (\<lambda>key.
         bind_parsed (extract_byte_string f_hash) (\<lambda>hash.
         if length hash \<noteq> 32 then Inl CTAP2_ERR_VENDOR_INTERNAL_ERROR else
         bind_parsed (optional policy_of_cbor f_policy) (\<lambda>policy.
         bind_parsed (optional extract_byte_string f_blob) (\<lambda>blob.
         Inr (Some \<lparr>cs_private_key = key, cs_rp_id_hash = hash, cs_policy = policy, cs_blob = blob\<rparr>)))))
     | _ \<Rightarrow> Inr None)"

definition decrypt_cbor_credential_id :: "primitives \<Rightarrow> bytes \<Rightarrow> credential_source option env_op" where
  "decrypt_cbor_credential_id P bs =
     attempt key_handle_encryption (\<lambda>key.
     attempt (aes256_cbc_decrypt P key bs True) (\<lambda>plaintext.
     attempt (checked (remove_padding plaintext)) (\<lambda>payload.
     attempt (checked (cbor_read payload)) (\<lambda>v. checked (source_of_cbor v)))))"

definition decrypt_credential_id :: "primitives \<Rightarrow> bytes \<Rightarrow> bytes \<Rightarrow> credential option env_op" where
  "decrypt_credential_id P cred_id rp_id_hash =
     (if length cred_id < MIN_CREDENTIAL_ID_SIZE then give None else
      let hmac_message_size = length cred_id - 32 in
      attempt key_handle_authentication (\<lambda>auth_key.
      if \<not> verify_hmac_256 P auth_key (take hmac_message_size cred_id) (drop hmac_message_size cred_id) then give None else
      attempt (if length cred_id = LEGACY_CREDENTIAL_ID_SIZE
          then decrypt_legacy_credential_id P (take hmac_message_size cred_id)
          else if hd cred_id = CBOR_CREDENTIAL_ID_VERSION then
            if length cred_id \<noteq> CBOR_CREDENTIAL_ID_SIZE then give None
            else decrypt_cbor_credential_id P (drop 1 (take hmac_message_size cred_id))
          else give None) (\<lambda>source. case source of
        None \<Rightarrow> give None
      | Some s \<Rightarrow> if rp_id_hash \<noteq> cs_rp_id_hash s then give None
          else give (Some \<lparr>cr_type = PublicKey, cr_id = cred_id, cr_key = cs_private_key s, cr_rp_id = [], cr_user_handle = [],
            cr_user_display_name = None, cr_policy = cs_policy s, cr_order = 0, cr_user_name = None, cr_user_icon = None,
            cr_blob = cs_blob s, cr_large_blob_key = None\<rparr>))))"

section \<open>Encryption\<close>

definition cbor_of_source :: "private_key \<Rightarrow> bytes \<Rightarrow> cred_protect option \<Rightarrow> bytes option \<Rightarrow> cbor" where
  "cbor_of_source key rp_id_hash policy blob = cbor_map_options
     [(Unsigned 0, Some (cbor_of_private_key key)),
      (Unsigned 1, Some (ByteString rp_id_hash)),
      (Unsigned 2, map_option cbor_of_policy policy),
      (Unsigned 3, map_option ByteString blob)]"

definition encrypt_to_credential_id ::
    "primitives \<Rightarrow> private_key \<Rightarrow> bytes \<Rightarrow> cred_protect option \<Rightarrow> bytes option \<Rightarrow> bytes env_op" where
  "encrypt_to_credential_id P key rp_id_hash policy blob =
     attempt (checked (cbor_write (cbor_of_source key rp_id_hash policy blob))) (\<lambda>payload.
     attempt (checked (add_padding payload)) (\<lambda>payload.
     attempt key_handle_encryption (\<lambda>enc_key.
     attempt (aes256_cbc_encrypt P enc_key payload True) (\<lambda>encrypted_payload.
     let credential_id = CBOR_CREDENTIAL_ID_VERSION # encrypted_payload in
     attempt key_handle_authentication (\<lambda>auth_key.
     give (credential_id @ hmac_256 P auth_key credential_id))))))"

section \<open>Blocks\<close>

lemma concat_chunks: "0 < n \<Longrightarrow> concat (chunks n xs) = xs"
proof (induction n xs rule: chunks.induct)
  case (2 n x xs)
  then show ?case by (cases n) auto
qed simp

lemma chunks_whole: "0 < n \<Longrightarrow> n dvd length xs \<Longrightarrow> \<forall>b \<in> set (chunks n xs). length b = n"
proof (induction n xs rule: chunks.induct)
  case (2 n x xs)
  then obtain m where m: "n = Suc m" using gr0_conv_Suc by blast
  have le: "n \<le> length (x # xs)" using 2(3) by (rule dvd_imp_le) simp
  have "length (drop (n - 1) xs) = length (x # xs) - n" using m by simp
  then have "n dvd length (drop (n - 1) xs)" using dvd_diff_nat [OF 2(3) dvd_refl [of n]] by simp
  note rest = 2(1) [OF 2(2) this]
  have first: "length (take (Suc (n - 1)) (x # xs)) = n" using le unfolding m by simp
  show ?case unfolding chunks.simps list.set ball_simps(7) using first rest by blast
qed simp

lemma chunks_block: "0 < n \<Longrightarrow> length b = n \<Longrightarrow> chunks n (b @ rest) = b # chunks n rest"
  by (cases b; cases n) auto

lemma xor_twice: "length b = length v \<Longrightarrow> xor_block_16 (xor_block_16 b v) v = b"
  by (simp add: xor_block_16_def list_eq_iff_nth_eq xor.assoc)

lemma cbc_blocks:
  assumes "block_cipher P" and "\<forall>b \<in> set bs. length b = 16" and "length iv = 16"
  shows "\<exists>c. cbc_encrypt_blocks (encrypt_block P k) iv bs = Some c \<and> length c = 16 * length bs
    \<and> cbc_decrypt_blocks (decrypt_block P k) iv (chunks 16 c) = Some (concat bs)"
  using assms(2,3)
proof (induction bs arbitrary: iv)
  case (Cons b bs)
  let ?c = "encrypt_block P k (xor_block_16 b iv)"
  have x: "length (xor_block_16 b iv) = 16" using Cons.prems by (simp add: xor_block_16_def)
  then have c: "length ?c = 16" "decrypt_block P k ?c = xor_block_16 b iv"
    using assms(1) by (simp_all add: block_cipher_def)
  obtain r where "cbc_encrypt_blocks (encrypt_block P k) ?c bs = Some r" "length r = 16 * length bs"
      "cbc_decrypt_blocks (decrypt_block P k) ?c (chunks 16 r) = Some (concat bs)"
    using Cons.IH [of ?c] Cons.prems c by auto
  with c Cons.prems show ?case by (simp add: Let_def chunks_block xor_twice)
qed simp

lemma aes_round_trip:
  assumes "block_cipher P" and "16 dvd length m" and "length (entropy e (drawn e)) = 32"
  obtains c where "aes256_cbc_encrypt P k m True e = (Good c, e\<lparr>drawn := Suc (drawn e)\<rparr>)" and "length c = 16 + length m"
    and "\<And>s :: 's. aes256_cbc_decrypt P k c True s = (Good m, s)"
proof -
  let ?iv = "take 16 (entropy e (drawn e))"
  have iv: "length ?iv = 16" using assms(3) by simp
  have w: "\<forall>b \<in> set (chunks 16 m). length b = 16" using chunks_whole [of 16 m] assms(2) by simp
  obtain c where c: "cbc_encrypt P k ?iv m = Some c" "length c = 16 * length (chunks 16 m)"
      "cbc_decrypt P k ?iv c = Some m"
    using cbc_blocks [OF assms(1) w iv, of k] by (auto simp: cbc_encrypt_def cbc_decrypt_def concat_chunks)
  have "length (concat (chunks 16 m)) = 16 * length (chunks 16 m)"
    using w by (induction "chunks 16 m" arbitrary: m) (auto simp: length_concat sum_list_triv comp_def cong: map_cong)
  then have len: "length c = length m" using c(2) by (simp add: concat_chunks)
  show ?thesis
  proof (rule that [of "?iv @ c"])
    show "aes256_cbc_encrypt P k m True e = (Good (?iv @ c), e\<lparr>drawn := Suc (drawn e)\<rparr>)"
      using c(1) assms(2) by (simp add: aes256_cbc_encrypt_def attempt_def gen_uniform_u8x32_def Let_def or_crash_def give_def dvd_eq_mod_eq_0)
    show "length (?iv @ c) = 16 + length m" using iv len by simp
    show "aes256_cbc_decrypt P k (?iv @ c) True s = (Good m, s)" for s :: 's
      using c(3) iv len assms(2) by (auto simp: aes256_cbc_decrypt_def or_crash_def give_def dvd_eq_mod_eq_0)
  qed
qed

section \<open>Padding is undone\<close>

lemma pad_amount:
  assumes "0 < n" and "n \<le> 191"
  shows "unat (MAX_PADDING_LENGTH - (word_of_nat n - 1)) = 192 - n"
proof -
  have w: "(word_of_nat n :: u8) - 1 = word_of_nat (n - 1)" using assms(1) by (simp add: of_nat_diff)
  have u: "unat (word_of_nat (n - 1) :: u8) = n - 1" using assms(2) by (simp add: unat_of_nat)
  have "(word_of_nat (n - 1) :: u8) \<le> 191" using assms(2) u by (simp add: word_le_nat_alt)
  then have "unat (191 - word_of_nat (n - 1) :: u8) = 191 - (n - 1)" using u by (simp add: unat_sub)
  then show ?thesis unfolding w MAX_PADDING_LENGTH_def using assms by simp
qed

lemma padding_undone:
  assumes "d \<noteq> []" and "length d \<le> 191"
  obtains p where "add_padding d = Inr p" and "length p = 192" and "remove_padding p = Inr d"
proof -
  let ?k = "MAX_PADDING_LENGTH - (word_of_nat (length d) - 1)"
  have n: "0 < length d" using assms(1) by simp
  have k: "unat ?k = 192 - length d" using n assms(2) by (rule pad_amount)
  have "192 - length d \<noteq> 0" and "\<not> 192 - length d > 191" using assms(2) n by linarith+
  then have "unat ?k \<noteq> 0" and "\<not> unat ?k > unat MAX_PADDING_LENGTH"
    unfolding k by (simp_all add: MAX_PADDING_LENGTH_def)
  then have pos: "?k \<noteq> 0" "\<not> ?k > MAX_PADDING_LENGTH" unfolding word_less_nat_alt by auto
  have m: "unat MAX_PADDING_LENGTH = 191" by (simp add: MAX_PADDING_LENGTH_def)
  have last: "last (d @ replicate (unat ?k) ?k) = ?k" using k assms by simp
  show ?thesis
  proof (rule that)
    show "add_padding d = Inr (d @ replicate (unat ?k) ?k)" using assms m by (simp add: add_padding_def Let_def)
    show "length (d @ replicate (unat ?k) ?k) = 192" using k assms by simp
    show "remove_padding (d @ replicate (unat ?k) ?k) = Inr d"
      unfolding remove_padding_def Let_def last m using k pos assms by (simp add: list_all_iff)
  qed
qed

section \<open>The size of the contents\<close>

lemma start_size: "length (start_item l sz) =
    (if sz \<le> 23 then 1 else if sz \<le> 0xFF then 2 else if sz \<le> 0xFFFF then 3 else if sz \<le> 0xFFFFFFFF then 5 else 9)"
  by (simp add: start_item_def be_bytes_def Let_def)

lemma start_of_length: "n \<le> 255 \<Longrightarrow> length (start_item l (word_of_nat n)) \<le> 2"
  by (simp add: start_size word_le_nat_alt unat_of_nat)

lemma source_length:
  assumes "cbor_write (cbor_of_source k h p b) = Inr bs" and "length (key_bytes k) = 32" and "length h = 32"
    and "pred_option (\<lambda>x. length x \<le> 64) b"
  shows "bs \<noteq> [] \<and> length bs \<le> 191"
proof -
  let ?fs = "[(Unsigned 0, Some (cbor_of_private_key k)), (Unsigned 1, Some (ByteString h)),
     (Unsigned 2, map_option cbor_of_policy p), (Unsigned 3, map_option ByteString b)]"
  have sorted: "sorted_wrt (<) (map fst (present ?fs))" by (rule sorted_present) simp
  obtain cs where cs: "encode_pairs 3 (present ?fs) = Inr cs"
      "bs = start_item 5 (word_of_nat (length (present ?fs))) @ cs"
    using assms(1) sorted
    by (auto simp: cbor_of_source_def options_present cbor_write_def write_nested_def MAX_CBOR_NESTING_DEPTH_def encode_simps
        sort_strict remdups_adj_strict_id split: sum.splits)
  have "length cs \<le> 180" using cs(1) assms(2-4)
    by (cases k; cases p; cases b; cases "the p")
      (auto simp: present_def encode_simps start_size cbor_of_private_key_def ES256_ALGORITHM_def EDDSA_ALGORITHM_def cose_int_def
        cbor_integer_def cbor_of_policy_def policy_code_def)
  moreover have "length (start_item 5 (word_of_nat (length (present ?fs)))) \<le> 2"
    using length_present [of ?fs] by (intro start_of_length) simp
  ultimately show ?thesis using cs(2) by (auto simp: start_item_def Let_def)
qed

section \<open>The master keys\<close>

text \<open>A device without faults whose generator makes 32 bytes and whose master keys, if it has some already, are whole.\<close>

definition keys_whole :: "ctap_env \<Rightarrow> bool" where
  "keys_whole e \<longleftrightarrow> failing e = [] \<and> (\<forall>n. length (entropy e n) = 32) \<and> (\<forall>v. held e STORAGE_KEY = Some v \<longrightarrow> length v = 64)"

text \<open>The keys do not depend on what else is drawn or stored later.\<close>

lemma master_keys_run:
  assumes "keys_whole e"
  obtains m e' where "get_master_keys e = (Good m, e')" and "keys_whole e'"
    and "\<And>f. failing f = [] \<Longrightarrow> held f STORAGE_KEY = held e' STORAGE_KEY \<Longrightarrow> get_master_keys f = (Good m, f)"
    and "custom e' = custom e" and "\<And>n. n \<noteq> STORAGE_KEY \<Longrightarrow> held e' n = held e n" and "opensk e' \<noteq> None"
proof (cases "held e STORAGE_KEY")
  case None
  let ?m = "entropy e (drawn e) @ entropy e (Suc (drawn e))" and ?e = "e\<lparr>drawn := Suc (Suc (drawn e))\<rparr>"
  have held: "held (put STORAGE_KEY ?m ?e) STORAGE_KEY = Some ?m" by simp
  show thesis
  proof (rule that [of _ "put STORAGE_KEY ?m ?e"])
    show "get_master_keys e = (Good (take 32 ?m, take 32 (drop 32 ?m)), put STORAGE_KEY ?m ?e)"
      using assms None by (simp add: get_master_keys_def internal_def attempt_def steps keys_whole_def gen_uniform_u8x32_def)
    show "keys_whole (put STORAGE_KEY ?m ?e)" using assms by (auto simp: keys_whole_def)
    show "get_master_keys f = (Good (take 32 ?m, take 32 (drop 32 ?m)), f)"
      if "failing f = []" "held f STORAGE_KEY = held (put STORAGE_KEY ?m ?e) STORAGE_KEY" for f
      using that assms by (simp add: get_master_keys_def internal_def attempt_def steps keys_whole_def)
    show "custom (put STORAGE_KEY ?m ?e) = custom e" "opensk (put STORAGE_KEY ?m ?e) \<noteq> None" by (simp_all add: put_def Let_def)
    show "held (put STORAGE_KEY ?m ?e) n = held e n" if "n \<noteq> STORAGE_KEY" for n using that by simp
  qed
next
  case (Some v)
  have "get_master_keys f = (Good (take 32 v, take 32 (drop 32 v)), f)"
    if "failing f = []" "held f STORAGE_KEY = held e STORAGE_KEY" for f
    using that assms Some by (simp add: get_master_keys_def internal_def attempt_def steps keys_whole_def)
  moreover have "opensk e \<noteq> None" using Some by (cases "opensk e") (auto simp: held_def dict_of_def)
  ultimately show thesis using assms by (intro that [of _ e]) (simp_all add: keys_whole_def)
qed

section \<open>Identifiers are opened again\<close>

lemma source_fits: "fits 4 (cbor_of_source k h p b)"
  unfolding cbor_of_source_def numeral_eq_Suc
  by (rule options_fit) (simp_all add: option.pred_map comp_def private_key_fits fits_leaf option.pred_True)

lemma source_writable:
  assumes "length (key_bytes k) = 32" and "length h = 32" and "pred_option (\<lambda>x. length x \<le> 64) b"
  shows "writable (cbor_of_source k h p b)"
  unfolding cbor_of_source_def
  using assms by (intro options_writable)
    (auto simp: option.pred_map comp_def private_key_writable option.pred_True elim: option.pred_mono_strong)

lemma source_read:
  assumes "length (key_bytes k) = 32" and "length h = 32"
  shows "source_of_cbor (cbor_of_source k h p b) = Inr (Some \<lparr>cs_private_key = k, cs_rp_id_hash = h, cs_policy = p, cs_blob = b\<rparr>)"
  unfolding source_of_cbor_def cbor_of_source_def options_present extract_map_def
  using assms by (simp add: destructure_present bind_parsed_def extract_byte_string_def private_key_read del: destructure.simps)

text \<open>What the device holds beside the master keys stays.\<close>

lemma sealed_opens:
  assumes "block_cipher P" and "\<forall>m. length (sha256 P m) = 32" and "keys_whole e"
    and "length (key_bytes k) = 32" and "length h = 32" and "pred_option (\<lambda>x. length x \<le> 64) b"
  obtains i e' where "encrypt_to_credential_id P k h p b e = (Good i, e')" and "length i = 241" and "keys_whole e'"
    and "custom e' = custom e" and "\<And>n. n \<noteq> STORAGE_KEY \<Longrightarrow> held e' n = held e n" and "opensk e' \<noteq> None" 
    and "\<And>h' e''. failing e'' = [] \<Longrightarrow> held e'' STORAGE_KEY = held e' STORAGE_KEY \<Longrightarrow>
      decrypt_credential_id P i h' e'' = (Good (if h' = h then Some \<lparr>cr_type = PublicKey, cr_id = i, cr_key = k,
       cr_rp_id = [], cr_user_handle = [], cr_user_display_name = None, cr_policy = p, cr_order = 0, cr_user_name = None,
       cr_user_icon = None, cr_blob = b, cr_large_blob_key = None\<rparr> else None), e'')"
proof -
  obtain bs where bs: "cbor_write (cbor_of_source k h p b) = Inr bs" "cbor_read bs = Inr (cbor_of_source k h p b)"
    using written_and_read [OF source_fits source_writable [OF assms(4-6)]] by blast
  obtain pd where pd: "add_padding bs = Inr pd" "length pd = 192" "remove_padding pd = Inr bs"
    using padding_undone source_length [OF bs(1) assms(4-6)] by blast
  obtain m e1 where m: "get_master_keys e = (Good m, e1)" "keys_whole e1"
      "\<And>f. failing f = [] \<Longrightarrow> held f STORAGE_KEY = held e1 STORAGE_KEY \<Longrightarrow> get_master_keys f = (Good m, f)"
      "custom e1 = custom e" "\<And>n. n \<noteq> STORAGE_KEY \<Longrightarrow> held e1 n = held e n" "opensk e1 \<noteq> None"
    using master_keys_run [OF assms(3)] by blast
  let ?e = "e1\<lparr>drawn := Suc (drawn e1)\<rparr>"
  have later: "get_master_keys ?e = (Good m, ?e)" using m(2) by (intro m(3)) (simp_all add: keys_whole_def)
  obtain c where c: "aes256_cbc_encrypt P (fst m) pd True e1 = (Good c, ?e)" "length c = 208"
      "\<And>s :: ctap_env. aes256_cbc_decrypt P (fst m) c True s = (Good pd, s)"
    using aes_round_trip [OF assms(1), of pd e1 "fst m"] pd(2) m(2) by (auto simp: keys_whole_def)
  let ?b = "CBOR_CREDENTIAL_ID_VERSION # c"
  let ?i = "?b @ hmac_256 P (snd m) ?b"
  have mac: "length (hmac_256 P x y) = 32" for x y using assms(2) by (simp add: hmac_256_def Let_def)
  have i: "length ?i = 241" "take 209 ?i = ?b" "drop 209 ?i = hmac_256 P (snd m) ?b" "hd ?i = CBOR_CREDENTIAL_ID_VERSION"
    using c(2) mac by simp_all
  have sealed: "encrypt_to_credential_id P k h p b e = (Good ?i, ?e)"
    by (simp add: encrypt_to_credential_id_def bs(1) pd(1) attempt_def steps key_handle_encryption_def
        key_handle_authentication_def m(1) later c(1) Let_def)
  have opened: "decrypt_credential_id P ?i h' f = (Good (if h' = h then Some \<lparr>cr_type = PublicKey, cr_id = ?i, cr_key = k,
       cr_rp_id = [], cr_user_handle = [], cr_user_display_name = None, cr_policy = p, cr_order = 0, cr_user_name = None,
       cr_user_icon = None, cr_blob = b, cr_large_blob_key = None\<rparr> else None), f)"
    if "failing f = []" "held f STORAGE_KEY = held ?e STORAGE_KEY" for h' f
  proof -
    have now: "get_master_keys f = (Good m, f)" using that by (intro m(3)) simp_all
    have "decrypt_cbor_credential_id P c f = (Good (Some \<lparr>cs_private_key = k, cs_rp_id_hash = h, cs_policy = p, cs_blob = b\<rparr>), f)"
      by (simp add: decrypt_cbor_credential_id_def attempt_def steps key_handle_encryption_def now c(3) pd(3) bs(2)
          source_read [OF assms(4,5)])
    then show ?thesis
      unfolding decrypt_credential_id_def i(1) MIN_CREDENTIAL_ID_SIZE_def LEGACY_CREDENTIAL_ID_SIZE_def CBOR_CREDENTIAL_ID_SIZE_def
      using i by (simp add: Let_def attempt_def steps key_handle_authentication_def now verify_hmac_256_def)
  qed
  show thesis by (rule that [OF sealed i(1) _ _ _ _ opened]) (use m(2,4-6) in \<open>simp_all add: keys_whole_def\<close>)
qed

text \<open>C14: A credential identifier made under a relying party's hash has 241 bytes, and the device that made it opens it again for
  that hash, with the same key, policy and blob, and for no other hash.\<close>

theorem credential_id_round_trip:
  assumes "block_cipher P" and "\<forall>m. length (sha256 P m) = 32" and "keys_whole e"
    and "length (key_bytes k) = 32" and "length h = 32" and "pred_option (\<lambda>x. length x \<le> 64) b"
  shows "\<exists>i e'. encrypt_to_credential_id P k h p b e = (Good i, e') \<and> length i = 241 \<and>
    (\<forall>h'. decrypt_credential_id P i h' e' = (Good (if h' = h then Some \<lparr>cr_type = PublicKey, cr_id = i, cr_key = k,
       cr_rp_id = [], cr_user_handle = [], cr_user_display_name = None, cr_policy = p, cr_order = 0, cr_user_name = None,
       cr_user_icon = None, cr_blob = b, cr_large_blob_key = None\<rparr> else None), e'))"
proof -
  obtain i e' where "encrypt_to_credential_id P k h p b e = (Good i, e')" "length i = 241" "keys_whole e'"
    and opens: "\<And>h' e''. failing e'' = [] \<Longrightarrow> held e'' STORAGE_KEY = held e' STORAGE_KEY \<Longrightarrow>
      decrypt_credential_id P i h' e'' = (Good (if h' = h then Some \<lparr>cr_type = PublicKey, cr_id = i, cr_key = k,
       cr_rp_id = [], cr_user_handle = [], cr_user_display_name = None, cr_policy = p, cr_order = 0, cr_user_name = None,
       cr_user_icon = None, cr_blob = b, cr_large_blob_key = None\<rparr> else None), e'')"
    using sealed_opens [OF assms] by metis
  with opens [of e'] show ?thesis by (auto simp: keys_whole_def)
qed

definition flat_primitives :: primitives where
  "flat_primitives = \<lparr>sha256 = (\<lambda>_. replicate 32 5), encrypt_block = (\<lambda>_ b. b), decrypt_block = (\<lambda>_ b. b), gensk = (\<lambda>_. []),
     genpk = (\<lambda>_. ([], [])), from_coordinates = (\<lambda>_ _. None), exchange_x = (\<lambda>_ _. [])\<rparr>"

theorem credential_id_round_trip_witness:
  "\<exists>i e'. encrypt_to_credential_id flat_primitives (Ecdsa (replicate 32 1)) (replicate 32 2) None (Some [3]) empty_env = (Good i, e')
     \<and> length i = 241 \<and> fst (decrypt_credential_id flat_primitives i (replicate 32 4) e') = Good None"
proof -
  have differ: "replicate 32 4 \<noteq> (replicate 32 2 :: bytes)" by (simp add: replicate_eq_replicate)
  show ?thesis
    using credential_id_round_trip [of flat_primitives empty_env "Ecdsa (replicate 32 1)" "replicate 32 2" "Some [3]" None] differ
    by (auto simp: block_cipher_def flat_primitives_def keys_whole_def empty_env_def empty_env_def held_def dict_of_def)
qed

end
