(* ===== verification/Ctap_Commands.thy ===== *)
theory Ctap_Commands
  imports Ctap_Credentials
begin

text \<open>
  The commands of the security key as they arrive: the structures of \<open>src/ctap/data_formats.rs\<close> with their CBOR forms, and the
  parser of \<open>src/ctap/command.rs\<close>.
\<close>

section \<open>Status codes on the wire\<close>

fun status_byte :: "ctap_status \<Rightarrow> u8" where
  "status_byte CTAP2_OK = 0x00"
| "status_byte CTAP1_ERR_INVALID_COMMAND = 0x01"
| "status_byte CTAP1_ERR_INVALID_PARAMETER = 0x02"
| "status_byte CTAP1_ERR_INVALID_LENGTH = 0x03"
| "status_byte CTAP1_ERR_INVALID_SEQ = 0x04"
| "status_byte CTAP1_ERR_TIMEOUT = 0x05"
| "status_byte CTAP1_ERR_CHANNEL_BUSY = 0x06"
| "status_byte CTAP1_ERR_LOCK_REQUIRED = 0x0A"
| "status_byte CTAP1_ERR_INVALID_CHANNEL = 0x0B"
| "status_byte CTAP2_ERR_CBOR_UNEXPECTED_TYPE = 0x11"
| "status_byte CTAP2_ERR_INVALID_CBOR = 0x12"
| "status_byte CTAP2_ERR_MISSING_PARAMETER = 0x14"
| "status_byte CTAP2_ERR_LIMIT_EXCEEDED = 0x15"
| "status_byte CTAP2_ERR_FP_DATABASE_FULL = 0x17"
| "status_byte CTAP2_ERR_LARGE_BLOB_STORAGE_FULL = 0x18"
| "status_byte CTAP2_ERR_CREDENTIAL_EXCLUDED = 0x19"
| "status_byte CTAP2_ERR_PROCESSING = 0x21"
| "status_byte CTAP2_ERR_INVALID_CREDENTIAL = 0x22"
| "status_byte CTAP2_ERR_USER_ACTION_PENDING = 0x23"
| "status_byte CTAP2_ERR_OPERATION_PENDING = 0x24"
| "status_byte CTAP2_ERR_NO_OPERATIONS = 0x25"
| "status_byte CTAP2_ERR_UNSUPPORTED_ALGORITHM = 0x26"
| "status_byte CTAP2_ERR_OPERATION_DENIED = 0x27"
| "status_byte CTAP2_ERR_KEY_STORE_FULL = 0x28"
| "status_byte CTAP2_ERR_NO_OPERATION_PENDING = 0x2A"
| "status_byte CTAP2_ERR_UNSUPPORTED_OPTION = 0x2B"
| "status_byte CTAP2_ERR_INVALID_OPTION = 0x2C"
| "status_byte CTAP2_ERR_KEEPALIVE_CANCEL = 0x2D"
| "status_byte CTAP2_ERR_NO_CREDENTIALS = 0x2E"
| "status_byte CTAP2_ERR_USER_ACTION_TIMEOUT = 0x2F"
| "status_byte CTAP2_ERR_NOT_ALLOWED = 0x30"
| "status_byte CTAP2_ERR_PIN_INVALID = 0x31"
| "status_byte CTAP2_ERR_PIN_BLOCKED = 0x32"
| "status_byte CTAP2_ERR_PIN_AUTH_INVALID = 0x33"
| "status_byte CTAP2_ERR_PIN_AUTH_BLOCKED = 0x34"
| "status_byte CTAP2_ERR_PIN_NOT_SET = 0x35"
| "status_byte CTAP2_ERR_PUAT_REQUIRED = 0x36"
| "status_byte CTAP2_ERR_PIN_POLICY_VIOLATION = 0x37"
| "status_byte CTAP2_ERR_PIN_TOKEN_EXPIRED = 0x38"
| "status_byte CTAP2_ERR_REQUEST_TOO_LARGE = 0x39"
| "status_byte CTAP2_ERR_ACTION_TIMEOUT = 0x3A"
| "status_byte CTAP2_ERR_UP_REQUIRED = 0x3B"
| "status_byte CTAP2_ERR_UV_BLOCKED = 0x3C"
| "status_byte CTAP2_ERR_INTEGRITY_FAILURE = 0x3D"
| "status_byte CTAP2_ERR_INVALID_SUBCOMMAND = 0x3E"
| "status_byte CTAP2_ERR_UV_INVALID = 0x3F"
| "status_byte CTAP2_ERR_UNAUTHORIZED_PERMISSION = 0x40"
| "status_byte CTAP1_ERR_OTHER = 0x7F"
| "status_byte CTAP2_ERR_SPEC_LAST = 0xDF"
| "status_byte CTAP2_ERR_EXTENSION_FIRST = 0xE0"
| "status_byte CTAP2_ERR_EXTENSION_LAST = 0xEF"
| "status_byte CTAP2_ERR_VENDOR_FIRST = 0xF0"
| "status_byte CTAP2_ERR_VENDOR_INTERNAL_ERROR = 0xF2"
| "status_byte CTAP2_ERR_VENDOR_HARDWARE_FAILURE = 0xF3"
| "status_byte CTAP2_ERR_VENDOR_LAST = 0xFF"

section \<open>Lists\<close>

text \<open>\<open>collect\<close> into a result stops at the first error.\<close>

fun collect_parsed :: "('a \<Rightarrow> 'b parsed) \<Rightarrow> 'a list \<Rightarrow> 'b list parsed" where
  "collect_parsed f [] = Inr []"
| "collect_parsed f (x # xs) = bind_parsed (f x) (\<lambda>y. bind_parsed (collect_parsed f xs) (\<lambda>ys. Inr (y # ys)))"

definition array_of :: "(cbor \<Rightarrow> 'a parsed) \<Rightarrow> cbor \<Rightarrow> 'a list parsed" where
  "array_of f v = bind_parsed (extract_array v) (collect_parsed f)"

definition bool_or_false :: "cbor option \<Rightarrow> bool parsed" where
  "bool_or_false x = (case x of None \<Rightarrow> Inr False | Some v \<Rightarrow> extract_bool v)"

section \<open>Entities\<close>

record rp_entity =
  rp_id :: string
  rp_name :: "string option"
  rp_icon :: "string option"

definition rp_entity_of_cbor :: "cbor \<Rightarrow> rp_entity parsed" where
  "rp_entity_of_cbor v = bind_parsed (extract_map v) (\<lambda>m.
     case destructure (map TextString [''id'', ''icon'', ''name'']) m of
       [f_id, f_icon, f_name] \<Rightarrow>
         bind_parsed (bind_parsed (required f_id) extract_text_string) (\<lambda>id.
         bind_parsed (optional extract_text_string f_name) (\<lambda>name.
         bind_parsed (optional extract_text_string f_icon) (\<lambda>icon.
         Inr \<lparr>rp_id = id, rp_name = name, rp_icon = icon\<rparr>)))
     | _ \<Rightarrow> Inl CTAP2_ERR_VENDOR_INTERNAL_ERROR)"

definition cbor_of_rp_entity :: "rp_entity \<Rightarrow> cbor" where
  "cbor_of_rp_entity r = cbor_map_options
     [(TextString ''id'', Some (TextString (rp_id r))),
      (TextString ''icon'', map_option TextString (rp_icon r)),
      (TextString ''name'', map_option TextString (rp_name r))]"

definition user_entity_of_cbor :: "cbor \<Rightarrow> user_entity parsed" where
  "user_entity_of_cbor v = bind_parsed (extract_map v) (\<lambda>m.
     case destructure (map TextString [''id'', ''icon'', ''name'', ''displayName'']) m of
       [f_id, f_icon, f_name, f_display] \<Rightarrow>
         bind_parsed (bind_parsed (required f_id) extract_byte_string) (\<lambda>id.
         bind_parsed (optional extract_text_string f_name) (\<lambda>name.
         bind_parsed (optional extract_text_string f_display) (\<lambda>display.
         bind_parsed (optional extract_text_string f_icon) (\<lambda>icon.
         Inr \<lparr>user_id = id, user_name = name, user_display_name = display, user_icon = icon\<rparr>))))
     | _ \<Rightarrow> Inl CTAP2_ERR_VENDOR_INTERNAL_ERROR)"

definition cbor_of_user_entity :: "user_entity \<Rightarrow> cbor" where
  "cbor_of_user_entity u = cbor_map_options
     [(TextString ''id'', Some (ByteString (user_id u))),
      (TextString ''icon'', map_option TextString (user_icon u)),
      (TextString ''name'', map_option TextString (user_name u)),
      (TextString ''displayName'', map_option TextString (user_display_name u))]"

fun cbor_of_credential_type :: "credential_type \<Rightarrow> cbor" where
  "cbor_of_credential_type PublicKey = TextString ''public-key''"
| "cbor_of_credential_type UnknownType = TextString ''unknown''"

definition credential_type_of_cbor :: "cbor \<Rightarrow> credential_type parsed" where
  "credential_type_of_cbor v = bind_parsed (extract_text_string v) (\<lambda>t.
     Inr (if t = ''public-key'' then PublicKey else UnknownType))"

type_synonym credential_parameter = "credential_type \<times> signature_algorithm"

definition parameter_of_cbor :: "cbor \<Rightarrow> credential_parameter parsed" where
  "parameter_of_cbor v = bind_parsed (extract_map v) (\<lambda>m.
     case destructure (map TextString [''alg'', ''type'']) m of
       [f_alg, f_type] \<Rightarrow>
         bind_parsed (bind_parsed (required f_type) credential_type_of_cbor) (\<lambda>t.
         bind_parsed (bind_parsed (required f_alg) algorithm_of_cbor) (\<lambda>a. Inr (t, a)))
     | _ \<Rightarrow> Inl CTAP2_ERR_VENDOR_INTERNAL_ERROR)"

definition cbor_of_parameter :: "credential_parameter \<Rightarrow> cbor" where
  "cbor_of_parameter p = cbor_map_options
     [(TextString ''alg'', Some (cose_int (algorithm_code (snd p)))),
      (TextString ''type'', Some (cbor_of_credential_type (fst p)))]"

datatype authenticator_transport = Usb | Nfc | Ble | InternalTransport

fun cbor_of_transport :: "authenticator_transport \<Rightarrow> cbor" where
  "cbor_of_transport Usb = TextString ''usb''"
| "cbor_of_transport Nfc = TextString ''nfc''"
| "cbor_of_transport Ble = TextString ''ble''"
| "cbor_of_transport InternalTransport = TextString ''internal''"

definition transport_of_cbor :: "cbor \<Rightarrow> authenticator_transport parsed" where
  "transport_of_cbor v = bind_parsed (extract_text_string v) (\<lambda>t.
     if t = ''usb'' then Inr Usb else if t = ''nfc'' then Inr Nfc else if t = ''ble'' then Inr Ble
     else if t = ''internal'' then Inr InternalTransport else Inl CTAP2_ERR_CBOR_UNEXPECTED_TYPE)"

record credential_descriptor =
  cd_type :: credential_type
  cd_id :: bytes
  cd_transports :: "authenticator_transport list option"

definition descriptor_of_cbor :: "cbor \<Rightarrow> credential_descriptor parsed" where
  "descriptor_of_cbor v = bind_parsed (extract_map v) (\<lambda>m.
     case destructure (map TextString [''id'', ''type'', ''transports'']) m of
       [f_id, f_type, f_transports] \<Rightarrow>
         bind_parsed (bind_parsed (required f_type) credential_type_of_cbor) (\<lambda>t.
         bind_parsed (bind_parsed (required f_id) extract_byte_string) (\<lambda>id.
         bind_parsed (optional (array_of transport_of_cbor) f_transports) (\<lambda>transports.
         Inr \<lparr>cd_type = t, cd_id = id, cd_transports = transports\<rparr>)))
     | _ \<Rightarrow> Inl CTAP2_ERR_VENDOR_INTERNAL_ERROR)"

definition cbor_of_descriptor :: "credential_descriptor \<Rightarrow> cbor" where
  "cbor_of_descriptor d = cbor_map_options
     [(TextString ''id'', Some (ByteString (cd_id d))),
      (TextString ''type'', Some (cbor_of_credential_type (cd_type d))),
      (TextString ''transports'', map_option (Array \<circ> map cbor_of_transport) (cd_transports d))]"

section \<open>Extensions and options\<close>

record make_credential_extensions =
  mx_hmac_secret :: bool
  mx_cred_protect :: "cred_protect option"
  mx_min_pin_length :: bool
  mx_cred_blob :: "bytes option"
  mx_large_blob_key :: "bool option"

definition no_make_credential_extensions :: make_credential_extensions where
  "no_make_credential_extensions = \<lparr>mx_hmac_secret = False, mx_cred_protect = None, mx_min_pin_length = False,
     mx_cred_blob = None, mx_large_blob_key = None\<rparr>"

definition make_credential_extensions_of_cbor :: "cbor \<Rightarrow> make_credential_extensions parsed" where
  "make_credential_extensions_of_cbor v = bind_parsed (extract_map v) (\<lambda>m.
     case destructure (map TextString [''credBlob'', ''credProtect'', ''hmac-secret'', ''largeBlobKey'', ''minPinLength'']) m of
       [f_blob, f_protect, f_hmac, f_large, f_min] \<Rightarrow>
         bind_parsed (bool_or_false f_hmac) (\<lambda>hmac.
         bind_parsed (optional policy_of_cbor f_protect) (\<lambda>protect.
         bind_parsed (bool_or_false f_min) (\<lambda>min_len.
         bind_parsed (optional extract_byte_string f_blob) (\<lambda>blob.
         bind_parsed (optional extract_bool f_large) (\<lambda>large.
         if large = Some False then Inl CTAP2_ERR_INVALID_OPTION
         else Inr \<lparr>mx_hmac_secret = hmac, mx_cred_protect = protect, mx_min_pin_length = min_len, mx_cred_blob = blob,
           mx_large_blob_key = large\<rparr>)))))
     | _ \<Rightarrow> Inl CTAP2_ERR_VENDOR_INTERNAL_ERROR)"

definition pin_protocol_of_cbor :: "cbor \<Rightarrow> pin_uv_auth_protocol parsed" where
  "pin_protocol_of_cbor v = bind_parsed (extract_unsigned v) (\<lambda>i.
     if i = 1 then Inr V1 else if i = 2 then Inr V2 else Inl CTAP1_ERR_INVALID_PARAMETER)"

definition hmac_secret_of_cbor :: "cbor \<Rightarrow> hmac_secret_input parsed" where
  "hmac_secret_of_cbor v = bind_parsed (extract_map v) (\<lambda>m.
     case destructure (map Unsigned [1, 2, 3, 4]) m of
       [f_key, f_enc, f_auth, f_protocol] \<Rightarrow>
         bind_parsed (bind_parsed (required f_key) cose_key_of_cbor) (\<lambda>key.
         bind_parsed (bind_parsed (required f_enc) extract_byte_string) (\<lambda>enc.
         bind_parsed (bind_parsed (required f_auth) extract_byte_string) (\<lambda>auth.
         bind_parsed (case f_protocol of None \<Rightarrow> Inr V1 | Some p \<Rightarrow> pin_protocol_of_cbor p) (\<lambda>protocol.
         Inr \<lparr>hs_key_agreement = key, hs_salt_enc = enc, hs_salt_auth = auth, hs_protocol = protocol\<rparr>))))
     | _ \<Rightarrow> Inl CTAP2_ERR_VENDOR_INTERNAL_ERROR)"

record get_assertion_extensions =
  gx_hmac_secret :: "hmac_secret_input option"
  gx_cred_blob :: bool
  gx_large_blob_key :: "bool option"

definition no_get_assertion_extensions :: get_assertion_extensions where
  "no_get_assertion_extensions = \<lparr>gx_hmac_secret = None, gx_cred_blob = False, gx_large_blob_key = None\<rparr>"

definition get_assertion_extensions_of_cbor :: "cbor \<Rightarrow> get_assertion_extensions parsed" where
  "get_assertion_extensions_of_cbor v = bind_parsed (extract_map v) (\<lambda>m.
     case destructure (map TextString [''credBlob'', ''hmac-secret'', ''largeBlobKey'']) m of
       [f_blob, f_hmac, f_large] \<Rightarrow>
         bind_parsed (optional hmac_secret_of_cbor f_hmac) (\<lambda>hmac.
         bind_parsed (bool_or_false f_blob) (\<lambda>blob.
         bind_parsed (optional extract_bool f_large) (\<lambda>large.
         if large = Some False then Inl CTAP2_ERR_INVALID_OPTION
         else Inr \<lparr>gx_hmac_secret = hmac, gx_cred_blob = blob, gx_large_blob_key = large\<rparr>)))
     | _ \<Rightarrow> Inl CTAP2_ERR_VENDOR_INTERNAL_ERROR)"

record make_credential_options =
  mo_rk :: bool
  mo_uv :: bool

definition make_credential_options_of_cbor :: "cbor \<Rightarrow> make_credential_options parsed" where
  "make_credential_options_of_cbor v = bind_parsed (extract_map v) (\<lambda>m.
     case destructure (map TextString [''rk'', ''up'', ''uv'']) m of
       [f_rk, f_up, f_uv] \<Rightarrow>
         bind_parsed (bool_or_false f_rk) (\<lambda>rk.
         bind_parsed (optional extract_bool f_up) (\<lambda>up.
         if up = Some False then Inl CTAP2_ERR_INVALID_OPTION else
         bind_parsed (bool_or_false f_uv) (\<lambda>uv. Inr \<lparr>mo_rk = rk, mo_uv = uv\<rparr>)))
     | _ \<Rightarrow> Inl CTAP2_ERR_VENDOR_INTERNAL_ERROR)"

record get_assertion_options =
  go_up :: bool
  go_uv :: bool

definition default_get_assertion_options :: get_assertion_options where
  "default_get_assertion_options = \<lparr>go_up = True, go_uv = False\<rparr>"

definition get_assertion_options_of_cbor :: "cbor \<Rightarrow> get_assertion_options parsed" where
  "get_assertion_options_of_cbor v = bind_parsed (extract_map v) (\<lambda>m.
     case destructure (map TextString [''rk'', ''up'', ''uv'']) m of
       [f_rk, f_up, f_uv] \<Rightarrow>
         bind_parsed (optional extract_bool f_rk) (\<lambda>rk.
         if rk \<noteq> None then Inl CTAP2_ERR_INVALID_OPTION else
         bind_parsed (case f_up of None \<Rightarrow> Inr True | Some x \<Rightarrow> extract_bool x) (\<lambda>up.
         bind_parsed (bool_or_false f_uv) (\<lambda>uv. Inr \<lparr>go_up = up, go_uv = uv\<rparr>)))
     | _ \<Rightarrow> Inl CTAP2_ERR_VENDOR_INTERNAL_ERROR)"

section \<open>Sub-commands\<close>

definition client_pin_sub_command_of_cbor :: "cbor \<Rightarrow> client_pin_sub_command parsed" where
  "client_pin_sub_command_of_cbor v = bind_parsed (extract_unsigned v) (\<lambda>i.
     if i = 0x01 then Inr GetPinRetries else if i = 0x02 then Inr GetKeyAgreement
     else if i = 0x03 then Inr SetPin else if i = 0x04 then Inr ChangePin else if i = 0x05 then Inr GetPinToken
     else if i = 0x06 then Inr GetPinUvAuthTokenUsingUvWithPermissions else if i = 0x07 then Inr GetUvRetries
     else if i = 0x09 then Inr GetPinUvAuthTokenUsingPinWithPermissions else Inl CTAP2_ERR_INVALID_SUBCOMMAND)"

datatype config_sub_command = EnableEnterpriseAttestation | ToggleAlwaysUv | SetMinPinLength | VendorPrototype

fun config_sub_command_code :: "config_sub_command \<Rightarrow> u8" where
  "config_sub_command_code EnableEnterpriseAttestation = 0x01"
| "config_sub_command_code ToggleAlwaysUv = 0x02"
| "config_sub_command_code SetMinPinLength = 0x03"
| "config_sub_command_code VendorPrototype = 0xFF"

definition config_sub_command_of_cbor :: "cbor \<Rightarrow> config_sub_command parsed" where
  "config_sub_command_of_cbor v = bind_parsed (extract_unsigned v) (\<lambda>i.
     if i = 0x01 then Inr EnableEnterpriseAttestation else if i = 0x02 then Inr ToggleAlwaysUv
     else if i = 0x03 then Inr SetMinPinLength else if i = 0xFF then Inr VendorPrototype
     else Inl CTAP2_ERR_INVALID_SUBCOMMAND)"

record set_min_pin_length_params =
  sm_new_min_pin_length :: "u8 option"
  sm_rp_ids :: "string list option"
  sm_force_change_pin :: "bool option"

definition set_min_pin_length_params_of_cbor :: "cbor \<Rightarrow> set_min_pin_length_params parsed" where
  "set_min_pin_length_params_of_cbor v = bind_parsed (extract_map v) (\<lambda>m.
     case destructure (map Unsigned [1, 2, 3]) m of
       [f_new, f_ids, f_force] \<Rightarrow>
         bind_parsed (optional extract_unsigned f_new) (\<lambda>new_len.
         if pred_option (\<lambda>n. n \<le> 0xFF) new_len then
           bind_parsed (optional (array_of extract_text_string) f_ids) (\<lambda>ids.
           bind_parsed (optional extract_bool f_force) (\<lambda>force.
           Inr \<lparr>sm_new_min_pin_length = map_option ucast new_len, sm_rp_ids = ids, sm_force_change_pin = force\<rparr>))
         else Inl CTAP2_ERR_PIN_POLICY_VIOLATION)
     | _ \<Rightarrow> Inl CTAP2_ERR_VENDOR_INTERNAL_ERROR)"

definition cbor_of_bool :: "bool \<Rightarrow> cbor" where
  "cbor_of_bool b = Simple (if b then TrueValue else FalseValue)"

definition cbor_of_set_min_pin_length_params :: "set_min_pin_length_params \<Rightarrow> cbor" where
  "cbor_of_set_min_pin_length_params p = cbor_map_options
     [(Unsigned 1, map_option (Unsigned \<circ> ucast) (sm_new_min_pin_length p)),
      (Unsigned 2, map_option (Array \<circ> map TextString) (sm_rp_ids p)),
      (Unsigned 3, map_option cbor_of_bool (sm_force_change_pin p))]"

definition enterprise_mode_of_code :: "u64 \<Rightarrow> enterprise_mode parsed" where
  "enterprise_mode_of_code i = (if i = 1 then Inr VendorFacilitated else if i = 2 then Inr PlatformManaged
     else Inl CTAP2_ERR_INVALID_OPTION)"

datatype credential_management_sub_command = GetCredsMetadata | EnumerateRpsBegin | EnumerateRpsGetNextRp
  | EnumerateCredentialsBegin | EnumerateCredentialsGetNextCredential | DeleteCredential | UpdateUserInformation

fun management_code :: "credential_management_sub_command \<Rightarrow> u8" where
  "management_code GetCredsMetadata = 0x01"
| "management_code EnumerateRpsBegin = 0x02"
| "management_code EnumerateRpsGetNextRp = 0x03"
| "management_code EnumerateCredentialsBegin = 0x04"
| "management_code EnumerateCredentialsGetNextCredential = 0x05"
| "management_code DeleteCredential = 0x06"
| "management_code UpdateUserInformation = 0x07"

definition management_sub_command_of_cbor :: "cbor \<Rightarrow> credential_management_sub_command parsed" where
  "management_sub_command_of_cbor v = bind_parsed (extract_unsigned v) (\<lambda>i.
     if i = 0x01 then Inr GetCredsMetadata else if i = 0x02 then Inr EnumerateRpsBegin
     else if i = 0x03 then Inr EnumerateRpsGetNextRp else if i = 0x04 then Inr EnumerateCredentialsBegin
     else if i = 0x05 then Inr EnumerateCredentialsGetNextCredential else if i = 0x06 then Inr DeleteCredential
     else if i = 0x07 then Inr UpdateUserInformation else Inl CTAP2_ERR_INVALID_SUBCOMMAND)"

record management_sub_command_params =
  ms_rp_id_hash :: "bytes option"
  ms_credential_id :: "credential_descriptor option"
  ms_user :: "user_entity option"

definition management_params_of_cbor :: "cbor \<Rightarrow> management_sub_command_params parsed" where
  "management_params_of_cbor v = bind_parsed (extract_map v) (\<lambda>m.
     case destructure (map Unsigned [1, 2, 3]) m of
       [f_hash, f_id, f_user] \<Rightarrow>
         bind_parsed (optional extract_byte_string f_hash) (\<lambda>hash.
         bind_parsed (optional descriptor_of_cbor f_id) (\<lambda>id.
         bind_parsed (optional user_entity_of_cbor f_user) (\<lambda>user.
         Inr \<lparr>ms_rp_id_hash = hash, ms_credential_id = id, ms_user = user\<rparr>)))
     | _ \<Rightarrow> Inl CTAP2_ERR_VENDOR_INTERNAL_ERROR)"

definition cbor_of_management_params :: "management_sub_command_params \<Rightarrow> cbor" where
  "cbor_of_management_params p = cbor_map_options
     [(Unsigned 1, map_option ByteString (ms_rp_id_hash p)),
      (Unsigned 2, map_option cbor_of_descriptor (ms_credential_id p)),
      (Unsigned 3, map_option cbor_of_user_entity (ms_user p))]"

section \<open>Parameters of the commands\<close>

record make_credential_params =
  mc_client_data_hash :: bytes
  mc_rp :: rp_entity
  mc_user :: user_entity
  mc_params :: "credential_parameter list"
  mc_exclude_list :: "credential_descriptor list option"
  mc_extensions :: make_credential_extensions
  mc_options :: make_credential_options
  mc_auth_param :: "bytes option"
  mc_auth_protocol :: "pin_uv_auth_protocol option"
  mc_enterprise :: "u64 option"

definition or_default :: "'a \<Rightarrow> 'a option \<Rightarrow> 'a" where
  "or_default d x = (case x of None \<Rightarrow> d | Some y \<Rightarrow> y)"

definition make_credential_params_of_cbor :: "cbor \<Rightarrow> make_credential_params parsed" where
  "make_credential_params_of_cbor v = bind_parsed (extract_map v) (\<lambda>m.
     case destructure (map Unsigned [1, 2, 3, 4, 5, 6, 7, 8, 9, 10]) m of
       [f_hash, f_rp, f_user, f_params, f_exclude, f_ext, f_opts, f_auth, f_protocol, f_ep] \<Rightarrow>
         bind_parsed (bind_parsed (required f_hash) extract_byte_string) (\<lambda>hash.
         bind_parsed (bind_parsed (required f_rp) rp_entity_of_cbor) (\<lambda>rp.
         bind_parsed (bind_parsed (required f_user) user_entity_of_cbor) (\<lambda>user.
         bind_parsed (bind_parsed (required f_params) (array_of parameter_of_cbor)) (\<lambda>params.
         bind_parsed (optional (array_of descriptor_of_cbor) f_exclude) (\<lambda>exclude.
         bind_parsed (optional make_credential_extensions_of_cbor f_ext) (\<lambda>ext.
         bind_parsed (optional make_credential_options_of_cbor f_opts) (\<lambda>opts.
         bind_parsed (optional extract_byte_string f_auth) (\<lambda>auth.
         bind_parsed (optional pin_protocol_of_cbor f_protocol) (\<lambda>protocol.
         bind_parsed (optional extract_unsigned f_ep) (\<lambda>ep.
         Inr \<lparr>mc_client_data_hash = hash, mc_rp = rp, mc_user = user, mc_params = params, mc_exclude_list = exclude,
           mc_extensions = or_default no_make_credential_extensions ext,
           mc_options = or_default \<lparr>mo_rk = False, mo_uv = False\<rparr> opts,
           mc_auth_param = auth, mc_auth_protocol = protocol, mc_enterprise = ep\<rparr>))))))))))
     | _ \<Rightarrow> Inl CTAP2_ERR_VENDOR_INTERNAL_ERROR)"

record get_assertion_params =
  ga_rp_id :: string
  ga_client_data_hash :: bytes
  ga_allow_list :: "credential_descriptor list option"
  ga_extensions :: get_assertion_extensions
  ga_options :: get_assertion_options
  ga_auth_param :: "bytes option"
  ga_auth_protocol :: "pin_uv_auth_protocol option"

definition get_assertion_params_of_cbor :: "cbor \<Rightarrow> get_assertion_params parsed" where
  "get_assertion_params_of_cbor v = bind_parsed (extract_map v) (\<lambda>m.
     case destructure (map Unsigned [1, 2, 3, 4, 5, 6, 7]) m of
       [f_rp, f_hash, f_allow, f_ext, f_opts, f_auth, f_protocol] \<Rightarrow>
         bind_parsed (bind_parsed (required f_rp) extract_text_string) (\<lambda>rp.
         bind_parsed (bind_parsed (required f_hash) extract_byte_string) (\<lambda>hash.
         bind_parsed (optional (array_of descriptor_of_cbor) f_allow) (\<lambda>allow.
         bind_parsed (optional get_assertion_extensions_of_cbor f_ext) (\<lambda>ext.
         bind_parsed (optional get_assertion_options_of_cbor f_opts) (\<lambda>opts.
         bind_parsed (optional extract_byte_string f_auth) (\<lambda>auth.
         bind_parsed (optional pin_protocol_of_cbor f_protocol) (\<lambda>protocol.
         Inr \<lparr>ga_rp_id = rp, ga_client_data_hash = hash, ga_allow_list = allow,
           ga_extensions = or_default no_get_assertion_extensions ext,
           ga_options = or_default default_get_assertion_options opts,
           ga_auth_param = auth, ga_auth_protocol = protocol\<rparr>)))))))
     | _ \<Rightarrow> Inl CTAP2_ERR_VENDOR_INTERNAL_ERROR)"

definition client_pin_params_of_cbor :: "cbor \<Rightarrow> client_pin_params parsed" where
  "client_pin_params_of_cbor v = bind_parsed (extract_map v) (\<lambda>m.
     case destructure (map Unsigned [1, 2, 3, 4, 5, 6, 9, 10]) m of
       [f_protocol, f_sub, f_key, f_auth, f_new, f_hash, f_perms, f_rp] \<Rightarrow>
         bind_parsed (bind_parsed (required f_protocol) pin_protocol_of_cbor) (\<lambda>protocol.
         bind_parsed (bind_parsed (required f_sub) client_pin_sub_command_of_cbor) (\<lambda>sub.
         bind_parsed (optional cose_key_of_cbor f_key) (\<lambda>key.
         bind_parsed (optional extract_byte_string f_auth) (\<lambda>auth.
         bind_parsed (optional extract_byte_string f_new) (\<lambda>new_pin.
         bind_parsed (optional extract_byte_string f_hash) (\<lambda>hash.
         bind_parsed (optional extract_unsigned f_perms) (\<lambda>perms.
         bind_parsed (optional extract_text_string f_rp) (\<lambda>rp.
         Inr \<lparr>cp_protocol = protocol, cp_sub_command = sub, cp_key_agreement = key, cp_pin_uv_auth_param = auth,
           cp_new_pin_enc = new_pin, cp_pin_hash_enc = hash, cp_permissions = map_option ucast perms,
           cp_permissions_rp_id = rp\<rparr>))))))))
     | _ \<Rightarrow> Inl CTAP2_ERR_VENDOR_INTERNAL_ERROR)"

record large_blobs_params =
  lb_get :: "nat option"
  lb_set :: "bytes option"
  lb_offset :: nat
  lb_length :: "nat option"
  lb_auth_param :: "bytes option"
  lb_auth_protocol :: "pin_uv_auth_protocol option"

definition MIN_LARGE_BLOB_LEN :: nat where "MIN_LARGE_BLOB_LEN = 17"

text \<open>Numbers are cut to the 32 bits of \<open>usize\<close>.\<close>

definition large_blobs_params_of_cbor :: "cbor \<Rightarrow> large_blobs_params parsed" where
  "large_blobs_params_of_cbor v = bind_parsed (extract_map v) (\<lambda>m.
     case destructure (map Unsigned [1, 2, 3, 4, 5, 6]) m of
       [f_get, f_set, f_offset, f_length, f_auth, f_protocol] \<Rightarrow>
         bind_parsed (optional extract_unsigned f_get) (\<lambda>get.
         bind_parsed (optional extract_byte_string f_set) (\<lambda>new.
         bind_parsed (bind_parsed (ok_or_else CTAP1_ERR_INVALID_PARAMETER f_offset) extract_unsigned) (\<lambda>offset.
         bind_parsed (optional extract_unsigned f_length) (\<lambda>len.
         bind_parsed (optional extract_byte_string f_auth) (\<lambda>auth.
         bind_parsed (optional pin_protocol_of_cbor f_protocol) (\<lambda>protocol.
         let get = map_option as_usize get; offset = as_usize offset; len = map_option as_usize len in
         if get = None \<and> new = None then Inl CTAP1_ERR_INVALID_PARAMETER
         else if get \<noteq> None \<and> new \<noteq> None then Inl CTAP1_ERR_INVALID_PARAMETER
         else if get \<noteq> None \<and> (len \<noteq> None \<or> auth \<noteq> None \<or> protocol \<noteq> None) then Inl CTAP1_ERR_INVALID_PARAMETER
         else if new \<noteq> None \<and> offset = 0 \<and> (case len of None \<Rightarrow> True | Some l \<Rightarrow> l < MIN_LARGE_BLOB_LEN)
           then Inl CTAP1_ERR_INVALID_PARAMETER
         else if new \<noteq> None \<and> offset \<noteq> 0 \<and> len \<noteq> None then Inl CTAP1_ERR_INVALID_PARAMETER
         else Inr \<lparr>lb_get = get, lb_set = new, lb_offset = offset, lb_length = len, lb_auth_param = auth,
           lb_auth_protocol = protocol\<rparr>))))))
     | _ \<Rightarrow> Inl CTAP2_ERR_VENDOR_INTERNAL_ERROR)"

record config_params =
  cf_sub_command :: config_sub_command
  cf_sub_command_params :: "set_min_pin_length_params option"
  cf_auth_param :: "bytes option"
  cf_auth_protocol :: "pin_uv_auth_protocol option"

definition config_params_of_cbor :: "cbor \<Rightarrow> config_params parsed" where
  "config_params_of_cbor v = bind_parsed (extract_map v) (\<lambda>m.
     case destructure (map Unsigned [1, 2, 3, 4]) m of
       [f_sub, f_params, f_auth, f_protocol] \<Rightarrow>
         bind_parsed (bind_parsed (required f_sub) config_sub_command_of_cbor) (\<lambda>sub.
         bind_parsed (if sub = SetMinPinLength
             then bind_parsed (bind_parsed (required f_params) set_min_pin_length_params_of_cbor) (\<lambda>p. Inr (Some p))
             else Inr None) (\<lambda>params.
         bind_parsed (optional extract_byte_string f_auth) (\<lambda>auth.
         bind_parsed (optional pin_protocol_of_cbor f_protocol) (\<lambda>protocol.
         Inr \<lparr>cf_sub_command = sub, cf_sub_command_params = params, cf_auth_param = auth, cf_auth_protocol = protocol\<rparr>))))
     | _ \<Rightarrow> Inl CTAP2_ERR_VENDOR_INTERNAL_ERROR)"

definition ATTESTATION_PRIVATE_KEY_LENGTH :: nat where "ATTESTATION_PRIVATE_KEY_LENGTH = 32"

definition attestation_material_of_cbor :: "cbor \<Rightarrow> attestation parsed" where
  "attestation_material_of_cbor v = bind_parsed (extract_map v) (\<lambda>m.
     case destructure (map Unsigned [1, 2]) m of
       [f_cert, f_key] \<Rightarrow>
         bind_parsed (bind_parsed (required f_cert) extract_byte_string) (\<lambda>cert.
         bind_parsed (bind_parsed (required f_key) extract_byte_string) (\<lambda>key.
         if length key \<noteq> ATTESTATION_PRIVATE_KEY_LENGTH then Inl CTAP1_ERR_INVALID_PARAMETER
         else Inr \<lparr>att_private_key = key, att_certificate = cert\<rparr>))
     | _ \<Rightarrow> Inl CTAP2_ERR_VENDOR_INTERNAL_ERROR)"

record management_params =
  mg_sub_command :: credential_management_sub_command
  mg_sub_command_params :: "management_sub_command_params option"
  mg_auth_protocol :: "pin_uv_auth_protocol option"
  mg_auth_param :: "bytes option"

definition credential_management_params_of_cbor :: "cbor \<Rightarrow> management_params parsed" where
  "credential_management_params_of_cbor v = bind_parsed (extract_map v) (\<lambda>m.
     case destructure (map Unsigned [1, 2, 3, 4]) m of
       [f_sub, f_params, f_protocol, f_auth] \<Rightarrow>
         bind_parsed (bind_parsed (required f_sub) management_sub_command_of_cbor) (\<lambda>sub.
         bind_parsed (optional management_params_of_cbor f_params) (\<lambda>params.
         bind_parsed (optional pin_protocol_of_cbor f_protocol) (\<lambda>protocol.
         bind_parsed (optional extract_byte_string f_auth) (\<lambda>auth.
         Inr \<lparr>mg_sub_command = sub, mg_sub_command_params = params, mg_auth_protocol = protocol, mg_auth_param = auth\<rparr>))))
     | _ \<Rightarrow> Inl CTAP2_ERR_VENDOR_INTERNAL_ERROR)"

record vendor_configure_params =
  vc_lockdown :: bool
  vc_material :: "attestation option"

definition vendor_configure_params_of_cbor :: "cbor \<Rightarrow> vendor_configure_params parsed" where
  "vendor_configure_params_of_cbor v = bind_parsed (extract_map v) (\<lambda>m.
     case destructure (map Unsigned [1, 2]) m of
       [f_lock, f_material] \<Rightarrow>
         bind_parsed (bool_or_false f_lock) (\<lambda>lock.
         bind_parsed (optional attestation_material_of_cbor f_material) (\<lambda>material.
         Inr \<lparr>vc_lockdown = lock, vc_material = material\<rparr>))
     | _ \<Rightarrow> Inl CTAP2_ERR_VENDOR_INTERNAL_ERROR)"

record vendor_upgrade_params =
  vu_offset :: nat
  vu_data :: bytes
  vu_hash :: bytes

definition vendor_upgrade_params_of_cbor :: "cbor \<Rightarrow> vendor_upgrade_params parsed" where
  "vendor_upgrade_params_of_cbor v = bind_parsed (extract_map v) (\<lambda>m.
     case destructure (map Unsigned [1, 2, 3]) m of
       [f_offset, f_data, f_hash] \<Rightarrow>
         bind_parsed (bind_parsed (required f_offset) extract_unsigned) (\<lambda>offset.
         bind_parsed (bind_parsed (required f_data) extract_byte_string) (\<lambda>data.
         bind_parsed (bind_parsed (required f_hash) extract_byte_string) (\<lambda>hash.
         if length hash \<noteq> 32 then Inl CTAP1_ERR_INVALID_PARAMETER
         else Inr \<lparr>vu_offset = as_usize offset, vu_data = data, vu_hash = hash\<rparr>)))
     | _ \<Rightarrow> Inl CTAP2_ERR_VENDOR_INTERNAL_ERROR)"

section \<open>Commands\<close>

datatype command =
    AuthenticatorMakeCredential make_credential_params
  | AuthenticatorGetAssertion get_assertion_params
  | AuthenticatorGetInfo
  | AuthenticatorClientPin client_pin_params
  | AuthenticatorReset
  | AuthenticatorGetNextAssertion
  | AuthenticatorCredentialManagement management_params
  | AuthenticatorSelection
  | AuthenticatorLargeBlobs large_blobs_params
  | AuthenticatorConfig config_params
  | AuthenticatorVendorConfigure vendor_configure_params
  | AuthenticatorVendorUpgrade vendor_upgrade_params
  | AuthenticatorVendorUpgradeInfo

definition with_cbor :: "(cbor \<Rightarrow> 'a parsed) \<Rightarrow> ('a \<Rightarrow> command) \<Rightarrow> bytes \<Rightarrow> command parsed" where
  "with_cbor f c bs = bind_parsed (cbor_read bs) (\<lambda>v. bind_parsed (f v) (\<lambda>p. Inr (c p)))"

fun command_deserialize :: "bytes \<Rightarrow> command parsed" where
  "command_deserialize [] = Inl CTAP2_ERR_MISSING_PARAMETER"
| "command_deserialize (b # bs) =
     (if b = 0x01 then with_cbor make_credential_params_of_cbor AuthenticatorMakeCredential bs
      else if b = 0x02 then with_cbor get_assertion_params_of_cbor AuthenticatorGetAssertion bs
      else if b = 0x04 then Inr AuthenticatorGetInfo
      else if b = 0x06 then with_cbor client_pin_params_of_cbor AuthenticatorClientPin bs
      else if b = 0x07 then Inr AuthenticatorReset
      else if b = 0x08 then Inr AuthenticatorGetNextAssertion
      else if b = 0x0A \<or> b = 0x41 then with_cbor credential_management_params_of_cbor AuthenticatorCredentialManagement bs
      else if b = 0x0B then Inr AuthenticatorSelection
      else if b = 0x0C then with_cbor large_blobs_params_of_cbor AuthenticatorLargeBlobs bs
      else if b = 0x0D then with_cbor config_params_of_cbor AuthenticatorConfig bs
      else if b = 0x40 then with_cbor vendor_configure_params_of_cbor AuthenticatorVendorConfigure bs
      else if b = 0x42 then with_cbor vendor_upgrade_params_of_cbor AuthenticatorVendorUpgrade bs
      else if b = 0x43 then Inr AuthenticatorVendorUpgradeInfo
      else Inl CTAP1_ERR_INVALID_COMMAND)"

end
