(* ===== verification/Ctap_Responses.thy ===== *)
theory Ctap_Responses
  imports Ctap_Commands
begin

text \<open>
  What the security key answers (\<open>src/ctap/response.rs\<close>, with the attestation statement of \<open>data_formats.rs\<close>) and the CBOR
  form of each answer.
\<close>

record packed_attestation =
  pa_alg :: int
  pa_sig :: bytes
  pa_x5c :: "bytes list option"
  pa_ecdaa_key_id :: "bytes option"

definition cbor_of_packed_attestation :: "packed_attestation \<Rightarrow> cbor" where
  "cbor_of_packed_attestation a = cbor_map_options
     [(TextString ''alg'', Some (cose_int (pa_alg a))),
      (TextString ''sig'', Some (ByteString (pa_sig a))),
      (TextString ''x5c'', map_option (Array \<circ> map ByteString) (pa_x5c a)),
      (TextString ''ecdaaKeyId'', map_option ByteString (pa_ecdaa_key_id a))]"

record make_credential_response =
  rm_fmt :: string
  rm_auth_data :: bytes
  rm_att_stmt :: packed_attestation
  rm_ep_att :: "bool option"
  rm_large_blob_key :: "bytes option"

definition cbor_of_make_credential_response :: "make_credential_response \<Rightarrow> cbor" where
  "cbor_of_make_credential_response r = cbor_map_options
     [(Unsigned 1, Some (TextString (rm_fmt r))),
      (Unsigned 2, Some (ByteString (rm_auth_data r))),
      (Unsigned 3, Some (cbor_of_packed_attestation (rm_att_stmt r))),
      (Unsigned 4, map_option cbor_of_bool (rm_ep_att r)),
      (Unsigned 5, map_option ByteString (rm_large_blob_key r))]"

record get_assertion_response =
  ra_credential :: "credential_descriptor option"
  ra_auth_data :: bytes
  ra_signature :: bytes
  ra_user :: "user_entity option"
  ra_number_of_credentials :: "u64 option"
  ra_large_blob_key :: "bytes option"

definition cbor_of_get_assertion_response :: "get_assertion_response \<Rightarrow> cbor" where
  "cbor_of_get_assertion_response r = cbor_map_options
     [(Unsigned 1, map_option cbor_of_descriptor (ra_credential r)),
      (Unsigned 2, Some (ByteString (ra_auth_data r))),
      (Unsigned 3, Some (ByteString (ra_signature r))),
      (Unsigned 4, map_option cbor_of_user_entity (ra_user r)),
      (Unsigned 5, map_option Unsigned (ra_number_of_credentials r)),
      (Unsigned 7, map_option ByteString (ra_large_blob_key r))]"

record get_info_response =
  ri_versions :: "string list"
  ri_extensions :: "string list option"
  ri_aaguid :: bytes
  ri_options :: "(string \<times> bool) list option"
  ri_max_msg_size :: "u64 option"
  ri_pin_protocols :: "u64 list option"
  ri_max_credential_count :: "u64 option"
  ri_max_credential_id_length :: "u64 option"
  ri_transports :: "authenticator_transport list option"
  ri_algorithms :: "credential_parameter list option"
  ri_max_large_blob :: "u64 option"
  ri_force_pin_change :: "bool option"
  ri_min_pin_length :: u8
  ri_firmware_version :: "u64 option"
  ri_max_cred_blob_length :: "u64 option"
  ri_max_rp_ids :: "u64 option"
  ri_certifications :: "(string \<times> int) list option"
  ri_remaining :: "u64 option"

definition cbor_of_get_info_response :: "get_info_response \<Rightarrow> cbor" where
  "cbor_of_get_info_response r = cbor_map_options
     [(Unsigned 1, Some (Array (map TextString (ri_versions r)))),
      (Unsigned 2, map_option (Array \<circ> map TextString) (ri_extensions r)),
      (Unsigned 3, Some (ByteString (ri_aaguid r))),
      (Unsigned 4, map_option (\<lambda>os. Map (map (\<lambda>(k, v). (TextString k, cbor_of_bool v)) os)) (ri_options r)),
      (Unsigned 5, map_option Unsigned (ri_max_msg_size r)),
      (Unsigned 6, map_option (Array \<circ> map Unsigned) (ri_pin_protocols r)),
      (Unsigned 7, map_option Unsigned (ri_max_credential_count r)),
      (Unsigned 8, map_option Unsigned (ri_max_credential_id_length r)),
      (Unsigned 9, map_option (Array \<circ> map cbor_of_transport) (ri_transports r)),
      (Unsigned 10, map_option (Array \<circ> map cbor_of_parameter) (ri_algorithms r)),
      (Unsigned 11, map_option Unsigned (ri_max_large_blob r)),
      (Unsigned 12, map_option cbor_of_bool (ri_force_pin_change r)),
      (Unsigned 13, Some (Unsigned (ucast (ri_min_pin_length r)))),
      (Unsigned 14, map_option Unsigned (ri_firmware_version r)),
      (Unsigned 15, map_option Unsigned (ri_max_cred_blob_length r)),
      (Unsigned 16, map_option Unsigned (ri_max_rp_ids r)),
      (Unsigned 19, map_option (\<lambda>cs. Map (map (\<lambda>(k, v). (TextString k, cose_int v)) cs)) (ri_certifications r)),
      (Unsigned 20, map_option Unsigned (ri_remaining r))]"

definition cbor_of_client_pin_response :: "client_pin_response \<Rightarrow> cbor" where
  "cbor_of_client_pin_response r = cbor_map_options
     [(Unsigned 1, map_option cbor_of_cose_key (r_key_agreement r)),
      (Unsigned 2, map_option ByteString (r_pin_uv_auth_token r)),
      (Unsigned 3, map_option Unsigned (r_retries r)),
      (Unsigned 4, map_option cbor_of_bool (r_power_cycle_state r))]"

definition cbor_of_large_blobs_response :: "bytes \<Rightarrow> cbor" where
  "cbor_of_large_blobs_response config = cbor_map_options [(Unsigned 1, Some (ByteString config))]"

record management_response =
  rc_existing :: "u64 option"
  rc_remaining :: "u64 option"
  rc_rp :: "rp_entity option"
  rc_rp_id_hash :: "bytes option"
  rc_total_rps :: "u64 option"
  rc_user :: "user_entity option"
  rc_credential_id :: "credential_descriptor option"
  rc_public_key :: "cose_key option"
  rc_total_credentials :: "u64 option"
  rc_cred_protect :: "cred_protect option"
  rc_large_blob_key :: "bytes option"

definition no_management_response :: management_response where
  "no_management_response = \<lparr>rc_existing = None, rc_remaining = None, rc_rp = None, rc_rp_id_hash = None, rc_total_rps = None,
     rc_user = None, rc_credential_id = None, rc_public_key = None, rc_total_credentials = None, rc_cred_protect = None,
     rc_large_blob_key = None\<rparr>"

definition cbor_of_management_response :: "management_response \<Rightarrow> cbor" where
  "cbor_of_management_response r = cbor_map_options
     [(Unsigned 1, map_option Unsigned (rc_existing r)),
      (Unsigned 2, map_option Unsigned (rc_remaining r)),
      (Unsigned 3, map_option cbor_of_rp_entity (rc_rp r)),
      (Unsigned 4, map_option ByteString (rc_rp_id_hash r)),
      (Unsigned 5, map_option Unsigned (rc_total_rps r)),
      (Unsigned 6, map_option cbor_of_user_entity (rc_user r)),
      (Unsigned 7, map_option cbor_of_descriptor (rc_credential_id r)),
      (Unsigned 8, map_option cbor_of_cose_key (rc_public_key r)),
      (Unsigned 9, map_option Unsigned (rc_total_credentials r)),
      (Unsigned 10, map_option cbor_of_policy (rc_cred_protect r)),
      (Unsigned 11, map_option ByteString (rc_large_blob_key r))]"

record vendor_configure_response =
  rv_cert_programmed :: bool
  rv_pkey_programmed :: bool

definition cbor_of_vendor_configure_response :: "vendor_configure_response \<Rightarrow> cbor" where
  "cbor_of_vendor_configure_response r = cbor_map_options
     [(Unsigned 1, Some (cbor_of_bool (rv_cert_programmed r))),
      (Unsigned 2, Some (cbor_of_bool (rv_pkey_programmed r)))]"

definition cbor_of_upgrade_info :: "u32 \<Rightarrow> cbor" where
  "cbor_of_upgrade_info info = cbor_map_options [(Unsigned 1, Some (Unsigned (ucast info)))]"

datatype response_data =
    MadeCredential make_credential_response
  | Assertion get_assertion_response
  | NextAssertion get_assertion_response
  | Info get_info_response
  | ClientPinDone "client_pin_response option"
  | ResetDone
  | CredentialManagementDone "management_response option"
  | SelectionDone
  | LargeBlobsDone "bytes option"
  | ConfigDone
  | VendorConfigured vendor_configure_response
  | VendorUpgraded
  | VendorUpgradeInfo u32

fun cbor_of_response :: "response_data \<Rightarrow> cbor option" where
  "cbor_of_response (MadeCredential r) = Some (cbor_of_make_credential_response r)"
| "cbor_of_response (Assertion r) = Some (cbor_of_get_assertion_response r)"
| "cbor_of_response (NextAssertion r) = Some (cbor_of_get_assertion_response r)"
| "cbor_of_response (Info r) = Some (cbor_of_get_info_response r)"
| "cbor_of_response (ClientPinDone r) = map_option cbor_of_client_pin_response r"
| "cbor_of_response ResetDone = None"
| "cbor_of_response (CredentialManagementDone r) = map_option cbor_of_management_response r"
| "cbor_of_response SelectionDone = None"
| "cbor_of_response (LargeBlobsDone r) = map_option cbor_of_large_blobs_response r"
| "cbor_of_response ConfigDone = None"
| "cbor_of_response (VendorConfigured r) = Some (cbor_of_vendor_configure_response r)"
| "cbor_of_response VendorUpgraded = None"
| "cbor_of_response (VendorUpgradeInfo i) = Some (cbor_of_upgrade_info i)"

end
