(* ===== verification/Ctap_Session.thy ===== *)
theory Ctap_Session
  imports Ctap_Responses Ctap_Credential_Id
begin

text \<open>
  The state of the security key between two power cycles (\<open>CtapState\<close> in \<open>src/ctap/mod.rs\<close>): the client PIN, the command that
  holds state for its successors with its channel and time limit, the upload of large blobs, and the environment.  The user
  presence state of U2F never leaves its initial value on this target and is left out.
\<close>

section \<open>What the key depends on\<close>

text \<open>\<open>UserPresenceResult\<close>: the \<open>n\<close>-th request for the user's consent since power-up is answered by \<open>answers S n\<close>, and
  \<open>localized S\<close> gives the texts of the dialogues.\<close>

datatype consent = Approved | Declined | Canceled | TimedOut

record setting =
  prims :: primitives
  signing :: signers
  answers :: "nat \<Rightarrow> consent"
  localized :: "string \<Rightarrow> string"

type_synonym channel = bytes

section \<open>Commands that hold state\<close>

record assertion_input =
  ai_client_data_hash :: bytes
  ai_auth_data :: bytes
  ai_extensions :: get_assertion_extensions
  ai_has_uv :: bool

datatype stateful_command =
    MayReset
  | PendingAssertions assertion_input "nat list"
  | EnumerateRps nat
  | EnumerateCredentials "nat list"

record stateful_permission =
  permission :: timed_permission
  command_type :: "stateful_command option"
  held_for :: "channel option"

text \<open>Milliseconds, as durations in nanoseconds.\<close>

definition RESET_TIMEOUT_DURATION :: nat where "RESET_TIMEOUT_DURATION = 20000 * 10 ^ 6"
definition STATEFUL_COMMAND_TIMEOUT_DURATION :: nat where "STATEFUL_COMMAND_TIMEOUT_DURATION = 30000 * 10 ^ 6"

definition new_reset :: "nat \<Rightarrow> stateful_permission option" where
  "new_reset now = map_option (\<lambda>t. \<lparr>permission = t, command_type = Some MayReset, held_for = None\<rparr>)
     (granted now RESET_TIMEOUT_DURATION)"

definition cleared :: stateful_permission where
  "cleared = \<lparr>permission = Waiting, command_type = None, held_for = None\<rparr>"

definition clear_old_channels :: "channel \<Rightarrow> stateful_permission \<Rightarrow> stateful_permission" where
  "clear_old_channels ch p = (case held_for p of None \<Rightarrow> p | Some c \<Rightarrow> if c \<noteq> ch then cleared else p)"

definition clear_timer :: "nat \<Rightarrow> stateful_permission \<Rightarrow> stateful_permission" where
  "clear_timer now p = (if is_granted (permission p) now then p else cleared)"

section \<open>The authenticator\<close>

record large_blobs =
  lbs_buffer :: bytes
  lbs_expected_length :: nat
  lbs_expected_next_offset :: nat

definition large_blobs_new :: large_blobs where
  "large_blobs_new = \<lparr>lbs_buffer = [], lbs_expected_length = 0, lbs_expected_next_offset = 0\<rparr>"

text \<open>\<open>au_asked\<close> are the requests for the user's consent so far, with their answers.\<close>

record authenticator =
  au_pin :: client_pin
  au_stateful :: stateful_permission
  au_blobs :: large_blobs
  au_env :: ctap_env
  au_asked :: "(string \<times> consent) list"

type_synonym 'a auth_op = "(authenticator, 'a) op"

definition in_env :: "'a env_op \<Rightarrow> 'a auth_op" where
  "in_env f = (\<lambda>s. case f (au_env s) of (x, e) \<Rightarrow> (x, s\<lparr>au_env := e\<rparr>))"

definition in_pin :: "'a pin_op \<Rightarrow> 'a auth_op" where
  "in_pin f = (\<lambda>s. case f (au_pin s, au_env s) of (x, (c, e)) \<Rightarrow> (x, s\<lparr>au_pin := c, au_env := e\<rparr>))"

definition ask_pin :: "(client_pin \<Rightarrow> 'a parsed) \<Rightarrow> 'a auth_op" where
  "ask_pin f = attempt (inspect au_pin) (\<lambda>c. checked (f c))"

definition ensure_rp_id :: "string \<Rightarrow> unit auth_op" where
  "ensure_rp_id rp = attempt (inspect (\<lambda>s. ensure_rp_id_permission rp (au_pin s))) (\<lambda>(r, c).
     attempt (change (\<lambda>s. s\<lparr>au_pin := c\<rparr>)) (\<lambda>_. checked r))"

text \<open>At power-up the store is initialised, which must not fail, and a reset is allowed for a while.\<close>

definition authenticator_new :: "setting \<Rightarrow> nat \<Rightarrow> ctap_env \<Rightarrow> (authenticator outcome) \<times> ctap_env" where
  "authenticator_new S now e = (case storage_init e of
     (Good _, e') \<Rightarrow> attempt (client_pin_new (prims S)) (\<lambda>c. attempt (or_crash (new_reset now)) (\<lambda>p e''.
       (Good \<lparr>au_pin = c, au_stateful = p, au_blobs = large_blobs_new, au_env = e'', au_asked = []\<rparr>, e''))) e'
   | (_, e') \<Rightarrow> (Crash, e'))"

definition authenticator_update_timeouts :: "nat \<Rightarrow> authenticator \<Rightarrow> authenticator" where
  "authenticator_update_timeouts now s = s\<lparr>au_stateful := clear_timer now (au_stateful s), au_pin := update_timeouts now (au_pin s)\<rparr>"

section \<open>The operations on the held command\<close>

definition clear_stateful :: "unit auth_op" where
  "clear_stateful = change (\<lambda>s. s\<lparr>au_stateful := cleared\<rparr>)"

definition get_command :: "stateful_command auth_op" where
  "get_command = attempt (inspect (\<lambda>s. command_type (au_stateful s))) (ok_or CTAP2_ERR_NOT_ALLOWED)"

definition set_command :: "nat \<Rightarrow> stateful_command \<Rightarrow> channel \<Rightarrow> unit auth_op" where
  "set_command now cmd ch = (case cmd of MayReset \<Rightarrow> crash
   | _ \<Rightarrow> attempt (or_crash (granted now STATEFUL_COMMAND_TIMEOUT_DURATION)) (\<lambda>t.
       change (\<lambda>s. s\<lparr>au_stateful := \<lparr>permission = t, command_type = Some cmd, held_for = Some ch\<rparr>\<rparr>)))"

definition hold :: "stateful_command \<Rightarrow> unit auth_op" where
  "hold cmd = change (\<lambda>s. s\<lparr>au_stateful := (au_stateful s)\<lparr>command_type := Some cmd\<rparr>\<rparr>)"

definition next_assertion_credential :: "(assertion_input \<times> nat) auth_op" where
  "next_assertion_credential = attempt (inspect (\<lambda>s. command_type (au_stateful s))) (\<lambda>c. case c of
     Some (PendingAssertions i ks) \<Rightarrow> if ks = [] then refuse CTAP2_ERR_NOT_ALLOWED
       else attempt (hold (PendingAssertions i (butlast ks))) (\<lambda>_. give (i, last ks))
   | _ \<Rightarrow> refuse CTAP2_ERR_NOT_ALLOWED)"

definition next_enumerate_rp :: "nat auth_op" where
  "next_enumerate_rp = attempt (inspect (\<lambda>s. command_type (au_stateful s))) (\<lambda>c. case c of
     Some (EnumerateRps i) \<Rightarrow> attempt (hold (EnumerateRps (Suc i))) (\<lambda>_. give i)
   | _ \<Rightarrow> refuse CTAP2_ERR_NOT_ALLOWED)"

definition next_enumerate_credential :: "nat auth_op" where
  "next_enumerate_credential = attempt (inspect (\<lambda>s. command_type (au_stateful s))) (\<lambda>c. case c of
     Some (EnumerateCredentials ks) \<Rightarrow> if ks = [] then refuse CTAP2_ERR_NOT_ALLOWED
       else attempt (hold (EnumerateCredentials (butlast ks))) (\<lambda>_. give (last ks))
   | _ \<Rightarrow> refuse CTAP2_ERR_NOT_ALLOWED)"

section \<open>The user's consent\<close>

fun consent_result :: "consent \<Rightarrow> unit parsed" where
  "consent_result Approved = Inr ()"
| "consent_result TimedOut = Inl CTAP2_ERR_USER_ACTION_TIMEOUT"
| "consent_result Declined = Inl CTAP2_ERR_OPERATION_DENIED"
| "consent_result Canceled = Inl CTAP2_ERR_KEEPALIVE_CANCEL"

definition check_user_presence :: "setting \<Rightarrow> string \<Rightarrow> unit auth_op" where
  "check_user_presence S reason = attempt (inspect (\<lambda>s. answers S (length (au_asked s)))) (\<lambda>a.
     attempt (change (\<lambda>s. s\<lparr>au_asked := au_asked s @ [(reason, a)]\<rparr>)) (\<lambda>_. checked (consent_result a)))"

section \<open>Where an operation may move the state\<close>

text \<open>\<open>R\<close> relates the states before and after the operation, whatever its result.\<close>

definition moves :: "('s \<Rightarrow> 's \<Rightarrow> bool) \<Rightarrow> ('s, 'a) op \<Rightarrow> bool" where
  "moves R f \<longleftrightarrow> (\<forall>s. R s (snd (f s)))"

lemma movesD: "moves R f \<Longrightarrow> f s = (x, s') \<Longrightarrow> R s s'"
  unfolding moves_def by (metis snd_conv)

lemma moves_simple:
  assumes "reflp R"
  shows "moves R (give x)" "moves R (refuse c)" "moves R crash" "moves R (inspect h)" "moves R (ok_or c y)"
    "moves R (ok_or_missing y)" "moves R (checked z)" "moves R (or_crash y)"
  using reflpD [OF assms]
  by (simp_all add: moves_def give_def refuse_def crash_def inspect_def ok_or_def ok_or_missing_def checked_def or_crash_def
      split: option.split sum.split)

lemma moves_attempt: "transp R \<Longrightarrow> moves R f \<Longrightarrow> (\<And>x. moves R (g x)) \<Longrightarrow> moves R (attempt f g)"
  unfolding moves_def attempt_def by (auto split: prod.split outcome.split) (metis snd_conv transpE)+

lemma moves_cases:
  "(b \<Longrightarrow> moves R f) \<Longrightarrow> (\<not> b \<Longrightarrow> moves R g) \<Longrightarrow> moves R (if b then f else g)"
  "(y = None \<Longrightarrow> moves R f) \<Longrightarrow> (\<And>x. y = Some x \<Longrightarrow> moves R (h x)) \<Longrightarrow> moves R (case y of None \<Rightarrow> f | Some x \<Rightarrow> h x)"
  "(\<And>a b. p = (a, b) \<Longrightarrow> moves R (k a b)) \<Longrightarrow> moves R (case p of (a, b) \<Rightarrow> k a b)"
  "(\<And>a. z = Inl a \<Longrightarrow> moves R (l a)) \<Longrightarrow> (\<And>a. z = Inr a \<Longrightarrow> moves R (r a)) \<Longrightarrow> moves R (case z of Inl a \<Rightarrow> l a | Inr a \<Rightarrow> r a)"
  "(ys = [] \<Longrightarrow> moves R f) \<Longrightarrow> (\<And>x xs. ys = x # xs \<Longrightarrow> moves R (c x xs)) \<Longrightarrow> moves R (case ys of [] \<Rightarrow> f | x # xs \<Rightarrow> c x xs)"
  by (simp_all split: option.split prod.split sum.split list.split)

end
