(* ===== verification/Ctap_Management.thy ===== *)
theory Ctap_Management
  imports Ctap_Session
begin

text \<open>
  Commands of the security key beside making and using credentials: large blobs (\<open>src/ctap/large_blobs.rs\<close>), the configuration
  (\<open>config_command.rs\<close>) and the management of stored credentials (\<open>credential_management.rs\<close>).
\<close>

section \<open>Large blobs\<close>

definition TRUNCATED_HASH_LEN :: nat where "TRUNCATED_HASH_LEN = 16"

definition change_blobs :: "(large_blobs \<Rightarrow> large_blobs) \<Rightarrow> unit auth_op" where
  "change_blobs f = change (\<lambda>s. s\<lparr>au_blobs := f (au_blobs s)\<rparr>)"

definition large_blob_message :: "primitives \<Rightarrow> nat \<Rightarrow> bytes \<Rightarrow> bytes" where
  "large_blob_message P offset new = replicate 32 0xFF @ [0x0C, 0x00] @ le_bytes32 (word_of_nat offset) @ sha256 P new"

text \<open>A complete upload: its last 16 bytes must be the hash of the others.  A buffer shorter than them is a panic.\<close>

definition finish_upload :: "primitives \<Rightarrow> unit auth_op" where
  "finish_upload P =
     attempt (change_blobs (\<lambda>b. b\<lparr>lbs_expected_length := 0, lbs_expected_next_offset := 0\<rparr>)) (\<lambda>_.
     attempt (inspect (\<lambda>s. lbs_buffer (au_blobs s))) (\<lambda>buffer.
     if length buffer < TRUNCATED_HASH_LEN then crash else
     let hash_index = length buffer - TRUNCATED_HASH_LEN in
     if take TRUNCATED_HASH_LEN (sha256 P (take hash_index buffer)) \<noteq> drop hash_index buffer
     then attempt (change_blobs (\<lambda>b. b\<lparr>lbs_buffer := []\<rparr>)) (\<lambda>_. refuse CTAP2_ERR_INTEGRITY_FAILURE)
     else attempt (in_env (commit_large_blob_array buffer)) (\<lambda>_. change_blobs (\<lambda>b. b\<lparr>lbs_buffer := []\<rparr>))))"

definition check_large_blob_auth :: "primitives \<Rightarrow> large_blobs_params \<Rightarrow> bytes \<Rightarrow> unit auth_op" where
  "check_large_blob_auth P params new =
     attempt (in_env pin_hash) (\<lambda>hash.
     attempt (if hash \<noteq> None then give True else in_env has_always_uv) (\<lambda>needed.
     if \<not> needed then give () else
     attempt (ok_or CTAP2_ERR_PUAT_REQUIRED (lb_auth_param params)) (\<lambda>auth_param.
     attempt (ok_or_missing (lb_auth_protocol params)) (\<lambda>protocol.
     attempt (ask_pin (verify_pin_uv_auth_token P (large_blob_message P (lb_offset params) new) auth_param protocol)) (\<lambda>_.
     ask_pin (has_permission LargeBlobWrite))))))"

definition set_fragment :: "primitives \<Rightarrow> large_blobs_params \<Rightarrow> bytes \<Rightarrow> unit auth_op" where
  "set_fragment P params new =
     attempt (if lb_offset params = 0 then
         attempt (ok_or CTAP1_ERR_INVALID_PARAMETER (lb_length params)) (\<lambda>len.
         attempt (change_blobs (\<lambda>b. b\<lparr>lbs_expected_length := len\<rparr>)) (\<lambda>_.
         attempt (inspect (\<lambda>s. max_large_blob_array_size (custom (au_env s)))) (\<lambda>limit.
         if len > limit then refuse CTAP2_ERR_LARGE_BLOB_STORAGE_FULL
         else change_blobs (\<lambda>b. b\<lparr>lbs_expected_next_offset := 0\<rparr>))))
       else give ()) (\<lambda>_.
     attempt (inspect au_blobs) (\<lambda>b.
     if lb_offset params \<noteq> lbs_expected_next_offset b then refuse CTAP1_ERR_INVALID_SEQ else
     attempt (check_large_blob_auth P params new) (\<lambda>_.
     if (lb_offset params + length new) mod 2 ^ 32 > lbs_expected_length b then refuse CTAP1_ERR_INVALID_PARAMETER else
     attempt (change_blobs (\<lambda>b. let buffer = (if lb_offset params = 0 then [] else lbs_buffer b) @ new in
       b\<lparr>lbs_buffer := buffer, lbs_expected_next_offset := length buffer\<rparr>)) (\<lambda>_.
     attempt (inspect au_blobs) (\<lambda>b.
     if lbs_expected_next_offset b = lbs_expected_length b then finish_upload P else give ())))))"

definition process_large_blobs :: "primitives \<Rightarrow> large_blobs_params \<Rightarrow> response_data auth_op" where
  "process_large_blobs P params =
     attempt (inspect (\<lambda>s. max_msg_size (custom (au_env s)) - 64)) (\<lambda>max_fragment_size.
     case lb_get params of
       Some get \<Rightarrow> if get > max_fragment_size \<or> lb_offset params + get \<ge> 2 ^ 32 then refuse CTAP1_ERR_INVALID_LENGTH
         else attempt (in_env (get_large_blob_array (lb_offset params) get)) (\<lambda>config. give (LargeBlobsDone (Some config)))
     | None \<Rightarrow> (case lb_set params of
         Some new \<Rightarrow> if length new > max_fragment_size then refuse CTAP1_ERR_INVALID_LENGTH
           else attempt (set_fragment P params new) (\<lambda>_. give (LargeBlobsDone None))
       | None \<Rightarrow> refuse CTAP1_ERR_INVALID_PARAMETER))"

section \<open>Configuration\<close>

definition process_enable_enterprise_attestation :: "response_data env_op" where
  "process_enable_enterprise_attestation = attempt (inspect (\<lambda>e. enterprise_attestation_mode (custom e))) (\<lambda>mode.
     if mode \<noteq> None then attempt enable_enterprise_attestation (\<lambda>_. give ConfigDone)
     else refuse CTAP1_ERR_INVALID_PARAMETER)"

definition process_toggle_always_uv :: "response_data env_op" where
  "process_toggle_always_uv = attempt toggle_always_uv (\<lambda>_. give ConfigDone)"

definition process_set_min_pin_length :: "set_min_pin_length_params \<Rightarrow> response_data env_op" where
  "process_set_min_pin_length params =
     attempt min_pin_length (\<lambda>store_min.
     let new_min = or_default store_min (sm_new_min_pin_length params) in
     if new_min < store_min then refuse CTAP2_ERR_PIN_POLICY_VIOLATION else
     let force = or_default False (sm_force_change_pin params) in
     attempt (if force then attempt pin_hash (\<lambda>h. if h = None then refuse CTAP2_ERR_PIN_NOT_SET else give ()) else give ()) (\<lambda>_.
     attempt pin_code_point_length (\<lambda>old.
     let force = (force \<or> (case old of None \<Rightarrow> False | Some old_length \<Rightarrow> new_min > old_length)) in
     attempt (if force then force_pin_change else give ()) (\<lambda>_.
     attempt (set_min_pin_length new_min) (\<lambda>_.
     attempt (case sm_rp_ids params of Some ids \<Rightarrow> set_min_pin_length_rp_ids ids | None \<Rightarrow> give ()) (\<lambda>_.
     give ConfigDone))))))"

definition config_message :: "config_params \<Rightarrow> ('s, bytes) op" where
  "config_message params =
     (let start = replicate 32 0xFF @ [0x0D, config_sub_command_code (cf_sub_command params)] in
      case cf_sub_command_params params of None \<Rightarrow> give start
      | Some p \<Rightarrow> attempt (checked (cbor_write (cbor_of_set_min_pin_length_params p))) (\<lambda>bs. give (start @ bs)))"

definition process_config :: "primitives \<Rightarrow> config_params \<Rightarrow> response_data auth_op" where
  "process_config P params =
     attempt (if cf_sub_command params = ToggleAlwaysUv then give False else in_env has_always_uv) (\<lambda>enforce_uv.
     attempt (in_env pin_hash) (\<lambda>hash.
     attempt (if hash \<noteq> None \<or> enforce_uv then
         attempt (ok_or CTAP2_ERR_PUAT_REQUIRED (cf_auth_param params)) (\<lambda>auth_param.
         attempt (ok_or_missing (cf_auth_protocol params)) (\<lambda>protocol.
         attempt (config_message params) (\<lambda>m.
         attempt (ask_pin (verify_pin_uv_auth_token P m auth_param protocol)) (\<lambda>_.
         ask_pin (has_permission AuthenticatorConfiguration)))))
       else give ()) (\<lambda>_.
     case cf_sub_command params of
       EnableEnterpriseAttestation \<Rightarrow> in_env process_enable_enterprise_attestation
     | ToggleAlwaysUv \<Rightarrow> in_env process_toggle_always_uv
     | SetMinPinLength \<Rightarrow> (case cf_sub_command_params params of
         Some p \<Rightarrow> in_env (process_set_min_pin_length p)
       | None \<Rightarrow> refuse CTAP2_ERR_MISSING_PARAMETER)
     | VendorPrototype \<Rightarrow> refuse CTAP1_ERR_INVALID_PARAMETER)))"

section \<open>Credential management\<close>

text \<open>The ordered set of relying parties, compared byte by byte.\<close>

definition add_rp :: "string \<Rightarrow> string list \<Rightarrow> string list" where
  "add_rp rp rps = (if rp \<in> set rps then rps else insort_key bytes_of rp rps)"

definition get_stored_rp_ids :: "string list env_op" where
  "get_stored_rp_ids = iter_credentials (\<lambda>k c rps. Inr (add_rp (cr_rp_id c) rps)) []"

definition enumerate_rps_response :: "primitives \<Rightarrow> string \<Rightarrow> u64 option \<Rightarrow> management_response" where
  "enumerate_rps_response P rp total_rps = no_management_response\<lparr>rc_rp := Some \<lparr>rp_id = rp, rp_name = None, rp_icon = None\<rparr>,
     rc_rp_id_hash := Some (sha256 P (bytes_of rp)), rc_total_rps := total_rps\<rparr>"

definition enumerate_credentials_response :: "signers \<Rightarrow> credential \<Rightarrow> u64 option \<Rightarrow> ('s, management_response) op" where
  "enumerate_credentials_response K c total_credentials =
     attempt (get_pub_key K (cr_key c)) (\<lambda>public_key.
     give (no_management_response\<lparr>
       rc_user := Some \<lparr>user_id = cr_user_handle c, user_name = cr_user_name c, user_display_name = cr_user_display_name c,
         user_icon = cr_user_icon c\<rparr>,
       rc_credential_id := Some \<lparr>cd_type = cr_type c, cd_id = cr_id c, cd_transports = None\<rparr>,
       rc_public_key := Some public_key, rc_total_credentials := total_credentials, rc_cred_protect := cr_policy c,
       rc_large_blob_key := cr_large_blob_key c\<rparr>))"

definition check_rp_id_permissions :: "bytes \<Rightarrow> unit auth_op" where
  "check_rp_id_permissions cred_id = attempt (inspect (\<lambda>s. has_no_rp_id_permission (au_pin s))) (\<lambda>r. case r of
     Inr _ \<Rightarrow> give ()
   | Inl _ \<Rightarrow> attempt (in_env (find_credential_item cred_id)) (\<lambda>(_, c). ask_pin (has_no_or_rp_id_permission (cr_rp_id c))))"

definition process_get_creds_metadata :: "management_response env_op" where
  "process_get_creds_metadata = attempt count_credentials (\<lambda>n. attempt remaining_credentials (\<lambda>r.
     give (no_management_response\<lparr>rc_existing := Some (word_of_nat n), rc_remaining := Some (word_of_nat r)\<rparr>)))"

definition process_enumerate_rps_begin :: "primitives \<Rightarrow> channel \<Rightarrow> nat \<Rightarrow> management_response auth_op" where
  "process_enumerate_rps_begin P ch now = attempt (in_env get_stored_rp_ids) (\<lambda>rps.
     attempt (if length rps > 1 then set_command now (EnumerateRps 1) ch else give ()) (\<lambda>_.
     case rps of [] \<Rightarrow> refuse CTAP2_ERR_NO_CREDENTIALS
     | rp # _ \<Rightarrow> give (enumerate_rps_response P rp (Some (word_of_nat (length rps))))))"

definition process_enumerate_rps_get_next_rp :: "primitives \<Rightarrow> management_response auth_op" where
  "process_enumerate_rps_get_next_rp P = attempt next_enumerate_rp (\<lambda>i. attempt (in_env get_stored_rp_ids) (\<lambda>rps.
     if i < length rps then give (enumerate_rps_response P (rps ! i) None) else refuse CTAP2_ERR_NOT_ALLOWED))"

definition process_enumerate_credentials_begin ::
    "setting \<Rightarrow> management_sub_command_params \<Rightarrow> channel \<Rightarrow> nat \<Rightarrow> management_response auth_op" where
  "process_enumerate_credentials_begin S params ch now =
     attempt (ok_or_missing (ms_rp_id_hash params)) (\<lambda>hash.
     attempt (ask_pin (has_no_or_rp_id_hash_permission (prims S) hash)) (\<lambda>_.
     attempt (in_env (iter_credentials (\<lambda>k c ks. Inr (if sha256 (prims S) (bytes_of (cr_rp_id c)) = hash then ks @ [k] else ks)) [])) (\<lambda>ks.
     if ks = [] then refuse CTAP2_ERR_NO_CREDENTIALS else
     attempt (in_env (get_credential (last ks))) (\<lambda>c.
     attempt (if length ks > 1 then set_command now (EnumerateCredentials (butlast ks)) ch else give ()) (\<lambda>_.
     enumerate_credentials_response (signing S) c (Some (word_of_nat (length ks))))))))"

definition process_enumerate_credentials_next :: "setting \<Rightarrow> management_response auth_op" where
  "process_enumerate_credentials_next S = attempt next_enumerate_credential (\<lambda>k. attempt (in_env (get_credential k)) (\<lambda>c.
     enumerate_credentials_response (signing S) c None))"

definition process_delete_credential :: "management_sub_command_params \<Rightarrow> unit auth_op" where
  "process_delete_credential params = attempt (ok_or_missing (ms_credential_id params)) (\<lambda>d.
     attempt (check_rp_id_permissions (cd_id d)) (\<lambda>_. in_env (delete_credential (cd_id d))))"

definition process_update_user_information :: "management_sub_command_params \<Rightarrow> unit auth_op" where
  "process_update_user_information params = attempt (ok_or_missing (ms_credential_id params)) (\<lambda>d.
     attempt (ok_or_missing (ms_user params)) (\<lambda>user.
     attempt (check_rp_id_permissions (cd_id d)) (\<lambda>_. in_env (update_credential (cd_id d) user))))"

definition management_message :: "management_params \<Rightarrow> ('s, bytes) op" where
  "management_message params =
     (let start = [management_code (mg_sub_command params)] in
      case mg_sub_command_params params of None \<Rightarrow> give start
      | Some p \<Rightarrow> attempt (checked (cbor_write (cbor_of_management_params p))) (\<lambda>bs. give (start @ bs)))"

definition goes_on :: "credential_management_sub_command \<Rightarrow> bool" where
  "goes_on c \<longleftrightarrow> c = EnumerateRpsGetNextRp \<or> c = EnumerateCredentialsGetNextCredential"

definition check_management_auth :: "primitives \<Rightarrow> management_params \<Rightarrow> unit auth_op" where
  "check_management_auth P params =
     (if goes_on (mg_sub_command params) then give () else
      attempt (ok_or CTAP2_ERR_PUAT_REQUIRED (mg_auth_param params)) (\<lambda>auth_param.
      attempt (ok_or_missing (mg_auth_protocol params)) (\<lambda>protocol.
      attempt (management_message params) (\<lambda>m.
      attempt (ask_pin (verify_pin_uv_auth_token P m auth_param protocol)) (\<lambda>_.
      ask_pin (has_permission CredentialManagement))))))"

definition process_credential_management :: "setting \<Rightarrow> management_params \<Rightarrow> channel \<Rightarrow> nat \<Rightarrow> response_data auth_op" where
  "process_credential_management S params ch now =
     attempt (inspect (\<lambda>s. command_type (au_stateful s))) (\<lambda>held_command.
     attempt (case (mg_sub_command params, held_command) of
         (EnumerateRpsGetNextRp, Some (EnumerateRps _)) \<Rightarrow> give ()
       | (EnumerateCredentialsGetNextCredential, Some (EnumerateCredentials _)) \<Rightarrow> give ()
       | _ \<Rightarrow> clear_stateful) (\<lambda>_.
     attempt (check_management_auth (prims S) params) (\<lambda>_.
     case mg_sub_command params of
       GetCredsMetadata \<Rightarrow> attempt (ask_pin has_no_rp_id_permission) (\<lambda>_.
         attempt (in_env process_get_creds_metadata) (\<lambda>r. give (CredentialManagementDone (Some r))))
     | EnumerateRpsBegin \<Rightarrow> attempt (ask_pin has_no_rp_id_permission) (\<lambda>_.
         attempt (process_enumerate_rps_begin (prims S) ch now) (\<lambda>r. give (CredentialManagementDone (Some r))))
     | EnumerateRpsGetNextRp \<Rightarrow>
         attempt (process_enumerate_rps_get_next_rp (prims S)) (\<lambda>r. give (CredentialManagementDone (Some r)))
     | EnumerateCredentialsBegin \<Rightarrow> attempt (ok_or_missing (mg_sub_command_params params)) (\<lambda>p.
         attempt (process_enumerate_credentials_begin S p ch now) (\<lambda>r. give (CredentialManagementDone (Some r))))
     | EnumerateCredentialsGetNextCredential \<Rightarrow>
         attempt (process_enumerate_credentials_next S) (\<lambda>r. give (CredentialManagementDone (Some r)))
     | DeleteCredential \<Rightarrow> attempt (ok_or_missing (mg_sub_command_params params)) (\<lambda>p.
         attempt (process_delete_credential p) (\<lambda>_. give (CredentialManagementDone None)))
     | UpdateUserInformation \<Rightarrow> attempt (ok_or_missing (mg_sub_command_params params)) (\<lambda>p.
         attempt (process_update_user_information p) (\<lambda>_. give (CredentialManagementDone None))))))"

end
