(* ===== verification/Ctap_Authenticator.thy ===== *)
theory Ctap_Authenticator
  imports Ctap_Management
begin

text \<open>
  Making and using credentials (\<open>src/ctap/mod.rs\<close>): the commands of the security key, which state they clear first, the consent
  they ask for, and what they sign.  A relying party's name and the text of the dialogues are those shown to the user.
\<close>

section \<open>Constants\<close>

definition UP_FLAG :: u8 where "UP_FLAG = 0x01"
definition UV_FLAG :: u8 where "UV_FLAG = 0x04"
definition AT_FLAG :: u8 where "AT_FLAG = 0x40"
definition ED_FLAG :: u8 where "ED_FLAG = 0x80"

definition FIDO2_VERSION_STRING :: string where "FIDO2_VERSION_STRING = ''FIDO_2_0''"
definition U2F_VERSION_STRING :: string where "U2F_VERSION_STRING = ''U2F_V2''"
definition FIDO2_1_VERSION_STRING :: string where "FIDO2_1_VERSION_STRING = ''FIDO_2_1_PRE''"

definition ES256_CRED_PARAM :: credential_parameter where "ES256_CRED_PARAM = (PublicKey, Es256)"
definition EDDSA_CRED_PARAM :: credential_parameter where "EDDSA_CRED_PARAM = (PublicKey, Eddsa)"

definition SUPPORTED_CRED_PARAMS :: "credential_parameter list" where
  "SUPPORTED_CRED_PARAMS = [ES256_CRED_PARAM, EDDSA_CRED_PARAM]"

definition get_preferred_cred_param :: "credential_parameter list \<Rightarrow> credential_parameter option" where
  "get_preferred_cred_param params = List.find (\<lambda>p. p \<in> set SUPPORTED_CRED_PARAMS) params"

section \<open>Cutting a text\<close>

definition is_char_boundary :: "string \<Rightarrow> nat \<Rightarrow> bool" where
  "is_char_boundary s i \<longleftrightarrow> i = 0 \<or> i = length s \<or> i < length s \<and> \<not> cont_byte (of_char (s ! i))"

fun boundary_before :: "string \<Rightarrow> nat \<Rightarrow> nat" where
  "boundary_before s 0 = 0"
| "boundary_before s (Suc i) = (if is_char_boundary s (Suc i) then Suc i else boundary_before s i)"

definition truncate_to_char_boundary :: "string \<Rightarrow> nat \<Rightarrow> string" where
  "truncate_to_char_boundary s max_len = (if max_len \<ge> length s then s else take (boundary_before s max_len) s)"

section \<open>Shared steps\<close>

definition increment_global_signature_counter :: "unit env_op" where
  "increment_global_signature_counter = attempt (inspect (\<lambda>e. use_signature_counter (custom e))) (\<lambda>used.
     if used then attempt gen_uniform_u8x32 (\<lambda>r. incr_global_signature_counter (u32_from_le (r ! 0) (r ! 1) (r ! 2) (r ! 3) mod 8 + 1)) else give ())"

definition be_bytes32 :: "u32 \<Rightarrow> bytes" where
  "be_bytes32 n = [ucast (drop_bit 24 n), ucast (drop_bit 16 n), ucast (drop_bit 8 n), ucast n]"

definition generate_auth_data :: "bytes \<Rightarrow> u8 \<Rightarrow> bytes env_op" where
  "generate_auth_data rp_id_hash flag_byte = attempt global_signature_counter (\<lambda>n.
     give (rp_id_hash @ [flag_byte] @ be_bytes32 n))"

definition pin_uv_auth_precheck :: "setting \<Rightarrow> bytes option \<Rightarrow> pin_uv_auth_protocol option \<Rightarrow> unit auth_op" where
  "pin_uv_auth_precheck S auth_param protocol = (case auth_param of None \<Rightarrow> give ()
   | Some a \<Rightarrow> if a = [] then
         attempt (check_user_presence S (localized S ''vault2.fido.pin_uv_auth'')) (\<lambda>_.
         attempt (in_env pin_hash) (\<lambda>h. if h = None then refuse CTAP2_ERR_PIN_NOT_SET else refuse CTAP2_ERR_PIN_INVALID))
       else if protocol = None then refuse CTAP2_ERR_MISSING_PARAMETER else give ())"

definition check_cred_protect :: "credential option \<Rightarrow> bool \<Rightarrow> bool" where
  "check_cred_protect c has_uv = (case c of None \<Rightarrow> False
   | Some c \<Rightarrow> has_uv \<or> cr_policy c \<noteq> Some UserVerificationRequired)"

text \<open>The token of the client: verified over the client data, with the permission, for this relying party.\<close>

definition verify_token :: "setting \<Rightarrow> bytes \<Rightarrow> bytes \<Rightarrow> pin_uv_auth_protocol option \<Rightarrow> pin_permission \<Rightarrow> string \<Rightarrow> unit auth_op" where
  "verify_token S client_data_hash auth_param protocol wanted rp =
     attempt (in_env pin_hash) (\<lambda>h. if h = None then refuse CTAP2_ERR_PIN_NOT_SET else
     attempt (ok_or_missing protocol) (\<lambda>protocol.
     attempt (ask_pin (verify_pin_uv_auth_token (prims S) client_data_hash auth_param protocol)) (\<lambda>_.
     attempt (ask_pin (has_permission wanted)) (\<lambda>_.
     attempt (ask_pin check_user_verified_flag) (\<lambda>_.
     ensure_rp_id rp)))))"

section \<open>Making a credential\<close>

definition enterprise_wanted :: "u64 option \<Rightarrow> string \<Rightarrow> bool env_op" where
  "enterprise_wanted wish rp = (case wish of None \<Rightarrow> give False
   | Some w \<Rightarrow> attempt (inspect custom) (\<lambda>c.
       attempt (ok_or CTAP1_ERR_INVALID_PARAMETER (enterprise_attestation_mode c)) (\<lambda>authenticator_mode.
       attempt enterprise_attestation (\<lambda>on. if \<not> on then refuse CTAP1_ERR_INVALID_PARAMETER else
       attempt (checked (enterprise_mode_of_code w)) (\<lambda>mode.
       give (if mode = PlatformManaged \<and> authenticator_mode = PlatformManaged then True else is_enterprise_rp_id c rp))))))"

definition make_credential_flags :: "setting \<Rightarrow> make_credential_params \<Rightarrow> u8 auth_op" where
  "make_credential_flags S p = attempt (case mc_auth_param p of
      Some a \<Rightarrow> attempt (verify_token S (mc_client_data_hash p) a (mc_auth_protocol p) MakeCredential (rp_id (mc_rp p))) (\<lambda>_.
        give UV_FLAG)
    | None \<Rightarrow> if mo_uv (mc_options p) then refuse CTAP2_ERR_INVALID_OPTION else
        attempt (in_env has_always_uv) (\<lambda>always. if always then refuse CTAP2_ERR_PUAT_REQUIRED else
        attempt (if mo_rk (mc_options p) then attempt (in_env pin_hash) (\<lambda>h. give (h \<noteq> None)) else give False) (\<lambda>needed.
        if needed then refuse CTAP2_ERR_PUAT_REQUIRED else give 0x00)))
    (\<lambda>flags. give (flags OR (UP_FLAG OR AT_FLAG)))"

text \<open>The dialogue shows the name the client gave the relying party, if it gave one.\<close>

definition shown_rp :: "rp_entity \<Rightarrow> string" where
  "shown_rp r = (case rp_name r of Some name \<Rightarrow> name | None \<Rightarrow> rp_id r)"

definition newline :: string where "newline = [CHR 0x0A]"

fun check_exclude_list :: "setting \<Rightarrow> make_credential_params \<Rightarrow> credential_descriptor list \<Rightarrow> unit auth_op" where
  "check_exclude_list S p [] = give ()"
| "check_exclude_list S p (d # ds) =
     (let rp = rp_id (mc_rp p); has_uv = (mc_auth_param p \<noteq> None) in
      attempt (in_env (find_credential rp (cd_id d))) (\<lambda>stored_one.
      attempt (if check_cred_protect stored_one has_uv then give True else
          attempt (in_env (decrypt_credential_id (prims S) (cd_id d) (sha256 (prims S) (bytes_of rp)))) (\<lambda>sealed.
          give (check_cred_protect sealed has_uv))) (\<lambda>known.
      if known then
        (\<lambda>s. case check_user_presence S (shown_rp (mc_rp p) @ newline @ localized S ''vault2.fido.exclude_list'') s of
           (Crash, s') \<Rightarrow> (Crash, s') | (_, s') \<Rightarrow> (Bad CTAP2_ERR_CREDENTIAL_EXCLUDED, s'))
      else check_exclude_list S p ds)))"

definition effective_policy :: "cred_protect option \<Rightarrow> cred_protect option \<Rightarrow> cred_protect option" where
  "effective_policy wish dflt =
     (if policy_code (or_default UserVerificationOptional wish) < policy_code (or_default UserVerificationOptional dflt)
      then dflt else wish)"

definition short_text :: "string option \<Rightarrow> string option" where
  "short_text = map_option (\<lambda>t. truncate_to_char_boundary t 64)"

text \<open>What the extensions come to: the policy, whether the minimum PIN length is told, the accepted blob and the key of the
  large blob.\<close>

record extension_choices =
  xc_policy :: "cred_protect option"
  xc_min_pin_length :: bool
  xc_cred_blob :: "bytes option"
  xc_large_blob_key :: "bytes option"

definition choose_extensions :: "make_credential_params \<Rightarrow> extension_choices env_op" where
  "choose_extensions p = (let x = mc_extensions p in
     attempt (inspect custom) (\<lambda>c.
     attempt (if mx_min_pin_length x then attempt min_pin_length_rp_ids (\<lambda>ids. give (rp_id (mc_rp p) \<in> set ids)) else give False) (\<lambda>min_len.
     attempt (if mo_rk (mc_options p) \<and> mx_large_blob_key x = Some True
       then attempt gen_uniform_u8x32 (\<lambda>k. give (Some k)) else give None) (\<lambda>large.
     give \<lparr>xc_policy = effective_policy (mx_cred_protect x) (default_cred_protect c), xc_min_pin_length = min_len,
       xc_cred_blob = (case mx_cred_blob x of None \<Rightarrow> None | Some b \<Rightarrow> if length b \<le> max_cred_blob_length c then Some b else None),
       xc_large_blob_key = large\<rparr>))))"

definition has_extension_output :: "make_credential_extensions \<Rightarrow> extension_choices \<Rightarrow> bool" where
  "has_extension_output x c \<longleftrightarrow> mx_hmac_secret x \<or> mx_cred_protect x \<noteq> None \<or> xc_min_pin_length c \<or> mx_cred_blob x \<noteq> None"

text \<open>The identifier of the new credential, stored on the device or sealed.\<close>

definition place_credential ::
    "setting \<Rightarrow> make_credential_params \<Rightarrow> extension_choices \<Rightarrow> private_key \<Rightarrow> bytes env_op" where
  "place_credential S p c key =
     (if mo_rk (mc_options p) then
        attempt gen_uniform_u8x32 (\<lambda>random_id.
        attempt new_creation_order (\<lambda>order.
        attempt (store_credential \<lparr>cr_type = PublicKey, cr_id = random_id, cr_key = key, cr_rp_id = rp_id (mc_rp p),
          cr_user_handle = user_id (mc_user p), cr_user_display_name = short_text (user_display_name (mc_user p)),
          cr_policy = xc_policy c, cr_order = order, cr_user_name = short_text (user_name (mc_user p)),
          cr_user_icon = short_text (user_icon (mc_user p)), cr_blob = xc_cred_blob c,
          cr_large_blob_key = xc_large_blob_key c\<rparr>) (\<lambda>_. give random_id)))
      else encrypt_to_credential_id (prims S) key (sha256 (prims S) (bytes_of (rp_id (mc_rp p)))) (xc_policy c) (xc_cred_blob c))"

definition extension_output :: "make_credential_extensions \<Rightarrow> extension_choices \<Rightarrow> bytes env_op" where
  "extension_output x c =
     attempt (if xc_min_pin_length c then attempt min_pin_length (\<lambda>n. give (Some (ucast n))) else give None) (\<lambda>min_len.
     checked (cbor_write (cbor_map_options
       [(TextString ''credBlob'', if mx_cred_blob x \<noteq> None then Some (cbor_of_bool (xc_cred_blob c \<noteq> None)) else None),
        (TextString ''credProtect'', if mx_cred_protect x \<noteq> None then map_option cbor_of_policy (xc_policy c) else None),
        (TextString ''hmac-secret'', if mx_hmac_secret x then Some (cbor_of_bool True) else None),
        (TextString ''minPinLength'', map_option Unsigned min_len)])))"

text \<open>Data about the authenticator and the new credential.\<close>

definition credential_auth_data ::
    "setting \<Rightarrow> make_credential_params \<Rightarrow> extension_choices \<Rightarrow> u8 \<Rightarrow> private_key \<Rightarrow> bytes \<Rightarrow> bytes env_op" where
  "credential_auth_data S p c flags key cred_id =
     attempt (generate_auth_data (sha256 (prims S) (bytes_of (rp_id (mc_rp p)))) flags) (\<lambda>auth_data.
     attempt aaguid (\<lambda>a.
     if length cred_id > 0xFF then refuse CTAP2_ERR_VENDOR_INTERNAL_ERROR else
     attempt (get_pub_key (signing S) key) (\<lambda>public_key.
     attempt (checked (cbor_write (cbor_of_cose_key public_key))) (\<lambda>key_cbor.
     attempt (if has_extension_output (mc_extensions p) c then extension_output (mc_extensions p) c else give []) (\<lambda>ext.
     give (auth_data @ a @ [0x00, word_of_nat (length cred_id)] @ cred_id @ key_cbor @ ext))))))"

text \<open>The attestation signs with its own key, or else the credential signs itself.\<close>

definition attest :: "setting \<Rightarrow> bool \<Rightarrow> private_key \<Rightarrow> bytes \<Rightarrow> (bytes \<times> bytes list option) env_op" where
  "attest S ep_att key data =
     attempt (inspect (\<lambda>e. use_batch_attestation (custom e))) (\<lambda>batch.
     case (if ep_att then Some Enterprise else if batch then Some Batch else None) of
       Some which \<Rightarrow>
         attempt (attestation_get which) (\<lambda>a.
         attempt (ok_or CTAP2_ERR_VENDOR_INTERNAL_ERROR a) (\<lambda>a.
         if scalar_ok (signing S) (att_private_key a)
         then give (ecdsa_sign (signing S) (att_private_key a) data, Some [att_certificate a]) else crash))
     | None \<Rightarrow> attempt (sign_and_encode (signing S) key data) (\<lambda>sig. give (sig, None)))"

definition process_make_credential :: "setting \<Rightarrow> make_credential_params \<Rightarrow> response_data auth_op" where
  "process_make_credential S p =
     attempt (pin_uv_auth_precheck S (mc_auth_param p) (mc_auth_protocol p)) (\<lambda>_.
     attempt (ok_or CTAP2_ERR_UNSUPPORTED_ALGORITHM (get_preferred_cred_param (mc_params p))) (\<lambda>cred_param.
     attempt (in_env (enterprise_wanted (mc_enterprise p) (rp_id (mc_rp p)))) (\<lambda>ep_att.
     attempt (make_credential_flags S p) (\<lambda>flags.
     attempt (case mc_exclude_list p of None \<Rightarrow> give () | Some ds \<Rightarrow> check_exclude_list S p ds) (\<lambda>_.
     attempt (check_user_presence S (shown_rp (mc_rp p) @ newline @ localized S ''vault2.fido.make_credentials'')) (\<lambda>_.
     attempt (change (\<lambda>s. s\<lparr>au_pin := clear_token_flags (au_pin s)\<rparr>)) (\<lambda>_.
     attempt (in_env (choose_extensions p)) (\<lambda>c.
     let flags = (if has_extension_output (mc_extensions p) c then flags OR ED_FLAG else flags) in
     attempt (in_env (private_key_new (signing S) (snd cred_param))) (\<lambda>key.
     attempt (in_env (place_credential S p c key)) (\<lambda>cred_id.
     attempt (in_env (credential_auth_data S p c flags key cred_id)) (\<lambda>auth_data.
     attempt (in_env (attest S ep_att key (auth_data @ mc_client_data_hash p))) (\<lambda>(sig, x5c).
     give (MadeCredential \<lparr>rm_fmt = ''packed'', rm_auth_data = auth_data,
       rm_att_stmt = \<lparr>pa_alg = algorithm_code Es256, pa_sig = sig, pa_x5c = x5c, pa_ecdaa_key_id = None\<rparr>,
       rm_ep_att = (if ep_att then Some True else None), rm_large_blob_key = xc_large_blob_key c\<rparr>)))))))))))))"

section \<open>Using a credential\<close>

definition generate_cred_random :: "setting \<Rightarrow> private_key \<Rightarrow> bool \<Rightarrow> bytes env_op" where
  "generate_cred_random S key has_uv = attempt (cred_random_secret has_uv) (\<lambda>secret.
     give (hmac_256 (prims S) secret (key_bytes key)))"

definition assertion_extensions :: "setting \<Rightarrow> credential \<Rightarrow> assertion_input \<Rightarrow> bytes auth_op" where
  "assertion_extensions S c i = (let x = ai_extensions i in
     if gx_hmac_secret x = None \<and> \<not> gx_cred_blob x then give [] else
     attempt (case gx_hmac_secret x of None \<Rightarrow> give None
       | Some h \<Rightarrow> attempt (in_env (generate_cred_random S (cr_key c) (ai_has_uv i))) (\<lambda>cred_random.
           attempt (in_pin (process_hmac_secret (prims S) h cred_random)) (\<lambda>out. give (Some out)))) (\<lambda>encrypted.
     checked (cbor_write (cbor_map_options
       [(TextString ''credBlob'', if gx_cred_blob x then Some (ByteString (or_default [] (cr_blob c))) else None),
        (TextString ''hmac-secret'', map_option ByteString encrypted)]))))"

definition assertion_user :: "credential \<Rightarrow> bool \<Rightarrow> user_entity option" where
  "assertion_user c has_uv = (if cr_user_handle c = [] then None
     else Some \<lparr>user_id = cr_user_handle c, user_name = (if has_uv then cr_user_name c else None),
       user_display_name = (if has_uv then cr_user_display_name c else None),
       user_icon = (if has_uv then cr_user_icon c else None)\<rparr>)"

definition assertion_response :: "setting \<Rightarrow> credential \<Rightarrow> assertion_input \<Rightarrow> nat option \<Rightarrow> bool \<Rightarrow> response_data auth_op" where
  "assertion_response S c i number is_next =
     attempt (assertion_extensions S c i) (\<lambda>ext.
     let auth_data = ai_auth_data i @ ext in
     attempt (sign_and_encode (signing S) (cr_key c) (auth_data @ ai_client_data_hash i)) (\<lambda>sig.
     let r = \<lparr>ra_credential = Some \<lparr>cd_type = PublicKey, cd_id = cr_id c, cd_transports = None\<rparr>, ra_auth_data = auth_data,
         ra_signature = sig, ra_user = assertion_user c (ai_has_uv i), ra_number_of_credentials = map_option word_of_nat number,
         ra_large_blob_key = (if gx_large_blob_key (ai_extensions i) = Some True then cr_large_blob_key c else None)\<rparr>
     in give (if is_next then NextAssertion r else Assertion r)))"

fun find_allowed :: "setting \<Rightarrow> credential_descriptor list \<Rightarrow> string \<Rightarrow> bytes \<Rightarrow> bool \<Rightarrow> credential option env_op" where
  "find_allowed S [] rp hash has_uv = give None"
| "find_allowed S (d # ds) rp hash has_uv =
     attempt (find_credential rp (cd_id d)) (\<lambda>c. if check_cred_protect c has_uv then give c else
     attempt (decrypt_credential_id (prims S) (cd_id d) hash) (\<lambda>c. if check_cred_protect c has_uv then give c
     else find_allowed S ds rp hash has_uv))"

text \<open>The keys of the relying party's credentials by their creation, the latest first to be used.  The order of equal
  creation numbers is not specified.\<close>

definition find_stored :: "string \<Rightarrow> bool \<Rightarrow> (credential option \<times> nat list) env_op" where
  "find_stored rp has_uv =
     attempt (iter_credentials (\<lambda>k c found. Inr (if cr_rp_id c = rp \<and> (has_uv \<or> is_discoverable c)
       then found @ [(k, cr_order c)] else found)) []) (\<lambda>found.
     let ks = map fst (sort_key snd found) in
     if ks = [] then give (None, []) else attempt (get_credential (last ks)) (\<lambda>c. give (Some c, butlast ks)))"

definition get_assertion_flags :: "setting \<Rightarrow> get_assertion_params \<Rightarrow> u8 auth_op" where
  "get_assertion_flags S p = attempt (case ga_auth_param p of
      Some a \<Rightarrow> attempt (verify_token S (ga_client_data_hash p) a (ga_auth_protocol p) GetAssertion (ga_rp_id p)) (\<lambda>_. give UV_FLAG)
    | None \<Rightarrow> if go_uv (ga_options p) then refuse CTAP2_ERR_INVALID_OPTION else
        attempt (if go_up (ga_options p) then in_env has_always_uv else give False) (\<lambda>always.
        if always then refuse CTAP2_ERR_PUAT_REQUIRED else give 0x00))
    (\<lambda>flags. give (let flags = (if go_up (ga_options p) then flags OR UP_FLAG else flags) in
       if gx_hmac_secret (ga_extensions p) \<noteq> None \<or> gx_cred_blob (ga_extensions p) then flags OR ED_FLAG else flags))"

definition process_get_assertion :: "setting \<Rightarrow> get_assertion_params \<Rightarrow> channel \<Rightarrow> nat \<Rightarrow> response_data auth_op" where
  "process_get_assertion S p ch now =
     attempt (pin_uv_auth_precheck S (ga_auth_param p) (ga_auth_protocol p)) (\<lambda>_.
     if gx_hmac_secret (ga_extensions p) \<noteq> None \<and> \<not> go_up (ga_options p) then refuse CTAP2_ERR_UNSUPPORTED_OPTION else
     let has_uv = (ga_auth_param p \<noteq> None); hash = sha256 (prims S) (bytes_of (ga_rp_id p)) in
     attempt (get_assertion_flags S p) (\<lambda>flags.
     attempt (case ga_allow_list p of
         Some ds \<Rightarrow> attempt (in_env (find_allowed S ds (ga_rp_id p) hash has_uv)) (\<lambda>c. give (c, []))
       | None \<Rightarrow> in_env (find_stored (ga_rp_id p) has_uv)) (\<lambda>(found, next_keys).
     attempt (ok_or CTAP2_ERR_NO_CREDENTIALS found) (\<lambda>c.
     attempt (if go_up (ga_options p) then
         attempt (check_user_presence S (ga_rp_id p @ newline @ localized S ''vault2.fido.get_assertion'')) (\<lambda>_.
         change (\<lambda>s. s\<lparr>au_pin := clear_token_flags (au_pin s)\<rparr>))
       else give ()) (\<lambda>_.
     attempt (in_env increment_global_signature_counter) (\<lambda>_.
     attempt (in_env (generate_auth_data hash flags)) (\<lambda>auth_data.
     let i = \<lparr>ai_client_data_hash = ga_client_data_hash p, ai_auth_data = auth_data, ai_extensions = ga_extensions p,
       ai_has_uv = has_uv\<rparr> in
     attempt (if next_keys = [] then give () else set_command now (PendingAssertions i next_keys) ch) (\<lambda>_.
     assertion_response S c i (if next_keys = [] then None else Some (length next_keys + 1)) False))))))))"

definition process_get_next_assertion :: "setting \<Rightarrow> response_data auth_op" where
  "process_get_next_assertion S = attempt next_assertion_credential (\<lambda>(i, k).
     attempt (in_env (get_credential k)) (\<lambda>c. assertion_response S c i None True))"

section \<open>Information, reset and the other commands\<close>

definition process_get_info :: "response_data env_op" where
  "process_get_info =
     attempt (inspect custom) (\<lambda>c.
     attempt has_always_uv (\<lambda>always_uv.
     attempt (if enterprise_attestation_mode c \<noteq> None
       then attempt enterprise_attestation (\<lambda>on. give [(''ep'', on)]) else give []) (\<lambda>ep.
     attempt pin_hash (\<lambda>h.
     attempt aaguid (\<lambda>a.
     attempt has_force_pin_change (\<lambda>force.
     attempt min_pin_length (\<lambda>min_len.
     attempt remaining_credentials (\<lambda>remaining.
     give (Info \<lparr>
       ri_versions = (if always_uv then [] else [U2F_VERSION_STRING]) @ [FIDO2_VERSION_STRING, FIDO2_1_VERSION_STRING],
       ri_extensions = Some [''hmac-secret'', ''credProtect'', ''minPinLength'', ''credBlob'', ''largeBlobKey''],
       ri_aaguid = a,
       ri_options = Some (ep @ [(''rk'', True), (''up'', True), (''alwaysUv'', always_uv), (''credMgmt'', True),
         (''authnrCfg'', True), (''clientPin'', h \<noteq> None), (''largeBlobs'', True), (''pinUvAuthToken'', True),
         (''setMinPINLength'', True), (''makeCredUvNotRqd'', \<not> always_uv)]),
       ri_max_msg_size = Some (word_of_nat (max_msg_size c)),
       ri_pin_protocols = Some (2 # (if allows_pin_protocol_v1 c then [1] else [])),
       ri_max_credential_count = map_option word_of_nat (max_credential_count_in_list c),
       ri_max_credential_id_length = Some (word_of_nat MAX_CREDENTIAL_ID_SIZE),
       ri_transports = Some [Usb],
       ri_algorithms = Some SUPPORTED_CRED_PARAMS,
       ri_max_large_blob = Some (word_of_nat (max_large_blob_array_size c)),
       ri_force_pin_change = Some force,
       ri_min_pin_length = min_len,
       ri_firmware_version = None,
       ri_max_cred_blob_length = Some (word_of_nat (max_cred_blob_length c)),
       ri_max_rp_ids = Some (word_of_nat (max_rp_ids_length c)),
       ri_certifications = None,
       ri_remaining = Some (word_of_nat remaining)\<rparr>)))))))))"

definition process_reset :: "setting \<Rightarrow> response_data auth_op" where
  "process_reset S = attempt get_command (\<lambda>cmd. if cmd \<noteq> MayReset then refuse CTAP2_ERR_NOT_ALLOWED else
     attempt (check_user_presence S (localized S ''vault2.u2f.factoryreset'')) (\<lambda>_.
     attempt (in_env storage_reset) (\<lambda>_.
     attempt (in_pin (client_pin_reset (prims S))) (\<lambda>_. give ResetDone))))"

definition process_selection :: "setting \<Rightarrow> response_data auth_op" where
  "process_selection S = attempt (check_user_presence S (localized S ''vault2.u2f.authenticator_selection'')) (\<lambda>_.
     give SelectionDone)"

text \<open>The firmware protection of this target never locks.\<close>

definition firmware_lock :: bool where "firmware_lock = False"

definition process_vendor_configure :: "setting \<Rightarrow> vendor_configure_params \<Rightarrow> response_data auth_op" where
  "process_vendor_configure S p =
     attempt (if vc_material p \<noteq> None \<or> vc_lockdown p
       then check_user_presence S (localized S ''vault2.u2f.vendor_configure'') else give ()) (\<lambda>_.
     attempt (in_env (attestation_get Batch)) (\<lambda>current.
     attempt (case vc_material p of
         None \<Rightarrow> give \<lparr>rv_cert_programmed = current \<noteq> None, rv_pkey_programmed = current \<noteq> None\<rparr>
       | Some a \<Rightarrow> attempt (if current = None then in_env (attestation_set Batch (Some a)) else give ()) (\<lambda>_.
           give \<lparr>rv_cert_programmed = True, rv_pkey_programmed = True\<rparr>)) (\<lambda>r.
     if vc_lockdown p \<and> (\<not> (rv_pkey_programmed r \<and> rv_cert_programmed r) \<or> \<not> firmware_lock)
     then refuse CTAP2_ERR_VENDOR_INTERNAL_ERROR else give (VendorConfigured r))))"

text \<open>This target has no storage for upgrades.\<close>

definition process_vendor_upgrade :: "setting \<Rightarrow> vendor_upgrade_params \<Rightarrow> response_data auth_op" where
  "process_vendor_upgrade S p = (if vu_hash p \<noteq> sha256 (prims S) (vu_data p) then refuse CTAP2_ERR_INTEGRITY_FAILURE
     else refuse CTAP1_ERR_INVALID_COMMAND)"

definition process_vendor_upgrade_info :: "response_data auth_op" where
  "process_vendor_upgrade_info = refuse CTAP1_ERR_INVALID_COMMAND"

section \<open>Commands\<close>

definition process_vendor_command :: "setting \<Rightarrow> command \<Rightarrow> response_data auth_op" where
  "process_vendor_command S c = (case c of
     AuthenticatorVendorConfigure p \<Rightarrow> process_vendor_configure S p
   | AuthenticatorVendorUpgrade p \<Rightarrow> process_vendor_upgrade S p
   | AuthenticatorVendorUpgradeInfo \<Rightarrow> process_vendor_upgrade_info
   | AuthenticatorGetInfo \<Rightarrow> in_env process_get_info
   | _ \<Rightarrow> refuse CTAP1_ERR_INVALID_COMMAND)"

definition process_fido_command :: "setting \<Rightarrow> command \<Rightarrow> channel \<Rightarrow> nat \<Rightarrow> response_data auth_op" where
  "process_fido_command S c ch now = (case c of
     AuthenticatorMakeCredential p \<Rightarrow> process_make_credential S p
   | AuthenticatorGetAssertion p \<Rightarrow> process_get_assertion S p ch now
   | AuthenticatorGetNextAssertion \<Rightarrow> process_get_next_assertion S
   | AuthenticatorGetInfo \<Rightarrow> in_env process_get_info
   | AuthenticatorClientPin p \<Rightarrow> attempt (in_pin (process_command (prims S) p now)) (\<lambda>r. give (ClientPinDone r))
   | AuthenticatorReset \<Rightarrow> process_reset S
   | AuthenticatorCredentialManagement p \<Rightarrow> process_credential_management S p ch now
   | AuthenticatorSelection \<Rightarrow> process_selection S
   | AuthenticatorLargeBlobs p \<Rightarrow> process_large_blobs (prims S) p
   | AuthenticatorConfig p \<Rightarrow> process_config (prims S) p
   | _ \<Rightarrow> process_vendor_command S c)"

text \<open>Which commands leave the held state alone; every other one clears it.\<close>

fun keeps_stateful :: "command \<Rightarrow> stateful_command option \<Rightarrow> bool" where
  "keeps_stateful AuthenticatorGetNextAssertion (Some (PendingAssertions _ _)) = True"
| "keeps_stateful AuthenticatorReset (Some MayReset) = True"
| "keeps_stateful AuthenticatorGetInfo (Some MayReset) = True"
| "keeps_stateful AuthenticatorSelection (Some MayReset) = True"
| "keeps_stateful (AuthenticatorMakeCredential _) (Some MayReset) = True"
| "keeps_stateful (AuthenticatorCredentialManagement _) (Some (EnumerateRps _)) = True"
| "keeps_stateful (AuthenticatorCredentialManagement _) (Some (EnumerateCredentials _)) = True"
| "keeps_stateful _ _ = False"

definition settle_stateful :: "command \<Rightarrow> channel \<Rightarrow> nat \<Rightarrow> stateful_permission \<Rightarrow> stateful_permission" where
  "settle_stateful c ch now p = (let p = clear_timer now (clear_old_channels ch p) in
     if keeps_stateful c (command_type p) then p else cleared)"

definition process_parsed_command :: "setting \<Rightarrow> command \<Rightarrow> channel \<Rightarrow> nat \<Rightarrow> response_data auth_op" where
  "process_parsed_command S c ch now =
     attempt (change (\<lambda>s. s\<lparr>au_stateful := settle_stateful c ch now (au_stateful s)\<rparr>)) (\<lambda>_. process_fido_command S c ch now)"

definition response_bytes :: "response_data \<Rightarrow> bytes" where
  "response_bytes r = (case cbor_of_response r of None \<Rightarrow> [status_byte CTAP2_OK]
   | Some v \<Rightarrow> (case cbor_write v of
       Inr bs \<Rightarrow> status_byte CTAP2_OK # bs
     | Inl _ \<Rightarrow> [status_byte CTAP2_ERR_VENDOR_INTERNAL_ERROR]))"

text \<open>A command as bytes is answered by bytes, or by a panic.\<close>

definition process_ctap2 :: "setting \<Rightarrow> bytes \<Rightarrow> channel \<Rightarrow> nat \<Rightarrow> authenticator \<Rightarrow> bytes option \<times> authenticator" where
  "process_ctap2 S bs ch now s =
     (case attempt (checked (command_deserialize bs)) (\<lambda>c. process_parsed_command S c ch now) s of
        (Good r, s') \<Rightarrow> (Some (response_bytes r), s')
      | (Bad c, s') \<Rightarrow> (Some [status_byte c], s')
      | (Crash, s') \<Rightarrow> (None, s'))"

end
