(* ===== verification/Ctap_Reset.thy ===== *)
theory Ctap_Reset
  imports Ctap_Authenticator
begin

text \<open>
  When the security key may be reset: only within the time after power-up, and only while no other command than those that keep
  the permission has come, with the user's consent.
\<close>

section \<open>Nothing gives the permission to reset\<close>

definition no_new_reset :: "authenticator \<Rightarrow> authenticator \<Rightarrow> bool" where
  "no_new_reset s s' \<longleftrightarrow> (command_type (au_stateful s') = Some MayReset \<longrightarrow> au_stateful s' = au_stateful s)"

lemma no_new_reset_order: "reflp no_new_reset" "transp no_new_reset"
  by (auto simp: no_new_reset_def intro: reflpI transpI)

named_theorems holding \<open>operations that do not give the permission to reset\<close>

lemmas [holding] = moves_simple [OF no_new_reset_order(1)] moves_attempt [OF no_new_reset_order(2)] moves_cases

lemma holding_basic [holding]:
  "moves no_new_reset (in_env f)" "moves no_new_reset (in_pin g)" "moves no_new_reset (change_blobs h)"
  "moves no_new_reset clear_stateful" "cmd \<noteq> MayReset \<Longrightarrow> moves no_new_reset (hold cmd)"
  "moves no_new_reset (change (\<lambda>s. s\<lparr>au_pin := k s\<rparr>))" "moves no_new_reset (change (\<lambda>s. s\<lparr>au_asked := l s\<rparr>))"
  "cmd \<noteq> MayReset \<Longrightarrow> moves no_new_reset (change (\<lambda>s. s\<lparr>au_stateful := \<lparr>permission = t, command_type = Some cmd, held_for = c\<rparr>\<rparr>))"
  by (simp_all add: moves_def no_new_reset_def in_env_def in_pin_def change_blobs_def clear_stateful_def cleared_def hold_def
      change_def split: prod.split)

lemma holding_steps [holding]:
  "moves no_new_reset (ask_pin f)" "moves no_new_reset (ensure_rp_id rp)" "moves no_new_reset (check_user_presence S r)"
  "moves no_new_reset get_command"
  unfolding ask_pin_def ensure_rp_id_def check_user_presence_def get_command_def
  by (intro holding allI)+

lemma holding_set_command [holding]: "moves no_new_reset (set_command now cmd ch)"
  unfolding set_command_def by (cases cmd) (auto intro!: holding)

lemma holding_next [holding]:
  "moves no_new_reset next_assertion_credential" "moves no_new_reset next_enumerate_rp" "moves no_new_reset next_enumerate_credential"
  unfolding next_assertion_credential_def next_enumerate_rp_def next_enumerate_credential_def
  by (auto intro!: holding split: stateful_command.split)

lemma holding_large_blobs [holding]: "moves no_new_reset (process_large_blobs P p)"
  unfolding process_large_blobs_def set_fragment_def check_large_blob_auth_def finish_upload_def Let_def
  by (intro holding)

lemma holding_config [holding]: "moves no_new_reset (process_config P p)"
  unfolding process_config_def config_message_def Let_def
  by (auto intro!: holding split: config_sub_command.split)

lemma holding_management [holding]: "moves no_new_reset (process_credential_management S p ch now)"
proof -
  have "moves no_new_reset (check_rp_id_permissions i)" for i
    unfolding check_rp_id_permissions_def by (intro holding)
  then show ?thesis
    unfolding process_credential_management_def check_management_auth_def management_message_def process_enumerate_rps_begin_def
      process_enumerate_rps_get_next_rp_def process_enumerate_credentials_begin_def process_enumerate_credentials_next_def
      process_delete_credential_def process_update_user_information_def enumerate_credentials_response_def get_pub_key_def
      ecdsa_key_from_seed_def Let_def
    by (auto intro!: holding split: credential_management_sub_command.split stateful_command.split option.split private_key.split)
qed

lemma holding_token [holding]: "moves no_new_reset (verify_token S h a v perm rp)" "moves no_new_reset (pin_uv_auth_precheck S x v)"
  unfolding verify_token_def pin_uv_auth_precheck_def by (intro holding)+

lemma holding_exclude [holding]: "moves no_new_reset (check_exclude_list S p ds)"
proof (induction ds)
  case (Cons d ds)
  have "moves no_new_reset (\<lambda>s. case check_user_presence S r s of (Crash, s') \<Rightarrow> (Crash, s') | (_, s') \<Rightarrow> (Bad c, s'))"
    for r and c :: ctap_status
    using holding_steps(3) [of S r] unfolding moves_def by (auto split: prod.split outcome.split) (metis snd_conv)+
  with Cons show ?case unfolding check_exclude_list.simps Let_def by (intro holding) auto
qed (simp add: holding)

lemma holding_make [holding]: "moves no_new_reset (process_make_credential S p)"
  unfolding process_make_credential_def make_credential_flags_def Let_def
  by (intro holding)

lemma holding_sign [holding]: "moves no_new_reset (sign_and_encode K key m)"
  unfolding sign_and_encode_def ecdsa_key_from_seed_def by (cases key) (auto intro!: holding)

lemma holding_assertions [holding]: "moves no_new_reset (process_get_assertion S p ch now)" "moves no_new_reset (process_get_next_assertion S)"
  unfolding process_get_assertion_def get_assertion_flags_def process_get_next_assertion_def assertion_response_def
    assertion_extensions_def Let_def
  by (intro holding)+

lemma holding_fido: "moves no_new_reset (process_fido_command S c ch now)"
  unfolding process_fido_command_def process_vendor_command_def process_reset_def process_selection_def process_vendor_configure_def
    process_vendor_upgrade_def process_vendor_upgrade_info_def
  by (cases c) (auto intro!: holding)

section \<open>Runs\<close>

text \<open>What happens to the key after power-up: commands on channels, at a time, and the expiry of what has a time limit.\<close>

datatype ctap_event = Arrives command channel nat | Ticks nat

fun run_events :: "setting \<Rightarrow> ctap_event list \<Rightarrow> authenticator \<Rightarrow> response_data outcome list \<times> authenticator" where
  "run_events S [] s = ([], s)"
| "run_events S (Arrives c ch now # es) s = (case process_parsed_command S c ch now s of
     (r, s') \<Rightarrow> (case run_events S es s' of (rs, s'') \<Rightarrow> (r # rs, s'')))"
| "run_events S (Ticks now # es) s = run_events S es (authenticator_update_timeouts now s)"

lemma run_events_append: "run_events S (es @ fs) s = (case run_events S es s of (rs, s') \<Rightarrow>
    (case run_events S fs s' of (qs, s'') \<Rightarrow> (rs @ qs, s'')))"
  by (induction S es s rule: run_events.induct) (simp_all split: prod.split)

definition harmless :: "ctap_event \<Rightarrow> bool" where
  "harmless ev \<longleftrightarrow> (case ev of Ticks _ \<Rightarrow> True
     | Arrives c _ _ \<Rightarrow> c = AuthenticatorGetInfo \<or> c = AuthenticatorSelection \<or> c = AuthenticatorReset
         \<or> (\<exists>p. c = AuthenticatorMakeCredential p))"

text \<open>The state from which a reset is still possible.\<close>

definition at_start :: "nat \<Rightarrow> stateful_permission \<Rightarrow> bool" where
  "at_start t0 p \<longleftrightarrow> p = \<lparr>permission = Granted (t0 + RESET_TIMEOUT_DURATION), command_type = Some MayReset, held_for = None\<rparr>"

definition may_reset :: "authenticator \<Rightarrow> bool" where
  "may_reset s \<longleftrightarrow> command_type (au_stateful s) = Some MayReset"

lemma settle_keeps:
  assumes "command_type (settle_stateful c ch now p) = Some MayReset"
  shows "settle_stateful c ch now p = p" "harmless (Arrives c ch now)" "is_granted (permission p) now"
proof -
  let ?q = "clear_timer now (clear_old_channels ch p)"
  have k: "keeps_stateful c (command_type ?q)" "command_type ?q = Some MayReset" "settle_stateful c ch now p = ?q"
    using assms by (auto simp: settle_stateful_def Let_def cleared_def split: if_splits)
  have kept: "clear_old_channels ch p = p" "is_granted (permission p) now"
    using k(2) by (auto simp: clear_timer_def clear_old_channels_def cleared_def split: if_splits option.splits)
  then show "settle_stateful c ch now p = p" "is_granted (permission p) now"
    using k(3) by (simp_all add: clear_timer_def)
  show "harmless (Arrives c ch now)" using k(1,2) by (cases c) (auto simp: harmless_def)
qed

lemma command_keeps:
  assumes "process_parsed_command S c ch now s = (r, s')" and "may_reset s'"
  shows "au_stateful s' = au_stateful s \<and> harmless (Arrives c ch now) \<and> may_reset s"
proof -
  let ?t = "s\<lparr>au_stateful := settle_stateful c ch now (au_stateful s)\<rparr>"
  have "process_fido_command S c ch now ?t = (r, s')" using assms(1) by (simp add: process_parsed_command_def attempt_def change_def)
  from movesD [OF holding_fido this] have same: "au_stateful s' = au_stateful ?t"
    using assms(2) by (simp add: no_new_reset_def may_reset_def)
  then have "command_type (settle_stateful c ch now (au_stateful s)) = Some MayReset"
    using assms(2) by (simp add: may_reset_def)
  from settle_keeps [OF this] same show ?thesis using assms(2) by (simp add: may_reset_def)
qed

lemma tick_keeps: "may_reset (authenticator_update_timeouts now s) \<Longrightarrow>
    au_stateful (authenticator_update_timeouts now s) = au_stateful s \<and> may_reset s"
  by (auto simp: may_reset_def authenticator_update_timeouts_def clear_timer_def cleared_def split: if_splits)

lemma run_keeps: "run_events S es s = (rs, s') \<Longrightarrow> may_reset s' \<Longrightarrow> au_stateful s' = au_stateful s \<and> (\<forall>ev \<in> set es. harmless ev)"
proof (induction S es s arbitrary: rs rule: run_events.induct)
  case (2 S c ch now es s)
  obtain r s1 where s1: "process_parsed_command S c ch now s = (r, s1)" by (cases "process_parsed_command S c ch now s")
  then obtain qs where "run_events S es s1 = (qs, s')" using 2(2) by (auto split: prod.splits)
  from 2(1) [OF s1 [symmetric] this 2(3)] have rest: "au_stateful s' = au_stateful s1" "\<forall>ev \<in> set es. harmless ev" by simp_all
  then have "may_reset s1" using 2(3) by (simp add: may_reset_def)
  from command_keeps [OF s1 this] rest show ?case by simp
next
  case (3 S now es s)
  from 3 have rest: "au_stateful s' = au_stateful (authenticator_update_timeouts now s)" "\<forall>ev \<in> set es. harmless ev" by simp_all
  then have "may_reset (authenticator_update_timeouts now s)" using 3(3) by (simp add: may_reset_def)
  from tick_keeps [OF this] rest show ?case by (simp add: harmless_def)
qed simp

lemma new_starts: "authenticator_new S t0 e = (Good s, e') \<Longrightarrow> at_start t0 (au_stateful s)"
  by (auto simp: authenticator_new_def attempt_def or_crash_def new_reset_def granted_def give_def crash_def at_start_def
      split: prod.splits outcome.splits option.splits if_splits)

text \<open>A refusal before the question changes nothing; after it, nothing unless the user approves.\<close>

definition left_alone :: "response_data outcome \<Rightarrow> authenticator \<Rightarrow> authenticator \<Rightarrow> bool" where
  "left_alone r s s' \<longleftrightarrow> (\<exists>c. r = Bad c) \<and> au_env s' = au_env s \<and> au_pin s' = au_pin s"

lemma reset_cases:
  assumes "process_reset S s = (r, s')"
  obtains "left_alone r s s'" "au_asked s' = au_asked s"
  | a where "may_reset s" "au_asked s' = au_asked s @ [(localized S ''vault2.u2f.factoryreset'', a)]" "a \<noteq> Approved \<Longrightarrow> left_alone r s s'"
proof -
  have c: "consent_result a = Inr () \<longleftrightarrow> a = Approved" for a by (cases a) auto
  consider "command_type (au_stateful s) \<noteq> Some MayReset" | "may_reset s" "answers S (length (au_asked s)) \<noteq> Approved"
    | "may_reset s" "answers S (length (au_asked s)) = Approved" by (auto simp: may_reset_def)
  then show thesis
  proof cases
    case 1
    with assms that(1) show thesis
      by (cases "command_type (au_stateful s)") (auto simp: process_reset_def get_command_def attempt_def inspect_def ok_or_def give_def
          refuse_def left_alone_def split: if_splits)
  next
    case 2
    with assms that(2) [of "answers S (length (au_asked s))"] show thesis
      by (cases "answers S (length (au_asked s))") (auto simp: process_reset_def get_command_def check_user_presence_def attempt_def
          inspect_def change_def ok_or_def give_def refuse_def checked_def may_reset_def left_alone_def)
  next
    case 3
    with assms have "au_asked s' = au_asked s @ [(localized S ''vault2.u2f.factoryreset'', Approved)]"
      by (auto simp: process_reset_def get_command_def check_user_presence_def attempt_def inspect_def change_def ok_or_def give_def
          refuse_def checked_def in_env_def in_pin_def may_reset_def split: prod.splits outcome.splits)
    with 3(1) that(2) show thesis by blast
  qed
qed

text \<open>C5: A reset gets to the user's question only within 20 seconds of power-up, when nothing but requests for information, selections, new
  credentials and resets came before it; otherwise it is refused, without a question and without a change.  It changes the
  store or the PIN state only when the user approves.\<close>

theorem reset_only_at_start:
  assumes "authenticator_new S t0 e = (Good s, e')" and "run_events S evs s = (rs, s1)"
    and "process_parsed_command S AuthenticatorReset ch now s1 = (r, s')"
  shows "left_alone r s1 s' \<and> au_asked s' = au_asked s1
    \<or> now \<le> t0 + 20 * 10 ^ 9 \<and> (\<forall>ev \<in> set evs. harmless ev)
      \<and> (\<exists>a. au_asked s' = au_asked s1 @ [(localized S ''vault2.u2f.factoryreset'', a)] \<and> (a = Approved \<or> left_alone r s1 s'))"
proof -
  let ?p = "settle_stateful AuthenticatorReset ch now (au_stateful s1)"
  have "process_reset S (s1\<lparr>au_stateful := ?p\<rparr>) = (r, s')"
    using assms(3) by (simp add: process_parsed_command_def attempt_def change_def process_fido_command_def)
  then show ?thesis
  proof (cases rule: reset_cases)
    case (2 a)
    then have m: "command_type ?p = Some MayReset" by (simp add: may_reset_def)
    note keep = settle_keeps [OF m]
    then have "may_reset s1" using m by (simp add: may_reset_def)
    from run_keeps [OF assms(2) this] have "au_stateful s1 = au_stateful s" "\<forall>ev \<in> set evs. harmless ev" by simp_all
    moreover from this have "permission (au_stateful s1) = Granted (t0 + RESET_TIMEOUT_DURATION)"
      using new_starts [OF assms(1)] by (simp add: at_start_def)
    ultimately show ?thesis using keep(3) 2 by (auto simp: RESET_TIMEOUT_DURATION_def left_alone_def)
  qed (simp add: left_alone_def)
qed

section \<open>A reset that is allowed succeeds\<close>

lemma init_runs:
  assumes "failing e = []"
  shows "\<exists>e'. storage_init e = (Good (), e') \<and> failing e' = [] \<and> opensk e' \<noteq> None"
proof -
  let ?f = "e\<lparr>drawn := Suc (Suc (drawn e))\<rparr>"
  let ?e1 = "if CRED_RANDOM_SECRET \<in> dom (held e) then e
    else put CRED_RANDOM_SECRET (entropy e (Suc (drawn e)) @ entropy e (drawn e)) ?f"
  have e1: "storage_init e = attempt (stored (store_find_handle AAGUID))
      (\<lambda>h. if h \<noteq> None then give () else set_aaguid BUILT_AAGUID) ?e1"
    using assms by (simp add: storage_init_def attempt_def faultless gen_uniform_u8x32_def steps)
  have f: "failing ?e1 = []" using assms by simp
  have "opensk ?e1 \<noteq> None" if "AAGUID \<in> dom (held ?e1)" using that by (auto simp: held_def dict_of_def split: option.splits)
  then show ?thesis
    unfolding e1 using f by (cases "AAGUID \<in> dom (held ?e1)") (simp_all add: attempt_def faultless set_aaguid_def steps del: if_split not_None_eq)
qed

lemma storage_reset_runs:
  assumes "failing e = []" and "opensk e \<noteq> None"
  shows "\<exists>e'. storage_reset e = (Good (), e') \<and> failing e' = [] \<and> opensk e' \<noteq> None"
proof -
  have "key_store_reset (clear_from NUM_PERSISTENT_KEYS e) = (Good (), without STORAGE_KEY (clear_from NUM_PERSISTENT_KEYS e))"
    using assms(1) by (simp add: key_store_reset_def internal_def steps)
  then show ?thesis
    using init_runs [of "without STORAGE_KEY (clear_from NUM_PERSISTENT_KEYS e)"] assms
    by (simp add: storage_reset_def attempt_def faultless)
qed

lemma client_pin_runs: "\<exists>c'. client_pin_reset P (c, e) = (Good (), (c', e\<lparr>drawn := drawn e + 4\<rparr>))"
  "\<exists>c. client_pin_new P e = (Good c, e\<lparr>drawn := drawn e + 4\<rparr>)"
  by (simp_all add: client_pin_reset_def regenerate_protocol_def reset_token_def regenerate_def reset_pin_uv_auth_token_def
      client_pin_new_def pin_protocol_new_def attempt_def get_pin_def on_env_def update_pin_def fresh_key_def gen_uniform_u8x32_def
      give_def eval_nat_numeral)

lemma new_runs:
  assumes "failing e = []" and "t0 + 20 * 10 ^ 9 \<le> instant_max"
  shows "\<exists>s e'. authenticator_new S t0 e = (Good s, e') \<and> failing (au_env s) = [] \<and> opensk (au_env s) \<noteq> None
    \<and> au_asked s = [] \<and> at_start t0 (au_stateful s)"
proof -
  obtain e1 where e1: "storage_init e = (Good (), e1)" "failing e1 = []" "opensk e1 \<noteq> None" using init_runs [OF assms(1)] by blast
  obtain c where c: "client_pin_new (prims S) e1 = (Good c, e1\<lparr>drawn := drawn e1 + 4\<rparr>)" using client_pin_runs(2) by blast
  show ?thesis
    using e1 c assms(2) by (simp add: authenticator_new_def attempt_def or_crash_def new_reset_def granted_def steps at_start_def
        RESET_TIMEOUT_DURATION_def)
qed

lemma reset_runs:
  assumes "may_reset s" and "failing (au_env s) = []" and "opensk (au_env s) \<noteq> None" and "answers S (length (au_asked s)) = Approved"
  shows "\<exists>s'. process_reset S s = (Good ResetDone, s')"
proof -
  obtain e1 where e1: "storage_reset (au_env s) = (Good (), e1)" using storage_reset_runs [OF assms(2,3)] by blast
  obtain c where c: "client_pin_reset (prims S) (au_pin s, e1) = (Good (), (c, e1\<lparr>drawn := drawn e1 + 4\<rparr>))"
    using client_pin_runs(1) by blast
  show ?thesis
    using assms(1,4) e1 c by (simp add: process_reset_def get_command_def may_reset_def check_user_presence_def attempt_def steps
        in_env_def in_pin_def)
qed

text \<open>A key whose user approves everything.\<close>

definition obliging :: setting where
  "obliging = \<lparr>prims = flat_primitives, signing = \<lparr>scalar_ok = (\<lambda>_. True), new_scalar = (\<lambda>n. replicate 32 1),
     ecdsa_pub = (\<lambda>k. (k, k)), ecdsa_sign = (\<lambda>k m. k @ m), ed25519_pub = (\<lambda>k. k), ed25519_sign = (\<lambda>k m. k @ m)\<rparr>,
     answers = (\<lambda>_. Approved), localized = (\<lambda>t. t)\<rparr>"

theorem reset_only_at_start_witness:
  "\<exists>s e' s1 s'. authenticator_new obliging 5 empty_env = (Good s, e') \<and> run_events obliging [Arrives AuthenticatorSelection [1] 6] s = ([Good SelectionDone], s1)
     \<and> process_parsed_command obliging AuthenticatorReset [1] 7 s1 = (Good ResetDone, s')
     \<and> au_asked s' = au_asked s1 @ [(''vault2.u2f.factoryreset'', Approved)]"
proof -
  obtain s e' where s: "authenticator_new obliging 5 empty_env = (Good s, e')"
      "failing (au_env s) = []" "opensk (au_env s) \<noteq> None" "at_start 5 (au_stateful s)"
    using new_runs [of empty_env 5 obliging] by (auto simp: empty_env_def instant_max_def)
  have keep: "settle_stateful c [1] n (au_stateful s) = au_stateful s" if "c = AuthenticatorSelection \<or> c = AuthenticatorReset" "n < 10" for c n
    using s(4) that by (auto simp: at_start_def settle_stateful_def clear_timer_def clear_old_channels_def RESET_TIMEOUT_DURATION_def)
  let ?s = "s\<lparr>au_asked := au_asked s @ [(''vault2.u2f.authenticator_selection'', Approved)]\<rparr>"
  have "process_parsed_command obliging AuthenticatorSelection [1] 6 s = (Good SelectionDone, ?s)"
    by (simp add: process_parsed_command_def attempt_def change_def keep process_fido_command_def process_selection_def
        check_user_presence_def steps obliging_def)
  then have one: "run_events obliging [Arrives AuthenticatorSelection [1] 6] s = ([Good SelectionDone], ?s)" by simp
  have "may_reset ?s" using s(4) by (simp add: may_reset_def at_start_def)
  then obtain s' where "process_reset obliging ?s = (Good ResetDone, s')"
    using reset_runs [of ?s obliging] s(2,3) by (auto simp: obliging_def)
  then have two: "process_parsed_command obliging AuthenticatorReset [1] 7 ?s = (Good ResetDone, s')"
    by (simp add: process_parsed_command_def attempt_def change_def keep process_fido_command_def)
  from reset_only_at_start [OF s(1) one two] have "\<exists>a. au_asked s' = au_asked ?s @ [(localized obliging ''vault2.u2f.factoryreset'', a)] \<and> a = Approved"
    by (auto simp: left_alone_def)
  with s(1) one two show ?thesis by (auto simp: obliging_def)
qed

end
