(* ===== verification/Ctap_Assertions.thy ===== *)
theory Ctap_Assertions
  imports Ctap_Reset Ctap_Accounts
begin

text \<open>
  What an assertion of the security key says is so: whose key signed it, for whom, and what the user and the client did for it.
  Nothing here assumes that requests to the database succeed.
\<close>

section \<open>Changes to the environment\<close>

text \<open>Only the master keys may be written, and only when there are none.\<close>

definition keyring :: "ctap_env \<Rightarrow> ctap_env \<Rightarrow> bool" where
  "keyring e e' \<longleftrightarrow> (\<forall>k. k \<noteq> STORAGE_KEY \<or> held e k \<noteq> None \<longrightarrow> held e' k = held e k)"

lemma keyring_order: "reflp keyring" "transp keyring"
  by (auto simp: keyring_def intro: reflpI transpI)

named_theorems ringing \<open>operations that at most write the master keys\<close>

lemmas [ringing] = moves_simple [OF keyring_order(1)] moves_attempt [OF keyring_order(2)] moves_cases

lemma ringing_reads: "reads f \<Longrightarrow> moves keyring f"
  unfolding reads_def moves_def keyring_def by (metis held_faults)

lemma reads_cases:
  "(b \<Longrightarrow> reads f) \<Longrightarrow> (\<not> b \<Longrightarrow> reads g) \<Longrightarrow> reads (if b then f else g)"
  "(y = None \<Longrightarrow> reads f) \<Longrightarrow> (\<And>x. y = Some x \<Longrightarrow> reads (h x)) \<Longrightarrow> reads (case y of None \<Rightarrow> f | Some x \<Rightarrow> h x)"
  by (simp_all split: option.split)

lemma reads_more [reading]: "reads (ok_or c x)" "reads (checked z)" "reads (or_crash x)"
  by (simp_all add: ok_or_def checked_def or_crash_def reading split: option.split sum.split)

lemma get_value_as_find: "stored (store_get_value k) e = (case find k e of
    (Good (Some v), e') \<Rightarrow> (Good v, e') | (Good None, e') \<Rightarrow> (Bad (status_of_store InvalidArgument), e')
  | (Bad c, e') \<Rightarrow> (Bad c, e') | (Crash, e') \<Rightarrow> (Crash, e'))"
  by (auto simp: stored_def store_get_value_def find_def split: prod.splits sum.splits option.splits)

lemma get_value_reads [reading]: "reads (stored (store_get_value k))"
  unfolding reads_def
proof
  fix e
  obtain fs where "snd (find k e) = e\<lparr>failing := fs\<rparr>" using find_reads unfolding reads_def by blast
  then show "\<exists>fs. snd (stored (store_get_value k) e) = e\<lparr>failing := fs\<rparr>"
    unfolding get_value_as_find by (cases "find k e") (auto split: outcome.split option.split)
qed

lemma get_value_result: "stored (store_get_value k) e = (Good v, e') \<Longrightarrow> held e k = Some v"
  unfolding get_value_as_find by (auto dest!: find_result split: prod.splits outcome.splits option.splits)

lemma internal_reads: "reads f \<Longrightarrow> reads (internal f)"
  unfolding reads_def internal_def by (auto split: prod.split outcome.split) (metis snd_conv)+

lemma iter_reads [reading]: "reads (iter_credentials f acc)"
proof -
  have "reads (read_credential k)" for k unfolding read_credential_def by (intro reading internal_reads)
  then have "reads (fold_credentials f ks acc)" for ks
    by (induction ks arbitrary: acc) (auto intro!: reading)
  moreover have "reads (stored store_iter)"
  proof -
    have "\<exists>fs. e = e\<lparr>failing := fs\<rparr>" for e :: ctap_env by (rule exI [of _ "failing e"]) simp
    then show ?thesis by (simp add: reads_def stored_def store_iter_def split: option.split)
  qed
  ultimately show ?thesis unfolding iter_credentials_def by (intro reading)
qed

lemma credential_reads [reading]: "reads (get_credential k)" "reads (find_credential_item i)" "reads (find_credential rp i)"
proof -
  show "reads (get_credential k)" unfolding get_credential_def by (intro reading reads_cases)
  show item: "reads (find_credential_item i)" unfolding find_credential_item_def
    by (intro reading reads_cases) (auto intro!: reading split: list.split)
  show "reads (find_credential rp i)"
    using item unfolding reads_def find_credential_def by (auto split: prod.split outcome.split) (metis snd_conv)+
qed

lemma keyring_find:
  assumes "\<And>e. keyring e (snd (g (held e k) e))"
  shows "moves keyring (attempt (find k) g)"
  unfolding moves_def
proof
  fix e
  obtain r e1 where e1: "find k e = (r, e1)" by (cases "find k e")
  from read_state [OF find_reads e1] have same: "held e1 = held e" by auto
  show "keyring e (snd (attempt (find k) g e))"
  proof (cases r)
    case (Good v)
    with e1 have "v = held e1 k" using find_result same by metis
    with assms [of e1] same show ?thesis by (simp add: attempt_def e1 Good keyring_def)
  qed (use same in \<open>simp_all add: attempt_def e1 keyring_def\<close>)
qed

lemma ringing_master [ringing]: "moves keyring key_handle_encryption" "moves keyring key_handle_authentication"
proof -
  have ins: "keyring e e'" if "insert_at STORAGE_KEY v (e\<lparr>drawn := n\<rparr>) = (r, e')" "held e STORAGE_KEY = None" for v e n r e'
    using insert_spares [of STORAGE_KEY _ v] that unfolding keyring_def spares_def
    by (metis ctap_env.select_convs(1) held_update(2) option.distinct(1) snd_conv)
  have "moves keyring (internal f)" if "moves keyring f" for f :: "(bytes \<times> bytes) env_op"
    using that unfolding moves_def internal_def by (auto split: prod.split outcome.split) (metis snd_conv)+
  moreover have "moves keyring (attempt (find STORAGE_KEY) (\<lambda>v.
     attempt (case v of Some x \<Rightarrow> give x
       | None \<Rightarrow> attempt gen_uniform_u8x32 (\<lambda>encryption. attempt gen_uniform_u8x32 (\<lambda>authentication.
           attempt (insert_at STORAGE_KEY (encryption @ authentication)) (\<lambda>_. give (encryption @ authentication)))))
     (\<lambda>keys. if length keys \<noteq> 64 then refuse CTAP2_ERR_VENDOR_INTERNAL_ERROR
        else give (take 32 keys, take 32 (drop 32 keys)))))"
    by (rule keyring_find) (auto simp: attempt_def gen_uniform_u8x32_def give_def refuse_def keyring_order(1) [THEN reflpD]
        split: option.split prod.split outcome.split dest: ins)
  ultimately have [ringing]: "moves keyring get_master_keys" unfolding get_master_keys_def by blast
  show "moves keyring key_handle_encryption" "moves keyring key_handle_authentication"
    unfolding key_handle_encryption_def key_handle_authentication_def by (intro ringing)+
qed

lemma ringing_open [ringing]: "moves keyring (decrypt_credential_id P i h)"
  unfolding decrypt_credential_id_def decrypt_legacy_credential_id_def decrypt_cbor_credential_id_def aes256_cbc_decrypt_def Let_def
  by (intro ringing)

section \<open>Which credential is found\<close>

definition on_device :: "ctap_env \<Rightarrow> string \<Rightarrow> credential \<Rightarrow> bool" where
  "on_device e rp c \<longleftrightarrow> (\<exists>k v. is_credential_key k \<and> held e k = Some v \<and> deserialize_credential v = Some c \<and> cr_rp_id c = rp)"

definition opened :: "primitives \<Rightarrow> ctap_env \<Rightarrow> bytes \<Rightarrow> credential \<Rightarrow> bool" where
  "opened P e hash c \<longleftrightarrow> (\<exists>e1 e2. keyring e e1 \<and> decrypt_credential_id P (cr_id c) hash e1 = (Good (Some c), e2))"

lemma storage_key_apart: "is_credential_key k \<Longrightarrow> k \<noteq> STORAGE_KEY"
  by (auto simp: is_credential_key_def CREDENTIALS_def STORAGE_KEY_def)

lemma on_device_later: "keyring e e' \<Longrightarrow> on_device e' rp c \<Longrightarrow> on_device e rp c"
  unfolding on_device_def keyring_def using storage_key_apart by metis

lemma opened_later: "keyring e e' \<Longrightarrow> opened P e' hash c \<Longrightarrow> opened P e hash c"
  unfolding opened_def using transpD [OF keyring_order(2)] by blast

lemma read_credential_result:
  assumes "read_credential k e = (Good c, e')"
  shows "\<exists>v. held e k = Some v \<and> deserialize_credential v = Some c"
proof -
  obtain v e1 where v: "internal (stored (store_get_value k)) e = (Good v, e1)"
      "ok_or CTAP2_ERR_VENDOR_INTERNAL_ERROR (deserialize_credential v) e1 = (Good c, e')"
    using assms unfolding read_credential_def by (elim attempt_result)
  from v(1) have "stored (store_get_value k) e = (Good v, e1)" by (auto simp: internal_def split: prod.splits outcome.splits)
  from get_value_result [OF this] v(2) show ?thesis by (auto simp: ok_or_def refuse_def give_def split: option.splits)
qed

text \<open>What a loop over the credentials keeps true of its accumulator, if every step keeps it for a credential of the store.\<close>

lemma iter_invariant:
  assumes "iter_credentials f acc e = (Good y, e')" and "I acc"
    and step: "\<And>k c a b v. is_credential_key k \<Longrightarrow> held e k = Some v \<Longrightarrow> deserialize_credential v = Some c \<Longrightarrow> I a
      \<Longrightarrow> f k c a = Inr b \<Longrightarrow> I b"
  shows "I y"
proof -
  have fold: "I y" if "fold_credentials f ks a e1 = (Good y, e')" "held e1 = held e" "I a" for ks a e1
    using that
  proof (induction ks arbitrary: a e1)
    case (Cons k ks)
    show ?case
    proof (cases "is_credential_key k")
      case True
      with Cons.prems(1) obtain c e2 b e3 where c: "read_credential k e1 = (Good c, e2)" "checked (f k c a) e2 = (Good b, e3)"
          "fold_credentials f ks b e3 = (Good y, e')"
        by (auto elim!: attempt_result)
      have "reads (read_credential k)" unfolding read_credential_def by (intro reading internal_reads)
      from read_state [OF this c(1)] have "held e2 = held e" using Cons.prems(2) by auto
      moreover have "f k c a = Inr b" "e3 = e2" using c(2) by (auto simp: checked_def refuse_def give_def split: sum.splits)
      ultimately show ?thesis
        using Cons.IH [OF c(3)] step [OF True] read_credential_result [OF c(1)] Cons.prems(2,3) by metis
    qed (use Cons in simp)
  qed (simp add: give_def)
  obtain ks e1 where k: "stored store_iter e = (Good ks, e1)" "fold_credentials f ks acc e1 = (Good y, e')"
    using assms(1) unfolding iter_credentials_def by (elim attempt_result)
  from k(1) have "e1 = e" by (auto simp: stored_def store_iter_def split: option.splits)
  with fold [OF k(2)] assms(2) show ?thesis by simp
qed

lemma find_credential_result:
  assumes "find_credential rp i e = (Good (Some c), e')"
  shows "on_device e rp c \<and> cr_id c = i"
proof -
  obtain k where item: "find_credential_item i e = (Good (k, c), e')" and rp: "cr_rp_id c = rp"
    using assms by (auto simp: find_credential_def split: prod.splits outcome.splits if_splits)
  obtain found e1 where f: "iter_credentials (\<lambda>k c found. Inr (if cr_id c = i then found @ [(k, c)] else found)) [] e = (Good found, e1)"
      and one: "(k, c) \<in> set found"
    using item unfolding find_credential_item_def
    by (auto elim!: attempt_result simp: refuse_def give_def split: if_splits list.splits)
  have "\<forall>(k, c) \<in> set found. is_credential_key k \<and> cr_id c = i \<and> (\<exists>v. held e k = Some v \<and> deserialize_credential v = Some c)"
    by (rule iter_invariant [OF f]) (auto split: if_splits)
  with one rp show ?thesis by (auto simp: on_device_def)
qed

lemma decrypt_result: "decrypt_credential_id P i h e = (Good (Some c), e') \<Longrightarrow> cr_id c = i"
  unfolding decrypt_credential_id_def Let_def
  by (auto elim!: attempt_result simp: give_def split: if_splits option.splits)

lemma find_allowed_result:
  assumes "find_allowed S ds rp hash uv e = (Good (Some c), e')"
  shows "cr_id c \<in> cd_id ` set ds \<and> (uv \<or> cr_policy c \<noteq> Some UserVerificationRequired) \<and> (on_device e rp c \<or> opened (prims S) e hash c)"
  using assms
proof (induction ds arbitrary: e)
  case (Cons d ds)
  obtain x e1 where x: "find_credential rp (cd_id d) e = (Good x, e1)"
      "(if check_cred_protect x uv then give x else attempt (decrypt_credential_id (prims S) (cd_id d) hash)
         (\<lambda>c. if check_cred_protect c uv then give c else find_allowed S ds rp hash uv)) e1 = (Good (Some c), e')"
    using Cons.prems by (auto elim!: attempt_result)
  have k1: "keyring e e1" using movesD [OF ringing_reads [OF credential_reads(3)] x(1)] .
  show ?case
  proof (cases "check_cred_protect x uv")
    case True
    with x(2) have "x = Some c" by (simp add: give_def)
    with True find_credential_result x(1) show ?thesis by (auto simp: check_cred_protect_def)
  next
    case False
    with x(2) obtain y e2 where y: "decrypt_credential_id (prims S) (cd_id d) hash e1 = (Good y, e2)"
        "(if check_cred_protect y uv then give y else find_allowed S ds rp hash uv) e2 = (Good (Some c), e')"
      by (auto elim!: attempt_result)
    show ?thesis
    proof (cases "check_cred_protect y uv")
      case True
      with y(2) have "y = Some c" by (simp add: give_def)
      with True y(1) k1 decrypt_result show ?thesis by (auto simp: check_cred_protect_def opened_def)
    next
      case False
      with y(2) have "find_allowed S ds rp hash uv e2 = (Good (Some c), e')" by simp
      from Cons.IH [OF this] have r: "cr_id c \<in> cd_id ` set ds" "uv \<or> cr_policy c \<noteq> Some UserVerificationRequired"
        "on_device e2 rp c \<or> opened (prims S) e2 hash c" by auto
      have "keyring e e2" using transpD [OF keyring_order(2) k1 movesD [OF ringing_open y(1)]] .
      with r show ?thesis using on_device_later opened_later by (metis image_insert insertI2 list.simps(15))
    qed
  qed
qed (simp add: give_def)

lemma get_credential_result:
  "get_credential k e = (Good c, e') \<Longrightarrow> \<exists>v. held e k = Some v \<and> deserialize_credential v = Some c"
  unfolding get_credential_def
  by (auto elim!: attempt_result simp: inspect_def ok_or_def refuse_def give_def dest!: find_result split: if_splits option.splits)

lemma find_stored_result:
  assumes "find_stored rp uv e = (Good (Some c, ks), e')"
  shows "on_device e rp c \<and> (uv \<or> is_discoverable c)"
proof -
  let ?f = "\<lambda>k c found. Inr (if cr_rp_id c = rp \<and> (uv \<or> is_discoverable c) then found @ [(k, cr_order c)] else found)"
  obtain found e1 where f: "iter_credentials ?f [] e = (Good found, e1)"
      and last: "map fst (sort_key snd found) \<noteq> []" "get_credential (last (map fst (sort_key snd found))) e1 = (Good c, e')"
    using assms unfolding find_stored_def Let_def by (auto elim!: attempt_result simp: give_def split: if_splits)
  have "\<forall>(k, n) \<in> set found. is_credential_key k \<and> (\<exists>c v. held e k = Some v \<and> deserialize_credential v = Some c
      \<and> cr_rp_id c = rp \<and> (uv \<or> is_discoverable c))"
    by (rule iter_invariant [OF f]) (auto split: if_splits)
  moreover have "last (map fst (sort_key snd found)) \<in> fst ` set found"
    using last_in_set [OF last(1)] by simp
  moreover have "held e1 = held e" using read_state [OF iter_reads f] by auto
  ultimately show ?thesis using get_credential_result [OF last(2)] by (force simp: on_device_def)
qed

section \<open>What the client and the user did\<close>

lemma in_env_result: "in_env f s = (Good x, s') \<Longrightarrow> \<exists>e'. f (au_env s) = (Good x, e') \<and> s' = s\<lparr>au_env := e'\<rparr>"
  by (auto simp: in_env_def split: prod.splits)

lemma ask_pin_result: "ask_pin f s = (Good x, s') \<Longrightarrow> f (au_pin s) = Inr x \<and> s' = s"
  by (auto simp: ask_pin_def attempt_def inspect_def checked_def refuse_def give_def split: sum.splits)

lemma presence_result:
  "check_user_presence S r s = (Good u, s') \<Longrightarrow> s' = s\<lparr>au_asked := au_asked s @ [(r, Approved)]\<rparr>"
  by (cases "answers S (length (au_asked s))")
    (auto simp: check_user_presence_def attempt_def inspect_def change_def checked_def refuse_def give_def)

text \<open>The client's token: it is in use, signed the client data, carries the permission and the flag of a verified user, and is for
  this relying party or for none in particular; and there is a PIN.\<close>

definition token_holds :: "setting \<Rightarrow> bytes \<Rightarrow> bytes \<Rightarrow> pin_uv_auth_protocol option \<Rightarrow> pin_permission \<Rightarrow> string \<Rightarrow> authenticator \<Rightarrow> bool" where
  "token_holds S h a v wanted rp s \<longleftrightarrow> hash_of_pin (au_env s) \<noteq> None
     \<and> (\<exists>w. v = Some w \<and> verify_pin_uv_auth_token (prims S) h a w (au_pin s) = Inr ())
     \<and> has_permission wanted (au_pin s) = Inr () \<and> check_user_verified_flag (au_pin s) = Inr ()
     \<and> fst (ensure_rp_id_permission rp (au_pin s)) = Inr ()"

definition only_reads :: "authenticator \<Rightarrow> authenticator \<Rightarrow> bool" where
  "only_reads s s' \<longleftrightarrow> au_asked s' = au_asked s \<and> held (au_env s') = held (au_env s)"

lemma verify_token_result:
  assumes "verify_token S h a v wanted rp s = (Good u, s')"
  shows "token_holds S h a v wanted rp s \<and> only_reads s s'"
proof -
  obtain hash s1 where h: "in_env pin_hash s = (Good hash, s1)" "hash \<noteq> None"
      "attempt (ok_or_missing v) (\<lambda>protocol.
        attempt (ask_pin (verify_pin_uv_auth_token (prims S) h a protocol)) (\<lambda>_.
        attempt (ask_pin (has_permission wanted)) (\<lambda>_. attempt (ask_pin check_user_verified_flag) (\<lambda>_. ensure_rp_id rp)))) s1 = (Good u, s')"
    using assms unfolding verify_token_def by (auto elim!: attempt_result simp: refuse_def split: if_splits)
  obtain e1 where e1: "pin_hash (au_env s) = (Good hash, e1)" "s1 = s\<lparr>au_env := e1\<rparr>" using in_env_result [OF h(1)] by blast
  have held: "held e1 = held (au_env s)" using read_state [OF pin_hash_reads e1(1)] by auto
  obtain w where w: "v = Some w" "verify_pin_uv_auth_token (prims S) h a w (au_pin s1) = Inr ()" "has_permission wanted (au_pin s1) = Inr ()"
      "check_user_verified_flag (au_pin s1) = Inr ()" "ensure_rp_id rp s1 = (Good u, s')"
    using h(3) by (cases v) (auto elim!: attempt_result dest!: ask_pin_result simp: ok_or_missing_def ok_or_def refuse_def give_def)
  have "fst (ensure_rp_id_permission rp (au_pin s1)) = Inr () \<and> only_reads s1 s'"
    using w(5) by (auto simp: ensure_rp_id_def attempt_def inspect_def change_def checked_def refuse_def give_def only_reads_def
        split: prod.splits sum.splits)
  with w h(2) pin_hash_gives [OF e1(1)] e1(2) held show ?thesis by (auto simp: token_holds_def only_reads_def)
qed

lemma precheck_result: "pin_uv_auth_precheck S a v s = (Good u, s') \<Longrightarrow> s' = s"
  by (auto simp: pin_uv_auth_precheck_def give_def refuse_def elim!: attempt_result split: option.splits if_splits)

definition assertion_flags :: "get_assertion_params \<Rightarrow> u8" where
  "assertion_flags p = (if ga_auth_param p \<noteq> None then UV_FLAG else 0) OR (if go_up (ga_options p) then UP_FLAG else 0)
     OR (if gx_hmac_secret (ga_extensions p) \<noteq> None \<or> gx_cred_blob (ga_extensions p) then ED_FLAG else 0)"

lemma has_always_uv_reads [reading]: "reads has_always_uv"
  unfolding has_always_uv_def by (intro reading reads_cases)

lemma get_assertion_flags_result:
  assumes "get_assertion_flags S p s = (Good flags, s')"
  shows "flags = assertion_flags p \<and> only_reads s s' \<and>
    (\<forall>a. ga_auth_param p = Some a \<longrightarrow> token_holds S (ga_client_data_hash p) a (ga_auth_protocol p) GetAssertion (ga_rp_id p) s)"
proof (cases "ga_auth_param p")
  case (Some a)
  from assms obtain s1 u where "verify_token S (ga_client_data_hash p) a (ga_auth_protocol p) GetAssertion (ga_rp_id p) s = (Good u, s1)"
      "s' = s1" "flags = assertion_flags p"
    unfolding get_assertion_flags_def
    by (auto simp: Some Let_def give_def assertion_flags_def or.assoc elim!: attempt_result split: if_splits)
  with verify_token_result Some show ?thesis by auto
next
  case None
  have "only_reads s s1" if run: "(if go_up (ga_options p) then in_env has_always_uv else give False) s = (y, s1)" for y s1
  proof (cases "go_up (ga_options p)")
    case True
    then obtain e1 where "has_always_uv (au_env s) = (y, e1)" "s1 = s\<lparr>au_env := e1\<rparr>"
      using run by (auto simp: in_env_def split: prod.splits)
    with read_state [OF has_always_uv_reads this(1)] show ?thesis by (auto simp: only_reads_def)
  qed (use run in \<open>auto simp: give_def only_reads_def\<close>)
  with assms show ?thesis
    unfolding get_assertion_flags_def by (auto simp: None Let_def give_def refuse_def assertion_flags_def or.assoc elim!: attempt_result split: if_splits)
qed

definition asks_no_one :: "authenticator \<Rightarrow> authenticator \<Rightarrow> bool" where
  "asks_no_one s s' \<longleftrightarrow> au_asked s' = au_asked s"

lemma asks_no_one_order: "reflp asks_no_one" "transp asks_no_one"
  by (auto simp: asks_no_one_def intro: reflpI transpI)

lemmas unasking = moves_simple [OF asks_no_one_order(1)] moves_attempt [OF asks_no_one_order(2)] moves_cases

lemma unasking_basic: "moves asks_no_one (in_env f)" "moves asks_no_one (in_pin g)" "moves asks_no_one (set_command now cmd ch)"
  "moves asks_no_one (change (\<lambda>s. s\<lparr>au_pin := k s\<rparr>))"
proof -
  show "moves asks_no_one (set_command now cmd ch)"
    by (cases cmd) (auto simp: moves_def asks_no_one_def set_command_def attempt_def or_crash_def crash_def give_def change_def
        split: option.splits prod.splits outcome.splits)
qed (simp_all add: moves_def asks_no_one_def in_env_def in_pin_def change_def split: prod.split)

lemma unasking_extensions: "moves asks_no_one (assertion_extensions S c i)"
  unfolding assertion_extensions_def Let_def by (intro unasking unasking_basic)

lemma auth_data_result: "generate_auth_data h f e = (Good d, e') \<Longrightarrow> \<exists>n. d = h @ [f] @ be_bytes32 n"
  unfolding generate_auth_data_def by (auto simp: give_def elim!: attempt_result)

definition signed_with :: "signers \<Rightarrow> private_key \<Rightarrow> bytes \<Rightarrow> bytes \<Rightarrow> bool" where
  "signed_with K key m sig \<longleftrightarrow> sign_and_encode K key m () = (Good sig, ())"

lemma sign_result: "sign_and_encode K key m s = (Good sig, s') \<Longrightarrow> signed_with K key m sig \<and> s' = s"
  by (auto simp: signed_with_def sign_and_encode_def ecdsa_key_from_seed_def attempt_def give_def refuse_def split: private_key.splits if_splits)

lemma assertion_response_result:
  assumes "assertion_response S c i n nxt s = (Good r, s')"
  obtains a ext where "r = (if nxt then NextAssertion a else Assertion a)" and "ra_auth_data a = ai_auth_data i @ ext"
    and "signed_with (signing S) (cr_key c) (ra_auth_data a @ ai_client_data_hash i) (ra_signature a)"
    and "ra_credential a = Some \<lparr>cd_type = PublicKey, cd_id = cr_id c, cd_transports = None\<rparr>"
    and "ra_user a = assertion_user c (ai_has_uv i)" and "asks_no_one s s'"
proof -
  obtain ext s1 sig where x: "assertion_extensions S c i s = (Good ext, s1)"
      "sign_and_encode (signing S) (cr_key c) ((ai_auth_data i @ ext) @ ai_client_data_hash i) s1 = (Good sig, s')"
      "r = (let r = \<lparr>ra_credential = Some \<lparr>cd_type = PublicKey, cd_id = cr_id c, cd_transports = None\<rparr>, ra_auth_data = ai_auth_data i @ ext,
         ra_signature = sig, ra_user = assertion_user c (ai_has_uv i), ra_number_of_credentials = map_option word_of_nat n,
         ra_large_blob_key = (if gx_large_blob_key (ai_extensions i) = Some True then cr_large_blob_key c else None)\<rparr>
     in if nxt then NextAssertion r else Assertion r)"
    using assms unfolding assertion_response_def Let_def
    by (auto elim!: attempt_result simp: give_def dest: sign_result)
  with movesD [OF unasking_extensions x(1)] sign_result [OF x(2)] show thesis
    by (intro that [where ext = ext]) (auto simp: Let_def)
qed

section \<open>What an assertion says\<close>

text \<open>The credential the request gives a right to: without an allow list one that the device holds for the relying party, discoverable
  unless the user was verified; else one of the list, held or sealed for the relying party, that does not insist on verification.\<close>

definition rightful :: "setting \<Rightarrow> get_assertion_params \<Rightarrow> ctap_env \<Rightarrow> credential \<Rightarrow> bool" where
  "rightful S p e c = (case ga_allow_list p of
     None \<Rightarrow> on_device e (ga_rp_id p) c \<and> (ga_auth_param p \<noteq> None \<or> is_discoverable c)
   | Some ds \<Rightarrow> cr_id c \<in> cd_id ` set ds \<and> (ga_auth_param p \<noteq> None \<or> cr_policy c \<noteq> Some UserVerificationRequired)
       \<and> (on_device e (ga_rp_id p) c \<or> opened (prims S) e (sha256 (prims S) (bytes_of (ga_rp_id p))) c))"

definition assertion_question :: "setting \<Rightarrow> get_assertion_params \<Rightarrow> (string \<times> consent) list" where
  "assertion_question S p = (if go_up (ga_options p)
     then [(ga_rp_id p @ newline @ localized S ''vault2.fido.get_assertion'', Approved)] else [])"

lemma only_reads_back: "only_reads s s' \<Longrightarrow> on_device (au_env s') rp c = on_device (au_env s) rp c"
    "only_reads s s' \<Longrightarrow> opened P (au_env s') h c = opened P (au_env s) h c"
  by (simp_all add: only_reads_def on_device_def opened_def keyring_def)

lemma chosen_result:
  assumes "(case ga_allow_list p of
        Some ds \<Rightarrow> attempt (in_env (find_allowed S ds (ga_rp_id p) (sha256 (prims S) (bytes_of (ga_rp_id p))) (ga_auth_param p \<noteq> None)))
          (\<lambda>c. give (c, []))
      | None \<Rightarrow> in_env (find_stored (ga_rp_id p) (ga_auth_param p \<noteq> None))) s = (Good (Some c, ks), s')"
  shows "rightful S p (au_env s) c \<and> asks_no_one s s'"
proof (cases "ga_allow_list p")
  case None
  with assms obtain e where "find_stored (ga_rp_id p) (ga_auth_param p \<noteq> None) (au_env s) = (Good (Some c, ks), e)" "s' = s\<lparr>au_env := e\<rparr>"
    by (auto dest!: in_env_result)
  with find_stored_result None show ?thesis by (auto simp: rightful_def asks_no_one_def)
next
  case (Some ds)
  with assms obtain e where "find_allowed S ds (ga_rp_id p) (sha256 (prims S) (bytes_of (ga_rp_id p))) (ga_auth_param p \<noteq> None) (au_env s)
      = (Good (Some c), e)" "s' = s\<lparr>au_env := e\<rparr>"
    by (auto dest!: in_env_result elim!: attempt_result simp: give_def)
  with find_allowed_result Some show ?thesis by (auto simp: rightful_def asks_no_one_def)
qed

lemma ok_or_result: "ok_or c v s = (Good y, s') \<Longrightarrow> (v = Some y \<Longrightarrow> s' = s \<Longrightarrow> thesis) \<Longrightarrow> thesis"
  by (auto simp: ok_or_def refuse_def give_def split: option.splits)

lemma steps_result:
  assumes "attempt pre (\<lambda>_. if b then refuse e else attempt flags (\<lambda>f. attempt found (\<lambda>(x, ks). attempt (ok_or e' x) (\<lambda>c.
      attempt ask (\<lambda>_ :: unit. attempt tick (\<lambda>_ :: unit. attempt (data f) (\<lambda>d. attempt (keep d ks) (\<lambda>_ :: unit. resp c d ks))))))))
      s = (Good y, s')"
  obtains u s0 f s1 c ks s2 s3 s4 d s5 s6 where "pre s = (Good u, s0)" "flags s0 = (Good f, s1)" "found s1 = (Good (Some c, ks), s2)"
    "ask s2 = (Good (), s3)" "tick s3 = (Good (), s4)" "data f s4 = (Good d, s5)" "keep d ks s5 = (Good (), s6)"
    "resp c d ks s6 = (Good y, s')"
  using assms by (auto elim!: attempt_result ok_or_result simp: refuse_def split: if_splits prod.splits)

text \<open>C1: A signed assertion tells the truth, whatever requests to the database fail: it is made with a credential the request gives a
  right to (of the same relying party, in the allow list if there is one, discoverable or unprotected unless the user was verified), its
  authenticator data starts with the hash of the relying party, flags that claim presence and verification exactly as asked,
  and the counter, and the signature over them and the client data is by that credential's key.  Presence is claimed only when the
  user has just approved the request, once, under the name of the relying party; verification only with a token that holds.\<close>

theorem assertion_tells_the_truth:
  assumes "process_get_assertion S p ch now s = (Good (Assertion r), s')"
  shows "\<exists>c n ext. rightful S p (au_env s) c
    \<and> ra_credential r = Some \<lparr>cd_type = PublicKey, cd_id = cr_id c, cd_transports = None\<rparr>
    \<and> ra_user r = assertion_user c (ga_auth_param p \<noteq> None)
    \<and> ra_auth_data r = sha256 (prims S) (bytes_of (ga_rp_id p)) @ [assertion_flags p] @ be_bytes32 n @ ext
    \<and> signed_with (signing S) (cr_key c) (ra_auth_data r @ ga_client_data_hash p) (ra_signature r)
    \<and> au_asked s' = au_asked s @ assertion_question S p
    \<and> (\<forall>a. ga_auth_param p = Some a \<longrightarrow> token_holds S (ga_client_data_hash p) a (ga_auth_protocol p) GetAssertion (ga_rp_id p) s)"
proof -
  let ?ask = "if go_up (ga_options p) then attempt (check_user_presence S (ga_rp_id p @ newline @ localized S ''vault2.fido.get_assertion''))
      (\<lambda>_. change (\<lambda>s. s\<lparr>au_pin := clear_token_flags (au_pin s)\<rparr>)) else give ()"
  obtain u0 s0 flags s1 c ks s2 s3 s4 auth_data s5 s6 where
    pre: "pin_uv_auth_precheck S (ga_auth_param p) (ga_auth_protocol p) s = (Good u0, s0)"
    and flags: "get_assertion_flags S p s0 = (Good flags, s1)"
    and found: "(case ga_allow_list p of
        Some ds \<Rightarrow> attempt (in_env (find_allowed S ds (ga_rp_id p) (sha256 (prims S) (bytes_of (ga_rp_id p))) (ga_auth_param p \<noteq> None)))
          (\<lambda>c. give (c, []))
      | None \<Rightarrow> in_env (find_stored (ga_rp_id p) (ga_auth_param p \<noteq> None))) s1 = (Good (Some c, ks), s2)"
    and ask: "?ask s2 = (Good (), s3)"
    and count: "in_env increment_global_signature_counter s3 = (Good (), s4)"
    and data: "in_env (generate_auth_data (sha256 (prims S) (bytes_of (ga_rp_id p))) flags) s4 = (Good auth_data, s5)"
    and hold: "(if ks = [] then give () else set_command now (PendingAssertions \<lparr>ai_client_data_hash = ga_client_data_hash p,
        ai_auth_data = auth_data, ai_extensions = ga_extensions p, ai_has_uv = (ga_auth_param p \<noteq> None)\<rparr> ks) ch) s5 = (Good (), s6)"
    and resp: "assertion_response S c \<lparr>ai_client_data_hash = ga_client_data_hash p,
        ai_auth_data = auth_data, ai_extensions = ga_extensions p, ai_has_uv = (ga_auth_param p \<noteq> None)\<rparr>
        (if ks = [] then None else Some (length ks + 1)) False s6 = (Good (Assertion r), s')"
    using assms unfolding process_get_assertion_def Let_def
    by (rule steps_result) (rule that)
  have "s0 = s" using precheck_result [OF pre] .
  with get_assertion_flags_result [OF flags] have f: "flags = assertion_flags p" "only_reads s s1"
    "\<forall>a. ga_auth_param p = Some a \<longrightarrow> token_holds S (ga_client_data_hash p) a (ga_auth_protocol p) GetAssertion (ga_rp_id p) s" by auto
  from chosen_result [OF found] only_reads_back [OF f(2)] have c: "rightful S p (au_env s) c" "asks_no_one s1 s2"
    by (auto simp: rightful_def split: option.splits)
  have asked: "au_asked s3 = au_asked s2 @ assertion_question S p"
    using ask by (auto simp: assertion_question_def give_def change_def elim!: attempt_result dest!: presence_result split: if_splits)
  obtain n where n: "auth_data = sha256 (prims S) (bytes_of (ga_rp_id p)) @ [flags] @ be_bytes32 n"
    using in_env_result [OF data] auth_data_result by blast
  have "moves asks_no_one (if ks = [] then give () else set_command now (PendingAssertions \<lparr>ai_client_data_hash = ga_client_data_hash p,
        ai_auth_data = auth_data, ai_extensions = ga_extensions p, ai_has_uv = (ga_auth_param p \<noteq> None)\<rparr> ks) ch)"
    by (intro unasking unasking_basic)
  from movesD [OF this hold] movesD [OF unasking_basic(1) count] movesD [OF unasking_basic(1) data]
  have quiet: "au_asked s6 = au_asked s3" by (simp add: asks_no_one_def)
  from resp show ?thesis
    by (rule assertion_response_result)
      (use c f asked n quiet in \<open>auto simp: asks_no_one_def only_reads_def intro!: exI [of _ c] exI [of _ n]\<close>)
qed

definition open_credential :: credential where
  "open_credential = sample_credential\<lparr>cr_policy := None\<rparr>"

definition plain_request :: get_assertion_params where
  "plain_request = \<lparr>ga_rp_id = ''a.b'', ga_client_data_hash = [7, 7], ga_allow_list = None, ga_extensions = no_get_assertion_extensions,
     ga_options = default_get_assertion_options, ga_auth_param = None, ga_auth_protocol = None\<rparr>"

lemma signs_after_approval:
  assumes "credentials_ok e" and "credentials_of e = [(1700, c)]" and "held e 1700 = Some v"
    and "deserialize_credential v = Some c" and "cr_rp_id c = ''a.b''" and "is_discoverable c" and "cr_key c = Ecdsa seed"
    and "held e ALWAYS_UV = None" and "custom e = DEFAULT_CUSTOMIZATION" and "held e GLOBAL_SIGNATURE_COUNTER = None"
  shows "\<exists>r s'. process_get_assertion obliging plain_request [1] 7 \<lparr>au_pin = p, au_stateful = cleared, au_blobs = b, au_env = e, au_asked = []\<rparr>
    = (Good (Assertion r), s')"
proof -
  have ok: "failing e = []" "opensk e \<noteq> None" using assms(1) by (cases "opensk e"; auto simp: credentials_ok_def well_listed_def)+
  let ?f = "\<lambda>k c found. Inr (if cr_rp_id c = ''a.b'' \<and> is_discoverable c then found @ [(k, cr_order c)] else found)"
  have "find_stored ''a.b'' False e = (Good (Some c, []), e)"
    using assms iter_run [OF assms(1), of ?f "[]"] ok
    by (simp add: find_stored_def attempt_def bind_parsed_def get_credential_def ok_or_def steps
        Let_def CREDENTIALS_def DEFAULT_CUSTOMIZATION_def inspect_def give_def)
  moreover have "has_always_uv e = (Good False, e)"
    using assms ok by (simp add: has_always_uv_def attempt_def DEFAULT_CUSTOMIZATION_def flag_def steps)
  moreover obtain e1 n where "increment_global_signature_counter e = (Good (), e1)" "failing e1 = []"
      "held e1 GLOBAL_SIGNATURE_COUNTER = Some (le_bytes32 n)"
    using assms ok
    by (auto simp: increment_global_signature_counter_def incr_global_signature_counter_def global_signature_counter_def
        attempt_def DEFAULT_CUSTOMIZATION_def gen_uniform_u8x32_def steps)
  moreover from this obtain d where "generate_auth_data (sha256 flat_primitives (bytes_of ''a.b'')) UP_FLAG e1 = (Good d, e1)"
    by (simp add: generate_auth_data_def global_signature_counter_def attempt_def le_bytes32_def steps)
  ultimately show ?thesis
    using assms(7)
    by (simp add: process_get_assertion_def plain_request_def pin_uv_auth_precheck_def get_assertion_flags_def no_get_assertion_extensions_def
        default_get_assertion_options_def steps attempt_def in_env_def ok_or_def check_user_presence_def obliging_def
        assertion_response_def assertion_extensions_def sign_and_encode_def ecdsa_key_from_seed_def Let_def)
qed

theorem assertion_tells_the_truth_witness:
  "\<exists>s r s' rest. process_get_assertion obliging plain_request [1] 7 s = (Good (Assertion r), s') \<and> au_asked s = []
    \<and> ra_auth_data r = sha256 flat_primitives [97, 46, 98] @ [UP_FLAG] @ rest
    \<and> au_asked s' = [(''a.b'' @ newline @ ''vault2.fido.get_assertion'', Approved)]"
proof -
  have "storable open_credential"
    by (simp add: open_credential_def sample_credential_def storable_def Let_def utf8_ok_def utf8_lead_def)
  then obtain bs where bs: "deserialize_credential bs = Some open_credential" by (rule credential_record_round_trip)
  let ?e = "put 1700 bs listed_env"
  have none: "credentials_of listed_env = []"
    by (simp add: credentials_of_def listed_env_def put_def dict_of_def empty_env_def Let_def key_numbers_small AAGUID_def)
  have one: "credentials_of ?e = [(1700, open_credential)]"
    using bs none by (simp add: credentials_of_put key_numbers_small)
  have "credentials_ok ?e"
    using one bs by (simp add: credentials_ok_def) (simp add: listed_env_def well_listed_def put_def dict_of_def empty_env_def Let_def
        key_numbers_small AAGUID_def DEFAULT_CUSTOMIZATION_def)
  moreover have "held ?e 1700 = Some bs" "held ?e ALWAYS_UV = None" "held ?e GLOBAL_SIGNATURE_COUNTER = None"
    "custom ?e = DEFAULT_CUSTOMIZATION"
    by (simp_all add: listed_env_def ALWAYS_UV_def GLOBAL_SIGNATURE_COUNTER_def AAGUID_def)
      (simp_all add: empty_env_def held_def dict_of_def put_def Let_def)
  ultimately have "\<exists>r s'. process_get_assertion obliging plain_request [1] 7
      \<lparr>au_pin = p, au_stateful = cleared, au_blobs = b, au_env = ?e, au_asked = []\<rparr> = (Good (Assertion r), s')" for p b
    using one bs by (intro signs_after_approval [of _ open_credential bs "replicate 32 7"]) (simp_all add: open_credential_def sample_credential_def is_discoverable_def)
  then obtain s r s' where run: "process_get_assertion obliging plain_request [1] 7 s = (Good (Assertion r), s')" and new: "au_asked s = []"
    by (metis authenticator.select_convs(5))
  from assertion_tells_the_truth [OF run] new obtain rest where
    "ra_auth_data r = sha256 (prims obliging) (bytes_of (ga_rp_id plain_request)) @ [assertion_flags plain_request] @ rest"
    "au_asked s' = assertion_question obliging plain_request" by auto
  then have "ra_auth_data r = sha256 flat_primitives [97, 46, 98] @ [UP_FLAG] @ rest"
      "au_asked s' = [(''a.b'' @ newline @ ''vault2.fido.get_assertion'', Approved)]"
    by (simp_all add: plain_request_def obliging_def assertion_flags_def assertion_question_def default_get_assertion_options_def
        no_get_assertion_extensions_def bytes_of_def)
  with run new show ?thesis by blast
qed

end
