(* ===== verification/Ctap_Consent.thy ===== *)
theory Ctap_Consent
  imports Ctap_Session Ctap_Hid Vault_Store
begin

text \<open>
  How the security key asks its user (\<open>src/env/xous/mod.rs\<close>).  For CTAP2 the thread of the security key shows a dialogue and looks
  at the last key until it approves, denies or the time is over.  For U2F a thread of its own holds a dialogue open while the host
  polls: the server of \<open>Ctap1Op\<close>, with a timer that closes a dialogue left behind.  Keys are the code points the keyboard
  gives.  The clock does not advance within one turn; the dialogue service and the messages between the threads are assumed to work.
\<close>

section \<open>Asking for CTAP2\<close>

text \<open>The middle and the jog button, up, left, right, and \<open>y\<close>.\<close>

definition approve_keys :: "u32 list" where
  "approve_keys = [0x2234, 0x1F525, 0x2191, 0x2190, 0x2192, 0x79]"

definition DENY_KEY :: u32 where "DENY_KEY = 0x2193"

datatype keepalive_status = Processing | UpNeeded

fun keepalive_code :: "keepalive_status \<Rightarrow> u8" where
  "keepalive_code Processing = 0x01"
| "keepalive_code UpNeeded = 0x02"

definition keepalive :: "channel_id \<Rightarrow> keepalive_status \<Rightarrow> hid_packet list" where
  "keepalive cid status = split_message \<lparr>m_cid = cid, m_cmd = Keepalive, m_payload = [keepalive_code status]\<rparr>"

text \<open>What one turn of the loop sees: the clock, the key noted by the listener, and whether the packets can be sent.  The connection
  only sends, so nothing is ever received there.\<close>

record glance =
  g_now :: nat
  g_key :: u32
  g_sends :: bool

datatype fido_effect = ShowDialogue string | UpdateDialogue string | CloseDialogue | RedrawMain | SendPackets "hid_packet list"

datatype waited = Answered consent | SendingPanicked | DurationPanicked

definition countdown :: "string \<Rightarrow> nat \<Rightarrow> string" where
  "countdown reason remaining = reason @ [CHR 0x0A] @ show_nat remaining @ [CHR 0x73, CHR 0x0A, CHR 0xE2, CHR 0xAC, CHR 0x87] @ '' to deny''"

definition closing :: "bool \<Rightarrow> fido_effect list" where
  "closing saved_animate = CloseDialogue # (if saved_animate then [] else [RedrawMain])"

text \<open>The turns from the \<open>i\<close>-th on; the result is the answer, the animation flag and what was done.\<close>

partial_function (option) wait_loop :: "channel_id \<Rightarrow> string \<Rightarrow> nat \<Rightarrow> bool \<Rightarrow> (nat \<Rightarrow> glance) \<Rightarrow> nat \<Rightarrow> nat \<Rightarrow> fido_effect list
    \<Rightarrow> (waited \<times> bool \<times> fido_effect list) option" where
  "wait_loop cid reason expiration saved_animate G i last_remaining out =
     (let remaining = (expiration - g_now (G i)) div 10 ^ 9;
          out = (if last_remaining \<noteq> remaining then out @ [UpdateDialogue (countdown reason remaining)] else out) in
      if remaining = 0 then Some (Answered TimedOut, saved_animate, out @ closing saved_animate)
      else if g_key (G i) \<in> set approve_keys then Some (Answered Approved, saved_animate, out @ closing saved_animate)
      else if g_key (G i) = DENY_KEY then Some (Answered Declined, saved_animate, out @ closing saved_animate)
      else if \<not> g_sends (G i) then Some (SendingPanicked, False, out)
      else wait_loop cid reason expiration saved_animate G (Suc i) remaining (out @ [SendPackets (keepalive cid UpNeeded)]))"

text \<open>\<open>u64::MAX\<close> is no number of remaining seconds.\<close>

definition wait_with_timeout :: "nat \<Rightarrow> string option \<Rightarrow> channel_id \<Rightarrow> bool \<Rightarrow> nat \<Rightarrow> (nat \<Rightarrow> glance)
    \<Rightarrow> (waited \<times> bool \<times> fido_effect list) option" where
  "wait_with_timeout timeout reason cid animate now G =
     (let reason = (case reason of None \<Rightarrow> [] | Some r \<Rightarrow> r) in
      if now + timeout > instant_max then Some (DurationPanicked, False, [])
      else wait_loop cid reason (now + timeout) animate G 0 (2 ^ 64 - 1) [ShowDialogue reason])"

definition TOUCH_TIMEOUT :: nat where "TOUCH_TIMEOUT = 30000 * 10 ^ 6"

section \<open>The server for U2F\<close>

definition U2F_UP_PROMPT_TIMEOUT_MS :: nat where "U2F_UP_PROMPT_TIMEOUT_MS = 10000"
definition MARGIN_MS :: nat where "MARGIN_MS = 2000"
definition U2F_APP_DICT :: string where "U2F_APP_DICT = ''fido.u2fapps''"

datatype ctap1_effect = TimerRun | TimerStop | ShowNotice string string | UpdateNotice string string | CloseNotice
  | StartListener | ReloadScreen

record ctap1_server =
  current_id :: "bytes option"
  denied_id :: "bytes option"
  request_str :: string
  request_start :: nat
  last_remaining :: nat
  kbhit :: u32
  app_pddb :: pddb
  ctap1_out :: "ctap1_effect list"

definition ctap1_server_new :: "pddb \<Rightarrow> ctap1_server" where
  "ctap1_server_new p = \<lparr>current_id = None, denied_id = None, request_str = [], request_start = 0, last_remaining = 0, kbhit = 0,
     app_pddb = p, ctap1_out = []\<rparr>"

text \<open>The texts of the language, the hex crate, the debug form of bytes, and the seconds that are a date of the chrono crate.\<close>

record ctap1_setting =
  u_text :: "string \<Rightarrow> string"
  u_hex_encode :: "bytes \<Rightarrow> string"
  u_hex_decode :: "string \<Rightarrow> bytes option"
  u_debug_bytes :: "bytes \<Rightarrow> string"
  u_timestamp_ok :: "int \<Rightarrow> bool"

definition emit :: "ctap1_effect list \<Rightarrow> ctap1_server \<Rightarrow> ctap1_server" where
  "emit es s = s\<lparr>ctap1_out := ctap1_out s @ es\<rparr>"

text \<open>The time of the last use in words; both times in seconds, durations truncated.\<close>

definition atime_to_str :: "ctap1_setting \<Rightarrow> int \<Rightarrow> u64 \<Rightarrow> string" where
  "atime_to_str E now req_atime =
     (let ago = (\<lambda>n unit. u_text E ''vault.u2f.appinfo.last_authtime'' @ (if n < 0 then ''-'' else []) @ show_nat (nat \<bar>n\<bar>) @ u_text E unit);
          d = now - (if u_timestamp_ok E (sint req_atime) then sint req_atime else 0); per = (\<lambda>n. (if d < 0 then - ((- d) div n) else d div n)) in
      if req_atime = 0 then u_text E ''vault.u2f.appinfo.last_authtime'' @ u_text E ''vault.u2f.appinfo.never''
      else if per 86400 > 1 then ago (per 86400) ''vault.u2f.appinfo.days_ago''
      else if per 3600 > 1 then ago (per 3600) ''vault.u2f.appinfo.hours_ago''
      else if per 60 > 1 then ago (per 60) ''vault.u2f.appinfo.minutes_ago''
      else ago (per 1) ''vault.u2f.appinfo.seconds_ago'')"

text \<open>The record of an application, if there is a readable one; \<open>None\<close> is a panic.\<close>

definition find_app :: "ctap1_setting \<Rightarrow> bytes \<Rightarrow> ctap1_server \<Rightarrow> app_info option option" where
  "find_app E app s = (case pddb_get (app_pddb s) None U2F_APP_DICT (u_hex_encode E app) of
     None \<Rightarrow> Some None
   | Some (_, descriptor) \<Rightarrow> if descriptor = [] then Some None
       else (case deserialize_app_info (u_hex_decode E) descriptor of
           Inl AppPanicked \<Rightarrow> None
         | Inl AppRefused \<Rightarrow> Some None
         | Inr info \<Rightarrow> Some (Some info)))"

definition describe_app :: "ctap1_setting \<Rightarrow> int \<Rightarrow> bytes \<Rightarrow> app_info option \<Rightarrow> string" where
  "describe_app E utc app info = (case info of
     Some info \<Rightarrow> [CHR 0x0A] @ u_text E ''vault.u2f.appinfo.name'' @ a_name info @ [CHR 0x0A] @ atime_to_str E utc (a_atime info)
       @ [CHR 0x0A] @ u_text E ''vault.u2f.appinfo.authcount'' @ show_nat (unat (a_count info))
   | None \<Rightarrow> [CHR 0x0A] @ u_text E ''vault.u2f.appinfo.newapp'' @ [CHR 0x0A] @ ''App ID: '' @ u_debug_bytes E app)"

definition warning :: string where "warning = [CHR 0xE2, CHR 0x9A, CHR 0xA0]"

text \<open>A poll that opens a dialogue.\<close>

definition open_request :: "ctap1_setting \<Rightarrow> nat \<Rightarrow> int \<Rightarrow> bytes \<Rightarrow> ctap1_server \<Rightarrow> (bool \<times> ctap1_server) option" where
  "open_request E now utc app s = (case find_app E app s of None \<Rightarrow> None
   | Some info \<Rightarrow>
      let desc = describe_app E utc app info; remaining = U2F_UP_PROMPT_TIMEOUT_MS div 1000 in
      Some (False, emit [ShowNotice (u_text E ''vault2.fido.get_assertion'')
            (desc @ [CHR 0x0A, CHR 0x0A] @ warning @ ''   '' @ show_nat remaining @ u_text E ''vault.fido.countdown'' @ ''   '' @ warning @ [CHR 0x0A]),
          StartListener, TimerRun]
        (s\<lparr>request_str := desc, request_start := now, last_remaining := remaining, kbhit := 0, current_id := Some app,
           denied_id := None\<rparr>)))"

text \<open>A poll while the dialogue is open.\<close>

definition poll_open :: "ctap1_setting \<Rightarrow> nat \<Rightarrow> ctap1_server \<Rightarrow> bool \<times> ctap1_server" where
  "poll_open E now s =
     (if kbhit s \<noteq> 0 \<and> kbhit s \<noteq> DENY_KEY then (True, emit [TimerStop, CloseNotice] (s\<lparr>current_id := None\<rparr>))
      else if kbhit s = DENY_KEY then (False, emit [TimerStop, CloseNotice] (s\<lparr>denied_id := current_id s, current_id := None\<rparr>))
      else if U2F_UP_PROMPT_TIMEOUT_MS > now - request_start s then
        let new_remaining = (U2F_UP_PROMPT_TIMEOUT_MS - (now - request_start s)) div 1000 in
        (False, if new_remaining \<noteq> last_remaining s
           then emit [UpdateNotice (u_text E ''vault2.fido.get_assertion'') (request_str s @ show_nat new_remaining @ ''s'')]
             (s\<lparr>last_remaining := new_remaining\<rparr>)
           else s)
      else (False, emit [TimerStop, CloseNotice] (s\<lparr>current_id := None, denied_id := None\<rparr>)))"

definition poll_permission :: "ctap1_setting \<Rightarrow> nat \<Rightarrow> int \<Rightarrow> bytes \<Rightarrow> ctap1_server \<Rightarrow> (bool \<times> ctap1_server) option" where
  "poll_permission E now utc app s = (case current_id s of
     Some i \<Rightarrow> if i \<noteq> app then Some (False, emit [TimerStop, CloseNotice] (s\<lparr>current_id := None\<rparr>))
       else Some (poll_open E now s)
   | None \<Rightarrow> (case denied_id s of
       Some denied \<Rightarrow> if now - request_start s < U2F_UP_PROMPT_TIMEOUT_MS \<and> denied = app then Some (False, s)
         else open_request E now utc app (s\<lparr>denied_id := None\<rparr>)
     | None \<Rightarrow> open_request E now utc app s))"

text \<open>The record of an application that was approved; \<open>name\<close> is the answer to the question for its name.\<close>

definition update_app_info :: "ctap1_setting \<Rightarrow> nat \<Rightarrow> string option \<Rightarrow> bytes \<Rightarrow> ctap1_server \<Rightarrow> ctap1_server option" where
  "update_app_info E utc name app s =
     (if app = replicate 32 0 then Some (emit [ReloadScreen] s) else
      case find_app E app s of None \<Rightarrow> None
      | Some found \<Rightarrow>
        (case (found, name) of
           (None, None) \<Rightarrow> None
         | _ \<Rightarrow>
           let info = (case found of Some info \<Rightarrow> info
                 | None \<Rightarrow> \<lparr>a_name = the name, a_id = app, a_notes = u_text E ''vault.notes'', a_ctime = word_of_nat utc, a_atime = 0, a_count = 0\<rparr>);
               info = info\<lparr>a_atime := word_of_nat utc, a_count := (if a_count info = - 1 then - 1 else a_count info + 1)\<rparr>;
               k = u_hex_encode E app;
               p = (case pddb_get (app_pddb s) None U2F_APP_DICT k of None \<Rightarrow> app_pddb s
                 | Some (b, _) \<Rightarrow> pddb_delete_key (app_pddb s) U2F_APP_DICT k b);
               p = (case pddb_get p None U2F_APP_DICT k of
                   Some (b, old) \<Rightarrow> on_basis b (on_dict U2F_APP_DICT (\<lambda>d. d(k \<mapsto>
                     (let new = take PDDB_BUF_DATA_LEN (serialize_app_info (u_hex_encode E) info) in new @ drop (length new) old)))) p
                 | None \<Rightarrow> (case create_basis p None of None \<Rightarrow> p
                     | Some b \<Rightarrow> on_basis b (on_dict U2F_APP_DICT (\<lambda>d. d(k \<mapsto>
                         take PDDB_BUF_DATA_LEN (serialize_app_info (u_hex_encode E) info)))) p))
           in Some (emit [ReloadScreen] (s\<lparr>app_pddb := p\<rparr>))))"

definition force_timeout :: "ctap1_server \<Rightarrow> ctap1_server" where
  "force_timeout s = emit [CloseNotice] (s\<lparr>current_id := None\<rparr>)"

text \<open>The timer: whether it runs and since when.  The flag of a turn says that the dialogue is to be closed; the other, that
  another turn will follow.\<close>

datatype timer_op = Run | Pump | Stop

record timer =
  running :: bool
  start_time :: nat

fun timer_turn :: "nat \<Rightarrow> timer_op \<Rightarrow> timer \<Rightarrow> bool \<times> bool \<times> timer" where
  "timer_turn now Run t = (if running t then (False, False, t) else (False, True, \<lparr>running = True, start_time = now\<rparr>))"
| "timer_turn now Pump t = (if \<not> running t then (False, False, t)
     else if now - start_time t > U2F_UP_PROMPT_TIMEOUT_MS + MARGIN_MS then (True, False, t\<lparr>running := False\<rparr>)
     else (False, True, t))"
| "timer_turn now Stop t = (False, False, t\<lparr>running := False\<rparr>)"

section \<open>What the loop answers\<close>

text \<open>What one look settles.\<close>

definition decided :: "nat \<Rightarrow> glance \<Rightarrow> waited option" where
  "decided expiration g =
     (if (expiration - g_now g) div 10 ^ 9 = 0 then Some (Answered TimedOut)
      else if g_key g \<in> set approve_keys then Some (Answered Approved)
      else if g_key g = DENY_KEY then Some (Answered Declined)
      else if \<not> g_sends g then Some SendingPanicked else None)"

definition restored :: "bool \<Rightarrow> waited \<times> bool \<times> fido_effect list \<Rightarrow> bool" where
  "restored animate r \<longleftrightarrow> (case r of (Answered _, on, out) \<Rightarrow> on = animate \<and> (\<exists>shown. out = shown @ closing animate)
     | (_, on, _) \<Rightarrow> \<not> on)"

lemma wait_step:
  "decided e (G i) = Some w \<Longrightarrow> \<exists>r. wait_loop cid reason e animate G i l out = Some (w, r) \<and> restored animate (w, r)"
  "decided e (G i) = None \<Longrightarrow> \<exists>l' out'. wait_loop cid reason e animate G i l out
     = wait_loop cid reason e animate G (Suc i) l' out'"
  by (subst wait_loop.simps, fastforce simp: decided_def Let_def restored_def split: if_splits)+

lemma wait_first:
  assumes "\<forall>j<n. decided e (G (i + j)) = None" and "decided e (G (i + n)) = Some w"
  shows "\<exists>r. wait_loop cid reason e animate G i l out = Some (w, r) \<and> restored animate (w, r)"
  using assms
proof (induction n arbitrary: i l out)
  case 0
  then show ?case using wait_step(1) by simp
next
  case (Suc n)
  from Suc.prems(1) have "decided e (G i) = None" by force
  then obtain l' out' where step: "wait_loop cid reason e animate G i l out = wait_loop cid reason e animate G (Suc i) l' out'"
    using wait_step(2) by blast
  have "\<forall>j<n. decided e (G (Suc i + j)) = None" using Suc.prems(1) by (metis Suc_less_eq add_Suc_shift)
  with Suc.IH [of "Suc i"] Suc.prems(2) step show ?case by simp
qed

text \<open>C16: Asking the user for consent to a CTAP2 command ends when the clock gets to the end of the time, or before: with the answer of the
  first look that settles it, which is approval only for an approving key before the time is over, and never a cancellation.  Then the
  dialogue is closed and the animation goes on as before, unless a packet could not be sent, which is a panic.\<close>

theorem first_look_settles:
  assumes "now + timeout \<le> instant_max" and "g_now (G n) \<ge> now + timeout"
  shows "\<exists>m w r. wait_with_timeout timeout reason cid animate now G = Some (w, r) \<and> restored animate (w, r)
    \<and> m \<le> n \<and> decided (now + timeout) (G m) = Some w \<and> (\<forall>i<m. decided (now + timeout) (G i) = None)"
proof -
  have "decided (now + timeout) (G n) \<noteq> None" using assms(2) by (simp add: decided_def)
  then obtain m where m: "decided (now + timeout) (G m) \<noteq> None" "\<forall>i<m. decided (now + timeout) (G i) = None"
    using exists_least_iff [of "\<lambda>i. decided (now + timeout) (G i) \<noteq> None"] by auto
  with \<open>decided (now + timeout) (G n) \<noteq> None\<close> have "m \<le> n" by (meson not_le)
  from m(1) obtain w where w: "decided (now + timeout) (G m) = Some w" by blast
  let ?reason = "case reason of None \<Rightarrow> [] | Some r \<Rightarrow> r"
  have "\<forall>j<m. decided (now + timeout) (G (0 + j)) = None" "decided (now + timeout) (G (0 + m)) = Some w" using m(2) w by simp_all
  from wait_first [OF this, of cid ?reason animate "2 ^ 64 - 1" "[ShowDialogue ?reason]"] obtain r where
    "wait_loop cid ?reason (now + timeout) animate G 0 (2 ^ 64 - 1) [ShowDialogue ?reason] = Some (w, r)" "restored animate (w, r)"
    by blast
  with assms(1) w m(2) \<open>m \<le> n\<close> show ?thesis
    unfolding wait_with_timeout_def Let_def by (intro exI [of _ m] exI [of _ w] exI [of _ r]) simp
qed

theorem first_look_settles_witness:
  "\<exists>r. wait_with_timeout TOUCH_TIMEOUT (Some ''a.b'') [0, 0, 0, 1] True 5
     (\<lambda>i. \<lparr>g_now = 5 + i * 20 * 10 ^ 9, g_key = (if i = 0 then 0x1F53D else 0x2191), g_sends = True\<rparr>) = Some (Answered Approved, True, r)"
proof -
  let ?G = "\<lambda>i. \<lparr>g_now = 5 + i * 20 * 10 ^ 9, g_key = (if i = 0 then 0x1F53D else 0x2191), g_sends = True\<rparr>"
  obtain m w on out where r: "wait_with_timeout TOUCH_TIMEOUT (Some ''a.b'') [0, 0, 0, 1] True 5 ?G = Some (w, on, out)"
      "restored True (w, on, out)" "m \<le> 2" "decided (5 + TOUCH_TIMEOUT) (?G m) = Some w"
      "\<forall>i<m. decided (5 + TOUCH_TIMEOUT) (?G i) = None"
    using first_look_settles [of 5 TOUCH_TIMEOUT ?G 2 "Some ''a.b''" "[0, 0, 0, 1]" True]
    by (auto simp: TOUCH_TIMEOUT_def instant_max_def)
  have looks: "decided (5 + TOUCH_TIMEOUT) (?G 0) = None" "decided (5 + TOUCH_TIMEOUT) (?G 1) = Some (Answered Approved)"
    by (simp_all add: decided_def TOUCH_TIMEOUT_def approve_keys_def DENY_KEY_def)
  from r(4) looks(1) have "m \<noteq> 0" by (cases "m = 0") auto
  moreover from r(5) looks(2) have "\<not> 1 < m" by (metis option.distinct(1))
  ultimately have "m = 1" by simp
  with r(1,2,4) looks(2) show ?thesis by (auto simp: restored_def)
qed

section \<open>What the server answers\<close>

text \<open>Everything that reaches the server and the listener, in any order: polls, keys, the timer's request to close, and notes of an
  approval.\<close>

datatype consent_event = Polled nat int bytes | Pressed u32 | TimerCloses | Noted nat "string option" bytes

fun consent_run :: "ctap1_setting \<Rightarrow> consent_event list \<Rightarrow> ctap1_server \<Rightarrow> (bool list \<times> ctap1_server) option" where
  "consent_run E [] s = Some ([], s)"
| "consent_run E (Polled now utc app # es) s = (case poll_permission E now utc app s of None \<Rightarrow> None
   | Some (r, s') \<Rightarrow> map_option (\<lambda>(rs, s''). (r # rs, s'')) (consent_run E es s'))"
| "consent_run E (Pressed c # es) s = consent_run E es (s\<lparr>kbhit := c\<rparr>)"
| "consent_run E (TimerCloses # es) s = consent_run E es (force_timeout s)"
| "consent_run E (Noted utc name app # es) s = (case update_app_info E utc name app s of None \<Rightarrow> None | Some s' \<Rightarrow> consent_run E es s')"

lemma consent_run_append:
  "consent_run E (es @ fs) s = (case consent_run E es s of None \<Rightarrow> None
     | Some (rs, s') \<Rightarrow> map_option (\<lambda>(rs', s''). (rs @ rs', s'')) (consent_run E fs s'))"
  by (induction es s rule: consent_run.induct)
    (auto simp: map_option_case case_prod_unfold split: option.split prod.split)

text \<open>Since the dialogue for an application was opened: polls for it alone, and no closing.\<close>

fun keeps_asking :: "bytes \<Rightarrow> consent_event \<Rightarrow> bool" where
  "keeps_asking i (Polled _ _ j) \<longleftrightarrow> j = i"
| "keeps_asking i TimerCloses \<longleftrightarrow> False"
| "keeps_asking i _ \<longleftrightarrow> True"

fun key_after :: "u32 \<Rightarrow> consent_event list \<Rightarrow> u32" where
  "key_after k [] = k"
| "key_after k (Pressed c # es) = key_after c es"
| "key_after k (_ # es) = key_after k es"

lemma key_after_append [simp]: "key_after k (es @ fs) = key_after (key_after k es) fs"
  by (induction k es rule: key_after.induct) simp_all

lemma key_pressed: "key_after k es \<noteq> k \<Longrightarrow> \<exists>b d. es = b @ Pressed (key_after k es) # d \<and> (\<forall>c. Pressed c \<notin> set d)"
proof (induction es rule: rev_induct)
  case (snoc e es)
  show ?case
  proof (cases "\<exists>c. e = Pressed c")
    case True
    then show ?thesis by (intro exI [of _ es] exI [of _ "[]"]) auto
  next
    case False
    then have "key_after x [e] = x" for x by (cases e) auto
    then have same: "key_after k (es @ [e]) = key_after k es" by simp
    with snoc obtain b d where "es = b @ Pressed (key_after k es) # d" "\<forall>c. Pressed c \<notin> set d" by auto
    with False same show ?thesis by (intro exI [of _ b] exI [of _ "d @ [e]"]) auto
  qed
qed simp

text \<open>A poll that opened the dialogue of an application; and events over which the server ran and took no dialogue down.\<close>

definition dialogue_opened :: "ctap1_setting \<Rightarrow> nat \<Rightarrow> int \<Rightarrow> bytes \<Rightarrow> ctap1_server \<Rightarrow> ctap1_server \<Rightarrow> bool" where
  "dialogue_opened E t u app s s' \<longleftrightarrow> poll_permission E t u app s = Some (False, s')
     \<and> (\<exists>title body. ctap1_out s' = ctap1_out s @ [ShowNotice title body, StartListener, TimerRun])"

definition stays_open :: "ctap1_setting \<Rightarrow> consent_event list \<Rightarrow> ctap1_server \<Rightarrow> ctap1_server \<Rightarrow> bool" where
  "stays_open E es s s' \<longleftrightarrow> (\<exists>rs. consent_run E es s = Some (rs, s'))
     \<and> (\<exists>shown. ctap1_out s' = ctap1_out s @ shown \<and> CloseNotice \<notin> set shown)"

lemma stays_open_nil [simp]: "stays_open E [] s s"
  by (simp add: stays_open_def)

lemma stays_open_append: "stays_open E es s s' \<Longrightarrow> stays_open E fs s' s'' \<Longrightarrow> stays_open E (es @ fs) s s''"
  by (auto simp: stays_open_def consent_run_append)

definition asked_since :: "ctap1_setting \<Rightarrow> pddb \<Rightarrow> consent_event list \<Rightarrow> ctap1_server \<Rightarrow> bool" where
  "asked_since E p es s \<longleftrightarrow> (\<forall>i. current_id s = Some i \<longrightarrow> (\<exists>a t u b rs s0 s1. es = a @ Polled t u i # b \<and> (\<forall>e \<in> set b. keeps_asking i e)
     \<and> kbhit s = key_after 0 b \<and> consent_run E a (ctap1_server_new p) = Some (rs, s0) \<and> dialogue_opened E t u i s0 s1 \<and> stays_open E b s1 s))"

lemma asked_since_extend:
  assumes "asked_since E p es s"
    and "\<And>i. current_id s' = Some i \<Longrightarrow> current_id s = Some i \<and> keeps_asking i e \<and> kbhit s' = key_after (kbhit s) [e] \<and> stays_open E [e] s s'"
  shows "asked_since E p (es @ [e]) s'"
  unfolding asked_since_def
proof (intro allI impI)
  fix i assume "current_id s' = Some i"
  from assms(2) [OF this] assms(1) obtain a t u b rs s0 s1 where b: "es = a @ Polled t u i # b" "\<forall>e \<in> set b. keeps_asking i e"
      "kbhit s = key_after 0 b" "consent_run E a (ctap1_server_new p) = Some (rs, s0)" "dialogue_opened E t u i s0 s1" "stays_open E b s1 s"
    and e: "keeps_asking i e" "kbhit s' = key_after (kbhit s) [e]" "stays_open E [e] s s'"
    unfolding asked_since_def by blast
  have "es @ [e] = a @ Polled t u i # (b @ [e])" "\<forall>e \<in> set (b @ [e]). keeps_asking i e" "kbhit s' = key_after 0 (b @ [e])"
    using b(1-3) e(1,2) by auto
  with b(4,5) stays_open_append [OF b(6) e(3)]
  show "\<exists>a t u b rs s0 s1. es @ [e] = a @ Polled t u i # b \<and> (\<forall>e \<in> set b. keeps_asking i e) \<and> kbhit s' = key_after 0 b
     \<and> consent_run E a (ctap1_server_new p) = Some (rs, s0) \<and> dialogue_opened E t u i s0 s1 \<and> stays_open E b s1 s'" by blast
qed

lemma open_request_opens:
  assumes "open_request E now utc app s = Some (r, s')"
  shows "\<not> r \<and> current_id s' = Some app \<and> kbhit s' = 0
    \<and> (\<exists>title body. ctap1_out s' = ctap1_out s @ [ShowNotice title body, StartListener, TimerRun])"
  using assms by (auto simp: open_request_def emit_def Let_def split: option.splits)

text \<open>A poll that finds no dialogue either refuses at once or opens one.\<close>

lemma poll_closed:
  assumes "poll_permission E now utc app s = Some (r, s')" and "current_id s = None" and "current_id s' = Some i"
  shows "i = app \<and> kbhit s' = 0 \<and> dialogue_opened E now utc app s s'"
proof -
  obtain s0 where "open_request E now utc app s0 = Some (r, s')" "ctap1_out s0 = ctap1_out s"
    using assms by (auto simp: poll_permission_def split: option.splits if_splits)
  with open_request_opens [of E now utc app s0 r s'] assms(1,3) show ?thesis by (auto simp: dialogue_opened_def)
qed

text \<open>A poll that leaves the dialogue open took none down.\<close>

lemma poll_kept:
  assumes "poll_permission E now utc app s = Some (r, s')" and "current_id s = Some j" and "current_id s' = Some i"
  shows "i = j \<and> app = i \<and> kbhit s' = kbhit s \<and> stays_open E [Polled now utc app] s s'"
  using assms by (auto simp: poll_permission_def poll_open_def emit_def Let_def stays_open_def split: if_splits)

lemma asked_since_poll:
  assumes "asked_since E p es s" and "consent_run E es (ctap1_server_new p) = Some (rs, s)"
    and "poll_permission E now utc app s = Some (r, s')"
  shows "asked_since E p (es @ [Polled now utc app]) s'"
proof (cases "current_id s")
  case None
  show ?thesis
    unfolding asked_since_def
  proof (intro allI impI)
    fix i assume i: "current_id s' = Some i"
    have "es @ [Polled now utc i] = es @ Polled now utc i # []" "\<forall>e \<in> set []. keeps_asking i e" by simp_all
    with poll_closed [OF assms(3) None i] assms(2)
    show "\<exists>a t u b rs s0 s1. es @ [Polled now utc app] = a @ Polled t u i # b \<and> (\<forall>e \<in> set b. keeps_asking i e) \<and> kbhit s' = key_after 0 b
       \<and> consent_run E a (ctap1_server_new p) = Some (rs, s0) \<and> dialogue_opened E t u i s0 s1 \<and> stays_open E b s1 s'"
      by (metis key_after.simps(1) stays_open_nil)
  qed
next
  case (Some j)
  show ?thesis
    by (rule asked_since_extend [OF assms(1)]) (use poll_kept [OF assms(3) Some] Some in auto)
qed

lemma asked_since_run: "consent_run E es (ctap1_server_new p) = Some (rs, s) \<Longrightarrow> asked_since E p es s"
proof (induction es arbitrary: rs s rule: rev_induct)
  case Nil
  then show ?case by (auto simp: asked_since_def ctap1_server_new_def)
next
  case (snoc e es)
  then obtain rs1 s1 rs2 where s1: "consent_run E es (ctap1_server_new p) = Some (rs1, s1)" "consent_run E [e] s1 = Some (rs2, s)"
    unfolding consent_run_append by (auto split: option.splits)
  from snoc.IH [OF s1(1)] have inv: "asked_since E p es s1" .
  show ?case
  proof (cases e)
    case (Polled now utc app)
    with s1(2) asked_since_poll [OF inv s1(1)] show ?thesis by (auto split: option.splits)
  next
    case (Noted utc name app)
    with s1(2) have "current_id s = current_id s1" "kbhit s = kbhit s1" "\<exists>shown. ctap1_out s = ctap1_out s1 @ shown \<and> CloseNotice \<notin> set shown"
      by (auto simp: update_app_info_def emit_def Let_def split: option.splits if_splits prod.splits)
    with s1(2) Noted show ?thesis by (intro asked_since_extend [OF inv]) (auto simp: stays_open_def)
  qed (use s1(2) in \<open>auto intro!: asked_since_extend [OF inv] simp: force_timeout_def emit_def stays_open_def\<close>)
qed

text \<open>A dialogue was opened for the application and not closed since, by whoever, and the last key pressed since does not deny.\<close>

definition pressed_for :: "ctap1_setting \<Rightarrow> pddb \<Rightarrow> bytes \<Rightarrow> consent_event list \<Rightarrow> bool" where
  "pressed_for E p app es \<longleftrightarrow> (\<exists>a t u b c d rs s0 s1 s. es = a @ Polled t u app # b @ Pressed c # d \<and> c \<noteq> 0 \<and> c \<noteq> DENY_KEY
     \<and> (\<forall>x. Pressed x \<notin> set d) \<and> (\<forall>e \<in> set (b @ d). keeps_asking app e)
     \<and> consent_run E a (ctap1_server_new p) = Some (rs, s0) \<and> dialogue_opened E t u app s0 s1 \<and> stays_open E (b @ Pressed c # d) s1 s)"

lemma approval_pressed:
  assumes "asked_since E p es s" and "poll_permission E now utc app s = Some (True, s')"
  shows "pressed_for E p app es"
proof -
  from assms(2) have s: "current_id s = Some app" "kbhit s \<noteq> 0" "kbhit s \<noteq> DENY_KEY"
    by (auto simp: poll_permission_def poll_open_def open_request_def emit_def Let_def split: option.splits if_splits)
  with assms(1) obtain a t u b rs s0 s1 where b: "es = a @ Polled t u app # b" "\<forall>e \<in> set b. keeps_asking app e"
      "kbhit s = key_after 0 b" and opened: "consent_run E a (ctap1_server_new p) = Some (rs, s0)" "dialogue_opened E t u app s0 s1"
      "stays_open E b s1 s"
    unfolding asked_since_def by blast
  from key_pressed [of 0 b] s(2) b(3) obtain b' d where split: "b = b' @ Pressed (kbhit s) # d" "\<forall>c. Pressed c \<notin> set d" by auto
  have "es = a @ Polled t u app # b' @ Pressed (kbhit s) # d" "\<forall>e \<in> set (b' @ d). keeps_asking app e" using b(1,2) split(1) by auto
  with s(2,3) split opened show ?thesis unfolding pressed_for_def by blast
qed

text \<open>C17: However polls, keys, closings and notes interleave, the server approves a poll of an application only if its dialogue was opened for
  that very application by an earlier poll; since then no dialogue was taken down (by an approval, a denial, the end of the
  time, the timer or the poll of another application), only that application polled, and the last key pressed
  is not the key that denies.\<close>

theorem u2f_approval_needs_a_key:
  assumes "consent_run E (es @ [Polled now utc app]) (ctap1_server_new p) = Some (rs @ [True], s)"
  shows "pressed_for E p app es"
proof -
  from assms obtain rs1 s1 s2 where "consent_run E es (ctap1_server_new p) = Some (rs1, s1)"
      "poll_permission E now utc app s1 = Some (True, s2)"
    unfolding consent_run_append by (auto split: option.splits)
  with asked_since_run approval_pressed show ?thesis by blast
qed

definition quiet_setting :: ctap1_setting where
  "quiet_setting = \<lparr>u_text = (\<lambda>t. t), u_hex_encode = (\<lambda>_. ''00''), u_hex_decode = (\<lambda>_. None), u_debug_bytes = (\<lambda>_. []),
     u_timestamp_ok = (\<lambda>_. True)\<rparr>"

text \<open>Any key approves, the one too that the power manager sends when the badge is turned over, which the loop for CTAP2 ignores.\<close>

lemma turning_the_badge_approves:
  "\<exists>s. consent_run quiet_setting [Polled 0 0 [1], Pressed 0x1F53D, Polled 300 0 [1]] (ctap1_server_new []) = Some ([False, True], s)"
  "g_now g = now \<Longrightarrow> g_key g = 0x1F53D \<Longrightarrow> g_sends g \<Longrightarrow> now + 10 ^ 9 \<le> e \<Longrightarrow> decided e g = None"
proof -
  have "1000000000 div 1000000000 \<le> (e - now) div (1000000000 :: nat)" if "now + 10 ^ 9 \<le> e"
    using that by (intro div_le_mono) simp
  then show "g_now g = now \<Longrightarrow> g_key g = 0x1F53D \<Longrightarrow> g_sends g \<Longrightarrow> now + 10 ^ 9 \<le> e \<Longrightarrow> decided e g = None"
    by (simp add: decided_def approve_keys_def DENY_KEY_def)
qed (simp add: ctap1_server_new_def poll_permission_def open_request_def find_app_def pddb_get_def poll_open_def emit_def Let_def
    DENY_KEY_def)

theorem u2f_approval_needs_a_key_witness:
  "pressed_for quiet_setting [] [1] [Polled 0 0 [1], Pressed 0x2193, Pressed 0x2191]"
proof -
  have "\<exists>s. consent_run quiet_setting ([Polled 0 0 [1], Pressed 0x2193, Pressed 0x2191] @ [Polled 300 0 [1]]) (ctap1_server_new [])
      = Some ([False] @ [True], s)"
    by (simp add: ctap1_server_new_def poll_permission_def open_request_def find_app_def pddb_get_def poll_open_def emit_def Let_def
        DENY_KEY_def)
  then obtain s where "consent_run quiet_setting ([Polled 0 0 [1], Pressed 0x2193, Pressed 0x2191] @ [Polled 300 0 [1]])
      (ctap1_server_new []) = Some ([False] @ [True], s)" ..
  from u2f_approval_needs_a_key [OF this] show ?thesis .
qed

end
