(* ===== verification/Ctap_U2f.thy ===== *)
theory Ctap_U2f
  imports Ctap_Consent Ctap_Authenticator
begin

text \<open>
  The older protocol of the security key: command frames (\<open>src/ctap/apdu.rs\<close>) and U2F registration and authentication
  (\<open>src/ctap/ctap1.rs\<close>).  On this platform the presence of the user is asked of the server in \<open>Ctap_Consent\<close>, once for each request of the
  host, and the state \<open>U2fUserPresenceState\<close> is never changed.
\<close>

section \<open>Frames\<close>

datatype apdu_status = SW_SUCCESS | SW_GET_RESPONSE | SW_MEMERR | SW_WRONG_DATA | SW_WRONG_LENGTH | SW_COND_USE_NOT_SATISFIED
  | SW_COMMAND_NOT_ALLOWED | SW_FILE_NOT_FOUND | SW_INCORRECT_P1P2 | SW_INS_INVALID | SW_CLA_INVALID | SW_INTERNAL_EXCEPTION

fun apdu_code :: "apdu_status \<Rightarrow> 16 word" where
  "apdu_code SW_SUCCESS = 0x9000"
| "apdu_code SW_GET_RESPONSE = 0x6100"
| "apdu_code SW_MEMERR = 0x6501"
| "apdu_code SW_WRONG_DATA = 0x6a80"
| "apdu_code SW_WRONG_LENGTH = 0x6700"
| "apdu_code SW_COND_USE_NOT_SATISFIED = 0x6985"
| "apdu_code SW_COMMAND_NOT_ALLOWED = 0x6986"
| "apdu_code SW_FILE_NOT_FOUND = 0x6a82"
| "apdu_code SW_INCORRECT_P1P2 = 0x6a86"
| "apdu_code SW_INS_INVALID = 0x6d00"
| "apdu_code SW_CLA_INVALID = 0x6e00"
| "apdu_code SW_INTERNAL_EXCEPTION = 0x6f00"

record apdu_header =
  h_cla :: u8
  h_ins :: u8
  h_p1 :: u8
  h_p2 :: u8

datatype apdu_case = Le1 | Lc1Data | Lc1DataLe1 | Lc3Data | Lc3DataLe1 | Lc3DataLe2 | Le3

datatype apdu_type = Instruction | Short apdu_case | Extended apdu_case

record apdu =
  ap_header :: apdu_header
  ap_lc :: "16 word"
  ap_data :: bytes
  ap_le :: u32
  ap_case :: apdu_type

definition APDU_HEADER_LEN :: nat where "APDU_HEADER_LEN = 4"

definition be16 :: "u8 \<Rightarrow> u8 \<Rightarrow> nat" where
  "be16 hi lo = 256 * unat hi + unat lo"

definition le_or_256 :: "u8 \<Rightarrow> u32" where
  "le_or_256 b = (if b = 0 then 0x100 else ucast b)"

definition le_or_65536 :: "nat \<Rightarrow> u32" where
  "le_or_65536 n = (if n = 0 then 0x10000 else word_of_nat n)"

text \<open>A frame with a length of three bytes, of which the first is zero.\<close>

definition parse_extended :: "apdu_header \<Rightarrow> bytes \<Rightarrow> apdu_status + apdu" where
  "parse_extended h p =
     (let lc = be16 (p ! 1) (p ! 2) in
      if length p < lc + 3 then Inl SW_WRONG_LENGTH else
      let le_len = length p - (lc + 3) in
      if le_len > 3 then Inl SW_WRONG_LENGTH
      else if hd p = 0 then
        (if le_len = 3 \<and> p ! (length p - 3) \<noteq> 0 then Inl SW_INTERNAL_EXCEPTION else
         Inr \<lparr>ap_header = h, ap_lc = word_of_nat lc, ap_data = drop 3 (take (length p - le_len) p),
           ap_le = (if le_len = 0 then 0 else if le_len = 1 then le_or_256 (last p)
             else le_or_65536 (be16 (p ! (length p - 2)) (p ! (length p - 1)))),
           ap_case = Extended (if le_len = 0 then Lc3Data else if le_len = 1 then Lc3DataLe1 else if le_len = 2 then Lc3DataLe2 else Le3)\<rparr>)
      else Inl SW_INTERNAL_EXCEPTION)"

definition apdu_try_from :: "bytes \<Rightarrow> apdu_status + apdu" where
  "apdu_try_from frame =
     (if length frame < APDU_HEADER_LEN then Inl SW_WRONG_DATA else
      let h = \<lparr>h_cla = frame ! 0, h_ins = frame ! 1, h_p1 = frame ! 2, h_p2 = frame ! 3\<rparr>; p = drop APDU_HEADER_LEN frame in
      if p = [] then Inr \<lparr>ap_header = h, ap_lc = 0, ap_data = [], ap_le = 0, ap_case = Instruction\<rparr>
      else if length p = 1 then Inr \<lparr>ap_header = h, ap_lc = 0, ap_data = [], ap_le = le_or_256 (hd p), ap_case = Short Le1\<rparr>
      else if length p = 1 + unat (hd p) \<and> hd p \<noteq> 0 then
        Inr \<lparr>ap_header = h, ap_lc = ucast (hd p), ap_data = tl p, ap_le = 0, ap_case = Short Lc1Data\<rparr>
      else if length p = 2 + unat (hd p) \<and> hd p \<noteq> 0 then
        Inr \<lparr>ap_header = h, ap_lc = ucast (hd p), ap_data = butlast (tl p), ap_le = le_or_256 (last p), ap_case = Short Lc1DataLe1\<rparr>
      else if length p > 2 then parse_extended h p
      else Inl SW_INTERNAL_EXCEPTION)"

section \<open>Commands\<close>

datatype ctap1_flags = CheckOnly | EnforceUpAndSign | DontEnforceUpAndSign

definition ctap1_flags_of :: "u8 \<Rightarrow> apdu_status + ctap1_flags" where
  "ctap1_flags_of b = (if b = 0x07 then Inr CheckOnly else if b = 0x03 then Inr EnforceUpAndSign
     else if b = 0x08 then Inr DontEnforceUpAndSign else Inl SW_WRONG_DATA)"

datatype u2f_command =
    Register bytes bytes
  | Authenticate bytes bytes bytes ctap1_flags
  | U2fVersion
  | VendorSpecific bytes

text \<open>Slices beyond the data are panics, \<open>None\<close>.\<close>

definition u2f_command_of :: "bytes \<Rightarrow> (apdu_status + u2f_command) option" where
  "u2f_command_of message = (case apdu_try_from message of Inl c \<Rightarrow> Some (Inl c)
   | Inr a \<Rightarrow>
      let lc = unat (ap_lc a); d = ap_data a; ins = h_ins (ap_header a) in
      if h_cla (ap_header a) \<noteq> 0 then Some (Inl SW_CLA_INVALID)
      else if lc \<noteq> length d \<and> lc + 2 \<noteq> length d then Some (Inl SW_WRONG_LENGTH)
      else if ins = 0x01 then
        (if lc \<noteq> 64 then Some (Inl SW_WRONG_LENGTH) else if length d < 64 then None
         else Some (Inr (Register (take 32 d) (take 32 (drop 32 d)))))
      else if ins = 0x02 then
        (if lc < 65 then Some (Inl SW_WRONG_LENGTH) else if length d < 65 then None
         else if lc \<noteq> 65 + unat (d ! 64) then Some (Inl SW_WRONG_LENGTH)
         else (case ctap1_flags_of (h_p1 (ap_header a)) of Inl c \<Rightarrow> Some (Inl c)
           | Inr fl \<Rightarrow> Some (Inr (Authenticate (take 32 d) (take 32 (drop 32 d)) (drop 65 d) fl))))
      else if ins = 0x03 then (if lc \<noteq> 0 then Some (Inl SW_WRONG_LENGTH) else Some (Inr U2fVersion))
      else if 0x40 \<le> ins \<and> ins \<le> 0xBF then Some (Inr (VendorSpecific d))
      else Some (Inl SW_INS_INVALID))"

section \<open>Processing\<close>

text \<open>The security key with the server that asks for U2F; an operation gives an error of the protocol, a value, or a panic.\<close>

type_synonym u2f_state = "authenticator \<times> ctap1_server"
type_synonym 'a u2f_op = "u2f_state \<Rightarrow> (apdu_status + 'a) option \<times> u2f_state"

definition u2f_give :: "'a \<Rightarrow> 'a u2f_op" where "u2f_give x = (\<lambda>s. (Some (Inr x), s))"
definition u2f_refuse :: "apdu_status \<Rightarrow> 'a u2f_op" where "u2f_refuse c = (\<lambda>s. (Some (Inl c), s))"
definition u2f_panic :: "'a u2f_op" where "u2f_panic = (\<lambda>s. (None, s))"

definition u2f_bind :: "'a u2f_op \<Rightarrow> ('a \<Rightarrow> 'b u2f_op) \<Rightarrow> 'b u2f_op" where
  "u2f_bind f g = (\<lambda>s. case f s of
     (None, s') \<Rightarrow> (None, s') | (Some (Inl c), s') \<Rightarrow> (Some (Inl c), s') | (Some (Inr x), s') \<Rightarrow> g x s')"

text \<open>An operation of the security key, whose errors become one of the protocol.\<close>

definition u2f_try :: "(ctap_status \<Rightarrow> apdu_status) \<Rightarrow> 'a env_op \<Rightarrow> 'a u2f_op" where
  "u2f_try err f = (\<lambda>(a, c). case f (au_env a) of
     (Good x, e) \<Rightarrow> (Some (Inr x), a\<lparr>au_env := e\<rparr>, c)
   | (Bad b, e) \<Rightarrow> (Some (Inl (err b)), a\<lparr>au_env := e\<rparr>, c)
   | (Crash, e) \<Rightarrow> (None, a\<lparr>au_env := e\<rparr>, c))"

text \<open>An error of the attestation store, known by the status that CTAP2 gives it.\<close>

definition apdu_of_attestation :: "ctap_status \<Rightarrow> apdu_status" where
  "apdu_of_attestation c = (if c = CTAP2_ERR_VENDOR_HARDWARE_FAILURE then SW_MEMERR else SW_INTERNAL_EXCEPTION)"

text \<open>The clock of the server in milliseconds, the time in seconds, and the user's answer when asked for the name of an application.\<close>

record moment =
  at_ms :: nat
  at_utc :: nat
  app_name :: "string option"

text \<open>An approval is noted by a later message to the same server; nothing else of the security key comes between.  A panic of the
  server counts as one here.\<close>

definition consume_up :: "ctap1_setting \<Rightarrow> moment \<Rightarrow> bytes \<Rightarrow> bool u2f_op" where
  "consume_up E t app = (\<lambda>(a, c). case poll_permission E (at_ms t) (int (at_utc t)) app c of
     None \<Rightarrow> (None, a, c)
   | Some (False, c') \<Rightarrow> (Some (Inr False), a, c')
   | Some (True, c') \<Rightarrow> (case update_app_info E (at_utc t) (app_name t) app c' of
       None \<Rightarrow> (None, a, c') | Some c'' \<Rightarrow> (Some (Inr True), a, c'')))"

definition uncompressed :: "bytes \<times> bytes \<Rightarrow> bytes" where
  "uncompressed pk = [0x04] @ fst pk @ snd pk"

definition LEGACY_BYTE :: u8 where "LEGACY_BYTE = 0x05"
definition USER_PRESENCE_INDICATOR_BYTE :: u8 where "USER_PRESENCE_INDICATOR_BYTE = 0x01"

definition process_register :: "setting \<Rightarrow> bytes \<Rightarrow> bytes \<Rightarrow> bytes u2f_op" where
  "process_register S challenge application =
     u2f_bind (u2f_try (\<lambda>_. SW_INTERNAL_EXCEPTION) (private_key_new (signing S) Es256)) (\<lambda>key.
     u2f_bind (u2f_try (\<lambda>_. SW_INTERNAL_EXCEPTION) (ecdsa_key (signing S) key)) (\<lambda>sk.
     u2f_bind (u2f_try (\<lambda>_. SW_INTERNAL_EXCEPTION) (encrypt_to_credential_id (prims S) key application None None)) (\<lambda>key_handle.
     if length key_handle > 0xFF then u2f_refuse SW_INTERNAL_EXCEPTION else
     u2f_bind (u2f_try apdu_of_attestation (attestation_get Batch)) (\<lambda>found. case found of
         None \<Rightarrow> u2f_refuse SW_INTERNAL_EXCEPTION
       | Some att \<Rightarrow>
         let user_pk = uncompressed (ecdsa_pub (signing S) sk);
             signature_data = [0x00] @ application @ challenge @ key_handle @ user_pk in
         if \<not> scalar_ok (signing S) (att_private_key att) then u2f_panic
         else u2f_give ([LEGACY_BYTE] @ user_pk @ [word_of_nat (length key_handle)] @ key_handle @ att_certificate att
           @ ecdsa_sign (signing S) (att_private_key att) signature_data)))))"

definition process_authenticate :: "setting \<Rightarrow> bytes \<Rightarrow> bytes \<Rightarrow> bytes \<Rightarrow> ctap1_flags \<Rightarrow> bytes u2f_op" where
  "process_authenticate S challenge application key_handle flags =
     u2f_bind (u2f_try (\<lambda>_. SW_WRONG_DATA) (decrypt_credential_id (prims S) key_handle application)) (\<lambda>source. case source of
         None \<Rightarrow> u2f_refuse SW_WRONG_DATA
       | Some c \<Rightarrow>
         u2f_bind (u2f_try (\<lambda>_. SW_WRONG_DATA) (ecdsa_key (signing S) (cr_key c))) (\<lambda>sk.
         if flags = CheckOnly then u2f_refuse SW_COND_USE_NOT_SATISFIED else
         u2f_bind (u2f_try (\<lambda>_. SW_WRONG_DATA) increment_global_signature_counter) (\<lambda>_.
         u2f_bind (u2f_try (\<lambda>_. SW_WRONG_DATA) (generate_auth_data application USER_PRESENCE_INDICATOR_BYTE)) (\<lambda>auth_data.
         u2f_give (take 5 (drop (length application) auth_data) @ ecdsa_sign (signing S) sk (auth_data @ challenge))))))"

definition process_u2f :: "setting \<Rightarrow> ctap1_setting \<Rightarrow> moment \<Rightarrow> bytes \<Rightarrow> bytes u2f_op" where
  "process_u2f S E t message =
     u2f_bind (u2f_try (\<lambda>_. SW_INTERNAL_EXCEPTION) has_always_uv) (\<lambda>always.
     if always then u2f_refuse SW_COMMAND_NOT_ALLOWED else
     case u2f_command_of message of
       None \<Rightarrow> u2f_panic
     | Some (Inl c) \<Rightarrow> u2f_refuse c
     | Some (Inr (Register challenge application)) \<Rightarrow>
         u2f_bind (consume_up E t application) (\<lambda>up. if \<not> up then u2f_refuse SW_COND_USE_NOT_SATISFIED
           else process_register S challenge application)
     | Some (Inr (Authenticate challenge application key_handle flags)) \<Rightarrow>
         u2f_bind (if flags = EnforceUpAndSign then consume_up E t application else u2f_give True) (\<lambda>up.
           if \<not> up then u2f_refuse SW_COND_USE_NOT_SATISFIED
           else process_authenticate S challenge application key_handle flags)
     | Some (Inr U2fVersion) \<Rightarrow> u2f_give (bytes_of U2F_VERSION_STRING)
     | Some (Inr (VendorSpecific _)) \<Rightarrow> u2f_refuse SW_SUCCESS)"

end
