(* ===== verification/Ctap_U2f_Properties.thy ===== *)
theory Ctap_U2f_Properties
  imports Ctap_U2f Ctap_Assertions
begin

text \<open>
  What U2F promises: no frame makes the parser panic, a signature is by the key of the sealed credential and, when presence is
  to be enforced, comes after the user's key press for that application; and what is registered can be used.
\<close>

section \<open>Frames\<close>

lemma apdu_data_length:
  assumes "apdu_try_from f = Inr a"
  shows "length (ap_data a) = unat (ap_lc a)"
proof -
  have u8: "unat (ucast (b :: u8) :: 16 word) = unat b" for b
    using unat_byte [of b] by (simp add: unsigned_ucast_eq take_bit_eq_mod)
  have be: "be16 x y < 65536" for x y
    using unat_byte [of x] unat_byte [of y] by (simp add: be16_def)
  have "length (ap_data a) = unat (ap_lc a)" if "parse_extended h p = Inr a" "length p > 2" for h p
    using that be [of "p ! 1" "p ! 2"] by (auto simp: parse_extended_def Let_def unat_of_nat split: if_splits)
  with assms show ?thesis by (auto simp: apdu_try_from_def Let_def u8 split: if_splits)
qed

lemma some_if: "(b \<Longrightarrow> x \<noteq> None) \<Longrightarrow> (\<not> b \<Longrightarrow> y \<noteq> None) \<Longrightarrow> (if b then x else y) \<noteq> None"
  by simp

lemma frames_parse: "u2f_command_of m \<noteq> None"
proof (cases "apdu_try_from m")
  case (Inr a)
  define n where "n = unat (ap_lc a)"
  have len: "length (ap_data a) = n" using apdu_data_length [OF Inr] by (simp add: n_def)
  have flags: "(case f of Inl c \<Rightarrow> Some (Inl c) | Inr fl \<Rightarrow> Some (Inr (g fl))) \<noteq> None" for f :: "apdu_status + ctap1_flags" and g :: "ctap1_flags \<Rightarrow> u2f_command"
    by (simp split: sum.split)
  show ?thesis unfolding u2f_command_of_def Inr sum.case Let_def len n_def [symmetric]
    by (intro some_if flags option.distinct(2)) linarith+
qed (simp add: u2f_command_of_def)

lemma authenticate_parts:
  assumes "u2f_command_of m = Some (Inr (Authenticate challenge app kh flags))"
  shows "length challenge = 32 \<and> length app = 32"
proof -
  have flags: "(case f of Inl c \<Rightarrow> Some (Inl c) | Inr fl \<Rightarrow> Some (Inr (Authenticate x y z fl))) = Some (Inr (Authenticate c a k l)) \<Longrightarrow> c = x \<and> a = y"
    for f :: "apdu_status + ctap1_flags" and x y z c a k l
    by (simp split: sum.splits)
  obtain a where a: "apdu_try_from m = Inr a" using assms by (auto simp: u2f_command_of_def split: sum.splits)
  have Q: "(if b then p else q) = r \<Longrightarrow> (b \<Longrightarrow> p = r \<Longrightarrow> Q) \<Longrightarrow> (\<not> b \<Longrightarrow> q = r \<Longrightarrow> Q) \<Longrightarrow> Q"
    for b Q and p q r :: "(apdu_status + u2f_command) option"
    by (simp split: if_splits)
  show ?thesis
    using assms unfolding u2f_command_of_def Let_def a sum.case
    by (elim Q) (auto dest!: flags)
qed

section \<open>Results\<close>

lemma u2f_bind_result:
  assumes "u2f_bind f g s = (Some (Inr y), s')"
  obtains x s1 where "f s = (Some (Inr x), s1)" "g x s1 = (Some (Inr y), s')"
  using assms by (auto simp: u2f_bind_def split: prod.splits option.splits sum.splits)

lemma u2f_try_result:
  assumes "u2f_try err f s = (Some (Inr x), s')"
  obtains e where "f (au_env (fst s)) = (Good x, e)" "s' = ((fst s)\<lparr>au_env := e\<rparr>, snd s)"
  using assms by (cases s) (auto simp: u2f_try_def split: prod.splits outcome.splits)

lemma consume_up_result:
  assumes "consume_up E t app (a, c) = (Some (Inr up), s')"
  shows "fst s' = a \<and> (up \<longrightarrow> (\<exists>c'. poll_permission E (at_ms t) (int (at_utc t)) app c = Some (True, c')))"
  using assms by (auto simp: consume_up_def split: option.splits prod.splits bool.splits)

lemmas u2f_steps = u2f_give_def u2f_refuse_def u2f_panic_def

lemma process_authenticate_result:
  assumes "process_authenticate S challenge app kh flags (a, c) = (Some (Inr r), s')" and "length app = 32"
  shows "\<exists>cred seed n. opened (prims S) (au_env a) app cred \<and> cr_id cred = kh \<and> cr_key cred = Ecdsa seed \<and> flags \<noteq> CheckOnly
    \<and> r = [1] @ be_bytes32 n @ ecdsa_sign (signing S) seed (app @ [1] @ be_bytes32 n @ challenge) \<and> snd s' = c"
proof -
  obtain cred e1 sk e2 u e3 d e4 where
    cred: "decrypt_credential_id (prims S) kh app (au_env a) = (Good (Some cred), e1)" and
    sk: "ecdsa_key (signing S) (cr_key cred) e1 = (Good sk, e2)" and
    d: "generate_auth_data app USER_PRESENCE_INDICATOR_BYTE e3 = (Good d, e4)" and
    fl: "flags \<noteq> CheckOnly" and
    r: "r = take 5 (drop (length app) d) @ ecdsa_sign (signing S) sk (d @ challenge)" and s': "snd s' = c"
    using assms(1) unfolding process_authenticate_def
    by (auto elim!: u2f_bind_result u2f_try_result simp: u2f_steps split: option.splits if_splits)
  from sk obtain seed where seed: "cr_key cred = Ecdsa seed" "sk = seed"
    by (auto simp: ecdsa_key_def ecdsa_key_from_seed_def give_def refuse_def split: private_key.splits if_splits)
  from auth_data_result [OF d] obtain n where n: "d = app @ [1] @ be_bytes32 n" by (auto simp: USER_PRESENCE_INDICATOR_BYTE_def)
  have "opened (prims S) (au_env a) app cred" "cr_id cred = kh"
    using cred decrypt_result [OF cred] by (auto simp: opened_def keyring_def)
  with seed fl s' r n show ?thesis by (auto simp: be_bytes32_def)
qed

text \<open>C6: A U2F signature is made with the key of a credential sealed for the application that asks, over the application, the presence byte, the
  counter and the challenge, as the response says; and where presence is to be enforced, the user's key press for
  that application came first, whatever else polled before.\<close>

theorem u2f_signature_needs_a_key:
  assumes "consent_run E es (ctap1_server_new p) = Some (rs, c)"
    and "u2f_command_of m = Some (Inr (Authenticate challenge app kh flags))"
    and "process_u2f S E t m (a, c) = (Some (Inr r), s')"
  shows "\<exists>cred seed n e. opened (prims S) e app cred \<and> keyring (au_env a) e \<and> cr_id cred = kh \<and> cr_key cred = Ecdsa seed
    \<and> r = [1] @ be_bytes32 n @ ecdsa_sign (signing S) seed (app @ [1] @ be_bytes32 n @ challenge)
    \<and> flags \<noteq> CheckOnly \<and> (flags = EnforceUpAndSign \<longrightarrow> pressed_for E p app es)"
proof -
  obtain u s1 where u: "u2f_try (\<lambda>_. SW_INTERNAL_EXCEPTION) has_always_uv (a, c) = (Some (Inr u), s1)" and rest: "\<not> u"
      "u2f_bind (if flags = EnforceUpAndSign then consume_up E t app else u2f_give True)
        (\<lambda>up. if \<not> up then u2f_refuse SW_COND_USE_NOT_SATISFIED else process_authenticate S challenge app kh flags) s1 = (Some (Inr r), s')"
    using assms(3) unfolding process_u2f_def assms(2) option.case sum.case u2f_command.case
    by (elim u2f_bind_result) (simp add: u2f_refuse_def split: if_splits)
  then obtain up s2 where s1: "(if flags = EnforceUpAndSign then consume_up E t app else u2f_give True) s1 = (Some (Inr up), s2)" "up"
      "process_authenticate S challenge app kh flags s2 = (Some (Inr r), s')"
    by (elim u2f_bind_result) (simp add: u2f_refuse_def split: if_splits)
  from u2f_try_result [OF u] obtain e where e: "has_always_uv (au_env a) = (Good u, e)" "s1 = (a\<lparr>au_env := e\<rparr>, c)" by auto
  have "keyring (au_env a) e" using movesD [OF ringing_reads [OF has_always_uv_reads] e(1)] .
  moreover have "fst s2 = a\<lparr>au_env := e\<rparr>" "flags = EnforceUpAndSign \<Longrightarrow> pressed_for E p app es"
    using s1(1,2) e(2) consume_up_result [of E t app "a\<lparr>au_env := e\<rparr>" c up s2] approval_pressed [OF asked_since_run [OF assms(1)]]
    by (auto simp: u2f_steps split: if_splits)
  moreover have "\<exists>cred seed n. opened (prims S) (au_env (fst s2)) app cred \<and> cr_id cred = kh \<and> cr_key cred = Ecdsa seed \<and> flags \<noteq> CheckOnly
    \<and> r = [1] @ be_bytes32 n @ ecdsa_sign (signing S) seed (app @ [1] @ be_bytes32 n @ challenge) \<and> snd s' = snd s2"
    using process_authenticate_result [of S challenge app kh flags "fst s2" "snd s2" r s'] s1(3) authenticate_parts [OF assms(2)] by simp
  moreover have "au_env (fst s2) = e" using calculation(2) by simp
  ultimately show ?thesis by blast
qed

section \<open>What is registered works\<close>

lemma counter_runs:
  assumes "failing e = []" and "pred_option (\<lambda>v. length v = 4) (held e GLOBAL_SIGNATURE_COUNTER)"
  obtains e' n where "increment_global_signature_counter e = (Good (), e')" and "failing e' = []"
    and "\<And>k. k \<noteq> GLOBAL_SIGNATURE_COUNTER \<Longrightarrow> held e' k = held e k"
    and "\<And>h f. generate_auth_data h f e' = (Good (h @ [f] @ be_bytes32 n), e')"
proof -
  have count: "\<exists>n. global_signature_counter f = (Good n, f)"
    if "failing f = []" "pred_option (\<lambda>v. length v = 4) (held f GLOBAL_SIGNATURE_COUNTER)" for f
    using that by (cases "held f GLOBAL_SIGNATURE_COUNTER") (auto simp: global_signature_counter_def attempt_def steps)
  obtain m where m: "global_signature_counter e = (Good m, e)" using count [OF assms] by blast
  show thesis
  proof (cases "use_signature_counter (custom e)")
    case True
    let ?r = "entropy e (drawn e)"
    let ?e = "put GLOBAL_SIGNATURE_COUNTER (le_bytes32 (m + (u32_from_le (?r ! 0) (?r ! 1) (?r ! 2) (?r ! 3) mod 8 + 1))) (e\<lparr>drawn := Suc (drawn e)\<rparr>)"
    have m': "global_signature_counter (e\<lparr>drawn := Suc (drawn e)\<rparr>) = (Good m, e\<lparr>drawn := Suc (drawn e)\<rparr>)"
      using m assms by (auto simp: global_signature_counter_def attempt_def steps split: option.splits if_splits)
    have run: "increment_global_signature_counter e = (Good (), ?e)"
      using assms(1) True by (simp add: increment_global_signature_counter_def incr_global_signature_counter_def attempt_def
          gen_uniform_u8x32_def m' steps)
    obtain n where "global_signature_counter ?e = (Good n, ?e)"
      using count [of ?e] assms(1) by (auto simp: le_bytes32_def)
    then have "generate_auth_data h f ?e = (Good (h @ [f] @ be_bytes32 n), ?e)" for h f
      by (simp add: generate_auth_data_def attempt_def steps)
    from that [OF run _ _ this] assms(1) show thesis by simp
  next
    case False
    then have run: "increment_global_signature_counter e = (Good (), e)"
      by (simp add: increment_global_signature_counter_def attempt_def steps)
    have "generate_auth_data h f e = (Good (h @ [f] @ be_bytes32 m), e)" for h f
      using m by (simp add: generate_auth_data_def attempt_def steps)
    from that [OF run assms(1) _ this] show thesis by simp
  qed
qed

text \<open>A key that can register: whole master keys, an attestation, and a counter that can be read.\<close>

definition can_register :: "setting \<Rightarrow> attestation \<Rightarrow> ctap_env \<Rightarrow> bool" where
  "can_register S att e \<longleftrightarrow> block_cipher (prims S) \<and> (\<forall>m. length (sha256 (prims S) m) = 32) \<and> keys_whole e
     \<and> (\<forall>n. length (new_scalar (signing S) n) = 32 \<and> scalar_ok (signing S) (new_scalar (signing S) n))
     \<and> held e PRIVATE_KEY_STORAGE_KEY = Some (att_private_key att) \<and> held e CERTIFICATE_STORAGE_KEY = Some (att_certificate att)
     \<and> length (att_private_key att) = 32 \<and> scalar_ok (signing S) (att_private_key att)
     \<and> pred_option (\<lambda>v. length v = 4) (held e GLOBAL_SIGNATURE_COUNTER)"

lemma u2f_try_Good: "f (au_env a) = (Good x, e) \<Longrightarrow> u2f_try err f (a, c) = (Some (Inr x), a\<lparr>au_env := e\<rparr>, c)"
  and u2f_try_Bad: "f (au_env a) = (Bad b, e) \<Longrightarrow> u2f_try err f (a, c) = (Some (Inl (err b)), a\<lparr>au_env := e\<rparr>, c)"
  by (simp_all add: u2f_try_def)

lemma u2f_bind_Inr: "f s = (Some (Inr x), s') \<Longrightarrow> u2f_bind f g s = g x s'"
  and u2f_bind_Inl: "f s = (Some (Inl b), s') \<Longrightarrow> u2f_bind f g s = (Some (Inl b), s')"
  by (simp_all add: u2f_bind_def)

lemma registered_works:
  assumes "can_register S att (au_env a)" and "length app = 32"
  obtains seed kh e n where "process_register S challenge app (a, c) = (Some (Inr ([LEGACY_BYTE] @ uncompressed (ecdsa_pub (signing S) seed)
      @ [241] @ kh @ att_certificate att @ ecdsa_sign (signing S) (att_private_key att)
        ([0] @ app @ challenge @ kh @ uncompressed (ecdsa_pub (signing S) seed)))), (a\<lparr>au_env := e\<rparr>, c))" and "length kh = 241"
    and "failing e = []" and "custom e = custom (au_env a)" and "held e ALWAYS_UV = held (au_env a) ALWAYS_UV"
    and "\<And>ch h fl. fst (process_authenticate S ch h kh fl (a\<lparr>au_env := e\<rparr>, c)) = Some (if h \<noteq> app then Inl SW_WRONG_DATA
        else if fl = CheckOnly then Inl SW_COND_USE_NOT_SATISFIED
        else Inr ([1] @ be_bytes32 n @ ecdsa_sign (signing S) seed (app @ [1] @ be_bytes32 n @ ch)))"
proof -
  let ?e = "au_env a" and ?k = "new_scalar (signing S) (drawn (au_env a))"
  let ?e1 = "?e\<lparr>drawn := Suc (drawn ?e)\<rparr>"
  have S: "block_cipher (prims S)" "\<forall>m. length (sha256 (prims S) m) = 32" "length ?k = 32" "scalar_ok (signing S) ?k"
    and whole: "keys_whole ?e1" using assms(1) by (simp_all add: can_register_def keys_whole_def)
  obtain kh e2 where kh: "encrypt_to_credential_id (prims S) (Ecdsa ?k) app None None ?e1 = (Good kh, e2)" "length kh = 241"
      "keys_whole e2" "\<And>n. n \<noteq> STORAGE_KEY \<Longrightarrow> held e2 n = held ?e1 n" "custom e2 = custom ?e1"
    and opens: "\<And>h f. failing f = [] \<Longrightarrow> held f STORAGE_KEY = held e2 STORAGE_KEY \<Longrightarrow>
      decrypt_credential_id (prims S) kh h f = (Good (if h = app then Some \<lparr>cr_type = PublicKey, cr_id = kh, cr_key = Ecdsa ?k,
       cr_rp_id = [], cr_user_handle = [], cr_user_display_name = None, cr_policy = None, cr_order = 0, cr_user_name = None,
       cr_user_icon = None, cr_blob = None, cr_large_blob_key = None\<rparr> else None), f)"
    by (rule sealed_opens [OF S(1,2) whole, of "Ecdsa ?k" app None None]) (use S(3) assms(2) in auto)
  have e2: "failing e2 = []" using kh(3) by (simp add: keys_whole_def)
  have att: "attestation_get Batch e2 = (Good (Some att), e2)"
    using assms(1) e2 kh(4) by (simp add: can_register_def attestation_get_def attestation_helper_get_def attested_def attempt_def
        faultless steps PRIVATE_KEY_STORAGE_KEY_def CERTIFICATE_STORAGE_KEY_def STORAGE_KEY_def)
  let ?pk = "uncompressed (ecdsa_pub (signing S) ?k)"
  have register: "process_register S challenge app (a, c) = (Some (Inr ([LEGACY_BYTE] @ ?pk @ [241] @ kh @ att_certificate att
      @ ecdsa_sign (signing S) (att_private_key att) ([0] @ app @ challenge @ kh @ ?pk))), (a\<lparr>au_env := e2\<rparr>, c))"
    using S(4) kh(1,2) att assms(1)
    by (simp add: process_register_def u2f_bind_def u2f_try_def u2f_steps private_key_new_def ecdsa_key_def ecdsa_key_from_seed_def give_def
        can_register_def Let_def)
  have "pred_option (\<lambda>v. length v = 4) (held e2 GLOBAL_SIGNATURE_COUNTER)"
    using kh(4) assms(1) by (simp add: can_register_def GLOBAL_SIGNATURE_COUNTER_def STORAGE_KEY_def)
  from counter_runs [OF e2 this] obtain e3 n where count: "increment_global_signature_counter e2 = (Good (), e3)"
      "\<And>h f. generate_auth_data h f e3 = (Good (h @ [f] @ be_bytes32 n), e3)"
    by metis
  have "fst (process_authenticate S ch h kh fl (a\<lparr>au_env := e2\<rparr>, c)) = Some (if h \<noteq> app then Inl SW_WRONG_DATA
        else if fl = CheckOnly then Inl SW_COND_USE_NOT_SATISFIED
        else Inr ([1] @ be_bytes32 n @ ecdsa_sign (signing S) ?k (app @ [1] @ be_bytes32 n @ ch)))" for ch h fl
    using opens [OF e2 refl, of h] S(4) count
    by (simp add: process_authenticate_def u2f_bind_def u2f_try_def u2f_steps ecdsa_key_def ecdsa_key_from_seed_def give_def
        USER_PRESENCE_INDICATOR_BYTE_def be_bytes32_def)
  from that [OF register kh(2) e2 _ _ this] kh(4,5) show thesis by (simp add: ALWAYS_UV_def STORAGE_KEY_def)
qed

text \<open>C15: A registration gives the public key and a key handle of 241 bytes, signed with the attestation key; afterwards the key handle authenticates for
  the application that registered, with a signature by that key over any challenge, and is refused for any other
  application and when only a check is asked.\<close>

theorem u2f_key_handle_works:
  assumes "can_register S att (au_env a)" and "length app = 32"
  shows "\<exists>seed kh a'. process_register S challenge app (a, c) = (Some (Inr ([LEGACY_BYTE] @ uncompressed (ecdsa_pub (signing S) seed)
      @ [241] @ kh @ att_certificate att @ ecdsa_sign (signing S) (att_private_key att)
        ([0] @ app @ challenge @ kh @ uncompressed (ecdsa_pub (signing S) seed)))), (a', c)) \<and> length kh = 241
    \<and> (\<forall>ch h fl. \<exists>n. fst (process_authenticate S ch h kh fl (a', c)) = Some (if h \<noteq> app then Inl SW_WRONG_DATA
        else if fl = CheckOnly then Inl SW_COND_USE_NOT_SATISFIED
        else Inr ([1] @ be_bytes32 n @ ecdsa_sign (signing S) seed (app @ [1] @ be_bytes32 n @ ch))))"
  using registered_works [OF assms, of challenge c] by metis

text \<open>A key with an attestation, and the frame of an authentication with a key handle of 241 bytes.\<close>

definition issued_env :: ctap_env where
  "issued_env = put CERTIFICATE_STORAGE_KEY [] (put PRIVATE_KEY_STORAGE_KEY (replicate 32 9) empty_env)"

definition issued_attestation :: attestation where
  "issued_attestation = \<lparr>att_private_key = replicate 32 9, att_certificate = []\<rparr>"

lemma issued_registers: "can_register obliging issued_attestation issued_env"
  by (simp add: can_register_def obliging_def flat_primitives_def block_cipher_def keys_whole_def issued_env_def issued_attestation_def
      PRIVATE_KEY_STORAGE_KEY_def CERTIFICATE_STORAGE_KEY_def STORAGE_KEY_def GLOBAL_SIGNATURE_COUNTER_def)
    (simp add: empty_env_def held_def dict_of_def)

lemma authenticate_frame:
  assumes "length ch = 32" and "length app = 32" and "length kh = 241"
  shows "u2f_command_of ([0, 2, p1, 0, 0, 1, 50] @ ch @ app @ [241] @ kh) =
    Some (case ctap1_flags_of p1 of Inl c \<Rightarrow> Inl c | Inr fl \<Rightarrow> Inr (Authenticate ch app kh fl))"
proof -
  have "apdu_try_from ([0, 2, p1, 0, 0, 1, 50] @ ch @ app @ [241] @ kh) = Inr \<lparr>ap_header = \<lparr>h_cla = 0, h_ins = 2, h_p1 = p1, h_p2 = 0\<rparr>,
      ap_lc = 306, ap_data = ch @ app @ [241] @ kh, ap_le = 0, ap_case = Extended Lc3Data\<rparr>"
    using assms by (simp add: apdu_try_from_def APDU_HEADER_LEN_def parse_extended_def be16_def Let_def)
  then show ?thesis
    using assms by (simp add: u2f_command_of_def nth_append Let_def split: sum.split)
qed

lemma issued_device: obtains a :: authenticator where "au_env a = issued_env"
  using that [of "undefined\<lparr>au_env := issued_env\<rparr>"] by simp

theorem u2f_key_handle_works_witness:
  "\<exists>a a' r kh. au_env a = issued_env \<and> process_register obliging [7] (replicate 32 2) (a, ctap1_server_new []) = (Some (Inr r), a', ctap1_server_new [])
    \<and> length kh = 241 \<and> fst (process_authenticate obliging [8] (replicate 32 2) kh CheckOnly (a', ctap1_server_new [])) = Some (Inl SW_COND_USE_NOT_SATISFIED)"
proof -
  obtain a :: authenticator where a: "au_env a = issued_env" by (rule issued_device)
  with issued_registers have "can_register obliging issued_attestation (au_env a)" by simp
  from u2f_key_handle_works [OF this length_replicate, of "[7]" 2 "ctap1_server_new []"] show ?thesis
    by (elim exE conjE) (intro exI conjI, rule a, assumption, assumption, drule spec [of _ "[8]"],
      drule spec [of _ "replicate 32 2"], drule spec [of _ CheckOnly], simp)
qed

definition first_moment :: moment where "first_moment = \<lparr>at_ms = 0, at_utc = 0, app_name = None\<rparr>"

text \<open>The third way to ask does not wait for the user, and yet the response says that the user was present.\<close>

theorem u2f_signature_needs_a_key_witness:
  "\<exists>a kh r s' cred e. process_u2f obliging quiet_setting first_moment ([0, 2, 8, 0, 0, 1, 50] @ replicate 32 3 @ replicate 32 2 @ [241] @ kh)
      (a, ctap1_server_new []) = (Some (Inr r), s') \<and> hd r = 1 \<and> snd s' = ctap1_server_new []
    \<and> opened (prims obliging) e (replicate 32 2) cred \<and> cr_id cred = kh"
proof -
  let ?c = "ctap1_server_new []" and ?app = "replicate 32 2 :: bytes"
  obtain a :: authenticator where a: "au_env a = issued_env" by (rule issued_device)
  with issued_registers have can: "can_register obliging issued_attestation (au_env a)" by simp
  obtain seed kh e n where kh: "length kh = 241" "failing e = []" "custom e = custom issued_env" "held e ALWAYS_UV = held issued_env ALWAYS_UV"
    "\<And>ch h fl. fst (process_authenticate obliging ch h kh fl (a\<lparr>au_env := e\<rparr>, ?c)) = Some (if h \<noteq> ?app then Inl SW_WRONG_DATA
        else if fl = CheckOnly then Inl SW_COND_USE_NOT_SATISFIED
        else Inr ([1] @ be_bytes32 n @ ecdsa_sign (signing obliging) seed (?app @ [1] @ be_bytes32 n @ ch)))"
    by (rule registered_works [OF can, of ?app "[7]" ?c]) (auto simp: a)
  have "held e ALWAYS_UV = None" "custom e = DEFAULT_CUSTOMIZATION"
    using kh(3,4) by (simp_all add: issued_env_def ALWAYS_UV_def PRIVATE_KEY_STORAGE_KEY_def CERTIFICATE_STORAGE_KEY_def)
      (simp_all add: empty_env_def held_def dict_of_def put_def Let_def)
  then have uv: "has_always_uv e = (Good False, e)"
    using kh(2) by (simp add: has_always_uv_def attempt_def DEFAULT_CUSTOMIZATION_def flag_def steps)
  let ?a = "a\<lparr>au_env := e\<rparr>" and ?m = "[0, 2, 8, 0, 0, 1, 50] @ replicate 32 3 @ ?app @ [241] @ kh"
  have m: "u2f_command_of ?m = Some (Inr (Authenticate (replicate 32 3) ?app kh DontEnforceUpAndSign))"
    using kh(1) by (subst authenticate_frame) (simp_all add: ctap1_flags_of_def)
  have same: "process_u2f obliging quiet_setting first_moment ?m (?a, ?c) = process_authenticate obliging (replicate 32 3) ?app kh DontEnforceUpAndSign (?a, ?c)"
    unfolding process_u2f_def m option.case sum.case u2f_command.case u2f_bind_def u2f_try_def prod.case
    by (simp add: uv u2f_steps)
  with kh(5) [of "replicate 32 3" ?app DontEnforceUpAndSign] obtain r s' where r: "process_u2f obliging quiet_setting first_moment ?m (?a, ?c) = (Some (Inr r), s')"
    by (cases "process_authenticate obliging (replicate 32 3) ?app kh DontEnforceUpAndSign (?a, ?c)") simp
  have "consent_run quiet_setting [] ?c = Some ([], ?c)" by simp
  from u2f_signature_needs_a_key [OF this m r] obtain cred e' where "opened (prims obliging) e' ?app cred" "cr_id cred = kh" "hd r = 1" by auto
  moreover have "snd s' = ?c" using process_authenticate_result [OF r [unfolded same]] by auto
  ultimately show ?thesis using r by blast
qed

end
