(* ===== verification/Spec2Isabelle.thy ===== *)
theory Spec2Isabelle
  imports Badge_Prelude Light_Genes Xous_Messages Led_Engine Image_Upload Power_Manager Badge_Config Item_Cache Totp Records
    Vault_Store Generator Ui_Screens Vault_Ui Gene_Exchange Vault_Main Vault_Actions Action_Thread Action_Properties
    Ctap_Store Ctap_Cbor Ctap_Storage Ctap_Crypto Ctap_Pin Ctap_Pin_Safety Ctap_Pin_Guesses Ctap_Pin_Runs Ctap_Hid Ctap_Hid_Properties
    Ctap_Maps Ctap_Credentials Ctap_Accounts Ctap_Credential_Id Ctap_Commands Ctap_Responses Ctap_Session Ctap_Management Ctap_Authenticator
    Ctap_Reset Ctap_Assertions Ctap_Consent Ctap_U2f Ctap_U2f_Properties
begin

text \<open>
  A verification development for the firmware of the DEF CON 34 badge (\<open>src/firmware\<close>): the vault application, which is the
  badge's user interface, password manager, gene game and security key (\<open>src/firmware/src\<close>), the console, which holds the LED
  engine, the picture upload and the power manager (\<open>src/firmware/dc34-console\<close>), what the two share
  (\<open>src/firmware/dc34-api\<close>), and the libraries the security key is built on (\<open>src/firmware/libraries\<close>).  File names below are
  relative to these directories.

  \<^bold>\<open>The program.\<close>  Two processes run on the Xous kernel and talk by messages.  The console serves LED commands, stores pictures that
  arrive over its serial shell, and runs the power manager, which reads the accelerometer and decides when the badge sleeps.
  The vault runs several threads: the main loop (\<open>main.rs\<close>), which draws (\<open>ux.rs\<close>) and handles keys; the actions thread
  (\<open>actions.rs\<close>), which holds dialogues, keeps the password and one-time-code records in the plausibly deniable database (PDDB,
  \<open>storage.rs\<close>) and fills the display lists (\<open>itemcache.rs\<close>); a thread that paces the animation (\<open>totp.rs\<close>); the security key
  (\<open>fido2.rs\<close>, \<open>ctap/\<close>), which answers packets of the USB host and asks the user for consent.  The badge has a diploid genome that
  drives its LEDs; two badges exchange gametes by showing each other QR codes, encrypted under a key that badges share and a nonce
  that the reader drew (\<open>config.rs\<close>, \<open>main.rs\<close>).

  \<^bold>\<open>How it is modelled.\<close>  Pure functions are HOL functions.  A stateful operation takes its state and returns it changed.  Errors are
  values: \<open>Inl\<close> of a sum, \<open>Bad\<close> of an \<open>outcome\<close> (\<open>Ctap_Store\<close>), \<open>None\<close> where a function of the source gives \<open>None\<close>.  A panic is a
  value of its own: \<open>None\<close> or \<open>Crash\<close>, or \<open>Panic\<close> of the type \<open>stop\<close>, whose other value \<open>Hang\<close> is a loop or a
  wait that never ends; what was output before a panic is not part of its result.  Machine integers are words; release builds wrap, and \<open>usize\<close> has 32 bits on the target, which is written
  out where a cast cuts.  A string is the list of the bytes of its UTF-8 form, and letter case is that of ASCII.  Instants and durations are
  in nanoseconds, at most \<open>instant_max\<close>.  Loops are recursive functions; the loops that may not end (nonces, strict
  passwords, the dialogues) are partial functions into \<open>option\<close>, and where the code means them to end it is proved that they do or
  exactly when they do.  The reply of a splitter is drained with the fuel \<open>MAX_PACKETS = 129\<close>, one first and 128 further packets, which is all
  that a message within the limit needs (\<open>Ctap_Hid_Properties.split_message_reassembles\<close>).

  What the program calls but does not contain is a parameter: base64, base45, base32 and the hex crate, CRC-32, the keyed hashes of one-time
  codes, SHA-256, AES (as a block cipher with its inverse), AES-GCM-SIV, P-256 and Ed25519, every draw of the random generator, clocks,
  the answers of dialogues, the user's consent, localized texts, and hardware inputs.  What the code relies on of them is a named
  hypothesis, e.g. \<open>block_cipher\<close>.  The PDDB is a map of dictionaries.  For the vault it is open and its requests succeed; for the
  security key each request may fail, as the fault list \<open>failing\<close> of the environment says; a request that fails has had no effect, so
  a write of several pages that fails midway is not modelled.  The build has the default features
  (\<open>with_ctap1\<close>, \<open>ed25519\<close>, \<open>xous\<close>; not \<open>vendor_hid\<close>).

  \<^bold>\<open>Theories of the badge.\<close>
  \<open>Badge_Prelude\<close>: integer types, byte codecs, the parts of Rust's string library the sources call, the dictionary of persistent
  keys with the locale \<open>key_store\<close>.
  \<open>Light_Genes\<close> (\<open>dc34-api/src/lib.rs\<close>): badge types, genomes and their encodings, meiosis, mutation in Gray code; ranges
  of colours are kept, gametes link.
  \<open>Xous_Messages\<close>: kernel messages and their accessors.
  \<open>Led_Engine\<close> (\<open>leds.rs\<close>, \<open>bio/lightgenes\<close>, \<open>cmds/led.rs\<close>): the LED server, the words sent to the coprocessor and its decoder; a
  forced gene reaches the renderer unchanged.
  \<open>Image_Upload\<close> (\<open>cmds/image.rs\<close>, \<open>cmds/imagedc.rs\<close>, \<open>cmds/fps.rs\<close>): chunks in any order, completion, stored frames.
  \<open>Power_Manager\<close> (\<open>power.rs\<close>): the server's loop as a step relation, beside it the thread that power off spawns and the changing
  registers of the accelerometer; its invariant over reachable states, when it suspends.
  \<open>Badge_Config\<close> (\<open>config.rs\<close>): boot, gene cache with undo, nonces, always-on.
  \<open>Ui_Screens\<close>, \<open>Vault_Ui\<close> (\<open>ux.rs\<close>): key-driven screens as instances of the locale \<open>key_screen\<close>; what drawing and keys do to the state.
  \<open>Gene_Exchange\<close>, \<open>Vault_Main\<close> (\<open>main.rs\<close>): what a scanned code does, one turn of the main loop per message; mating, what is stored when.
  \<open>Item_Cache\<close> (\<open>itemcache.rs\<close>): display lists over a binary search (locale \<open>slice_search\<close>) refine a map.
  \<open>Totp\<close>, \<open>Records\<close>, \<open>Vault_Store\<close>, \<open>Generator\<close> (\<open>totp.rs\<close>, \<open>storage.rs\<close>, \<open>vault_api.rs\<close>, \<open>generator.rs\<close>): codes, records and their text, the
  record manager over the bases (locale \<open>record_kind\<close>), passwords.
  \<open>Vault_Actions\<close>, \<open>Action_Thread\<close>, \<open>Action_Properties\<close> (\<open>actions.rs\<close>, \<open>action_handler.rs\<close>): every message of the actions thread; what its
  dialogues guarantee, by the locale \<open>dialogue_invariant\<close> for predicates that every dialogue keeps.

  \<^bold>\<open>Theories of the security key.\<close>
  \<open>Ctap_Store\<close> (\<open>persistent_store/src/store.rs\<close>, \<open>fragment.rs\<close>): the store over the PDDB refines a finite map; the combinators \<open>attempt\<close>, \<open>give\<close>,
  \<open>refuse\<close> in which all later operations are written; the locale \<open>number_store\<close>.
  \<open>Ctap_Cbor\<close>, \<open>Ctap_Maps\<close> (\<open>cbor/src\<close>): values, writer, reader, maps with optional entries; round trip.
  \<open>Ctap_Storage\<close> (\<open>ctap/storage.rs\<close>, \<open>storage/key.rs\<close>): the persistent values; the collections \<open>steps\<close>, \<open>reading\<close>, \<open>sparing\<close> of rules about them.
  \<open>Ctap_Crypto\<close>, \<open>Ctap_Pin\<close> (\<open>crypto/src\<close>, \<open>pin_protocol.rs\<close>, \<open>client_pin.rs\<close>, \<open>token_state.rs\<close>, \<open>timed_permission.rs\<close>) with
  \<open>Ctap_Pin_Safety\<close>, \<open>Ctap_Pin_Guesses\<close>, \<open>Ctap_Pin_Runs\<close>: what protects the PIN on any run of client PIN commands, faults and power cycles; how many guesses
  there are; that guesses tell nothing else.
  \<open>Ctap_Hid\<close>, \<open>Ctap_Hid_Properties\<close> (\<open>ctap/hid\<close>, \<open>main_hid.rs\<close>): packets, channels, splitter; messages reassemble, buffers are bounded.
  \<open>Ctap_Credentials\<close>, \<open>Ctap_Accounts\<close> (\<open>crypto_wrapper.rs\<close>, \<open>data_formats.rs\<close>, \<open>storage.rs\<close>): credentials and their records; the operations on them refine a
  bounded map from accounts to credentials.
  \<open>Ctap_Credential_Id\<close> (\<open>credential_id.rs\<close>): credentials sealed into identifiers; round trip.
  \<open>Ctap_Commands\<close>, \<open>Ctap_Responses\<close> (\<open>command.rs\<close>, \<open>data_formats.rs\<close>, \<open>response.rs\<close>): commands read from CBOR and responses written to it.
  \<open>Ctap_Session\<close>, \<open>Ctap_Management\<close>, \<open>Ctap_Authenticator\<close> (\<open>ctap/mod.rs\<close>, \<open>large_blobs.rs\<close>, \<open>config_command.rs\<close>,
  \<open>credential_management.rs\<close>): the authenticator's state and every CTAP2 command.
  \<open>Ctap_Reset\<close>, \<open>Ctap_Assertions\<close>: when the key may be reset, and that an assertion tells the truth, whatever fails.
  \<open>Ctap_Consent\<close> (\<open>env/xous/mod.rs\<close>), \<open>Ctap_U2f\<close>, \<open>Ctap_U2f_Properties\<close> (\<open>ctap1.rs\<close>, \<open>apdu.rs\<close>): how the user is asked, the older protocol, and
  that it signs only with the key sealed for the application and, when that is to be enforced, only after a key press for it.

  \<^bold>\<open>Not modelled.\<close>  Drawing, fonts, bitmaps and menus' widgets; the rendering loop of the LED coprocessor above its command decoder; analogue
  conversions and pin set-up; start-up code; the console's other commands; tests; the Xous system itself beyond the pieces above.  The
  manifest lists each with its reason.
\<close>

end
